(* ===== verification/JsText.thy ===== *)
theory JsText
  imports JsNum "HOL-Library.Sublist"
begin

text \<open>
  Strings and the string-to-number conversions.  A string is a list of ASCII characters; \<open>trim\<close>
  removes ASCII white space and the case conversions act on the 26 letters.  \<open>js_parse\<close> is
  \<open>Number(s)\<close>, \<open>js_parse_float\<close> is \<open>Number.parseFloat(s)\<close>.  The main lemma says that
  \<open>Number(String(x))\<close> is \<open>x\<close> for every number that a finite decimal denotes.
\<close>

section \<open>String operations\<close>

definition is_space :: "char \<Rightarrow> bool" where
  "is_space c = (c = CHR '' '' \<or> (9 \<le> (of_char c :: nat) \<and> (of_char c :: nat) \<le> 13))"

definition trim_start :: "string \<Rightarrow> string" where
  "trim_start s = dropWhile is_space s"

definition js_trim :: "string \<Rightarrow> string" where
  "js_trim s = rev (dropWhile is_space (rev (dropWhile is_space s)))"

definition upper_char :: "char \<Rightarrow> char" where
  "upper_char c = (let n = (of_char c :: nat) in if 97 \<le> n \<and> n \<le> 122 then char_of (n - 32) else c)"

definition lower_char :: "char \<Rightarrow> char" where
  "lower_char c = (let n = (of_char c :: nat) in if 65 \<le> n \<and> n \<le> 90 then char_of (n + 32) else c)"

definition to_upper :: "string \<Rightarrow> string" where
  "to_upper s = map upper_char s"

definition to_lower :: "string \<Rightarrow> string" where
  "to_lower s = map lower_char s"

fun starts_with :: "string \<Rightarrow> string \<Rightarrow> bool" where
  "starts_with [] s = True"
| "starts_with (c # cs) [] = False"
| "starts_with (c # cs) (d # ds) = (c = d \<and> starts_with cs ds)"

fun js_includes :: "string \<Rightarrow> string \<Rightarrow> bool" where
  "js_includes pat [] = (pat = [])"
| "js_includes pat (c # s) = (starts_with pat (c # s) \<or> js_includes pat s)"

fun join_with :: "string \<Rightarrow> string list \<Rightarrow> string" where
  "join_with sep [] = ''''"
| "join_with sep [x] = x"
| "join_with sep (x # y # ys) = x @ sep @ join_with sep (y # ys)"

fun split_at_char :: "char \<Rightarrow> string \<Rightarrow> string list" where
  "split_at_char d [] = [[]]"
| "split_at_char d (c # s) =
     (if c = d then [] # split_at_char d s
      else (case split_at_char d s of [] \<Rightarrow> [[c]] | w # ws \<Rightarrow> (c # w) # ws))"

lemma starts_with_prefix: "starts_with p s \<longleftrightarrow> prefix p s"
  by (induction p s rule: starts_with.induct) auto

lemma includes_sublist: "js_includes p s \<longleftrightarrow> sublist p s"
  by (induction s) (auto simp: starts_with_prefix sublist_Cons_right)

lemma of_char_upper: "(of_char (upper_char c) :: nat) =
    (if 97 \<le> (of_char c :: nat) \<and> (of_char c :: nat) \<le> 122 then of_char c - 32 else of_char c)"
  by (auto simp: upper_char_def Let_def)

lemma of_char_lower: "(of_char (lower_char c) :: nat) =
    (if 65 \<le> (of_char c :: nat) \<and> (of_char c :: nat) \<le> 90 then of_char c + 32 else of_char c)"
  by (auto simp: lower_char_def Let_def)

lemma char_eq_nat: "c = d \<longleftrightarrow> (of_char c :: nat) = of_char d"
  by (simp only: of_char_eq_iff)

lemma upper_char_idem [simp]: "upper_char (upper_char c) = upper_char c"
  by (rule char_eq_nat [THEN iffD2]) (auto simp: of_char_upper)

lemma lower_char_idem [simp]: "lower_char (lower_char c) = lower_char c"
  by (rule char_eq_nat [THEN iffD2]) (auto simp: of_char_lower)

lemma to_upper_idem [simp]: "to_upper (to_upper s) = to_upper s"
  by (simp add: to_upper_def)

lemma to_lower_idem [simp]: "to_lower (to_lower s) = to_lower s"
  by (simp add: to_lower_def)

lemma is_space_upper [simp]: "is_space (upper_char c) = is_space c"
proof -
  have "is_space d \<longleftrightarrow> (of_char d :: nat) = 32 \<or> 9 \<le> (of_char d :: nat) \<and> (of_char d :: nat) \<le> 13" for d
    using char_eq_nat [of d "CHR '' ''"] by (simp add: is_space_def)
  then show ?thesis
    using of_char_upper [of c] by (simp only: split: if_splits) (arith | simp)+
qed

lemma dropWhile_space_upper:
  "dropWhile is_space (map upper_char s) = map upper_char (dropWhile is_space s)"
  by (simp add: dropWhile_map comp_def)

lemma js_trim_upper: "js_trim (to_upper s) = to_upper (js_trim s)"
  by (simp add: js_trim_def to_upper_def dropWhile_space_upper rev_map)

lemma js_trim_idem [simp]: "js_trim (js_trim s) = js_trim s"
proof -
  define u where "u = dropWhile is_space s"
  have hd_u: "u = [] \<or> \<not> is_space (hd u)"
    unfolding u_def using hd_dropWhile by blast
  define v where "v = rev (dropWhile is_space (rev u))"
  have pre: "prefix v u"
    unfolding v_def by (metis rev_rev_ident suffix_dropWhile suffix_to_prefix)
  have "dropWhile is_space v = v"
    using hd_u pre by (cases v; cases u) auto
  moreover have "rev (dropWhile is_space (rev v)) = v"
    by (simp add: v_def)
  ultimately show ?thesis
    by (simp add: js_trim_def u_def [symmetric] v_def [symmetric])
qed

section \<open>Strings to numbers\<close>

definition is_digit :: "char \<Rightarrow> bool" where
  "is_digit c = (48 \<le> (of_char c :: nat) \<and> (of_char c :: nat) \<le> 57)"

definition digit_val :: "char \<Rightarrow> int" where
  "digit_val c = of_char c - 48"

definition digits_val :: "string \<Rightarrow> int" where
  "digits_val s = foldl (\<lambda>a c. 10 * a + digit_val c) 0 s"

definition span_digits :: "string \<Rightarrow> string \<times> string" where
  "span_digits s = (takeWhile is_digit s, dropWhile is_digit s)"

text \<open>An exponent part is taken only when it is complete.\<close>

definition exp_prefix :: "string \<Rightarrow> (int \<times> string) option" where
  "exp_prefix s =
     (case s of [] \<Rightarrow> None
      | c # cs \<Rightarrow>
          if c \<noteq> CHR ''e'' \<and> c \<noteq> CHR ''E'' then None
          else let (neg, ds) = (case cs of [] \<Rightarrow> (False, cs)
                     | d # ds' \<Rightarrow> if d = CHR ''-'' then (True, ds')
                                  else if d = CHR ''+'' then (False, ds') else (False, cs));
                   (e, r) = span_digits ds
               in if e = [] then None else Some ((if neg then - digits_val e else digits_val e), r))"

definition dec_prefix :: "string \<Rightarrow> (rat \<times> string) option" where
  "dec_prefix s =
     (let (ip, r1) = span_digits s;
          (fp, r2) = (case r1 of [] \<Rightarrow> ([], r1)
                      | c # cs \<Rightarrow> if c = CHR ''.'' then span_digits cs else ([], r1));
          m = of_int (digits_val (ip @ fp)) / 10 ^ length fp
      in if ip = [] \<and> fp = [] then None
         else case exp_prefix r2 of None \<Rightarrow> Some (m, r2) | Some (e, r3) \<Rightarrow> Some (m * 10 powi e, r3))"

definition unsigned_prefix :: "string \<Rightarrow> (jsnum \<times> string) option" where
  "unsigned_prefix s =
     (if starts_with ''Infinity'' s then Some (PosInf, drop 8 s)
      else map_option (\<lambda>(q, r). (Fin q, r)) (dec_prefix s))"

definition signed_prefix :: "string \<Rightarrow> (jsnum \<times> string) option" where
  "signed_prefix s =
     (case s of [] \<Rightarrow> None
      | c # cs \<Rightarrow> if c = CHR ''-'' then map_option (\<lambda>(x, r). (js_neg x, r)) (unsigned_prefix cs)
                  else if c = CHR ''+'' then unsigned_prefix cs else unsigned_prefix s)"

text \<open>Radix-prefixed integer literals (\<open>0x\<close>, \<open>0o\<close>, \<open>0b\<close>), which only \<open>Number(s)\<close> accepts.\<close>

definition radix_digit :: "char \<Rightarrow> int" where
  "radix_digit c =
     (let n = (of_char (lower_char c) :: int) in
      if 48 \<le> n \<and> n \<le> 57 then n - 48 else if 97 \<le> n \<and> n \<le> 122 then n - 87 else 99)"

definition radix_parse :: "int \<Rightarrow> string \<Rightarrow> jsnum" where
  "radix_parse b s =
     (if s = [] \<or> (\<exists>c \<in> set s. radix_digit c \<ge> b) then NaN
      else Fin (of_int (foldl (\<lambda>a c. b * a + radix_digit c) 0 s)))"

definition js_parse :: "string \<Rightarrow> jsnum" where
  "js_parse s =
     (let t = js_trim s; p = to_lower (take 2 t) in
      if t = [] then Fin 0
      else if p = ''0x'' then radix_parse 16 (drop 2 t)
      else if p = ''0o'' then radix_parse 8 (drop 2 t)
      else if p = ''0b'' then radix_parse 2 (drop 2 t)
      else case signed_prefix t of Some (x, []) \<Rightarrow> x | _ \<Rightarrow> NaN)"

definition js_parse_float :: "string \<Rightarrow> jsnum" where
  "js_parse_float s = (case signed_prefix (trim_start s) of Some (x, _) \<Rightarrow> x | None \<Rightarrow> NaN)"

section \<open>\<open>Number(String(x))\<close>\<close>

definition all_digits :: "string \<Rightarrow> bool" where
  "all_digits s = list_all is_digit s"

lemma all_digits_simps [simp]:
  "all_digits []" "all_digits (c # s) \<longleftrightarrow> is_digit c \<and> all_digits s"
  "all_digits (s @ t) \<longleftrightarrow> all_digits s \<and> all_digits t"
  by (simp_all add: all_digits_def)

lemma all_digits_take_drop: "all_digits s \<Longrightarrow> all_digits (take n s) \<and> all_digits (drop n s)"
  by (auto simp: all_digits_def list_all_iff dest: in_set_takeD in_set_dropD)

lemma all_digits_zeros [simp]: "all_digits (replicate n (CHR ''0''))"
  by (induction n) (auto simp: is_digit_def)

lemma span_all: "all_digits s \<Longrightarrow> r = [] \<or> \<not> is_digit (hd r) \<Longrightarrow> span_digits (s @ r) = (s, r)"
  unfolding span_digits_def all_digits_def list_all_iff
  by (cases r) (auto simp: takeWhile_append dropWhile_append takeWhile_eq_all_conv)

lemma digits_val_Nil [simp]: "digits_val [] = 0"
  by (simp add: digits_val_def)

lemma digits_val_snoc [simp]: "digits_val (s @ [c]) = 10 * digits_val s + digit_val c"
  by (simp add: digits_val_def)

lemma digits_val_append: "digits_val (s @ t) = digits_val s * 10 ^ length t + digits_val t"
proof (induction t rule: rev_induct)
  case (snoc c t)
  then show ?case
    using digits_val_snoc [of "s @ t" c] by (simp add: algebra_simps)
qed simp

lemma digits_val_zeros [simp]: "digits_val (replicate n (CHR ''0'')) = 0"
proof (induction n)
  case (Suc n)
  then show ?case
    using digits_val_append [of "[CHR ''0'']" "replicate n (CHR ''0'')"]
    by (simp add: digits_val_def digit_val_def)
qed simp

lemma digit_char_digit:
  assumes "0 \<le> d" "d < 10"
  shows "is_digit (digit_char d)" "digit_val (digit_char d) = d"
proof -
  from assms have "d = 0 \<or> d = 1 \<or> d = 2 \<or> d = 3 \<or> d = 4 \<or> d = 5 \<or> d = 6 \<or> d = 7 \<or> d = 8 \<or> d = 9"
    by arith
  then show "is_digit (digit_char d)" "digit_val (digit_char d) = d"
    by (auto simp: digit_char_def is_digit_def digit_val_def)
qed

lemma int_digits_correct:
  "0 \<le> n \<Longrightarrow> all_digits (int_digits n) \<and> digits_val (int_digits n) = n \<and> int_digits n \<noteq> []"
proof (induction n rule: int_digits.induct)
  case (1 n)
  show ?case
  proof (cases "n < 10")
    case True
    with 1 show ?thesis
      by (subst int_digits.simps) (simp add: int_digits.simps [of n] digit_char_digit digits_val_def)
  next
    case False
    then have "all_digits (int_digits (n div 10)) \<and> digits_val (int_digits (n div 10)) = n div 10"
      using "1.IH" by simp
    with False show ?thesis
      by (simp add: int_digits.simps [of n] digit_char_digit)
  qed
qed

lemma exp_prefix_Nil [simp]: "exp_prefix [] = None"
  by (simp add: exp_prefix_def)

lemma span_digits_only: "all_digits s \<Longrightarrow> span_digits s = (s, [])"
  using span_all [of s "[]"] by simp

lemma dec_prefix_int: "all_digits s \<Longrightarrow> s \<noteq> [] \<Longrightarrow> dec_prefix s = Some (of_int (digits_val s), [])"
  by (simp add: dec_prefix_def span_digits_only)

lemma not_digit_dot [simp]: "\<not> is_digit (CHR ''.'')" "\<not> is_digit (CHR ''e'')"
  by (simp_all add: is_digit_def)

lemma dec_prefix_frac:
  assumes "all_digits s" "all_digits t" "s \<noteq> []"
  shows "dec_prefix (s @ ''.'' @ t) = Some (of_int (digits_val (s @ t)) / 10 ^ length t, [])"
  using assms span_all [of s "''.'' @ t"]
  by (simp add: dec_prefix_def span_digits_only)

lemma exp_prefix_signed:
  assumes "all_digits e" "e \<noteq> []"
  shows "exp_prefix (''e'' @ (if neg then ''-'' else ''+'') @ e) =
    Some ((if neg then - digits_val e else digits_val e), [])"
  using assms by (simp add: exp_prefix_def span_digits_only)

lemma dec_prefix_exp:
  assumes "all_digits s" "all_digits t" "s \<noteq> []" "exp_prefix (CHR ''e'' # r) = Some (e, [])"
  shows "dec_prefix (s @ (if t = [] then '''' else ''.'' @ t) @ CHR ''e'' # r) =
    Some (of_int (digits_val (s @ t)) / 10 ^ length t * 10 powi e, [])"
  using assms span_all [of s "CHR ''e'' # r"] span_all [of s "''.'' @ t @ CHR ''e'' # r"]
    span_all [of t "CHR ''e'' # r"]
  by (simp add: dec_prefix_def)

lemma powi_minus: "(10 :: rat) powi (int a - int b) = 10 ^ a / 10 ^ b"
  by (simp add: power_int_diff)

text \<open>Reading back a digit layout gives the digits' value at the layout's exponent.\<close>

lemma dec_prefix_layout:
  assumes s: "all_digits s" "s \<noteq> []"
  shows "dec_prefix (digits_layout s n) =
    Some (of_int (digits_val s) * 10 powi (n - int (length s)), [])"
proof -
  let ?k = "int (length s)"
  consider (int) "?k \<le> n" "n \<le> 21" | (frac) "n < ?k" "0 < n" "n \<le> 21"
    | (small) "-6 < n" "n \<le> 0" "n < ?k" | (exp) "n > 21 \<or> n \<le> -6"
    using s(2) by (cases s) force+
  then show ?thesis
  proof cases
    case int
    then have "(10 :: rat) powi (n - ?k) = 10 ^ nat (n - ?k)"
      by (simp add: power_int_def)
    with int s show ?thesis
      by (simp add: digits_layout_def dec_prefix_int digits_val_append)
  next
    case frac
    define m where "m = nat n"
    have n: "n = int m" and m: "m < length s" "0 < m" using frac by (auto simp: m_def)
    have "(10 :: rat) powi (n - ?k) = 1 / 10 ^ (length s - m)"
      using m by (simp add: n power_int_def of_nat_diff nat_diff_distrib' inverse_eq_divide power_one_over)
    moreover have "digits_layout s n = take m s @ ''.'' @ drop m s"
      using frac by (simp add: digits_layout_def m_def)
    ultimately show ?thesis
      using s m dec_prefix_frac [of "take m s" "drop m s"] all_digits_take_drop [OF s(1)]
      by simp
  next
    case small
    define z where "z = replicate (nat (- n)) (CHR ''0'') @ s"
    have "digits_layout s n = ''0'' @ ''.'' @ z"
      using small by (simp add: digits_layout_def z_def)
    moreover have "digits_val (''0'' @ z) = digits_val s"
      using digits_val_append [of "''0''" z]
      by (simp add: z_def digits_val_append) (simp add: digits_val_def digit_val_def)
    moreover have "(10 :: rat) powi (n - ?k) = 1 / 10 ^ length z"
      using small by (simp add: z_def power_int_def nat_add_distrib nat_diff_distrib' inverse_eq_divide
          power_one_over algebra_simps)
    ultimately show ?thesis
      using s dec_prefix_frac [of "''0''" z] by (simp add: z_def is_digit_def)
  next
    case exp
    define e where "e = int_digits \<bar>n - 1\<bar>"
    have e: "all_digits e" "digits_val e = \<bar>n - 1\<bar>" "e \<noteq> []"
      using int_digits_correct [of "\<bar>n - 1\<bar>"] by (auto simp: e_def)
    define r where "r = (if n - 1 < 0 then ''-'' else ''+'') @ e"
    have er: "exp_prefix (CHR ''e'' # r) = Some (n - 1, [])"
      using exp_prefix_signed [OF e(1,3), of "n - 1 < 0"] e(2) by (auto simp: r_def)
    have lay: "digits_layout s n =
        take 1 s @ (if drop 1 s = [] then '''' else ''.'' @ drop 1 s) @ CHR ''e'' # r"
      using exp s by (cases s) (auto simp: digits_layout_def e_def r_def Let_def)
    have "(10 :: rat) powi (n - ?k) = 10 powi (n - 1) / 10 ^ (length s - 1)"
    proof -
      have "n - ?k = (n - 1) - int (length s - 1)" using s(2) by (cases s) auto
      moreover have "(10 :: rat) powi ((n - 1) - int (length s - 1)) = 10 powi (n - 1) / 10 powi int (length s - 1)"
        by (rule power_int_diff) simp
      ultimately show ?thesis by (simp only: power_int_of_nat)
    qed
    moreover have "dec_prefix (digits_layout s n) =
        Some (of_int (digits_val (take 1 s @ drop 1 s)) / 10 ^ length (drop 1 s) * 10 powi (n - 1), [])"
      unfolding lay
      using all_digits_take_drop [OF s(1), of 1] s(2) by (intro dec_prefix_exp [OF _ _ _ er]) auto
    ultimately show ?thesis by simp
  qed
qed

definition num_char :: "char \<Rightarrow> bool" where
  "num_char c = (is_digit c \<or> c \<in> set ''.e+-'')"

lemma is_digit_num_char [simp]: "is_digit c \<Longrightarrow> num_char c"
  by (simp add: num_char_def)

lemma num_char_no_space: "num_char c \<Longrightarrow> \<not> is_space c"
  by (auto simp: num_char_def is_digit_def is_space_def)

lemma num_char_lower: "num_char c \<Longrightarrow> lower_char c = c"
  by (auto simp: num_char_def is_digit_def lower_char_def)

lemma all_digits_num_char: "all_digits s \<Longrightarrow> list_all num_char s"
  by (auto simp: all_digits_def num_char_def list_all_iff)

lemma num_char_simps [simp]:
  "num_char (CHR ''.'')" "num_char (CHR ''e'')" "num_char (CHR ''+'')" "num_char (CHR ''-'')"
  "num_char (CHR ''0'')"
  by (simp_all add: num_char_def is_digit_def)

lemma int_digits_num_char: "0 \<le> m \<Longrightarrow> list_all num_char (int_digits m)"
  using int_digits_correct [of m] by (simp add: all_digits_num_char)

lemma zeros_num_char: "list_all num_char (replicate n (CHR ''0''))"
  by (induction n) auto

lemma layout_num_chars:
  assumes s: "all_digits s"
  shows "list_all num_char (digits_layout s n)"
proof -
  have td: "list_all num_char s" "\<And>m. list_all num_char (take m s)" "\<And>m. list_all num_char (drop m s)"
    using all_digits_take_drop [OF s] s by (auto intro: all_digits_num_char)
  show ?thesis
    unfolding digits_layout_def Let_def
    by (simp only: split: if_split)
      (simp add: int_digits_num_char zeros_num_char td)
qed

lemma layout_hd:
  assumes "all_digits s" "s \<noteq> []"
  shows "\<exists>c r. digits_layout s n = c # r \<and> is_digit c"
proof -
  obtain c r where "s = c # r" "is_digit c" using assms by (cases s) auto
  then show ?thesis
    by (cases "nat n") (auto simp: digits_layout_def Let_def is_digit_def)
qed

lemma trim_num_chars: "list_all num_char s \<Longrightarrow> js_trim s = s"
proof -
  assume s: "list_all num_char s"
  have "dropWhile is_space t = t" if "list_all num_char t" for t
    using that by (cases t) (auto dest: num_char_no_space)
  then show ?thesis using s by (simp add: js_trim_def)
qed

lemma num_chars_no_radix:
  assumes "list_all num_char s"
  shows "to_lower (take 2 s) \<notin> {''0x'', ''0o'', ''0b''}"
proof -
  have "list_all num_char (take 2 s)"
    using assms by (auto simp: list_all_iff dest: in_set_takeD)
  then have "to_lower (take 2 s) = take 2 s \<and> list_all num_char (take 2 s)"
    by (auto simp: to_lower_def list_all_iff num_char_lower intro!: map_idI)
  then show ?thesis
    by (auto simp: num_char_def is_digit_def)
qed

lemma unsigned_prefix_digit:
  "is_digit c \<Longrightarrow> unsigned_prefix (c # r) = map_option (\<lambda>(q, r). (Fin q, r)) (dec_prefix (c # r))"
  by (auto simp: unsigned_prefix_def is_digit_def)

lemma js_parse_layout:
  fixes n :: int
  assumes s: "all_digits s" "s \<noteq> []"
  defines "v \<equiv> of_int (digits_val s) * 10 powi (n - int (length s))"
  shows "js_parse (digits_layout s n) = Fin v"
    and "js_parse (CHR ''-'' # digits_layout s n) = Fin (- v)"
proof -
  obtain c r where l: "digits_layout s n = c # r" "is_digit c" using layout_hd [OF s] by blast
  have u: "unsigned_prefix (c # r) = Some (Fin v, [])"
    using dec_prefix_layout [OF s, of n] l by (simp add: unsigned_prefix_digit v_def)
  have nc: "list_all num_char (c # r)" using layout_num_chars [OF s(1)] l by metis
  have "c \<noteq> CHR ''-''" "c \<noteq> CHR ''+''" using l(2) by (auto simp: is_digit_def)
  then show "js_parse (digits_layout s n) = Fin v"
    using u num_chars_no_radix [OF nc]
    by (simp add: js_parse_def l trim_num_chars [OF nc] signed_prefix_def)
  have nc': "list_all num_char (CHR ''-'' # c # r)" using nc by (simp add: num_char_def)
  show "js_parse (CHR ''-'' # digits_layout s n) = Fin (- v)"
    using u num_chars_no_radix [OF nc']
    by (simp add: js_parse_def l trim_num_chars [OF nc'] signed_prefix_def)
qed

lemma strip_factor_correct:
  "strip_factor p n = (r, k) \<Longrightarrow> n = r * p ^ k \<and> (0 < n \<longrightarrow> 0 < r) \<and> (0 < n \<and> 1 < p \<longrightarrow> r mod p \<noteq> 0)"
proof (induction p n arbitrary: r k rule: strip_factor.induct)
  case (1 p n)
  show ?case
  proof (cases "1 < p \<and> 0 < n \<and> n mod p = 0")
    case True
    obtain r' k' where rk: "strip_factor p (n div p) = (r', k')" by fastforce
    with True 1(2) have "r = r'" "k = Suc k'"
      by (auto simp: strip_factor.simps [of p n])
    moreover have "0 < n div p"
      using True by (metis dvd_imp_mod_0 mod_0_imp_dvd dvd_div_eq_0_iff less_le
          pos_imp_zdiv_nonneg_iff order_less_trans zero_less_one)
    moreover have "n = n div p * p" using True by auto
    ultimately show ?thesis
      using 1(1) [OF True rk] by (metis mult.assoc power_Suc mult.commute)
  next
    case False
    with 1(2) have "r = n" "k = 0"
      by (auto simp: strip_factor.simps [of p n] split: if_splits)
    with False show ?thesis by auto
  qed
qed

text \<open>A number is a finite decimal when its denominator has no prime factor but 2 and 5.\<close>

definition is_decimal :: "rat \<Rightarrow> bool" where
  "is_decimal q = (dec_scale q \<noteq> None)"

lemma dec_scale_int:
  assumes "dec_scale q = Some k"
  shows "of_int \<lfloor>q * 10 ^ k\<rfloor> = q * 10 ^ k"
proof -
  obtain a d where q: "quotient_of q = (a, d)" by fastforce
  obtain d1 i where s2: "strip_factor 2 d = (d1, i)" by fastforce
  obtain d2 j where s5: "strip_factor 5 d1 = (d2, j)" by fastforce
  have d: "d = 2 ^ i * 5 ^ j" and k: "k = max i j"
  proof -
    have "d2 = 1 \<and> k = max i j" using assms by (simp add: dec_scale_def q s2 s5 split: if_splits)
    then show "d = 2 ^ i * 5 ^ j" "k = max i j"
      using strip_factor_correct [OF s2] strip_factor_correct [OF s5] by auto
  qed
  have "(10 :: int) ^ k = 2 ^ k * 5 ^ k"
    by (simp flip: power_mult_distrib)
  moreover have "(2 :: int) ^ i * 5 ^ j dvd 2 ^ k * 5 ^ k"
    using k by (intro mult_dvd_mono le_imp_power_dvd) auto
  ultimately obtain c where c: "(10 :: int) ^ k = d * c"
    unfolding d by (metis dvdE)
  have "q = of_int a / of_int d" using q by (rule quotient_of_div)
  moreover have "d > 0" using q by (rule quotient_of_denom_pos)
  moreover have "(10 :: rat) ^ k = of_int d * of_int c"
    using c by (metis of_int_mult of_int_power of_int_numeral)
  ultimately have "q * 10 ^ k = of_int (a * c)" by simp
  then show ?thesis by simp
qed

lemma dec_scale_minus: "dec_scale (- q) = dec_scale q"
proof -
  have "snd (quotient_of (- q)) = snd (quotient_of q)"
    by (simp add: rat_uminus_code Let_def split: prod.splits)
  then show ?thesis by (simp add: dec_scale_def)
qed

lemma pos_rat_string_layout:
  assumes "is_decimal q" "q > 0"
  obtains s n where "pos_rat_string q = digits_layout s n" "all_digits s" "s \<noteq> []"
    "of_int (digits_val s) * 10 powi (n - int (length s)) = q"
proof -
  obtain k where k: "dec_scale q = Some k" using assms(1) by (auto simp: is_decimal_def)
  define m where "m = \<lfloor>q * 10 ^ k\<rfloor>"
  have mq: "of_int m = q * 10 ^ k" using dec_scale_int [OF k] by (simp add: m_def)
  then have "m > 0" using assms(2) by (metis of_int_0_less_iff zero_less_mult_iff zero_less_power zero_less_numeral)
  obtain r z where rz: "strip_factor 10 m = (r, z)" by fastforce
  have r: "m = r * 10 ^ z" "0 < r" using strip_factor_correct [OF rz] \<open>m > 0\<close> by auto
  define s where "s = int_digits r"
  have s: "all_digits s" "digits_val s = r" "s \<noteq> []"
    using int_digits_correct [of r] r(2) by (auto simp: s_def)
  have "pos_rat_string q = digits_layout s (int (length s) + int z - int k)"
    by (simp add: pos_rat_string_def k rz m_def [symmetric] s_def Let_def)
  moreover have "of_int (digits_val s) * 10 powi (int (length s) + int z - int k - int (length s)) = q"
  proof -
    have "(of_int r :: rat) * 10 ^ z = q * 10 ^ k" using mq r(1) by simp
    then show ?thesis using s(2) by (simp add: powi_minus field_simps)
  qed
  ultimately show ?thesis using s that by blast
qed

theorem js_parse_string: "is_decimal q \<Longrightarrow> js_parse (jsnum_string (Fin q)) = Fin q"
proof -
  assume q: "is_decimal q"
  consider "q = 0" | "q > 0" | "q < 0" by linarith
  then show ?thesis
  proof cases
    case 1
    then show ?thesis by (simp add: rat_string_def) code_simp
  next
    case 2
    then obtain s n where "pos_rat_string q = digits_layout s n" "all_digits s" "s \<noteq> []"
      "of_int (digits_val s) * 10 powi (n - int (length s)) = q"
      using pos_rat_string_layout [OF q] by metis
    with 2 js_parse_layout(1) [of s n] show ?thesis by (simp add: rat_string_def)
  next
    case 3
    have "is_decimal (- q)" using q by (simp add: is_decimal_def dec_scale_minus)
    with 3 obtain s n where "pos_rat_string (- q) = digits_layout s n" "all_digits s" "s \<noteq> []"
      "of_int (digits_val s) * 10 powi (n - int (length s)) = - q"
      using pos_rat_string_layout [of "- q"] by (metis neg_0_less_iff_less)
    with 3 js_parse_layout(2) [of s n] show ?thesis by (simp add: rat_string_def)
  qed
qed

lemma rat_string_inj: "is_decimal p \<Longrightarrow> is_decimal q \<Longrightarrow> rat_string p = rat_string q \<Longrightarrow> p = q"
  using js_parse_string by (metis jsnum_string.simps(4) jsnum.inject)

section \<open>Percent encoding\<close>

definition hex_char :: "nat \<Rightarrow> char" where
  "hex_char d = ''0123456789ABCDEF'' ! d"

definition uri_unreserved :: "char \<Rightarrow> bool" where
  "uri_unreserved c =
     (is_digit c \<or> (let n = (of_char (lower_char c) :: nat) in 97 \<le> n \<and> n \<le> 122) \<or> c \<in> set ''-_.!~*()'' \<or> of_char c = (39 :: nat))"

definition encodeURIComponent :: "string \<Rightarrow> string" where
  "encodeURIComponent s = concat (map (\<lambda>c.
     if uri_unreserved c then [c]
     else [CHR ''%'', hex_char (of_char c div 16), hex_char (of_char c mod 16)]) s)"

section \<open>Reading back \<open>toFixed\<close>\<close>

lemma all_digits_zero_pad: "0 \<le> n \<Longrightarrow> all_digits (zero_pad k (int_digits n))"
  using int_digits_correct [of n] by (simp add: zero_pad_def)

lemma digits_val_zero_pad: "0 \<le> n \<Longrightarrow> digits_val (zero_pad k (int_digits n)) = n"
  using int_digits_correct [of n] by (simp add: zero_pad_def digits_val_append)

lemma length_zero_pad: "k \<le> length (zero_pad k s)"
  by (simp add: zero_pad_def)

text \<open>The digits of \<open>n\<close> with \<open>f\<close> decimals, split at the point.\<close>

lemma fixed_digits_split:
  assumes "0 \<le> n" "f \<noteq> 0"
  obtains a b where "fixed_digits f n = a @ ''.'' @ b" "all_digits a" "all_digits b" "a \<noteq> []"
    "length b = f" "digits_val (a @ b) = n"
proof -
  define s where "s = zero_pad (Suc f) (int_digits n)"
  have s: "all_digits s" "digits_val s = n" "Suc f \<le> length s"
    using assms(1) all_digits_zero_pad digits_val_zero_pad length_zero_pad by (auto simp: s_def)
  have "fixed_digits f n = take (length s - f) s @ ''.'' @ drop (length s - f) s"
    using assms(2) by (simp add: fixed_digits_def s_def Let_def)
  moreover have "take (length s - f) s \<noteq> []" "length (drop (length s - f) s) = f" using s(3) by auto
  ultimately show ?thesis
    using that all_digits_take_drop [OF s(1)] s(2) by (metis append_take_drop_id)
qed

lemma dec_prefix_fixed: "0 \<le> n \<Longrightarrow> dec_prefix (fixed_digits f n) = Some (of_int n / 10 ^ f, [])"
proof -
  assume n: "0 \<le> n"
  show ?thesis
  proof (cases "f = 0")
    case True
    then show ?thesis using int_digits_correct [OF n] by (simp add: fixed_digits_def dec_prefix_int)
  next
    case False
    then obtain a b where "fixed_digits f n = a @ ''.'' @ b" "all_digits a" "all_digits b" "a \<noteq> []"
      "length b = f" "digits_val (a @ b) = n"
      using fixed_digits_split [OF n] by metis
    then show ?thesis using dec_prefix_frac [of a b] by simp
  qed
qed

lemma fixed_digits_chars:
  assumes n: "0 \<le> n"
  shows "list_all num_char (fixed_digits f n) \<and> (\<exists>c r. fixed_digits f n = c # r \<and> is_digit c)"
proof (cases "f = 0")
  case True
  then show ?thesis using int_digits_correct [OF n] all_digits_num_char
    by (cases "int_digits n") (auto simp: fixed_digits_def)
next
  case False
  then obtain a b where "fixed_digits f n = a @ ''.'' @ b" "all_digits a" "all_digits b" "a \<noteq> []"
    using fixed_digits_split [OF n] by metis
  then show ?thesis using all_digits_num_char by (cases a) auto
qed

lemma js_parse_fixed:
  assumes n: "0 \<le> n"
  shows "js_parse (fixed_digits f n) = Fin (of_int n / 10 ^ f)"
    and "js_parse (CHR ''-'' # fixed_digits f n) = Fin (- (of_int n / 10 ^ f))"
proof -
  obtain c r where l: "fixed_digits f n = c # r" "is_digit c" using fixed_digits_chars [OF n] by blast
  have u: "unsigned_prefix (c # r) = Some (Fin (of_int n / 10 ^ f), [])"
    using dec_prefix_fixed [OF n, of f] l by (simp add: unsigned_prefix_digit)
  have nc: "list_all num_char (c # r)" using fixed_digits_chars [OF n] l by metis
  have "c \<noteq> CHR ''-''" "c \<noteq> CHR ''+''" using l(2) by (auto simp: is_digit_def)
  then show "js_parse (fixed_digits f n) = Fin (of_int n / 10 ^ f)"
    using u num_chars_no_radix [OF nc]
    by (simp add: js_parse_def l trim_num_chars [OF nc] signed_prefix_def)
  have nc': "list_all num_char (CHR ''-'' # c # r)" using nc by simp
  show "js_parse (CHR ''-'' # fixed_digits f n) = Fin (- (of_int n / 10 ^ f))"
    using u num_chars_no_radix [OF nc']
    by (simp add: js_parse_def l trim_num_chars [OF nc'] signed_prefix_def)
qed

lemma fixed_scaled_int:
  assumes "of_int m = \<bar>q\<bar> * 10 ^ f"
  shows "fixed_scaled f q = m"
proof -
  have "\<lfloor>of_int m + 1 / 2 :: rat\<rfloor> = m" by linarith
  then show ?thesis by (simp add: fixed_scaled_def assms [symmetric])
qed

lemma js_parse_to_fixed:
  assumes "of_int m = \<bar>q\<bar> * 10 ^ f" "\<bar>q\<bar> < 10 ^ 21"
  shows "js_parse (to_fixed f (Fin q)) = Fin q"
proof -
  have "0 \<le> m" using assms(1) by (metis abs_ge_zero of_int_0_le_iff zero_le_mult_iff zero_le_power zero_le_numeral)
  note p = js_parse_fixed [OF this, of f]
  have "of_int m / 10 ^ f = \<bar>q\<bar>" using assms(1) by simp
  with p assms(2) show ?thesis by (simp add: fixed_scaled_int [OF assms(1)])
qed

lemma rat_string_chars: "is_decimal q \<Longrightarrow> list_all num_char (rat_string q) \<and> rat_string q \<noteq> ''''"
proof -
  assume q: "is_decimal q"
  have pos: "list_all num_char (pos_rat_string p) \<and> pos_rat_string p \<noteq> ''''" if p: "is_decimal p" "p > 0" for p
  proof -
    obtain s n where s: "pos_rat_string p = digits_layout s n" "all_digits s" "s \<noteq> []"
      using pos_rat_string_layout [OF p] by metis
    show ?thesis using layout_num_chars [OF s(2)] layout_hd [OF s(2,3), of n] by (auto simp: s(1))
  qed
  have "is_decimal (- q)" using q by (simp add: is_decimal_def dec_scale_minus)
  then show ?thesis using pos [of q] pos [of "- q"] q by (auto simp: rat_string_def)
qed

end
