(* ===== verification/JsValue.thy ===== *)
theory JsValue
  imports JsText "HOL-Library.AList" "HOL-Library.Multiset"
begin

text \<open>
  Untyped values (what \<open>JSON.parse\<close> and the untyped event payloads deliver) and the coercions the
  source applies to them: \<open>String(v)\<close>, \<open>Number(v)\<close>, truthiness, \<open>??\<close>, \<open>||\<close>, property reads and object
  spread.  Then the array operations shared by the components: \<open>slice(-n)\<close>, removal of repeated
  elements by \<open>findIndex\<close>, and the stable \<open>sort\<close> with a numeric comparator, whose correctness is
  proved once in two locales and instantiated by every component that sorts.
\<close>

section \<open>Values and coercions\<close>

datatype jsval =
    JUndef
  | JNull
  | JBool bool
  | JNum jsnum
  | JStr string
  | JArr "jsval list"
  | JObj "(string \<times> jsval) list"

fun is_nullish :: "jsval \<Rightarrow> bool" where
  "is_nullish JUndef = True"
| "is_nullish JNull = True"
| "is_nullish _ = False"

fun js_str :: "jsval \<Rightarrow> string" where
  "js_str JUndef = ''undefined''"
| "js_str JNull = ''null''"
| "js_str (JBool b) = (if b then ''true'' else ''false'')"
| "js_str (JNum x) = jsnum_string x"
| "js_str (JStr s) = s"
| "js_str (JArr vs) = join_with '','' (map (\<lambda>v. if is_nullish v then '''' else js_str v) vs)"
| "js_str (JObj _) = ''[object Object]''"

fun js_num :: "jsval \<Rightarrow> jsnum" where
  "js_num JUndef = NaN"
| "js_num JNull = Fin 0"
| "js_num (JBool b) = Fin (if b then 1 else 0)"
| "js_num (JNum x) = x"
| "js_num (JStr s) = js_parse s"
| "js_num (JArr vs) = js_parse (js_str (JArr vs))"
| "js_num (JObj _) = NaN"

fun truthy :: "jsval \<Rightarrow> bool" where
  "truthy JUndef = False"
| "truthy JNull = False"
| "truthy (JBool b) = b"
| "truthy (JNum x) = (x \<noteq> NaN \<and> x \<noteq> Fin 0)"
| "truthy (JStr s) = (s \<noteq> [])"
| "truthy _ = True"

text \<open>\<open>js_nn [a, b, c]\<close> is \<open>a ?? b ?? c\<close>, \<open>js_or [a, b, c]\<close> is \<open>a || b || c\<close>.\<close>

fun js_nn :: "jsval list \<Rightarrow> jsval" where
  "js_nn [] = JUndef"
| "js_nn [v] = v"
| "js_nn (v # w # ws) = (if is_nullish v then js_nn (w # ws) else v)"

fun js_or :: "jsval list \<Rightarrow> jsval" where
  "js_or [] = JUndef"
| "js_or [v] = v"
| "js_or (v # w # ws) = (if truthy v then v else js_or (w # ws))"

fun js_get :: "jsval \<Rightarrow> string \<Rightarrow> jsval" where
  "js_get (JObj ps) k = (case map_of ps k of None \<Rightarrow> JUndef | Some v \<Rightarrow> v)"
| "js_get _ k = JUndef"

text \<open>\<open>typeof v === 'object'\<close> with \<open>v\<close> truthy: arrays and objects.\<close>

fun is_object :: "jsval \<Rightarrow> bool" where
  "is_object (JArr _) = True"
| "is_object (JObj _) = True"
| "is_object _ = False"

fun is_array :: "jsval \<Rightarrow> bool" where
  "is_array (JArr _) = True"
| "is_array _ = False"

fun arr_elems :: "jsval \<Rightarrow> jsval list" where
  "arr_elems (JArr vs) = vs"
| "arr_elems _ = []"

fun obj_pairs :: "jsval \<Rightarrow> (string \<times> jsval) list" where
  "obj_pairs (JObj ps) = ps"
| "obj_pairs _ = []"

text \<open>\<open>{ ...a, ...b }\<close>\<close>

definition js_spread :: "jsval \<Rightarrow> jsval \<Rightarrow> jsval" where
  "js_spread a b = JObj (foldl (\<lambda>ps (k, v). AList.update k v ps) (obj_pairs a) (obj_pairs b))"

text \<open>\<open>const n = Number(v); Number.isFinite(n) ? n : fallback\<close>\<close>

definition finite_or :: "jsval \<Rightarrow> jsnum \<Rightarrow> jsnum" where
  "finite_or v d = (if is_fin (js_num v) then js_num v else d)"

definition finite_opt :: "jsval \<Rightarrow> jsnum option" where
  "finite_opt v = (if is_fin (js_num v) then Some (js_num v) else None)"

text \<open>\<open>v ?? d\<close> where \<open>v\<close> has a known type\<close>

fun opt_or :: "'a option \<Rightarrow> 'a \<Rightarrow> 'a" where
  "opt_or (Some x) d = x"
| "opt_or None d = d"

lemma is_fin_opt_or: "(\<And>x. v = Some x \<Longrightarrow> is_fin x) \<Longrightarrow> is_fin d \<Longrightarrow> is_fin (opt_or v d)"
  by (cases v) auto

lemma is_fin_max_min: "is_fin a \<Longrightarrow> is_fin b \<Longrightarrow> is_fin (js_max a b) \<and> is_fin (js_min a b)"
  by (auto simp: is_fin_conv)

lemma is_fin_finite_or: "is_fin d \<Longrightarrow> is_fin (finite_or v d)"
  by (simp add: finite_or_def)

lemma finite_or_fin [simp]: "finite_or (JNum (Fin q)) d = Fin q"
  by (simp add: finite_or_def)

lemma finite_opt_fin: "finite_opt v = Some x \<Longrightarrow> is_fin x"
  by (auto simp: finite_opt_def split: if_splits)

lemma js_nn_Cons: "js_nn (v # ws) = (if ws = [] \<or> \<not> is_nullish v then v else js_nn ws)"
  by (cases ws) auto

lemma map_of_foldl_update:
  "map_of (foldl (\<lambda>ps (k, v). AList.update k v ps) ps qs) k =
    (case map_of (rev qs) k of None \<Rightarrow> map_of ps k | Some v \<Rightarrow> Some v)"
proof (induction qs arbitrary: ps)
  case (Cons q qs)
  then show ?case
    by (cases q) (auto simp: map_of_append update_conv' map_add_def split: option.splits)
qed simp

lemma js_get_spread:
  "js_get (js_spread a b) k =
    (case map_of (rev (obj_pairs b)) k of None \<Rightarrow>
      (case map_of (obj_pairs a) k of None \<Rightarrow> JUndef | Some v \<Rightarrow> v) | Some v \<Rightarrow> v)"
  by (simp add: js_spread_def map_of_foldl_update split: option.splits)

section \<open>Arrays\<close>

text \<open>\<open>xs.slice(-n)\<close> for a positive \<open>n\<close>\<close>

definition slice_last :: "nat \<Rightarrow> 'a list \<Rightarrow> 'a list" where
  "slice_last n xs = drop (length xs - n) xs"

lemma length_slice_last [simp]: "length (slice_last n xs) = min n (length xs)"
  by (simp add: slice_last_def)

lemma slice_last_id [simp]: "length xs \<le> n \<Longrightarrow> slice_last n xs = xs"
  by (simp add: slice_last_def)

lemma set_slice_last: "set (slice_last n xs) \<subseteq> set xs"
  by (simp add: slice_last_def set_drop_subset)

lemma slice_last_suffix: "\<exists>ys. xs = ys @ slice_last n xs"
  by (metis append_take_drop_id slice_last_def)

lemma last_slice_last_snoc: "0 < n \<Longrightarrow> slice_last n (xs @ [x]) \<noteq> [] \<and> last (slice_last n (xs @ [x])) = x"
  by (simp add: slice_last_def Suc_diff_le last_drop)

lemma sorted_slice_last: "sorted xs \<Longrightarrow> sorted (slice_last n xs)"
  by (simp add: slice_last_def sorted_wrt_drop)

lemma map_slice_last: "map f (slice_last n xs) = slice_last n (map f xs)"
  by (simp add: slice_last_def drop_map)

lemma distinct_slice_last: "distinct xs \<Longrightarrow> distinct (slice_last n xs)"
  by (simp add: slice_last_def)

text \<open>\<open>xs.findIndex(p)\<close>, \<open>None\<close> for \<open>-1\<close>\<close>

fun find_index :: "('a \<Rightarrow> bool) \<Rightarrow> 'a list \<Rightarrow> nat option" where
  "find_index p [] = None"
| "find_index p (x # xs) = (if p x then Some 0 else map_option Suc (find_index p xs))"

text \<open>\<open>xs.filter((v, i, arr) => arr.findIndex(x => eq(x, v)) === i)\<close>\<close>

definition first_occ :: "('a \<Rightarrow> 'a \<Rightarrow> bool) \<Rightarrow> 'a list \<Rightarrow> 'a list" where
  "first_occ eq xs =
     map snd (filter (\<lambda>(i, v). find_index (\<lambda>x. eq x v) xs = Some i) (List.enumerate 0 xs))"

lemma first_occ_Nil [simp]: "first_occ eq [] = []"
  by (simp add: first_occ_def)

lemma enumerate_Suc: "List.enumerate (Suc n) xs = map (\<lambda>(i, v). (Suc i, v)) (List.enumerate n xs)"
  by (induction xs arbitrary: n) auto

text \<open>Elements equal to an earlier one go; an element that does not equal itself (NaN) goes too.\<close>

lemma first_occ_Cons:
  "first_occ eq (x # xs) = (if eq x x then [x] else []) @ filter (\<lambda>y. \<not> eq x y) (first_occ eq xs)"
proof -
  have "filter (\<lambda>(i, v). find_index (\<lambda>z. eq z v) (x # xs) = Some i) (List.enumerate (Suc 0) xs)
      = map (\<lambda>(i, v). (Suc i, v)) (filter (\<lambda>(i, v). \<not> eq x v)
          (filter (\<lambda>(i, v). find_index (\<lambda>z. eq z v) xs = Some i) (List.enumerate 0 xs)))"
    unfolding enumerate_Suc filter_map filter_filter
    by (intro arg_cong2 [of _ _ _ _ map] refl filter_cong) auto
  then show ?thesis
    by (simp add: first_occ_def filter_map comp_def case_prod_beta')
qed

lemma set_first_occ_subset: "set (first_occ eq xs) \<subseteq> set xs"
  by (induction xs) (auto simp: first_occ_Cons)

lemma first_occ_apart:
  assumes "\<And>x y. eq x y \<longleftrightarrow> eq y x"
  shows "sorted_wrt (\<lambda>x y. \<not> eq x y) (first_occ eq xs)"
  by (induction xs) (auto simp: first_occ_Cons sorted_wrt_append sorted_wrt_filter)

lemma first_occ_key:
  assumes "\<And>x y. x \<in> set xs \<Longrightarrow> y \<in> set xs \<Longrightarrow> eq x y \<longleftrightarrow> key x = key y"
  shows "distinct (map key (first_occ eq xs)) \<and> key ` set (first_occ eq xs) = key ` set xs"
  using assms
proof (induction xs)
  case (Cons x xs)
  let ?r = "first_occ eq xs"
  have IH: "distinct (map key ?r)" "key ` set ?r = key ` set xs" using Cons by auto
  have sub: "set ?r \<subseteq> set xs" by (rule set_first_occ_subset)
  have x: "eq x x" "\<And>y. y \<in> set ?r \<Longrightarrow> eq x y \<longleftrightarrow> key x = key y" using Cons.prems sub by auto
  then have f: "filter (\<lambda>y. \<not> eq x y) ?r = filter (\<lambda>y. key x \<noteq> key y) ?r" by (auto intro: filter_cong)
  have "distinct (map key (filter (\<lambda>y. key x \<noteq> key y) ?r))"
    using IH(1) by (simp add: distinct_map_filter)
  moreover have "insert (key x) (key ` {y \<in> set ?r. key x \<noteq> key y}) = key ` set (x # xs)"
    using IH(2) by (auto simp: image_iff set_eq_iff) metis+
  ultimately show ?case using x(1) by (auto simp: first_occ_Cons f)
qed simp

text \<open>
  \<open>xs.sort(cmp)\<close>, the stable insertion form: \<open>x\<close> goes behind \<open>y\<close> exactly when \<open>cmp x y > 0\<close>.  For
  a comparator that is not an order the result of \<open>sort\<close> is implementation-defined.
\<close>

fun js_insert :: "('a \<Rightarrow> 'a \<Rightarrow> jsnum) \<Rightarrow> 'a \<Rightarrow> 'a list \<Rightarrow> 'a list" where
  "js_insert cmp x [] = [x]"
| "js_insert cmp x (y # ys) = (if js_lt (Fin 0) (cmp x y) then y # js_insert cmp x ys else x # y # ys)"

definition js_sort :: "('a \<Rightarrow> 'a \<Rightarrow> jsnum) \<Rightarrow> 'a list \<Rightarrow> 'a list" where
  "js_sort cmp xs = foldr (js_insert cmp) xs []"

lemma js_sort_simps [simp]: "js_sort cmp [] = []" "js_sort cmp (x # xs) = js_insert cmp x (js_sort cmp xs)"
  by (simp_all add: js_sort_def)

lemma mset_js_insert: "mset (js_insert cmp x xs) = add_mset x (mset xs)"
  by (induction xs) auto

lemma mset_js_sort [simp]: "mset (js_sort cmp xs) = mset xs"
  by (induction xs) (auto simp: mset_js_insert)

lemma set_js_insert [simp]: "set (js_insert cmp x xs) = insert x (set xs)"
  by (induction xs) auto

lemma set_js_sort [simp]: "set (js_sort cmp xs) = set xs"
  by (induction xs) auto

lemma length_js_insert [simp]: "length (js_insert cmp x xs) = Suc (length xs)"
  by (induction xs) auto

lemma length_js_sort [simp]: "length (js_sort cmp xs) = length xs"
  by (induction xs) auto

definition cmp_le :: "('a \<Rightarrow> 'a \<Rightarrow> jsnum) \<Rightarrow> 'a \<Rightarrow> 'a \<Rightarrow> bool" where
  "cmp_le cmp x y = (\<not> js_lt (Fin 0) (cmp x y))"

text \<open>The contract of a comparator: on the valid elements it is a total preorder.\<close>

locale comparator =
  fixes cmp :: "'a \<Rightarrow> 'a \<Rightarrow> jsnum" and valid :: "'a \<Rightarrow> bool"
  assumes cmp_total: "valid x \<Longrightarrow> valid y \<Longrightarrow> cmp_le cmp x y \<or> cmp_le cmp y x"
    and cmp_trans: "valid x \<Longrightarrow> valid y \<Longrightarrow> valid z \<Longrightarrow> cmp_le cmp x y \<Longrightarrow> cmp_le cmp y z \<Longrightarrow> cmp_le cmp x z"
begin

lemma sorted_insert:
  assumes "valid x" "\<forall>y \<in> set ys. valid y" "sorted_wrt (cmp_le cmp) ys"
  shows "sorted_wrt (cmp_le cmp) (js_insert cmp x ys)"
  using assms
proof (induction ys)
  case (Cons y ys)
  show ?case
  proof (cases "cmp_le cmp x y")
    case True
    then show ?thesis using Cons.prems cmp_trans [of x y] by (auto simp: cmp_le_def)
  next
    case False
    then have "cmp_le cmp y x" using cmp_total Cons.prems by auto
    then show ?thesis using False Cons by (auto simp: cmp_le_def)
  qed
qed simp

lemma sorted_sort: "\<forall>x \<in> set xs. valid x \<Longrightarrow> sorted_wrt (cmp_le cmp) (js_sort cmp xs)"
  by (induction xs) (auto intro!: sorted_insert)

lemma insert_sorted: "sorted_wrt (cmp_le cmp) (x # xs) \<Longrightarrow> js_insert cmp x xs = x # xs"
  by (cases xs) (auto simp: cmp_le_def)

lemma sort_sorted: "sorted_wrt (cmp_le cmp) xs \<Longrightarrow> js_sort cmp xs = xs"
proof (induction xs)
  case (Cons x xs)
  then have "js_sort cmp xs = xs" by simp
  with insert_sorted [OF Cons.prems] show ?case by simp
qed simp

lemma sort_idem: "\<forall>x \<in> set xs. valid x \<Longrightarrow> js_sort cmp (js_sort cmp xs) = js_sort cmp xs"
  by (rule sort_sorted) (rule sorted_sort)

end

text \<open>A comparator that subtracts (or compares) a rational key: \<open>sort\<close> is the stable \<open>sort_key\<close>.\<close>

locale key_comparator =
  fixes cmp :: "'a \<Rightarrow> 'a \<Rightarrow> jsnum" and valid :: "'a \<Rightarrow> bool" and key :: "'a \<Rightarrow> rat"
  assumes cmp_key: "valid x \<Longrightarrow> valid y \<Longrightarrow> cmp_le cmp x y \<longleftrightarrow> key x \<le> key y"

sublocale key_comparator \<subseteq> comparator cmp valid
  by unfold_locales (auto simp: cmp_key)

context key_comparator
begin

lemma insert_key: "valid x \<Longrightarrow> \<forall>y \<in> set ys. valid y \<Longrightarrow> js_insert cmp x ys = insort_key key x ys"
  using cmp_key by (induction ys) (auto simp: cmp_le_def)

lemma sort_eq: "\<forall>x \<in> set xs. valid x \<Longrightarrow> js_sort cmp xs = sort_key key xs"
proof (induction xs)
  case (Cons x xs)
  then have "\<forall>y \<in> set (sort_key key xs). valid y" by simp
  with Cons show ?case by (simp add: insert_key)
qed simp

lemma sort_sorted_key: "\<forall>x \<in> set xs. valid x \<Longrightarrow> sorted (map key (js_sort cmp xs))"
  by (simp add: sort_eq)

lemma sort_stable: "\<forall>x \<in> set xs. valid x \<Longrightarrow>
    filter (\<lambda>y. key y = k) (js_sort cmp xs) = filter (\<lambda>y. key y = k) xs"
  by (simp add: sort_eq sort_key_stable)

end

section \<open>Exceptions\<close>

datatype js_error = TypeError | AbortError | ErrorMsg string

type_synonym 'a js_result = "js_error + 'a"

text \<open>\<open>xs.map(f)\<close> where \<open>f\<close> may throw: the first exception is the result.\<close>

fun map_result :: "('a \<Rightarrow> 'b js_result) \<Rightarrow> 'a list \<Rightarrow> 'b list js_result" where
  "map_result f [] = Inr []"
| "map_result f (x # xs) =
     (case f x of Inl e \<Rightarrow> Inl e
      | Inr y \<Rightarrow> (case map_result f xs of Inl e \<Rightarrow> Inl e | Inr ys \<Rightarrow> Inr (y # ys)))"

lemma map_result_Inr: "map_result f xs = Inr ys \<longleftrightarrow> list_all2 (\<lambda>x y. f x = Inr y) xs ys"
proof (induction xs arbitrary: ys)
  case (Cons x xs)
  show ?case
    by (cases ys) (auto split: sum.splits simp: Cons.IH [symmetric])
qed auto

lemma map_result_mem: "map_result f xs = Inr ys \<Longrightarrow> y \<in> set ys \<Longrightarrow> \<exists>x \<in> set xs. f x = Inr y"
  by (induction xs arbitrary: ys) (auto split: sum.splits)

lemma map_result_Inl: "map_result f xs = Inl e \<Longrightarrow> \<exists>x \<in> set xs. f x = Inl e"
  by (induction xs) (auto split: sum.splits)

end
