(* ===== verification/Types.thy ===== *)
theory Types
  imports JsValue
begin

text \<open>
  The data model of \<open>apps/terminal/src/types.ts\<close>.  Interfaces are records; a property that the code
  only reads after a check (\<open>Number(x)\<close>, \<open>typeof\<close>, \<open>??\<close>) because the feed may send anything keeps
  the untyped \<^typ>\<open>jsval\<close>.  A \<open>_rest\<close> field holds the payload object a normaliser spreads into its
  result, so the optional properties of the interface are read from there.  Open string unions
  (asset symbols, model names, regimes) are strings, as they are at run time; closed unions that
  the code itself produces are datatypes.
\<close>

type_synonym asset = string
type_synonym direction = string
type_synonym regime = string
type_synonym model_name = string

datatype order_status = OS_pending | OS_open | OS_filled | OS_cancelled | OS_rejected

datatype timeframe = TF_20sec | TF_5min | TF_15min | TF_1h | TF_4h | TF_event

record bar =
  timestamp :: jsnum
  bopen :: jsnum
  high :: jsnum
  low :: jsnum
  close :: jsnum
  volume :: jsnum

record keltner_bands =
  kb_upper :: jsnum
  kb_mid :: jsnum
  kb_lower :: jsnum

record ob_level =
  obl_price :: jsnum
  obl_size :: jsnum
  obl_count :: "jsnum option"
  obl_ct :: "jsnum option"

record order_book =
  ob_market_id :: string
  ob_bids :: "ob_level list"
  ob_asks :: "ob_level list"
  ob_best_bid :: "jsnum option"
  ob_best_ask :: "jsnum option"
  ob_mid :: "jsnum option"
  ob_spread_bps :: "jsnum option"

datatype trade_side = Buy | Sell

record trade_tick =
  tt_timestamp :: jsnum
  tt_price :: jsnum
  tt_size :: jsnum
  tt_volume :: "jsnum option"
  tt_side :: trade_side

datatype outcome = Yes | No

record poly_tick =
  pt_timestamp :: jsnum
  pt_marketKey :: string
  pt_price :: jsnum
  pt_size :: jsnum
  pt_side :: outcome
  pt_rest :: jsval

datatype sim_order_status = SO_working | SO_partially_filled | SO_filled | SO_cancelled
datatype sim_order_type = Limit | Market
datatype sim_position_status = SP_open | SP_closed
datatype sim_algo_role = Entry | Cover
datatype sim_side = Bid | Offer
datatype sim_source = Manual | Algo

record sim_order =
  so_id :: string
  so_marketKey :: string
  so_outcome :: outcome
  so_side :: sim_side
  so_orderType :: sim_order_type
  so_price :: jsnum
  so_size :: jsnum
  so_remaining :: jsnum
  so_filledSize :: jsnum
  so_matchedVolume :: jsnum
  so_status :: sim_order_status
  so_createdAt :: jsnum
  so_updatedAt :: jsnum
  so_operator :: string
  so_source :: sim_source
  so_strategy :: string
  so_legId :: string
  so_rest :: jsval

record sim_position =
  sp_id :: string
  sp_marketKey :: string
  sp_outcome :: outcome
  sp_size :: jsnum
  sp_avgPrice :: jsnum
  sp_markPrice :: jsnum
  sp_openPnl :: jsnum
  sp_realizedPnl :: jsnum
  sp_totalPnl :: jsnum
  sp_status :: sim_position_status
  sp_openedAt :: jsnum
  sp_closedAt :: "jsnum option"
  sp_operator :: string
  sp_source :: sim_source
  sp_strategy :: string
  sp_legId :: string
  sp_rest :: jsval

record signal =
  sg_timestamp :: jsnum
  sg_asset :: asset
  sg_model :: model_name
  sg_direction :: direction
  sg_strength :: jsnum
  sg_regime :: regime
  sg_zscore :: jsnum
  sg_ofi :: jsnum
  sg_vpin :: jsnum

record position =
  ps_position_id :: string
  ps_asset :: asset
  ps_direction :: direction
  ps_entry_price :: jsnum
  ps_size :: jsnum
  ps_entry_time :: jsnum
  ps_expiry_secs :: jsnum
  ps_unrealized_pnl :: jsnum
  ps_current_price :: jsnum
  ps_partial_exit_done :: bool
  ps_is_copy :: bool
  ps_master_wallet :: "string option"

record trade =
  tr_trade_id :: string
  tr_asset :: asset
  tr_direction :: direction
  tr_model :: "model_name option"
  tr_regime :: regime
  tr_entry_time :: jsnum
  tr_exit_time :: jsnum
  tr_entry_price :: jsnum
  tr_exit_price :: jsnum
  tr_size :: jsnum
  tr_net_pnl :: jsnum
  tr_fees :: jsnum
  tr_win :: bool
  tr_signal_strength :: jsnum
  tr_is_copy :: bool

record daily_metrics =
  dm_date :: string
  dm_trade_count :: jsnum
  dm_win_count :: jsnum
  dm_win_rate :: jsnum
  dm_net_pnl :: jsnum
  dm_sharpe :: jsnum
  dm_max_drawdown :: jsnum
  dm_trades_remaining :: jsnum
  dm_concurrent_positions :: jsnum
  dm_at_trade_limit :: bool
  dm_at_loss_limit :: bool

datatype master_source = Leaderboard | ManualMaster

record master_info =
  mi_wallet_address :: string
  mi_alias :: "string option"
  mi_source :: master_source
  mi_win_rate :: jsnum
  mi_sharpe :: jsnum
  mi_trade_count :: jsnum
  mi_paused :: bool

record copy_status =
  cs_enabled :: bool
  cs_active_masters :: "master_info list"
  cs_copy_trades_today :: jsnum
  cs_copy_pnl_today :: jsnum

record exec_position =
  ep_position_id :: string
  ep_asset :: string
  ep_direction :: direction
  ep_status :: string
  ep_entry_price :: jsval
  ep_current_price :: jsval
  ep_size :: jsval
  ep_unrealized_pnl :: jsval
  ep_pnl_pct :: jsval
  ep_sl_distance_pct :: jsval
  ep_tp_distance_pct :: jsval
  ep_model :: jsval
  ep_rest :: jsval

record exec_risk =
  er_open_count :: jsnum
  er_up_exposure :: jsnum
  er_dn_exposure :: jsnum
  er_total_exposure :: jsnum
  er_daily_pnl :: jsnum
  er_regime :: string
  er_regime_mult :: jsnum
  er_near_sl_distance_pct :: jsval

record prob_point =
  pp_ts :: jsnum
  pp_up_pct :: jsnum

record staged_market =
  sm_question :: string
  sm_expiry_ts :: jsnum
  sm_up_pct :: jsnum
  sm_down_pct :: jsnum
  sm_up_token_id :: "string option"
  sm_condition_id :: "string option"
  sm_live :: bool

text \<open>An absent \<open>condition_id\<close> is the empty string: the code only tests its truthiness.\<close>

record market_info =
  mk_key :: string
  mk_asset :: asset
  mk_timeframe :: timeframe
  mk_question :: string
  mk_category :: "string option"
  mk_up_pct :: jsnum
  mk_down_pct :: jsnum
  mk_volume :: jsnum
  mk_expiry_ts :: jsnum
  mk_resolution_price :: "jsnum option"
  mk_start_price :: "jsnum option"
  mk_price_to_beat :: "jsnum option"
  mk_condition_id :: string
  mk_up_token_id :: "string option"
  mk_live :: bool
  mk_last_update_ms :: "jsnum option"
  mk_prob_history :: "prob_point list option"
  mk_truth_history :: "prob_point list option"
  mk_staged_market :: "staged_market option"
  mk_truth_up_pct :: "jsnum option"
  mk_truth_down_pct :: "jsnum option"
  mk_greeks :: jsval
  mk_tickSize :: "jsnum option"
  mk_tickValue :: "jsnum option"
  mk_multiplier :: "jsnum option"

record poly_level =
  pl_price :: jsnum
  pl_size :: jsnum
  pl_count :: "jsnum option"
  pl_ct :: "jsnum option"

record poly_book =
  pb_market_key :: string
  pb_question :: string
  pb_up_token_id :: string
  pb_bids :: "poly_level list"
  pb_asks :: "poly_level list"
  pb_best_bid :: jsval
  pb_best_ask :: jsval
  pb_mid :: jsval
  pb_spread_pct :: jsval
  pb_up_pct :: jsnum
  pb_down_pct :: jsnum
  pb_ltp :: jsval
  pb_ltp_size :: "jsnum option"
  pb_expiry_ts :: jsnum
  pb_live :: bool
  pb_timestamp_ms :: jsnum
  pb_seen_ms :: "jsnum option"

record cme_book =
  cb_symbol :: string
  cb_venue :: string
  cb_source :: "string option"
  cb_bids :: "ob_level list option"
  cb_asks :: "ob_level list option"
  cb_bestBid :: "jsnum option"
  cb_bestAsk :: "jsnum option"
  cb_bidSize :: "jsnum option"
  cb_askSize :: "jsnum option"
  cb_bidCount :: "jsnum option"
  cb_askCount :: "jsnum option"
  cb_mid :: "jsnum option"
  cb_ltp :: "jsnum option"
  cb_ltpSize :: "jsnum option"
  cb_volume :: "jsnum option"
  cb_spread :: "jsnum option"
  cb_tsMs :: "jsnum option"
  cb_tickSize :: "jsnum option"
  cb_tickValue :: "jsnum option"
  cb_multiplier :: "jsnum option"
  cb_synthetic :: "bool option"
  cb_ltpSource :: "string option"

record cme_trade =
  ct_symbol :: string
  ct_venue :: string
  ct_source :: "string option"
  ct_timestamp :: jsnum
  ct_price :: jsnum
  ct_size :: jsnum
  ct_volume :: "jsnum option"
  ct_side :: "trade_side option"
  ct_bestBid :: "jsnum option"
  ct_bestAsk :: "jsnum option"
  ct_tickSize :: "jsnum option"
  ct_tickValue :: "jsnum option"
  ct_multiplier :: "jsnum option"

datatype updown = Up | Down

record settlement =
  st_settled_at :: jsnum
  st_key :: string
  st_asset :: asset
  st_timeframe :: timeframe
  st_question :: string
  st_final_up_pct :: jsnum
  st_final_down_pct :: jsnum
  st_outcome :: updown
  st_volume :: jsnum
  st_expiry_ts :: jsnum
  st_condition_id :: string
  st_live :: bool
  st_price_to_beat :: "jsnum option"
  st_final_price :: "jsnum option"
  st_winning_side :: "string option"

record kalshi_market =
  km_id :: string
  km_title :: string
  km_yes_price :: jsnum
  km_no_price :: jsnum
  km_volume :: jsnum
  km_close_time :: string
  km_category :: string
  km_truth :: jsval

record ibkr_market =
  im_conid :: string
  im_title :: string
  im_yes_price :: jsnum
  im_no_price :: jsnum
  im_volume :: jsnum
  im_expiry :: string
  im_category :: string

record crypto_price =
  cp_price :: jsnum
  cp_change24h :: jsnum
  cp_rest :: jsval

datatype market_provider = CME | Polymarket | Kalshi | Forecasttrader | Hyperliquid | Coingecko

section \<open>Dictionaries\<close>

text \<open>
  An object used as a dictionary: an association list in insertion order; a store to a present key
  keeps its place, a store to a new key appends, as \<open>Object.entries\<close> lists them.
\<close>

type_synonym 'v dict = "(string \<times> 'v) list"

abbreviation dict_get :: "'v dict \<Rightarrow> string \<Rightarrow> 'v option" where
  "dict_get d k \<equiv> map_of d k"

abbreviation dict_set :: "string \<Rightarrow> 'v \<Rightarrow> 'v dict \<Rightarrow> 'v dict" where
  "dict_set k v d \<equiv> AList.update k v d"

abbreviation dict_del :: "string \<Rightarrow> 'v dict \<Rightarrow> 'v dict" where
  "dict_del k d \<equiv> AList.delete k d"

text \<open>\<open>{ ...a, ...b }\<close> on dictionaries\<close>

definition dict_merge :: "'v dict \<Rightarrow> 'v dict \<Rightarrow> 'v dict" where
  "dict_merge a b = foldl (\<lambda>d (k, v). dict_set k v d) a b"

lemma dict_get_set [simp]: "dict_get (dict_set k v d) j = (if j = k then Some v else dict_get d j)"
  by (simp add: update_conv')

lemma dict_get_del [simp]: "dict_get (dict_del k d) j = (if j = k then None else dict_get d j)"
  by (simp add: delete_conv')

lemma dict_get_merge: "distinct (map fst b) \<Longrightarrow>
    dict_get (dict_merge a b) k = (case dict_get b k of None \<Rightarrow> dict_get a k | Some v \<Rightarrow> Some v)"
proof (induction b arbitrary: a)
  case (Cons q b)
  obtain j v where q: "q = (j, v)" by fastforce
  with Cons.prems have "dict_get b j = None" by (simp add: map_of_eq_None_iff)
  with Cons q show ?case by (simp add: dict_merge_def split: option.splits)
qed (simp add: dict_merge_def)

section \<open>Messages and model names\<close>

record sim_patch =
  pa_simOrders :: "jsval list option"
  pa_simPositions :: "jsval list option"
  pa_fills :: "jsval list dict option"
  pa_simMessages :: "string list option"

datatype ws_msg =
    WsBar asset bar
  | WsBands asset keltner_bands
  | WsBook asset order_book
  | WsTick asset trade_tick
  | WsCmeBook string cme_book
  | WsCmeTrade string cme_trade
  | WsSignal signal
  | WsPosition "position list"
  | WsMetrics daily_metrics
  | WsZscore asset jsnum regime
  | WsCopyStatus copy_status
  | WsMarkets "market_info list"
  | WsSettlements "settlement list"
  | WsPolyBook string poly_book
  | WsPolyTick string poly_tick
  | WsFill string poly_tick
  | WsOrderSnapshot sim_patch
  | WsExecutionEvent "exec_position list option" "exec_risk option"

definition MODEL_LABELS :: "string dict" where
  "MODEL_LABELS =
    [(''kc_reversion'', ''KC Reversion''), (''flow_toxicity'', ''Flow Toxicity''),
     (''low_vol_accum'', ''Low Vol Accum''), (''high_vol_momentum'', ''HV Momentum''),
     (''tri_engine'', ''Tri-Engine''), (''v3_titanium'', ''V3 Titanium''),
     (''rubber_band'', ''Rubber Band'')]"

definition CANONICAL_MODEL_NAMES :: "model_name list" where
  "CANONICAL_MODEL_NAMES = [''rubber_band'', ''kc_reversion'', ''flow_toxicity'']"

definition MODEL_ALIASES :: "model_name dict" where
  "MODEL_ALIASES =
    [(''titanium'', ''v3_titanium''), (''v3titanium'', ''v3_titanium''),
     (''v3-titanium'', ''v3_titanium''), (''tri_engine_v2'', ''tri_engine''),
     (''v5_titanium'', ''v3_titanium''), (''rubberband'', ''rubber_band''),
     (''rubber-band'', ''rubber_band'')]"

definition normalizeModel :: "string \<Rightarrow> model_name" where
  "normalizeModel raw = (case dict_get MODEL_ALIASES raw of Some m \<Rightarrow> m | None \<Rightarrow> raw)"

fun TIMEFRAME_LABELS :: "timeframe \<Rightarrow> string" where
  "TIMEFRAME_LABELS TF_20sec = ''20-Second''"
| "TIMEFRAME_LABELS TF_5min = ''5-Minute''"
| "TIMEFRAME_LABELS TF_15min = ''15-Minute''"
| "TIMEFRAME_LABELS TF_1h = ''1-Hour''"
| "TIMEFRAME_LABELS TF_4h = ''4-Hour''"
| "TIMEFRAME_LABELS TF_event = ''Event''"

text \<open>An alias never points at another alias, so normalising twice changes nothing.\<close>

lemma normalizeModel_idem [simp]: "normalizeModel (normalizeModel m) = normalizeModel m"
proof (cases "dict_get MODEL_ALIASES m")
  case (Some c)
  then have "c \<in> set [''v3_titanium'', ''tri_engine'', ''rubber_band'']"
    by (auto simp: MODEL_ALIASES_def split: if_splits)
  then have "dict_get MODEL_ALIASES c = None" by (auto simp: MODEL_ALIASES_def)
  with Some show ?thesis by (simp add: normalizeModel_def)
qed (simp add: normalizeModel_def)

end
