(* ===== verification/FuturesPnl.thy ===== *)
theory FuturesPnl
  imports Types
begin

text \<open>
  \<open>apps/terminal/src/utils/futuresPnl.ts\<close>: the contract table, the resolution of a multiplier and the
  profit-and-loss arithmetic every position of the terminal is marked with.
\<close>

record contract_spec =
  fc_tickSize :: jsnum
  fc_multiplier :: jsnum
  fc_tickValue :: jsnum

definition fspec :: "rat \<Rightarrow> rat \<Rightarrow> rat \<Rightarrow> contract_spec" where
  "fspec t m v = \<lparr>fc_tickSize = Fin t, fc_multiplier = Fin m, fc_tickValue = Fin v\<rparr>"

definition FUTURES_CONTRACT_SPECS :: "contract_spec dict" where
  "FUTURES_CONTRACT_SPECS =
    [(''ES'', fspec (1/4) 50 (25/2)), (''NQ'', fspec (1/4) 20 5), (''YM'', fspec 1 5 5),
     (''RTY'', fspec (1/10) 50 5), (''CL'', fspec (1/100) 1000 10), (''GC'', fspec (1/10) 100 10),
     (''ZM'', fspec (1/10) 100 10), (''ZS'', fspec (1/4) 50 (25/2)),
     (''ES_NQ'', fspec (1/4) 150 (75/2)), (''YM_ES'', fspec 1 15 15),
     (''RTY_ES'', fspec (1/10) 350 35)]"

definition isRawFuturesPriceValue :: "jsnum \<Rightarrow> bool" where
  "isRawFuturesPriceValue price = (is_fin price \<and> (js_lt price (Fin 0) \<or> js_lt (Fin 1) price))"

definition product_key :: "string \<Rightarrow> string" where
  "product_key marketKey = to_upper (js_trim marketKey)"

definition isKnownFuturesProduct :: "string \<Rightarrow> bool" where
  "isKnownFuturesProduct marketKey = (dict_get FUTURES_CONTRACT_SPECS (product_key marketKey) \<noteq> None)"

text \<open>The optional price argument is \<open>None\<close> where the caller leaves it out.\<close>

definition futuresContractSpecFor :: "string \<Rightarrow> jsnum option \<Rightarrow> contract_spec" where
  "futuresContractSpecFor marketKey price =
     (case dict_get FUTURES_CONTRACT_SPECS (product_key marketKey) of
        Some spec \<Rightarrow> spec
      | None \<Rightarrow>
          let rawPrices = (case price of Some p \<Rightarrow> isRawFuturesPriceValue p | None \<Rightarrow> False);
              tickSize = (if rawPrices then Fin (1/100) else Fin 1);
              multiplier = (if rawPrices then Fin 1 else Fin (1/100))
          in \<lparr>fc_tickSize = tickSize, fc_multiplier = multiplier, fc_tickValue = js_mul tickSize multiplier\<rparr>)"

definition resolveFuturesMultiplier :: "string \<Rightarrow> jsval \<Rightarrow> jsnum option \<Rightarrow> jsnum" where
  "resolveFuturesMultiplier marketKey explicitMultiplier price =
     (let rawMultiplier = js_num explicitMultiplier in
      if is_fin rawMultiplier \<and> js_lt (Fin 0) rawMultiplier then rawMultiplier
      else fc_multiplier (futuresContractSpecFor marketKey price))"

definition calculateOpenFuturesPnl :: "jsnum \<Rightarrow> jsnum \<Rightarrow> jsnum \<Rightarrow> jsnum \<Rightarrow> jsnum" where
  "calculateOpenFuturesPnl entryPrice currentPrice signedContracts multiplier =
     (if \<not> is_fin entryPrice \<or> \<not> is_fin currentPrice \<or> \<not> is_fin signedContracts \<or> \<not> is_fin multiplier
      then Fin 0
      else js_mul (js_mul (js_sub currentPrice entryPrice) multiplier) signedContracts)"

definition calculateFuturesMarketValue :: "jsnum \<Rightarrow> jsnum \<Rightarrow> jsnum \<Rightarrow> jsnum" where
  "calculateFuturesMarketValue currentPrice signedContracts multiplier =
     (if \<not> is_fin currentPrice \<or> \<not> is_fin signedContracts \<or> \<not> is_fin multiplier then Fin 0
      else js_abs (js_mul (js_mul currentPrice signedContracts) multiplier))"

section \<open>Properties\<close>

lemma product_key_idem [simp]: "product_key (product_key k) = product_key k"
  by (simp add: product_key_def js_trim_upper)

definition spec_ok :: "contract_spec \<Rightarrow> bool" where
  "spec_ok s = (is_fin (fc_tickSize s) \<and> is_fin (fc_multiplier s) \<and>
     js_lt (Fin 0) (fc_tickSize s) \<and> js_lt (Fin 0) (fc_multiplier s) \<and>
     fc_tickValue s = js_mul (fc_tickSize s) (fc_multiplier s))"

lemma spec_okE:
  assumes "spec_ok s"
  obtains t m where "s = \<lparr>fc_tickSize = Fin t, fc_multiplier = Fin m, fc_tickValue = Fin (t * m)\<rparr>"
    "0 < t" "0 < m"
  using assms by (cases s) (auto simp: spec_ok_def is_fin_conv)

lemma table_ok: "list_all (\<lambda>(k, s). spec_ok s) FUTURES_CONTRACT_SPECS"
  by (simp add: FUTURES_CONTRACT_SPECS_def fspec_def spec_ok_def)

lemma spec_ok_contract: "spec_ok (futuresContractSpecFor marketKey price)"
proof (cases "dict_get FUTURES_CONTRACT_SPECS (product_key marketKey)")
  case (Some s)
  with table_ok show ?thesis
    by (auto simp: futuresContractSpecFor_def list_all_iff dest: map_of_SomeD)
qed (simp add: futuresContractSpecFor_def spec_ok_def Let_def)

lemma is_fin_contract_multiplier:
  "\<exists>m. fc_multiplier (futuresContractSpecFor k p) = Fin m \<and> 0 < m"
  using spec_ok_contract [of k p] by (auto elim: spec_okE)

lemma resolveFuturesMultiplier_pos:
  "\<exists>m. resolveFuturesMultiplier k e p = Fin m \<and> 0 < m"
  using is_fin_contract_multiplier [of k p]
  by (cases "js_num e") (auto simp: resolveFuturesMultiplier_def Let_def)

lemma calculateOpenFuturesPnl_Fin [simp]:
  "calculateOpenFuturesPnl (Fin e) (Fin c) (Fin s) (Fin m) = Fin ((c - e) * m * s)"
  by (simp add: calculateOpenFuturesPnl_def)

lemma is_fin_openPnl [simp]: "is_fin (calculateOpenFuturesPnl e c s m)"
  by (cases e; cases c; cases s; cases m) (auto simp: calculateOpenFuturesPnl_def)

lemma is_fin_marketValue [simp]: "is_fin (calculateFuturesMarketValue c s m)"
  by (cases c; cases s; cases m) (auto simp: calculateFuturesMarketValue_def)

text \<open>
  A contract specification is always usable: whatever the market key (known, unknown, empty) and
  the price, tick size and multiplier are positive finite numbers and the tick value is exactly
  their product, so one tick of movement on one contract is worth the tick value in the open P\&L.
\<close>

theorem contract_tick_value:
  "\<exists>t m. futuresContractSpecFor k p = \<lparr>fc_tickSize = Fin t, fc_multiplier = Fin m, fc_tickValue = Fin (t * m)\<rparr>
      \<and> 0 < t \<and> 0 < m \<and>
      calculateOpenFuturesPnl (Fin e) (Fin (e + t)) (Fin 1) (fc_multiplier (futuresContractSpecFor k p))
        = fc_tickValue (futuresContractSpecFor k p)"
proof -
  obtain t m where "futuresContractSpecFor k p =
      \<lparr>fc_tickSize = Fin t, fc_multiplier = Fin m, fc_tickValue = Fin (t * m)\<rparr>" "0 < t" "0 < m"
    using spec_ok_contract by (rule spec_okE)
  then show ?thesis by simp
qed

lemma openPnl_neg:
  "calculateOpenFuturesPnl e c (js_neg s) m = js_neg (calculateOpenFuturesPnl e c s m)"
  by (cases e; cases c; cases s; cases m) (auto simp: calculateOpenFuturesPnl_def)

lemma openPnl_moves_add:
  "js_add (calculateOpenFuturesPnl (Fin a) (Fin b) s (Fin d)) (calculateOpenFuturesPnl (Fin b) (Fin g) s (Fin d))
     = calculateOpenFuturesPnl (Fin a) (Fin g) s (Fin d)"
  by (cases s) (auto simp: calculateOpenFuturesPnl_def algebra_simps)

lemma known_product_upper [simp]: "isKnownFuturesProduct (product_key k) = isKnownFuturesProduct k"
  by (simp add: isKnownFuturesProduct_def)

end
