(* ===== verification/Bars.thy ===== *)
theory Bars
  imports Types
begin

text \<open>
  \<open>apps/terminal/src/utils/bars.ts\<close>: the chart payload parser.  \<open>Date.parse\<close>, which is
  implementation-defined outside ISO 8601, is the parameter \<open>dp\<close> of the definitions.  A \<open>null\<close> row makes
  the property read throw, so the parser returns a result.
\<close>

definition finiteNumber :: "jsval \<Rightarrow> jsnum option" where
  "finiteNumber value = (let parsed = js_num value in if is_fin parsed then Some parsed else None)"

definition normalizeTimestamp :: "(string \<Rightarrow> jsnum) \<Rightarrow> jsval \<Rightarrow> jsnum option" where
  "normalizeTimestamp dp value =
     (let numeric = (case finiteNumber value of None \<Rightarrow> None
                     | Some parsed \<Rightarrow> Some (if js_lt parsed (Fin 10000000000) then js_mul parsed (Fin 1000) else parsed))
      in case value of
           JStr s \<Rightarrow> (let parsedDate = dp s in if is_fin parsedDate then Some parsedDate else numeric)
         | _ \<Rightarrow> numeric)"

definition parse_bar_row :: "(string \<Rightarrow> jsnum) \<Rightarrow> jsval \<Rightarrow> bar option js_result" where
  "parse_bar_row dp item =
     (if is_nullish item then Inl TypeError
      else Inr (case finiteNumber (js_nn [js_get item ''close'', js_get item ''price'']) of
          None \<Rightarrow> None
        | Some cl \<Rightarrow>
            (case normalizeTimestamp dp (js_nn [js_get item ''time'', js_get item ''timestampMs'',
                    js_get item ''timestamp'', js_get item ''ts'']) of
               None \<Rightarrow> None
             | Some t \<Rightarrow>
                 let op = opt_or (finiteNumber (js_get item ''open'')) cl;
                     hi = opt_or (finiteNumber (js_get item ''high'')) (js_max op cl);
                     lo = opt_or (finiteNumber (js_get item ''low'')) (js_min op cl);
                     vol = opt_or (finiteNumber (js_get item ''volume'')) (Fin 0)
                 in Some \<lparr>timestamp = t, bopen = op, high = hi, low = lo, close = cl, volume = vol\<rparr>)))"

definition bars_source :: "jsval \<Rightarrow> jsval list" where
  "bars_source payload =
     (case payload of
        JArr vs \<Rightarrow> vs
      | JObj _ \<Rightarrow> (case js_get payload ''bars'' of JArr vs \<Rightarrow> vs | _ \<Rightarrow> [])
      | _ \<Rightarrow> [])"

definition cmp_timestamp :: "bar \<Rightarrow> bar \<Rightarrow> jsnum" where
  "cmp_timestamp a b = js_sub (timestamp a) (timestamp b)"

definition parseBarsPayload :: "(string \<Rightarrow> jsnum) \<Rightarrow> jsval \<Rightarrow> bar list js_result" where
  "parseBarsPayload dp payload =
     (case map_result (parse_bar_row dp) (bars_source payload) of
        Inl e \<Rightarrow> Inl e
      | Inr rows \<Rightarrow> Inr (js_sort cmp_timestamp (List.map_filter id rows)))"

text \<open>
  \<open>fetchBars\<close>: the outcome of the request (a response with its status and the result of reading its
  JSON, or a rejection) and whether the timer fired are the environment's; the function is what the
  code makes of them.
\<close>

datatype fetch_outcome =
    Response bool jsnum "jsval js_result"
  | Rejected js_error

definition bars_url :: "string \<Rightarrow> jsval \<Rightarrow> jsnum \<Rightarrow> string" where
  "bars_url asset interval limit =
     ''/api/bars/'' @ encodeURIComponent asset @ ''?interval='' @ encodeURIComponent (js_str interval)
       @ ''&limit='' @ jsnum_string limit"

definition fetch_error :: "bool \<Rightarrow> jsnum \<Rightarrow> js_error \<Rightarrow> js_error" where
  "fetch_error timedOut timeoutMs err =
     (if timedOut \<or> err = AbortError
      then ErrorMsg (''Chart bars request timed out after ''
             @ jsnum_string (js_round (js_div timeoutMs (Fin 1000))) @ ''s'')
      else err)"

definition fetchBars :: "(string \<Rightarrow> jsnum) \<Rightarrow> jsnum \<Rightarrow> bool \<Rightarrow> fetch_outcome \<Rightarrow> bar list js_result" where
  "fetchBars dp timeoutMs timedOut outcome =
     (let attempt = (case outcome of
          Rejected e \<Rightarrow> Inl e
        | Response ok status body \<Rightarrow>
            if \<not> ok then Inl (ErrorMsg (''HTTP '' @ jsnum_string status))
            else case body of Inl e \<Rightarrow> Inl e | Inr v \<Rightarrow> parseBarsPayload dp v)
      in case attempt of Inl e \<Rightarrow> Inl (fetch_error timedOut timeoutMs e) | Inr bs \<Rightarrow> Inr bs)"

section \<open>Properties\<close>

definition bar_finite :: "bar \<Rightarrow> bool" where
  "bar_finite b = (is_fin (timestamp b) \<and> is_fin (bopen b) \<and> is_fin (high b) \<and> is_fin (low b) \<and>
     is_fin (close b) \<and> is_fin (volume b))"

interpretation by_time: key_comparator cmp_timestamp "\<lambda>b. is_fin (timestamp b)" "\<lambda>b. fin_val (timestamp b)"
  by unfold_locales (auto simp: cmp_timestamp_def cmp_le_def is_fin_conv)

lemma finiteNumber_fin: "finiteNumber v = Some x \<Longrightarrow> is_fin x"
  by (auto simp: finiteNumber_def Let_def split: if_splits)

lemma normalizeTimestamp_fin: "normalizeTimestamp dp v = Some t \<Longrightarrow> is_fin t"
proof -
  assume *: "normalizeTimestamp dp v = Some t"
  have num: "is_fin t" if "(case finiteNumber v of None \<Rightarrow> None
      | Some p \<Rightarrow> Some (if js_lt p (Fin 10000000000) then js_mul p (Fin 1000) else p)) = Some t"
    using that finiteNumber_fin [of v] by (auto simp: is_fin_conv split: option.splits if_splits)
  with * show ?thesis
    by (cases v) (auto simp: normalizeTimestamp_def Let_def split: if_splits)
qed

lemma opt_or_finiteNumber: "is_fin d \<Longrightarrow> is_fin (opt_or (finiteNumber v) d)"
  by (rule is_fin_opt_or) (rule finiteNumber_fin)

lemma parse_bar_row_finite: "parse_bar_row dp v = Inr (Some b) \<Longrightarrow> bar_finite b"
  by (auto simp: parse_bar_row_def bar_finite_def Let_def is_fin_max_min opt_or_finiteNumber
      dest: finiteNumber_fin normalizeTimestamp_fin split: if_splits option.splits)

lemma parse_rows_finite:
  assumes "map_result (parse_bar_row dp) vs = Inr rows"
  shows "\<forall>b \<in> set (List.map_filter id rows). bar_finite b"
  using map_result_mem [OF assms] by (fastforce simp: map_filter_def dest: parse_bar_row_finite)

text \<open>
  C10. What the parser returns is chart-ready: every bar has six finite fields, the bars are in
  ascending order of time, and two bars with the same time keep the order of the payload.
\<close>

theorem parseBarsPayload_chart_ready:
  assumes "parseBarsPayload dp payload = Inr bars"
  shows "(\<forall>b \<in> set bars. bar_finite b) \<and> sorted (map (\<lambda>b. fin_val (timestamp b)) bars) \<and>
    (\<exists>rows. map_result (parse_bar_row dp) (bars_source payload) = Inr rows \<and>
      mset bars = mset (List.map_filter id rows) \<and>
      (\<forall>t. filter (\<lambda>b. fin_val (timestamp b) = t) bars =
           filter (\<lambda>b. fin_val (timestamp b) = t) (List.map_filter id rows)))"
proof -
  obtain rows where r: "map_result (parse_bar_row dp) (bars_source payload) = Inr rows"
    and b: "bars = js_sort cmp_timestamp (List.map_filter id rows)"
    using assms by (auto simp: parseBarsPayload_def split: sum.splits)
  have fin: "\<forall>b \<in> set (List.map_filter id rows). bar_finite b" by (rule parse_rows_finite [OF r])
  then have "\<forall>b \<in> set (List.map_filter id rows). is_fin (timestamp b)" by (auto simp: bar_finite_def)
  note sorts = by_time.sort_sorted_key [OF this] by_time.sort_stable [OF this]
  show ?thesis using fin sorts r b by auto
qed

lemma parseBarsPayload_example:
  "parseBarsPayload dp (JArr [JObj [(''ts'', JNum (Fin 1700000060)), (''close'', JStr ''5''), (''open'', JNum (Fin 4))],
      JObj [(''price'', JNum NaN)],
      JObj [(''ts'', JNum (Fin 1700000000)), (''price'', JNum (Fin 3))]]) =
   Inr [\<lparr>timestamp = Fin 1700000000000, bopen = Fin 3, high = Fin 3, low = Fin 3, close = Fin 3, volume = Fin 0\<rparr>,
        \<lparr>timestamp = Fin 1700000060000, bopen = Fin 4, high = Fin 5, low = Fin 4, close = Fin 5, volume = Fin 0\<rparr>]"
proof -
  have five: "js_parse ''5'' = Fin 5" by code_simp
  show ?thesis
    by (simp add: parseBarsPayload_def bars_source_def parse_bar_row_def finiteNumber_def
        normalizeTimestamp_def map_filter_def cmp_timestamp_def five Let_def)
qed

theorem parseBarsPayload_chart_ready_witness:
  "\<exists>bars. length bars = 2 \<and> (\<forall>b \<in> set bars. bar_finite b) \<and> sorted (map (\<lambda>b. fin_val (timestamp b)) bars)"
  using parseBarsPayload_chart_ready [OF parseBarsPayload_example]
  by (intro exI) (rule conjI [rotated], blast, simp)

text \<open>
  A \<open>null\<close> price is not a missing price.  \<open>finiteNumber\<close> is \<open>Number(v)\<close>, which maps \<open>null\<close> to 0, so the
  fall-backs after \<open>??\<close> are not taken: a row whose \<open>open\<close> is \<open>null\<close> becomes a bar that opens at 0 and
  whose high and low reach 0, where a row without the property opens at its close.
\<close>

theorem null_open_becomes_zero:
  "parse_bar_row dp (JObj [(''time'', JNum (Fin 20000000000)), (''open'', JNull), (''close'', JNum (Fin c))]) =
     Inr (Some \<lparr>timestamp = Fin 20000000000, bopen = Fin 0, high = Fin (max 0 c), low = Fin (min 0 c),
                close = Fin c, volume = Fin 0\<rparr>)
   \<and> parse_bar_row dp (JObj [(''time'', JNum (Fin 20000000000)), (''close'', JNum (Fin c))]) =
     Inr (Some \<lparr>timestamp = Fin 20000000000, bopen = Fin c, high = Fin c, low = Fin c,
                close = Fin c, volume = Fin 0\<rparr>)"
  by (simp add: parse_bar_row_def finiteNumber_def normalizeTimestamp_def Let_def)

text \<open>
  Every way the request can fail ends in one error the chart can show: an abort never escapes as
  such, after the timer every failure is the timeout message, a refused response names its status
  whatever its body, and an accepted response is exactly the parser's result.
\<close>

theorem fetchBars_errors:
  "fetchBars dp ms timedOut outcome \<noteq> Inl AbortError
   \<and> fetchBars dp ms True (Rejected e) = Inl (fetch_error True ms AbortError)
   \<and> fetchBars dp ms False (Response False status body) = Inl (ErrorMsg (''HTTP '' @ jsnum_string status))
   \<and> fetchBars dp ms False (Response True status (Inr v)) =
       (case parseBarsPayload dp v of Inl x \<Rightarrow> Inl (fetch_error False ms x) | Inr bars \<Rightarrow> Inr bars)"
  by (auto simp: fetchBars_def fetch_error_def Let_def split: sum.splits fetch_outcome.splits if_splits)

end
