(* ===== verification/MarketDisplay.thy ===== *)
theory MarketDisplay
  imports Types
begin

text \<open>
  \<open>apps/terminal/src/utils/marketDisplay.ts\<close>: how the terminal finds the price increment of a product
  (from the book, the product definition, or the depth levels), rounds to it and formats prices.
\<close>

record depth_level =
  dl_price :: jsval
  dl_size :: jsval

datatype increment_source = Src_book | Src_product_definition | Src_depth_levels | Src_missing

record depth_contract =
  dc_ready :: bool
  dc_priceIncrement :: "jsnum option"
  dc_source :: increment_source
  dc_message :: "string option"

definition finiteMarketPrice :: "jsval \<Rightarrow> jsnum option" where
  "finiteMarketPrice value = (let number = js_num value in if is_fin number then Some number else None)"

definition positiveNumber :: "jsval \<Rightarrow> jsnum option" where
  "positiveNumber value =
     (let number = js_num value in if is_fin number \<and> js_lt (Fin 0) number then Some number else None)"

definition strip_trailing_zeros :: "string \<Rightarrow> string" where
  "strip_trailing_zeros s = rev (dropWhile (\<lambda>c. c = CHR ''0'') (rev s))"

definition decimalsForIncrement :: "jsnum option \<Rightarrow> nat option" where
  "decimalsForIncrement increment =
     (case increment of None \<Rightarrow> None
      | Some inc \<Rightarrow>
          if \<not> is_fin inc \<or> js_le inc (Fin 0) then None
          else let fixed = strip_trailing_zeros (to_fixed 10 inc) in
               case find_index (\<lambda>c. c = CHR ''.'') fixed of
                 None \<Rightarrow> Some 0
               | Some dot \<Rightarrow> Some (min 8 (length fixed - dot - 1)))"

definition formatMarketPrice :: "jsnum \<Rightarrow> jsnum option \<Rightarrow> string" where
  "formatMarketPrice price priceIncrement =
     (if \<not> is_fin price then ''-''
      else case decimalsForIncrement priceIncrement of
             Some d \<Rightarrow> to_fixed d price
           | None \<Rightarrow> if js_le (Fin 100) (js_abs price) then to_fixed 2 price else to_fixed 3 price)"

definition roundToPriceIncrement :: "jsnum \<Rightarrow> jsnum \<Rightarrow> jsnum" where
  "roundToPriceIncrement price priceIncrement =
     (if \<not> is_fin price \<or> \<not> is_fin priceIncrement \<or> js_le priceIncrement (Fin 0) then price
      else js_mul (js_round (js_div price priceIncrement)) priceIncrement)"

definition num_asc :: "jsnum \<Rightarrow> jsnum \<Rightarrow> jsnum" where
  "num_asc a b = js_sub a b"

text \<open>The loop over neighbouring prices collects the differences above \<open>1e-9\<close>.\<close>

fun price_diffs :: "jsnum list \<Rightarrow> jsnum list" where
  "price_diffs (p # q # ps) =
     (let diff = js_abs (js_sub q p) in
      (if js_lt (Fin (1 / 10 ^ 9)) diff then [diff] else []) @ price_diffs (q # ps))"
| "price_diffs _ = []"

definition inferPriceIncrementFromLevels :: "depth_level list option \<Rightarrow> jsnum option" where
  "inferPriceIncrementFromLevels levels =
     (let prices = js_sort num_asc (List.map_filter (\<lambda>l. finiteMarketPrice (dl_price l)) (opt_or levels []))
      in case js_sort num_asc (price_diffs prices) of [] \<Rightarrow> None | d # _ \<Rightarrow> Some d)"

record increment_query =
  iq_publishedTickSize :: jsval
  iq_productTickSize :: jsval
  iq_bids :: "depth_level list option"
  iq_asks :: "depth_level list option"

definition iq_levels :: "increment_query \<Rightarrow> depth_level list option" where
  "iq_levels q = Some (opt_or (iq_bids q) [] @ opt_or (iq_asks q) [])"

definition resolvePriceIncrement :: "increment_query \<Rightarrow> jsnum option" where
  "resolvePriceIncrement q =
     (case positiveNumber (iq_publishedTickSize q) of Some t \<Rightarrow> Some t
      | None \<Rightarrow> (case positiveNumber (iq_productTickSize q) of Some t \<Rightarrow> Some t
                | None \<Rightarrow> inferPriceIncrementFromLevels (iq_levels q)))"

definition resolveDepthDisplayContract :: "increment_query \<Rightarrow> depth_contract" where
  "resolveDepthDisplayContract q =
     (case positiveNumber (iq_publishedTickSize q) of
        Some t \<Rightarrow> \<lparr>dc_ready = True, dc_priceIncrement = Some t, dc_source = Src_book, dc_message = None\<rparr>
      | None \<Rightarrow>
     (case positiveNumber (iq_productTickSize q) of
        Some t \<Rightarrow> \<lparr>dc_ready = True, dc_priceIncrement = Some t, dc_source = Src_product_definition, dc_message = None\<rparr>
      | None \<Rightarrow>
     (case inferPriceIncrementFromLevels (iq_levels q) of
        Some t \<Rightarrow> \<lparr>dc_ready = True, dc_priceIncrement = Some t, dc_source = Src_depth_levels, dc_message = None\<rparr>
      | None \<Rightarrow> \<lparr>dc_ready = False, dc_priceIncrement = None, dc_source = Src_missing,
                 dc_message = Some ''Waiting for product definition from price service.''\<rparr>)))"

definition depthMultiplierOptionsForTickSize :: "jsval \<Rightarrow> nat list" where
  "depthMultiplierOptionsForTickSize tickSize =
     (let tick = js_num tickSize in
      if is_fin tick \<and> js_lt (js_abs (js_sub tick (Fin (1 / 10)))) (Fin (1 / 10 ^ 9))
      then [1, 2, 5, 10] else [1, 2, 4, 8, 16])"

section \<open>Properties\<close>

interpretation nums: key_comparator num_asc is_fin fin_val
  by unfold_locales (auto simp: num_asc_def cmp_le_def is_fin_conv)

lemma positiveNumber_pos: "positiveNumber v = Some t \<Longrightarrow> \<exists>q. t = Fin q \<and> 0 < q"
proof -
  assume "positiveNumber v = Some t"
  then have "is_fin t \<and> js_lt (Fin 0) t" by (auto simp: positiveNumber_def Let_def split: if_splits)
  then show ?thesis by (cases t) auto
qed

lemma price_diffs_pos: "\<forall>p \<in> set ps. is_fin p \<Longrightarrow> \<forall>d \<in> set (price_diffs ps). \<exists>q. d = Fin q \<and> 1 / 10 ^ 9 < q"
  by (induction ps rule: price_diffs.induct) (auto simp: is_fin_conv Let_def)

definition level_prices :: "depth_level list option \<Rightarrow> jsnum list" where
  "level_prices levels = List.map_filter (\<lambda>l. finiteMarketPrice (dl_price l)) (opt_or levels [])"

lemma level_prices_fin: "\<forall>p \<in> set (level_prices ls). is_fin p"
  by (auto simp: level_prices_def map_filter_def finiteMarketPrice_def Let_def split: if_splits)

lemma inferPriceIncrement_alt:
  "inferPriceIncrementFromLevels ls =
    (case js_sort num_asc (price_diffs (js_sort num_asc (level_prices ls))) of [] \<Rightarrow> None | d # _ \<Rightarrow> Some d)"
  by (simp add: inferPriceIncrementFromLevels_def level_prices_def)

lemma inferPriceIncrement_pos: "inferPriceIncrementFromLevels ls = Some d \<Longrightarrow> \<exists>q. d = Fin q \<and> 1 / 10 ^ 9 < q"
proof -
  assume *: "inferPriceIncrementFromLevels ls = Some d"
  have "\<forall>p \<in> set (js_sort num_asc (level_prices ls)). is_fin p" using level_prices_fin by simp
  then have "\<forall>d \<in> set (price_diffs (js_sort num_asc (level_prices ls))). \<exists>q. d = Fin q \<and> 1 / 10 ^ 9 < q"
    by (rule price_diffs_pos)
  moreover have "d \<in> set (js_sort num_asc (price_diffs (js_sort num_asc (level_prices ls))))"
    using * by (auto simp: inferPriceIncrement_alt
        simp del: set_js_sort split: list.splits)
  ultimately show ?thesis by simp
qed

lemma sort_nums_Fin: "js_sort num_asc (map Fin qs) = map Fin (sort qs)"
proof -
  have "insort_key fin_val (Fin x) (map Fin ys) = map Fin (insort x ys)" for x ys
    by (induction ys) auto
  then have "sort_key fin_val (map Fin qs) = map Fin (sort qs)"
    by (induction qs) auto
  then show ?thesis using nums.sort_eq [of "map Fin qs"] by simp
qed

fun rat_diffs :: "rat list \<Rightarrow> rat list" where
  "rat_diffs (p # q # ps) = (if 1 / 10 ^ 9 < \<bar>q - p\<bar> then [\<bar>q - p\<bar>] else []) @ rat_diffs (q # ps)"
| "rat_diffs _ = []"

lemma price_diffs_Fin: "price_diffs (map Fin qs) = map Fin (rat_diffs qs)"
  by (induction qs rule: rat_diffs.induct) (auto simp: Let_def)

lemma rat_diffs_are_gaps: "d \<in> set (rat_diffs qs) \<Longrightarrow> \<exists>x \<in> set qs. \<exists>y \<in> set qs. x \<noteq> y \<and> d = \<bar>x - y\<bar>"
  by (induction qs rule: rat_diffs.induct) (force split: if_splits simp: abs_minus_commute)+

lemma rat_diffs_least:
  assumes "sorted qs" "x \<in> set qs" "y \<in> set qs" "x < y"
    and "\<And>a b. a \<in> set qs \<Longrightarrow> b \<in> set qs \<Longrightarrow> a \<noteq> b \<Longrightarrow> 1 / 10 ^ 9 < \<bar>a - b\<bar>"
  shows "\<exists>d \<in> set (rat_diffs qs). d \<le> y - x"
  using assms
proof (induction qs rule: rat_diffs.induct)
  case (1 p q ps)
  have tail: "\<exists>d \<in> set (rat_diffs (p # q # ps)). d \<le> y - x" if "x \<in> set (q # ps)" "y \<in> set (q # ps)"
  proof -
    have "sorted (q # ps)" using "1.prems"(1) by simp
    moreover have "\<And>a b. a \<in> set (q # ps) \<Longrightarrow> b \<in> set (q # ps) \<Longrightarrow> a \<noteq> b \<Longrightarrow> 1 / 10 ^ 9 < \<bar>a - b\<bar>"
      using "1.prems"(5) by simp
    ultimately have "\<exists>d \<in> set (rat_diffs (q # ps)). d \<le> y - x"
      using "1.IH" [OF _ that \<open>x < y\<close>] by blast
    then show ?thesis by auto
  qed
  show ?case
  proof (cases "x = p \<and> p \<noteq> q")
    case True
    have "q \<le> y" using True "1.prems"(1,3,4) by auto
    moreover have "1 / 10 ^ 9 < \<bar>q - p\<bar>" using "1.prems"(5) [of q p] True by simp
    moreover have "p \<le> q" using "1.prems"(1) by simp
    ultimately show ?thesis using True by auto
  next
    case False
    have "x \<in> set (q # ps)" using False "1.prems"(2) by auto
    moreover have "y \<in> set (q # ps)" using "1.prems"(1,3,4) \<open>x \<in> set (q # ps)\<close> by auto
    ultimately show ?thesis by (rule tail)
  qed
qed (use assms in auto)

text \<open>
  The increment inferred from depth levels is the smallest gap of the book.  Where distinct level
  prices lie further apart than the noise threshold \<open>1e-9\<close>, it is the distance of two distinct level
  prices, and no two distinct prices on either side of the book are closer.
\<close>

theorem inferPriceIncrement_smallest_gap:
  assumes "inferPriceIncrementFromLevels ls = Some d"
    and "\<And>a b. a \<in> fin_val ` set (level_prices ls) \<Longrightarrow> b \<in> fin_val ` set (level_prices ls) \<Longrightarrow> a \<noteq> b \<Longrightarrow>
           1 / 10 ^ 9 < \<bar>a - b\<bar>"
  shows "(\<exists>a \<in> fin_val ` set (level_prices ls). \<exists>b \<in> fin_val ` set (level_prices ls). a \<noteq> b \<and> d = Fin \<bar>a - b\<bar>)
    \<and> \<not> (\<exists>a \<in> fin_val ` set (level_prices ls). \<exists>b \<in> fin_val ` set (level_prices ls).
          a \<noteq> b \<and> js_lt (Fin \<bar>a - b\<bar>) d)"
proof -
  define qs where "qs = map fin_val (level_prices ls)"
  have lp: "level_prices ls = map Fin qs"
    using level_prices_fin [of ls] by (auto simp: qs_def comp_def intro!: map_idI [symmetric])
  have "inferPriceIncrementFromLevels ls =
      (case map Fin (sort (rat_diffs (sort qs))) of [] \<Rightarrow> None | d # _ \<Rightarrow> Some d)"
    by (simp add: inferPriceIncrement_alt lp sort_nums_Fin
        price_diffs_Fin)
  with assms(1) obtain e es where e: "sort (rat_diffs (sort qs)) = e # es" "d = Fin e"
    by (cases "sort (rat_diffs (sort qs))") auto
  have members: "fin_val ` set (level_prices ls) = set qs" by (simp add: qs_def)
  have "sorted (e # es)" using e(1) by (metis sorted_sort)
  then have least: "e \<le> c" if "c \<in> set (rat_diffs (sort qs))" for c
    using that e(1) by (metis set_sort set_ConsD sorted_simps(2) order_refl)
  have "e \<in> set (rat_diffs (sort qs))" using e(1) by (metis list.set_intros(1) set_sort)
  then have "\<exists>a \<in> set qs. \<exists>b \<in> set qs. a \<noteq> b \<and> e = \<bar>a - b\<bar>" using rat_diffs_are_gaps by fastforce
  moreover have "e \<le> \<bar>a - b\<bar>" if "a \<in> set qs" "b \<in> set qs" "a \<noteq> b" for a b
  proof -
    have "\<exists>c \<in> set (rat_diffs (sort qs)). c \<le> max a b - min a b"
      using that assms(2) unfolding members
      by (intro rat_diffs_least) (auto simp: max_def min_def)
    then show ?thesis using least by (force simp: max_def min_def split: if_splits)
  qed
  ultimately show ?thesis unfolding members by (fastforce simp: e(2))
qed

lemma inferPriceIncrement_smallest_gap_witness:
  "\<exists>d. inferPriceIncrementFromLevels (Some [\<lparr>dl_price = JNum (Fin 5), dl_size = JUndef\<rparr>,
        \<lparr>dl_price = JNull, dl_size = JUndef\<rparr>, \<lparr>dl_price = JNum (Fin 3), dl_size = JUndef\<rparr>]) = Some d
     \<and> \<not> js_lt (Fin 2) d"
proof -
  let ?ls = "Some [\<lparr>dl_price = JNum (Fin 5), dl_size = JUndef\<rparr>,
        \<lparr>dl_price = JNull, dl_size = JUndef\<rparr>, \<lparr>dl_price = JNum (Fin 3), dl_size = JUndef\<rparr>]"
  have prices: "level_prices ?ls = [Fin 5, Fin 0, Fin 3]"
    by (simp add: level_prices_def map_filter_def finiteMarketPrice_def)
  have some: "inferPriceIncrementFromLevels ?ls = Some (Fin 2)"
    by (simp add: inferPriceIncrement_alt prices num_asc_def)
  have "1 / 10 ^ 9 < \<bar>a - b\<bar>" if "a \<in> fin_val ` set (level_prices ?ls)" "b \<in> fin_val ` set (level_prices ?ls)"
      "a \<noteq> b" for a b
    using that by (auto simp: prices)
  then show ?thesis
    using inferPriceIncrement_smallest_gap [OF some] some by (auto simp: prices)
qed

section \<open>Rounding and formatting\<close>

lemma roundToPriceIncrement_Fin:
  "0 < i \<Longrightarrow> roundToPriceIncrement (Fin p) (Fin i) = Fin (of_int \<lfloor>p / i + 1 / 2\<rfloor> * i)"
  by (simp add: roundToPriceIncrement_def)

text \<open>
  C9. Rounding to a positive increment: the result is a multiple of the increment, at most half an
  increment away, rounding again changes nothing, a larger price never rounds lower, and a tie goes
  up.
\<close>

theorem roundToPriceIncrement_nearest:
  assumes "0 < i"
  shows "\<exists>k :: int. roundToPriceIncrement (Fin p) (Fin i) = Fin (of_int k * i)
      \<and> \<bar>of_int k * i - p\<bar> \<le> i / 2
      \<and> roundToPriceIncrement (roundToPriceIncrement (Fin p) (Fin i)) (Fin i) = roundToPriceIncrement (Fin p) (Fin i)
      \<and> js_le (roundToPriceIncrement (Fin p) (Fin i)) (roundToPriceIncrement (Fin (p + \<bar>e\<bar>)) (Fin i))
      \<and> roundToPriceIncrement (Fin (of_int k * i + i / 2)) (Fin i) = Fin (of_int (k + 1) * i)"
proof (intro exI conjI)
  let ?k = "\<lfloor>p / i + 1 / 2\<rfloor>"
  show round: "roundToPriceIncrement (Fin p) (Fin i) = Fin (of_int ?k * i)"
    using assms by (rule roundToPriceIncrement_Fin)
  have "of_int ?k \<le> p / i + 1 / 2" "p / i + 1 / 2 \<le> of_int ?k + 1" by linarith+
  from mult_right_mono [OF this(1), of i] mult_right_mono [OF this(2), of i]
  have "of_int ?k * i \<le> p + i / 2" "p + i / 2 \<le> of_int ?k * i + i"
    using assms by (simp_all add: distrib_right)
  then show "\<bar>of_int ?k * i - p\<bar> \<le> i / 2" by linarith
  have half: "\<lfloor>of_int n + 1 / 2 :: rat\<rfloor> = n" for n by linarith
  then show "roundToPriceIncrement (roundToPriceIncrement (Fin p) (Fin i)) (Fin i) = roundToPriceIncrement (Fin p) (Fin i)"
    unfolding round using assms by (simp add: roundToPriceIncrement_Fin)
  have "p / i + 1 / 2 \<le> (p + \<bar>e\<bar>) / i + 1 / 2" using assms by (simp add: divide_right_mono)
  then have "?k \<le> \<lfloor>(p + \<bar>e\<bar>) / i + 1 / 2\<rfloor>" by (rule floor_mono)
  then show "js_le (roundToPriceIncrement (Fin p) (Fin i)) (roundToPriceIncrement (Fin (p + \<bar>e\<bar>)) (Fin i))"
    using assms by (simp add: roundToPriceIncrement_Fin)
  have "(of_int ?k * i + i / 2) / i + 1 / 2 = of_int (?k + 1)" using assms by (simp add: field_simps)
  then show "roundToPriceIncrement (Fin (of_int ?k * i + i / 2)) (Fin i) = Fin (of_int (?k + 1) * i)"
    using assms by (simp only: roundToPriceIncrement_Fin floor_of_int)
qed

theorem roundToPriceIncrement_nearest_witness:
  "\<exists>k :: int. roundToPriceIncrement (Fin (101 / 10)) (Fin (1 / 4)) = Fin (of_int k * (1 / 4))"
  using roundToPriceIncrement_nearest [of "1 / 4" "101 / 10" 1] by auto

lemma strip_trailing_split: "\<exists>z. b = strip_trailing_zeros b @ replicate z (CHR ''0'')"
proof -
  have "\<exists>z. r = replicate z (CHR ''0'') @ dropWhile (\<lambda>c. c = CHR ''0'') r" for r :: string
  proof (induction r)
    case (Cons c r)
    then obtain z where "r = replicate z (CHR ''0'') @ dropWhile (\<lambda>c. c = CHR ''0'') r" by blast
    then show ?case by (auto intro: exI [of _ "Suc z"] exI [of _ 0])
  qed simp
  then obtain z where "rev b = replicate z (CHR ''0'') @ dropWhile (\<lambda>c. c = CHR ''0'') (rev b)" by blast
  then have "b = strip_trailing_zeros b @ replicate z (CHR ''0'')"
    unfolding strip_trailing_zeros_def by (metis rev_append rev_replicate rev_rev_ident)
  then show ?thesis by blast
qed

lemma strip_trailing_zeros_point:
  "strip_trailing_zeros (a @ CHR ''.'' # b) = a @ CHR ''.'' # strip_trailing_zeros b"
proof -
  have "dropWhile (\<lambda>c. c = CHR ''0'') (r @ CHR ''.'' # s) =
      dropWhile (\<lambda>c. c = CHR ''0'') r @ CHR ''.'' # s" for r s
    by (induction r) auto
  from this [of "rev b" "rev a"] show ?thesis by (simp add: strip_trailing_zeros_def)
qed

lemma find_point: "all_digits a \<Longrightarrow> find_index (\<lambda>c. c = CHR ''.'') (a @ CHR ''.'' # b) = Some (length a)"
  by (induction a) (auto simp: is_digit_def)

lemma decimals_enough:
  assumes i: "0 < i" "i < 10 ^ 21" and m: "i * 10 ^ 8 = of_int m"
  obtains d where "decimalsForIncrement (Some (Fin i)) = Some d" "\<exists>n. i * 10 ^ d = of_int n"
proof -
  define n where "n = m * 100"
  have n: "of_int n = \<bar>i\<bar> * 10 ^ 10" using m i(1) by (simp add: n_def)
  have "(0 :: rat) \<le> of_int m" using i(1) by (simp flip: m)
  then have n0: "0 \<le> n" by (simp add: n_def)
  obtain a b where ab: "fixed_digits 10 n = a @ ''.'' @ b" "all_digits a" "length b = 10" "digits_val (a @ b) = n"
    using fixed_digits_split [OF n0, of 10] by (metis zero_neq_numeral)
  define sb where "sb = strip_trailing_zeros b"
  obtain z where z: "b = sb @ replicate z (CHR ''0'')" using strip_trailing_split sb_def by blast
  have "to_fixed 10 (Fin i) = a @ CHR ''.'' # b"
    using i ab(1) fixed_scaled_int [OF n] by simp
  then have dec: "decimalsForIncrement (Some (Fin i)) = Some (min 8 (length sb))"
    using i(1) find_point [OF ab(2)]
    by (simp add: decimalsForIncrement_def strip_trailing_zeros_point sb_def Let_def)
  show ?thesis
  proof (cases "length sb \<le> 8")
    case True
    have "n = digits_val (a @ sb) * 10 ^ z"
      using ab(4) digits_val_append [of "a @ sb" "replicate z (CHR ''0'')"] z by simp
    moreover have "(10 :: rat) ^ 10 = 10 ^ length sb * 10 ^ z"
      using ab(3) z by (metis length_append length_replicate power_add)
    ultimately have "(i * 10 ^ length sb) * 10 ^ z = of_int (digits_val (a @ sb)) * 10 ^ z"
      using n i(1) by (simp add: mult.assoc)
    then have "i * 10 ^ length sb = of_int (digits_val (a @ sb))" by simp
    with that [OF dec] True show ?thesis by (metis min.absorb2)
  next
    case False
    with that [OF dec] m show ?thesis by (metis min.absorb1 nle_le)
  qed
qed

lemma parse_format:
  assumes "0 < i" "i < 10 ^ 21" "i * 10 ^ 8 = of_int m" "\<bar>of_int k * i\<bar> < 10 ^ 21"
  shows "js_parse (formatMarketPrice (Fin (of_int k * i)) (Some (Fin i))) = Fin (of_int k * i)"
proof -
  obtain d n where d: "decimalsForIncrement (Some (Fin i)) = Some d" and n: "i * 10 ^ d = of_int n"
    using decimals_enough [OF assms(1-3)] by metis
  have "of_int \<bar>k * n\<bar> = \<bar>of_int k * i\<bar> * 10 ^ d"
    by (simp add: abs_mult mult.assoc flip: n)
  then have "js_parse (to_fixed d (Fin (of_int k * i))) = Fin (of_int k * i)"
    using assms(4) by (rule js_parse_to_fixed)
  then show ?thesis using d by (simp add: formatMarketPrice_def del: to_fixed.simps)
qed

text \<open>
  A displayed ladder price reads back as the price.  For an increment of at most eight decimals and
  any multiple of it (every price of the ladder), parsing the formatted text gives exactly that
  multiple, so no two prices of a ladder show the same text.
\<close>

theorem formatMarketPrice_roundtrip:
  assumes "0 < i" "i < 10 ^ 21" "i * 10 ^ 8 = of_int m" "\<bar>of_int k * i\<bar> < 10 ^ 21"
  shows "js_parse (formatMarketPrice (Fin (of_int k * i)) (Some (Fin i))) = Fin (of_int k * i)"
  using assms by (rule parse_format)

theorem formatMarketPrice_roundtrip_witness:
  "js_parse (formatMarketPrice (Fin (5000 + 1 / 4)) (Some (Fin (1 / 4)))) = Fin (5000 + 1 / 4)"
  using formatMarketPrice_roundtrip [of "1 / 4" 25000000 20001] by simp

lemma resolvePriceIncrement_pos: "resolvePriceIncrement q = Some t \<Longrightarrow> js_lt (Fin 0) t"
  using inferPriceIncrement_pos [of "iq_levels q" t] positiveNumber_pos [of "iq_publishedTickSize q" t]
    positiveNumber_pos [of "iq_productTickSize q" t]
  by (auto simp: resolvePriceIncrement_def split: option.splits)

text \<open>
  The two resolvers of the price increment agree: the depth contract is ready exactly when an increment
  exists, carries the increment \<open>resolvePriceIncrement\<close> returns, and that increment is positive;
  only the missing case carries a message.
\<close>

theorem depth_contract_agrees:
  "dc_priceIncrement (resolveDepthDisplayContract q) = resolvePriceIncrement q
   \<and> (dc_ready (resolveDepthDisplayContract q) \<longleftrightarrow> resolvePriceIncrement q \<noteq> None)
   \<and> (dc_source (resolveDepthDisplayContract q) = Src_missing \<longleftrightarrow> resolvePriceIncrement q = None)
   \<and> (dc_message (resolveDepthDisplayContract q) = None \<longleftrightarrow> dc_ready (resolveDepthDisplayContract q))
   \<and> js_lt (Fin 0) (opt_or (resolvePriceIncrement q) (Fin 1))"
proof -
  have "js_lt (Fin 0) (opt_or (resolvePriceIncrement q) (Fin 1))"
    using resolvePriceIncrement_pos by (cases "resolvePriceIncrement q") auto
  then show ?thesis
    by (simp add: resolveDepthDisplayContract_def resolvePriceIncrement_def split: option.splits)
qed

end
