(* ===== verification/JsMath.thy ===== *)
theory JsMath
  imports JsValue
begin

text \<open>
  \<open>Math.sqrt\<close> on exact rationals, to 52 binary places below the denominator of its argument, rounded
  down: exact on squares, 0 only at 0.  And \<open>Object.entries\<close>, which lists the properties that are
  array indices first, in ascending order.
\<close>

section \<open>Square roots\<close>

fun isqrt :: "nat \<Rightarrow> nat" where
  "isqrt n = (if n = 0 then 0 else let r = 2 * isqrt (n div 4) in if (r + 1) * (r + 1) \<le> n then r + 1 else r)"

declare isqrt.simps [simp del]

lemma isqrt_bounds: "isqrt n * isqrt n \<le> n \<and> n < (isqrt n + 1) * (isqrt n + 1)"
proof (induction n rule: isqrt.induct)
  case (1 n)
  show ?case
  proof (cases "n = 0")
    case False
    define m where "m = isqrt (n div 4)"
    have m: "m * m \<le> n div 4" "n div 4 < (m + 1) * (m + 1)" using 1 False by (simp_all add: m_def)
    have "4 * (m * m) \<le> n" using m(1) by linarith
    moreover have "n < 4 * ((m + 1) * (m + 1))" using m(2) by linarith
    moreover have "isqrt n = (if (2 * m + 1) * (2 * m + 1) \<le> n then 2 * m + 1 else 2 * m)"
      using False by (subst isqrt.simps) (simp add: Let_def m_def)
    ultimately show ?thesis by (auto simp: algebra_simps)
  qed (simp add: isqrt.simps)
qed

lemma isqrt_unique:
  assumes "r * r \<le> n" "n < (r + 1) * (r + 1)"
  shows "isqrt n = r"
proof (rule linorder_cases [of "isqrt n" r])
  assume "isqrt n < r"
  then have "(isqrt n + 1) * (isqrt n + 1) \<le> r * r" by (intro mult_le_mono) simp_all
  then show ?thesis using isqrt_bounds [of n] assms(1) by linarith
next
  assume "r < isqrt n"
  then have "(r + 1) * (r + 1) \<le> isqrt n * isqrt n" by (intro mult_le_mono) simp_all
  then show ?thesis using isqrt_bounds [of n] assms(2) by linarith
qed

lemma isqrt_square: "isqrt (r * r) = r"
  by (rule isqrt_unique) auto

definition rat_sqrt :: "rat \<Rightarrow> rat" where
  "rat_sqrt q = (let (a, b) = quotient_of q in of_nat (isqrt (nat (a * b) * 4 ^ 52)) / (of_int b * 2 ^ 52))"

fun js_sqrt :: "jsnum \<Rightarrow> jsnum" where
  "js_sqrt (Fin q) = (if q < 0 then NaN else Fin (rat_sqrt q))"
| "js_sqrt PosInf = PosInf"
| "js_sqrt _ = NaN"

lemma rat_sqrt_nonneg [simp]: "0 \<le> rat_sqrt q"
proof -
  obtain a b where ab: "quotient_of q = (a, b)" by (cases "quotient_of q")
  then show ?thesis using quotient_of_denom_pos [OF ab] by (simp add: rat_sqrt_def)
qed

lemma rat_sqrt_zero [simp]: "0 \<le> q \<Longrightarrow> rat_sqrt q = 0 \<longleftrightarrow> q = 0"
proof -
  assume q: "0 \<le> q"
  obtain a b where ab: "quotient_of q = (a, b)" by (cases "quotient_of q")
  have b: "b > 0" and qq: "q = of_int a / of_int b"
    using quotient_of_denom_pos [OF ab] quotient_of_div [OF ab] by auto
  have a: "a \<ge> 0" using q b by (simp add: qq zero_le_divide_iff)
  have "isqrt (nat (a * b) * 4 ^ 52) = 0 \<longleftrightarrow> a = 0"
  proof
    assume "isqrt (nat (a * b) * 4 ^ 52) = 0"
    then have "nat (a * b) * 4 ^ 52 < 1" using isqrt_bounds [of "nat (a * b) * 4 ^ 52"] by simp
    then show "a = 0" using a b by (auto simp: nat_eq_iff zero_less_mult_iff dest: order.antisym)
  qed (simp add: isqrt.simps)
  moreover have "q = 0 \<longleftrightarrow> a = 0" using b by (simp add: qq)
  ultimately show ?thesis using b by (simp add: rat_sqrt_def ab)
qed

lemma rat_sqrt_square_le: "0 \<le> q \<Longrightarrow> rat_sqrt q * rat_sqrt q \<le> q"
proof -
  assume q: "0 \<le> q"
  obtain a b where ab: "quotient_of q = (a, b)" by (cases "quotient_of q")
  have b: "b > 0" and qq: "q = of_int a / of_int b"
    using quotient_of_denom_pos [OF ab] quotient_of_div [OF ab] by auto
  have a: "a \<ge> 0" using q b by (simp add: qq zero_le_divide_iff)
  define r where "r = isqrt (nat (a * b) * 4 ^ 52)"
  have "r * r \<le> nat (a * b) * 4 ^ 52" using isqrt_bounds [of "nat (a * b) * 4 ^ 52"] by (simp add: r_def)
  then have "(of_nat (r * r) :: rat) \<le> of_nat (nat (a * b) * 4 ^ 52)" by (rule of_nat_mono)
  also have "\<dots> = of_int a * of_int b * 4 ^ 52" using a b by (simp add: of_nat_nat)
  finally have "of_nat r * of_nat r \<le> (of_int a * of_int b * 4 ^ 52 :: rat)" by simp
  moreover have "rat_sqrt q * rat_sqrt q = of_nat r * of_nat r / (of_int b * of_int b * 4 ^ 52)"
    by (simp add: rat_sqrt_def ab r_def)
  moreover have "q = of_int a * of_int b * 4 ^ 52 / (of_int b * of_int b * 4 ^ 52)" using b by (simp add: qq)
  moreover have "(0 :: rat) \<le> of_int b * of_int b * 4 ^ 52" using b by simp
  ultimately show ?thesis by (metis divide_right_mono)
qed

lemma is_fin_sqrt: "is_fin (js_sqrt x) \<longleftrightarrow> (\<exists>q. x = Fin q \<and> 0 \<le> q)"
  by (cases x) auto

section \<open>Remainder\<close>

text \<open>\<open>a % b\<close> has the sign of \<open>a\<close>.\<close>

fun js_mod :: "jsnum \<Rightarrow> jsnum \<Rightarrow> jsnum" where
  "js_mod (Fin a) (Fin b) = (if b = 0 then NaN else js_sub (Fin a) (js_mul (Fin b) (js_trunc (Fin (a / b)))))"
| "js_mod (Fin a) PosInf = Fin a"
| "js_mod (Fin a) NegInf = Fin a"
| "js_mod _ _ = NaN"

section \<open>Entries\<close>

definition index_key :: "string \<Rightarrow> bool" where
  "index_key k =
     (k \<noteq> '''' \<and> all_digits k \<and> (hd k \<noteq> CHR ''0'' \<or> length k = 1) \<and> digits_val k < 4294967295)"

definition js_entries :: "(string \<times> 'v) list \<Rightarrow> (string \<times> 'v) list" where
  "js_entries d = sort_key (digits_val \<circ> fst) (filter (index_key \<circ> fst) d) @ filter (\<lambda>p. \<not> index_key (fst p)) d"

lemma mset_js_entries [simp]: "mset (js_entries d) = mset d"
  by (simp add: js_entries_def comp_def)

lemma set_js_entries [simp]: "set (js_entries d) = set d"
  by (metis mset_js_entries set_mset_mset)

end
