(* ===== verification/GatewayBook.thy ===== *)
theory GatewayBook
  imports Types JsMath
begin

text \<open>
  \<open>apps/terminal/src/hooks/useGatewayEventBook.ts\<close>: the price-level book kept from the gateway's
  event packets.  A side of the book is a dictionary from \<open>String(price)\<close> to the level.  Deltas are
  untyped values of the parsed frame; a \<open>null\<close> delta makes the property read throw, so applying a
  packet returns a result.  The list of a side is the order in which its keys were stored; a reader sees the
  properties in the order of \<open>js_entries\<close>, whole numbers first.
\<close>

record gb_level =
  gl_price :: jsnum
  gl_qty :: jsnum
  gl_orders :: jsnum

type_synonym side_book = "gb_level dict"

record gateway_book =
  gb_bids :: side_book
  gb_asks :: side_book

definition EMPTY_BOOK :: gateway_book where
  "EMPTY_BOOK = \<lparr>gb_bids = [], gb_asks = []\<rparr>"

definition delta_on_asks :: "jsval \<Rightarrow> bool" where
  "delta_on_asks delta =
     (let side = to_lower (js_str (js_nn [js_get delta ''sideCode'', js_get delta ''side'', JStr '''']))
      in side = ''s'' \<or> side = ''sell'')"

fun gb_finiteNumber :: "jsval \<Rightarrow> bool" where
  "gb_finiteNumber (JNum x) = is_fin x"
| "gb_finiteNumber _ = False"

definition num_or_zero :: "jsval \<Rightarrow> jsnum" where
  "num_or_zero v = (if gb_finiteNumber v then js_num v else Fin 0)"

text \<open>One delta on one side of the book; the price is finite here.\<close>

definition side_delta :: "jsval \<Rightarrow> jsnum \<Rightarrow> side_book \<Rightarrow> side_book" where
  "side_delta delta price book =
     (let priceKey = jsnum_string price;
          qty = num_or_zero (js_get delta ''qty'');
          orders = num_or_zero (js_get delta ''orders'')
      in if js_get delta ''action'' = JStr ''D'' \<or> js_le qty (Fin 0) \<or> js_le orders (Fin 0)
         then dict_del priceKey book
         else dict_set priceKey \<lparr>gl_price = price, gl_qty = qty, gl_orders = orders\<rparr> book)"

definition apply_delta :: "gateway_book \<Rightarrow> jsval \<Rightarrow> gateway_book js_result" where
  "apply_delta b delta =
     (if is_nullish delta then Inl TypeError
      else let price = js_get delta ''price'' in
           Inr (if \<not> gb_finiteNumber price then b
                else if delta_on_asks delta
                then b\<lparr>gb_asks := side_delta delta (js_num price) (gb_asks b)\<rparr>
                else b\<lparr>gb_bids := side_delta delta (js_num price) (gb_bids b)\<rparr>))"

fun apply_deltas :: "gateway_book \<Rightarrow> jsval list \<Rightarrow> gateway_book js_result" where
  "apply_deltas b [] = Inr b"
| "apply_deltas b (d # ds) = (case apply_delta b d of Inl e \<Rightarrow> Inl e | Inr b' \<Rightarrow> apply_deltas b' ds)"

definition price_order :: "bool \<Rightarrow> jsnum \<Rightarrow> jsnum \<Rightarrow> jsnum" where
  "price_order descending a b = (if descending then js_sub b a else js_sub a b)"

definition bound_prices :: "side_book \<Rightarrow> bool \<Rightarrow> nat \<Rightarrow> jsnum list" where
  "bound_prices book descending maxLevels =
     take maxLevels (js_sort (price_order descending) (filter is_fin (map (js_parse \<circ> fst) (js_entries book))))"

definition boundBook :: "side_book \<Rightarrow> bool \<Rightarrow> nat \<Rightarrow> side_book" where
  "boundBook book descending maxLevels =
     foldl (\<lambda>acc price.
       case dict_get book (jsnum_string price) of
         Some level \<Rightarrow> dict_set (jsnum_string price) level acc
       | None \<Rightarrow> acc) [] (bound_prices book descending maxLevels)"

definition applyGatewayEventPacket :: "gateway_book \<Rightarrow> jsval \<Rightarrow> nat \<Rightarrow> gateway_book js_result" where
  "applyGatewayEventPacket prevBook packet maxLevels =
     (case apply_deltas prevBook (arr_elems (js_get packet ''deltas'')) of
        Inl e \<Rightarrow> Inl e
      | Inr next \<Rightarrow> Inr \<lparr>gb_bids = boundBook (gb_bids next) True maxLevels,
                         gb_asks = boundBook (gb_asks next) False maxLevels\<rparr>)"

fun apply_packets :: "nat \<Rightarrow> gateway_book js_result \<Rightarrow> jsval list \<Rightarrow> gateway_book js_result" where
  "apply_packets m (Inl e) ps = Inl e"
| "apply_packets m (Inr b) [] = Inr b"
| "apply_packets m (Inr b) (p # ps) = apply_packets m (applyGatewayEventPacket b p m) ps"

text \<open>
  The hook: frames are parsed and buffered as they arrive, a timer drains the buffer into the book.
  \<open>Frame None\<close> is a frame that is not JSON.  \<open>SetUrl\<close> is a change of the URL the hook is called with:
  only the change to none clears the book and the buffer.
\<close>

record hook_state =
  hs_orderBook :: "gateway_book js_result"
  hs_incomingBuffer :: "jsval list"

datatype hook_event = Frame "jsval option" | RenderTick | SetUrl "string option"

definition hook_init :: hook_state where
  "hook_init = \<lparr>hs_orderBook = Inr EMPTY_BOOK, hs_incomingBuffer = []\<rparr>"

text \<open>\<open>raw.event_packet\<close>, when the frame parses, is an object and the packet is truthy.\<close>

definition frame_packets :: "jsval option \<Rightarrow> jsval list" where
  "frame_packets f =
     (case f of None \<Rightarrow> []
      | Some raw \<Rightarrow> (let p = js_get raw ''event_packet'' in if truthy p then [p] else []))"

fun hook_step :: "nat \<Rightarrow> hook_state \<Rightarrow> hook_event \<Rightarrow> hook_state" where
  "hook_step m s (Frame f) = s\<lparr>hs_incomingBuffer := hs_incomingBuffer s @ frame_packets f\<rparr>"
| "hook_step m s RenderTick =
     (if hs_incomingBuffer s = [] then s
      else s\<lparr>hs_orderBook := apply_packets m (hs_orderBook s) (hs_incomingBuffer s), hs_incomingBuffer := []\<rparr>)"
| "hook_step m s (SetUrl url) = (case url of None \<Rightarrow> hook_init | Some _ \<Rightarrow> s)"

definition hook_run :: "nat \<Rightarrow> hook_event list \<Rightarrow> hook_state" where
  "hook_run m es = foldl (hook_step m) hook_init es"

section \<open>The book invariant\<close>

definition level_ok :: "string \<times> gb_level \<Rightarrow> bool" where
  "level_ok = (\<lambda>(k, l). is_fin (gl_price l) \<and> is_decimal (fin_val (gl_price l)) \<and> k = jsnum_string (gl_price l) \<and>
     js_lt (Fin 0) (gl_qty l) \<and> js_lt (Fin 0) (gl_orders l))"

definition side_ok :: "side_book \<Rightarrow> bool" where
  "side_ok book = (distinct (map fst book) \<and> list_all level_ok book)"

definition level_rat :: "string \<times> gb_level \<Rightarrow> rat" where
  "level_rat kl = fin_val (gl_price (snd kl))"

definition side_prices :: "side_book \<Rightarrow> rat list" where
  "side_prices book = map level_rat book"

definition delta_decimal :: "jsval \<Rightarrow> bool" where
  "delta_decimal d = is_decimal (fin_val (js_num (js_get d ''price'')))"

lemma level_ok_key: "level_ok (k, l) \<Longrightarrow> k = rat_string (level_rat (k, l)) \<and> js_parse k = Fin (level_rat (k, l))"
  using js_parse_string [of "fin_val (gl_price l)"]
  by (auto simp: level_ok_def level_rat_def is_fin_conv)

lemma num_or_zero_fin: "is_fin (num_or_zero v)"
  by (cases v) (auto simp: num_or_zero_def)

lemma side_ok_update:
  assumes "side_ok book" "level_ok (k, l)"
  shows "side_ok (dict_set k l book)"
proof -
  have "set (dict_set k l book) \<subseteq> insert (k, l) (set book)"
    by (induction book) auto
  then show ?thesis
    using assms by (auto simp: side_ok_def distinct_update list_all_iff)
qed

lemma delete_filter: "dict_del k book = filter (\<lambda>e. fst e \<noteq> k) book"
  by (induction book) auto

lemma side_ok_delete: "side_ok book \<Longrightarrow> side_ok (dict_del k book)"
  by (auto simp: side_ok_def delete_filter list_all_iff distinct_map_filter)

lemma side_delta_ok:
  assumes "side_ok book" "is_decimal (fin_val price)" "is_fin price"
  shows "side_ok (side_delta delta price book)"
proof -
  have "level_ok (jsnum_string price,
      \<lparr>gl_price = price, gl_qty = num_or_zero (js_get delta ''qty''), gl_orders = num_or_zero (js_get delta ''orders'')\<rparr>)"
    if "\<not> js_le (num_or_zero (js_get delta ''qty'')) (Fin 0)" "\<not> js_le (num_or_zero (js_get delta ''orders'')) (Fin 0)"
    using that assms num_or_zero_fin [of "js_get delta ''qty''"] num_or_zero_fin [of "js_get delta ''orders''"]
    by (auto simp: level_ok_def is_fin_conv)
  then show ?thesis
    using assms(1) by (auto simp: side_delta_def Let_def side_ok_delete intro: side_ok_update)
qed

definition both_ok :: "gateway_book \<Rightarrow> bool" where
  "both_ok b = (side_ok (gb_bids b) \<and> side_ok (gb_asks b))"

lemma gb_finiteNumber_fin: "gb_finiteNumber v \<Longrightarrow> is_fin (js_num v)"
  by (cases v) auto

lemma apply_delta_ok: "both_ok b \<Longrightarrow> delta_decimal d \<Longrightarrow> apply_delta b d = Inr b' \<Longrightarrow> both_ok b'"
  by (auto simp: apply_delta_def both_ok_def delta_decimal_def Let_def gb_finiteNumber_fin
      intro!: side_delta_ok split: if_splits)

lemma apply_deltas_ok: "both_ok b \<Longrightarrow> list_all delta_decimal ds \<Longrightarrow> apply_deltas b ds = Inr b' \<Longrightarrow> both_ok b'"
  by (induction b ds rule: apply_deltas.induct) (auto split: sum.splits dest: apply_delta_ok)

section \<open>Truncation keeps the best prices\<close>

text \<open>The order in which a side is read: bids from the highest price down, asks from the lowest up.\<close>

definition side_key :: "bool \<Rightarrow> string \<times> gb_level \<Rightarrow> rat" where
  "side_key descending e = (if descending then - level_rat e else level_rat e)"

interpretation by_price: key_comparator "price_order d" is_fin "\<lambda>x. if d then - fin_val x else fin_val x" for d
  by unfold_locales (auto simp: price_order_def cmp_le_def is_fin_conv js_sub_def)

lemma sort_key_map: "sort_key f (map g xs) = map g (sort_key (f \<circ> g) xs)"
proof -
  have ins: "insort_key f (g x) (map g ys) = map g (insort_key (f \<circ> g) x ys)" for x ys
    by (induction ys) auto
  show ?thesis by (induction xs) (auto simp: ins comp_def)
qed

lemma level_rat_inj: "side_ok book \<Longrightarrow> inj_on level_rat (set book)"
  unfolding side_ok_def by (intro inj_onI) (metis distinct_map inj_onD level_ok_key list_all_iff prod.collapse)

lemma side_key_inj: "side_ok book \<Longrightarrow> inj_on (side_key d) (set book)"
  using level_rat_inj [of book] by (auto simp: inj_on_def side_key_def)

lemma sort_entries: "side_ok book \<Longrightarrow> sort_key (side_key d) (js_entries book) = sort_key (side_key d) book"
  by (rule sort_key_inj_key_eq) (simp_all add: side_key_inj)

lemma bound_prices_eq:
  assumes "side_ok book"
  shows "bound_prices book d m = map (Fin \<circ> level_rat) (take m (sort_key (side_key d) book))"
proof -
  have "map (js_parse \<circ> fst) (js_entries book) = map (Fin \<circ> level_rat) (js_entries book)"
    using assms by (auto simp: side_ok_def list_all_iff level_ok_key)
  then have "filter is_fin (map (js_parse \<circ> fst) (js_entries book)) = map (Fin \<circ> level_rat) (js_entries book)"
    by (simp add: filter_map comp_def)
  moreover have "(\<lambda>x. if d then - fin_val x else fin_val x) \<circ> (Fin \<circ> level_rat) = side_key d"
    by (auto simp: side_key_def)
  ultimately show ?thesis
    by (simp add: bound_prices_def by_price.sort_eq sort_key_map take_map sort_entries [OF assms])
qed

lemma update_new: "k \<notin> fst ` set acc \<Longrightarrow> dict_set k v acc = acc @ [(k, v)]"
  by (induction acc) auto

lemma foldl_pick:
  assumes "set es \<subseteq> set book" "side_ok book" "distinct (map fst (acc @ es))"
  shows "foldl (\<lambda>acc price. case dict_get book (jsnum_string price) of
           Some level \<Rightarrow> dict_set (jsnum_string price) level acc | None \<Rightarrow> acc) acc
         (map (Fin \<circ> level_rat) es) = acc @ es"
  using assms
proof (induction es arbitrary: acc)
  case (Cons e es)
  obtain k l where e: "e = (k, l)" by fastforce
  have "level_ok (k, l)" using Cons.prems e by (auto simp: side_ok_def list_all_iff)
  then have "jsnum_string (Fin (level_rat e)) = k" using level_ok_key e by simp
  moreover have "dict_get book k = Some l"
    using Cons.prems e by (auto simp: side_ok_def)
  moreover have "dict_set k l acc = acc @ [e]" using Cons.prems(3) e by (auto intro: update_new)
  ultimately show ?case using Cons by simp
qed simp

lemma distinct_sort_key_fst: "distinct (map f xs) \<Longrightarrow> distinct (map f (sort_key g xs))"
  by (simp add: distinct_map)

lemma boundBook_eq:
  assumes "side_ok book"
  shows "boundBook book d m = take m (sort_key (side_key d) book)"
proof -
  have "distinct (map fst (take m (sort_key (side_key d) book)))"
    using assms by (simp add: take_map [symmetric] side_ok_def distinct_sort_key_fst)
  moreover have "set (take m (sort_key (side_key d) book)) \<subseteq> set book"
    using set_take_subset by fastforce
  ultimately show ?thesis
    using foldl_pick [of "take m (sort_key (side_key d) book)" book "[]"] assms
    by (simp add: boundBook_def bound_prices_eq)
qed

lemma side_ok_boundBook: "side_ok book \<Longrightarrow> side_ok (boundBook book d m)"
  by (auto simp: boundBook_eq side_ok_def list_all_iff take_map [symmetric] distinct_sort_key_fst
      dest: in_set_takeD)

definition bounded_side :: "nat \<Rightarrow> bool \<Rightarrow> side_book \<Rightarrow> bool" where
  "bounded_side m d book = (side_ok book \<and> sorted (map (side_key d) book) \<and> length book \<le> m)"

definition book_ok :: "nat \<Rightarrow> gateway_book \<Rightarrow> bool" where
  "book_ok m b = (bounded_side m True (gb_bids b) \<and> bounded_side m False (gb_asks b))"

lemma js_parse_digits:
  assumes "all_digits s" "s \<noteq> []"
  shows "js_parse s = Fin (of_int (digits_val s))"
proof -
  obtain c r where s: "s = c # r" "is_digit c" using assms by (cases s) auto
  have nc: "list_all num_char (c # r)" using all_digits_num_char [OF assms(1)] s by simp
  have "unsigned_prefix (c # r) = Some (Fin (of_int (digits_val s)), [])"
    using dec_prefix_int [OF assms] s by (simp add: unsigned_prefix_digit)
  moreover have "c \<noteq> CHR ''-''" "c \<noteq> CHR ''+''" using s(2) by (auto simp: is_digit_def)
  ultimately show ?thesis
    using num_chars_no_radix [OF nc] by (simp add: js_parse_def s(1) trim_num_chars [OF nc] signed_prefix_def)
qed

lemma index_level: "level_ok e \<Longrightarrow> index_key (fst e) \<Longrightarrow> level_rat e = of_int (digits_val (fst e))"
  using level_ok_key [of "fst e" "snd e"] js_parse_digits [of "fst e"] by (auto simp: index_key_def)

lemma sorted_strict_keys: "sorted (map (f :: _ \<Rightarrow> rat) xs) \<Longrightarrow> distinct (map f xs) \<Longrightarrow> sorted_wrt (<) (map f xs)"
  by (simp add: strict_sorted_iff)

text \<open>
  What a reader of a bounded side sees: the whole-number prices that are array indices in ascending order, whichever
  the side, and after them the others, best first.
\<close>

definition seen_side :: "bool \<Rightarrow> side_book \<Rightarrow> bool" where
  "seen_side d book =
     (\<exists>whole rest. js_entries book = whole @ rest \<and> (\<forall>e \<in> set whole. index_key (fst e)) \<and> (\<forall>e \<in> set rest. \<not> index_key (fst e)) \<and>
        sorted_wrt (<) (map level_rat whole) \<and> sorted_wrt (<) (map (side_key d) rest))"

lemma bounded_seen:
  assumes "bounded_side m d book"
  shows "seen_side d book"
proof -
  let ?w = "filter (index_key \<circ> fst) book" and ?r = "filter (\<lambda>e. \<not> index_key (fst e)) book"
  let ?s = "sort_key (digits_val \<circ> fst) ?w"
  have ok: "side_ok book" and sorted: "sorted (map (side_key d) book)" using assms by (auto simp: bounded_side_def)

  have dk: "distinct (map (side_key d) book)" and dl: "distinct (map level_rat book)"
    using side_key_inj [OF ok] level_rat_inj [OF ok] ok by (auto simp: distinct_map side_ok_def)
  have at: "level_rat e = of_int (digits_val (fst e))" if "e \<in> set ?s" for e
    using ok that by (auto simp: side_ok_def list_all_iff index_level)
  have "sorted_wrt (\<lambda>x y. digits_val (fst x) \<le> digits_val (fst y)) ?s"
    using sorted_sort_key [of "digits_val \<circ> fst" ?w] by (simp add: sorted_map)
  then have "sorted_wrt (\<lambda>x y. level_rat x \<le> level_rat y) ?s"
    by (rule sorted_wrt_mono_rel [rotated]) (simp add: at del: set_sort set_filter)
  then have "sorted (map level_rat ?s)" by (simp add: sorted_map)
  moreover have "distinct (map level_rat ?s)" using dl by (simp add: distinct_map inj_on_def)
  moreover have "sorted (map (side_key d) ?r)" using sorted by (rule sorted_filter)
  moreover have "distinct (map (side_key d) ?r)" using dk by (simp add: distinct_map inj_on_def)
  ultimately show ?thesis unfolding seen_side_def
    by (intro exI [of _ ?s] exI [of _ ?r]) (simp add: js_entries_def sorted_strict_keys)
qed

lemma bounded_boundBook: "side_ok book \<Longrightarrow> bounded_side m d (boundBook book d m)"
  by (simp add: bounded_side_def side_ok_boundBook) (simp add: boundBook_eq take_map [symmetric])

lemma book_ok_both: "book_ok m b \<Longrightarrow> both_ok b"
  by (simp add: book_ok_def bounded_side_def both_ok_def)

lemma book_ok_empty: "book_ok m EMPTY_BOOK"
  by (simp add: book_ok_def bounded_side_def EMPTY_BOOK_def side_ok_def)

definition packet_decimal :: "jsval \<Rightarrow> bool" where
  "packet_decimal p = list_all delta_decimal (arr_elems (js_get p ''deltas''))"

lemma packet_ok: "book_ok m b \<Longrightarrow> packet_decimal p \<Longrightarrow> applyGatewayEventPacket b p m = Inr b' \<Longrightarrow> book_ok m b'"
  by (auto simp: applyGatewayEventPacket_def packet_decimal_def book_ok_def [of m "\<lparr>gb_bids = _, gb_asks = _\<rparr>"]
      both_ok_def split: sum.splits intro!: bounded_boundBook dest!: book_ok_both dest: apply_deltas_ok)

lemma packets_ok: "(\<And>b. r = Inr b \<Longrightarrow> book_ok m b) \<Longrightarrow> list_all packet_decimal ps \<Longrightarrow>
    apply_packets m r ps = Inr b' \<Longrightarrow> book_ok m b'"
  by (induction m r ps rule: apply_packets.induct) (auto dest: packet_ok)

section \<open>The hook\<close>

definition event_decimal :: "hook_event \<Rightarrow> bool" where
  "event_decimal e = (case e of Frame f \<Rightarrow> list_all packet_decimal (frame_packets f) | _ \<Rightarrow> True)"

lemma hook_step_ok:
  assumes "list_all packet_decimal (hs_incomingBuffer s)" "\<And>b. hs_orderBook s = Inr b \<Longrightarrow> book_ok m b" "event_decimal e"
  shows "list_all packet_decimal (hs_incomingBuffer (hook_step m s e)) \<and>
    (\<forall>b. hs_orderBook (hook_step m s e) = Inr b \<longrightarrow> book_ok m b)"
  using assms
  by (cases e) (auto simp: event_decimal_def hook_init_def book_ok_empty split: option.splits
      intro: packets_ok [where r = "hs_orderBook s"])

lemma hook_run_snoc [simp]: "hook_run m (es @ [e]) = hook_step m (hook_run m es) e" "hook_run m [] = hook_init"
  by (simp_all add: hook_run_def)

lemma hook_run_ok: "list_all event_decimal es \<Longrightarrow>
  list_all packet_decimal (hs_incomingBuffer (hook_run m es)) \<and>
    (\<forall>b. hs_orderBook (hook_run m es) = Inr b \<longrightarrow> book_ok m b)"
proof (induction es rule: rev_induct)
  case Nil
  then show ?case by (simp add: hook_init_def book_ok_empty)
next
  case (snoc e es)
  then show ?case using hook_step_ok [of "hook_run m es" m e] by simp
qed

text \<open>The packets received since the URL was last cleared.\<close>

fun received_after :: "jsval list \<Rightarrow> hook_event list \<Rightarrow> jsval list" where
  "received_after ps [] = ps"
| "received_after ps (Frame f # es) = received_after (ps @ frame_packets f) es"
| "received_after ps (RenderTick # es) = received_after ps es"
| "received_after ps (SetUrl None # es) = received_after [] es"
| "received_after ps (SetUrl (Some u) # es) = received_after ps es"

lemma apply_packets_append: "apply_packets m r (ps @ qs) = apply_packets m (apply_packets m r ps) qs"
proof (induction m r ps rule: apply_packets.induct)
  case (1 m e ps)
  then show ?case by (cases qs) simp_all
qed simp_all

lemma apply_packets_Nil [simp]: "apply_packets m r [] = r"
  by (cases r) auto

lemma hook_foldl_packets:
  assumes "apply_packets m (hs_orderBook s) (hs_incomingBuffer s) = apply_packets m (Inr EMPTY_BOOK) ps"
  shows "(let s' = foldl (hook_step m) s es in apply_packets m (hs_orderBook s') (hs_incomingBuffer s')) =
    apply_packets m (Inr EMPTY_BOOK) (received_after ps es)"
  using assms
  by (induction ps es arbitrary: s rule: received_after.induct)
    (auto simp: Let_def apply_packets_append hook_init_def)

text \<open>A side of the book as a map from prices; one delta stores or erases one price.\<close>

definition side_abs :: "side_book \<Rightarrow> rat \<Rightarrow> gb_level option" where
  "side_abs book = (\<lambda>q. map_of (map (\<lambda>e. (level_rat e, snd e)) book) q)"

definition removes_level :: "jsval \<Rightarrow> bool" where
  "removes_level delta = (js_get delta ''action'' = JStr ''D'' \<or>
     fin_val (num_or_zero (js_get delta ''qty'')) \<le> 0 \<or> fin_val (num_or_zero (js_get delta ''orders'')) \<le> 0)"

definition delta_spec :: "bool \<Rightarrow> jsval \<Rightarrow> (rat \<Rightarrow> gb_level option) \<Rightarrow> (rat \<Rightarrow> gb_level option)" where
  "delta_spec asks delta m =
     (case js_get delta ''price'' of
        JNum (Fin q) \<Rightarrow>
          (if delta_on_asks delta \<noteq> asks then m
           else m(q := if removes_level delta then None
                       else Some \<lparr>gl_price = Fin q, gl_qty = num_or_zero (js_get delta ''qty''),
                                  gl_orders = num_or_zero (js_get delta ''orders'')\<rparr>))
      | _ \<Rightarrow> m)"

lemma side_abs_get:
  assumes "side_ok book" "is_decimal q"
  shows "side_abs book q = dict_get book (rat_string q)"
proof -
  have "map_of (map (\<lambda>e. (level_rat e, snd e)) es) q = map_of es (rat_string q)" if "list_all level_ok es" for es
    using that
  proof (induction es)
    case (Cons e es)
    obtain k l where e: "e = (k, l)" by fastforce
    have "level_ok (k, l)" using Cons.prems e by simp
    then have "k = rat_string (level_rat e)" "is_decimal (level_rat e)"
      using level_ok_key e by (auto simp: level_ok_def level_rat_def)
    then show ?case using Cons e assms(2) by (auto dest: rat_string_inj)
  qed simp
  then show ?thesis using assms(1) by (simp add: side_abs_def side_ok_def)
qed

lemma side_abs_nondecimal:
  assumes "side_ok book" "\<not> is_decimal q"
  shows "side_abs book q = None"
proof -
  have "\<forall>e \<in> set book. is_decimal (level_rat e)"
    using assms(1) by (auto simp: side_ok_def list_all_iff level_ok_def level_rat_def)
  then show ?thesis using assms(2) by (auto simp: side_abs_def map_of_eq_None_iff)
qed

lemma side_abs_delta:
  assumes "side_ok book" "is_decimal q"
  shows "side_abs (side_delta delta (Fin q) book) =
    (side_abs book)(q := if removes_level delta then None
       else Some \<lparr>gl_price = Fin q, gl_qty = num_or_zero (js_get delta ''qty''),
                  gl_orders = num_or_zero (js_get delta ''orders'')\<rparr>)"
proof
  fix p
  have ok: "side_ok (side_delta delta (Fin q) book)" using assms by (simp add: side_delta_ok)
  have r: "removes_level delta \<longleftrightarrow> js_get delta ''action'' = JStr ''D'' \<or>
      js_le (num_or_zero (js_get delta ''qty'')) (Fin 0) \<or> js_le (num_or_zero (js_get delta ''orders'')) (Fin 0)"
    using num_or_zero_fin [of "js_get delta ''qty''"] num_or_zero_fin [of "js_get delta ''orders''"]
    by (auto simp: removes_level_def is_fin_conv)
  show "side_abs (side_delta delta (Fin q) book) p = ((side_abs book)(q := if removes_level delta then None
       else Some \<lparr>gl_price = Fin q, gl_qty = num_or_zero (js_get delta ''qty''),
                  gl_orders = num_or_zero (js_get delta ''orders'')\<rparr>)) p"
  proof (cases "is_decimal p")
    case True
    have "rat_string p = rat_string q \<longleftrightarrow> p = q" using True assms(2) rat_string_inj by blast
    then show ?thesis
      by (simp add: side_abs_get [OF ok True] side_abs_get [OF assms(1) True]) (auto simp: side_delta_def Let_def r)
  next
    case False
    then show ?thesis using ok assms by (auto simp: side_abs_nondecimal)
  qed
qed

lemma apply_delta_refines:
  assumes "both_ok b" "delta_decimal d" "apply_delta b d = Inr b'"
  shows "side_abs (gb_bids b') = delta_spec False d (side_abs (gb_bids b)) \<and>
         side_abs (gb_asks b') = delta_spec True d (side_abs (gb_asks b))"
proof (cases "gb_finiteNumber (js_get d ''price'')")
  case True
  then obtain q where "js_get d ''price'' = JNum (Fin q)"
    by (cases "js_get d ''price''") (auto simp: is_fin_conv)
  then show ?thesis
    using assms by (auto simp: apply_delta_def both_ok_def delta_decimal_def delta_spec_def side_abs_delta split: if_splits)
next
  case False
  then have "delta_spec a d = id" for a
    by (intro ext) (auto simp: delta_spec_def split: jsval.splits jsnum.splits)
  then show ?thesis using assms(3) False by (auto simp: apply_delta_def split: if_splits)
qed

lemma apply_deltas_refine:
  "both_ok b \<Longrightarrow> list_all delta_decimal ds \<Longrightarrow> apply_deltas b ds = Inr b' \<Longrightarrow>
   side_abs (gb_bids b') = foldl (\<lambda>m d. delta_spec False d m) (side_abs (gb_bids b)) ds \<and>
   side_abs (gb_asks b') = foldl (\<lambda>m d. delta_spec True d m) (side_abs (gb_asks b)) ds"
proof (induction b ds rule: apply_deltas.induct)
  case (2 b d ds)
  then obtain b1 where b1: "apply_delta b d = Inr b1" "apply_deltas b1 ds = Inr b'"
    by (auto split: sum.splits)
  have "both_ok b1" using 2 b1 apply_delta_ok [of b d b1] by simp
  then show ?case using 2 b1 apply_delta_refines [of b d b1] by simp
qed simp

text \<open>\<open>kept\<close> is \<open>full\<close> cut down to its best \<open>m\<close> prices.\<close>

definition best_of :: "nat \<Rightarrow> bool \<Rightarrow> (rat \<Rightarrow> gb_level option) \<Rightarrow> (rat \<Rightarrow> gb_level option) \<Rightarrow> bool" where
  "best_of m descending full kept =
     (kept \<subseteq>\<^sub>m full \<and> card (dom kept) = min m (card (dom full)) \<and>
      (\<forall>p \<in> dom kept. \<forall>q \<in> dom full - dom kept. if descending then q < p else p < q))"

lemma distinct_level_rat:
  assumes "side_ok book"
  shows "distinct (map level_rat book)"
proof -
  have "map fst book = map rat_string (map level_rat book)"
    using assms by (auto simp: side_ok_def list_all_iff level_ok_key)
  then show ?thesis using assms by (metis distinct_map side_ok_def)
qed

lemma side_abs_Some: "side_ok book \<Longrightarrow> side_abs book q = Some l \<longleftrightarrow> (\<exists>e \<in> set book. level_rat e = q \<and> snd e = l)"
  using distinct_level_rat [of book] by (auto simp: side_abs_def map_of_eq_Some_iff comp_def image_iff)

lemma dom_side_abs: "dom (side_abs book) = level_rat ` set book"
  by (simp add: side_abs_def dom_map_of_conv_image_fst image_image)

lemma card_dom_side_abs: "side_ok book \<Longrightarrow> card (dom (side_abs book)) = length book"
  using distinct_card [OF distinct_level_rat] by (simp add: dom_side_abs)

lemma boundBook_best:
  assumes "side_ok book"
  shows "best_of m d (side_abs book) (side_abs (boundBook book d m))"
proof -
  let ?s = "sort_key (side_key d) book" let ?b = "boundBook book d m"
  have b: "?b = take m ?s" "side_ok ?b" using assms by (rule boundBook_eq, rule side_ok_boundBook)
  have split: "set book = set ?b \<union> set (drop m ?s)"
    by (metis append_take_drop_id b(1) set_append set_sort)
  have "side_abs ?b \<subseteq>\<^sub>m side_abs book"
    using split b(2) assms by (auto simp: map_le_def dom_side_abs side_abs_Some) (metis UnI1 side_abs_Some)
  moreover have "card (dom (side_abs ?b)) = min m (card (dom (side_abs book)))"
    by (simp add: card_dom_side_abs [OF b(2)] card_dom_side_abs [OF assms]) (simp add: b(1))
  moreover have "if d then q < p else p < q"
    if pq: "p \<in> dom (side_abs ?b)" "q \<in> dom (side_abs book) - dom (side_abs ?b)" for p q
  proof -
    obtain e where e: "e \<in> set (take m ?s)" "level_rat e = p" using pq(1) b(1) by (auto simp: dom_side_abs)
    obtain f where f: "f \<in> set book" "level_rat f = q" using pq(2) by (auto simp: dom_side_abs)
    have "q \<notin> level_rat ` set (take m ?s)" using pq(2) b(1) by (simp add: dom_side_abs)
    then have ef: "f \<in> set (drop m ?s)" "p \<noteq> q" using e f split b(1) by (metis Un_iff image_eqI)+
    have "sorted (map (side_key d) (take m ?s @ drop m ?s))" by simp
    then have "side_key d e \<le> side_key d f" using e(1) ef(1) by (simp only: map_append sorted_append) auto
    then show ?thesis using e f ef by (auto simp: side_key_def split: if_splits)
  qed
  ultimately show ?thesis unfolding best_of_def by blast
qed

section \<open>Properties\<close>

text \<open>
  C3. Whatever frames, render ticks and URL changes the hook sees, as long as the prices in them are
  decimal numerals (every JSON number is), each side of its book has one level per price, stored
  under the price's own string with positive quantity and order count, written best price first and
  never more than \<open>maxLevels\<close> long.  A reader who enumerates the record sees another order: whole-number prices come
  first and ascend on both sides, the bids too, and only the other prices follow best first.
\<close>

theorem gateway_book_invariant:
  assumes "list_all event_decimal es" "hs_orderBook (hook_run m es) = Inr b"
  shows "book_ok m b \<and> seen_side True (gb_bids b) \<and> seen_side False (gb_asks b)"
  using hook_run_ok [OF assms(1)] assms(2) bounded_seen by (force simp: book_ok_def)

text \<open>
  C2. One packet does to each side what storing and erasing its deltas one by one does to a map from
  prices to levels, cut down to the \<open>maxLevels\<close> best prices: highest for the bids, lowest for the asks.
\<close>

theorem gateway_packet_refines:
  assumes "book_ok m b" "packet_decimal p" "applyGatewayEventPacket b p m = Inr b'"
  shows "best_of m True (foldl (\<lambda>f d. delta_spec False d f) (side_abs (gb_bids b)) (arr_elems (js_get p ''deltas'')))
           (side_abs (gb_bids b')) \<and>
         best_of m False (foldl (\<lambda>f d. delta_spec True d f) (side_abs (gb_asks b)) (arr_elems (js_get p ''deltas'')))
           (side_abs (gb_asks b'))"
proof -
  obtain n where n: "apply_deltas b (arr_elems (js_get p ''deltas'')) = Inr n"
    "gb_bids b' = boundBook (gb_bids n) True m" "gb_asks b' = boundBook (gb_asks n) False m"
    using assms(3) by (auto simp: applyGatewayEventPacket_def split: sum.splits)
  have ok: "both_ok b" using assms(1) by (rule book_ok_both)
  have "both_ok n" using apply_deltas_ok [OF ok _ n(1)] assms(2) by (simp add: packet_decimal_def)
  then show ?thesis
    using apply_deltas_refine [OF ok _ n(1)] assms(2) boundBook_best
    by (metis both_ok_def n(2,3) packet_decimal_def)
qed

text \<open>
  C5. Buffering never reorders or loses a packet: after any interleaving of frames, render ticks and
  URL changes, the next render tick shows the book obtained by applying, one after the other and in
  arrival order, all packets received since the URL was last cleared.
\<close>

theorem gateway_render_sequential:
  "hs_orderBook (hook_step m (hook_run m es) RenderTick) = apply_packets m (Inr EMPTY_BOOK) (received_after [] es)"
proof -
  have "hs_orderBook (hook_step m (hook_run m es) RenderTick) =
      apply_packets m (hs_orderBook (hook_run m es)) (hs_incomingBuffer (hook_run m es))" by simp
  also have "\<dots> = apply_packets m (Inr EMPTY_BOOK) (received_after [] es)"
    using hook_foldl_packets [of m hook_init "[]" es] by (simp add: hook_run_def hook_init_def Let_def)
  finally show ?thesis .
qed

text \<open>
  The parse of a frame is guarded, the application of its packet is not: a frame whose \<open>deltas\<close>
  hold a \<open>null\<close> makes the next render throw, and no later frame recovers the book.
\<close>

theorem gateway_null_delta_throws:
  "hs_orderBook (hook_run m (Frame (Some (JObj [(''event_packet'', JObj [(''deltas'', JArr (JNull # ds))])])) #
     RenderTick # map Frame fs @ [RenderTick])) = Inl TypeError"
proof -
  let ?s = "hook_run m [Frame (Some (JObj [(''event_packet'', JObj [(''deltas'', JArr (JNull # ds))])])), RenderTick]"
  have "hs_orderBook ?s = Inl TypeError"
    by (simp add: hook_run_def hook_init_def frame_packets_def applyGatewayEventPacket_def apply_delta_def)
  moreover have "hs_orderBook (foldl (hook_step m) s (map Frame fs)) = hs_orderBook s" for s
    by (induction fs arbitrary: s) simp_all
  ultimately show ?thesis by (simp add: hook_run_def)
qed

text \<open>Two packets at one price level: a bid is added, then a second bid and an ask; one level per side is kept.\<close>

definition sample_delta :: "string \<Rightarrow> string \<Rightarrow> rat \<Rightarrow> rat \<Rightarrow> jsval" where
  "sample_delta action side price qty =
     JObj [(''action'', JStr action), (''side'', JStr side), (''price'', JNum (Fin price)),
           (''qty'', JNum (Fin qty)), (''orders'', JNum (Fin 1))]"

definition sample_packet :: "jsval" where
  "sample_packet = JObj [(''deltas'', JArr [sample_delta ''A'' ''buy'' 100 5, sample_delta ''A'' ''buy'' 101 2,
     sample_delta ''A'' ''sell'' 102 7, sample_delta ''D'' ''sell'' 102 7])]"

lemma sample_packet_ok: "packet_decimal sample_packet"
  by code_simp

lemma sample_run: "hs_orderBook (hook_run 1 [Frame (Some (JObj [(''event_packet'', sample_packet)])), RenderTick]) =
    Inr \<lparr>gb_bids = [(''101'', \<lparr>gl_price = Fin 101, gl_qty = Fin 2, gl_orders = Fin 1\<rparr>)], gb_asks = []\<rparr>"
  by code_simp

lemma sample_apply: "applyGatewayEventPacket EMPTY_BOOK sample_packet 1 =
    Inr \<lparr>gb_bids = [(''101'', \<lparr>gl_price = Fin 101, gl_qty = Fin 2, gl_orders = Fin 1\<rparr>)], gb_asks = []\<rparr>"
  by code_simp

theorem gateway_book_invariant_witness:
  "book_ok 1 \<lparr>gb_bids = [(''101'', \<lparr>gl_price = Fin 101, gl_qty = Fin 2, gl_orders = Fin 1\<rparr>)], gb_asks = []\<rparr>"
  by (rule gateway_book_invariant [OF _ sample_run, THEN conjunct1])
    (simp add: event_decimal_def frame_packets_def sample_packet_ok)

text \<open>Two whole-number bids: the best is written first and read last.\<close>

lemma whole_bids_ascend:
  "let side = boundBook [(''100'', \<lparr>gl_price = Fin 100, gl_qty = Fin 5, gl_orders = Fin 1\<rparr>), (''101'', \<lparr>gl_price = Fin 101, gl_qty = Fin 2, gl_orders = Fin 1\<rparr>)] True 2
   in map fst side = [''101'', ''100''] \<and> map fst (js_entries side) = [''100'', ''101'']"
  by code_simp

theorem gateway_packet_refines_witness:
  "best_of 1 True (foldl (\<lambda>f d. delta_spec False d f) (side_abs []) (arr_elems (js_get sample_packet ''deltas'')))
     (side_abs [(''101'', \<lparr>gl_price = Fin 101, gl_qty = Fin 2, gl_orders = Fin 1\<rparr>)])"
  using gateway_packet_refines [OF book_ok_empty sample_packet_ok sample_apply] by (simp add: EMPTY_BOOK_def)

end
