(* ===== verification/Exchange.thy ===== *)
theory Exchange
  imports Types
begin

text \<open>
  The exchange half of \<open>apps/terminal/src/store/index.ts\<close>: the normalisation of orders, positions and
  fills as the exchange service reports them.  Payloads are untyped; \<open>now\<close> is the value of
  \<open>Date.now()\<close>, a finite number.  A \<open>null\<close> row makes the first property read throw.
  The theory also states the contract of a normaliser, shared by every component that reads back
  what it (or an older version) wrote.
\<close>

section \<open>The contract of a normaliser\<close>

text \<open>
  \<open>normal\<close> turns a readable payload into a valid value, \<open>encode\<close> is the payload a value is stored or
  sent as, and \<open>view\<close> is what of a value must survive.
\<close>

locale normalizer =
  fixes normal :: "'r \<Rightarrow> 'a" and encode :: "'a \<Rightarrow> 'r" and readable :: "'r \<Rightarrow> bool"
    and valid :: "'a \<Rightarrow> bool" and view :: "'a \<Rightarrow> 'v"
  assumes normal_valid: "readable r \<Longrightarrow> valid (normal r)"
    and read_back: "valid a \<Longrightarrow> view (normal (encode a)) = view a"
begin

lemma normal_idem: "readable r \<Longrightarrow> view (normal (encode (normal r))) = view (normal r)"
  by (rule read_back) (rule normal_valid)

lemma map_read_back: "list_all valid as \<Longrightarrow> map (view \<circ> normal \<circ> encode) as = map view as"
  by (induction as) (auto simp: read_back)

lemma all_valid: "list_all readable rs \<Longrightarrow> list_all valid (map normal rs)"
  by (simp add: list_all_iff normal_valid)

lemma map_normal_idem: "list_all readable rs \<Longrightarrow> map (view \<circ> normal \<circ> encode) (map normal rs) = map view (map normal rs)"
  by (rule map_read_back) (rule all_valid)

end

section \<open>Numbers\<close>

definition normalizeExchangeNumber :: "jsval \<Rightarrow> jsnum \<Rightarrow> jsnum" where
  "normalizeExchangeNumber value fallback =
     (if is_nullish value then fallback
      else let parsed = (case value of JStr s \<Rightarrow> js_parse_float s | v \<Rightarrow> js_num v)
           in if is_fin parsed then parsed else fallback)"

lemma is_fin_exchange_number: "is_fin d \<Longrightarrow> is_fin (normalizeExchangeNumber v d)"
  by (simp add: normalizeExchangeNumber_def Let_def)

lemma exchange_number_Fin [simp]: "normalizeExchangeNumber (JNum (Fin q)) d = Fin q"
  by (simp add: normalizeExchangeNumber_def)

lemma exchange_number_undef [simp]: "normalizeExchangeNumber JUndef d = d" "normalizeExchangeNumber JNull d = d"
  by (simp_all add: normalizeExchangeNumber_def)

section \<open>Orders\<close>

fun order_status_of :: "jsval \<Rightarrow> sim_order_status" where
  "order_status_of (JStr s) =
     (if s = ''partially_filled'' then SO_partially_filled else if s = ''filled'' then SO_filled
      else if s = ''cancelled'' then SO_cancelled else SO_working)"
| "order_status_of _ = SO_working"

definition order_side_of :: "jsval \<Rightarrow> sim_side" where
  "order_side_of raw =
     (let rawSide = to_lower (js_str (js_nn [js_get raw ''side'', js_get raw ''orderSide'', JStr '''']))
      in if rawSide = ''offer'' \<or> rawSide = ''ask'' \<or> rawSide = ''sell'' then Offer else Bid)"

definition outcome_of :: "jsval \<Rightarrow> outcome" where
  "outcome_of v = (if v = JStr ''no'' then No else Yes)"

definition source_of :: "jsval \<Rightarrow> sim_source" where
  "source_of v = (if v = JStr ''algo'' then Algo else Manual)"

definition sim_order_of :: "rat \<Rightarrow> jsval \<Rightarrow> sim_order" where
  "sim_order_of now raw =
     (let i = js_str (js_nn [js_get raw ''id'', js_get raw ''orderId'', js_get raw ''order_id'',
                             JStr (''sim-order-'' @ jsnum_string (Fin now))]);
          marketKey = js_str (js_nn [js_get raw ''marketKey'', js_get raw ''symbol'', js_get raw ''product'', JStr ''UNKNOWN'']);
          orderType = (if js_get raw ''orderType'' = JStr ''market'' \<or> js_get raw ''type'' = JStr ''market''
                       then Market else Limit);
          size = js_max (Fin 0) (normalizeExchangeNumber (js_nn [js_get raw ''size'', js_get raw ''quantity'']) (Fin 0));
          remaining = js_max (Fin 0)
            (normalizeExchangeNumber (js_nn [js_get raw ''remaining'', js_get raw ''remainingQuantity'']) size)
      in \<lparr>so_id = i, so_marketKey = marketKey, so_outcome = outcome_of (js_get raw ''outcome''),
          so_side = order_side_of raw, so_orderType = orderType,
          so_price = normalizeExchangeNumber (js_nn [js_get raw ''price'', js_get raw ''limitPrice'']) (Fin 0),
          so_size = size, so_remaining = remaining,
          so_filledSize = js_max (Fin 0)
            (normalizeExchangeNumber (js_get raw ''filledSize'') (js_max (Fin 0) (js_sub size remaining))),
          so_matchedVolume = js_max (Fin 0) (normalizeExchangeNumber (js_get raw ''matchedVolume'') (Fin 0)),
          so_status = order_status_of (js_get raw ''status''),
          so_createdAt = normalizeExchangeNumber (js_nn [js_get raw ''createdAt'', js_get raw ''timestampMs'']) (Fin now),
          so_updatedAt = normalizeExchangeNumber (js_nn [js_get raw ''updatedAt'', js_get raw ''timestampMs'']) (Fin now),
          so_operator = js_str (js_nn [js_get raw ''operator'', js_get raw ''operatorId'', JStr ''tsturiale'']),
          so_source = source_of (js_get raw ''source''),
          so_strategy = js_str (js_nn [js_get raw ''strategy'', JStr '''']),
          so_legId = js_str (js_nn [js_get raw ''legId'', js_get raw ''leg_id'', JStr (marketKey @ ''-'' @ i)]),
          so_rest = raw\<rparr>)"

definition normalizeSimOrder :: "rat \<Rightarrow> jsval \<Rightarrow> sim_order js_result" where
  "normalizeSimOrder now raw = (if is_nullish raw then Inl TypeError else Inr (sim_order_of now raw))"

section \<open>Positions\<close>

definition sim_position_of :: "rat \<Rightarrow> jsval \<Rightarrow> sim_position" where
  "sim_position_of now raw =
     (let i = js_str (js_nn [js_get raw ''id'', js_get raw ''positionId'', js_get raw ''position_id'',
                JStr (''sim-position-'' @ js_str (js_nn [js_get raw ''marketKey'', js_get raw ''symbol'', JStr ''UNKNOWN'']))]);
          marketKey = js_str (js_nn [js_get raw ''marketKey'', js_get raw ''symbol'', JStr ''UNKNOWN'']);
          size = normalizeExchangeNumber (js_nn [js_get raw ''size'', js_get raw ''qty'']) (Fin 0);
          avgPrice = normalizeExchangeNumber (js_nn [js_get raw ''avgPrice'', js_get raw ''averagePrice'']) (Fin 0);
          markPrice = normalizeExchangeNumber (js_nn [js_get raw ''markPrice'', js_get raw ''marketPrice'']) avgPrice;
          openPnl = normalizeExchangeNumber (js_get raw ''openPnl'') (Fin 0);
          realizedPnl = normalizeExchangeNumber (js_get raw ''realizedPnl'') (Fin 0)
      in \<lparr>sp_id = i, sp_marketKey = marketKey, sp_outcome = outcome_of (js_get raw ''outcome''),
          sp_size = size, sp_avgPrice = avgPrice, sp_markPrice = markPrice,
          sp_openPnl = openPnl, sp_realizedPnl = realizedPnl,
          sp_totalPnl = normalizeExchangeNumber (js_get raw ''totalPnl'') (js_add openPnl realizedPnl),
          sp_status = (if js_get raw ''status'' = JStr ''closed'' then SP_closed else SP_open),
          sp_openedAt = normalizeExchangeNumber (js_get raw ''openedAt'') (Fin now),
          sp_closedAt = (if is_nullish (js_get raw ''closedAt'') then None
                         else Some (normalizeExchangeNumber (js_get raw ''closedAt'') (Fin 0))),
          sp_operator = js_str (js_nn [js_get raw ''operator'', js_get raw ''operatorId'', JStr ''tsturiale'']),
          sp_source = source_of (js_get raw ''source''),
          sp_strategy = js_str (js_nn [js_get raw ''strategy'', JStr '''']),
          sp_legId = js_str (js_nn [js_get raw ''legId'', js_get raw ''leg_id'', JStr (marketKey @ ''-'' @ i)]),
          sp_rest = raw\<rparr>)"

definition normalizeSimPosition :: "rat \<Rightarrow> jsval \<Rightarrow> sim_position js_result" where
  "normalizeSimPosition now raw = (if is_nullish raw then Inl TypeError else Inr (sim_position_of now raw))"

section \<open>Fills\<close>

text \<open>The order id a normalised fill carries stays in its payload object.\<close>

definition fill_of :: "rat \<Rightarrow> string \<Rightarrow> nat \<Rightarrow> jsval \<Rightarrow> poly_tick" where
  "fill_of now marketKey index raw =
     \<lparr>pt_timestamp = normalizeExchangeNumber
        (js_nn [js_get raw ''timestamp'', js_get raw ''timestampMs'', js_get raw ''ts'']) (Fin now),
      pt_marketKey = js_str (js_nn [js_get raw ''marketKey'', js_get raw ''symbol'', JStr marketKey]),
      pt_price = normalizeExchangeNumber (js_nn [js_get raw ''price'', js_get raw ''match_price'']) (Fin 0),
      pt_size = normalizeExchangeNumber (js_nn [js_get raw ''size'', js_get raw ''qty'', js_get raw ''match_qty'']) (Fin 0),
      pt_side = (if to_lower (js_str (js_nn [js_get raw ''side'', JStr ''''])) \<in> set [''no'', ''sell'', ''offer'', ''ask'']
                 then No else Yes),
      pt_rest = js_spread raw (JObj [(''orderId'', JStr (js_str (js_nn [js_get raw ''orderId'', js_get raw ''order_id'',
         JStr (''fill-'' @ marketKey @ ''-'' @ jsnum_string (Fin (of_nat index)))])))])\<rparr>"

definition normalizeFill :: "rat \<Rightarrow> string \<Rightarrow> nat \<times> jsval \<Rightarrow> poly_tick js_result" where
  "normalizeFill now marketKey = (\<lambda>(index, raw).
     if is_nullish raw then Inl TypeError else Inr (fill_of now marketKey index raw))"

definition normalizeExchangeFills :: "rat \<Rightarrow> jsval list dict \<Rightarrow> poly_tick list dict js_result" where
  "normalizeExchangeFills now fills =
     map_result (\<lambda>(marketKey, rows).
       map_sum id (Pair marketKey) (map_result (normalizeFill now marketKey) (List.enumerate 0 rows))) fills"

section \<open>What a normalised row is stored as\<close>

fun order_status_value :: "sim_order_status \<Rightarrow> string" where
  "order_status_value SO_working = ''working''"
| "order_status_value SO_partially_filled = ''partially_filled''"
| "order_status_value SO_filled = ''filled''"
| "order_status_value SO_cancelled = ''cancelled''"

fun outcome_value :: "outcome \<Rightarrow> string" where
  "outcome_value Yes = ''yes''" | "outcome_value No = ''no''"

fun side_value :: "sim_side \<Rightarrow> string" where
  "side_value Bid = ''bid''" | "side_value Offer = ''offer''"

fun source_value :: "sim_source \<Rightarrow> string" where
  "source_value Manual = ''manual''" | "source_value Algo = ''algo''"

definition sim_order_fields :: "sim_order \<Rightarrow> (string \<times> jsval) list" where
  "sim_order_fields ord =
     [(''id'', JStr (so_id ord)), (''marketKey'', JStr (so_marketKey ord)),
      (''outcome'', JStr (outcome_value (so_outcome ord))), (''side'', JStr (side_value (so_side ord))),
      (''orderType'', JStr (case so_orderType ord of Market \<Rightarrow> ''market'' | Limit \<Rightarrow> ''limit'')),
      (''price'', JNum (so_price ord)), (''size'', JNum (so_size ord)),
      (''remaining'', JNum (so_remaining ord)), (''filledSize'', JNum (so_filledSize ord)),
      (''matchedVolume'', JNum (so_matchedVolume ord)), (''status'', JStr (order_status_value (so_status ord))),
      (''createdAt'', JNum (so_createdAt ord)), (''updatedAt'', JNum (so_updatedAt ord)),
      (''operator'', JStr (so_operator ord)), (''source'', JStr (source_value (so_source ord))),
      (''strategy'', JStr (so_strategy ord)), (''legId'', JStr (so_legId ord))]"

definition sim_order_value :: "sim_order \<Rightarrow> jsval" where
  "sim_order_value ord = js_spread (so_rest ord) (JObj (sim_order_fields ord))"

definition sim_position_fields :: "sim_position \<Rightarrow> (string \<times> jsval) list" where
  "sim_position_fields p =
     [(''id'', JStr (sp_id p)), (''marketKey'', JStr (sp_marketKey p)),
      (''outcome'', JStr (outcome_value (sp_outcome p))), (''size'', JNum (sp_size p)),
      (''avgPrice'', JNum (sp_avgPrice p)), (''markPrice'', JNum (sp_markPrice p)),
      (''openPnl'', JNum (sp_openPnl p)), (''realizedPnl'', JNum (sp_realizedPnl p)),
      (''totalPnl'', JNum (sp_totalPnl p)),
      (''status'', JStr (case sp_status p of SP_open \<Rightarrow> ''open'' | SP_closed \<Rightarrow> ''closed'')),
      (''openedAt'', JNum (sp_openedAt p)),
      (''closedAt'', (case sp_closedAt p of None \<Rightarrow> JUndef | Some t \<Rightarrow> JNum t)),
      (''operator'', JStr (sp_operator p)), (''source'', JStr (source_value (sp_source p))),
      (''strategy'', JStr (sp_strategy p)), (''legId'', JStr (sp_legId p))]"

definition sim_position_value :: "sim_position \<Rightarrow> jsval" where
  "sim_position_value p = js_spread (sp_rest p) (JObj (sim_position_fields p))"

section \<open>Valid rows\<close>

fun nonneg :: "jsnum \<Rightarrow> bool" where
  "nonneg (Fin q) = (0 \<le> q)"
| "nonneg _ = False"

lemma nonneg_max: "is_fin x \<Longrightarrow> nonneg (js_max (Fin 0) x)"
  by (cases x) auto

lemma nonneg_conv: "nonneg x \<longleftrightarrow> (\<exists>q. x = Fin q \<and> 0 \<le> q)"
  by (cases x) auto

lemma nonneg_fin: "nonneg x \<Longrightarrow> is_fin x"
  by (cases x) auto

text \<open>
  A valid order; the last clause relates the order type to the payload it was read from, where an
  alternative field may say \<open>market\<close>.
\<close>

definition order_valid :: "sim_order \<Rightarrow> bool" where
  "order_valid ord =
     (nonneg (so_size ord) \<and> nonneg (so_remaining ord) \<and> nonneg (so_filledSize ord) \<and>
      nonneg (so_matchedVolume ord) \<and> is_fin (so_price ord) \<and> is_fin (so_createdAt ord) \<and> is_fin (so_updatedAt ord) \<and>
      (js_get (so_rest ord) ''type'' = JStr ''market'' \<longrightarrow> so_orderType ord = Market))"

definition position_valid :: "sim_position \<Rightarrow> bool" where
  "position_valid p =
     (is_fin (sp_size p) \<and> is_fin (sp_avgPrice p) \<and> is_fin (sp_markPrice p) \<and> is_fin (sp_openPnl p) \<and>
      is_fin (sp_realizedPnl p) \<and> is_fin (sp_totalPnl p) \<and> is_fin (sp_openedAt p) \<and>
      (case sp_closedAt p of None \<Rightarrow> True | Some t \<Rightarrow> is_fin t))"

lemma sim_order_valid: "order_valid (sim_order_of now raw)"
  by (simp add: order_valid_def sim_order_of_def Let_def nonneg_max is_fin_exchange_number is_fin_max_min is_fin_js_sub)

lemma sim_position_valid: "position_valid (sim_position_of now raw)"
  by (simp add: position_valid_def sim_position_of_def Let_def is_fin_exchange_number is_fin_js_add)

definition order_view :: "sim_order \<Rightarrow> sim_order" where
  "order_view ord = ord\<lparr>so_rest := JUndef\<rparr>"

definition position_view :: "sim_position \<Rightarrow> sim_position" where
  "position_view p = p\<lparr>sp_rest := JUndef\<rparr>"

lemma order_status_read [simp]: "order_status_of (JStr (order_status_value s)) = s"
  by (cases s) simp_all

lemma outcome_read [simp]: "outcome_of (JStr (outcome_value v)) = v"
  by (cases v) (simp_all add: outcome_of_def)

lemma source_read [simp]: "source_of (JStr (source_value v)) = v"
  by (cases v) (simp_all add: source_of_def)

lemma side_words_lower [simp]: "to_lower ''bid'' = ''bid''" "to_lower ''offer'' = ''offer''"
  by code_simp+

lemma js_get_fields:
  assumes "distinct (map fst fs)"
  shows "js_get (js_spread r (JObj fs)) k = (case map_of fs k of None \<Rightarrow> js_get r k | Some v \<Rightarrow> v)"
proof -
  have "map_of (rev fs) = map_of fs" using assms by (auto intro!: map_of_eqI simp: rev_map [symmetric])
  then show ?thesis by (cases r) (simp_all add: js_get_spread split: option.splits)
qed

lemma js_get_order: "js_get (sim_order_value ord) k =
    (case map_of (sim_order_fields ord) k of None \<Rightarrow> js_get (so_rest ord) k | Some v \<Rightarrow> v)"
  by (simp add: sim_order_value_def js_get_fields sim_order_fields_def)

lemma js_get_position: "js_get (sim_position_value p) k =
    (case map_of (sim_position_fields p) k of None \<Rightarrow> js_get (sp_rest p) k | Some v \<Rightarrow> v)"
  by (simp add: sim_position_value_def js_get_fields sim_position_fields_def)

lemma order_gets:
  "js_get (sim_order_value ord) ''id'' = JStr (so_id ord)"
  "js_get (sim_order_value ord) ''marketKey'' = JStr (so_marketKey ord)"
  "js_get (sim_order_value ord) ''outcome'' = JStr (outcome_value (so_outcome ord))"
  "js_get (sim_order_value ord) ''side'' = JStr (side_value (so_side ord))"
  "js_get (sim_order_value ord) ''orderType'' = JStr (case so_orderType ord of Market \<Rightarrow> ''market'' | Limit \<Rightarrow> ''limit'')"
  "js_get (sim_order_value ord) ''type'' = js_get (so_rest ord) ''type''"
  "js_get (sim_order_value ord) ''price'' = JNum (so_price ord)"
  "js_get (sim_order_value ord) ''size'' = JNum (so_size ord)"
  "js_get (sim_order_value ord) ''remaining'' = JNum (so_remaining ord)"
  "js_get (sim_order_value ord) ''filledSize'' = JNum (so_filledSize ord)"
  "js_get (sim_order_value ord) ''matchedVolume'' = JNum (so_matchedVolume ord)"
  "js_get (sim_order_value ord) ''status'' = JStr (order_status_value (so_status ord))"
  "js_get (sim_order_value ord) ''createdAt'' = JNum (so_createdAt ord)"
  "js_get (sim_order_value ord) ''updatedAt'' = JNum (so_updatedAt ord)"
  "js_get (sim_order_value ord) ''operator'' = JStr (so_operator ord)"
  "js_get (sim_order_value ord) ''source'' = JStr (source_value (so_source ord))"
  "js_get (sim_order_value ord) ''strategy'' = JStr (so_strategy ord)"
  "js_get (sim_order_value ord) ''legId'' = JStr (so_legId ord)"
  by (simp_all add: js_get_order sim_order_fields_def)

lemma order_side_read: "order_side_of (sim_order_value ord) = so_side ord"
  by (cases "so_side ord") (simp_all add: order_side_of_def Let_def order_gets js_nn_Cons)

lemma order_type_read: "order_valid ord \<Longrightarrow>
    (if (case so_orderType ord of Market \<Rightarrow> ''market'' | Limit \<Rightarrow> ''limit'') = ''market'' \<or>
        js_get (so_rest ord) ''type'' = JStr ''market'' then Market else Limit) = so_orderType ord"
  by (cases "so_orderType ord") (auto simp: order_valid_def)

lemma exchange_number_nonneg: "nonneg x \<Longrightarrow> js_max (Fin 0) (normalizeExchangeNumber (JNum x) d) = x"
  by (cases x) auto

lemma exchange_number_fin: "is_fin x \<Longrightarrow> normalizeExchangeNumber (JNum x) d = x"
  by (cases x) auto

lemma js_nn_first [simp]: "js_nn (JStr s # ws) = JStr s" "js_nn (JNum x # ws) = JNum x"
  by (cases ws; simp)+

lemma order_read_back:
  assumes v: "order_valid ord"
  shows "order_view (sim_order_of now (sim_order_value ord)) = order_view ord"
proof -
  have n: "nonneg (so_size ord)" "nonneg (so_remaining ord)" "nonneg (so_filledSize ord)" "nonneg (so_matchedVolume ord)"
    and f: "is_fin (so_price ord)" "is_fin (so_createdAt ord)" "is_fin (so_updatedAt ord)"
    using v by (simp_all add: order_valid_def)
  note reads = n [THEN exchange_number_nonneg] f [THEN exchange_number_fin] order_gets order_side_read js_nn_first
    js_str.simps outcome_read source_read order_status_read
  show ?thesis
    unfolding sim_order_of_def Let_def reads jsval.inject order_type_read [OF v]
    by (simp only: order_view_def sim_order.simps) (cases ord, simp)
qed

interpretation orders: normalizer "sim_order_of now" sim_order_value "\<lambda>_. True" order_valid order_view for now
  by unfold_locales (simp_all add: sim_order_valid order_read_back)

lemma position_gets:
  "js_get (sim_position_value p) ''id'' = JStr (sp_id p)"
  "js_get (sim_position_value p) ''marketKey'' = JStr (sp_marketKey p)"
  "js_get (sim_position_value p) ''outcome'' = JStr (outcome_value (sp_outcome p))"
  "js_get (sim_position_value p) ''size'' = JNum (sp_size p)"
  "js_get (sim_position_value p) ''avgPrice'' = JNum (sp_avgPrice p)"
  "js_get (sim_position_value p) ''markPrice'' = JNum (sp_markPrice p)"
  "js_get (sim_position_value p) ''openPnl'' = JNum (sp_openPnl p)"
  "js_get (sim_position_value p) ''realizedPnl'' = JNum (sp_realizedPnl p)"
  "js_get (sim_position_value p) ''totalPnl'' = JNum (sp_totalPnl p)"
  "js_get (sim_position_value p) ''status'' = JStr (case sp_status p of SP_open \<Rightarrow> ''open'' | SP_closed \<Rightarrow> ''closed'')"
  "js_get (sim_position_value p) ''openedAt'' = JNum (sp_openedAt p)"
  "js_get (sim_position_value p) ''closedAt'' = (case sp_closedAt p of None \<Rightarrow> JUndef | Some t \<Rightarrow> JNum t)"
  "js_get (sim_position_value p) ''operator'' = JStr (sp_operator p)"
  "js_get (sim_position_value p) ''source'' = JStr (source_value (sp_source p))"
  "js_get (sim_position_value p) ''strategy'' = JStr (sp_strategy p)"
  "js_get (sim_position_value p) ''legId'' = JStr (sp_legId p)"
  by (simp_all add: js_get_position sim_position_fields_def)

lemma position_status_read:
  "(if (case s of SP_open \<Rightarrow> ''open'' | SP_closed \<Rightarrow> ''closed'') = ''closed'' then SP_closed else SP_open) = s"
  by (cases s) simp_all

lemma closed_at_read: "(\<And>t. c = Some t \<Longrightarrow> is_fin t) \<Longrightarrow>
    (if is_nullish (case c of None \<Rightarrow> JUndef | Some t \<Rightarrow> JNum t) then None
     else Some (normalizeExchangeNumber (case c of None \<Rightarrow> JUndef | Some t \<Rightarrow> JNum t) d)) = c"
  by (cases c) (auto simp: exchange_number_fin)

lemma position_read_back:
  assumes v: "position_valid p"
  shows "position_view (sim_position_of now (sim_position_value p)) = position_view p"
proof -
  have f: "is_fin (sp_size p)" "is_fin (sp_avgPrice p)" "is_fin (sp_markPrice p)" "is_fin (sp_openPnl p)"
    "is_fin (sp_realizedPnl p)" "is_fin (sp_totalPnl p)" "is_fin (sp_openedAt p)"
    and c: "\<And>t. sp_closedAt p = Some t \<Longrightarrow> is_fin t"
    using v by (simp_all add: position_valid_def)
  show ?thesis
    unfolding sim_position_of_def Let_def position_gets js_nn_Cons is_nullish.simps jsval.inject position_status_read
    by (subst closed_at_read [OF c]) (simp_all add: position_view_def f [THEN exchange_number_fin])
qed

interpretation positions: normalizer "sim_position_of now" sim_position_value "\<lambda>_. True" position_valid position_view for now
  by unfold_locales (simp_all add: sim_position_valid position_read_back)

section \<open>Properties\<close>

lemma map_result_orders: "map_result (normalizeSimOrder now) raws =
    (if list_ex is_nullish raws then Inl TypeError else Inr (map (sim_order_of now) raws))"
  by (induction raws) (auto simp: normalizeSimOrder_def)

lemma map_result_positions: "map_result (normalizeSimPosition now) raws =
    (if list_ex is_nullish raws then Inl TypeError else Inr (map (sim_position_of now) raws))"
  by (induction raws) (auto simp: normalizeSimPosition_def)

lemma sim_values_not_nullish [simp]: "\<not> is_nullish (sim_order_value ord)" "\<not> is_nullish (sim_position_value p)"
  by (simp_all add: sim_order_value_def sim_position_value_def js_spread_def)

text \<open>
  C8. Normalising the orders and positions of an exchange snapshot yields valid rows (finite prices and
  times; sizes, remaining, filled and matched volume finite and not negative), and normalising what was
  stored once more, at any later time, changes no field: a snapshot can be replayed or re-synchronised
  any number of times.
\<close>

theorem exchange_snapshot_resync:
  assumes "map_result (normalizeSimOrder now) raws = Inr os"
    and "map_result (normalizeSimPosition now) praws = Inr ps"
  shows "list_all order_valid os \<and> list_all position_valid ps \<and>
    map_sum id (map order_view) (map_result (normalizeSimOrder later) (map sim_order_value os)) = Inr (map order_view os) \<and>
    map_sum id (map position_view) (map_result (normalizeSimPosition later) (map sim_position_value ps)) = Inr (map position_view ps)"
proof -
  have os: "os = map (sim_order_of now) raws" and ps: "ps = map (sim_position_of now) praws"
    using assms by (auto simp: map_result_orders map_result_positions split: if_splits)
  have v: "list_all order_valid os" "list_all position_valid ps"
    by (simp_all only: os ps orders.all_valid positions.all_valid list.pred_True)
  then show ?thesis
    using orders.map_read_back [OF v(1), of later] positions.map_read_back [OF v(2), of later]
    by (simp add: map_result_orders map_result_positions list_ex_iff comp_def)
qed

theorem exchange_snapshot_resync_witness:
  "order_valid (sim_order_of 5 (JObj [(''symbol'', JStr ''ES''), (''side'', JStr ''SELL''), (''quantity'', JStr ''4 lots'')]))"
  using exchange_snapshot_resync
    [of 5 "[JObj [(''symbol'', JStr ''ES''), (''side'', JStr ''SELL''), (''quantity'', JStr ''4 lots'')]]" _ "[]" "[]" 6]
  by (simp add: normalizeSimOrder_def)

definition fill_ok :: "poly_tick \<Rightarrow> bool" where
  "fill_ok f = (is_fin (pt_timestamp f) \<and> is_fin (pt_price f) \<and> is_fin (pt_size f))"

lemma fill_of_ok: "fill_ok (fill_of now k i raw)"
  by (simp add: fill_ok_def fill_of_def is_fin_exchange_number)

lemma fill_rows_cases:
  "case map_result (normalizeFill now k) (List.enumerate n rows) of
     Inr fs \<Rightarrow> length fs = length rows \<and> list_all fill_ok fs
   | Inl e \<Rightarrow> e = TypeError \<and> (\<exists>row \<in> set rows. is_nullish row)"
proof (induction rows arbitrary: n)
  case (Cons row rows)
  show ?case
    using Cons [of "Suc n"] by (auto simp: normalizeFill_def fill_of_ok split: sum.splits)
qed simp

text \<open>
  Normalising a fill history keeps the markets in their order with as many fills as were sent, and
  every fill has a finite time, price and size; the only failure is a \<open>null\<close> row.
\<close>

theorem exchange_fills_normalized:
  "case normalizeExchangeFills now fills of
     Inr out \<Rightarrow> map fst out = map fst fills \<and> map (length \<circ> snd) out = map (length \<circ> snd) fills \<and>
                list_all (list_all fill_ok \<circ> snd) out
   | Inl e \<Rightarrow> e = TypeError \<and> (\<exists>row \<in> set (concat (map snd fills)). is_nullish row)"
proof (induction fills)
  case Nil
  show ?case by (simp add: normalizeExchangeFills_def)
next
  case (Cons kr fills)
  obtain k rows where kr: "kr = (k, rows)" by fastforce
  show ?case
    using fill_rows_cases [where now = now and k = k and n = 0 and rows = rows] Cons kr
    by (auto simp: normalizeExchangeFills_def split: sum.splits)
qed

end
