(* ===== verification/Execution.thy ===== *)
theory Execution
  imports FuturesPnl
begin

text \<open>
  The marking of open execution positions (\<open>apps/terminal/src/store/index.ts\<close>): the price of a book,
  the signed size of a position, and the recomputation of mark and open P\&L from a price, a book, a
  tick or all known books and tapes.  The source returns the same array when nothing changed; identity
  of arrays is not modelled, so the result is the mapped list in both cases.
\<close>

definition yesPriceFromBook :: "poly_book \<Rightarrow> jsnum option" where
  "yesPriceFromBook book =
     (case finite_opt (pb_ltp book) of Some ltp \<Rightarrow> Some ltp
      | None \<Rightarrow> (case finite_opt (pb_mid book) of Some mid \<Rightarrow> Some mid
      | None \<Rightarrow> (case (finite_opt (pb_best_bid book), finite_opt (pb_best_ask book)) of
          (Some bid, Some ask) \<Rightarrow> Some (js_div (js_add bid ask) (Fin 2))
        | (Some bid, None) \<Rightarrow> Some bid
        | (None, ask) \<Rightarrow> ask)))"

definition signedExecutionPositionSize :: "string \<Rightarrow> jsnum \<Rightarrow> jsnum" where
  "signedExecutionPositionSize direction sz =
     (let normalized = to_upper direction in
      if js_includes ''DOWN'' normalized \<or> js_includes ''SHORT'' normalized \<or> js_includes ''SELL'' normalized
      then js_neg (js_abs sz) else js_abs sz)"

definition executionPositionMatchesMarket :: "exec_position \<Rightarrow> string \<Rightarrow> bool" where
  "executionPositionMatchesMarket position marketKey =
     (to_upper (js_trim (ep_asset position)) = to_upper (js_trim marketKey))"

text \<open>\<open>/closed|filled|cancel/i.test(position.status)\<close>\<close>

definition inactive_status :: "string \<Rightarrow> bool" where
  "inactive_status s = (let l = to_lower s in js_includes ''closed'' l \<or> js_includes ''filled'' l \<or> js_includes ''cancel'' l)"

definition position_contracts :: "exec_position \<Rightarrow> jsnum" where
  "position_contracts position =
     signedExecutionPositionSize (ep_direction position)
       (if js_num (ep_size position) = NaN then Fin 0 else js_num (ep_size position))"

definition mark_position :: "string \<Rightarrow> jsnum \<Rightarrow> exec_position \<Rightarrow> exec_position" where
  "mark_position marketKey markPrice position =
     (if \<not> executionPositionMatchesMarket position marketKey \<or> inactive_status (ep_status position) then position
      else let entryPrice = js_num (ep_entry_price position);
               contracts = position_contracts position
      in if \<not> is_fin entryPrice \<or> \<not> is_fin contracts then position
      else let multiplier = resolveFuturesMultiplier (ep_asset position) (js_get (ep_rest position) ''multiplier'') (Some entryPrice);
               openPnl = calculateOpenFuturesPnl entryPrice markPrice contracts multiplier
      in if ep_current_price position = JNum markPrice \<and> ep_unrealized_pnl position = JNum openPnl then position
      else position\<lparr>ep_current_price := JNum markPrice, ep_unrealized_pnl := JNum openPnl\<rparr>)"

definition markOpenExecutionPositionsToPrice :: "exec_position list \<Rightarrow> string \<Rightarrow> jsnum option \<Rightarrow> exec_position list" where
  "markOpenExecutionPositionsToPrice positions marketKey markPrice =
     (case markPrice of None \<Rightarrow> positions
      | Some m \<Rightarrow> if \<not> is_fin m then positions else map (mark_position marketKey m) positions)"

definition markOpenExecutionPositionsFromBook :: "exec_position list \<Rightarrow> string \<Rightarrow> poly_book \<Rightarrow> exec_position list" where
  "markOpenExecutionPositionsFromBook positions marketKey book =
     markOpenExecutionPositionsToPrice positions marketKey (yesPriceFromBook book)"

definition markOpenExecutionPositions :: "exec_position list \<Rightarrow> string \<Rightarrow> poly_tick \<Rightarrow> exec_position list" where
  "markOpenExecutionPositions positions marketKey tick =
     markOpenExecutionPositionsToPrice positions marketKey (Some (pt_price tick))"

definition markOpenExecutionPositionsFromKnownMarkets ::
    "exec_position list \<Rightarrow> poly_book dict \<Rightarrow> poly_tick list dict \<Rightarrow> exec_position list" where
  "markOpenExecutionPositionsFromKnownMarkets positions books ticks =
     foldl (\<lambda>next (marketKey, series). if series = [] then next else markOpenExecutionPositions next marketKey (last series))
       (foldl (\<lambda>next (marketKey, book). markOpenExecutionPositionsFromBook next marketKey book) positions books)
       ticks"

section \<open>One position at one price\<close>

text \<open>An open position with a finite entry price and size, which a price can mark.\<close>

definition markable :: "exec_position \<Rightarrow> bool" where
  "markable p = (\<not> inactive_status (ep_status p) \<and> is_fin (js_num (ep_entry_price p)) \<and> is_fin (position_contracts p))"

definition position_multiplier :: "exec_position \<Rightarrow> jsnum" where
  "position_multiplier p =
     resolveFuturesMultiplier (ep_asset p) (js_get (ep_rest p) ''multiplier'') (Some (js_num (ep_entry_price p)))"

definition marked_at :: "jsnum \<Rightarrow> exec_position \<Rightarrow> exec_position" where
  "marked_at m p = p\<lparr>ep_current_price := JNum m, ep_unrealized_pnl :=
     JNum (calculateOpenFuturesPnl (js_num (ep_entry_price p)) m (position_contracts p) (position_multiplier p))\<rparr>"

lemma mark_position_eq:
  "mark_position k m p = (if executionPositionMatchesMarket p k \<and> markable p then marked_at m p else p)"
  by (cases p) (auto simp: mark_position_def markable_def marked_at_def position_multiplier_def Let_def)

lemma marked_at_simps [simp]:
  "executionPositionMatchesMarket (marked_at m p) k = executionPositionMatchesMarket p k"
  "markable (marked_at m p) = markable p" "marked_at n (marked_at m p) = marked_at n p"
  "ep_position_id (marked_at m p) = ep_position_id p"
  by (simp_all add: marked_at_def executionPositionMatchesMarket_def markable_def position_contracts_def position_multiplier_def)

text \<open>The usable prices of a list of sources, in the order in which they are applied.\<close>

definition source_prices :: "poly_book dict \<Rightarrow> poly_tick list dict \<Rightarrow> (string \<times> jsnum) list" where
  "source_prices books ticks =
     filter (is_fin \<circ> snd)
       (List.map_filter (\<lambda>(k, b). map_option (Pair k) (yesPriceFromBook b)) books @
        List.map_filter (\<lambda>(k, ts). if ts = [] then None else Some (k, pt_price (last ts))) ticks)"

definition mark_all :: "(string \<times> jsnum) list \<Rightarrow> exec_position list \<Rightarrow> exec_position list" where
  "mark_all srcs ps = foldl (\<lambda>ps (k, m). map (mark_position k m) ps) ps srcs"

lemma mark_all_append: "mark_all (xs @ ys) ps = mark_all ys (mark_all xs ps)"
  by (simp add: mark_all_def)

lemma mark_books_eq:
  "foldl (\<lambda>next (k, b). markOpenExecutionPositionsFromBook next k b) ps books =
   mark_all (filter (is_fin \<circ> snd) (List.map_filter (\<lambda>(k, b). map_option (Pair k) (yesPriceFromBook b)) books)) ps"
  by (induction books arbitrary: ps)
    (auto simp: mark_all_def markOpenExecutionPositionsFromBook_def markOpenExecutionPositionsToPrice_def
      map_filter_simps split: option.splits)

lemma mark_ticks_eq:
  "foldl (\<lambda>next (k, ts). if ts = [] then next else markOpenExecutionPositions next k (last ts)) ps ticks =
   mark_all (filter (is_fin \<circ> snd)
     (List.map_filter (\<lambda>(k, ts). if ts = [] then None else Some (k, pt_price (last ts))) ticks)) ps"
  by (induction ticks arbitrary: ps)
    (auto simp: mark_all_def markOpenExecutionPositions_def markOpenExecutionPositionsToPrice_def map_filter_simps)

lemma mark_known_eq: "markOpenExecutionPositionsFromKnownMarkets ps books ticks = mark_all (source_prices books ticks) ps"
  by (simp add: markOpenExecutionPositionsFromKnownMarkets_def mark_books_eq mark_ticks_eq source_prices_def mark_all_append)

definition own_prices :: "exec_position \<Rightarrow> (string \<times> jsnum) list \<Rightarrow> jsnum list" where
  "own_prices p srcs = map snd (filter (\<lambda>(k, m). executionPositionMatchesMarket p k) srcs)"

definition final_mark :: "(string \<times> jsnum) list \<Rightarrow> exec_position \<Rightarrow> exec_position" where
  "final_mark srcs p = (if markable p \<and> own_prices p srcs \<noteq> [] then marked_at (last (own_prices p srcs)) p else p)"

lemma mark_position_final: "mark_position k m (final_mark srcs p) = final_mark (srcs @ [(k, m)]) p"
  by (auto simp: final_mark_def own_prices_def mark_position_eq)

lemma mark_all_final: "mark_all srcs ps = map (final_mark srcs) ps"
proof (induction srcs rule: rev_induct)
  case Nil
  then show ?case by (simp add: mark_all_def final_mark_def own_prices_def)
next
  case (snoc km srcs)
  then show ?case by (cases km) (simp add: mark_all_append mark_all_def [of "[_]"] mark_position_final comp_def)
qed

section \<open>Properties\<close>

text \<open>
  When positions arrive they are marked from everything the terminal knows: each open position with a
  finite entry and size carries the price of the last usable source of its own market, tapes winning over
  books, with open P\&L equal to price move times contract multiplier times signed size; a position with
  no source, or closed, is kept as it was, and no position is added, lost or reordered.
\<close>

theorem execution_mark_last_source:
  "markOpenExecutionPositionsFromKnownMarkets ps books ticks = map (final_mark (source_prices books ticks)) ps"
  by (simp add: mark_known_eq mark_all_final)

text \<open>
  A mark leaves no trace in the next one: after a finite price the positions are what that price alone
  would have made of them, whatever price (or unusable price) was applied to the same market before.
\<close>

theorem execution_mark_overwrites:
  assumes "is_fin b"
  shows "markOpenExecutionPositionsToPrice (markOpenExecutionPositionsToPrice ps k a) k (Some b)
       = markOpenExecutionPositionsToPrice ps k (Some b)"
  using assms by (auto simp: markOpenExecutionPositionsToPrice_def mark_position_eq split: option.splits)

theorem execution_mark_overwrites_witness:
  "\<forall>ps. markOpenExecutionPositionsToPrice (markOpenExecutionPositionsToPrice ps ''ES'' (Some (Fin 1))) ''ES'' (Some (Fin 2))
     = markOpenExecutionPositionsToPrice ps ''ES'' (Some (Fin 2))"
  by (intro allI execution_mark_overwrites) simp

text \<open>
  A book that has neither a last price nor a mid, reported as \<open>null\<close> rather than left out, is read
  as the price 0 (\<open>Number(null)\<close> is 0), so the mid of its best bid and ask is never used.
\<close>

theorem null_ltp_marks_at_zero:
  "yesPriceFromBook (b\<lparr>pb_ltp := JNull\<rparr>) = Some (Fin 0) \<and>
   yesPriceFromBook (b\<lparr>pb_ltp := JUndef, pb_mid := JNull\<rparr>) = Some (Fin 0)"
  by (simp add: yesPriceFromBook_def finite_opt_def)

end
