(* ===== verification/History.thy ===== *)
theory History
  imports Types
begin

text \<open>
  The bounded histories of \<open>apps/terminal/src/store/index.ts\<close>: the updates of a bar series, a tape, a
  fill history, a signal list, a message log and a probability history, each as a function from the old
  list to the new one.  What they share (a cap that is never exceeded, elements that come from the old
  list or the new element) is proved once in the locale \<open>bounded_series\<close>.
\<close>

section \<open>The contract of a capped history\<close>

locale bounded_series =
  fixes push :: "'a list \<Rightarrow> 'b \<Rightarrow> 'a list" and cap :: nat and elem :: "'b \<Rightarrow> 'a"
  assumes push_grow: "length (push xs v) \<le> max cap (length xs)"
    and push_set: "set (push xs v) \<subseteq> insert (elem v) (set xs)"
begin

text \<open>A list that came in longer than the cap never grows.\<close>

lemma push_within: "length xs \<le> max cap K \<Longrightarrow> length (push xs v) \<le> max cap K"
  using push_grow [of xs v] by linarith

lemma push_bound: "length xs \<le> cap \<Longrightarrow> length (push xs v) \<le> cap"
  using push_grow [of xs v] by simp

lemma pushes_bound: "length xs \<le> cap \<Longrightarrow> length (foldl push xs vs) \<le> cap"
  by (induction vs arbitrary: xs) (auto simp: push_bound)

lemma pushes_set: "set (foldl push xs vs) \<subseteq> elem ` set vs \<union> set xs"
proof (induction vs arbitrary: xs)
  case (Cons v vs)
  show ?case using Cons [of "push xs v"] push_set [of xs v] by auto
qed simp

lemma pushes_all: "list_all P xs \<Longrightarrow> list_all (P \<circ> elem) vs \<Longrightarrow> list_all P (foldl push xs vs)"
  using pushes_set [of xs vs] by (fastforce simp: list_all_iff)

end

section \<open>The updates\<close>

definition push_bar :: "bar list \<Rightarrow> bar \<Rightarrow> bar list" where
  "push_bar prev b =
     (if prev \<noteq> [] \<and> js_eq (timestamp (last prev)) (timestamp b) then prev[length prev - 1 := b]
      else slice_last 4499 prev @ [b])"

definition push_tick :: "trade_tick list \<Rightarrow> trade_tick \<Rightarrow> trade_tick list" where
  "push_tick prev t = slice_last 49 prev @ [t]"

definition push_signal :: "signal list \<Rightarrow> signal \<Rightarrow> signal list" where
  "push_signal prev sig =
     (let normalized = sig\<lparr>sg_model := normalizeModel (sg_model sig)\<rparr>;
          filtered = filter (\<lambda>x. sg_model x \<noteq> sg_model normalized) prev
      in slice_last 8 (filtered @ [normalized]))"

definition push_message :: "string list \<Rightarrow> string \<Rightarrow> string list" where
  "push_message prev msg = take 50 (msg # prev)"

definition same_tick :: "poly_tick \<Rightarrow> poly_tick \<Rightarrow> bool" where
  "same_tick a b = (js_eq (pt_timestamp a) (pt_timestamp b) \<and> js_eq (pt_price a) (pt_price b) \<and>
     js_eq (pt_size a) (pt_size b) \<and> pt_side a = pt_side b)"

definition push_poly_tick :: "poly_tick list \<Rightarrow> poly_tick \<Rightarrow> poly_tick list" where
  "push_poly_tick prev tick =
     (if prev \<noteq> [] \<and> same_tick (last prev) tick then prev else slice_last 199 prev @ [tick])"

definition tickKey :: "poly_tick \<Rightarrow> string" where
  "tickKey t = jsnum_string (pt_timestamp t) @ ''-'' @ jsnum_string (pt_price t) @ ''-'' @ jsnum_string (pt_size t) @
     ''-'' @ (case pt_side t of Yes \<Rightarrow> ''yes'' | No \<Rightarrow> ''no'')"

definition push_fill :: "poly_tick list \<Rightarrow> poly_tick \<Rightarrow> poly_tick list" where
  "push_fill prev tick =
     (if list_ex (\<lambda>f. tickKey f = tickKey tick) prev then prev else slice_last 100 (prev @ [tick]))"

definition same_ts :: "prob_point \<Rightarrow> prob_point \<Rightarrow> bool" where
  "same_ts x v = js_eq (pp_ts x) (pp_ts v)"

definition cmp_ts :: "prob_point \<Rightarrow> prob_point \<Rightarrow> jsnum" where
  "cmp_ts a b = js_sub (pp_ts a) (pp_ts b)"

definition merge_points :: "prob_point list \<Rightarrow> prob_point list \<Rightarrow> prob_point list" where
  "merge_points firsts others = slice_last 4320 (js_sort cmp_ts (first_occ same_ts (firsts @ others)))"

section \<open>Interpretations\<close>

lemma js_eq_fin_val: "is_fin x \<Longrightarrow> is_fin y \<Longrightarrow> js_eq x y \<longleftrightarrow> fin_val x = fin_val y"
  by (cases x; cases y) auto

interpretation bar_series: bounded_series push_bar 4500 id
  by unfold_locales (auto simp: push_bar_def dest: set_update_subset_insert [THEN subsetD] set_slice_last [THEN subsetD])

interpretation tick_series: bounded_series push_tick 50 id
  by unfold_locales (auto simp: push_tick_def dest: set_slice_last [THEN subsetD])

interpretation signal_series: bounded_series push_signal 8 "\<lambda>sig. sig\<lparr>sg_model := normalizeModel (sg_model sig)\<rparr>"
  by unfold_locales (auto simp: push_signal_def Let_def dest!: set_slice_last [THEN subsetD])

interpretation message_log: bounded_series push_message 50 id
  by unfold_locales (auto simp: push_message_def dest: in_set_takeD)

interpretation poly_series: bounded_series push_poly_tick 200 id
  by unfold_locales (auto simp: push_poly_tick_def dest: set_slice_last [THEN subsetD])

interpretation fill_series: bounded_series push_fill 100 id
  by unfold_locales (auto simp: push_fill_def dest: set_slice_last [THEN subsetD])

section \<open>Bars\<close>

definition bars_increasing :: "bar list \<Rightarrow> bool" where
  "bars_increasing xs = (list_all (is_fin \<circ> timestamp) xs \<and> sorted_wrt (<) (map (fin_val \<circ> timestamp) xs))"

definition bar_after :: "bar list \<Rightarrow> bar \<Rightarrow> bool" where
  "bar_after xs b = (is_fin (timestamp b) \<and> (xs \<noteq> [] \<longrightarrow> fin_val (timestamp (last xs)) \<le> fin_val (timestamp b)))"

lemma bars_increasing_append: "bars_increasing (xs @ ys) \<longleftrightarrow> bars_increasing xs \<and> bars_increasing ys \<and>
    (\<forall>x \<in> set xs. \<forall>y \<in> set ys. fin_val (timestamp x) < fin_val (timestamp y))"
  by (auto simp: bars_increasing_def sorted_wrt_append)

lemma bars_increasing_slice: "bars_increasing xs \<Longrightarrow> bars_increasing (slice_last n xs)"
  using slice_last_suffix [of xs n] bars_increasing_append by metis

lemma bars_before:
  assumes "bars_increasing xs" "bar_after xs b" "xs \<noteq> []" "timestamp (last xs) \<noteq> timestamp b" "x \<in> set xs"
  shows "fin_val (timestamp x) < fin_val (timestamp b)"
proof -
  have l: "xs = butlast xs @ [last xs]" using assms(3) by simp
  have "is_fin (timestamp (last xs))" using assms(1,3) by (simp add: bars_increasing_def list_all_iff)
  then have "fin_val (timestamp (last xs)) < fin_val (timestamp b)"
    using assms(2,3,4) by (auto simp: bar_after_def is_fin_conv)
  moreover have "x = last xs \<or> fin_val (timestamp x) < fin_val (timestamp (last xs))"
    using assms(1,5) by (subst (asm) (1 2) l) (auto simp: bars_increasing_append)
  ultimately show ?thesis by auto
qed

lemma push_bar_increasing:
  assumes "bars_increasing xs" "bar_after xs b"
  shows "bars_increasing (push_bar xs b) \<and> last (push_bar xs b) = b"
proof (cases "xs \<noteq> [] \<and> timestamp (last xs) = timestamp b")
  case True
  obtain ys y where xs: "xs = ys @ [y]" using True by (cases xs rule: rev_cases) auto
  then have "push_bar xs b = ys @ [b]"
    using True assms(2) by (auto simp: push_bar_def bar_after_def is_fin_conv)
  then show ?thesis
    using assms xs True by (auto simp: bars_increasing_def sorted_wrt_append)
next
  case False
  have "js_eq (timestamp (last xs)) (timestamp b) \<longleftrightarrow> timestamp (last xs) = timestamp b"
    using assms(2) by (auto simp: bar_after_def is_fin_conv)
  then have "push_bar xs b = slice_last 4499 xs @ [b]" using False unfolding push_bar_def by auto
  moreover have "\<forall>x \<in> set (slice_last 4499 xs). fin_val (timestamp x) < fin_val (timestamp b)"
    using bars_before [OF assms] False set_slice_last by fastforce
  ultimately show ?thesis
    using assms bars_increasing_slice
    by (auto simp: bars_increasing_append bars_increasing_def [of "[b]"] bar_after_def)
qed

section \<open>Probability histories\<close>

definition points_ok :: "prob_point list \<Rightarrow> bool" where
  "points_ok ps = list_all (is_fin \<circ> pp_ts) ps"

definition series_ok :: "prob_point list \<Rightarrow> bool" where
  "series_ok ps = (points_ok ps \<and> sorted_wrt (<) (map (fin_val \<circ> pp_ts) ps) \<and> length ps \<le> 4320)"

interpretation by_ts: key_comparator cmp_ts "is_fin \<circ> pp_ts" "fin_val \<circ> pp_ts"
  by unfold_locales (auto simp: cmp_ts_def cmp_le_def is_fin_conv)

lemma sorted_wrt_strict: "sorted xs \<Longrightarrow> distinct xs \<Longrightarrow> sorted_wrt (<) (xs :: rat list)"
  by (simp add: strict_sorted_iff)

lemma first_occ_ts:
  assumes "points_ok ps"
  shows "distinct (map (fin_val \<circ> pp_ts) (first_occ same_ts ps)) \<and>
    (fin_val \<circ> pp_ts) ` set (first_occ same_ts ps) = (fin_val \<circ> pp_ts) ` set ps"
  by (rule first_occ_key) (use assms in \<open>auto simp: points_ok_def list_all_iff same_ts_def js_eq_fin_val\<close>)

lemma merged_sorted:
  assumes "points_ok ps"
  shows "sorted_wrt (<) (map (fin_val \<circ> pp_ts) (js_sort cmp_ts (first_occ same_ts ps)))"
proof (rule sorted_wrt_strict)
  have "\<forall>x \<in> set (first_occ same_ts ps). (is_fin \<circ> pp_ts) x"
    using assms set_first_occ_subset [of same_ts ps] by (auto simp: points_ok_def list_all_iff)
  then show "sorted (map (fin_val \<circ> pp_ts) (js_sort cmp_ts (first_occ same_ts ps)))"
    by (rule by_ts.sort_sorted_key)
  show "distinct (map (fin_val \<circ> pp_ts) (js_sort cmp_ts (first_occ same_ts ps)))"
    using first_occ_ts [OF assms] by (metis distinct_map mset_eq_imp_distinct_iff mset_js_sort set_js_sort)
qed

lemma merge_points_ok:
  assumes "points_ok firsts" "points_ok others"
  shows "series_ok (merge_points firsts others)"
proof -
  have ok: "points_ok (firsts @ others)" using assms by (simp add: points_ok_def)
  have "points_ok (js_sort cmp_ts (first_occ same_ts (firsts @ others)))"
    using ok set_first_occ_subset [of same_ts "firsts @ others"] by (auto simp: points_ok_def list_all_iff)
  then have "points_ok (merge_points firsts others)"
    using set_slice_last by (fastforce simp: merge_points_def points_ok_def list_all_iff)
  then show ?thesis
    using merged_sorted [OF ok]
    by (simp add: series_ok_def merge_points_def map_slice_last) (simp add: slice_last_def sorted_wrt_drop)
qed

section \<open>Properties\<close>

definition bar_time :: "bar \<Rightarrow> rat" where
  "bar_time b = fin_val (timestamp b)"

lemma slice_last_snoc: "slice_last 4499 (slice_last 4500 xs) @ [x] = slice_last 4500 (xs @ [x])"
proof (cases "4500 \<le> length xs")
  case True
  then have "length xs - 4500 + (4500 - 4499) = length xs + 1 - 4500" "length xs + 1 - 4500 \<le> length xs" by simp_all
  then show ?thesis using True by (simp add: slice_last_def)
next
  case False
  then show ?thesis by (simp add: slice_last_def)
qed

definition bar_feed :: "bar list \<Rightarrow> bool" where
  "bar_feed bs = (list_all (is_fin \<circ> timestamp) bs \<and> sorted (map bar_time bs))"

lemma remdups_adj_snoc: "remdups_adj (xs @ [x]) = (if xs \<noteq> [] \<and> last xs = x then remdups_adj xs else remdups_adj xs @ [x])"
  by (induction xs rule: remdups_adj.induct) auto

lemma slice_last_eq_Nil: "0 < n \<Longrightarrow> slice_last n xs = [] \<longleftrightarrow> xs = []"
  by (cases xs) (auto simp: slice_last_def)

lemma last_slice_last: "0 < n \<Longrightarrow> last (slice_last n xs) = last xs"
  by (cases xs) (auto simp: slice_last_def last_drop)

lemma push_bar_eq:
  assumes "bars_increasing xs" "bar_after xs b"
  shows "push_bar xs b = (if xs \<noteq> [] \<and> bar_time (last xs) = bar_time b then butlast xs @ [b] else slice_last 4499 xs @ [b])"
proof (cases "xs = []")
  case False
  then have "is_fin (timestamp (last xs))" "is_fin (timestamp b)"
    using assms by (auto simp: bars_increasing_def bar_after_def list_all_iff)
  moreover have "xs[length xs - 1 := b] = butlast xs @ [b]"
    using False by (metis append_butlast_last_id length_butlast list_update_length)
  ultimately show ?thesis using False by (simp add: push_bar_def js_eq_fin_val bar_time_def del: One_nat_def)
qed (simp add: push_bar_def)

lemma find_rev_mem: "List.find P (rev xs) = Some x \<Longrightarrow> x \<in> set xs"
  by (induction xs rule: rev_induct) (auto split: if_splits)

definition feed_bars :: "bar list \<Rightarrow> bar list \<Rightarrow> bool" where
  "feed_bars bs r = (map bar_time r = slice_last 4500 (remdups_adj (map bar_time bs)) \<and> bars_increasing r \<and>
     list_all (\<lambda>b. List.find (\<lambda>x. bar_time x = bar_time b) (rev bs) = Some b) r)"

lemma feed_bars_last:
  assumes "feed_bars bs r"
  shows "r = [] \<longleftrightarrow> bs = []" "bs \<noteq> [] \<Longrightarrow> bar_time (last r) = bar_time (last bs)"
proof -
  have m: "map bar_time r = slice_last 4500 (remdups_adj (map bar_time bs))" using assms by (simp add: feed_bars_def)
  show e: "r = [] \<longleftrightarrow> bs = []"
    using arg_cong [OF m, of "\<lambda>xs. xs = []"] by (simp add: slice_last_eq_Nil)
  show "bar_time (last r) = bar_time (last bs)" if "bs \<noteq> []"
    using arg_cong [OF m, of last] that e by (simp add: last_slice_last last_map)
qed

lemma feed_bars_push:
  assumes r: "feed_bars bs r" and feed: "bar_feed (bs @ [b])"
  shows "feed_bars (bs @ [b]) (push_bar r b)"
proof -
  note l = feed_bars_last [OF r]
  have m: "map bar_time r = slice_last 4500 (remdups_adj (map bar_time bs))" and inc: "bars_increasing r"
    and find: "\<And>x. x \<in> set r \<Longrightarrow> List.find (\<lambda>y. bar_time y = bar_time x) (rev bs) = Some x"
    using r by (auto simp: feed_bars_def list_all_iff)
  have b: "is_fin (timestamp b)" "\<And>x. x \<in> set bs \<Longrightarrow> bar_time x \<le> bar_time b"
    using feed by (auto simp: bar_feed_def sorted_append)
  have after: "bar_after r b"
    using b l by (cases "bs = []") (auto simp: bar_after_def bar_time_def [symmetric])
  note inc' = push_bar_increasing [OF inc after]
  have "map bar_time (push_bar r b) = slice_last 4500 (remdups_adj (map bar_time (bs @ [b])))"
  proof (cases "bs \<noteq> [] \<and> bar_time (last bs) = bar_time b")
    case True
    then have "r \<noteq> []" "bar_time (last r) = bar_time b" using l by simp_all
    moreover from this have "map bar_time r = map bar_time (butlast r) @ [bar_time (last r)]"
      using append_butlast_last_id [of r] map_append [of bar_time "butlast r" "[last r]"] by simp
    ultimately have "map bar_time (push_bar r b) = map bar_time r"
      by (simp add: push_bar_eq [OF inc after])
    then show ?thesis using True m by (simp add: remdups_adj_snoc last_map)
  next
    case False
    then have "push_bar r b = slice_last 4499 r @ [b]" using push_bar_eq [OF inc after] l by auto
    then show ?thesis
      using False m by (auto simp: remdups_adj_snoc last_map map_slice_last slice_last_snoc)
  qed
  moreover have "List.find (\<lambda>y. bar_time y = bar_time x) (rev (bs @ [b])) = Some x" if "x \<in> set (push_bar r b)" for x
  proof (cases "x = b")
    case False
    have "push_bar r b = butlast (push_bar r b) @ [b]"
      using inc' by (metis append_butlast_last_id bars_increasing_def push_bar_eq [OF inc after] snoc_eq_iff_butlast)
    then have "bar_time x < bar_time b"
      using inc' that False bars_increasing_append [of "butlast (push_bar r b)" "[b]"]
      by (metis Un_iff bar_time_def list.set_intros(1) set_ConsD set_append empty_iff list.set(1))
    moreover have "x \<in> set r" using bar_series.push_set [of r b] that False by auto
    ultimately show ?thesis using find by auto
  qed simp
  ultimately show ?thesis using inc' by (simp add: feed_bars_def list_all_iff)
qed

lemma bar_feed_append: "bar_feed (xs @ ys) \<Longrightarrow> bar_feed xs"
  by (simp add: bar_feed_def sorted_append)

lemma feed_bars_foldl: "bar_feed bs \<Longrightarrow> feed_bars bs (foldl push_bar [] bs)"
proof (induction bs rule: rev_induct)
  case Nil
  then show ?case by (simp add: feed_bars_def bars_increasing_def)
next
  case (snoc b bs)
  then show ?case using feed_bars_push [of bs _ b] bar_feed_append [of bs "[b]"] by simp
qed

text \<open>
  Candles: when a feed sends bars in order of time, repeating the current bar as it develops, the
  stored series has one bar per timestamp, strictly increasing, each the last update sent for its
  timestamp, and consists of the latest 4500 timestamps of the feed.
\<close>

theorem bar_feed_candles:
  assumes "list_all (is_fin \<circ> timestamp) bs" "sorted (map bar_time bs)"
  shows "map bar_time (foldl push_bar [] bs) = slice_last 4500 (remdups_adj (map bar_time bs)) \<and>
    bars_increasing (foldl push_bar [] bs) \<and> length (foldl push_bar [] bs) \<le> 4500 \<and>
    list_all (\<lambda>b. List.find (\<lambda>x. bar_time x = bar_time b) (rev bs) = Some b) (foldl push_bar [] bs)"
  using feed_bars_foldl [of bs] assms bar_series.pushes_bound [of "[]" bs] by (simp add: bar_feed_def feed_bars_def)

definition sample_bar :: "rat \<Rightarrow> rat \<Rightarrow> bar" where
  "sample_bar t c = \<lparr>timestamp = Fin t, bopen = Fin c, high = Fin c, low = Fin c, close = Fin c, volume = Fin 1\<rparr>"

theorem bar_feed_candles_witness:
  "foldl push_bar [] [sample_bar 60 10, sample_bar 60 11, sample_bar 120 12] = [sample_bar 60 11, sample_bar 120 12] \<and>
   bars_increasing (foldl push_bar [] [sample_bar 60 10, sample_bar 60 11, sample_bar 120 12])"
  using bar_feed_candles [of "[sample_bar 60 10, sample_bar 60 11, sample_bar 120 12]"]
  by (simp add: sample_bar_def push_bar_def bar_time_def)

lemma first_occ_find:
  assumes "\<And>x y. x \<in> set xs \<Longrightarrow> y \<in> set xs \<Longrightarrow> eq x y \<longleftrightarrow> key x = key y" "v \<in> set (first_occ eq xs)"
  shows "List.find (\<lambda>x. key x = key v) xs = Some v"
  using assms
proof (induction xs)
  case (Cons x xs)
  show ?case
  proof (cases "v = x")
    case False
    then have "v \<in> set (first_occ eq xs)" "\<not> eq x v" using Cons.prems(2) by (auto simp: first_occ_Cons split: if_splits)
    then show ?thesis
      using Cons.IH Cons.prems(1) set_first_occ_subset [of eq xs] by auto
  qed simp
qed simp

lemma sorted_distinct_list_of_set:
  "sorted_wrt (<) xs \<Longrightarrow> xs = sorted_list_of_set (set xs)" for xs :: "rat list"
  by (simp add: sorted_list_of_set.idem_if_sorted_distinct strict_sorted_iff)

text \<open>
  Merging two probability histories yields one point per timestamp, in strictly increasing order:
  the latest 4320 timestamps that occur in either list, and where both lists have a point for the same
  timestamp the one of the first list survives.
\<close>

theorem merge_points_spec:
  assumes "list_all (is_fin \<circ> pp_ts) (firsts @ others)"
  shows "map (fin_val \<circ> pp_ts) (merge_points firsts others) =
      slice_last 4320 (sorted_list_of_set ((fin_val \<circ> pp_ts) ` set (firsts @ others))) \<and>
    list_all (\<lambda>v. List.find (\<lambda>x. fin_val (pp_ts x) = fin_val (pp_ts v)) (firsts @ others) = Some v)
      (merge_points firsts others)"
proof -
  let ?ps = "firsts @ others" let ?s = "js_sort cmp_ts (first_occ same_ts ?ps)"
  have ok: "points_ok ?ps" using assms by (simp add: points_ok_def)
  have "map (fin_val \<circ> pp_ts) ?s = sorted_list_of_set ((fin_val \<circ> pp_ts) ` set ?ps)"
    using sorted_distinct_list_of_set [OF merged_sorted [OF ok]] first_occ_ts [OF ok] by simp
  moreover have "List.find (\<lambda>x. fin_val (pp_ts x) = fin_val (pp_ts v)) ?ps = Some v" if "v \<in> set ?s" for v
    using that by (intro first_occ_find [where eq = same_ts])
      (use assms in \<open>auto simp: list_all_iff same_ts_def js_eq_fin_val\<close>)
  ultimately show ?thesis
    using set_slice_last [of 4320 ?s] by (auto simp: merge_points_def map_slice_last list_all_iff simp del: set_js_sort)
qed

theorem merge_points_spec_witness:
  "merge_points [\<lparr>pp_ts = Fin 2, pp_up_pct = Fin 40\<rparr>] [\<lparr>pp_ts = Fin 1, pp_up_pct = Fin 55\<rparr>, \<lparr>pp_ts = Fin 2, pp_up_pct = Fin 99\<rparr>]
     = [\<lparr>pp_ts = Fin 1, pp_up_pct = Fin 55\<rparr>, \<lparr>pp_ts = Fin 2, pp_up_pct = Fin 40\<rparr>] \<and>
   map (fin_val \<circ> pp_ts) (merge_points [\<lparr>pp_ts = Fin 2, pp_up_pct = Fin 40\<rparr>]
     [\<lparr>pp_ts = Fin 1, pp_up_pct = Fin 55\<rparr>, \<lparr>pp_ts = Fin 2, pp_up_pct = Fin 99\<rparr>]) = slice_last 4320 [1, 2]"
proof -
  have s: "sorted_list_of_set {1, 2 :: rat} = [1, 2]" using sorted_distinct_list_of_set [of "[1, 2]"] by simp
  have "merge_points [\<lparr>pp_ts = Fin 2, pp_up_pct = Fin 40\<rparr>] [\<lparr>pp_ts = Fin 1, pp_up_pct = Fin 55\<rparr>, \<lparr>pp_ts = Fin 2, pp_up_pct = Fin 99\<rparr>]
     = [\<lparr>pp_ts = Fin 1, pp_up_pct = Fin 55\<rparr>, \<lparr>pp_ts = Fin 2, pp_up_pct = Fin 40\<rparr>]"
    by (simp add: merge_points_def first_occ_Cons same_ts_def cmp_ts_def)
  then show ?thesis
    using merge_points_spec [of "[\<lparr>pp_ts = Fin 2, pp_up_pct = Fin 40\<rparr>]"
      "[\<lparr>pp_ts = Fin 1, pp_up_pct = Fin 55\<rparr>, \<lparr>pp_ts = Fin 2, pp_up_pct = Fin 99\<rparr>]"] by (simp add: s insert_commute)
qed

end
