(* ===== verification/Store.thy ===== *)
theory Store
  imports Exchange Execution History
begin

text \<open>
  The state of \<open>apps/terminal/src/store/index.ts\<close> and its actions.  An action is a function from state
  to state; those that may throw (a series of an unknown asset, a \<open>null\<close> exchange row) return a result.
  \<open>now\<close> is \<open>Date.now()\<close>, \<open>isoNow\<close> the same instant as \<open>toISOString()\<close> prints it.
  \<open>store_step\<close> collects the actions under one datatype.
\<close>

record terminal_state =
  ss_activeAsset :: asset
  ss_bars :: "bar list dict"
  ss_bands :: "keltner_bands option dict"
  ss_orderBook :: "order_book option dict"
  ss_ticks :: "trade_tick list dict"
  ss_zscore :: "jsnum dict"
  ss_regime :: "regime dict"
  ss_signals :: "signal list dict"
  ss_positions :: "position list"
  ss_trades :: "trade list"
  ss_metrics :: "daily_metrics option"
  ss_copyStatus :: "copy_status option"
  ss_executionPositions :: "exec_position list"
  ss_executionRisk :: "exec_risk option"
  ss_simulationEnabled :: bool
  ss_simOrders :: "sim_order list"
  ss_simPositions :: "sim_position list"
  ss_simMessages :: "string list"
  ss_markets :: "market_info list"
  ss_probHistory :: "prob_point list dict"
  ss_activeMarketKey :: "string option"
  ss_usingLiveData :: bool
  ss_polyBooks :: "poly_book dict"
  ss_polyTicks :: "poly_tick list dict"
  ss_fills :: "poly_tick list dict"
  ss_settlements :: "settlement list"
  ss_connected :: bool
  ss_autoRotate :: bool
  ss_marketProvider :: market_provider
  ss_cryptoPrices :: "crypto_price dict"
  ss_kalshiMarkets :: "kalshi_market list"
  ss_ibkrMarkets :: "ibkr_market list"
  ss_poppedTabs :: "string set"
  ss_bookClickPrice :: "(outcome \<times> jsnum) option"

definition ASSETS :: "asset list" where
  "ASSETS = [''ES'', ''NQ'', ''YM'', ''RTY'', ''CL'', ''GC'', ''ZM'', ''ZS'', ''ES_NQ'', ''YM_ES'', ''RTY_ES'',
     ''BTC'', ''ETH'', ''SOL'', ''XRP'', ''HYPE'', ''BNB'', ''DOGE'', ''EVENT'']"

definition initRecord :: "'v \<Rightarrow> 'v dict" where
  "initRecord v = map (\<lambda>a. (a, v)) ASSETS"

definition initial_state :: terminal_state where
  "initial_state =
     \<lparr>ss_activeAsset = ''ES'', ss_bars = initRecord [], ss_bands = initRecord None, ss_orderBook = initRecord None,
      ss_ticks = initRecord [], ss_zscore = initRecord (Fin 0), ss_regime = initRecord ''medium'',
      ss_signals = initRecord [], ss_positions = [], ss_trades = [], ss_metrics = None, ss_copyStatus = None,
      ss_executionPositions = [], ss_executionRisk = None, ss_simulationEnabled = True, ss_simOrders = [],
      ss_simPositions = [], ss_simMessages = [], ss_markets = [], ss_probHistory = [], ss_activeMarketKey = None,
      ss_usingLiveData = False, ss_polyBooks = [], ss_polyTicks = [], ss_fills = [], ss_settlements = [],
      ss_connected = False, ss_autoRotate = False, ss_marketProvider = CME, ss_cryptoPrices = [],
      ss_kalshiMarkets = [], ss_ibkrMarkets = [], ss_poppedTabs = {}, ss_bookClickPrice = None\<rparr>"

section \<open>Selection\<close>

definition TF_PREF :: "timeframe list" where
  "TF_PREF = [TF_5min, TF_15min, TF_1h, TF_4h]"

text \<open>The first live market of the shortest preferred timeframe that is priced, else the first live one.\<close>

definition undecided :: "market_info \<Rightarrow> bool" where
  "undecided m = (mk_up_pct m = Fin 50 \<and> mk_down_pct m = Fin 50)"

definition best_live :: "market_info list \<Rightarrow> market_info option" where
  "best_live live =
     (case List.map_filter (\<lambda>tf. List.find (\<lambda>m. mk_timeframe m = tf \<and> \<not> undecided m) live) TF_PREF of
        m # _ \<Rightarrow> Some m
      | [] \<Rightarrow> (case live of [] \<Rightarrow> None | m # _ \<Rightarrow> Some m))"

definition live_for :: "asset \<Rightarrow> market_info list \<Rightarrow> market_info list" where
  "live_for a ms = filter (\<lambda>m. mk_asset m = a \<and> mk_live m) ms"

definition find_market :: "string \<Rightarrow> market_info list \<Rightarrow> market_info option" where
  "find_market k ms = List.find (\<lambda>m. mk_key m = k) ms"

definition setActiveAsset :: "asset \<Rightarrow> terminal_state \<Rightarrow> terminal_state" where
  "setActiveAsset a s =
     s\<lparr>ss_activeAsset := a, ss_activeMarketKey := map_option mk_key (best_live (live_for a (ss_markets s)))\<rparr>"

text \<open>A key is an optional string, and the empty string is no key either.\<close>

definition setActiveMarketKey :: "string option \<Rightarrow> terminal_state \<Rightarrow> terminal_state" where
  "setActiveMarketKey k s =
     (case k of None \<Rightarrow> s\<lparr>ss_activeMarketKey := None\<rparr>
      | Some key \<Rightarrow>
          if key = '''' then s\<lparr>ss_activeMarketKey := None\<rparr>
          else (case find_market key (ss_markets s) of
                  None \<Rightarrow> s\<lparr>ss_activeMarketKey := Some key\<rparr>
                | Some m \<Rightarrow> s\<lparr>ss_activeMarketKey := Some key, ss_activeAsset := mk_asset m\<rparr>))"

definition setMarketProvider :: "market_provider \<Rightarrow> terminal_state \<Rightarrow> terminal_state" where
  "setMarketProvider p s = s\<lparr>ss_marketProvider := p\<rparr>"

definition toggleTabPop :: "string \<Rightarrow> terminal_state \<Rightarrow> terminal_state" where
  "toggleTabPop tabId s =
     s\<lparr>ss_poppedTabs := (if tabId \<in> ss_poppedTabs s then ss_poppedTabs s - {tabId} else insert tabId (ss_poppedTabs s))\<rparr>"

section \<open>Market data\<close>

text \<open>Reading a series of an asset without one is \<open>undefined\<close>; using it throws.\<close>

definition pushBar :: "asset \<Rightarrow> bar \<Rightarrow> terminal_state \<Rightarrow> terminal_state js_result" where
  "pushBar asset b s =
     (case dict_get (ss_bars s) asset of None \<Rightarrow> Inl TypeError
      | Some prev \<Rightarrow> Inr (s\<lparr>ss_bars := dict_set asset (push_bar prev b) (ss_bars s)\<rparr>))"

definition setBands :: "asset \<Rightarrow> keltner_bands \<Rightarrow> terminal_state \<Rightarrow> terminal_state" where
  "setBands asset b s = s\<lparr>ss_bands := dict_set asset (Some b) (ss_bands s)\<rparr>"

definition setBook :: "asset \<Rightarrow> order_book \<Rightarrow> terminal_state \<Rightarrow> terminal_state" where
  "setBook asset b s = s\<lparr>ss_orderBook := dict_set asset (Some b) (ss_orderBook s)\<rparr>"

definition pushTick :: "asset \<Rightarrow> trade_tick \<Rightarrow> terminal_state \<Rightarrow> terminal_state js_result" where
  "pushTick asset t s =
     (case dict_get (ss_ticks s) asset of None \<Rightarrow> Inl TypeError
      | Some prev \<Rightarrow> Inr (s\<lparr>ss_ticks := dict_set asset (push_tick prev t) (ss_ticks s)\<rparr>))"

definition setZscore :: "asset \<Rightarrow> jsnum \<Rightarrow> regime \<Rightarrow> terminal_state \<Rightarrow> terminal_state" where
  "setZscore asset z r s = s\<lparr>ss_zscore := dict_set asset z (ss_zscore s), ss_regime := dict_set asset r (ss_regime s)\<rparr>"

definition pushSignal :: "signal \<Rightarrow> terminal_state \<Rightarrow> terminal_state" where
  "pushSignal sig s =
     s\<lparr>ss_signals := dict_set (sg_asset sig) (push_signal (opt_or (dict_get (ss_signals s) (sg_asset sig)) []) sig) (ss_signals s)\<rparr>"

definition setExecutionPositions :: "exec_position list \<Rightarrow> terminal_state \<Rightarrow> terminal_state" where
  "setExecutionPositions p s =
     s\<lparr>ss_executionPositions := markOpenExecutionPositionsFromKnownMarkets p (ss_polyBooks s) (ss_polyTicks s)\<rparr>"

section \<open>The simulated exchange\<close>

definition setSimulationEnabled :: "bool \<Rightarrow> terminal_state \<Rightarrow> terminal_state" where
  "setSimulationEnabled v s =
     s\<lparr>ss_simulationEnabled := v,
       ss_simMessages := push_message (ss_simMessages s) (''Sim Exchange '' @ (if v then ''enabled'' else ''disabled'') @ ''.'')\<rparr>"

definition setSimTradingState :: "rat \<Rightarrow> sim_patch \<Rightarrow> terminal_state \<Rightarrow> terminal_state js_result" where
  "setSimTradingState now patch s =
     (case (case pa_simOrders patch of None \<Rightarrow> Inr (ss_simOrders s) | Some rows \<Rightarrow> map_result (normalizeSimOrder now) rows) of
        Inl e \<Rightarrow> Inl e
      | Inr orders \<Rightarrow>
     (case (case pa_simPositions patch of None \<Rightarrow> Inr (ss_simPositions s) | Some rows \<Rightarrow> map_result (normalizeSimPosition now) rows) of
        Inl e \<Rightarrow> Inl e
      | Inr posns \<Rightarrow>
     (case (case pa_fills patch of None \<Rightarrow> Inr (ss_fills s) | Some fs \<Rightarrow> normalizeExchangeFills now fs) of
        Inl e \<Rightarrow> Inl e
      | Inr fills \<Rightarrow>
          Inr (s\<lparr>ss_simOrders := orders, ss_simPositions := posns, ss_fills := fills,
                 ss_simMessages := opt_or (pa_simMessages patch) (ss_simMessages s)\<rparr>))))"

record order_request =
  rq_id :: "string option"
  rq_marketKey :: string
  rq_outcome :: outcome
  rq_side :: sim_side
  rq_price :: jsnum
  rq_size :: jsnum

definition placeSimOrder :: "rat \<Rightarrow> order_request \<Rightarrow> terminal_state \<Rightarrow> terminal_state \<times> string" where
  "placeSimOrder now ord s =
     (let i = opt_or (rq_id ord)
            (''sim-'' @ rq_marketKey ord @ ''-'' @ outcome_value (rq_outcome ord) @ ''-'' @ side_value (rq_side ord) @ ''-'' @
             jsnum_string (rq_price ord) @ ''-'' @ jsnum_string (Fin now))
      in (s\<lparr>ss_simMessages := push_message (ss_simMessages s)
              (''Order '' @ i @ '' was not applied locally. Waiting for native exchange snapshot.'')\<rparr>, i))"

definition cancelSimOrder :: "string \<Rightarrow> terminal_state \<Rightarrow> terminal_state" where
  "cancelSimOrder i s =
     s\<lparr>ss_simMessages := push_message (ss_simMessages s) (''Cancel '' @ i @ '' must be confirmed by the native exchange.'')\<rparr>"

definition cancelSimOrders :: "terminal_state \<Rightarrow> terminal_state" where
  "cancelSimOrders s =
     s\<lparr>ss_simMessages := push_message (ss_simMessages s) ''Cancel-all must be confirmed by the native exchange.''\<rparr>"

definition resetTradingSession :: "string \<Rightarrow> terminal_state \<Rightarrow> terminal_state" where
  "resetTradingSession isoNow s =
     s\<lparr>ss_executionPositions := [], ss_executionRisk := None, ss_simOrders := [], ss_simPositions := [], ss_fills := [],
       ss_simMessages := [''Session reset '' @ isoNow @ ''. Local orders, fills, and positions cleared.'']\<rparr>"

section \<open>Markets\<close>

text \<open>Markets of the batch whose slot has moved to another contract.\<close>

definition rotated :: "market_info list \<Rightarrow> market_info \<Rightarrow> bool" where
  "rotated olds m =
     (mk_condition_id m \<noteq> '''' \<and>
      (case find_market (mk_key m) olds of
         None \<Rightarrow> False
       | Some prev \<Rightarrow> mk_condition_id prev \<noteq> '''' \<and> mk_condition_id prev \<noteq> mk_condition_id m))"

definition drop_rotated :: "market_info list \<Rightarrow> market_info list \<Rightarrow> 'v dict \<Rightarrow> 'v dict" where
  "drop_rotated olds incoming d = foldl (\<lambda>d m. if rotated olds m then dict_del (mk_key m) d else d) d incoming"

definition seed_history :: "prob_point list dict \<Rightarrow> market_info \<Rightarrow> prob_point list dict" where
  "seed_history hist m =
     (case mk_prob_history m of
        Some (p # ps) \<Rightarrow> dict_set (mk_key m) (merge_points (opt_or (dict_get hist (mk_key m)) []) (p # ps)) hist
      | _ \<Rightarrow> hist)"

definition strip_history :: "market_info \<Rightarrow> market_info" where
  "strip_history m = m\<lparr>mk_prob_history := None\<rparr>"

text \<open>
  The selected market stays while it is live.  Otherwise the selection moves to the best live market of
  the asset named by the first part of the selected key, or to any live market.
\<close>

definition active_is_live :: "string option \<Rightarrow> market_info list \<Rightarrow> bool" where
  "active_is_live activeKey updated =
     (case activeKey of None \<Rightarrow> False
      | Some k \<Rightarrow> k \<noteq> '''' \<and> (case find_market k updated of None \<Rightarrow> False | Some c \<Rightarrow> mk_live c))"

definition rollover_asset :: "string option \<Rightarrow> market_info list \<Rightarrow> asset" where
  "rollover_asset activeKey updated =
     (let key = opt_or activeKey '''' in
      if key \<noteq> '''' then hd (split_at_char (CHR ''_'') key)
      else (case List.find mk_live updated of Some m \<Rightarrow> mk_asset m | None \<Rightarrow> ''ES''))"

definition next_active_key :: "bool \<Rightarrow> string option \<Rightarrow> market_info list \<Rightarrow> string option" where
  "next_active_key hasLive activeKey updated =
     (if hasLive \<and> \<not> active_is_live activeKey updated
      then (case best_live (live_for (rollover_asset activeKey updated) updated) of
              Some best \<Rightarrow> Some (mk_key best)
            | None \<Rightarrow> (case List.find mk_live updated of Some best \<Rightarrow> Some (mk_key best) | None \<Rightarrow> activeKey))
      else activeKey)"

definition setMarkets :: "market_info list \<Rightarrow> bool \<Rightarrow> terminal_state \<Rightarrow> terminal_state" where
  "setMarkets incoming live s =
     (let updatedMarkets = map strip_history incoming;
          hasLive = (live \<or> list_ex mk_live incoming \<or> ss_usingLiveData s)
      in s\<lparr>ss_markets := updatedMarkets,
           ss_probHistory := foldl seed_history (drop_rotated (ss_markets s) incoming (ss_probHistory s)) incoming,
           ss_fills := filter (\<lambda>(k, _). k \<in> mk_key ` set incoming) (ss_fills s),
           ss_polyTicks := drop_rotated (ss_markets s) incoming (ss_polyTicks s),
           ss_polyBooks := drop_rotated (ss_markets s) incoming (ss_polyBooks s),
           ss_usingLiveData := hasLive,
           ss_activeMarketKey := next_active_key hasLive (ss_activeMarketKey s) updatedMarkets\<rparr>)"

definition book_seen :: "poly_book \<Rightarrow> jsnum" where
  "book_seen b = opt_or (pb_seen_ms b) (pb_timestamp_ms b)"

definition setPolyBook :: "string \<Rightarrow> poly_book \<Rightarrow> terminal_state \<Rightarrow> terminal_state" where
  "setPolyBook key book s =
     (case dict_get (ss_polyBooks s) key of
        Some prev \<Rightarrow> if js_lt (book_seen book) (book_seen prev) then s
                     else s\<lparr>ss_polyBooks := dict_set key book (ss_polyBooks s)\<rparr>
      | None \<Rightarrow> s\<lparr>ss_polyBooks := dict_set key book (ss_polyBooks s)\<rparr>)"

definition pushPolyTick :: "string \<Rightarrow> poly_tick \<Rightarrow> terminal_state \<Rightarrow> terminal_state" where
  "pushPolyTick key tick s =
     (let prev = opt_or (dict_get (ss_polyTicks s) key) [] in
      if prev \<noteq> [] \<and> same_tick (last prev) tick then s
      else s\<lparr>ss_polyTicks := dict_set key (push_poly_tick prev tick) (ss_polyTicks s)\<rparr>)"

definition pushPolyFill :: "string \<Rightarrow> poly_tick \<Rightarrow> terminal_state \<Rightarrow> terminal_state" where
  "pushPolyFill key tick s =
     (let prev = opt_or (dict_get (ss_fills s) key) [] in
      if list_ex (\<lambda>f. tickKey f = tickKey tick) prev then s
      else s\<lparr>ss_fills := dict_set key (push_fill prev tick) (ss_fills s)\<rparr>)"

definition mergeProbHistory :: "string \<Rightarrow> prob_point list \<Rightarrow> terminal_state \<Rightarrow> terminal_state" where
  "mergeProbHistory key points s =
     s\<lparr>ss_probHistory := dict_set key (merge_points points (opt_or (dict_get (ss_probHistory s) key) [])) (ss_probHistory s)\<rparr>"

section \<open>Snapshots\<close>

record order_state =
  os_simOrders :: "sim_order list option"
  os_simPositions :: "sim_position list option"
  os_fills :: "poly_tick list dict option"
  os_simMessages :: "string list option"

record snapshot =
  sn_bars :: "bar list option"
  sn_bands :: "keltner_bands option"
  sn_zscore :: "jsnum option"
  sn_regime :: "regime option"
  sn_signals :: "signal list option"
  sn_positions :: "position list option"
  sn_metrics :: "daily_metrics option"
  sn_copy_status :: "copy_status option"
  sn_execution_positions :: "exec_position list option"
  sn_execution_risk :: "exec_risk option"
  sn_poly_books :: "poly_book dict option"
  sn_poly_ticks :: "poly_tick list dict option"
  sn_order_state :: "order_state option"
  sn_markets :: "market_info list option"
  sn_settlements :: "settlement list option"

definition snapshot_market_data :: "asset \<Rightarrow> snapshot \<Rightarrow> terminal_state \<Rightarrow> terminal_state" where
  "snapshot_market_data asset data s =
     (let books = dict_merge (ss_polyBooks s) (opt_or (sn_poly_books data) []);
          ticks = dict_merge (ss_polyTicks s) (opt_or (sn_poly_ticks data) [])
      in s\<lparr>ss_bars := dict_set asset (opt_or (sn_bars data) []) (ss_bars s),
           ss_bands := dict_set asset (sn_bands data) (ss_bands s),
           ss_zscore := dict_set asset (opt_or (sn_zscore data) (Fin 0)) (ss_zscore s),
           ss_regime := dict_set asset (opt_or (sn_regime data) ''medium'') (ss_regime s),
           ss_signals := dict_set asset (map (\<lambda>sig. sig\<lparr>sg_model := normalizeModel (sg_model sig)\<rparr>) (opt_or (sn_signals data) []))
             (ss_signals s),
           ss_positions := opt_or (sn_positions data) [],
           ss_metrics := sn_metrics data,
           ss_copyStatus := sn_copy_status data,
           ss_executionPositions :=
             markOpenExecutionPositionsFromKnownMarkets (opt_or (sn_execution_positions data) []) books ticks,
           ss_executionRisk := sn_execution_risk data,
           ss_polyBooks := books,
           ss_polyTicks := ticks\<rparr>)"

definition snapshot_orders :: "snapshot \<Rightarrow> terminal_state \<Rightarrow> terminal_state" where
  "snapshot_orders data s =
     (case sn_order_state data of None \<Rightarrow> s
      | Some o' \<Rightarrow> s\<lparr>ss_simOrders := opt_or (os_simOrders o') (ss_simOrders s),
                     ss_simPositions := opt_or (os_simPositions o') (ss_simPositions s),
                     ss_fills := opt_or (os_fills o') (ss_fills s),
                     ss_simMessages := opt_or (os_simMessages o') (ss_simMessages s)\<rparr>)"

text \<open>Each market of the snapshot is merged with the history the store had before the snapshot.\<close>

definition seed_from :: "prob_point list dict \<Rightarrow> prob_point list dict \<Rightarrow> market_info \<Rightarrow> prob_point list dict" where
  "seed_from old hist m =
     (case mk_prob_history m of
        Some (p # ps) \<Rightarrow> dict_set (mk_key m) (merge_points (opt_or (dict_get old (mk_key m)) []) (p # ps)) hist
      | _ \<Rightarrow> hist)"

definition snapshot_markets :: "snapshot \<Rightarrow> terminal_state \<Rightarrow> terminal_state" where
  "snapshot_markets data s =
     (case sn_markets data of None \<Rightarrow> s
      | Some ms \<Rightarrow> s\<lparr>ss_markets := map strip_history ms,
                     ss_probHistory := foldl (seed_from (ss_probHistory s)) (ss_probHistory s) ms,
                     ss_usingLiveData := (list_ex mk_live ms \<or> ss_usingLiveData s)\<rparr>)"

definition loadSnapshot :: "asset \<Rightarrow> snapshot \<Rightarrow> terminal_state \<Rightarrow> terminal_state" where
  "loadSnapshot asset data s = snapshot_markets data (snapshot_orders data (snapshot_market_data asset data s))"

section \<open>All actions\<close>

datatype store_action =
    A_setActiveAsset asset
  | A_setActiveMarketKey "string option"
  | A_setMarketProvider market_provider
  | A_setAutoRotate bool
  | A_setConnected bool
  | A_toggleTabPop string
  | A_setBookClickPrice "(outcome \<times> jsnum) option"
  | A_setCryptoPrices "crypto_price dict"
  | A_setKalshiMarkets "kalshi_market list"
  | A_setIbkrMarkets "ibkr_market list"
  | A_pushBar asset bar
  | A_setBands asset keltner_bands
  | A_setBook asset order_book
  | A_pushTick asset trade_tick
  | A_setZscore asset jsnum regime
  | A_pushSignal signal
  | A_setPositions "position list"
  | A_setMetrics daily_metrics
  | A_setCopyStatus copy_status
  | A_setExecutionPositions "exec_position list"
  | A_setExecutionRisk exec_risk
  | A_setSimulationEnabled bool
  | A_setSimTradingState sim_patch
  | A_placeSimOrder order_request
  | A_cancelSimOrder string
  | A_cancelSimOrders
  | A_clearSimMessages
  | A_resetTradingSession
  | A_setMarkets "market_info list" bool
  | A_setPolyBook string poly_book
  | A_pushPolyTick string poly_tick
  | A_pushPolyFill string poly_tick
  | A_setSettlements "settlement list"
  | A_mergeProbHistory string "prob_point list"
  | A_loadSnapshot asset snapshot

fun store_step :: "rat \<Rightarrow> string \<Rightarrow> terminal_state \<Rightarrow> store_action \<Rightarrow> terminal_state js_result" where
  "store_step now isoNow s (A_setActiveAsset a) = Inr (setActiveAsset a s)"
| "store_step now isoNow s (A_setActiveMarketKey k) = Inr (setActiveMarketKey k s)"
| "store_step now isoNow s (A_setMarketProvider p) = Inr (setMarketProvider p s)"
| "store_step now isoNow s (A_setAutoRotate v) = Inr (s\<lparr>ss_autoRotate := v\<rparr>)"
| "store_step now isoNow s (A_setConnected v) = Inr (s\<lparr>ss_connected := v\<rparr>)"
| "store_step now isoNow s (A_toggleTabPop t) = Inr (toggleTabPop t s)"
| "store_step now isoNow s (A_setBookClickPrice v) = Inr (s\<lparr>ss_bookClickPrice := v\<rparr>)"
| "store_step now isoNow s (A_setCryptoPrices d) = Inr (s\<lparr>ss_cryptoPrices := d\<rparr>)"
| "store_step now isoNow s (A_setKalshiMarkets m) = Inr (s\<lparr>ss_kalshiMarkets := m\<rparr>)"
| "store_step now isoNow s (A_setIbkrMarkets m) = Inr (s\<lparr>ss_ibkrMarkets := m\<rparr>)"
| "store_step now isoNow s (A_pushBar a b) = pushBar a b s"
| "store_step now isoNow s (A_setBands a b) = Inr (setBands a b s)"
| "store_step now isoNow s (A_setBook a b) = Inr (setBook a b s)"
| "store_step now isoNow s (A_pushTick a t) = pushTick a t s"
| "store_step now isoNow s (A_setZscore a z r) = Inr (setZscore a z r s)"
| "store_step now isoNow s (A_pushSignal sig) = Inr (pushSignal sig s)"
| "store_step now isoNow s (A_setPositions p) = Inr (s\<lparr>ss_positions := p\<rparr>)"
| "store_step now isoNow s (A_setMetrics m) = Inr (s\<lparr>ss_metrics := Some m\<rparr>)"
| "store_step now isoNow s (A_setCopyStatus c) = Inr (s\<lparr>ss_copyStatus := Some c\<rparr>)"
| "store_step now isoNow s (A_setExecutionPositions p) = Inr (setExecutionPositions p s)"
| "store_step now isoNow s (A_setExecutionRisk r) = Inr (s\<lparr>ss_executionRisk := Some r\<rparr>)"
| "store_step now isoNow s (A_setSimulationEnabled v) = Inr (setSimulationEnabled v s)"
| "store_step now isoNow s (A_setSimTradingState p) = setSimTradingState now p s"
| "store_step now isoNow s (A_placeSimOrder r) = Inr (fst (placeSimOrder now r s))"
| "store_step now isoNow s (A_cancelSimOrder i) = Inr (cancelSimOrder i s)"
| "store_step now isoNow s A_cancelSimOrders = Inr (cancelSimOrders s)"
| "store_step now isoNow s A_clearSimMessages = Inr (s\<lparr>ss_simMessages := []\<rparr>)"
| "store_step now isoNow s A_resetTradingSession = Inr (resetTradingSession isoNow s)"
| "store_step now isoNow s (A_setMarkets ms live) = Inr (setMarkets ms live s)"
| "store_step now isoNow s (A_setPolyBook k b) = Inr (setPolyBook k b s)"
| "store_step now isoNow s (A_pushPolyTick k t) = Inr (pushPolyTick k t s)"
| "store_step now isoNow s (A_pushPolyFill k t) = Inr (pushPolyFill k t s)"
| "store_step now isoNow s (A_setSettlements st) = Inr (s\<lparr>ss_settlements := st\<rparr>)"
| "store_step now isoNow s (A_mergeProbHistory k ps) = Inr (mergeProbHistory k ps s)"
| "store_step now isoNow s (A_loadSnapshot a d) = Inr (loadSnapshot a d s)"

end
