(* ===== verification/StoreProps.thy ===== *)
theory StoreProps
  imports Store
begin

text \<open>
  Properties of the store (\<open>apps/terminal/src/store/index.ts\<close>): the bounds and orders every reachable
  state keeps, the roll-over of market slots, the selection of a live market and the rejection of
  stale books.
\<close>

named_theorems store_defs \<open>definitions of the store's actions\<close>

lemmas [store_defs] = setActiveAsset_def setActiveMarketKey_def setMarketProvider_def toggleTabPop_def
  setBands_def setBook_def setZscore_def setExecutionPositions_def setSimulationEnabled_def placeSimOrder_def
  cancelSimOrder_def cancelSimOrders_def resetTradingSession_def

section \<open>Dictionaries of series\<close>

definition dict_all :: "('v \<Rightarrow> bool) \<Rightarrow> 'v dict \<Rightarrow> bool" where
  "dict_all P d = list_all (P \<circ> snd) d"

lemma dict_all_Nil [simp]: "dict_all P []"
  by (simp add: dict_all_def)

lemma dict_all_init [simp]: "P v \<Longrightarrow> dict_all P (initRecord v)"
  by (simp add: dict_all_def initRecord_def list_all_iff)

lemma dict_all_set [simp]: "dict_all P d \<Longrightarrow> P v \<Longrightarrow> dict_all P (dict_set k v d)"
  by (induction d) (auto simp: dict_all_def)

lemma dict_all_filter [simp]: "dict_all P d \<Longrightarrow> dict_all P (filter Q d)"
  by (auto simp: dict_all_def list_all_iff)

lemma dict_all_del [simp]: "dict_all P d \<Longrightarrow> dict_all P (dict_del k d)"
  by (induction d) (auto simp: dict_all_def)

lemma dict_all_get: "dict_all P d \<Longrightarrow> dict_get d k = Some v \<Longrightarrow> P v"
  by (force simp: dict_all_def list_all_iff dest: map_of_SomeD)

lemma dict_all_opt: "dict_all P d \<Longrightarrow> P e \<Longrightarrow> P (opt_or (dict_get d k) e)"
  by (cases "dict_get d k") (auto dest: dict_all_get)

lemma dict_all_merge: "dict_all P a \<Longrightarrow> dict_all P b \<Longrightarrow> dict_all P (dict_merge a b)"
proof (induction b arbitrary: a)
  case (Cons kv b)
  then show ?case by (cases kv) (simp add: dict_merge_def dict_all_def [of P "_ # _"] flip: dict_all_def)
qed (simp add: dict_merge_def)

lemma dict_all_rotated: "dict_all P d \<Longrightarrow> dict_all P (drop_rotated olds ms d)"
  unfolding drop_rotated_def by (induction ms arbitrary: d) auto

section \<open>The bounds of the state\<close>

text \<open>
  The caps of the store, and for every kind of list the length \<open>K\<close> of the longest that a message brought whole: the
  store takes such a list as it is, so a list is bounded by its cap and by that length.
\<close>

datatype list_kind = K_bars | K_signals | K_tape | K_fills | K_messages

definition store_within :: "(list_kind \<Rightarrow> nat) \<Rightarrow> terminal_state \<Rightarrow> bool" where
  "store_within K s =
     (dict_all (\<lambda>xs. length xs \<le> max 4500 (K K_bars)) (ss_bars s) \<and> dict_all (\<lambda>xs. length xs \<le> 50) (ss_ticks s) \<and>
      dict_all (\<lambda>xs. length xs \<le> max 8 (K K_signals)) (ss_signals s) \<and>
      dict_all (\<lambda>xs. length xs \<le> max 200 (K K_tape)) (ss_polyTicks s) \<and>
      dict_all (\<lambda>xs. length xs \<le> max 100 (K K_fills)) (ss_fills s) \<and> length (ss_simMessages s) \<le> max 50 (K K_messages) \<and>
      dict_all series_ok (ss_probHistory s) \<and>
      set ASSETS \<subseteq> dom (dict_get (ss_bars s)) \<and> set ASSETS \<subseteq> dom (dict_get (ss_ticks s)))"

abbreviation store_ok :: "terminal_state \<Rightarrow> bool" where
  "store_ok \<equiv> store_within (\<lambda>_. 0)"

text \<open>The times of the probability points of a message are numbers, as all numbers of a JSON text are.\<close>

definition market_points_ok :: "market_info list \<Rightarrow> bool" where
  "market_points_ok ms = list_all (\<lambda>m. points_ok (opt_or (mk_prob_history m) [])) ms"

definition points_finite :: "store_action \<Rightarrow> bool" where
  "points_finite a =
     (case a of A_setMarkets ms _ \<Rightarrow> market_points_ok ms | A_mergeProbHistory _ ps \<Rightarrow> points_ok ps
      | A_loadSnapshot _ d \<Rightarrow> market_points_ok (opt_or (sn_markets d) []) | _ \<Rightarrow> True)"

text \<open>The length of the longest list of a kind in a message.\<close>

definition longest :: "'v list dict \<Rightarrow> nat" where
  "longest d = foldr (max \<circ> length \<circ> snd) d 0"

definition payload_size :: "store_action \<Rightarrow> list_kind \<Rightarrow> nat" where
  "payload_size a k =
     (case a of
        A_setSimTradingState p \<Rightarrow>
          (case k of K_fills \<Rightarrow> longest (opt_or (pa_fills p) []) | K_messages \<Rightarrow> length (opt_or (pa_simMessages p) []) | _ \<Rightarrow> 0)
      | A_loadSnapshot _ d \<Rightarrow>
          (case k of
             K_bars \<Rightarrow> length (opt_or (sn_bars d) [])
           | K_signals \<Rightarrow> length (opt_or (sn_signals d) [])
           | K_tape \<Rightarrow> longest (opt_or (sn_poly_ticks d) [])
           | K_fills \<Rightarrow> (case sn_order_state d of None \<Rightarrow> 0 | Some p \<Rightarrow> longest (opt_or (os_fills p) []))
           | K_messages \<Rightarrow> (case sn_order_state d of None \<Rightarrow> 0 | Some p \<Rightarrow> length (opt_or (os_simMessages p) [])))
      | _ \<Rightarrow> 0)"

definition snapshot_ok :: "(list_kind \<Rightarrow> nat) \<Rightarrow> snapshot \<Rightarrow> bool" where
  "snapshot_ok K d =
     (length (opt_or (sn_bars d) []) \<le> max 4500 (K K_bars) \<and> length (opt_or (sn_signals d) []) \<le> max 8 (K K_signals) \<and>
      dict_all (\<lambda>xs. length xs \<le> max 200 (K K_tape)) (opt_or (sn_poly_ticks d) []) \<and>
      (case sn_order_state d of None \<Rightarrow> True
       | Some p \<Rightarrow> dict_all (\<lambda>xs. length xs \<le> max 100 (K K_fills)) (opt_or (os_fills p) []) \<and>
           length (opt_or (os_simMessages p) []) \<le> max 50 (K K_messages)) \<and>
      market_points_ok (opt_or (sn_markets d) []))"

definition payload_ok :: "(list_kind \<Rightarrow> nat) \<Rightarrow> store_action \<Rightarrow> bool" where
  "payload_ok K a =
     (case a of
        A_setSimTradingState p \<Rightarrow>
          dict_all (\<lambda>xs. length xs \<le> max 100 (K K_fills)) (opt_or (pa_fills p) []) \<and>
          length (opt_or (pa_simMessages p) []) \<le> max 50 (K K_messages)
      | A_setMarkets ms _ \<Rightarrow> market_points_ok ms
      | A_mergeProbHistory _ ps \<Rightarrow> points_ok ps
      | A_loadSnapshot _ d \<Rightarrow> snapshot_ok K d
      | _ \<Rightarrow> True)"

abbreviation action_ok :: "store_action \<Rightarrow> bool" where
  "action_ok \<equiv> payload_ok (\<lambda>_. 0)"

lemma dict_all_longest: "longest d \<le> n \<Longrightarrow> dict_all (\<lambda>xs. length xs \<le> n) d"
  by (induction d) (auto simp: longest_def dict_all_def)

lemma payload_of_size: "points_finite a \<Longrightarrow> payload_size a \<le> K \<Longrightarrow> payload_ok K a"
proof (cases a)
  case (A_setSimTradingState p)
  then show "points_finite a \<Longrightarrow> payload_size a \<le> K \<Longrightarrow> payload_ok K a"
    by (auto simp: payload_ok_def payload_size_def le_fun_def intro!: dict_all_longest dest: spec [of _ K_fills] spec [of _ K_messages])
next
  case (A_loadSnapshot x d)
  assume "points_finite a" and le: "payload_size a \<le> K"
  have k: "payload_size a k \<le> K k" for k using le by (simp add: le_fun_def)
  from k [of K_bars] k [of K_signals] k [of K_tape] k [of K_fills] k [of K_messages] \<open>points_finite a\<close> show "payload_ok K a"
    by (auto simp: A_loadSnapshot payload_ok_def points_finite_def snapshot_ok_def payload_size_def intro!: dict_all_longest split: option.splits)
qed (simp_all add: payload_ok_def points_finite_def)


lemma push_fill_bound: "length xs \<le> max 100 (K K_fills) \<Longrightarrow> length (push_fill xs v) \<le> max 100 (K K_fills)"
  by (rule fill_series.push_within)

lemma series_points: "series_ok ps \<Longrightarrow> points_ok ps"
  by (simp add: series_ok_def)

lemma series_ok_Nil [simp]: "series_ok []"
  by (simp add: series_ok_def points_ok_def)

lemma history_merge_ok: "dict_all series_ok h \<Longrightarrow> points_ok ps \<Longrightarrow> series_ok (merge_points (opt_or (dict_get h k) []) ps)"
  by (rule merge_points_ok [OF series_points]) (simp_all add: dict_all_opt [where P = series_ok])

lemma seed_from_ok:
  assumes "dict_all series_ok old" "dict_all series_ok h" "points_ok (opt_or (mk_prob_history m) [])"
  shows "dict_all series_ok (seed_from old h m)"
  using assms history_merge_ok [of old _ "mk_key m"] by (auto simp: seed_from_def split: option.splits list.splits)

lemma seed_history_from: "seed_history h = seed_from h h"
  by (rule ext) (simp add: seed_history_def seed_from_def)

lemma seeds_ok: "market_points_ok ms \<Longrightarrow> dict_all series_ok h \<Longrightarrow> dict_all series_ok (foldl seed_history h ms)"
  by (induction ms arbitrary: h) (auto simp: market_points_ok_def seed_history_from seed_from_ok)

lemma seeds_from_ok:
  "market_points_ok ms \<Longrightarrow> dict_all series_ok old \<Longrightarrow> dict_all series_ok h \<Longrightarrow> dict_all series_ok (foldl (seed_from old) h ms)"
  by (induction ms arbitrary: h) (auto simp: market_points_ok_def seed_from_ok)

lemma fills_lengths: "normalizeExchangeFills now fs = Inr out \<Longrightarrow> dict_all (\<lambda>xs. length xs \<le> max 100 (K K_fills)) fs \<Longrightarrow>
    dict_all (\<lambda>xs. length xs \<le> max 100 (K K_fills)) out"
  unfolding normalizeExchangeFills_def
proof (induction fs arbitrary: out)
  case (Cons kr fs)
  obtain k rows where kr: "kr = (k, rows)" by fastforce
  show ?case
    using Cons fill_rows_cases [where now = now and k = k and n = 0 and rows = rows] kr
    by (auto simp: dict_all_def split: sum.splits)
qed simp

lemma initial_ok: "store_within K initial_state"
  by (auto simp: store_within_def initial_state_def initRecord_def dom_map_of_conv_image_fst dict_all_def list_all_iff image_image)

lemma dom_dict_set: "dom (dict_get (dict_set k v d)) = insert k (dom (dict_get d))"
  by (auto simp: dom_def)

lemma pushBar_ok:
  assumes "store_within K s" "pushBar a b s = Inr s'"
  shows "store_within K s'"
proof -
  obtain prev where p: "dict_get (ss_bars s) a = Some prev" "s' = s\<lparr>ss_bars := dict_set a (push_bar prev b) (ss_bars s)\<rparr>"
    using assms(2) by (auto simp: pushBar_def split: option.splits)
  have "length prev \<le> max 4500 (K K_bars)"
    using dict_all_get [of "\<lambda>xs. length xs \<le> max 4500 (K K_bars)", OF _ p(1)] assms(1) by (simp add: store_within_def)
  then show ?thesis using assms(1) p(2) by (auto simp: store_within_def dom_dict_set bar_series.push_within)
qed

lemma pushTick_ok:
  assumes "store_within K s" "pushTick a t s = Inr s'"
  shows "store_within K s'"
proof -
  obtain prev where p: "dict_get (ss_ticks s) a = Some prev" "s' = s\<lparr>ss_ticks := dict_set a (push_tick prev t) (ss_ticks s)\<rparr>"
    using assms(2) by (auto simp: pushTick_def split: option.splits)
  have "length prev \<le> 50"
    using dict_all_get [of "\<lambda>xs. length xs \<le> 50", OF _ p(1)] assms(1) by (simp add: store_within_def)
  then show ?thesis using assms(1) p(2) by (auto simp: store_within_def dom_dict_set tick_series.push_bound)
qed

lemma pushSignal_ok: "store_within K s \<Longrightarrow> store_within K (pushSignal sig s)"
  by (auto simp: pushSignal_def store_within_def intro!: dict_all_set signal_series.push_within dict_all_opt [where P = "\<lambda>xs. length xs \<le> max 8 (K K_signals)"])

lemma pushPolyTick_ok: "store_within K s \<Longrightarrow> store_within K (pushPolyTick k t s)"
  by (auto simp: pushPolyTick_def store_within_def Let_def
      intro!: dict_all_set poly_series.push_within dict_all_opt [where P = "\<lambda>xs. length xs \<le> max 200 (K K_tape)"])

lemma pushPolyFill_ok: "store_within K s \<Longrightarrow> store_within K (pushPolyFill k t s)"
  by (auto simp: pushPolyFill_def store_within_def Let_def
      intro!: dict_all_set push_fill_bound dict_all_opt [where P = "\<lambda>xs. length xs \<le> max 100 (K K_fills)"])

lemma setPolyBook_ok: "store_within K s \<Longrightarrow> store_within K (setPolyBook k t s)"
  by (auto simp: setPolyBook_def store_within_def split: option.splits)

lemma mergeProbHistory_ok: "store_within K s \<Longrightarrow> points_ok ps \<Longrightarrow> store_within K (mergeProbHistory k ps s)"
  by (auto simp: mergeProbHistory_def store_within_def intro!: dict_all_set merge_points_ok series_points
      dict_all_opt [where P = series_ok])

lemma setMarkets_ok: "store_within K s \<Longrightarrow> market_points_ok ms \<Longrightarrow> store_within K (setMarkets ms live s)"
  by (auto simp: setMarkets_def store_within_def Let_def seeds_ok dict_all_rotated)

lemma setSimTradingState_ok:
  assumes "store_within K s" "payload_ok K (A_setSimTradingState p)" "setSimTradingState now p s = Inr s'"
  shows "store_within K s'"
proof -
  obtain os ps fs where s': "s' = s\<lparr>ss_simOrders := os, ss_simPositions := ps, ss_fills := fs,
      ss_simMessages := opt_or (pa_simMessages p) (ss_simMessages s)\<rparr>"
    "(case pa_fills p of None \<Rightarrow> Inr (ss_fills s) | Some f \<Rightarrow> normalizeExchangeFills now f) = Inr fs"
    using assms(3) by (auto simp: setSimTradingState_def split: sum.splits)
  have "dict_all (\<lambda>xs. length xs \<le> max 100 (K K_fills)) fs"
    using s'(2) assms(1,2) by (auto simp: store_within_def payload_ok_def fills_lengths split: option.splits)
  moreover have "length (opt_or (pa_simMessages p) (ss_simMessages s)) \<le> max 50 (K K_messages)"
    using assms(1,2) by (cases "pa_simMessages p") (auto simp: payload_ok_def store_within_def)
  ultimately show ?thesis using assms(1) by (simp add: s'(1) store_within_def)
qed

lemma snapshot_market_data_ok: "store_within K s \<Longrightarrow> snapshot_ok K d \<Longrightarrow> store_within K (snapshot_market_data a d s)"
  by (auto simp: snapshot_market_data_def store_within_def snapshot_ok_def Let_def dom_dict_set dict_all_merge)

lemma snapshot_orders_ok:
  assumes "store_within K s" "snapshot_ok K d"
  shows "store_within K (snapshot_orders d s)"
proof (cases "sn_order_state d")
  case (Some p)
  have "dict_all (\<lambda>xs. length xs \<le> max 100 (K K_fills)) (opt_or (os_fills p) (ss_fills s))"
    using assms Some by (cases "os_fills p") (auto simp: snapshot_ok_def store_within_def)
  moreover have "length (opt_or (os_simMessages p) (ss_simMessages s)) \<le> max 50 (K K_messages)"
    using assms Some by (cases "os_simMessages p") (auto simp: snapshot_ok_def store_within_def)
  ultimately show ?thesis using assms(1) Some by (simp add: snapshot_orders_def store_within_def)
qed (use assms in \<open>simp add: snapshot_orders_def\<close>)

lemma snapshot_markets_ok: "store_within K s \<Longrightarrow> snapshot_ok K d \<Longrightarrow> store_within K (snapshot_markets d s)"
  by (cases "sn_markets d") (auto simp: snapshot_markets_def store_within_def snapshot_ok_def seeds_from_ok)

lemma loadSnapshot_ok: "store_within K s \<Longrightarrow> snapshot_ok K d \<Longrightarrow> store_within K (loadSnapshot a d s)"
  by (simp add: loadSnapshot_def snapshot_markets_ok snapshot_orders_ok snapshot_market_data_ok)

lemma unbounded_ok:
  "store_within K s \<Longrightarrow> store_within K (setActiveAsset a s)"
  "store_within K s \<Longrightarrow> store_within K (setActiveMarketKey k s)"
  "store_within K s \<Longrightarrow> store_within K (resetTradingSession isoNow s)"
  "store_within K s \<Longrightarrow> store_within K (setSimulationEnabled v s)"
  "store_within K s \<Longrightarrow> store_within K (fst (placeSimOrder now r s))"
  "store_within K s \<Longrightarrow> store_within K (cancelSimOrder i s)"
  "store_within K s \<Longrightarrow> store_within K (cancelSimOrders s)"
  by (auto simp: store_defs store_within_def message_log.push_within Let_def split: option.splits)

lemma store_step_ok:
  assumes "store_within K s" "payload_ok K a" "store_step now isoNow s a = Inr s'"
  shows "store_within K s'"
proof (cases a)
  case (A_pushBar x b)
  then show ?thesis using assms pushBar_ok by simp
next
  case (A_pushTick x b)
  then show ?thesis using assms pushTick_ok by simp
next
  case (A_setSimTradingState p)
  then show ?thesis using assms setSimTradingState_ok by simp
qed (use assms in \<open>auto simp: unbounded_ok pushSignal_ok pushPolyTick_ok pushPolyFill_ok setPolyBook_ok
      mergeProbHistory_ok setMarkets_ok loadSnapshot_ok payload_ok_def;
      simp add: store_within_def store_defs\<close>)+

text \<open>A run of the store: an action that throws leaves the state as it was.\<close>

definition store_run :: "(rat \<times> string \<times> store_action) list \<Rightarrow> terminal_state \<Rightarrow> terminal_state" where
  "store_run acts s = foldl (\<lambda>s (now, isoNow, a). case store_step now isoNow s a of Inr s' \<Rightarrow> s' | Inl _ \<Rightarrow> s) s acts"

lemma store_run_ok:
  "store_within K s \<Longrightarrow> \<forall>(now, isoNow, a) \<in> set acts. payload_ok K a \<Longrightarrow> store_within K (store_run acts s)"
  by (induction acts arbitrary: s) (auto simp: store_run_def store_step_ok split: sum.splits)


section \<open>Properties\<close>

text \<open>
  C1. Whatever actions the feeds and the user trigger, snapshots and replacing messages of any size included, every
  history of the store stays within its cap (4500 bars, 50 ticks, 8 signals, 200 tape ticks, 100 fills, 50 messages) or
  within the longest list of its kind that a message brought whole, and never grows beyond that; every probability
  history is strictly increasing in time with at most 4320 points however long the lists that arrive, and every
  known asset keeps its bar and tick series, so that pushing a bar or a tick of a known asset never throws.  The times
  of probability points are numbers, as in every JSON text.
\<close>

theorem terminal_state_bounded:
  assumes "\<forall>(now, isoNow, a) \<in> set acts. points_finite a"
  defines "s \<equiv> store_run acts initial_state"
    and "K \<equiv> \<lambda>k. Max (insert 0 ((\<lambda>(now, isoNow, a). payload_size a k) ` set acts))"
  shows "store_within K s \<and> (\<forall>a \<in> set ASSETS. \<forall>b t. (\<exists>s'. pushBar a b s = Inr s') \<and> (\<exists>s'. pushTick a t s = Inr s'))"
proof -
  have "payload_size a \<le> K" if "(now, isoNow, a) \<in> set acts" for now isoNow a
    unfolding le_fun_def K_def using that by (intro allI Max_ge) (auto intro: rev_image_eqI)
  then have "\<forall>(now, isoNow, a) \<in> set acts. payload_ok K a" using assms(1) payload_of_size by blast
  then have "store_within K s" unfolding s_def by (intro store_run_ok initial_ok)
  then show ?thesis by (force simp: store_within_def pushBar_def pushTick_def split: option.splits)
qed

definition long_message :: store_action where
  "long_message = A_setSimTradingState \<lparr>pa_simOrders = None, pa_simPositions = None, pa_fills = None, pa_simMessages = Some (replicate 60 ''m'')\<rparr>"

theorem terminal_state_bounded_witness:
  "length (ss_simMessages (store_run [(0, [], long_message), (1, [], A_cancelSimOrder ''o-1'')] initial_state)) \<le> 60"
proof -
  let ?acts = "[(0, [], long_message), (1, [], A_cancelSimOrder ''o-1'')] :: (rat \<times> string \<times> store_action) list"
  have "\<forall>(now, isoNow, a) \<in> set ?acts. points_finite a" by (simp add: points_finite_def long_message_def)
  from terminal_state_bounded [OF this] show ?thesis by (simp add: store_within_def payload_size_def long_message_def)
qed

lemma find_Some_mem: "List.find P xs = Some x \<Longrightarrow> x \<in> set xs \<and> P x"
  by (induction xs) (auto split: if_splits)

lemma best_live_mem: "live \<noteq> [] \<Longrightarrow> \<exists>m \<in> set live. best_live live = Some m"
proof -
  let ?c = "List.map_filter (\<lambda>tf. List.find (\<lambda>m. mk_timeframe m = tf \<and> \<not> undecided m) live) TF_PREF"
  have "set ?c \<subseteq> set live" by (auto simp: List.map_filter_def dest: find_Some_mem)
  then show "live \<noteq> [] \<Longrightarrow> ?thesis" by (auto simp: best_live_def neq_Nil_conv split: list.splits)
qed

lemma best_live_None: "best_live live = None \<longleftrightarrow> live = []"
  using best_live_mem [of live] by (cases "live = []") (auto simp: best_live_def TF_PREF_def List.map_filter_def)

lemma find_market_distinct:
  "distinct (map mk_key ms) \<Longrightarrow> m \<in> set ms \<Longrightarrow> find_market (mk_key m) ms = Some m"
  by (induction ms) (auto simp: find_market_def)

lemma next_active_live:
  assumes "m \<in> set ms" "mk_live m"
  shows "\<exists>b \<in> set ms. mk_live b \<and> next_active_key True k ms = Some (mk_key b)"
proof (cases "active_is_live k ms")
  case True
  then obtain key c where "k = Some key" "find_market key ms = Some c" "mk_live c"
    by (auto simp: active_is_live_def split: option.splits)
  moreover from this have "c \<in> set ms" "mk_key c = key" by (auto simp: find_market_def dest: find_Some_mem)
  ultimately show ?thesis using True by (auto simp: next_active_key_def)
next
  case False
  show ?thesis
  proof (cases "live_for (rollover_asset k ms) ms = []")
    case True
    moreover obtain b where "List.find mk_live ms = Some b" using assms by (cases "List.find mk_live ms") (auto simp: find_None_iff)
    ultimately show ?thesis using False find_Some_mem [of mk_live ms b]
      by (auto simp: next_active_key_def best_live_None [THEN iffD2])
  next
    case non: False
    then obtain b where "b \<in> set (live_for (rollover_asset k ms) ms)" "best_live (live_for (rollover_asset k ms) ms) = Some b"
      using best_live_mem by blast
    then show ?thesis using False by (auto simp: next_active_key_def live_for_def)
  qed
qed

definition market :: "string \<Rightarrow> asset \<Rightarrow> timeframe \<Rightarrow> string \<Rightarrow> rat \<Rightarrow> bool \<Rightarrow> prob_point list \<Rightarrow> market_info" where
  "market k a tf cond up live hist =
     \<lparr>mk_key = k, mk_asset = a, mk_timeframe = tf, mk_question = '''', mk_category = None, mk_up_pct = Fin up,
      mk_down_pct = Fin (100 - up), mk_volume = Fin 0, mk_expiry_ts = Fin 0, mk_resolution_price = None,
      mk_start_price = None, mk_price_to_beat = None, mk_condition_id = cond, mk_up_token_id = None, mk_live = live,
      mk_last_update_ms = None, mk_prob_history = Some hist, mk_truth_history = None, mk_staged_market = None,
      mk_truth_up_pct = None, mk_truth_down_pct = None, mk_greeks = JUndef, mk_tickSize = None,
      mk_tickValue = None, mk_multiplier = None\<rparr>"

text \<open>
  After a batch of markets that contains a live one, the selection never dangles: the selected key is
  the key of a market of the batch that is live, whatever was selected before and whether or not that
  market has expired; and a selected market that is still live stays selected.
\<close>

theorem setMarkets_selects_live:
  assumes "m \<in> set ms" "mk_live m" "s' = setMarkets ms live s"
  shows "(\<exists>b \<in> set (ss_markets s'). mk_live b \<and> ss_activeMarketKey s' = Some (mk_key b)) \<and>
    (active_is_live (ss_activeMarketKey s) (ss_markets s') \<longrightarrow> ss_activeMarketKey s' = ss_activeMarketKey s)"
proof -
  have "strip_history m \<in> set (map strip_history ms)" "mk_live (strip_history m)"
    using assms by (auto simp: strip_history_def)
  from next_active_live [OF this, of "ss_activeMarketKey s"] show ?thesis
    using assms by (auto simp: setMarkets_def Let_def list_ex_iff next_active_key_def)
qed

theorem setMarkets_selects_live_witness:
  "\<exists>b \<in> set (ss_markets (setMarkets [market ''BTC_5min'' ''BTC'' TF_5min ''c1'' 60 True []] False initial_state)).
     mk_live b \<and> ss_activeMarketKey (setMarkets [market ''BTC_5min'' ''BTC'' TF_5min ''c1'' 60 True []] False initial_state) = Some (mk_key b)"
  by (rule setMarkets_selects_live [THEN conjunct1, OF _ _ refl, of "market ''BTC_5min'' ''BTC'' TF_5min ''c1'' 60 True []"])
    (simp_all add: market_def)

lemma drop_rotated_get: "dict_get (drop_rotated olds ms d) k =
    (if \<exists>m \<in> set ms. rotated olds m \<and> mk_key m = k then None else dict_get d k)"
  unfolding drop_rotated_def by (induction ms arbitrary: d) auto

lemma seeds_get_other: "k \<notin> mk_key ` set ms \<Longrightarrow> dict_get (foldl seed_history h ms) k = dict_get h k"
  by (induction ms arbitrary: h) (auto simp: seed_history_def split: option.splits list.splits)

lemma seed_get: "dict_get (seed_history h m) (mk_key m) =
    (case mk_prob_history m of Some (p # ps) \<Rightarrow> Some (merge_points (opt_or (dict_get h (mk_key m)) []) (p # ps))
     | _ \<Rightarrow> dict_get h (mk_key m))"
  by (auto simp: seed_history_def split: option.splits list.splits)

lemma seeds_get: "distinct (map mk_key ms) \<Longrightarrow> m \<in> set ms \<Longrightarrow>
    dict_get (foldl seed_history h ms) (mk_key m) = dict_get (seed_history h m) (mk_key m)"
proof (induction ms arbitrary: h)
  case (Cons n ms)
  show ?case
  proof (cases "m = n")
    case False
    then have "mk_key m \<noteq> mk_key n" using Cons.prems by (auto simp: image_iff)
    then have "dict_get (seed_history (seed_history h n) m) (mk_key m) = dict_get (seed_history h m) (mk_key m)"
      by (auto simp: seed_get seed_history_def [of h n] split: option.splits list.splits)
    then show ?thesis using Cons False by simp
  qed (use Cons.prems in \<open>simp add: seeds_get_other\<close>)
qed simp

text \<open>
  C7. Roll-over of a slot: when a market arrives under a known key but with another contract, the tape and
  the book of the old contract are gone and its probability history restarts from the points the market
  brings (none, if it brings none); a slot whose contract did not change keeps tape and book and merges
  the points; and fills survive only for markets of the batch.
\<close>

theorem setMarkets_rollover:
  assumes "m \<in> set ms" "distinct (map mk_key ms)" "s' = setMarkets ms live s"
  shows "(rotated (ss_markets s) m \<longrightarrow>
       dict_get (ss_polyTicks s') (mk_key m) = None \<and> dict_get (ss_polyBooks s') (mk_key m) = None \<and>
       dict_get (ss_probHistory s') (mk_key m) =
         (case mk_prob_history m of Some (p # ps) \<Rightarrow> Some (merge_points [] (p # ps)) | _ \<Rightarrow> None)) \<and>
    (\<not> rotated (ss_markets s) m \<longrightarrow>
       dict_get (ss_polyTicks s') (mk_key m) = dict_get (ss_polyTicks s) (mk_key m) \<and>
       dict_get (ss_polyBooks s') (mk_key m) = dict_get (ss_polyBooks s) (mk_key m) \<and>
       dict_get (ss_probHistory s') (mk_key m) =
         (case mk_prob_history m of
            Some (p # ps) \<Rightarrow> Some (merge_points (opt_or (dict_get (ss_probHistory s) (mk_key m)) []) (p # ps))
          | _ \<Rightarrow> dict_get (ss_probHistory s) (mk_key m))) \<and>
    (\<forall>k. k \<notin> mk_key ` set ms \<longrightarrow> dict_get (ss_fills s') k = None)"
proof -
  have "(\<exists>n \<in> set ms. rotated (ss_markets s) n \<and> mk_key n = mk_key m) \<longleftrightarrow> rotated (ss_markets s) m"
    using assms(1,2) by (auto simp: distinct_map dest: inj_onD)
  note g = drop_rotated_get [where k = "mk_key m" and ms = ms and olds = "ss_markets s", unfolded this]
  have "dict_get (filter (\<lambda>(k, _). k \<in> K) fs) k = None" if "k \<notin> K" for k K and fs :: "poly_tick list dict"
    using that by (auto simp: map_of_eq_None_iff)
  then show ?thesis
    unfolding assms(3) setMarkets_def Let_def
    by (simp add: g seeds_get [OF assms(2,1)] seed_get split: option.splits list.splits)
qed

definition rolled_market :: market_info where
  "rolled_market = market ''BTC_5min'' ''BTC'' TF_5min ''c2'' 60 True []"

definition before_roll :: terminal_state where
  "before_roll = initial_state\<lparr>ss_markets := [market ''BTC_5min'' ''BTC'' TF_5min ''c1'' 60 True []],
     ss_probHistory := [(''BTC_5min'', [\<lparr>pp_ts = Fin 1, pp_up_pct = Fin 50\<rparr>])]\<rparr>"

theorem setMarkets_rollover_witness:
  "dict_get (ss_probHistory (setMarkets [rolled_market] False before_roll)) ''BTC_5min'' = None"
proof -
  have "rotated (ss_markets before_roll) rolled_market"
    by (simp add: rotated_def before_roll_def rolled_market_def market_def find_market_def)
  then show ?thesis
    using setMarkets_rollover [of rolled_market "[rolled_market]" _ False before_roll, OF _ _ refl]
    by (simp add: rolled_market_def market_def)
qed

text \<open>
  A reconnect snapshot does not roll slots over: a market that arrives in a snapshot with another
  contract keeps the probability history of the old contract, merged with the new points, where the
  same market in a batch would restart the history.
\<close>

theorem snapshot_keeps_old_contract:
  assumes "sn_markets d = Some [m]" "mk_prob_history m = Some (p # ps)" "rotated (ss_markets s) m"
  shows "dict_get (ss_probHistory (loadSnapshot a d s)) (mk_key m) =
      Some (merge_points (opt_or (dict_get (ss_probHistory s) (mk_key m)) []) (p # ps)) \<and>
    dict_get (ss_probHistory (setMarkets [m] False s)) (mk_key m) = Some (merge_points [] (p # ps))"
proof -
  have h: "ss_probHistory (snapshot_orders d (snapshot_market_data a d s)) = ss_probHistory s"
    by (simp add: snapshot_orders_def snapshot_market_data_def Let_def split: option.splits)
  then show ?thesis
    using assms by (simp add: loadSnapshot_def snapshot_markets_def seed_from_def setMarkets_def Let_def seed_history_def
      drop_rotated_def)
qed

definition empty_snapshot :: snapshot where
  "empty_snapshot = \<lparr>sn_bars = None, sn_bands = None, sn_zscore = None, sn_regime = None, sn_signals = None,
     sn_positions = None, sn_metrics = None, sn_copy_status = None, sn_execution_positions = None,
     sn_execution_risk = None, sn_poly_books = None, sn_poly_ticks = None, sn_order_state = None,
     sn_markets = None, sn_settlements = None\<rparr>"

theorem snapshot_keeps_old_contract_witness:
  "dict_get (ss_probHistory (loadSnapshot ''BTC'' (empty_snapshot\<lparr>sn_markets :=
      Some [market ''BTC_5min'' ''BTC'' TF_5min ''c2'' 60 True [\<lparr>pp_ts = Fin 9, pp_up_pct = Fin 70\<rparr>]]\<rparr>) before_roll)) ''BTC_5min''
    = Some [\<lparr>pp_ts = Fin 1, pp_up_pct = Fin 50\<rparr>, \<lparr>pp_ts = Fin 9, pp_up_pct = Fin 70\<rparr>]"
proof -
  let ?m = "market ''BTC_5min'' ''BTC'' TF_5min ''c2'' 60 True [\<lparr>pp_ts = Fin 9, pp_up_pct = Fin 70\<rparr>]"
  have "rotated (ss_markets before_roll) ?m"
    by (simp add: rotated_def before_roll_def market_def find_market_def)
  moreover have "merge_points [\<lparr>pp_ts = Fin 1, pp_up_pct = Fin 50\<rparr>] [\<lparr>pp_ts = Fin 9, pp_up_pct = Fin 70\<rparr>]
      = [\<lparr>pp_ts = Fin 1, pp_up_pct = Fin 50\<rparr>, \<lparr>pp_ts = Fin 9, pp_up_pct = Fin 70\<rparr>]"
    by (simp add: merge_points_def first_occ_Cons same_ts_def cmp_ts_def)
  ultimately show ?thesis
    using snapshot_keeps_old_contract [of "empty_snapshot\<lparr>sn_markets := Some [?m]\<rparr>" "?m"
      "\<lparr>pp_ts = Fin 9, pp_up_pct = Fin 70\<rparr>" "[]" before_roll "''BTC''"]
    by (simp add: market_def before_roll_def)
qed

text \<open>
  The asset of the selected slot is taken from the key up to the first underscore, which is not the
  asset for the spread products: when a selected \<open>ES_NQ\<close> slot stops being live, the selection moves to
  an \<open>ES\<close> market although a live \<open>ES_NQ\<close> market is in the batch.
\<close>

theorem spread_rollover_leaves_asset:
  "''ES_NQ'' \<in> set ASSETS \<and>
   ss_activeMarketKey (setMarkets
      [market ''ES_NQ_5min'' ''ES_NQ'' TF_5min ''c1'' 60 False [], market ''ES_NQ_1h'' ''ES_NQ'' TF_1h ''c2'' 60 True [],
       market ''ES_1h'' ''ES'' TF_1h ''c3'' 60 True []] True
      (initial_state\<lparr>ss_activeAsset := ''ES_NQ'', ss_activeMarketKey := Some ''ES_NQ_5min''\<rparr>)) = Some ''ES_1h''"
  by (simp add: ASSETS_def setMarkets_def Let_def next_active_key_def active_is_live_def find_market_def market_def
    strip_history_def rollover_asset_def live_for_def best_live_def TF_PREF_def List.map_filter_def undecided_def)

lemma setPolyBook_get:
  "dict_get (ss_polyBooks (setPolyBook k b s)) j =
    (if j = k then (case dict_get (ss_polyBooks s) k of
        Some p \<Rightarrow> Some (if js_lt (book_seen b) (book_seen p) then p else b) | None \<Rightarrow> Some b)
     else dict_get (ss_polyBooks s) j)"
  by (auto simp: setPolyBook_def split: option.splits)

lemma js_lt_fin_val: "is_fin x \<Longrightarrow> is_fin y \<Longrightarrow> js_lt x y \<longleftrightarrow> fin_val x < fin_val y"
  by (cases x; cases y) auto

abbreviation setPolyBooks :: "string \<Rightarrow> poly_book list \<Rightarrow> terminal_state \<Rightarrow> terminal_state" where
  "setPolyBooks k bs s \<equiv> foldl (\<lambda>s b. setPolyBook k b s) s bs"

definition seen_at :: "poly_book \<Rightarrow> rat" where
  "seen_at b = fin_val (book_seen b)"

lemma setPolyBooks_latest:
  assumes "list_all (is_fin \<circ> book_seen) bs" "dict_get (ss_polyBooks s) k = Some q" "is_fin (book_seen q)"
  shows "\<exists>p \<in> insert q (set bs). dict_get (ss_polyBooks (setPolyBooks k bs s)) k = Some p \<and>
    (\<forall>c \<in> insert q (set bs). seen_at c \<le> seen_at p)"
  using assms
proof (induction bs arbitrary: s q)
  case (Cons b bs)
  let ?n = "if seen_at b < seen_at q then q else b"
  have "dict_get (ss_polyBooks (setPolyBook k b s)) k = Some ?n" "is_fin (book_seen ?n)"
    using Cons.prems by (auto simp: setPolyBook_get js_lt_fin_val seen_at_def)
  from Cons.IH [OF _ this] Cons.prems obtain p where
    "p \<in> insert ?n (set bs)" "dict_get (ss_polyBooks (setPolyBooks k bs (setPolyBook k b s))) k = Some p"
    "\<forall>c \<in> insert ?n (set bs). seen_at c \<le> seen_at p"
    by auto
  then show ?case by (intro bexI [of _ p]) (auto split: if_splits)
qed simp

lemma setPolyBooks_other: "j \<noteq> k \<Longrightarrow> dict_get (ss_polyBooks (setPolyBooks k bs s)) j = dict_get (ss_polyBooks s) j"
  by (induction bs arbitrary: s) (auto simp: setPolyBook_get)

text \<open>
  Out-of-order book messages cannot roll a book back: after any number of messages for a market the
  stored book is the previous one or one that was received, and of all those it is the one seen last;
  the books of other markets are untouched.
\<close>

theorem setPolyBook_latest:
  assumes "list_all (is_fin \<circ> book_seen) bs" "dict_get (ss_polyBooks s) k = Some q" "is_fin (book_seen q)"
  shows "(\<exists>p \<in> insert q (set bs). dict_get (ss_polyBooks (foldl (\<lambda>s b. setPolyBook k b s) s bs)) k = Some p \<and>
      (\<forall>c \<in> insert q (set bs). fin_val (book_seen c) \<le> fin_val (book_seen p))) \<and>
    (\<forall>j. j \<noteq> k \<longrightarrow> dict_get (ss_polyBooks (foldl (\<lambda>s b. setPolyBook k b s) s bs)) j = dict_get (ss_polyBooks s) j)"
  using setPolyBooks_latest [OF assms] setPolyBooks_other by (auto simp: seen_at_def)

definition book_at :: "rat \<Rightarrow> rat \<Rightarrow> poly_book" where
  "book_at t p = \<lparr>pb_market_key = ''k'', pb_question = '''', pb_up_token_id = '''', pb_bids = [], pb_asks = [],
     pb_best_bid = JNull, pb_best_ask = JNull, pb_mid = JNull, pb_spread_pct = JNull, pb_up_pct = Fin 50,
     pb_down_pct = Fin 50, pb_ltp = JNum (Fin p), pb_ltp_size = None, pb_expiry_ts = Fin 0, pb_live = True,
     pb_timestamp_ms = Fin t, pb_seen_ms = None\<rparr>"

theorem setPolyBook_latest_witness:
  "\<exists>p \<in> {book_at 5 1, book_at 9 2, book_at 7 3}.
     dict_get (ss_polyBooks (foldl (\<lambda>s b. setPolyBook ''k'' b s) (initial_state\<lparr>ss_polyBooks := [(''k'', book_at 5 1)]\<rparr>)
       [book_at 9 2, book_at 7 3])) ''k'' = Some p \<and> fin_val (book_seen (book_at 9 2)) \<le> fin_val (book_seen p)"
  using setPolyBook_latest [of "[book_at 9 2, book_at 7 3]"
    "initial_state\<lparr>ss_polyBooks := [(''k'', book_at 5 1)]\<rparr>" "''k''" "book_at 5 1"]
  by (auto simp: book_seen_def book_at_def)

end
