(* ===== verification/Sync.thy ===== *)
theory Sync
  imports StoreProps
begin

text \<open>
  The two hooks that feed the store: \<open>apps/terminal/src/hooks/useWebSocket.ts\<close> (the dispatch of the
  feed's messages to actions, and the reconnecting socket) and
  \<open>apps/terminal/src/hooks/useBroadcastSync.ts\<close> (the primary window posts its selection, secondary
  windows apply it).
\<close>

section \<open>Dispatch of feed messages\<close>

text \<open>
  A frame is unreadable, a snapshot, a message of a known type, or of an unknown type.  The messages are
  typed as the source types them.
\<close>

datatype ws_frame = Unreadable | SnapshotFrame asset snapshot | MsgFrame ws_msg | OtherFrame

fun msg_actions :: "ws_msg \<Rightarrow> store_action list" where
  "msg_actions (WsBar a b) = [A_pushBar a b]"
| "msg_actions (WsBands a b) = [A_setBands a b]"
| "msg_actions (WsBook a b) = [A_setBook a b]"
| "msg_actions (WsTick a t) = [A_pushTick a t]"
| "msg_actions (WsZscore a z r) = [A_setZscore a z r]"
| "msg_actions (WsSignal s) = [A_pushSignal s]"
| "msg_actions (WsPosition p) = [A_setPositions p]"
| "msg_actions (WsMetrics m) = [A_setMetrics m]"
| "msg_actions (WsCopyStatus c) = [A_setCopyStatus c]"
| "msg_actions (WsMarkets ms) = [A_setMarkets ms False]"
| "msg_actions (WsSettlements st) = [A_setSettlements st]"
| "msg_actions (WsPolyBook k b) = [A_setPolyBook k b]"
| "msg_actions (WsPolyTick k t) = [A_pushPolyTick k t]"
| "msg_actions (WsFill k t) = [A_pushPolyFill k t]"
| "msg_actions (WsOrderSnapshot p) = [A_setSimTradingState p]"
| "msg_actions (WsExecutionEvent ps r) =
     (case ps of None \<Rightarrow> []
      | Some p \<Rightarrow> (case r of None \<Rightarrow> [] | Some risk \<Rightarrow> [A_setExecutionRisk risk]) @ [A_setExecutionPositions p])"
| "msg_actions (WsCmeBook k b) = []"
| "msg_actions (WsCmeTrade k t) = []"

fun frame_actions :: "ws_frame \<Rightarrow> store_action list" where
  "frame_actions (SnapshotFrame a d) =
     A_loadSnapshot a d #
     (case sn_settlements d of Some (st # sts) \<Rightarrow> [A_setSettlements (st # sts)] | _ \<Rightarrow> [])"
| "frame_actions (MsgFrame m) = msg_actions m"
| "frame_actions Unreadable = []"
| "frame_actions OtherFrame = []"

text \<open>An action that throws ends the handler; the \<open>catch\<close> keeps what was done before it.\<close>

fun run_actions :: "rat \<Rightarrow> string \<Rightarrow> terminal_state \<Rightarrow> store_action list \<Rightarrow> terminal_state" where
  "run_actions now isoNow s [] = s"
| "run_actions now isoNow s (a # as) =
     (case store_step now isoNow s a of Inl _ \<Rightarrow> s | Inr s' \<Rightarrow> run_actions now isoNow s' as)"

definition onmessage :: "rat \<Rightarrow> string \<Rightarrow> ws_frame \<Rightarrow> terminal_state \<Rightarrow> terminal_state" where
  "onmessage now isoNow f s = run_actions now isoNow s (frame_actions f)"

section \<open>The reconnecting socket\<close>

text \<open>
  The effect's local state: whether it is alive, the sockets that are connecting or open, those that were asked to
  close and whose close event is still to come, and whether the retry timer is pending.  An error closes the socket;
  cleaning up closes the one in \<open>wsRef\<close>, the last that was made.
\<close>

record conn_state =
  cn_alive :: bool
  cn_open :: nat
  cn_closing :: nat
  cn_retry :: bool

datatype conn_event = SocketOpen | SocketError | SocketClose | RetryFires | Cleanup

definition ws_connect :: "conn_state \<Rightarrow> conn_state" where
  "ws_connect c = (if \<not> cn_alive c then c else c\<lparr>cn_open := Suc (cn_open c)\<rparr>)"

text \<open>\<open>ws.close()\<close> on an open socket; on one that is closing it does nothing.\<close>

definition ws_close :: "conn_state \<Rightarrow> conn_state" where
  "ws_close c = (if cn_open c = 0 then c else c\<lparr>cn_open := cn_open c - 1, cn_closing := Suc (cn_closing c)\<rparr>)"

inductive conn_step :: "conn_state \<Rightarrow> conn_event \<Rightarrow> conn_state \<Rightarrow> bool" where
  opened: "0 < cn_open c \<Longrightarrow> conn_step c SocketOpen c"
| errored: "0 < cn_open c + cn_closing c \<Longrightarrow> conn_step c SocketError (ws_close c)"
| dropped: "0 < cn_open c \<Longrightarrow>
    conn_step c SocketClose (c\<lparr>cn_open := cn_open c - 1, cn_retry := (cn_alive c \<or> cn_retry c)\<rparr>)"
| closed: "0 < cn_closing c \<Longrightarrow>
    conn_step c SocketClose (c\<lparr>cn_closing := cn_closing c - 1, cn_retry := (cn_alive c \<or> cn_retry c)\<rparr>)"
| fired: "cn_retry c \<Longrightarrow> conn_step c RetryFires (ws_connect (c\<lparr>cn_retry := False\<rparr>))"
| cleaned: "cn_alive c \<Longrightarrow> conn_step c Cleanup (ws_close (c\<lparr>cn_alive := False, cn_retry := False\<rparr>))"

inductive_cases conn_stepE: "conn_step c e c'"

inductive_simps conn_close_iff: "conn_step c SocketClose c'"

inductive conn_run :: "conn_state \<Rightarrow> conn_event list \<Rightarrow> conn_state \<Rightarrow> bool" where
  conn_nil: "conn_run c [] c"
| conn_snoc: "conn_run c es c1 \<Longrightarrow> conn_step c1 e c2 \<Longrightarrow> conn_run c (es @ [e]) c2"

definition conn_start :: conn_state where
  "conn_start = ws_connect \<lparr>cn_alive = True, cn_open = 0, cn_closing = 0, cn_retry = False\<rparr>"

section \<open>Window synchronisation\<close>

datatype sync_msg = SyncAsset asset | SyncMarket "string option" | SyncProvider market_provider

record sync_prev =
  sv_asset :: asset
  sv_market :: "string option"
  sv_provider :: market_provider

definition selection :: "terminal_state \<Rightarrow> sync_prev" where
  "selection s = \<lparr>sv_asset = ss_activeAsset s, sv_market = ss_activeMarketKey s, sv_provider = ss_marketProvider s\<rparr>"

text \<open>The primary's subscription: what is posted when the store changes to \<open>s\<close>, and the new \<open>prev\<close>.\<close>

definition broadcast :: "sync_prev \<Rightarrow> terminal_state \<Rightarrow> sync_msg list \<times> sync_prev" where
  "broadcast prev s =
     ((if ss_activeAsset s \<noteq> sv_asset prev then [SyncAsset (ss_activeAsset s)] else []) @
      (if ss_activeMarketKey s \<noteq> sv_market prev then [SyncMarket (ss_activeMarketKey s)] else []) @
      (if ss_marketProvider s \<noteq> sv_provider prev then [SyncProvider (ss_marketProvider s)] else []),
      selection s)"

fun receive :: "terminal_state \<Rightarrow> sync_msg \<Rightarrow> terminal_state" where
  "receive s (SyncAsset a) = setActiveAsset a s"
| "receive s (SyncMarket k) = setActiveMarketKey k s"
| "receive s (SyncProvider p) = setMarketProvider p s"

text \<open>The user's selections, in the primary window.\<close>

datatype user_action = PickAsset asset | PickMarket "string option" | PickProvider market_provider

fun user_step :: "terminal_state \<Rightarrow> user_action \<Rightarrow> terminal_state" where
  "user_step s (PickAsset a) = setActiveAsset a s"
| "user_step s (PickMarket k) = setActiveMarketKey k s"
| "user_step s (PickProvider p) = setMarketProvider p s"

text \<open>One action in the primary, its posts, and the secondary that applies them in order.\<close>

definition sync_step :: "terminal_state \<times> sync_prev \<times> terminal_state \<Rightarrow> user_action \<Rightarrow> terminal_state \<times> sync_prev \<times> terminal_state" where
  "sync_step = (\<lambda>(p, prev, q) u.
     let p' = user_step p u; (msgs, prev') = broadcast prev p' in (p', prev', foldl receive q msgs))"

section \<open>Properties of the dispatch\<close>

definition frame_ok :: "ws_frame \<Rightarrow> bool" where
  "frame_ok f = list_all action_ok (frame_actions f)"

lemma run_actions_ok: "store_ok s \<Longrightarrow> list_all action_ok as \<Longrightarrow> store_ok (run_actions now isoNow s as)"
  by (induction as arbitrary: s) (auto split: sum.splits dest: store_step_ok)

text \<open>
  The feed cannot break the store: from a state within its bounds, any sequence of frames (unreadable
  ones, unknown ones and ones whose handling throws included) leads to a state within its bounds, and a
  frame whose first action throws, or that has none, leaves the state exactly as it was.
\<close>

theorem feed_preserves_bounds:
  assumes "store_ok s" "list_all frame_ok fs"
  shows "store_ok (foldl (\<lambda>s f. onmessage now isoNow f s) s fs) \<and>
    onmessage now isoNow Unreadable s = s \<and> onmessage now isoNow OtherFrame s = s \<and>
    (\<forall>a b. dict_get (ss_bars s) a = None \<longrightarrow> onmessage now isoNow (MsgFrame (WsBar a b)) s = s)"
proof -
  have "store_ok (foldl (\<lambda>s f. onmessage now isoNow f s) s fs)"
    using assms by (induction fs arbitrary: s) (auto simp: onmessage_def frame_ok_def run_actions_ok)
  then show ?thesis by (simp add: onmessage_def pushBar_def)
qed

theorem feed_preserves_bounds_witness:
  "store_ok (foldl (\<lambda>s f. onmessage 1 [] f s) initial_state
     [MsgFrame (WsBar ''ES'' (sample_bar 60 10)), Unreadable, MsgFrame (WsFill ''k'' \<lparr>pt_timestamp = Fin 1, pt_marketKey = ''k'',
        pt_price = Fin 2, pt_size = Fin 3, pt_side = Yes, pt_rest = JUndef\<rparr>)])"
  by (rule feed_preserves_bounds [THEN conjunct1]) (simp_all add: initial_ok frame_ok_def payload_ok_def)

section \<open>Properties of the socket\<close>

definition conn_ok :: "conn_state \<Rightarrow> bool" where
  "conn_ok c =
     (if cn_alive c then cn_open c + cn_closing c + (if cn_retry c then 1 else 0) = 1
      else cn_open c = 0 \<and> cn_closing c \<le> 1 \<and> \<not> cn_retry c)"

lemma conn_step_ok: "conn_step c e c' \<Longrightarrow> conn_ok c \<Longrightarrow> conn_ok c'"
  by (cases rule: conn_step.cases) (auto simp: conn_ok_def ws_connect_def ws_close_def split: if_splits)

lemma conn_run_ok: "conn_run c es c' \<Longrightarrow> conn_ok c \<Longrightarrow> conn_ok c'"
  by (induction rule: conn_run.induct) (auto intro: conn_step_ok)

lemma conn_start_ok: "conn_ok conn_start" and conn_start_alive: "cn_alive conn_start"
  by (simp_all add: conn_ok_def conn_start_def ws_connect_def)

lemma close_alive [simp]: "cn_alive (ws_close c) = cn_alive c"
  by (simp add: ws_close_def)

lemma conn_alive_iff: "conn_run c es c' \<Longrightarrow> cn_alive c \<Longrightarrow> cn_alive c' \<longleftrightarrow> Cleanup \<notin> set es"
  by (induction rule: conn_run.induct) (auto elim!: conn_stepE simp: ws_connect_def)

text \<open>
  C6. The hook holds at most one connection: through any sequence of socket events, retries and the
  cleanup, while the effect is alive there is exactly one socket or one pending retry, never both; the close of a
  socket always leaves the retry pending, and the retry opens a socket again.  From the cleanup on no socket is open:
  the last one was asked to close, at most its close event is still to come, no retry is pending and none is started.
\<close>

theorem socket_single_connection:
  assumes "conn_run conn_start es c"
  shows "(Cleanup \<notin> set es \<longrightarrow> cn_open c + cn_closing c + (if cn_retry c then 1 else 0) = 1 \<and>
       (\<forall>c'. conn_step c SocketClose c' \<longrightarrow> cn_retry c') \<and>
       (cn_retry c \<longrightarrow> (\<exists>c'. conn_step c RetryFires c' \<and> cn_open c' = 1))) \<and>
    (Cleanup \<in> set es \<longrightarrow> cn_open c = 0 \<and> cn_closing c \<le> 1 \<and> \<not> cn_retry c \<and>
       (\<forall>e c'. conn_step c e c' \<longrightarrow> cn_open c' = 0 \<and> \<not> cn_retry c'))"
proof -
  have ok: "conn_ok c" and alive: "cn_alive c \<longleftrightarrow> Cleanup \<notin> set es"
    using conn_run_ok [OF assms conn_start_ok] conn_alive_iff [OF assms conn_start_alive] by auto
  have "\<exists>c'. conn_step c RetryFires c' \<and> cn_open c' = 1" if "cn_alive c" "cn_retry c"
    using conn_step.fired [OF that(2)] that ok by (intro exI) (auto simp: conn_ok_def ws_connect_def)
  moreover have "cn_open c' = 0 \<and> \<not> cn_retry c'" if "\<not> cn_alive c" "conn_step c e c'" for e c'
    using that(2,1) ok by (cases rule: conn_step.cases) (auto simp: conn_ok_def ws_close_def)
  moreover have "cn_retry c'" if "cn_alive c" "conn_step c SocketClose c'" for c'
    using that by (auto simp: conn_close_iff)
  ultimately show ?thesis using ok alive by (auto simp: conn_ok_def)
qed

theorem socket_single_connection_witness:
  "cn_open (ws_connect \<lparr>cn_alive = True, cn_open = 0, cn_closing = 0, cn_retry = False\<rparr>) = 1"
proof -
  have "conn_run conn_start ([] @ [SocketClose]) (conn_start\<lparr>cn_open := 0, cn_retry := True\<rparr>)"
    by (rule conn_run.intros(2) [OF conn_run.intros(1)]) (simp add: conn_close_iff conn_start_def ws_connect_def)
  then have "conn_run conn_start (([] @ [SocketClose]) @ [RetryFires])
      (ws_connect \<lparr>cn_alive = True, cn_open = 0, cn_closing = 0, cn_retry = False\<rparr>)"
    by (rule conn_run.intros(2)) (use conn_step.fired [of "conn_start\<lparr>cn_open := 0, cn_retry := True\<rparr>"] in
      \<open>simp add: conn_start_def ws_connect_def\<close>)
  from socket_single_connection [OF this] show ?thesis by (simp add: ws_connect_def)
qed

section \<open>Properties of the synchronisation\<close>

definition coherent :: "terminal_state \<Rightarrow> bool" where
  "coherent s = (case ss_activeMarketKey s of None \<Rightarrow> True
     | Some k \<Rightarrow> (case find_market k (ss_markets s) of None \<Rightarrow> True | Some m \<Rightarrow> mk_asset m = ss_activeAsset s))"

lemma best_live_asset:
  assumes "distinct (map mk_key ms)" "best_live (live_for a ms) = Some m"
  shows "mk_asset m = a \<and> find_market (mk_key m) ms = Some m"
proof -
  have "live_for a ms \<noteq> []" using assms(2) best_live_None [of "live_for a ms"] by auto
  then have "m \<in> set (live_for a ms)" using best_live_mem [of "live_for a ms"] assms(2) by auto
  then show ?thesis using assms(1) by (auto simp: live_for_def find_market_distinct)
qed

lemma user_step_markets [simp]: "ss_markets (user_step s u) = ss_markets s"
  by (cases u) (auto simp: store_defs split: option.splits)

lemma user_step_coherent: "distinct (map mk_key (ss_markets s)) \<Longrightarrow> coherent s \<Longrightarrow> coherent (user_step s u)"
  by (cases u) (auto simp: coherent_def store_defs dest: best_live_asset split: option.splits)

definition in_sync :: "terminal_state \<Rightarrow> sync_prev \<Rightarrow> terminal_state \<Rightarrow> bool" where
  "in_sync p prev q = (prev = selection p \<and> selection q = selection p \<and> ss_markets q = ss_markets p)"

lemma receive_markets [simp]: "ss_markets (receive s m) = ss_markets s"
  by (cases m) (auto simp: store_defs split: option.splits)

lemma sync_step_eq: "sync_step (p, prev, q) u =
    (user_step p u, selection (user_step p u), foldl receive q (fst (broadcast prev (user_step p u))))"
  by (simp add: sync_step_def broadcast_def Let_def)

lemma receives_markets: "ss_markets (foldl receive q ms) = ss_markets q"
  by (induction ms arbitrary: q) simp_all

lemma follow_pick:
  assumes "selection q = selection p" "ss_markets q = ss_markets p" "coherent p" "distinct (map mk_key (ss_markets p))" "'''' \<notin> mk_key ` set (ss_markets p)"
  shows "selection (foldl receive q (fst (broadcast (selection p) (user_step p u)))) = selection (user_step p u)"
proof (cases u)
  case (PickAsset a)
  show ?thesis
  proof (cases "best_live (live_for a (ss_markets p))")
    case None
    then show ?thesis using assms(1,2) PickAsset
      by (auto simp: broadcast_def selection_def store_defs)
  next
    case (Some m)
    moreover have "mk_key m \<noteq> ''''"
      using find_Some_mem [of _ "ss_markets p" m] best_live_asset [OF assms(4) Some] assms(5)
      unfolding find_market_def by (metis image_eqI)
    ultimately show ?thesis using assms(1,2) PickAsset best_live_asset [OF assms(4) Some]
      by (auto simp: broadcast_def selection_def store_defs)
  qed
next
  case (PickMarket k)
  show ?thesis
  proof (cases "k = None \<or> k = Some ''''")
    case True
    then show ?thesis using assms(1,2) PickMarket
      by (auto simp: broadcast_def selection_def store_defs)
  next
    case False
    then obtain key where key: "k = Some key" "key \<noteq> ''''" by auto
    show ?thesis
      using assms PickMarket key
      by (cases "find_market key (ss_markets p)")
        (auto simp: broadcast_def selection_def store_defs coherent_def split: option.splits)
  qed
next
  case (PickProvider x)
  then show ?thesis using assms(1,2) by (auto simp: broadcast_def selection_def store_defs)
qed

lemma sync_step_in_sync:
  assumes "in_sync p prev q" "coherent p" "distinct (map mk_key (ss_markets p))" "'''' \<notin> mk_key ` set (ss_markets p)"
  shows "case sync_step (p, prev, q) u of (p', prev', q') \<Rightarrow> in_sync p' prev' q'"
  using assms follow_pick [of q p u] by (simp add: sync_step_eq in_sync_def receives_markets)

lemma followed:
  assumes "in_sync p prev q" "coherent p" "distinct (map mk_key (ss_markets p))" "'''' \<notin> mk_key ` set (ss_markets p)"
  shows "case foldl sync_step (p, prev, q) us of (p', prev', q') \<Rightarrow> selection q' = selection p' \<and> coherent p'"
  using assms
proof (induction us arbitrary: p prev q)
  case Nil
  then show ?case by (simp add: in_sync_def)
next
  case (Cons u us)
  obtain p1 prev1 q1 where s: "sync_step (p, prev, q) u = (p1, prev1, q1)" by (metis prod_cases3)
  have "p1 = user_step p u" using s by (simp add: sync_step_eq)
  then show ?case
    using Cons.IH [of p1 prev1 q1] sync_step_in_sync [OF Cons.prems, of u] s Cons.prems user_step_coherent
    by simp
qed

lemma diverged:
  "let ms = [market ''BTC_5min'' ''BTC'' TF_5min ''c1'' 60 True []]; rolled = setMarkets ms False initial_state;
       told = foldl receive (initial_state\<lparr>ss_markets := ss_markets rolled\<rparr>) (fst (broadcast (selection initial_state) rolled))
   in ss_activeAsset rolled = ''ES'' \<and> ss_activeAsset told = ''BTC'' \<and> ss_activeMarketKey told = ss_activeMarketKey rolled"
  by (simp add: initial_state_def setMarkets_def Let_def next_active_key_def active_is_live_def find_market_def market_def
    strip_history_def rollover_asset_def live_for_def best_live_def TF_PREF_def List.map_filter_def undecided_def
    broadcast_def selection_def setActiveMarketKey_def)

text \<open>
  C11. How far a secondary window follows the primary.  With the same markets (under distinct, non-empty keys), starting
  in step and with the selected market belonging to the selected asset, after any sequence of the user's selections in
  the primary the secondary that applied the posted messages shows the same asset, market and provider.  When the
  store itself moves the selection to a market of another asset (a batch in which only that asset is live), the primary
  keeps its asset while the secondary, told only the new market, switches: the windows end up on different assets.
\<close>

theorem secondary_follows_primary:
  assumes "in_sync p prev q" "coherent p" "distinct (map mk_key (ss_markets p))" "'''' \<notin> mk_key ` set (ss_markets p)"
  shows "(case foldl sync_step (p, prev, q) us of (p', prev', q') \<Rightarrow> selection q' = selection p' \<and> coherent p') \<and>
    (let ms = [market ''BTC_5min'' ''BTC'' TF_5min ''c1'' 60 True []]; rolled = setMarkets ms False initial_state;
         told = foldl receive (initial_state\<lparr>ss_markets := ss_markets rolled\<rparr>) (fst (broadcast (selection initial_state) rolled))
     in ss_activeAsset rolled = ''ES'' \<and> ss_activeAsset told = ''BTC'' \<and> ss_activeMarketKey told = ss_activeMarketKey rolled)"
  by (intro conjI followed assms diverged)

theorem secondary_follows_primary_witness:
  "case foldl sync_step (initial_state, selection initial_state, initial_state) [PickAsset ''BTC'', PickMarket (Some ''k'')] of
     (p', prev', q') \<Rightarrow> selection q' = selection p' \<and> coherent p'"
  by (rule secondary_follows_primary [THEN conjunct1]) (simp_all add: in_sync_def coherent_def initial_state_def)

end
