(* ===== verification/Desk.thy ===== *)
theory Desk
  imports Exchange
begin

text \<open>
  The declarations and settings of \<open>apps/terminal/src/components/WorkspaceDesktop.tsx\<close> and of
  \<open>apps/terminal/src/services/workspaceServices.ts\<close>: window kinds and their labels, removed kinds,
  provider and product keys, alert rules, the depth-ladder settings and the algo-manager row selection,
  with the normalisers that read them back from storage.  Stored values are untyped.  Window kinds and
  provider keys are strings, as they are at run time.
\<close>

section \<open>Providers and window kinds\<close>

record provider_descriptor =
  pd_key :: string
  pd_label :: string
  pd_protocol :: string
  pd_productModel :: string
  pd_service :: string

definition PROVIDERS :: "provider_descriptor list" where
  "PROVIDERS = [\<lparr>pd_key = ''cme'', pd_label = ''CME'', pd_protocol = ''CME futures market data'',
     pd_productModel = ''futures'', pd_service = ''price.cme-ingress''\<rparr>]"

definition PRODUCT_ASSETS :: "asset list" where
  "PRODUCT_ASSETS = [''ES'', ''NQ'', ''YM'', ''RTY'', ''CL'', ''GC'', ''ZM'', ''ZS'', ''ES_NQ'', ''YM_ES'', ''RTY_ES'']"

definition providerLabel :: "string \<Rightarrow> string" where
  "providerLabel key = (case List.find (\<lambda>p. pd_key p = key) PROVIDERS of Some p \<Rightarrow> pd_label p | None \<Rightarrow> key)"

definition providerForTemplate :: "string \<Rightarrow> string" where
  "providerForTemplate template = ''cme''"

definition WINDOW_LABELS :: "string dict" where
  "WINDOW_LABELS =
    [(''marketData'', ''Market Data''), (''depthLadder'', ''Depth Ladder''), (''order'', ''Order Book''),
     (''fills'', ''Fills''), (''alerts'', ''Alert Manager''), (''charts'', ''Charts''),
     (''liquidityMap'', ''Liquidity Map''), (''algoBuilder'', ''Algo Builder''), (''algoManager'', ''Algo Manager''),
     (''serviceMap'', ''System Services''), (''depthTrader'', ''Depth Ladder''),
     (''depthTraderEsNq'', ''Depth Ladder - ES / NQ''), (''depthTraderYmEs'', ''Depth Ladder - YM / ES''),
     (''depthTraderRtyEs'', ''Depth Ladder - RTY / ES''), (''mdTraderEs'', ''Depth Ladder - ES''),
     (''goose'', ''GOOSE''), (''dailySummary'', ''Daily Summary''), (''streamingNews'', ''Streaming News''),
     (''liveApiArchitecture'', ''Live API Architecture''), (''tradeAnalytics'', ''Trade Analytics''),
     (''positionsOrders'', ''Positions & Orders''), (''auditTrail'', ''Audit Trail''),
     (''spreadConfigurations'', ''Spread Configurations''), (''relativeSpreadCharts'', ''Relative Spread Charts''),
     (''relativeSpreadVisuals'', ''Relative Spread Visuals''), (''notionalCalculator'', ''Notional Calculator''),
     (''macroRegimeSummary'', ''Macro Regime Summary''), (''liveSpreadSignals'', ''Live Spread Signals''),
     (''atrZScoreEngine'', ''ATR and Z-Score Engine''), (''executionRules'', ''Execution Rules''),
     (''orderLayeringTechniques'', ''Order Layering Techniques''), (''moneyManagement'', ''Money Management''),
     (''crossSpreadOpportunityMap'', ''Cross-Spread Opportunity Map''), (''riskChecklist'', ''Risk Checklist''),
     (''sourceNotes'', ''Source Notes''), (''modelResearchGovernance'', ''Model Research & Governance''),
     (''fixMonitor'', ''FIX Monitor'')]"

definition WIDGET_MENU :: "(string \<times> string list) list" where
  "WIDGET_MENU =
    [(''Cerious Core'', [''marketData'', ''depthLadder'', ''positionsOrders'', ''fills'', ''auditTrail'']),
     (''Daily Summary'', [''dailySummary'']), (''GOOSE'', [''goose'']),
     (''Spread Signals'', [''spreadConfigurations'', ''relativeSpreadCharts'', ''relativeSpreadVisuals'',
        ''liveSpreadSignals'', ''atrZScoreEngine'', ''crossSpreadOpportunityMap'']),
     (''Research & Risk'', [''macroRegimeSummary'', ''tradeAnalytics'', ''notionalCalculator'', ''executionRules'',
        ''orderLayeringTechniques'', ''moneyManagement'', ''riskChecklist'', ''sourceNotes'', ''modelResearchGovernance'']),
     (''News'', [''streamingNews'']), (''Trading'', [''order'', ''alerts'', ''liquidityMap'', ''fixMonitor'']),
     (''Algos'', [''algoBuilder'', ''algoManager'']), (''Charts'', [''charts'']),
     (''System'', [''liveApiArchitecture'', ''serviceMap''])]"

text \<open>
  The removed kinds are regular expressions without case: whole words, and two prefixes.  The set
  \<open>REMOVED_WINDOW_KINDS\<close> of exact kinds is empty.
\<close>

definition REMOVED_WINDOW_KINDS :: "string list" where
  "REMOVED_WINDOW_KINDS = []"

definition REMOVED_WORDS :: "string list" where
  "REMOVED_WORDS = [''ladder'', ''cryptoterminal'', ''eventterminal'', ''sportsterminal'', ''singlepanelchart'',
     ''cerioustwopanelchart'', ''ceriousthreepanelchart'', ''predictionchart'', ''productlibrary'', ''spreadesnq'',
     ''spreadymes'', ''spreadrtyes'', ''greeks'', ''theoquoter'', ''knowledge'']"

definition REMOVED_PREFIXES :: "string list" where
  "REMOVED_PREFIXES = [''tradingview'', ''ptb'']"

definition isRemovedWindowKind :: "jsval \<Rightarrow> bool" where
  "isRemovedWindowKind kind =
     (let key = js_str (js_nn [kind, JStr '''']); l = to_lower key
      in key \<in> set REMOVED_WINDOW_KINDS \<or> l \<in> set REMOVED_WORDS \<or> list_ex (\<lambda>p. starts_with p l) REMOVED_PREFIXES)"

definition PROVIDER_COLORS :: "string dict" where
  "PROVIDER_COLORS = [(''cme'', ''#00d4a4''), (''polymarket'', ''#00d4a4''), (''kalshi'', ''#7dd3fc''),
     (''hyperliquid'', ''#a78bfa''), (''forecasttrader'', ''#f472b6'')]"

definition normalizeProviderKey :: "jsval \<Rightarrow> string" where
  "normalizeProviderKey provider =
     (case provider of
        JStr p \<Rightarrow> if p \<noteq> '''' \<and> list_ex (\<lambda>item. pd_key item = p) PROVIDERS then p else ''cme''
      | _ \<Rightarrow> ''cme'')"

definition normalizeProductKey :: "jsval \<Rightarrow> string" where
  "normalizeProductKey value = to_upper (js_trim (js_str (js_nn [value, JStr ''''])))"

section \<open>Product options\<close>

record product_option =
  po_provider :: string
  po_symbol :: string
  po_label :: string
  po_subtitle :: string
  po_marketKey :: "string option"
  po_asset :: "asset option"
  po_live :: "bool option"
  po_volume :: jsval
  po_openInterest :: jsval
  po_tickSize :: "jsnum option"
  po_tickValue :: "jsnum option"
  po_multiplier :: "jsnum option"
  po_rest :: jsval

definition opt_str :: "string option \<Rightarrow> jsval" where
  "opt_str v = (case v of None \<Rightarrow> JUndef | Some s \<Rightarrow> JStr s)"

definition option_keys :: "product_option \<Rightarrow> string list" where
  "option_keys opt = map normalizeProductKey [opt_str (po_marketKey opt), JStr (po_symbol opt), opt_str (po_asset opt)]"

text \<open>The set of aliases, in insertion order.\<close>

definition productAliasSet :: "product_option option \<Rightarrow> jsval \<Rightarrow> string list" where
  "productAliasSet opt fallback =
     first_occ (=) (filter (\<lambda>k. k \<noteq> '''')
       (normalizeProductKey fallback # (case opt of None \<Rightarrow> ['''', '''', ''''] | Some p \<Rightarrow> option_keys p)))"

text \<open>The candidates of an algo are read from an untyped payload.\<close>

definition algoMarketCandidates :: "jsval \<Rightarrow> string list" where
  "algoMarketCandidates algo =
     first_occ (=) (filter (\<lambda>k. k \<noteq> '''') (map normalizeProductKey
       ([js_get algo ''marketKey'', js_get algo ''symbol''] @ arr_elems (js_get algo ''instruments''))))"

definition findProductOptionForAlgo :: "product_option list \<Rightarrow> jsval \<Rightarrow> product_option option" where
  "findProductOptionForAlgo options algo =
     (let provider = normalizeProviderKey (js_get algo ''provider'');
          candidates = set (algoMarketCandidates algo);
          matches = (\<lambda>opt. list_ex (\<lambda>k. k \<in> candidates) (option_keys opt))
      in case List.find (\<lambda>opt. po_provider opt = provider \<and> matches opt) options of
           Some opt \<Rightarrow> Some opt
         | None \<Rightarrow> List.find matches options)"

definition resolveAlgoMarketKey :: "jsval \<Rightarrow> product_option option \<Rightarrow> string" where
  "resolveAlgoMarketKey algo opt =
     (let k = normalizeProductKey (case opt of None \<Rightarrow> JUndef | Some p \<Rightarrow> opt_str (po_marketKey p)) in
      if k \<noteq> '''' then k
      else (case algoMarketCandidates algo of
              c # _ \<Rightarrow> c
            | [] \<Rightarrow> normalizeProductKey (js_get algo ''symbol'')))"

section \<open>Alert rules\<close>

record alert_rule =
  al_id :: string
  al_symbol :: jsval
  al_provider :: string
  al_productSymbol :: "string option"
  al_field :: string
  al_op :: string
  al_value :: jsnum
  al_valueMode :: "string option"
  al_enabled :: bool
  al_audio :: bool
  al_desktop :: bool
  al_sms :: bool
  al_sound :: string
  al_phone :: "string option"

definition ALERT_FIELDS :: "string list" where
  "ALERT_FIELDS = [''last'', ''fill'']"

definition ALERT_OPS :: "string list" where
  "ALERT_OPS = [''>'', ''<'', ''>='', ''<='']"

definition ALERT_VALUE_MODES :: "string list" where
  "ALERT_VALUE_MODES = [''money'', ''percent'', ''cents'', ''price'']"

definition ALERT_SOUNDS :: "string list" where
  "ALERT_SOUNDS = [''system-chime'', ''system-bell'', ''system-alarm'']"

text \<open>\<open>ALLOWED.has(v) ? v : fallback\<close>\<close>

fun str_in :: "string list \<Rightarrow> jsval \<Rightarrow> string option" where
  "str_in allowed (JStr s) = (if s \<in> set allowed then Some s else None)"
| "str_in allowed _ = None"

fun str_only :: "jsval \<Rightarrow> string option" where
  "str_only (JStr s) = Some s"
| "str_only _ = None"

definition alert_of :: "rat \<Rightarrow> nat \<Rightarrow> jsval \<Rightarrow> alert_rule" where
  "alert_of now index source =
     (let rawDelivery = js_get source ''delivery'';
          d = (if is_object rawDelivery then rawDelivery else JObj [])
      in \<lparr>al_id = js_str (js_or [js_get source ''id'',
            JStr (''alert-'' @ jsnum_string (Fin now) @ ''-'' @ jsnum_string (Fin (of_nat index)))]),
          al_symbol = js_get source ''symbol'',
          al_provider = normalizeProviderKey (js_get source ''provider''),
          al_productSymbol = str_only (js_get source ''productSymbol''),
          al_field = opt_or (str_in ALERT_FIELDS (js_get source ''field'')) ''last'',
          al_op = opt_or (str_in ALERT_OPS (js_get source ''op'')) ''>='',
          al_value = finite_or (js_get source ''value'') (Fin 0),
          al_valueMode = str_in ALERT_VALUE_MODES (js_get source ''valueMode''),
          al_enabled = (js_get source ''enabled'' \<noteq> JBool False),
          al_audio = (js_get d ''audio'' \<noteq> JBool False),
          al_desktop = (js_get d ''desktop'' = JBool True),
          al_sms = (js_get d ''sms'' = JBool True),
          al_sound = opt_or (str_in ALERT_SOUNDS (js_get d ''sound'')) ''system-chime'',
          al_phone = str_only (js_get d ''phone'')\<rparr>)"

definition normalizeAlertRule :: "rat \<Rightarrow> jsval \<Rightarrow> nat \<Rightarrow> alert_rule option" where
  "normalizeAlertRule now raw index = (if is_object raw then Some (alert_of now index raw) else None)"

definition alert_value :: "alert_rule \<Rightarrow> jsval" where
  "alert_value a = JObj
     [(''id'', JStr (al_id a)), (''symbol'', al_symbol a), (''provider'', JStr (al_provider a)),
      (''productSymbol'', opt_str (al_productSymbol a)), (''field'', JStr (al_field a)), (''op'', JStr (al_op a)),
      (''value'', JNum (al_value a)), (''valueMode'', opt_str (al_valueMode a)), (''enabled'', JBool (al_enabled a)),
      (''delivery'', JObj [(''audio'', JBool (al_audio a)), (''desktop'', JBool (al_desktop a)),
         (''sms'', JBool (al_sms a)), (''sound'', JStr (al_sound a)), (''phone'', opt_str (al_phone a))])]"

definition venueColor :: "string \<Rightarrow> string option" where
  "venueColor provider =
     (if provider = ''execution'' then Some ''#f6c343'' else if provider = ''sim'' then Some ''#74ff8d''
      else dict_get PROVIDER_COLORS provider)"

section \<open>Depth-ladder settings\<close>

record depth_settings =
  ds_columnOrder :: "string list"
  ds_columnWidths :: "jsnum dict"
  ds_density :: jsval
  ds_priceMultiplier :: jsnum
  ds_softGrid :: bool
  ds_actionMode :: string
  ds_fastTrade :: bool

definition DEPTH_COLUMNS :: "string list" where
  "DEPTH_COLUMNS = [''orders'', ''bid'', ''price'', ''ask'']"

definition DEPTH_LADDER_PRICE_MULTIPLIERS :: "jsnum list" where
  "DEPTH_LADDER_PRICE_MULTIPLIERS = [Fin 1, Fin 2, Fin 4, Fin 5, Fin 8, Fin 10, Fin 16]"

definition DEFAULT_WIDTHS :: "jsnum dict" where
  "DEFAULT_WIDTHS = [(''orders'', Fin 72), (''bid'', Fin 112), (''price'', Fin 96), (''ask'', Fin 112)]"

definition DEFAULT_DEPTH_LADDER_SETTINGS :: depth_settings where
  "DEFAULT_DEPTH_LADDER_SETTINGS =
     \<lparr>ds_columnOrder = DEPTH_COLUMNS, ds_columnWidths = DEFAULT_WIDTHS, ds_density = JStr ''medium'',
      ds_priceMultiplier = Fin 1, ds_softGrid = True, ds_actionMode = ''limit'', ds_fastTrade = False\<rparr>"

definition js_clamp :: "jsnum \<Rightarrow> jsnum \<Rightarrow> jsnum \<Rightarrow> jsnum" where
  "js_clamp n lo hi = js_max lo (js_min hi n)"

definition column_order :: "jsval \<Rightarrow> string list" where
  "column_order source =
     (let rawOrder = (case js_get source ''columnOrder'' of JArr vs \<Rightarrow> vs | _ \<Rightarrow> map JStr DEPTH_COLUMNS)
      in first_occ (=) (List.map_filter (str_in DEPTH_COLUMNS) rawOrder @ DEPTH_COLUMNS))"

definition column_widths :: "jsval \<Rightarrow> jsnum dict" where
  "column_widths source =
     map (\<lambda>(column, fallback).
       let rawWidth = js_num (js_get (js_get source ''columnWidths'') column)
       in (column, if is_fin rawWidth then js_clamp rawWidth (Fin 48) (Fin 260) else fallback)) DEFAULT_WIDTHS"

definition bool_or :: "jsval \<Rightarrow> bool \<Rightarrow> bool" where
  "bool_or v d = (case v of JBool b \<Rightarrow> b | _ \<Rightarrow> d)"

definition normalizeDepthLadderSettings :: "jsval \<Rightarrow> depth_settings" where
  "normalizeDepthLadderSettings raw =
     (let source = (if is_object raw then raw else JObj []) in
      \<lparr>ds_columnOrder = column_order source,
       ds_columnWidths = column_widths source,
       ds_density = (if js_str (js_get source ''density'') \<in> set [''small'', ''medium'', ''large'']
                     then js_get source ''density'' else JStr ''medium''),
       ds_priceMultiplier = (let m = js_num (js_get source ''priceMultiplier'')
                             in if m \<in> set DEPTH_LADDER_PRICE_MULTIPLIERS then m else Fin 1),
       ds_softGrid = bool_or (js_get source ''softGrid'') True,
       ds_actionMode = (if js_get source ''actionMode'' = JStr ''market'' then ''market'' else ''limit''),
       ds_fastTrade = bool_or (js_get source ''fastTrade'') False\<rparr>)"

definition depth_value :: "depth_settings \<Rightarrow> jsval" where
  "depth_value d = JObj
     [(''columnOrder'', JArr (map JStr (ds_columnOrder d))),
      (''columnWidths'', JObj (map (\<lambda>(c, w). (c, JNum w)) (ds_columnWidths d))),
      (''density'', ds_density d), (''priceMultiplier'', JNum (ds_priceMultiplier d)),
      (''softGrid'', JBool (ds_softGrid d)), (''actionMode'', JStr (ds_actionMode d)),
      (''fastTrade'', JBool (ds_fastTrade d))]"

section \<open>Algo-manager selection\<close>

record manager_state =
  mg_stagedAlgoIds :: "string list"
  mg_selectedDeployIds :: "string list"
  mg_statusFilter :: string
  mg_deployStatus :: string
  mg_updatedAt :: jsnum

definition normalizeStringIdList :: "jsval \<Rightarrow> string list" where
  "normalizeStringIdList value =
     (case value of
        JArr items \<Rightarrow> first_occ (=) (filter (\<lambda>s. s \<noteq> '''')
          (map (\<lambda>item. js_trim (js_str (js_or [item, JStr '''']))) items))
      | _ \<Rightarrow> [])"

definition normalizeAlgoStatusFilter :: "jsval \<Rightarrow> string" where
  "normalizeAlgoStatusFilter value =
     (let raw = js_str (js_or [value, JStr ''all''])
      in if raw \<in> set [''held'', ''quoting'', ''paused'', ''draft''] then raw else ''all'')"

definition normalizeAlgoManagerWorkspaceState :: "rat \<Rightarrow> jsval \<Rightarrow> manager_state" where
  "normalizeAlgoManagerWorkspaceState now raw =
     (let row = (if is_object raw then raw else JObj []);
          stagedAlgoIds = normalizeStringIdList (js_get row ''stagedAlgoIds'')
      in \<lparr>mg_stagedAlgoIds = stagedAlgoIds,
          mg_selectedDeployIds = filter (\<lambda>i. i \<in> set stagedAlgoIds) (normalizeStringIdList (js_get row ''selectedDeployIds'')),
          mg_statusFilter = normalizeAlgoStatusFilter (js_get row ''statusFilter''),
          mg_deployStatus = '''',
          mg_updatedAt = js_num (js_or [js_get row ''updatedAt'', JNum (Fin now)])\<rparr>)"

definition manager_value :: "manager_state \<Rightarrow> jsval" where
  "manager_value m = JObj
     [(''stagedAlgoIds'', JArr (map JStr (mg_stagedAlgoIds m))),
      (''selectedDeployIds'', JArr (map JStr (mg_selectedDeployIds m))),
      (''statusFilter'', JStr (mg_statusFilter m)), (''deployStatus'', JStr (mg_deployStatus m)),
      (''updatedAt'', JNum (mg_updatedAt m))]"

section \<open>Lists of distinct strings\<close>

lemma first_occ_append: "first_occ (=) (xs @ ys) = first_occ (=) xs @ filter (\<lambda>y. y \<notin> set xs) (first_occ (=) ys)"
  by (induction xs) (auto simp: first_occ_Cons intro: filter_cong)

lemma first_occ_distinct: "distinct xs \<Longrightarrow> first_occ (=) xs = xs"
  by (induction xs) (auto simp: first_occ_Cons filter_id_conv)

lemma distinct_first_occ [simp]: "distinct (first_occ (=) xs)"
  using first_occ_key [of xs "(=)" id] by simp

lemma set_first_occ [simp]: "set (first_occ (=) xs) = set xs"
  using first_occ_key [of xs "(=)" id] by simp

lemma first_occ_absorb: "distinct xs \<Longrightarrow> set ys \<subseteq> set xs \<Longrightarrow> first_occ (=) (xs @ ys) = xs"
  by (auto simp: first_occ_append first_occ_distinct filter_empty_conv)

lemma map_filter_JStr: "list_all (\<lambda>s. s \<in> set allowed) xs \<Longrightarrow> List.map_filter (str_in allowed) (map JStr xs) = xs"
  by (induction xs) (auto simp: map_filter_simps)

lemma str_in_mem: "str_in allowed v = Some s \<Longrightarrow> s \<in> set allowed"
  by (cases v) (auto split: if_splits)

lemma opt_or_str_in: "d \<in> set allowed \<Longrightarrow> opt_or (str_in allowed v) d \<in> set allowed"
  by (cases "str_in allowed v") (auto dest: str_in_mem)

lemma str_in_JStr [simp]: "s \<in> set allowed \<Longrightarrow> str_in allowed (JStr s) = Some s"
  by simp

lemma opt_str_read [simp]: "str_only (opt_str v) = v"
  by (cases v) (simp_all add: opt_str_def)

lemma provider_cme [simp]: "normalizeProviderKey v = ''cme''"
  by (cases v) (auto simp: normalizeProviderKey_def PROVIDERS_def)

section \<open>Depth-ladder settings\<close>

definition depth_valid :: "depth_settings \<Rightarrow> bool" where
  "depth_valid d =
     (distinct (ds_columnOrder d) \<and> set (ds_columnOrder d) = set DEPTH_COLUMNS \<and>
      map fst (ds_columnWidths d) = DEPTH_COLUMNS \<and>
      list_all (\<lambda>(c, w). js_le (Fin 48) w \<and> js_le w (Fin 260)) (ds_columnWidths d) \<and>
      js_str (ds_density d) \<in> set [''small'', ''medium'', ''large''] \<and>
      ds_priceMultiplier d \<in> set DEPTH_LADDER_PRICE_MULTIPLIERS \<and>
      ds_actionMode d \<in> set [''limit'', ''market''])"

lemma js_clamp_Fin: "js_clamp (Fin q) (Fin lo) (Fin hi) = Fin (max lo (min hi q))"
  by (simp add: js_clamp_def)

lemma js_range_fin: "js_le (Fin lo) w \<Longrightarrow> js_le w (Fin hi) \<Longrightarrow> \<exists>q. w = Fin q \<and> lo \<le> q \<and> q \<le> hi"
  by (cases w) (auto simp: js_le_def)

lemma column_order_ok: "distinct (column_order s) \<and> set (column_order s) = set DEPTH_COLUMNS"
proof -
  have "set (List.map_filter (str_in DEPTH_COLUMNS) vs) \<subseteq> set DEPTH_COLUMNS" for vs
    by (auto simp: List.map_filter_def dest: str_in_mem)
  then show ?thesis by (auto simp: column_order_def Let_def split: jsval.splits)
qed

lemma column_widths_ok: "map fst (column_widths s) = DEPTH_COLUMNS \<and>
    list_all (\<lambda>(c, w). js_le (Fin 48) w \<and> js_le w (Fin 260)) (column_widths s)"
proof -
  have "js_le (Fin 48) w' \<and> js_le w' (Fin 260)"
    if "w' = (if is_fin w then js_clamp w (Fin 48) (Fin 260) else Fin q)" "48 \<le> q" "q \<le> 260" for w w' q
    using that by (auto simp: is_fin_conv js_clamp_Fin)
  then show ?thesis
    by (simp add: column_widths_def DEFAULT_WIDTHS_def DEPTH_COLUMNS_def Let_def)
qed

lemma depth_normal_valid: "depth_valid (normalizeDepthLadderSettings raw)"
  using column_order_ok column_widths_ok
  by (auto simp: normalizeDepthLadderSettings_def Let_def depth_valid_def DEPTH_LADDER_PRICE_MULTIPLIERS_def)

lemma depth_gets:
  "js_get (depth_value d) ''columnOrder'' = JArr (map JStr (ds_columnOrder d))"
  "js_get (depth_value d) ''columnWidths'' = JObj (map (\<lambda>(c, w). (c, JNum w)) (ds_columnWidths d))"
  "js_get (depth_value d) ''density'' = ds_density d"
  "js_get (depth_value d) ''priceMultiplier'' = JNum (ds_priceMultiplier d)"
  "js_get (depth_value d) ''softGrid'' = JBool (ds_softGrid d)"
  "js_get (depth_value d) ''actionMode'' = JStr (ds_actionMode d)"
  "js_get (depth_value d) ''fastTrade'' = JBool (ds_fastTrade d)"
  by (simp_all add: depth_value_def)

lemma column_order_read:
  assumes "distinct (ds_columnOrder d)" "set (ds_columnOrder d) = set DEPTH_COLUMNS"
  shows "column_order (depth_value d) = ds_columnOrder d"
  using assms map_filter_JStr [of DEPTH_COLUMNS "ds_columnOrder d"]
  by (simp add: column_order_def depth_gets first_occ_absorb list_all_iff)

lemma get_widths: "js_get (JObj (map (\<lambda>(c, w). (c, JNum w)) ws)) c =
    (case dict_get ws c of None \<Rightarrow> JUndef | Some w \<Rightarrow> JNum w)"
  by (induction ws) auto

lemma column_widths_read:
  assumes "map fst (ds_columnWidths d) = DEPTH_COLUMNS"
    "list_all (\<lambda>(c, w). js_le (Fin 48) w \<and> js_le w (Fin 260)) (ds_columnWidths d)"
  shows "column_widths (depth_value d) = ds_columnWidths d"
proof -
  obtain w1 w2 w3 w4 where w: "ds_columnWidths d = [(''orders'', w1), (''bid'', w2), (''price'', w3), (''ask'', w4)]"
    using assms(1) by (auto simp: DEPTH_COLUMNS_def map_eq_Cons_conv)
  have c: "(if is_fin w then js_clamp w (Fin 48) (Fin 260) else v) = w"
    if "js_le (Fin 48) w" "js_le w (Fin 260)" for w v
    using js_range_fin [OF that] by (auto simp: js_clamp_Fin)
  have "js_le (Fin 48) w \<and> js_le w (Fin 260)" if "w \<in> {w1, w2, w3, w4}" for w
    using assms(2) that by (auto simp: w)
  then show ?thesis
    using c by (simp add: column_widths_def DEFAULT_WIDTHS_def depth_gets w)
qed

lemma depth_read_back:
  assumes v: "depth_valid d"
  shows "normalizeDepthLadderSettings (depth_value d) = d"
proof -
  have o': "(if is_object (depth_value d) then depth_value d else JObj []) = depth_value d" by (simp add: depth_value_def)
  have c: "column_order (depth_value d) = ds_columnOrder d" "column_widths (depth_value d) = ds_columnWidths d"
    using v by (simp_all add: depth_valid_def column_order_read column_widths_read)
  have f: "js_str (ds_density d) \<in> set [''small'', ''medium'', ''large''] \<longleftrightarrow> True"
    "ds_priceMultiplier d \<in> set DEPTH_LADDER_PRICE_MULTIPLIERS \<longleftrightarrow> True"
    "(if JStr (ds_actionMode d) = JStr ''market'' then ''market'' else ''limit'') = ds_actionMode d"
    using v by (auto simp: depth_valid_def)
  show ?thesis
    unfolding normalizeDepthLadderSettings_def Let_def o' depth_gets c js_num.simps f bool_or_def by simp
qed

interpretation depth: normalizer normalizeDepthLadderSettings depth_value "\<lambda>_. True" depth_valid id
  by unfold_locales (simp_all add: depth_normal_valid depth_read_back)

section \<open>Algo-manager selection\<close>

definition id_list :: "string list \<Rightarrow> bool" where
  "id_list xs = (distinct xs \<and> list_all (\<lambda>s. s \<noteq> '''' \<and> js_trim s = s) xs)"

definition manager_valid :: "manager_state \<Rightarrow> bool" where
  "manager_valid m =
     (id_list (mg_stagedAlgoIds m) \<and> id_list (mg_selectedDeployIds m) \<and>
      set (mg_selectedDeployIds m) \<subseteq> set (mg_stagedAlgoIds m) \<and>
      mg_statusFilter m \<in> set [''held'', ''quoting'', ''paused'', ''draft'', ''all''] \<and> mg_deployStatus m = '''' \<and>
      is_fin (mg_updatedAt m) \<and> mg_updatedAt m \<noteq> Fin 0)"

text \<open>The stored time is missing or a number, as the terminal writes it; any other field may be anything.\<close>

definition manager_readable :: "rat \<Rightarrow> jsval \<Rightarrow> bool" where
  "manager_readable now raw = (0 < now \<and> (case js_get raw ''updatedAt'' of
     JNum x \<Rightarrow> is_fin x \<or> x = NaN | JUndef \<Rightarrow> True | JNull \<Rightarrow> True | _ \<Rightarrow> False))"

lemma id_list_normal: "id_list (normalizeStringIdList v)"
  by (cases v) (auto simp: normalizeStringIdList_def id_list_def list_all_iff)

lemma id_list_filter: "id_list xs \<Longrightarrow> id_list (filter P xs)"
  by (auto simp: id_list_def list_all_iff)

lemma id_list_read:
  assumes "id_list xs"
  shows "normalizeStringIdList (JArr (map JStr xs)) = xs"
proof -
  have "map (\<lambda>s. js_trim (js_str (js_or [JStr s, JStr '''']))) xs = xs"
    using assms by (intro map_idI) (auto simp: id_list_def list_all_iff)
  then have "map (\<lambda>item. js_trim (js_str (js_or [item, JStr '''']))) (map JStr xs) = xs"
    by (simp add: comp_def)
  moreover have "filter (\<lambda>s. s \<noteq> '''') xs = xs"
    using assms by (auto simp: id_list_def list_all_iff filter_id_conv)
  ultimately show ?thesis
    using assms by (simp add: normalizeStringIdList_def first_occ_distinct id_list_def)
qed

lemma manager_normal_valid:
  assumes "manager_readable now raw"
  shows "manager_valid (normalizeAlgoManagerWorkspaceState now raw)"
proof -
  have u: "js_get (if is_object raw then raw else JObj []) k = js_get raw k" for k
    by (cases raw) simp_all
  have "is_fin (js_num (js_or [js_get raw ''updatedAt'', JNum (Fin now)]))"
    "js_num (js_or [js_get raw ''updatedAt'', JNum (Fin now)]) \<noteq> Fin 0"
    using assms by (auto simp: manager_readable_def split: jsval.splits)
  then show ?thesis
    by (auto simp: manager_valid_def normalizeAlgoManagerWorkspaceState_def Let_def u id_list_normal id_list_filter
        normalizeAlgoStatusFilter_def)
qed

lemma status_filter_read: "f \<in> set [''held'', ''quoting'', ''paused'', ''draft'', ''all''] \<Longrightarrow>
    normalizeAlgoStatusFilter (JStr f) = f"
  by (auto simp: normalizeAlgoStatusFilter_def)

lemma manager_read_back: "manager_valid m \<Longrightarrow> normalizeAlgoManagerWorkspaceState now (manager_value m) = m"
proof -
  assume v: "manager_valid m"
  have "js_or [JNum (mg_updatedAt m), JNum (Fin now)] = JNum (mg_updatedAt m)"
    using v by (auto simp: manager_valid_def)
  moreover have "filter (\<lambda>i. i \<in> set (mg_stagedAlgoIds m)) (mg_selectedDeployIds m) = mg_selectedDeployIds m"
    using v by (auto simp: manager_valid_def filter_id_conv)
  ultimately show ?thesis
    using v by (cases m) (simp add: normalizeAlgoManagerWorkspaceState_def manager_value_def id_list_read
        status_filter_read manager_valid_def del: js_or.simps)
qed

interpretation manager: normalizer "normalizeAlgoManagerWorkspaceState now" manager_value "manager_readable now" manager_valid id
  for now
  by unfold_locales (simp_all add: manager_normal_valid manager_read_back)

section \<open>Alert rules\<close>

definition alert_valid :: "alert_rule \<Rightarrow> bool" where
  "alert_valid a =
     (al_id a \<noteq> '''' \<and> al_provider a = ''cme'' \<and> al_field a \<in> set ALERT_FIELDS \<and> al_op a \<in> set ALERT_OPS \<and>
      is_fin (al_value a) \<and> (case al_valueMode a of None \<Rightarrow> True | Some m \<Rightarrow> m \<in> set ALERT_VALUE_MODES) \<and>
      al_sound a \<in> set ALERT_SOUNDS)"

text \<open>The id is missing, falsy or something that prints (an empty array prints as the empty string).\<close>

definition alert_readable :: "jsval \<Rightarrow> bool" where
  "alert_readable raw = (truthy (js_get raw ''id'') \<longrightarrow> js_str (js_get raw ''id'') \<noteq> '''')"

lemma alert_choices:
  "opt_or (str_in ALERT_FIELDS v) ''last'' \<in> set ALERT_FIELDS"
  "opt_or (str_in ALERT_OPS v) ''>='' \<in> set ALERT_OPS"
  "opt_or (str_in ALERT_SOUNDS v) ''system-chime'' \<in> set ALERT_SOUNDS"
  by (rule opt_or_str_in, simp add: ALERT_FIELDS_def ALERT_OPS_def ALERT_SOUNDS_def)+

lemma alert_normal_valid: "alert_readable raw \<Longrightarrow> alert_valid (alert_of now i raw)"
  by (auto simp: alert_valid_def alert_of_def Let_def alert_readable_def is_fin_finite_or alert_choices
      dest: str_in_mem split: option.splits)

lemma alert_gets:
  "js_get (alert_value a) ''id'' = JStr (al_id a)" "js_get (alert_value a) ''symbol'' = al_symbol a"
  "js_get (alert_value a) ''provider'' = JStr (al_provider a)"
  "js_get (alert_value a) ''productSymbol'' = opt_str (al_productSymbol a)"
  "js_get (alert_value a) ''field'' = JStr (al_field a)" "js_get (alert_value a) ''op'' = JStr (al_op a)"
  "js_get (alert_value a) ''value'' = JNum (al_value a)"
  "js_get (alert_value a) ''valueMode'' = opt_str (al_valueMode a)"
  "js_get (alert_value a) ''enabled'' = JBool (al_enabled a)"
  "js_get (alert_value a) ''delivery'' = JObj [(''audio'', JBool (al_audio a)), (''desktop'', JBool (al_desktop a)),
     (''sms'', JBool (al_sms a)), (''sound'', JStr (al_sound a)), (''phone'', opt_str (al_phone a))]"
  by (simp_all add: alert_value_def)

lemma alert_read_back:
  assumes "alert_valid a"
  shows "alert_of now i (alert_value a) = a"
proof -
  have m: "str_in ALERT_VALUE_MODES (opt_str (al_valueMode a)) = al_valueMode a"
    using assms by (cases "al_valueMode a") (auto simp: alert_valid_def opt_str_def)
  have s: "str_in ALERT_FIELDS (JStr (al_field a)) = Some (al_field a)" "str_in ALERT_OPS (JStr (al_op a)) = Some (al_op a)"
    "str_in ALERT_SOUNDS (JStr (al_sound a)) = Some (al_sound a)"
    using assms by (simp_all add: alert_valid_def)
  have f: "finite_or (JNum (al_value a)) d = al_value a" for d
    using assms by (simp add: finite_or_def alert_valid_def)
  show ?thesis
    using assms m s f by (cases a) (simp add: alert_of_def alert_gets alert_valid_def del: str_in.simps)
qed

interpretation alerts: normalizer "alert_of now i" alert_value alert_readable alert_valid id for now i
  by unfold_locales (simp_all add: alert_normal_valid alert_read_back)

section \<open>Properties\<close>

text \<open>
  Reading depth-ladder settings from storage never fails and always yields a usable ladder, whatever
  was stored: each of the four columns exactly once, widths between 48 and 260, an offered multiplier,
  a known density and action mode; and settings that were read, stored and read again are unchanged.
\<close>

theorem depth_settings_readback:
  "depth_valid (normalizeDepthLadderSettings raw) \<and>
   normalizeDepthLadderSettings (depth_value (normalizeDepthLadderSettings raw)) = normalizeDepthLadderSettings raw"
  using depth.normal_valid [of raw] depth.normal_idem [of raw] by simp

text \<open>
  Alert rules and the algo-manager selection read from storage are valid (known field, operator,
  sound and mode and a finite threshold for an alert; distinct trimmed ids, every selected id staged,
  no deploy message for the selection) and survive being stored and read again, at any later time.
\<close>

theorem stored_rows_readback:
  assumes "alert_readable raw" "manager_readable now mraw"
  shows "alert_valid (alert_of now i raw) \<and> alert_of later j (alert_value (alert_of now i raw)) = alert_of now i raw \<and>
    manager_valid (normalizeAlgoManagerWorkspaceState now mraw) \<and>
    normalizeAlgoManagerWorkspaceState later (manager_value (normalizeAlgoManagerWorkspaceState now mraw)) =
      normalizeAlgoManagerWorkspaceState now mraw"
  using alerts.normal_valid [OF assms(1), of now i] manager.normal_valid [OF assms(2)]
    alerts.read_back [of "alert_of now i raw" later j]
    manager.read_back [of "normalizeAlgoManagerWorkspaceState now mraw" later]
  by simp

theorem stored_rows_readback_witness:
  "alert_valid (alert_of 7 0 (JObj [(''op'', JStr ''!=''), (''value'', JStr ''12.5'')])) \<and>
   manager_valid (normalizeAlgoManagerWorkspaceState 7 (JObj [(''stagedAlgoIds'', JArr [JStr '' a '', JStr ''a'', JNull])]))"
  using stored_rows_readback [of "JObj [(''op'', JStr ''!=''), (''value'', JStr ''12.5'')]" 7
    "JObj [(''stagedAlgoIds'', JArr [JStr '' a '', JStr ''a'', JNull])]" 0 8 0]
  by (simp add: alert_readable_def manager_readable_def)

text \<open>
  No window the workspace can create is dropped when it is read back: none of the 37 labelled kinds
  matches a removed-kind pattern, and every kind of the widget menu has a label and stands in one group.
\<close>

theorem supported_kinds_survive:
  "length WINDOW_LABELS = 37 \<and> list_all (\<lambda>(k, _). \<not> isRemovedWindowKind (JStr k)) WINDOW_LABELS \<and>
   list_all (\<lambda>k. dict_get WINDOW_LABELS k \<noteq> None) (concat (map snd WIDGET_MENU)) \<and>
   distinct (concat (map snd WIDGET_MENU))"
  by code_simp

end
