(* ===== verification/Algos.thy ===== *)
theory Algos
  imports Desk "HOL-Library.List_Lexorder"
begin

text \<open>
  The algo library of \<open>apps/terminal/src/components/WorkspaceDesktop.tsx\<close>: default definitions, the
  normalisers of stored and of served definitions, their order, and the operations of
  \<open>useAlgoLibrary\<close> on the list and its stored copy.  The policy objects are spread over their
  defaults without checking their fields, so they stay untyped.  \<open>dp\<close> is \<open>Date.parse\<close>, \<open>lc\<close> is
  \<open>String.prototype.localeCompare\<close>.
\<close>

record signal_rule =
  sr_id :: string
  sr_field :: string
  sr_operator :: string
  sr_value :: jsval
  sr_action :: string
  sr_enabled :: bool

record cerious_fields =
  cf_templateId :: string
  cf_version :: string
  cf_instruments :: "string list"
  cf_signalRules :: "signal_rule list"
  cf_risk :: jsval
  cf_midpointPeg :: jsval
  cf_entryPeg :: jsval
  cf_layerPlan :: jsval
  cf_syntheticOrderManager :: jsval
  cf_exitPolicy :: jsval
  cf_orderPolicy :: jsval
  cf_notes :: "string option"

record algo_def =
  ag_id :: string
  ag_name :: string
  ag_template :: string
  ag_fields :: cerious_fields
  ag_provider :: string
  ag_symbol :: string
  ag_marketKey :: "string option"
  ag_side :: string
  ag_orderType :: string
  ag_clipSize :: jsnum
  ag_maxPosition :: jsnum
  ag_operator :: string
  ag_status :: string
  ag_updatedAt :: jsnum

section \<open>Defaults\<close>

definition algoTemplateLabel :: "string \<Rightarrow> string" where
  "algoTemplateLabel template = (if template = ''mean-reversion-v2'' then ''Mean Reversion v2'' else ''Scale In'')"

abbreviation JInt :: "rat \<Rightarrow> jsval" where
  "JInt q \<equiv> JNum (Fin q)"

definition defaultSignalRules :: "signal_rule list" where
  "defaultSignalRules =
    [\<lparr>sr_id = ''regression-bands-ready'', sr_field = ''linearRegressionBands'', sr_operator = ''='', sr_value = JBool True,
      sr_action = ''pegEntryBands'', sr_enabled = True\<rparr>,
     \<lparr>sr_id = ''entry-touch'', sr_field = ''marketCanTradeTarget'', sr_operator = ''='', sr_value = JBool True,
      sr_action = ''releaseSniperEntry'', sr_enabled = True\<rparr>,
     \<lparr>sr_id = ''oco-cover'', sr_field = ''entryFilled'', sr_operator = ''='', sr_value = JBool True,
      sr_action = ''attachOcoCover'', sr_enabled = True\<rparr>]"

definition defaultCeriousMeanReversionFields :: "string \<Rightarrow> cerious_fields" where
  "defaultCeriousMeanReversionFields symbol =
    \<lparr>cf_templateId = ''mean-reversion-v2'', cf_version = ''2.0'', cf_instruments = [symbol],
     cf_signalRules = defaultSignalRules,
     cf_risk = JObj [(''maxPosition'', JInt 1), (''maxLossAtr'', JInt 88), (''clipSchedule'', JStr ''layered''),
       (''requireMarketOpen'', JBool True)],
     cf_midpointPeg = JObj [(''enabled'', JBool False), (''source'', JStr ''30m-vwap''),
       (''label'', JStr ''Peg VWAP for midpoint''), (''previousClose'', JBool False)],
     cf_entryPeg = JObj [(''source'', JStr ''linear-regression''), (''standardDeviations'', JInt 2)],
     cf_layerPlan = JObj [(''layerCount'', JInt 3), (''layerSpacingTicks'', JInt 2), (''maxLayers'', JInt 5),
       (''applySymmetrically'', JBool True), (''workBuySide'', JBool True), (''workSellSide'', JBool True)],
     cf_syntheticOrderManager = JObj [(''enabled'', JBool True), (''containerizedOrders'', JBool True),
       (''entryTechnique'', JStr ''sniper-market-if-target-price-achievable''), (''holdUntilTriggered'', JBool True),
       (''releaseDestination'', JStr ''exchange-gateway'')],
     cf_exitPolicy = JObj [(''attachOnEntryFill'', JBool True), (''oco'', JBool True), (''coverTicksFromFill'', JInt 6),
       (''profitTicksFromEntry'', JInt 6), (''stopTicksFromEntry'', JInt 88), (''stopType'', JStr ''market''),
       (''coverLimitPlacement'', JStr ''above-bid-or-below-offer'')],
     cf_orderPolicy = JObj [(''mode'', JStr ''synthetic-sniper''), (''orderType'', JStr ''synthetic-held-market-release''),
       (''priceReference'', JStr ''linear-regression-bands''), (''doNotCrossInside'', JBool True),
       (''doNotCrossSelf'', JBool True), (''liveOrderEntryEnabled'', JBool False)],
     cf_notes = None\<rparr>"

definition defaultAlgo :: "rat \<Rightarrow> product_option option \<Rightarrow> string \<Rightarrow> algo_def" where
  "defaultAlgo now opt operator =
     (let symbol = (case opt of None \<Rightarrow> ''ES_NQ'' | Some p \<Rightarrow> opt_or (po_marketKey p) (po_symbol p))
      in \<lparr>ag_id = ''algo-'' @ jsnum_string (Fin now), ag_name = symbol @ '' Mean Reversion'',
          ag_template = ''mean-reversion-v2'', ag_fields = defaultCeriousMeanReversionFields symbol,
          ag_provider = (case opt of None \<Rightarrow> ''cme'' | Some p \<Rightarrow> po_provider p), ag_symbol = symbol,
          ag_marketKey = (case opt of None \<Rightarrow> None | Some p \<Rightarrow> po_marketKey p), ag_side = ''both'',
          ag_orderType = ''limit'', ag_clipSize = Fin 1, ag_maxPosition = Fin 1, ag_operator = operator,
          ag_status = ''held'', ag_updatedAt = Fin now\<rparr>)"

section \<open>Normalisation\<close>

definition asTemplate :: "jsval \<Rightarrow> string" where
  "asTemplate value =
     (let template = js_str (js_nn [value, JStr '''']) in
      if template \<in> set [''mean-reversion-v2'', ''scale-in''] then template else ''mean-reversion-v2'')"

definition signal_rule_of :: "nat \<times> jsval \<Rightarrow> signal_rule" where
  "signal_rule_of = (\<lambda>(index, rule).
     let row = (if is_object rule then rule else JObj []);
         rawField = js_str (js_nn [js_get row ''field'', JStr '''']);
         fieldLower = to_lower rawField
     in \<lparr>sr_id = js_str (js_nn [js_get row ''id'', JStr (''rule-'' @ jsnum_string (Fin (of_nat index + 1)))]),
         sr_field = (if js_includes ''linearregression'' fieldLower \<and> js_includes ''band'' fieldLower
                     then ''linearRegressionBands'' else rawField),
         sr_operator = js_str (js_nn [js_get row ''operator'', JStr ''='']),
         sr_value = (case js_get row ''value'' of JBool b \<Rightarrow> JBool b | JNum x \<Rightarrow> JNum x | JStr s \<Rightarrow> JStr s | _ \<Rightarrow> JBool True),
         sr_action = js_str (js_nn [js_get row ''action'', JStr '''']),
         sr_enabled = (js_get row ''enabled'' \<noteq> JBool False)\<rparr>)"

definition asSignalRules :: "jsval \<Rightarrow> signal_rule list" where
  "asSignalRules value =
     (case value of JArr rows \<Rightarrow> map signal_rule_of (List.enumerate 0 rows) | _ \<Rightarrow> defaultSignalRules)"

definition mergeObject :: "jsval \<Rightarrow> jsval \<Rightarrow> jsval" where
  "mergeObject defaults value = (if is_object value then js_spread defaults value else defaults)"

definition obj_put :: "string \<Rightarrow> jsval \<Rightarrow> jsval \<Rightarrow> jsval" where
  "obj_put k v obj = JObj (AList.update k v (obj_pairs obj))"

definition normalizedLookback :: "jsval \<Rightarrow> jsnum option" where
  "normalizedLookback value =
     (let parsed = js_num value in
      if \<not> is_fin parsed then None
      else let lookback = js_floor parsed in
           if js_lt lookback (Fin 2) then None else Some (js_min (Fin 2000) lookback))"

definition normalizeCeriousFields :: "jsval \<Rightarrow> string \<Rightarrow> cerious_fields" where
  "normalizeCeriousFields item symbol =
     (let productKey = (let k = normalizeProductKey (JStr symbol) in if k = '''' then ''ES_NQ'' else k);
          defaults = defaultCeriousMeanReversionFields productKey;
          entry0 = mergeObject (cf_entryPeg defaults) (js_get item ''entryPeg'');
          rawEntryPeg = js_get item ''entryPeg'';
          entry1 = (case normalizedLookback (js_nn [js_get rawEntryPeg ''lookback'', js_get entry0 ''lookback'']) of
                      Some l \<Rightarrow> obj_put ''lookback'' (JNum l) entry0 | None \<Rightarrow> entry0);
          entryPeg = (if js_includes ''linear-regression'' (to_lower (js_str (js_get entry1 ''source'')))
                      then obj_put ''source'' (JStr ''linear-regression'') entry1 else entry1);
          order0 = mergeObject (cf_orderPolicy defaults) (js_get item ''orderPolicy'');
          orderPolicy = (if js_includes ''27'' (to_lower (js_str (js_get order0 ''priceReference'')))
                         then obj_put ''priceReference'' (JStr ''linear-regression-bands'') order0 else order0)
      in \<lparr>cf_templateId = js_str (js_nn [js_get item ''templateId'', JStr (cf_templateId defaults)]),
          cf_version = js_str (js_nn [js_get item ''version'', JStr (cf_version defaults)]),
          cf_instruments = [productKey],
          cf_signalRules = asSignalRules (js_get item ''signalRules''),
          cf_risk = mergeObject (cf_risk defaults) (js_get item ''risk''),
          cf_midpointPeg = mergeObject (cf_midpointPeg defaults) (js_get item ''midpointPeg''),
          cf_entryPeg = entryPeg,
          cf_layerPlan = mergeObject (cf_layerPlan defaults) (js_get item ''layerPlan''),
          cf_syntheticOrderManager = mergeObject (cf_syntheticOrderManager defaults) (js_get item ''syntheticOrderManager''),
          cf_exitPolicy = mergeObject (cf_exitPolicy defaults) (js_get item ''exitPolicy''),
          cf_orderPolicy = orderPolicy,
          cf_notes = Some (js_str (js_nn [js_get item ''notes'', JStr '''']))\<rparr>)"

text \<open>\<open>Number(v) || d\<close>\<close>

definition num_or :: "jsval \<Rightarrow> jsnum \<Rightarrow> jsnum" where
  "num_or v d = (let n = js_num v in if n = NaN \<or> n = Fin 0 then d else n)"

definition pos_or :: "jsnum \<Rightarrow> jsnum \<Rightarrow> jsnum" where
  "pos_or x d = (if is_fin x \<and> js_lt (Fin 0) x then x else d)"

definition head_str :: "string list \<Rightarrow> jsval" where
  "head_str xs = (case xs of [] \<Rightarrow> JUndef | x # _ \<Rightarrow> JStr x)"

definition first_key :: "string list \<Rightarrow> string" where
  "first_key ks = (case filter (\<lambda>k. k \<noteq> '''') ks of [] \<Rightarrow> ''ES_NQ'' | k # _ \<Rightarrow> k)"

text \<open>The definition read from a served payload, and its guards.\<close>

definition served_algo :: "(string \<Rightarrow> jsnum) \<Rightarrow> jsval \<Rightarrow> string \<Rightarrow> string \<Rightarrow> algo_def" where
  "served_algo dp item i name =
     (let instruments = map js_str (arr_elems (js_get item ''instruments''));
          risk = js_get item ''risk'';
          layerPlan = js_get item ''layerPlan'';
          templateId = js_str (js_nn [js_get item ''templateId'', JStr ''mean-reversion-v2'']);
          symbol = first_key [normalizeProductKey (js_nn [js_get item ''marketKey'', js_get item ''symbol'']),
                              normalizeProductKey (head_str instruments)];
          statusRaw = js_str (js_nn [js_get item ''status'', JStr ''held'']);
          rawClipSize = js_num (js_nn [js_get item ''clipSize'', js_get item ''contractsPerOrder'',
            js_get item ''orderSize'', js_get risk ''clipSize'', js_get risk ''contractsPerOrder'', JInt 1]);
          rawMaxPosition = js_num (js_nn [js_get item ''maxPosition'', js_get risk ''maxPosition'', JNum rawClipSize]);
          clipSize = pos_or rawClipSize (Fin 1);
          maxPosition = pos_or rawMaxPosition clipSize
      in \<lparr>ag_id = i, ag_name = name, ag_template = asTemplate (JStr templateId),
          ag_fields = normalizeCeriousFields item symbol, ag_provider = ''cme'', ag_symbol = symbol,
          ag_marketKey = Some symbol,
          ag_side = (if js_get layerPlan ''workSellSide'' = JBool False then ''bid''
                     else if js_get layerPlan ''workBuySide'' = JBool False then ''offer'' else ''both''),
          ag_orderType = ''limit'', ag_clipSize = clipSize, ag_maxPosition = maxPosition,
          ag_operator = ''Cerious Trader'',
          ag_status = (if statusRaw \<in> set [''draft'', ''paused''] then statusRaw else ''held''),
          ag_updatedAt = (let t = dp (js_str (js_nn [js_get item ''updatedAt'', js_get item ''createdAt'', JStr '''']))
                          in if t = NaN then Fin 0 else t)\<rparr>)"

definition ceriousDefinitionToAlgo :: "(string \<Rightarrow> jsnum) \<Rightarrow> jsval \<Rightarrow> algo_def option js_result" where
  "ceriousDefinitionToAlgo dp item =
     (if is_nullish item then Inl TypeError
      else let i = js_str (js_nn [js_get item ''id'', JStr '''']);
               name = js_str (js_nn [js_get item ''name'', JStr i])
      in Inr (if i = '''' \<or> name = '''' then None else Some (served_algo dp item i name)))"

definition DEFAULT_OPERATOR :: string where
  "DEFAULT_OPERATOR = ''Operator 1''"

text \<open>The definition read from a stored payload, and its guards.\<close>

definition stored_algo :: "rat \<Rightarrow> jsval \<Rightarrow> string \<Rightarrow> string \<Rightarrow> algo_def" where
  "stored_algo now item i name =
     (let symbol = first_key (algoMarketCandidates item);
          fields = normalizeCeriousFields item symbol;
          risk = cf_risk fields;
          statusRaw = js_str (js_nn [js_get item ''status'', JStr ''held'']);
          sideRaw = js_str (js_nn [js_get item ''side'', JStr ''both'']);
          orderTypeRaw = js_str (js_nn [js_get item ''orderType'', JStr ''limit'']);
          clipSize = js_max (Fin 1) (num_or (js_nn [js_get item ''clipSize'', js_get risk ''clipSize'',
            js_get risk ''contractsPerOrder'', JInt 1]) (Fin 1));
          maxPosition = js_max (Fin 1) (num_or (js_nn [js_get item ''maxPosition'', js_get risk ''maxPosition'',
            JNum clipSize]) clipSize)
      in \<lparr>ag_id = i, ag_name = name,
          ag_template = asTemplate (js_nn [js_get item ''template'', js_get item ''templateId'']),
          ag_fields = fields, ag_provider = normalizeProviderKey (js_get item ''provider''), ag_symbol = symbol,
          ag_marketKey = Some (js_str (js_nn [js_get item ''marketKey'', JStr symbol])),
          ag_side = (if sideRaw \<in> set [''bid'', ''offer'', ''both''] then sideRaw else ''both''),
          ag_orderType = (if orderTypeRaw = ''market'' then ''market'' else ''limit''),
          ag_clipSize = clipSize, ag_maxPosition = maxPosition,
          ag_operator = js_str (js_nn [js_get item ''operator'', JStr DEFAULT_OPERATOR]),
          ag_status = (if statusRaw \<in> set [''draft'', ''paused'', ''quoting'', ''held''] then statusRaw else ''held''),
          ag_updatedAt = js_num (js_nn [js_get item ''updatedAt'', JNum (Fin now)])\<rparr>)"

definition normalizeStoredAlgoDefinition :: "rat \<Rightarrow> jsval \<Rightarrow> algo_def option" where
  "normalizeStoredAlgoDefinition now item =
     (if \<not> is_object item then None
      else let i = js_trim (js_str (js_nn [js_get item ''id'', JStr '''']));
               name = js_trim (js_str (js_nn [js_get item ''name'', JStr i]))
      in if i = '''' \<or> name = '''' then None else Some (stored_algo now item i name))"

section \<open>Order and storage\<close>

definition algo_cmp :: "(string \<Rightarrow> string \<Rightarrow> jsnum) \<Rightarrow> algo_def \<Rightarrow> algo_def \<Rightarrow> jsnum" where
  "algo_cmp lc a b =
     (let symbolRank = lc (normalizeProductKey (JStr (ag_symbol a))) (normalizeProductKey (JStr (ag_symbol b)))
      in if symbolRank \<noteq> Fin 0 then symbolRank
      else let nameRank = lc (ag_name a) (ag_name b)
      in if nameRank \<noteq> Fin 0 then nameRank
      else js_sub (ag_updatedAt b) (ag_updatedAt a))"

definition sortAlgoDefinitions :: "(string \<Rightarrow> string \<Rightarrow> jsnum) \<Rightarrow> algo_def list \<Rightarrow> algo_def list" where
  "sortAlgoDefinitions lc list = js_sort (algo_cmp lc) list"

definition normalizeAlgoLibrarySnapshot :: "(string \<Rightarrow> string \<Rightarrow> jsnum) \<Rightarrow> rat \<Rightarrow> jsval \<Rightarrow> algo_def list option" where
  "normalizeAlgoLibrarySnapshot lc now raw =
     (case raw of
        JArr items \<Rightarrow> Some (sortAlgoDefinitions lc (List.map_filter (normalizeStoredAlgoDefinition now) items))
      | _ \<Rightarrow> None)"

definition algoDefinitionForStorage :: "algo_def \<Rightarrow> algo_def" where
  "algoDefinitionForStorage algo = algo\<lparr>ag_status := (if ag_status algo = ''quoting'' then ''held'' else ag_status algo)\<rparr>"

definition rule_value :: "signal_rule \<Rightarrow> jsval" where
  "rule_value r = JObj [(''id'', JStr (sr_id r)), (''field'', JStr (sr_field r)), (''operator'', JStr (sr_operator r)),
     (''value'', sr_value r), (''action'', JStr (sr_action r)), (''enabled'', JBool (sr_enabled r))]"

definition algo_value :: "algo_def \<Rightarrow> jsval" where
  "algo_value a =
     (let f = ag_fields a in JObj
     [(''templateId'', JStr (cf_templateId f)), (''version'', JStr (cf_version f)),
      (''instruments'', JArr (map JStr (cf_instruments f))), (''signalRules'', JArr (map rule_value (cf_signalRules f))),
      (''risk'', cf_risk f), (''midpointPeg'', cf_midpointPeg f), (''entryPeg'', cf_entryPeg f),
      (''layerPlan'', cf_layerPlan f), (''syntheticOrderManager'', cf_syntheticOrderManager f),
      (''exitPolicy'', cf_exitPolicy f), (''orderPolicy'', cf_orderPolicy f), (''notes'', opt_str (cf_notes f)),
      (''id'', JStr (ag_id a)), (''name'', JStr (ag_name a)), (''template'', JStr (ag_template a)),
      (''provider'', JStr (ag_provider a)), (''symbol'', JStr (ag_symbol a)), (''marketKey'', opt_str (ag_marketKey a)),
      (''side'', JStr (ag_side a)), (''orderType'', JStr (ag_orderType a)), (''clipSize'', JNum (ag_clipSize a)),
      (''maxPosition'', JNum (ag_maxPosition a)), (''operator'', JStr (ag_operator a)),
      (''status'', JStr (ag_status a)), (''updatedAt'', JNum (ag_updatedAt a))])"

text \<open>The library hook: the list on screen and the text under \<open>ALGO_LIBRARY_KEY\<close>, as the value it parses to.\<close>

record library_state =
  lb_algos :: "algo_def list"
  lb_stored :: "jsval option"

definition publishAlgoLibrary :: "algo_def list \<Rightarrow> jsval" where
  "publishAlgoLibrary next = JArr (map (algo_value \<circ> algoDefinitionForStorage) next)"

definition loadAlgoLibrary :: "(string \<Rightarrow> string \<Rightarrow> jsnum) \<Rightarrow> rat \<Rightarrow> jsval option \<Rightarrow> algo_def list" where
  "loadAlgoLibrary lc now stored =
     (case stored of None \<Rightarrow> [] | Some v \<Rightarrow> opt_or (normalizeAlgoLibrarySnapshot lc now v) [])"

definition library_commit :: "(string \<Rightarrow> string \<Rightarrow> jsnum) \<Rightarrow> (algo_def list \<Rightarrow> algo_def list) \<Rightarrow> library_state \<Rightarrow> library_state" where
  "library_commit lc updater s =
     (let next = sortAlgoDefinitions lc (updater (lb_algos s))
      in \<lparr>lb_algos = next, lb_stored = Some (publishAlgoLibrary next)\<rparr>)"

datatype library_op =
    UpsertAlgo algo_def
  | UpdateAlgo string "algo_def \<Rightarrow> algo_def"
  | RemoveAlgo string
  | ServerDefinitions "jsval list"
  | LibraryEvent "algo_def list option"

fun library_step :: "(string \<Rightarrow> string \<Rightarrow> jsnum) \<Rightarrow> (string \<Rightarrow> jsnum) \<Rightarrow> rat \<Rightarrow> library_state \<Rightarrow> library_op \<Rightarrow> library_state" where
  "library_step lc dp now s (UpsertAlgo algo) =
     library_commit lc (\<lambda>current. algo\<lparr>ag_updatedAt := Fin now\<rparr> # filter (\<lambda>item. ag_id item \<noteq> ag_id algo) current) s"
| "library_step lc dp now s (UpdateAlgo i patch) =
     library_commit lc (map (\<lambda>item. if ag_id item = i then (patch item)\<lparr>ag_updatedAt := Fin now\<rparr> else item)) s"
| "library_step lc dp now s (RemoveAlgo i) = library_commit lc (filter (\<lambda>item. ag_id item \<noteq> i)) s"
| "library_step lc dp now s (ServerDefinitions defs) =
     (case map_result (ceriousDefinitionToAlgo dp) defs of
        Inl _ \<Rightarrow> s
      | Inr rs \<Rightarrow> (let mapped = List.map_filter id rs
                   in if mapped = [] then s else library_commit lc (\<lambda>_. mapped) s))"
| "library_step lc dp now s (LibraryEvent detail) =
     s\<lparr>lb_algos := (case detail of Some as \<Rightarrow> sortAlgoDefinitions lc as | None \<Rightarrow> loadAlgoLibrary lc now (lb_stored s))\<rparr>"

section \<open>Order\<close>

text \<open>What the code relies on of \<open>localeCompare\<close>: finite, of consistent sign, transitive.\<close>

definition collation :: "(string \<Rightarrow> string \<Rightarrow> jsnum) \<Rightarrow> bool" where
  "collation lc \<longleftrightarrow>
     (\<forall>x y. is_fin (lc x y)) \<and> (\<forall>x y. fin_val (lc x y) > 0 \<longleftrightarrow> fin_val (lc y x) < 0) \<and>
     (\<forall>x y z. fin_val (lc x y) \<le> 0 \<longrightarrow> fin_val (lc y z) \<le> 0 \<longrightarrow> fin_val (lc x z) \<le> 0)"

text \<open>The order by symbol, then name, then most recent first, on finite ranks.\<close>

definition algo_le :: "(string \<Rightarrow> string \<Rightarrow> jsnum) \<Rightarrow> algo_def \<Rightarrow> algo_def \<Rightarrow> bool" where
  "algo_le lc a b =
     (let s = fin_val (lc (normalizeProductKey (JStr (ag_symbol a))) (normalizeProductKey (JStr (ag_symbol b))));
          n = fin_val (lc (ag_name a) (ag_name b))
      in s < 0 \<or> (s = 0 \<and> (n < 0 \<or> (n = 0 \<and> fin_val (ag_updatedAt b) \<le> fin_val (ag_updatedAt a)))))"

lemma collation_sign:
  assumes "collation lc"
  shows "fin_val (lc x y) < 0 \<longleftrightarrow> fin_val (lc y x) > 0" "fin_val (lc x y) = 0 \<longleftrightarrow> fin_val (lc y x) = 0"
    "fin_val (lc x y) \<le> 0 \<Longrightarrow> fin_val (lc y z) < 0 \<Longrightarrow> fin_val (lc x z) < 0"
    "fin_val (lc x y) < 0 \<Longrightarrow> fin_val (lc y z) \<le> 0 \<Longrightarrow> fin_val (lc x z) < 0"
    "fin_val (lc x y) = 0 \<Longrightarrow> fin_val (lc y z) = 0 \<Longrightarrow> fin_val (lc x z) = 0"
proof -
  have s: "fin_val (lc x y) > 0 \<longleftrightarrow> fin_val (lc y x) < 0" for x y using assms by (simp add: collation_def)
  have t: "fin_val (lc x y) \<le> 0 \<Longrightarrow> fin_val (lc y z) \<le> 0 \<Longrightarrow> fin_val (lc x z) \<le> 0" for x y z
    using assms unfolding collation_def by blast
  have ge: "fin_val (lc x y) \<ge> 0 \<longleftrightarrow> fin_val (lc y x) \<le> 0" for x y using s [of y x] by linarith
  show "fin_val (lc x y) < 0 \<longleftrightarrow> fin_val (lc y x) > 0" using s by blast
  show "fin_val (lc x y) = 0 \<longleftrightarrow> fin_val (lc y x) = 0" using s [of x y] s [of y x] by linarith
  show "fin_val (lc x y) \<le> 0 \<Longrightarrow> fin_val (lc y z) < 0 \<Longrightarrow> fin_val (lc x z) < 0"
    using t [of z x y] s [of z y] ge [of x z] by linarith
  show "fin_val (lc x y) < 0 \<Longrightarrow> fin_val (lc y z) \<le> 0 \<Longrightarrow> fin_val (lc x z) < 0"
    using t [of y z x] s [of y x] ge [of x z] by linarith
  show "fin_val (lc x y) = 0 \<Longrightarrow> fin_val (lc y z) = 0 \<Longrightarrow> fin_val (lc x z) = 0"
    using t [of x y z] t [of z y x] ge [of x z] s [of x y] s [of y x] s [of y z] s [of z y] by (intro order.antisym) simp_all
qed

lemma algo_cmp_le:
  assumes "collation lc" "is_fin (ag_updatedAt a)" "is_fin (ag_updatedAt b)"
  shows "cmp_le (algo_cmp lc) a b \<longleftrightarrow> algo_le lc a b"
proof -
  obtain s n where "lc (normalizeProductKey (JStr (ag_symbol a))) (normalizeProductKey (JStr (ag_symbol b))) = Fin s"
    "lc (ag_name a) (ag_name b) = Fin n"
    using assms(1) by (metis collation_def is_fin_conv)
  then show ?thesis using assms(2,3) by (auto simp: cmp_le_def algo_cmp_def algo_le_def Let_def is_fin_conv)
qed

lemma algo_le_total: "collation lc \<Longrightarrow> algo_le lc a b \<or> algo_le lc b a"
  using collation_sign(1,2) [of lc] unfolding algo_le_def Let_def by (smt (verit) linorder_le_cases not_less_iff_gr_or_eq)

lemma algo_le_trans:
  assumes c: "collation lc" and ab: "algo_le lc a b" and bd: "algo_le lc b d"
  shows "algo_le lc a d"
proof -
  define k where "k x = normalizeProductKey (JStr (ag_symbol x))" for x :: algo_def
  note sym = collation_sign(3-5) [OF c, of "k a" "k b" "k d"]
  note nam = collation_sign(3-5) [OF c, of "ag_name a" "ag_name b" "ag_name d"]
  have e: "algo_le lc x y \<longleftrightarrow> fin_val (lc (k x) (k y)) < 0 \<or> (fin_val (lc (k x) (k y)) = 0 \<and>
      (fin_val (lc (ag_name x) (ag_name y)) < 0 \<or>
       (fin_val (lc (ag_name x) (ag_name y)) = 0 \<and> fin_val (ag_updatedAt y) \<le> fin_val (ag_updatedAt x))))" for x y :: algo_def
    by (simp add: algo_le_def Let_def k_def)
  show ?thesis
    using ab bd sym nam unfolding e by (elim disjE conjE) auto
qed

lemma algo_comparator: "collation lc \<Longrightarrow> comparator (algo_cmp lc) (is_fin \<circ> ag_updatedAt)"
  by unfold_locales (auto simp: algo_cmp_le dest: algo_le_total intro: algo_le_trans)

lemma sorted_algos:
  "collation lc \<Longrightarrow> list_all (is_fin \<circ> ag_updatedAt) as \<Longrightarrow> sorted_wrt (algo_le lc) (sortAlgoDefinitions lc as)"
proof -
  assume c: "collation lc" and f: "list_all (is_fin \<circ> ag_updatedAt) as"
  have "sorted_wrt (cmp_le (algo_cmp lc)) (sortAlgoDefinitions lc as)"
    unfolding sortAlgoDefinitions_def
    by (rule comparator.sorted_sort [OF algo_comparator [OF c]]) (use f in \<open>simp add: list_all_iff\<close>)
  then show ?thesis
    by (rule sorted_wrt_mono_rel [rotated]) (use c f in \<open>auto simp: sortAlgoDefinitions_def list_all_iff algo_cmp_le\<close>)
qed

section \<open>Normalised definitions\<close>

definition algo_valid :: "algo_def \<Rightarrow> bool" where
  "algo_valid a =
     (ag_id a \<noteq> '''' \<and> ag_name a \<noteq> '''' \<and> ag_symbol a \<noteq> '''' \<and> normalizeProductKey (JStr (ag_symbol a)) = ag_symbol a \<and>
      cf_instruments (ag_fields a) = [ag_symbol a] \<and>
      ag_template a \<in> set [''mean-reversion-v2'', ''scale-in''] \<and> ag_side a \<in> set [''bid'', ''offer'', ''both''] \<and>
      ag_orderType a \<in> set [''limit'', ''market''] \<and> ag_status a \<in> set [''draft'', ''paused'', ''quoting'', ''held''] \<and>
      js_lt (Fin 0) (ag_clipSize a) \<and> js_lt (Fin 0) (ag_maxPosition a))"

lemma product_key_idem' [simp]: "normalizeProductKey (JStr (normalizeProductKey v)) = normalizeProductKey v"
  by (simp add: normalizeProductKey_def js_trim_upper)

lemma es_nq_key [simp]: "normalizeProductKey (JStr ''ES_NQ'') = ''ES_NQ''"
  by code_simp

lemma first_key_ok:
  assumes "\<forall>k \<in> set ks. normalizeProductKey (JStr k) = k"
  shows "first_key ks \<noteq> '''' \<and> normalizeProductKey (JStr (first_key ks)) = first_key ks"
proof -
  have "\<forall>k \<in> set (filter (\<lambda>k. k \<noteq> '''') ks). normalizeProductKey (JStr k) = k \<and> k \<noteq> ''''" using assms by simp
  then show ?thesis
    by (cases "filter (\<lambda>k. k \<noteq> '''') ks") (force simp: first_key_def, metis first_key_def list.set_intros(1) list.simps(5))
qed

lemma candidates_keys: "\<forall>k \<in> set (algoMarketCandidates algo). normalizeProductKey (JStr k) = k"
  by (auto simp: algoMarketCandidates_def)

lemma asTemplate_ok: "asTemplate v \<in> set [''mean-reversion-v2'', ''scale-in'']"
  by (simp add: asTemplate_def Let_def)

lemma instruments_fields: "normalizeProductKey (JStr k) = k \<Longrightarrow> k \<noteq> '''' \<Longrightarrow> cf_instruments (normalizeCeriousFields item k) = [k]"
  by (simp add: normalizeCeriousFields_def Let_def)

lemma max1_pos: "x \<noteq> NaN \<Longrightarrow> js_lt (Fin 0) (js_max (Fin 1) x)"
  by (cases x) (auto simp: js_max_def)

lemma num_or_not_NaN: "d \<noteq> NaN \<Longrightarrow> num_or v d \<noteq> NaN"
  by (simp add: num_or_def Let_def)

lemma pos_or_pos: "js_lt (Fin 0) d \<Longrightarrow> js_lt (Fin 0) (pos_or x d)"
  by (simp add: pos_or_def)

lemma max_not_NaN: "x \<noteq> NaN \<Longrightarrow> js_max (Fin 1) x \<noteq> NaN"
  by (cases x) (auto simp: js_max_def)

lemma stored_algo_valid: "i \<noteq> '''' \<Longrightarrow> name \<noteq> '''' \<Longrightarrow> algo_valid (stored_algo now item i name)"
  using first_key_ok [OF candidates_keys, of item] asTemplate_ok
  by (simp add: stored_algo_def Let_def algo_valid_def instruments_fields max1_pos num_or_not_NaN max_not_NaN del: js_nn.simps)

lemma stored_valid: "normalizeStoredAlgoDefinition now item = Some a \<Longrightarrow> algo_valid a"
  by (auto simp: normalizeStoredAlgoDefinition_def Let_def stored_algo_valid split: if_splits)

lemma served_algo_valid:
  assumes "i \<noteq> ''''" "name \<noteq> ''''"
  shows "algo_valid (served_algo dp item i name) \<and> ag_status (served_algo dp item i name) \<noteq> ''quoting''"
proof -
  have "\<forall>x \<in> set [normalizeProductKey u, normalizeProductKey v]. normalizeProductKey (JStr x) = x" for u v by simp
  note k = first_key_ok [OF this]
  show ?thesis
    using assms k asTemplate_ok
    by (simp add: served_algo_def Let_def algo_valid_def instruments_fields pos_or_pos del: js_nn.simps)
qed

lemma served_valid: "ceriousDefinitionToAlgo dp item = Inr (Some a) \<Longrightarrow> algo_valid a \<and> ag_status a \<noteq> ''quoting''"
  by (auto simp: ceriousDefinitionToAlgo_def Let_def served_algo_valid split: if_splits)

section \<open>The stored library\<close>

lemma algo_value_gets:
  "js_get (algo_value a) ''id'' = JStr (ag_id a)" "js_get (algo_value a) ''name'' = JStr (ag_name a)"
  "js_get (algo_value a) ''status'' = JStr (ag_status a)" "is_object (algo_value a)"
  by (simp_all add: algo_value_def Let_def)

lemma stored_algo_simps:
  "ag_id (stored_algo now item i name) = i"
  "ag_status (stored_algo now item i name) =
    (let st = js_str (js_nn [js_get item ''status'', JStr ''held''])
     in if st \<in> set [''draft'', ''paused'', ''quoting'', ''held''] then st else ''held'')"
  by (simp_all add: stored_algo_def Let_def)

lemma storage_not_quoting: "ag_status (algoDefinitionForStorage a) \<noteq> ''quoting''"
  by (simp add: algoDefinitionForStorage_def)

lemma reload_one:
  assumes "normalizeStoredAlgoDefinition now (algo_value (algoDefinitionForStorage a)) = Some b"
  shows "ag_status b \<noteq> ''quoting'' \<and> ag_id b = js_trim (ag_id a)"
proof -
  let ?v = "algo_value (algoDefinitionForStorage a)"
  obtain nm where b: "b = stored_algo now ?v (js_trim (ag_id a)) nm"
    using assms by (auto simp: normalizeStoredAlgoDefinition_def Let_def algo_value_gets algoDefinitionForStorage_def split: if_splits)
  show ?thesis
    using storage_not_quoting [of a] by (simp add: b stored_algo_simps algo_value_gets Let_def)
qed

lemma load_published:
  "loadAlgoLibrary lc now (Some (publishAlgoLibrary as)) =
     sortAlgoDefinitions lc (List.map_filter (normalizeStoredAlgoDefinition now \<circ> algo_value \<circ> algoDefinitionForStorage) as)"
  by (simp add: loadAlgoLibrary_def publishAlgoLibrary_def normalizeAlgoLibrarySnapshot_def List.map_filter_def comp_def filter_map)

lemma mem_map_filter: "b \<in> set (List.map_filter f xs) \<longleftrightarrow> (\<exists>x \<in> set xs. f x = Some b)"
  by (force simp: List.map_filter_def)

lemma load_published_ok:
  "list_all (\<lambda>b. algo_valid b \<and> ag_status b \<noteq> ''quoting'') (loadAlgoLibrary lc now (Some (publishAlgoLibrary as)))"
  by (auto simp: load_published sortAlgoDefinitions_def list_all_iff mem_map_filter dest: reload_one stored_valid)

definition named :: "algo_def \<Rightarrow> bool" where
  "named a = (js_trim (ag_id a) = ag_id a \<and> ag_id a \<noteq> '''' \<and> js_trim (ag_name a) \<noteq> '''')"

lemma reload_named: "named a \<Longrightarrow> \<exists>b. normalizeStoredAlgoDefinition now (algo_value (algoDefinitionForStorage a)) = Some b \<and> ag_id b = ag_id a"
  by (simp add: normalizeStoredAlgoDefinition_def Let_def algo_value_gets algoDefinitionForStorage_def named_def stored_algo_simps)

lemma load_published_ids:
  assumes "list_all named as"
  shows "mset (map ag_id (loadAlgoLibrary lc now (Some (publishAlgoLibrary as)))) = mset (map ag_id as)"
proof -
  let ?f = "normalizeStoredAlgoDefinition now \<circ> algo_value \<circ> algoDefinitionForStorage"
  have "map ag_id (List.map_filter ?f as) = map ag_id as"
    using assms by (induction as) (auto simp: map_filter_simps dest!: reload_named [where now = now])
  then show ?thesis by (metis load_published mset_js_sort mset_map sortAlgoDefinitions_def)
qed

definition stored_by_terminal :: "library_state \<Rightarrow> bool" where
  "stored_by_terminal s = (case lb_stored s of None \<Rightarrow> True | Some v \<Rightarrow> \<exists>as. v = publishAlgoLibrary as)"

lemma commit_stored: "stored_by_terminal (library_commit lc f s)"
  by (auto simp: stored_by_terminal_def library_commit_def Let_def)

lemma step_stored: "stored_by_terminal s \<Longrightarrow> stored_by_terminal (library_step lc dp now s op)"
  by (cases op) (auto simp: commit_stored Let_def split: sum.splits, simp add: stored_by_terminal_def)

section \<open>Properties\<close>

text \<open>
  C4. A stored algo library cannot re-arm itself: after any sequence of edits, served definitions and
  events, what a later start loads from storage are valid definitions (non-empty id and name, a usable
  upper-case symbol that is also the instrument list, known side, type and template, positive clip and
  maximum position), none of which is quoting.
\<close>

theorem algo_library_reload_safe:
  assumes "lb_stored s = None"
  shows "list_all (\<lambda>a. algo_valid a \<and> ag_status a \<noteq> ''quoting'')
    (loadAlgoLibrary lc later (lb_stored (foldl (library_step lc dp now) s ops)))"
proof -
  have "stored_by_terminal s" using assms by (simp add: stored_by_terminal_def)
  then have "stored_by_terminal (foldl (library_step lc dp now) s ops)"
    by (induction ops arbitrary: s) (auto intro: step_stored)
  then show ?thesis
    using load_published_ok by (auto simp: stored_by_terminal_def loadAlgoLibrary_def [of _ _ None] split: option.splits)
qed

definition sample_algo :: "string \<Rightarrow> string \<Rightarrow> algo_def" where
  "sample_algo i status = (defaultAlgo 5 None ''op'')\<lparr>ag_id := i, ag_status := status\<rparr>"

text \<open>Comparison by character codes, a collation.\<close>

definition code_order :: "string \<Rightarrow> string \<Rightarrow> jsnum" where
  "code_order a b =
     (let x = map of_char a :: nat list; y = map of_char b :: nat list
      in if x = y then Fin 0 else if x < y then Fin (- 1) else Fin 1)"

lemma code_order_collation: "collation code_order"
  unfolding collation_def code_order_def Let_def by (auto split: if_splits)

theorem algo_library_reload_safe_witness:
  "list_all (\<lambda>a. algo_valid a \<and> ag_status a \<noteq> ''quoting'')
    (loadAlgoLibrary code_order 9 (lb_stored (foldl (library_step code_order (\<lambda>_. NaN) 7) \<lparr>lb_algos = [], lb_stored = None\<rparr>
      [UpsertAlgo (sample_algo ''a'' ''quoting''), UpsertAlgo (sample_algo ''b'' ''held'')])))"
  by (rule algo_library_reload_safe) simp

text \<open>
  Publishing loses nothing: if every definition has a trimmed id and a name that is not blank, the
  library loaded back has exactly the same ids, with multiplicity.
\<close>

theorem algo_library_reload_complete:
  assumes "list_all named (lb_algos (library_commit lc f s))"
  shows "mset (map ag_id (loadAlgoLibrary lc later (lb_stored (library_commit lc f s)))) =
    mset (map ag_id (lb_algos (library_commit lc f s)))"
  using load_published_ids [OF assms] by (simp add: library_commit_def Let_def)

theorem algo_library_reload_complete_witness:
  "mset (map ag_id (loadAlgoLibrary code_order 9 (lb_stored (library_commit code_order (\<lambda>_. [sample_algo ''a'' ''quoting'']) \<lparr>lb_algos = [], lb_stored = None\<rparr>))))
    = {#''a''#}"
proof -
  have "js_trim ''a'' = ''a''" "js_trim ''ES_NQ Mean Reversion'' \<noteq> ''''" by code_simp+
  then have n: "named (sample_algo ''a'' ''quoting'')" by (simp add: named_def sample_algo_def defaultAlgo_def Let_def)
  have c: "lb_algos (library_commit code_order (\<lambda>_. [sample_algo ''a'' ''quoting'']) \<lparr>lb_algos = [], lb_stored = None\<rparr>) =
      [sample_algo ''a'' ''quoting'']"
    by (simp add: library_commit_def Let_def sortAlgoDefinitions_def)
  show ?thesis
    using algo_library_reload_complete [of code_order "\<lambda>_. [sample_algo ''a'' ''quoting'']" "\<lparr>lb_algos = [], lb_stored = None\<rparr>" 9]
    by (simp add: c n) (simp add: sample_algo_def)
qed

text \<open>
  The library is a keyed, ordered collection: saving an algo replaces the one with its id and keeps
  the rest, removing an id removes exactly it, ids stay unique, and the list is ordered by symbol, then
  name, then most recent first, whenever the collation orders strings and all times are finite.
\<close>

theorem algo_library_edits:
  assumes "collation lc" "list_all (is_fin \<circ> ag_updatedAt) (lb_algos s)" "distinct (map ag_id (lb_algos s))"
  shows "let u = lb_algos (library_step lc dp now s (UpsertAlgo algo));
             r = lb_algos (library_step lc dp now s (RemoveAlgo i))
    in mset u = add_mset (algo\<lparr>ag_updatedAt := Fin now\<rparr>) (filter_mset (\<lambda>a. ag_id a \<noteq> ag_id algo) (mset (lb_algos s))) \<and>
       mset r = filter_mset (\<lambda>a. ag_id a \<noteq> i) (mset (lb_algos s)) \<and>
       distinct (map ag_id u) \<and> distinct (map ag_id r) \<and> sorted_wrt (algo_le lc) u \<and> sorted_wrt (algo_le lc) r"
proof -
  let ?u = "algo\<lparr>ag_updatedAt := Fin now\<rparr> # filter (\<lambda>item. ag_id item \<noteq> ag_id algo) (lb_algos s)"
  let ?r = "filter (\<lambda>item. ag_id item \<noteq> i) (lb_algos s)"
  have d: "distinct (map ag_id ?u)" "distinct (map ag_id ?r)"
    using assms(3) by (auto simp: distinct_map_filter)
  have d': "distinct (map ag_id (sortAlgoDefinitions lc xs))" if "distinct (map ag_id xs)" for xs
    using that by (metis mset_eq_imp_distinct_iff mset_js_sort mset_map sortAlgoDefinitions_def)
  have "list_all (is_fin \<circ> ag_updatedAt) ?u" "list_all (is_fin \<circ> ag_updatedAt) ?r"
    using assms(2) by (auto simp: list_all_iff)
  note s = sorted_algos [OF assms(1) this(1)] sorted_algos [OF assms(1) this(2)]
  show ?thesis
    using d' [OF d(1)] d' [OF d(2)] s
    by (simp add: library_commit_def Let_def sortAlgoDefinitions_def mset_js_insert)
qed

theorem algo_library_edits_witness:
  "mset (lb_algos (library_step code_order (\<lambda>_. NaN) 7 \<lparr>lb_algos = [sample_algo ''a'' ''held''], lb_stored = None\<rparr>
      (UpsertAlgo (sample_algo ''a'' ''paused'')))) = {#(sample_algo ''a'' ''paused'')\<lparr>ag_updatedAt := Fin 7\<rparr>#}"
  using algo_library_edits [OF code_order_collation, of "\<lparr>lb_algos = [sample_algo ''a'' ''held''], lb_stored = None\<rparr>"
      "\<lambda>_. NaN" 7 "sample_algo ''a'' ''paused''" "''''"]
  by (simp add: Let_def sample_algo_def defaultAlgo_def)

end
