(* ===== verification/Transport.thy ===== *)
theory Transport
  imports Types
begin

text \<open>
  \<open>apps/terminal/src/platform/transport.ts\<close>: the base addresses of the backend, the rewriting of
  requests and socket addresses, and the installation of the rewriting into \<open>window.fetch\<close> and
  \<open>window.WebSocket\<close>.  The build variables and the location of the page are the environment record.
  A request is a text, a URL with its parts, or a request object; building a URL from a text is the
  platform's, so the rewritten URL is kept as that text.
\<close>

record transport_env =
  te_http_base :: "string option"
  te_ws_base :: "string option"
  te_protocol :: string
  te_host :: string
  te_origin :: string

record url_parts =
  ur_origin :: string
  ur_pathname :: string
  ur_search :: string
  ur_hash :: string

datatype request =
    TextRequest string
  | UrlRequest url_parts
  | BuiltUrl string
  | RequestObject string

text \<open>\<open>value.replace(/\\/+$/, '')\<close>\<close>

definition trimTrailingSlash :: "string \<Rightarrow> string" where
  "trimTrailingSlash value = rev (dropWhile (\<lambda>c. c = CHR ''/'') (rev value))"

text \<open>The client runs in a browser only.\<close>

definition isCeriousDesktopRuntime :: bool where
  "isCeriousDesktopRuntime = False"

text \<open>\<open>configured?.trim()\<close>, where the empty text counts as not configured.\<close>

definition configured :: "string option \<Rightarrow> string option" where
  "configured v =
     (case v of None \<Rightarrow> None | Some s \<Rightarrow> if js_trim s = '''' then None else Some (js_trim s))"

definition ceriousHttpBase :: "transport_env \<Rightarrow> string" where
  "ceriousHttpBase env = (case configured (te_http_base env) of Some c \<Rightarrow> trimTrailingSlash c | None \<Rightarrow> '''')"

text \<open>\<open>s.replace(/^http/i, 'ws')\<close>\<close>

definition http_to_ws :: "string \<Rightarrow> string" where
  "http_to_ws s = (if to_lower (take 4 s) = ''http'' then ''ws'' @ drop 4 s else s)"

definition ceriousWsBase :: "transport_env \<Rightarrow> string" where
  "ceriousWsBase env =
     (case configured (te_ws_base env) of
        Some c \<Rightarrow> trimTrailingSlash c
      | None \<Rightarrow>
          (let httpBase = ceriousHttpBase env in
           if httpBase \<noteq> '''' then http_to_ws httpBase @ ''/ws''
           else (if te_protocol env = ''https:'' then ''wss'' else ''ws'') @ ''://'' @ te_host env @ ''/ws''))"

definition resolveCeriousHttp :: "transport_env \<Rightarrow> request \<Rightarrow> request" where
  "resolveCeriousHttp env input =
     (let base = ceriousHttpBase env in
      if base = '''' then input
      else case input of
        TextRequest t \<Rightarrow> if starts_with ''/api'' t then TextRequest (base @ t) else input
      | UrlRequest u \<Rightarrow>
          if starts_with ''/api'' (ur_pathname u) \<and> ur_origin u = te_origin env
          then BuiltUrl (base @ ur_pathname u @ ur_search u @ ur_hash u)
          else input
      | _ \<Rightarrow> input)"

definition resolveCeriousWs :: "transport_env \<Rightarrow> string \<Rightarrow> string" where
  "resolveCeriousWs env raw =
     (if starts_with ''/ws'' raw then ceriousWsBase env @ drop 3 raw else raw)"

text \<open>
  The window: the marker, and the layers of rewriting in front of the native \<open>fetch\<close> and the native
  socket constructor.  A call runs through every layer.
\<close>

record window_hooks =
  wh_installed :: bool
  wh_fetch :: "(request \<Rightarrow> request) list"
  wh_socket :: "(string \<Rightarrow> string) list"

definition native_window :: window_hooks where
  "native_window = \<lparr>wh_installed = False, wh_fetch = [], wh_socket = []\<rparr>"

definition installCeriousTransport :: "transport_env \<Rightarrow> window_hooks \<Rightarrow> window_hooks" where
  "installCeriousTransport env w =
     (if wh_installed w then w
      else \<lparr>wh_installed = True, wh_fetch = resolveCeriousHttp env # wh_fetch w,
            wh_socket = resolveCeriousWs env # wh_socket w\<rparr>)"

definition fetched :: "window_hooks \<Rightarrow> request \<Rightarrow> request" where
  "fetched w input = foldl (\<lambda>i f. f i) input (wh_fetch w)"

definition connected_to :: "window_hooks \<Rightarrow> string \<Rightarrow> string" where
  "connected_to w url = foldl (\<lambda>u f. f u) url (wh_socket w)"

section \<open>Lemmas\<close>

lemma trimmed_no_slash: "trimTrailingSlash s = '''' \<or> last (trimTrailingSlash s) \<noteq> CHR ''/''"
proof -
  have "dropWhile (\<lambda>c. c = CHR ''/'') (rev s) = [] \<or> hd (dropWhile (\<lambda>c. c = CHR ''/'') (rev s)) \<noteq> CHR ''/''"
    using hd_dropWhile by blast
  then show ?thesis by (auto simp: trimTrailingSlash_def last_rev)
qed

lemma installs_once: "foldl (\<lambda>w (_ :: nat). installCeriousTransport env w) (installCeriousTransport env native_window) ns =
    installCeriousTransport env native_window"
  by (induction ns) (auto simp: installCeriousTransport_def native_window_def)

lemma fetched_installed: "fetched (installCeriousTransport env native_window) = resolveCeriousHttp env"
  by (simp add: fun_eq_iff fetched_def installCeriousTransport_def native_window_def)

lemma connected_installed: "connected_to (installCeriousTransport env native_window) = resolveCeriousWs env"
  by (simp add: fun_eq_iff connected_to_def installCeriousTransport_def native_window_def)

lemma http_base_no_slash: "ceriousHttpBase env = '''' \<or> last (ceriousHttpBase env) \<noteq> CHR ''/''"
  using trimmed_no_slash by (auto simp: ceriousHttpBase_def split: option.splits)

lemma ws_base_no_slash: "ceriousWsBase env = '''' \<or> last (ceriousWsBase env) \<noteq> CHR ''/''"
  using trimmed_no_slash by (auto simp: ceriousWsBase_def Let_def split: option.splits)

lemma trimmed_base:
  assumes "base \<noteq> ''''" "last base \<noteq> CHR ''/''"
  shows "trimTrailingSlash (base @ replicate n (CHR ''/'')) = base"
proof -
  have "dropWhile (\<lambda>c. c = CHR ''/'') (replicate n (CHR ''/'') @ rev base) = rev base"
    using assms by (induction n) (auto simp: dropWhile_eq_self_iff hd_rev)
  then show ?thesis by (simp add: trimTrailingSlash_def)
qed

lemma configured_base:
  assumes "conf = Some c" "js_trim c = base @ replicate n (CHR ''/'')" "base \<noteq> ''''"
  shows "configured conf = Some (base @ replicate n (CHR ''/''))"
  using assms by (simp add: configured_def)

section \<open>Properties\<close>

text \<open>
  C12. However often the transport is installed, one rewriting is in front of the native calls.  With a configured base,
  whose trailing slashes are gone: a text that starts with \<open>/api\<close> is sent to the base followed by it exactly once, and
  stays as it is when it comes back (unless the base itself is such a path); a URL of the page's own origin is rewritten
  the same way with its query and fragment; every other text or URL and every request object is passed on unchanged.
  A socket address \<open>/ws...\<close> goes to the configured socket base, else to the base with \<open>http\<close> replaced by \<open>ws\<close> and
  \<open>/ws\<close> appended; every other socket address is used as it is.
\<close>

theorem transport_rewrites_once:
  assumes "te_http_base env = Some conf" "js_trim conf = base @ replicate n (CHR ''/'')"
    "base \<noteq> ''''" "last base \<noteq> CHR ''/''" "\<not> starts_with ''/api'' base"
  shows "let w = foldl (\<lambda>w (_ :: nat). installCeriousTransport env w) (installCeriousTransport env native_window) ns
    in fetched w (TextRequest (''/api'' @ path)) = TextRequest (base @ ''/api'' @ path) \<and>
       (\<not> starts_with ''/api'' t \<longrightarrow> fetched w (TextRequest t) = TextRequest t) \<and>
       fetched w (fetched w (TextRequest (''/api'' @ path))) = fetched w (TextRequest (''/api'' @ path)) \<and>
       (\<forall>p s h. fetched w (UrlRequest \<lparr>ur_origin = te_origin env, ur_pathname = ''/api'' @ p, ur_search = s, ur_hash = h\<rparr>) =
          BuiltUrl (base @ ''/api'' @ p @ s @ h)) \<and>
       (\<forall>u. \<not> starts_with ''/api'' (ur_pathname u) \<or> ur_origin u \<noteq> te_origin env \<longrightarrow> fetched w (UrlRequest u) = UrlRequest u) \<and>
       fetched w (RequestObject r) = RequestObject r \<and>
       (\<forall>c wbase k. te_ws_base env = Some c \<and> js_trim c = wbase @ replicate k (CHR ''/'') \<and> wbase \<noteq> '''' \<and> last wbase \<noteq> CHR ''/'' \<longrightarrow>
          connected_to w (''/ws'' @ path) = wbase @ path) \<and>
       (\<forall>rest. te_ws_base env = None \<and> base = ''http'' @ rest \<longrightarrow> connected_to w (''/ws'' @ path) = ''ws'' @ rest @ ''/ws'' @ path) \<and>
       (\<not> starts_with ''/ws'' t \<longrightarrow> connected_to w t = t)"
proof -
  have b: "ceriousHttpBase env = base"
    using configured_base [OF assms(1-3)] trimmed_base [OF assms(3,4)] by (simp add: ceriousHttpBase_def)
  have ws: "ceriousWsBase env = wbase"
    if "te_ws_base env = Some c" "js_trim c = wbase @ replicate k (CHR ''/'')" "wbase \<noteq> ''''" "last wbase \<noteq> CHR ''/''" for c wbase k
    using configured_base [OF that(1-3)] trimmed_base [OF that(3,4)] by (simp add: ceriousWsBase_def)
  have derived: "ceriousWsBase env = ''ws'' @ rest @ ''/ws''" if "te_ws_base env = None" "base = ''http'' @ rest" for rest
    using that by (simp add: ceriousWsBase_def configured_def b http_to_ws_def numeral_eq_Suc to_lower_def lower_char_def)
  obtain c cs where c: "base = c # cs" using assms(3) by (cases base) auto
  have "\<not> starts_with ''/api'' (base @ ''/api'' @ path)"
  proof
    assume "starts_with ''/api'' (base @ ''/api'' @ path)"
    then have "prefix ''/api'' (base @ (''/api'' @ path))" by (simp only: starts_with_prefix append_assoc)
    then have "prefix ''/api'' base \<or> (\<exists>us. ''/api'' = base @ us \<and> prefix us (''/api'' @ path))"
      by (simp only: prefix_append)
    then obtain us where u: "''/api'' = base @ us" "prefix us (''/api'' @ path)"
      using assms(5) unfolding starts_with_prefix by blast
    then have "base = ''/'' \<or> base = ''/a'' \<or> base = ''/ap'' \<or> base = ''/api''"
      using c by (auto simp: Cons_eq_append_conv)
    then show False using u assms(4,5) by auto
  qed
  then show ?thesis
    using ws derived
    by (auto simp: installs_once fetched_installed connected_installed resolveCeriousHttp_def resolveCeriousWs_def b assms(3))
qed

theorem transport_rewrites_once_witness:
  "fetched (installCeriousTransport \<lparr>te_http_base = Some ''http://h:1//'', te_ws_base = None, te_protocol = ''http:'',
       te_host = ''h'', te_origin = ''http://h''\<rparr> native_window) (TextRequest ''/api/bars'') =
     TextRequest ''http://h:1/api/bars''"
  using transport_rewrites_once [of "\<lparr>te_http_base = Some ''http://h:1//'', te_ws_base = None, te_protocol = ''http:'',
       te_host = ''h'', te_origin = ''http://h''\<rparr>" "''http://h:1//''" "''http://h:1''" 2 "[]" "''/bars''" "''''" "''''"]
  by (simp add: Let_def js_trim_def trim_start_def is_space_def numeral_2_eq_2)

text \<open>
  A socket path never gets a double slash: the base of the socket address does not end in one, and the
  path after \<open>/ws\<close> follows it directly; an address that names its own host is used as it is.
\<close>

theorem socket_address:
  "(ceriousWsBase env = '''' \<or> last (ceriousWsBase env) \<noteq> CHR ''/'') \<and>
   connected_to (installCeriousTransport env native_window) (''/ws'' @ rest) = ceriousWsBase env @ rest \<and>
   connected_to (installCeriousTransport env native_window) (''ws'' @ rest) = ''ws'' @ rest"
  using ws_base_no_slash by (simp add: connected_installed resolveCeriousWs_def)

end
