(* ===== verification/Quotes.thy ===== *)
theory Quotes
  imports StoreProps "HOL-Library.List_Lexorder" "HOL-Library.Char_ord"
begin

text \<open>
  Quotes in \<open>components/WorkspaceDesktop.tsx\<close>: the statistics of a bar series and of a probability
  series, the latest trade, traded sums, the conversion of CME books and trades to the shape of the
  store, and the subscription that polls them and feeds the store (\<open>useCmeMarketDataSubscriptions\<close>).
  A subscription's effect is a step on the store for each message that arrives.
\<close>

section \<open>Statistics\<close>

record quote_stats =
  qs_open :: jsnum
  qs_high :: jsnum
  qs_low :: jsnum
  qs_previousClose :: "jsnum option"
  qs_last :: jsnum
  qs_volume :: jsnum
  qs_timestamp :: jsnum

definition second_last :: "'a list \<Rightarrow> 'a option" where
  "second_last xs = (if 1 < length xs then Some (xs ! (length xs - 2)) else None)"

definition barStats :: "bar list \<Rightarrow> quote_stats option" where
  "barStats assetBars =
     (if assetBars = [] then None
      else Some \<lparr>qs_open = bopen (hd assetBars), qs_high = js_max_list (map high assetBars),
        qs_low = js_min_list (map low assetBars), qs_previousClose = map_option close (second_last assetBars),
        qs_last = close (last assetBars), qs_volume = js_sum (map volume assetBars),
        qs_timestamp = timestamp (last assetBars)\<rparr>)"

definition probabilityStats :: "prob_point list \<Rightarrow> quote_stats option" where
  "probabilityStats points =
     (if points = [] then None
      else Some \<lparr>qs_open = pp_up_pct (hd points), qs_high = js_max_list (map pp_up_pct points),
        qs_low = js_min_list (map pp_up_pct points), qs_previousClose = map_option pp_up_pct (second_last points),
        qs_last = pp_up_pct (last points), qs_volume = Fin (of_nat (length points)),
        qs_timestamp = pp_ts (last points)\<rparr>)"

definition by_trade_time :: "poly_tick \<Rightarrow> poly_tick \<Rightarrow> jsnum" where
  "by_trade_time a b = js_sub (pt_timestamp a) (pt_timestamp b)"

definition latestTradeForMarket :: "poly_tick list \<Rightarrow> poly_tick list \<Rightarrow> poly_tick option" where
  "latestTradeForMarket ticks fills =
     (let ts = js_sort by_trade_time (ticks @ fills) in if ts = [] then None else Some (last ts))"

definition yesPriceFromTrade :: "poly_tick option \<Rightarrow> jsnum option" where
  "yesPriceFromTrade tick =
     (case tick of None \<Rightarrow> None
      | Some t \<Rightarrow> Some (if pt_side t = Yes then pt_price t else js_sub (Fin 100) (pt_price t)))"

definition sumTradeNotional :: "poly_tick list \<Rightarrow> jsnum" where
  "sumTradeNotional ticks =
     foldl (\<lambda>sum t. js_add sum (js_mul (js_div (pt_price t) (Fin 100)) (pt_size t))) (Fin 0) ticks"

definition sumTradeContracts :: "poly_tick list \<Rightarrow> jsnum" where
  "sumTradeContracts ticks = foldl (\<lambda>sum t. js_add sum (pt_size t)) (Fin 0) ticks"

section \<open>CME books and trades\<close>

fun or_else :: "'a option \<Rightarrow> 'a option \<Rightarrow> 'a option" where
  "or_else (Some x) y = Some x"
| "or_else None y = y"

definition compat_level :: "ob_level \<Rightarrow> poly_level" where
  "compat_level l =
     \<lparr>pl_price = obl_price l, pl_size = obl_size l, pl_count = or_else (obl_count l) (obl_ct l), pl_ct = None\<rparr>"

definition num_or_null :: "jsnum option \<Rightarrow> jsval" where
  "num_or_null v = (case v of None \<Rightarrow> JNull | Some x \<Rightarrow> JNum x)"

definition first_price :: "ob_level list option \<Rightarrow> jsnum option" where
  "first_price ls = (case ls of Some (l # _) \<Rightarrow> Some (obl_price l) | _ \<Rightarrow> None)"

definition cmeBookToPolyCompat :: "rat \<Rightarrow> cme_book \<Rightarrow> poly_book" where
  "cmeBookToPolyCompat now b =
     (let mark = or_else (cb_ltp b) (cb_mid b); ts = opt_or (cb_tsMs b) (Fin now) in
      \<lparr>pb_market_key = cb_symbol b, pb_question = cb_symbol b @ '' CME depth'', pb_up_token_id = cb_symbol b,
       pb_bids = map compat_level (opt_or (cb_bids b) []), pb_asks = map compat_level (opt_or (cb_asks b) []),
       pb_best_bid = num_or_null (or_else (cb_bestBid b) (first_price (cb_bids b))),
       pb_best_ask = num_or_null (or_else (cb_bestAsk b) (first_price (cb_asks b))),
       pb_mid = JNum (opt_or (cb_mid b) (Fin 0)), pb_spread_pct = num_or_null (cb_spread b),
       pb_up_pct = opt_or mark (Fin 0), pb_down_pct = opt_or mark (Fin 0),
       pb_ltp = (case mark of None \<Rightarrow> JUndef | Some x \<Rightarrow> JNum x), pb_ltp_size = cb_ltpSize b,
       pb_expiry_ts = js_add ts (Fin (24 * 60 * 60 * 1000)), pb_live = True, pb_timestamp_ms = ts, pb_seen_ms = Some ts\<rparr>)"

fun side_text :: "trade_side \<Rightarrow> string" where
  "side_text Buy = ''buy''"
| "side_text Sell = ''sell''"

definition cmeTradeToPolyCompat :: "cme_trade \<Rightarrow> poly_tick" where
  "cmeTradeToPolyCompat t =
     \<lparr>pt_timestamp = ct_timestamp t, pt_marketKey = ct_symbol t, pt_price = ct_price t, pt_size = ct_size t,
      pt_side = Yes,
      pt_rest = (case ct_side t of None \<Rightarrow> JObj []
        | Some s \<Rightarrow> JObj [(''displaySide'', JStr (to_upper (side_text s))), (''marketSide'', JStr (side_text s))])\<rparr>"

section \<open>Subscriptions\<close>

text \<open>The targets: trimmed upper-case symbols, sorted by code units, adjacent repetitions dropped.\<close>

definition subscription_targets :: "jsval list \<Rightarrow> string list" where
  "subscription_targets symbols =
     remdups_adj (sort (filter (\<lambda>s. s \<noteq> '''') (map (\<lambda>v. to_upper (js_trim (js_str (js_or [v, JStr ''''])))) symbols)))"

definition ingestBook :: "bool \<Rightarrow> rat \<Rightarrow> string \<Rightarrow> cme_book \<Rightarrow> terminal_state \<Rightarrow> terminal_state" where
  "ingestBook alive now target book s =
     (if \<not> alive \<or> to_upper (cb_symbol book) \<noteq> target then s
      else setPolyBook target (cmeBookToPolyCompat now book) s)"

definition acceptTrade :: "bool \<Rightarrow> string \<Rightarrow> cme_trade \<Rightarrow> terminal_state \<Rightarrow> terminal_state" where
  "acceptTrade alive target trade s =
     (if \<not> alive \<or> to_upper (ct_symbol trade) \<noteq> target then s
      else pushPolyTick target (cmeTradeToPolyCompat trade) s)"

datatype feed_message =
    PolledBook string "cme_book option"
  | PolledTrades string "cme_trade list option"
  | FeedSnapshot string "cme_book dict option" "cme_trade list dict option"
  | FeedBook string string cme_book
  | FeedTrade string string cme_trade
  | FeedMarkets "market_info list"

fun feed_step :: "bool \<Rightarrow> rat \<Rightarrow> feed_message \<Rightarrow> terminal_state \<Rightarrow> terminal_state" where
  "feed_step alive now (PolledBook target payload) s =
     (case payload of None \<Rightarrow> s | Some book \<Rightarrow> ingestBook alive now target book s)"
| "feed_step alive now (PolledTrades target trades) s =
     (case trades of None \<Rightarrow> s
      | Some ts \<Rightarrow> if \<not> alive then s else foldl (\<lambda>s t. acceptTrade alive target t s) s (slice_last 20 ts))"
| "feed_step alive now (FeedSnapshot target books trades) s =
     (let s1 = (case dict_get (opt_or books []) target of None \<Rightarrow> s | Some b \<Rightarrow> ingestBook alive now target b s)
      in foldl (\<lambda>s t. acceptTrade alive target t s) s1 (opt_or (dict_get (opt_or trades []) target) []))"
| "feed_step alive now (FeedBook target symbol book) s =
     (if symbol = target then ingestBook alive now target book s else s)"
| "feed_step alive now (FeedTrade target symbol trade) s =
     (if symbol = target then acceptTrade alive target trade s else s)"
| "feed_step alive now (FeedMarkets ms) s = setMarkets ms True s"

section \<open>Lemmas\<close>

lemma or_else_None [simp]: "or_else x None = x"
  by (cases x) simp_all

lemma ingest_ok: "store_ok s \<Longrightarrow> store_ok (ingestBook alive now target b s)"
  by (simp add: ingestBook_def setPolyBook_ok)

lemma accept_ok: "store_ok s \<Longrightarrow> store_ok (acceptTrade alive target t s)"
  by (simp add: acceptTrade_def pushPolyTick_ok)

lemma accepts_ok: "store_ok s \<Longrightarrow> store_ok (foldl (\<lambda>s t. acceptTrade alive target t s) s ts)"
  by (induction ts arbitrary: s) (auto intro: accept_ok)

definition feed_ok :: "feed_message \<Rightarrow> bool" where
  "feed_ok m = (case m of FeedMarkets ms \<Rightarrow> market_points_ok ms | _ \<Rightarrow> True)"

lemma feed_step_ok: "store_ok s \<Longrightarrow> feed_ok m \<Longrightarrow> store_ok (feed_step alive now m s)"
  by (cases m) (auto simp: feed_ok_def Let_def ingest_ok accept_ok accepts_ok setMarkets_ok split: option.splits)

lemma accept_frame: "ss_polyBooks (acceptTrade alive target t s) = ss_polyBooks s \<and>
    (k \<noteq> target \<longrightarrow> dict_get (ss_polyTicks (acceptTrade alive target t s)) k = dict_get (ss_polyTicks s) k)"
  by (auto simp: acceptTrade_def pushPolyTick_def Let_def)

lemma accepts_frame: "ss_polyBooks (foldl (\<lambda>s t. acceptTrade alive target t s) s ts) = ss_polyBooks s \<and>
    (k \<noteq> target \<longrightarrow> dict_get (ss_polyTicks (foldl (\<lambda>s t. acceptTrade alive target t s) s ts)) k = dict_get (ss_polyTicks s) k)"
  by (induction ts arbitrary: s) (simp_all add: accept_frame)

lemma remdups_adj_strict: "sorted (xs :: 'a :: linorder list) \<Longrightarrow> sorted_wrt (<) (remdups_adj xs)"
  by (induction xs rule: remdups_adj.induct) force+

fun target_of :: "feed_message \<Rightarrow> string option" where
  "target_of (PolledBook t _) = Some t"
| "target_of (PolledTrades t _) = Some t"
| "target_of (FeedSnapshot t _ _) = Some t"
| "target_of (FeedBook t _ _) = Some t"
| "target_of (FeedTrade t _ _) = Some t"
| "target_of (FeedMarkets _) = None"

lemma ingest_frame: "k \<noteq> target \<Longrightarrow> dict_get (ss_polyBooks (ingestBook alive now target b s)) k = dict_get (ss_polyBooks s) k"
  "ss_polyTicks (ingestBook alive now target b s) = ss_polyTicks s"
  by (auto simp: ingestBook_def setPolyBook_def split: option.splits)

lemma feed_step_frame:
  assumes "target_of m = Some t" "k \<noteq> t"
  shows "dict_get (ss_polyBooks (feed_step alive now m s)) k = dict_get (ss_polyBooks s) k"
    "dict_get (ss_polyTicks (feed_step alive now m s)) k = dict_get (ss_polyTicks s) k"
  using assms by (cases m; auto simp: ingest_frame accept_frame accepts_frame Let_def split: option.splits)+

lemma feed_steps_ok: "store_ok s \<Longrightarrow> list_all feed_ok ms \<Longrightarrow> store_ok (foldl (\<lambda>s m. feed_step alive now m s) s ms)"
  by (induction ms arbitrary: s) (auto intro: feed_step_ok)

lemma feed_steps_frame:
  assumes "\<forall>m \<in> set ms. \<exists>t \<in> T. target_of m = Some t" "k \<notin> T"
  shows "dict_get (ss_polyBooks (foldl (\<lambda>s m. feed_step alive now m s) s ms)) k = dict_get (ss_polyBooks s) k \<and>
    dict_get (ss_polyTicks (foldl (\<lambda>s m. feed_step alive now m s) s ms)) k = dict_get (ss_polyTicks s) k"
  using assms
proof (induction ms arbitrary: s)
  case (Cons m ms)
  then obtain t where "target_of m = Some t" "k \<noteq> t" by auto
  note f = feed_step_frame [OF this]
  show ?case using Cons by (simp add: f)
qed simp

section \<open>Properties\<close>

text \<open>
  A subscription touches only its products: its targets are distinct and in order, and whatever books,
  trades and snapshots arrive for them, the store stays within its bounds and the book and the tape of
  every other key are left as they were.
\<close>

theorem subscription_feeds_targets:
  assumes "store_ok s" "\<forall>m \<in> set ms. \<exists>t \<in> set (subscription_targets symbols). target_of m = Some t"
    "k \<notin> set (subscription_targets symbols)"
  shows "let s' = foldl (\<lambda>s m. feed_step alive now m s) s ms in
    sorted_wrt (<) (subscription_targets symbols) \<and> store_ok s' \<and>
    dict_get (ss_polyBooks s') k = dict_get (ss_polyBooks s) k \<and>
    dict_get (ss_polyTicks s') k = dict_get (ss_polyTicks s) k"
proof -
  have "list_all feed_ok ms"
    using assms(2) by (fastforce simp: list_all_iff feed_ok_def split: feed_message.splits)
  then show ?thesis
    using feed_steps_ok [OF assms(1)] feed_steps_frame [OF assms(2,3)]
    by (simp add: subscription_targets_def remdups_adj_strict)
qed

definition bare_book :: cme_book where
  "bare_book = \<lparr>cb_symbol = ''ES'', cb_venue = ''CME'', cb_source = None, cb_bids = None, cb_asks = None,
     cb_bestBid = Some (Fin 5000), cb_bestAsk = Some (Fin 5001), cb_bidSize = None, cb_askSize = None, cb_bidCount = None,
     cb_askCount = None, cb_mid = None, cb_ltp = None, cb_ltpSize = None, cb_volume = None, cb_spread = None,
     cb_tsMs = Some (Fin 9), cb_tickSize = None, cb_tickValue = None, cb_multiplier = None, cb_synthetic = None,
     cb_ltpSource = None\<rparr>"

theorem subscription_feeds_targets_witness:
  "store_ok (foldl (\<lambda>s m. feed_step True 7 m s) initial_state [PolledBook ''ES'' (Some bare_book), PolledTrades ''ES'' None])"
proof -
  have t: "subscription_targets [JStr '' es'', JNull, JStr ''ES''] = [''ES'']" by code_simp
  have "store_ok initial_state" by (rule initial_ok)
  from subscription_feeds_targets [OF this, of "[PolledBook ''ES'' (Some bare_book), PolledTrades ''ES'' None]"
      "[JStr '' es'', JNull, JStr ''ES'']" "''NQ''" True 7]
  show ?thesis by (simp add: t Let_def)
qed

text \<open>
  The price a CME book marks positions with is its last price, or its mid, and 0 when it has neither:
  the conversion writes a missing mid as 0, which the store takes for a mid, so that the best bid and
  ask of such a book are never used.
\<close>

theorem cme_book_mark:
  assumes "\<forall>x \<in> set_option (cb_ltp b). is_fin x" "\<forall>x \<in> set_option (cb_mid b). is_fin x"
  shows "yesPriceFromBook (cmeBookToPolyCompat now b) = Some (opt_or (or_else (cb_ltp b) (cb_mid b)) (Fin 0))"
  using assms by (cases "cb_ltp b"; cases "cb_mid b")
    (auto simp: yesPriceFromBook_def cmeBookToPolyCompat_def Let_def finite_opt_def is_fin_conv)

theorem cme_book_mark_witness:
  "cb_bestBid bare_book = Some (Fin 5000) \<and> cb_bestAsk bare_book = Some (Fin 5001) \<and>
   yesPriceFromBook (cmeBookToPolyCompat 7 bare_book) = Some (Fin 0)"
  using cme_book_mark [of bare_book 7] by (simp add: bare_book_def)

end
