(* ===== verification/Csv.thy ===== *)
theory Csv
  imports JsMath
begin

text \<open>
  Comma separated text in \<open>components/WorkspaceDesktop.tsx\<close>: the writer behind the export buttons
  (\<open>csvEscape\<close>, \<open>exportCsv\<close>), the reader of imported fills (\<open>parseCeriousCsv\<close>), the search for a
  column by its header and the reading of a number.  The reader is a recursion on the text with the
  loop's variables as arguments.
\<close>

abbreviation DQ :: char where "DQ \<equiv> CHR 0x22"
abbreviation NL :: char where "NL \<equiv> CHR 0x0A"
abbreviation CR :: char where "CR \<equiv> CHR 0x0D"

section \<open>Reading\<close>

definition nonblank :: "string list \<Rightarrow> bool" where
  "nonblank row = list_ex (\<lambda>value. js_trim value \<noteq> '''') row"

definition push_row :: "string list list \<Rightarrow> string list \<Rightarrow> string list list" where
  "push_row rows row = (if nonblank row then rows @ [row] else rows)"

fun next_is :: "char \<Rightarrow> string \<Rightarrow> bool" where
  "next_is c [] = False"
| "next_is c (d # ds) = (d = c)"

function csv_scan :: "string list list \<Rightarrow> string list \<Rightarrow> string \<Rightarrow> bool \<Rightarrow> string \<Rightarrow> string list list" where
  "csv_scan rows row cell quoted [] = push_row rows (row @ [cell])"
| "csv_scan rows row cell quoted (ch # rest) =
     (if ch = DQ \<and> quoted \<and> next_is DQ rest then csv_scan rows row (cell @ [DQ]) quoted (tl rest)
      else if ch = DQ then csv_scan rows row cell (\<not> quoted) rest
      else if ch = CHR '','' \<and> \<not> quoted then csv_scan rows (row @ [cell]) '''' quoted rest
      else if (ch = NL \<or> ch = CR) \<and> \<not> quoted
        then csv_scan (push_row rows (row @ [cell])) [] '''' quoted (if ch = CR \<and> next_is NL rest then tl rest else rest)
      else csv_scan rows row (cell @ [ch]) quoted rest)"
  by pat_completeness auto
termination
  by (relation "measure (\<lambda>(_, _, _, _, text). length text)") auto

definition parseCeriousCsv :: "string \<Rightarrow> string list list" where
  "parseCeriousCsv text = csv_scan [] [] '''' False text"

definition alnum_lower :: "char \<Rightarrow> bool" where
  "alnum_lower c = (c \<in> set ''abcdefghijklmnopqrstuvwxyz0123456789'')"

definition normalizeCsvHeader :: "string \<Rightarrow> string" where
  "normalizeCsvHeader value = filter alnum_lower (to_lower (js_trim value))"

text \<open>The first column whose header is one of the names, else the first that contains one; \<open>None\<close> for \<open>-1\<close>.\<close>

definition ceriousHeaderIndex :: "string list \<Rightarrow> string list \<Rightarrow> string list \<Rightarrow> nat option" where
  "ceriousHeaderIndex headers names exclude =
     (let normalizedNames = map normalizeCsvHeader names;
          excluded = map normalizeCsvHeader exclude;
          candidates = filter (\<lambda>(i, h). \<not> list_ex (\<lambda>name. h = name \<or> js_includes name h) excluded)
            (List.enumerate 0 (map normalizeCsvHeader headers))
      in case List.find (\<lambda>(i, h). h \<in> set normalizedNames) candidates of
           Some (i, h) \<Rightarrow> Some i
         | None \<Rightarrow> map_option fst (List.find (\<lambda>(i, h). list_ex (\<lambda>name. js_includes name h) normalizedNames) candidates))"

text \<open>\<open>/^\(.*\)$/.test(text)\<close>, where the dot matches no line end\<close>

definition bracketed :: "string \<Rightarrow> bool" where
  "bracketed text =
     (2 \<le> length text \<and> hd text = CHR ''('' \<and> last text = CHR '')'' \<and> list_all (\<lambda>c. c \<noteq> NL \<and> c \<noteq> CR) text)"

definition csvNumber :: "jsval \<Rightarrow> jsnum option" where
  "csvNumber value =
     (let text = js_trim (js_str (js_nn [value, JStr '''']));
          cleaned = filter (\<lambda>c. c \<notin> set ''()$,%'' \<and> \<not> is_space c) text;
          parsed = js_parse cleaned
      in if is_fin parsed then Some (if bracketed text then js_neg (js_abs parsed) else parsed) else None)"

section \<open>Writing\<close>

definition csv_special :: "char \<Rightarrow> bool" where
  "csv_special c = (c = DQ \<or> c = CHR '','' \<or> c = NL \<or> c = CR)"

definition double_quotes :: "string \<Rightarrow> string" where
  "double_quotes text = concat (map (\<lambda>c. if c = DQ then [DQ, DQ] else [c]) text)"

definition cell_text :: "jsval \<Rightarrow> string" where
  "cell_text value = (if is_nullish value then '''' else js_str value)"

definition csvEscape :: "jsval \<Rightarrow> string" where
  "csvEscape value =
     (let text = cell_text value
      in if list_ex csv_special text then [DQ] @ double_quotes text @ [DQ] else text)"

text \<open>The text that \<open>exportCsv\<close> hands to the browser.\<close>

definition exportCsv :: "string list \<Rightarrow> jsval list \<Rightarrow> string" where
  "exportCsv headers rows =
     join_with [NL] (join_with '','' (map (csvEscape \<circ> JStr) headers)
       # map (\<lambda>row. join_with '','' (map (\<lambda>header. csvEscape (js_get row header)) headers)) rows)"

section \<open>Reading what was written\<close>

text \<open>Where a cell ends: at the end of the text, at a comma or at a line end.\<close>

definition cell_end :: "string \<Rightarrow> bool" where
  "cell_end rest = (rest = '''' \<or> hd rest = CHR '','' \<or> hd rest = NL)"

lemma cell_end_not_quote: "cell_end rest \<Longrightarrow> \<not> next_is DQ rest"
  by (cases rest) (auto simp: cell_end_def)

lemma scan_plain: "\<not> list_ex csv_special t \<Longrightarrow> csv_scan rows row cell False (t @ rest) = csv_scan rows row (cell @ t) False rest"
  by (induction t arbitrary: cell) (auto simp: csv_special_def)

lemma scan_quoted: "cell_end rest \<Longrightarrow>
    csv_scan rows row cell True (double_quotes t @ DQ # rest) = csv_scan rows row (cell @ t) False rest"
  by (induction t arbitrary: cell) (auto simp: double_quotes_def dest: cell_end_not_quote)

lemma scan_cell: "cell_end rest \<Longrightarrow>
    csv_scan rows row '''' False (csvEscape v @ rest) = csv_scan rows row (cell_text v) False rest"
  using scan_plain [of "cell_text v" rows row "''''" rest] scan_quoted [of rest rows row "''''" "cell_text v"]
  by (auto simp: csvEscape_def Let_def)

lemma scan_row:
  assumes "rest = '''' \<or> hd rest = NL"
  shows "csv_scan rows row '''' False (join_with '','' (map csvEscape (v # vs)) @ rest) =
    csv_scan rows (row @ map cell_text (butlast (v # vs))) (cell_text (last (v # vs))) False rest"
proof (induction vs arbitrary: v row)
  case Nil
  then show ?case using assms scan_cell [of rest] by (auto simp: cell_end_def)
next
  case (Cons w ws)
  have "cell_end ('','' @ join_with '','' (map csvEscape (w # ws)) @ rest)" by (simp add: cell_end_def)
  from scan_cell [OF this, of rows row v] show ?case using Cons by simp
qed

lemma scan_line:
  "csv_scan rows [] '''' False (join_with '','' (map csvEscape (v # vs)) @ NL # rest) =
   csv_scan (push_row rows (map cell_text (v # vs))) [] '''' False rest"
proof -
  have "map cell_text (butlast (v # vs)) @ [cell_text (last (v # vs))] = map cell_text (v # vs)"
    by (metis append_butlast_last_id list.distinct(1) list.simps(8,9) map_append)
  then show ?thesis using scan_row [of "NL # rest" rows "[]" v vs] by simp
qed

lemma scan_last_line:
  "csv_scan rows [] '''' False (join_with '','' (map csvEscape (v # vs))) = push_row rows (map cell_text (v # vs))"
proof -
  have "map cell_text (butlast (v # vs)) @ [cell_text (last (v # vs))] = map cell_text (v # vs)"
    by (metis append_butlast_last_id list.distinct(1) list.simps(8,9) map_append)
  then show ?thesis using scan_row [of "''''" rows "[]" v vs] by simp
qed

lemma push_rows: "push_row rows r = rows @ filter nonblank [r]"
  by (simp add: push_row_def)

lemma scan_lines:
  assumes "list_all (\<lambda>r. r \<noteq> []) (r # rs)"
  shows "csv_scan rows [] '''' False (join_with [NL] (map (join_with '','' \<circ> map csvEscape) (r # rs))) =
    rows @ filter nonblank (map (map cell_text) (r # rs))"
  using assms
proof (induction rs arbitrary: r rows)
  case Nil
  then obtain v vs where "r = v # vs" by (cases r) auto
  then show ?case using scan_last_line [of rows v vs] by (simp add: push_rows)
next
  case (Cons q qs)
  obtain v vs where r: "r = v # vs" using Cons.prems by (cases r) auto
  show ?case
    using Cons.IH [of q "push_row rows (map cell_text r)"] Cons.prems scan_line [of rows v vs] r
    by (simp add: push_rows)
qed

lemma cell_text_JStr [simp]: "cell_text (JStr s) = s"
  by (simp add: cell_text_def)

section \<open>Properties\<close>

text \<open>
  What the terminal exports it can import: reading an exported table gives its header and the texts of
  its cells, whatever they contain (commas, quotes, line ends), except that a row with nothing but
  blanks is skipped.
\<close>

theorem exported_csv_reads_back:
  "parseCeriousCsv (exportCsv headers rows) =
   filter nonblank (headers # map (\<lambda>row. map (\<lambda>h. cell_text (js_get row h)) headers) rows)"
proof (cases "headers = []")
  case True
  have "csv_scan acc [] '''' False (join_with [NL] (replicate (Suc n) '''')) = acc" for acc n
    by (induction n) (simp_all add: push_row_def nonblank_def js_trim_def trim_start_def)
  then have "csv_scan [] [] '''' False (join_with [NL] (replicate (Suc (length rows)) '''')) = []" .
  then show ?thesis using True
    by (simp add: parseCeriousCsv_def exportCsv_def nonblank_def map_replicate_const)
next
  case False
  let ?table = "map JStr headers # map (\<lambda>row. map (js_get row) headers) rows"
  have "exportCsv headers rows = join_with [NL] (map (join_with '','' \<circ> map csvEscape) ?table)"
    by (simp add: exportCsv_def comp_def)
  then show ?thesis
    using scan_lines [of "map JStr headers" "map (\<lambda>row. map (js_get row) headers) rows" "[]"] False
    by (simp add: parseCeriousCsv_def list_all_iff comp_def)
qed

text \<open>
  An empty cell is the number 0, not a missing number (\<open>Number('')\<close> is 0), and so is a cell of
  currency signs only; brackets make a number negative, a sign inside them included.
\<close>

theorem csv_blank_is_zero:
  "csvNumber JUndef = Some (Fin 0) \<and> csvNumber (JStr '' $ '') = Some (Fin 0) \<and>
   csvNumber (JStr ''(1,250.50)'') = Some (Fin (- 2501 / 2)) \<and> csvNumber (JStr ''n/a'') = None"
  by code_simp

end
