(* ===== verification/Format.thy ===== *)
theory Format
  imports MarketDisplay JsMath
begin

text \<open>
  The number formats of \<open>components/WorkspaceDesktop.tsx\<close>: money, fixed decimals, percentages, cents,
  compact counts, signed quotes and the time left to an expiry.  An absent or NaN number is a dash.
  Not here: \<open>fmtInt\<close> and \<open>fmtTimestamp\<close>, which print in the locale and time zone of the browser.
\<close>

definition displayNumber :: "jsval \<Rightarrow> jsnum \<Rightarrow> jsnum" where
  "displayNumber value fallback = (if is_fin (js_num value) then js_num value else fallback)"

definition fmtMoney :: "jsval \<Rightarrow> string" where
  "fmtMoney value =
     (case finite_opt value of
        None \<Rightarrow> ''-''
      | Some n \<Rightarrow>
          if js_le (Fin 1000000) (js_abs n) then ''$'' @ to_fixed 2 (js_div n (Fin 1000000)) @ ''M''
          else if js_le (Fin 1000) (js_abs n) then ''$'' @ to_fixed 1 (js_div n (Fin 1000)) @ ''K''
          else ''$'' @ to_fixed (if js_le (Fin 100) (js_abs n) then 0 else 2) n)"

definition fmtNum :: "jsval \<Rightarrow> nat \<Rightarrow> string" where
  "fmtNum value digits = (case finite_opt value of None \<Rightarrow> ''-'' | Some n \<Rightarrow> to_fixed digits n)"

definition fmtPct :: "jsval \<Rightarrow> string" where
  "fmtPct value =
     (case finite_opt value of None \<Rightarrow> ''-'' | Some n \<Rightarrow> to_fixed 1 (js_mul n (Fin 100)) @ ''%'')"

definition cx :: "string option list \<Rightarrow> string" where
  "cx parts = join_with '' '' (filter (\<lambda>p. p \<noteq> '''') (List.map_filter id parts))"

text \<open>\<open>n === undefined || Number.isNaN(n)\<close>\<close>

definition given :: "jsnum option \<Rightarrow> jsnum option" where
  "given n = (case n of Some NaN \<Rightarrow> None | _ \<Rightarrow> n)"

definition plus_sign :: "jsnum \<Rightarrow> string" where
  "plus_sign n = (if js_le (Fin 0) n then ''+'' else '''')"

definition fmtSignedPct :: "jsnum option \<Rightarrow> string" where
  "fmtSignedPct n = (case given n of None \<Rightarrow> ''-'' | Some x \<Rightarrow> plus_sign x @ to_fixed 2 x @ ''%'')"

definition fmtCents :: "jsnum option \<Rightarrow> string" where
  "fmtCents n =
     (case given n of None \<Rightarrow> ''-'' | Some x \<Rightarrow> to_fixed (if js_le (Fin 10) x then 1 else 2) x @ ''c'')"

definition fmtCompact :: "jsnum option \<Rightarrow> string" where
  "fmtCompact n =
     (case given n of
        None \<Rightarrow> ''-''
      | Some x \<Rightarrow>
          if js_le (Fin 1000000) (js_abs x) then to_fixed 1 (js_div x (Fin 1000000)) @ ''M''
          else if js_le (Fin 1000) (js_abs x) then to_fixed 1 (js_div x (Fin 1000)) @ ''K''
          else to_fixed 0 x)"

datatype quote_mode = MoneyMode | CentsMode | PriceMode

definition fmtQuote :: "jsnum option \<Rightarrow> quote_mode \<Rightarrow> string" where
  "fmtQuote n mode =
     (case given n of
        None \<Rightarrow> ''-''
      | Some x \<Rightarrow>
          (case mode of
             PriceMode \<Rightarrow> formatMarketPrice x None
           | MoneyMode \<Rightarrow> fmtMoney (JNum x)
           | CentsMode \<Rightarrow> fmtCents n))"

definition fmtSignedQuote :: "jsnum option \<Rightarrow> quote_mode \<Rightarrow> string" where
  "fmtSignedQuote n mode =
     (case given n of
        None \<Rightarrow> ''-''
      | Some x \<Rightarrow>
          (case mode of
             PriceMode \<Rightarrow> plus_sign x @ formatMarketPrice x None
           | MoneyMode \<Rightarrow> (if js_le (Fin 0) x then ''+'' else ''-'') @ fmtMoney (JNum (js_abs x))
           | CentsMode \<Rightarrow> (if js_le (Fin 0) x then ''+'' else ''-'') @ fmtCents (Some (js_abs x))))"

definition fmtTimeLeft :: "rat \<Rightarrow> jsnum option \<Rightarrow> string" where
  "fmtTimeLeft now expiryTs =
     (case expiryTs of
        None \<Rightarrow> ''-''
      | Some e \<Rightarrow>
          if \<not> truthy (JNum e) then ''-''
          else let ms = js_sub e (Fin now) in
            if js_le ms (Fin 0) then ''expired''
            else let mins = js_floor (js_div ms (Fin 60000)) in
              if js_lt mins (Fin 60) then jsnum_string mins @ ''m''
              else jsnum_string (js_floor (js_div mins (Fin 60))) @ ''h '' @ jsnum_string (js_mod mins (Fin 60)) @ ''m'')"

end
