(* ===== verification/TradeAnalytics.thy ===== *)
theory TradeAnalytics
  imports Csv Format "HOL-Library.Monad_Syntax"
begin

text \<open>
  The analysis of imported fills in \<open>components/WorkspaceDesktop.tsx\<close>: means and deviations, the
  equity curve and its drawdowns, the risk level, the studies and the report, and
  \<open>analyzeTradeAnalyticsCsv\<close>, which reads a table of fills and computes all of them.
  \<open>Date.parse\<close> (\<open>dp\<close>) and the local-time constructor \<open>new Date(y, m, d, h, min, s)\<close> (\<open>lt\<close>) are
  parameters.  An error the code throws is an \<open>ErrorMsg\<close>.
\<close>

definition TRADE_ANALYTICS_ACCOUNT_SIZE :: jsnum where
  "TRADE_ANALYTICS_ACCOUNT_SIZE = Fin 500000"

abbreviation count :: "'a list \<Rightarrow> jsnum" where
  "count xs \<equiv> Fin (of_nat (length xs))"

section \<open>Statistics\<close>

definition ceriousMean :: "jsnum list \<Rightarrow> jsnum" where
  "ceriousMean values = (if values \<noteq> [] then js_div (js_sum values) (count values) else Fin 0)"

definition js_square :: "jsnum \<Rightarrow> jsnum" where
  "js_square x = js_mul x x"

definition ceriousStdev :: "jsnum list \<Rightarrow> jsnum" where
  "ceriousStdev values =
     (if length values < 2 then Fin 0
      else let mean = ceriousMean values;
               variance = js_div (foldl (\<lambda>total v. js_add total (js_square (js_sub v mean))) (Fin 0) values)
                 (js_sub (count values) (Fin 1))
           in js_sqrt variance)"

definition ceriousDownsideDeviation :: "jsnum list \<Rightarrow> jsnum \<Rightarrow> jsnum" where
  "ceriousDownsideDeviation returns target =
     (if returns = [] then Fin 0
      else js_sqrt (ceriousMean (map (\<lambda>v. js_square (js_min (Fin 0) (js_sub v target))) returns)))"

fun drawdown_step :: "jsnum \<times> jsnum \<times> jsnum \<Rightarrow> jsnum \<Rightarrow> jsnum \<times> jsnum \<times> jsnum" where
  "drawdown_step (peak, worst, equity) v =
     (let equity' = js_add equity v; peak' = js_max peak equity'
      in (peak', js_min worst (js_sub equity' peak'), equity'))"

definition ceriousMaxDrawdown :: "jsnum list \<Rightarrow> jsnum" where
  "ceriousMaxDrawdown values = js_abs (fst (snd (foldl drawdown_step (Fin 0, Fin 0, Fin 0) values)))"

record curve_point =
  cv_index :: nat
  cv_equity :: jsnum
  cv_drawdown :: jsnum
  cv_maxDrawdown :: jsnum

fun curve_from :: "jsnum \<Rightarrow> nat \<Rightarrow> jsnum \<Rightarrow> jsnum \<Rightarrow> jsnum \<Rightarrow> jsnum list \<Rightarrow> curve_point list" where
  "curve_from accountSize index cumulative peak maxDrawdown [] = []"
| "curve_from accountSize index cumulative peak maxDrawdown (pnl # pnls) =
     (let cumulative' = js_add cumulative pnl; peak' = js_max peak cumulative';
          drawdown = js_max (Fin 0) (js_sub peak' cumulative'); maxDrawdown' = js_max maxDrawdown drawdown
      in \<lparr>cv_index = index, cv_equity = js_add accountSize cumulative', cv_drawdown = drawdown,
          cv_maxDrawdown = maxDrawdown'\<rparr>
         # curve_from accountSize (Suc index) cumulative' peak' maxDrawdown' pnls)"

definition equityCurveFromPnls :: "jsnum list \<Rightarrow> jsnum \<Rightarrow> curve_point list" where
  "equityCurveFromPnls pnls accountSize = curve_from accountSize 0 (Fin 0) (Fin 0) (Fin 0) pnls"

section \<open>Records and metrics\<close>

record fill_record =
  fr_pnl :: jsnum
  fr_cumulativePnl :: "jsnum option"
  fr_accountMaxDrawdown :: "jsnum option"
  fr_accountDrawdown :: "jsnum option"
  fr_instrument :: string
  fr_side :: string
  fr_qty :: "jsnum option"
  fr_price :: "jsnum option"
  fr_timestamp :: string
  fr_displayTimestamp :: string
  fr_timestampMs :: jsnum

record metrics =
  tm_rows :: nat
  tm_accountSize :: jsnum
  tm_total :: jsnum
  tm_returnPct :: jsnum
  tm_winRate :: jsnum
  tm_sharpe :: jsnum
  tm_sortino :: jsnum
  tm_calmar :: jsnum
  tm_profitFactor :: jsnum
  tm_expectancy :: jsnum
  tm_drawdown :: jsnum
  tm_drawdownPct :: jsnum
  tm_studyCoverage :: jsnum
  tm_largestLossPct :: "jsnum option"
  tm_knownInstrumentRows :: "nat option"
  tm_peakEquity :: "jsnum option"
  tm_troughEquity :: "jsnum option"
  tm_endEquity :: "jsnum option"
  tm_productSummary :: "string option"
  tm_worstDrawdownPoint :: "fill_record option"

record study_row =
  sr_study :: string
  sr_passed :: bool
  sr_result :: string
  sr_read :: string

record report_row =
  rr_label :: string
  rr_value :: string
  rr_read :: string

record product_total =
  pr_instrument :: string
  pr_pnl :: jsnum

record analytics =
  ta_status :: string
  ta_riskLevel :: string
  ta_metrics :: metrics
  ta_studies :: "study_row list"
  ta_curve :: "curve_point list"
  ta_productTotals :: "product_total list"
  ta_report :: "report_row list"
  ta_records :: "fill_record list"
  ta_filename :: string

definition tradeAnalyticsRiskLevel :: "metrics \<Rightarrow> string" where
  "tradeAnalyticsRiskLevel m =
     (if js_le (Fin (2 / 100)) (tm_drawdownPct m) \<or> js_lt (tm_total m) (Fin 0) \<or> js_lt (tm_sharpe m) (Fin 0)
         \<or> js_lt (tm_calmar m) (Fin 0) then ''High''
      else if js_le (Fin (1 / 100)) (tm_drawdownPct m) \<or> js_lt (tm_profitFactor m) (Fin (12 / 10))
         \<or> js_lt (tm_sharpe m) (Fin (5 / 10)) then ''Elevated''
      else ''Controlled'')"

abbreviation money :: "jsnum \<Rightarrow> string" where "money x \<equiv> fmtMoney (JNum x)"
abbreviation pct :: "jsnum \<Rightarrow> string" where "pct x \<equiv> fmtPct (JNum x)"
abbreviation num2 :: "jsnum \<Rightarrow> string" where "num2 x \<equiv> fmtNum (JNum x) 2"
abbreviation money_opt :: "jsnum option \<Rightarrow> string" where
  "money_opt x \<equiv> fmtMoney (case x of None \<Rightarrow> JUndef | Some v \<Rightarrow> JNum v)"

definition buildTradeAnalyticsStudies :: "metrics \<Rightarrow> study_row list" where
  "buildTradeAnalyticsStudies m =
     (let known = (case tm_knownInstrumentRows m of Some k \<Rightarrow> Fin (of_nat k)
            | None \<Rightarrow> js_round (js_mul (tm_studyCoverage m) (Fin (of_nat (tm_rows m)))));
          largest = opt_or (tm_largestLossPct m) (Fin 0);
          level = tradeAnalyticsRiskLevel m
      in [\<lparr>sr_study = ''Risk assessment'', sr_passed = (level = ''Controlled''), sr_result = level,
           sr_read = ''Drawdown '' @ pct (tm_drawdownPct m) @ '', Sharpe '' @ num2 (tm_sharpe m) @ '', Calmar '' @ num2 (tm_calmar m)\<rparr>,
          \<lparr>sr_study = ''Account base'', sr_passed = js_le (Fin 0) (tm_returnPct m), sr_result = pct (tm_returnPct m),
           sr_read = money (tm_total m) @ '' on '' @ money (tm_accountSize m)\<rparr>,
          \<lparr>sr_study = ''Drawdown control'', sr_passed = js_le (tm_drawdownPct m) (Fin (1 / 100)),
           sr_result = pct (tm_drawdownPct m),
           sr_read = (if js_le (tm_drawdownPct m) (Fin (1 / 100)) then ''Inside 1% daily drawdown band''
                      else ''Review size, stops, or sequencing'')\<rparr>,
          \<lparr>sr_study = ''Expectancy'',
           sr_passed = (js_lt (Fin 0) (tm_expectancy m) \<and> js_le (Fin 1) (tm_profitFactor m)),
           sr_result = money (tm_expectancy m) @ '' / '' @ num2 (tm_profitFactor m) @ '' PF'',
           sr_read = (if js_lt (Fin 0) (tm_expectancy m) then ''Positive average trade contribution'' else ''Negative expectancy day'')\<rparr>,
          \<lparr>sr_study = ''Loss concentration'', sr_passed = js_le largest (Fin (5 / 1000)), sr_result = pct largest,
           sr_read = (if js_le largest (Fin (5 / 1000)) then ''No single loss exceeded 0.5% of account''
                      else ''Largest loss exceeded 0.5% of account'')\<rparr>,
          \<lparr>sr_study = ''Study coverage'', sr_passed = js_le (Fin (8 / 10)) (tm_studyCoverage m),
           sr_result = pct (tm_studyCoverage m),
           sr_read = jsnum_string known @ ''/'' @ jsnum_string (Fin (of_nat (tm_rows m))) @ '' rows mapped to defined products or spreads''\<rparr>])"

text \<open>\<open>xs.reduce((winner, x) => !winner || better(x, winner) ? x : winner, null)\<close>\<close>

definition best_by :: "('a \<Rightarrow> 'a \<Rightarrow> bool) \<Rightarrow> 'a list \<Rightarrow> 'a option" where
  "best_by better xs =
     foldl (\<lambda>w x. case w of None \<Rightarrow> Some x | Some y \<Rightarrow> if better x y then Some x else Some y) None xs"

text \<open>\<open>a || b\<close> on strings\<close>

definition or_text :: "string \<Rightarrow> string \<Rightarrow> string" where
  "or_text a b = (if a \<noteq> '''' then a else b)"

definition buildTradeAnalyticsReport :: "metrics \<Rightarrow> fill_record list \<Rightarrow> report_row list" where
  "buildTradeAnalyticsReport m records =
     (let best = best_by (\<lambda>r w. js_lt (fr_pnl w) (fr_pnl r)) records;
          worst = best_by (\<lambda>r l. js_lt (fr_pnl r) (fr_pnl l)) records;
          fill_value = (\<lambda>r. case r of None \<Rightarrow> ''-'' | Some f \<Rightarrow> money (fr_pnl f) @ '' '' @ fr_instrument f);
          fill_time = (\<lambda>r. case r of None \<Rightarrow> ''No timestamp available.''
            | Some f \<Rightarrow> or_text (fr_displayTimestamp f) (or_text (fr_timestamp f) ''No timestamp available.''))
      in [\<lparr>rr_label = ''Risk assessment'', rr_value = tradeAnalyticsRiskLevel m,
           rr_read = (if js_lt (tm_total m) (Fin 0)
             then ''Negative P&L with drawdown pressure. Reduce size or review trade selection before scaling.''
             else if js_lt (Fin (1 / 100)) (tm_drawdownPct m) then ''Positive P&L, but drawdown exceeded 1% of the assumed account.''
             else ''P&L and drawdown are within the current risk envelope.'')\<rparr>,
          \<lparr>rr_label = ''Session result'', rr_value = money (tm_total m) @ '' / '' @ pct (tm_returnPct m),
           rr_read = (if js_le (Fin 0) (tm_total m) then ''Net positive against the account base.''
             else ''Net negative against the account base.'')\<rparr>,
          \<lparr>rr_label = ''Risk-adjusted return'',
           rr_value = ''Sharpe '' @ num2 (tm_sharpe m) @ '' | Sortino '' @ num2 (tm_sortino m) @ '' | Calmar '' @ num2 (tm_calmar m),
           rr_read = ''Calculated from fill-level account returns using a zero risk-free/minimum acceptable return.''\<rparr>,
          \<lparr>rr_label = ''Drawdown'', rr_value = money (tm_drawdown m) @ '' / '' @ pct (tm_drawdownPct m),
           rr_read = (if truthy (JNum (tm_drawdown m)) then ''Peak-to-trough realized account P&L drawdown.''
             else ''No realized drawdown in the imported sequence.'')\<rparr>,
          \<lparr>rr_label = ''Intraday curve'',
           rr_value = ''Peak '' @ money_opt (tm_peakEquity m) @ '' | Trough '' @ money_opt (tm_troughEquity m) @ '' | End '' @ money_opt (tm_endEquity m),
           rr_read = (case tm_worstDrawdownPoint m of None \<Rightarrow> ''No drawdown point available.''
             | Some p \<Rightarrow> ''Max drawdown at '' @ or_text (fr_displayTimestamp p) (or_text (fr_timestamp p) ''unknown time'') @ ''.'')\<rparr>,
          \<lparr>rr_label = ''Expectancy'', rr_value = money (tm_expectancy m) @ '' per fill'',
           rr_read = pct (tm_winRate m) @ '' win rate with '' @ num2 (tm_profitFactor m) @ '' profit factor.''\<rparr>,
          \<lparr>rr_label = ''Product contribution'', rr_value = or_text (opt_or (tm_productSummary m) '''') ''-'',
           rr_read = ''Realized P&L grouped by product from the imported fill rows.''\<rparr>,
          \<lparr>rr_label = ''Best fill'', rr_value = fill_value best, rr_read = fill_time best\<rparr>,
          \<lparr>rr_label = ''Worst fill'', rr_value = fill_value worst, rr_read = fill_time worst\<rparr>])"

section \<open>Rows of a table\<close>

definition take_num :: "nat \<Rightarrow> string \<Rightarrow> (int \<times> string) option" where
  "take_num n s =
     (if n \<le> length s \<and> all_digits (take n s) then Some (digits_val (take n s), drop n s) else None)"

definition expect_char :: "char \<Rightarrow> string \<Rightarrow> string option" where
  "expect_char c s = (case s of [] \<Rightarrow> None | d # ds \<Rightarrow> if d = c then Some ds else None)"

definition skip_spaces :: "string \<Rightarrow> string option" where
  "skip_spaces s = (if s \<noteq> '''' \<and> is_space (hd s) then Some (dropWhile is_space s) else None)"

text \<open>\<open>text.match(/^(\d{4})-(\d{2})-(\d{2})\s+(\d{2}):(\d{2}):(\d{2})\s+CT$/i)\<close>\<close>

definition chicago_match :: "string \<Rightarrow> int list option" where
  "chicago_match text = do {
     (y, s) \<leftarrow> take_num 4 text; s \<leftarrow> expect_char (CHR ''-'') s;
     (mo, s) \<leftarrow> take_num 2 s; s \<leftarrow> expect_char (CHR ''-'') s;
     (d, s) \<leftarrow> take_num 2 s; s \<leftarrow> skip_spaces s;
     (h, s) \<leftarrow> take_num 2 s; s \<leftarrow> expect_char (CHR '':'') s;
     (mi, s) \<leftarrow> take_num 2 s; s \<leftarrow> expect_char (CHR '':'') s;
     (sec, s) \<leftarrow> take_num 2 s; s \<leftarrow> skip_spaces s;
     if to_lower s = ''ct'' then Some [y, mo, d, h, mi, sec] else None }"

definition parseTradeTimestamp :: "(string \<Rightarrow> jsnum) \<Rightarrow> (int list \<Rightarrow> jsnum) \<Rightarrow> string \<Rightarrow> jsnum" where
  "parseTradeTimestamp dp lt value =
     (let text = js_trim value in
      if text = '''' then NaN
      else if is_fin (dp text) then dp text
      else (case chicago_match text of
              Some [y, mo, d, h, mi, s] \<Rightarrow> lt [y, mo - 1, d, h, mi, s]
            | _ \<Rightarrow> NaN))"

record columns =
  tc_pnl :: nat
  tc_instrument :: "nat option"
  tc_side :: "nat option"
  tc_qty :: "nat option"
  tc_price :: "nat option"
  tc_timestamp :: "nat option"
  tc_timestampChicago :: "nat option"
  tc_time :: "nat option"
  tc_cumulative :: "nat option"
  tc_drawdown :: "nat option"
  tc_currentDrawdown :: "nat option"

definition find_columns :: "string list \<Rightarrow> columns option" where
  "find_columns headers =
     (case ceriousHeaderIndex headers [''realizedPnl'', ''closedPnl'', ''netPnl'', ''tradePnl'', ''pnl'', ''profit'', ''net'', ''realized'']
         [''openPnl'', ''cumulativePnl'', ''accountDrawdown'', ''accountMaxDrawdown'', ''accountEquity''] of
        None \<Rightarrow> None
      | Some p \<Rightarrow> Some
          \<lparr>tc_pnl = p,
           tc_instrument = ceriousHeaderIndex headers [''instrument'', ''instrumentId'', ''symbol'', ''product'', ''market''] [],
           tc_side = ceriousHeaderIndex headers [''side'', ''buy/sell''] [],
           tc_qty = ceriousHeaderIndex headers [''qty'', ''quantity'', ''size''] [],
           tc_price = ceriousHeaderIndex headers [''price'', ''fillPrice'', ''fill price''] [],
           tc_timestamp = ceriousHeaderIndex headers [''timestamp''] [],
           tc_timestampChicago = ceriousHeaderIndex headers [''timestampChicago''] [],
           tc_time = ceriousHeaderIndex headers [''time'', ''date''] [],
           tc_cumulative = ceriousHeaderIndex headers [''cumulativePnl''] [],
           tc_drawdown = ceriousHeaderIndex headers [''accountMaxDrawdown'', ''maxDrawdown''] [],
           tc_currentDrawdown = ceriousHeaderIndex headers [''accountDrawdown'', ''drawdown''] []\<rparr>)"

text \<open>\<open>row[i]\<close>, which is \<open>undefined\<close> beyond the end of a short row\<close>

definition row_at :: "string list \<Rightarrow> nat \<Rightarrow> jsval" where
  "row_at row i = (if i < length row then JStr (row ! i) else JUndef)"

definition text_at :: "string list \<Rightarrow> nat option \<Rightarrow> string" where
  "text_at row c = (case c of None \<Rightarrow> '''' | Some i \<Rightarrow> js_trim (js_str (js_or [row_at row i, JStr ''''])))"

definition num_at :: "string list \<Rightarrow> nat option \<Rightarrow> jsnum option" where
  "num_at row c = (case c of None \<Rightarrow> None | Some i \<Rightarrow> csvNumber (row_at row i))"

definition record_of_row :: "(string \<Rightarrow> jsnum) \<Rightarrow> (int list \<Rightarrow> jsnum) \<Rightarrow> columns \<Rightarrow> string list \<Rightarrow> fill_record" where
  "record_of_row dp lt c row =
     (let timestamp = text_at row (tc_timestamp c);
          display = (case tc_timestampChicago c of None \<Rightarrow> timestamp | _ \<Rightarrow> text_at row (tc_timestampChicago c));
          fallback = text_at row (tc_time c)
      in \<lparr>fr_pnl = opt_or (csvNumber (row_at row (tc_pnl c))) NaN,
          fr_cumulativePnl = num_at row (tc_cumulative c),
          fr_accountMaxDrawdown = num_at row (tc_drawdown c),
          fr_accountDrawdown = num_at row (tc_currentDrawdown c),
          fr_instrument = to_upper (text_at row (tc_instrument c)),
          fr_side = text_at row (tc_side c),
          fr_qty = num_at row (tc_qty c),
          fr_price = num_at row (tc_price c),
          fr_timestamp = or_text timestamp fallback,
          fr_displayTimestamp = or_text display fallback,
          fr_timestampMs = parseTradeTimestamp dp lt (or_text timestamp (or_text fallback display))\<rparr>)"

definition by_fill_time :: "fill_record \<Rightarrow> fill_record \<Rightarrow> jsnum" where
  "by_fill_time a b =
     (if is_fin (fr_timestampMs a) \<and> is_fin (fr_timestampMs b)
      then js_sub (fr_timestampMs a) (fr_timestampMs b) else Fin 0)"

text \<open>\<open>Number(null)\<close> is 0.\<close>

definition null_num :: "jsnum option \<Rightarrow> jsnum" where
  "null_num v = opt_or v (Fin 0)"

definition worst_point :: "fill_record list \<Rightarrow> fill_record option" where
  "worst_point records =
     foldl (\<lambda>worst r. let value = null_num (fr_accountDrawdown r) in
       if \<not> is_fin value then worst
       else case worst of
         None \<Rightarrow> Some r
       | Some w \<Rightarrow> if js_lt (null_num (fr_accountDrawdown w)) value then Some r else worst) None records"

definition product_map :: "fill_record list \<Rightarrow> jsnum dict" where
  "product_map records =
     foldl (\<lambda>m r. let key = or_text (fr_instrument r) ''UNKNOWN'';
                     old = (case dict_get m key of Some x \<Rightarrow> if truthy (JNum x) then x else Fin 0 | None \<Rightarrow> Fin 0)
                 in dict_set key (js_add old (fr_pnl r)) m) [] records"

definition by_size :: "string \<times> jsnum \<Rightarrow> string \<times> jsnum \<Rightarrow> jsnum" where
  "by_size a b = js_sub (js_abs (snd b)) (js_abs (snd a))"

definition product_totals :: "fill_record list \<Rightarrow> product_total list" where
  "product_totals records =
     map (\<lambda>(i, p). \<lparr>pr_instrument = i, pr_pnl = p\<rparr>) (js_sort by_size (js_entries (product_map records)))"

definition knownProducts :: "string list" where
  "knownProducts = [''ES'', ''NQ'', ''YM'', ''RTY'', ''ES_NQ'', ''YM_ES'', ''RTY_ES'', ''ES/NQ'', ''YM/ES'', ''RTY/ES'', ''ZM'', ''ZS'', ''CL'', ''GC'']"

section \<open>The analysis\<close>

definition metrics_of :: "fill_record list \<Rightarrow> metrics" where
  "metrics_of records =
     (let pnls = map fr_pnl records; account = TRADE_ANALYTICS_ACCOUNT_SIZE;
          total = js_sum pnls;
          wins = filter (js_lt (Fin 0)) pnls; losses = filter (\<lambda>v. js_lt v (Fin 0)) pnls;
          grossProfit = js_sum wins; grossLoss = js_abs (js_sum losses);
          returns = map (\<lambda>v. js_div v account) pnls;
          meanReturn = ceriousMean returns; sigma = ceriousStdev returns;
          downside = ceriousDownsideDeviation returns (Fin 0);
          curve = equityCurveFromPnls pnls account;
          reported = js_max_list (Fin 0 # filter is_fin (map (null_num \<circ> fr_accountMaxDrawdown) records));
          drawdown = (if truthy (JNum reported) then reported
            else if curve \<noteq> [] then cv_maxDrawdown (last curve) else ceriousMaxDrawdown pnls);
          peakPoint = best_by (\<lambda>p w. js_lt (cv_equity w) (cv_equity p)) curve;
          troughPoint = best_by (\<lambda>p l. js_lt (cv_equity p) (cv_equity l)) curve;
          returnPct = js_div total account; drawdownPct = js_div drawdown account;
          known = length (filter (\<lambda>r. fr_instrument r \<in> set knownProducts) records)
      in \<lparr>tm_rows = length records, tm_accountSize = account, tm_total = total, tm_returnPct = returnPct,
          tm_winRate = js_div (count wins) (count records),
          tm_sharpe = (if truthy (JNum sigma) then js_mul (js_div meanReturn sigma) (js_sqrt (count returns)) else Fin 0),
          tm_sortino = (if truthy (JNum downside) then js_mul (js_div meanReturn downside) (js_sqrt (count returns)) else Fin 0),
          tm_calmar = (if truthy (JNum drawdownPct) then js_div returnPct drawdownPct else Fin 0),
          tm_profitFactor = (if truthy (JNum grossLoss) then js_div grossProfit grossLoss
            else if truthy (JNum grossProfit) then grossProfit else Fin 0),
          tm_expectancy = ceriousMean pnls, tm_drawdown = drawdown, tm_drawdownPct = drawdownPct,
          tm_studyCoverage = (if records \<noteq> [] then js_div (Fin (of_nat known)) (count records) else Fin 0),
          tm_largestLossPct = Some (js_div (js_abs (js_min_list (Fin 0 # pnls))) account),
          tm_knownInstrumentRows = Some known,
          tm_peakEquity = Some (case peakPoint of Some p \<Rightarrow> cv_equity p | None \<Rightarrow> account),
          tm_troughEquity = Some (case troughPoint of Some p \<Rightarrow> cv_equity p | None \<Rightarrow> account),
          tm_endEquity = Some (if curve \<noteq> [] then cv_equity (last curve) else account),
          tm_productSummary = Some (join_with '' | '' (map (\<lambda>row. pr_instrument row @ '' '' @ money (pr_pnl row)) (product_totals records))),
          tm_worstDrawdownPoint = worst_point records\<rparr>)"

definition read_records :: "(string \<Rightarrow> jsnum) \<Rightarrow> (int list \<Rightarrow> jsnum) \<Rightarrow> columns \<Rightarrow> string list list \<Rightarrow> fill_record list" where
  "read_records dp lt c rows =
     js_sort by_fill_time (filter (\<lambda>r. is_fin (fr_pnl r)) (map (record_of_row dp lt c) rows))"

definition analyzeTradeAnalyticsCsv ::
    "(string \<Rightarrow> jsnum) \<Rightarrow> (int list \<Rightarrow> jsnum) \<Rightarrow> string \<Rightarrow> string \<Rightarrow> analytics js_result" where
  "analyzeTradeAnalyticsCsv dp lt text filename =
     (case parseCeriousCsv text of
        header # row # rows \<Rightarrow>
          (case find_columns (map js_trim header) of
             None \<Rightarrow> Inl (ErrorMsg ''Could not find a realized P&L column. Try realizedPnl, pnl, profit, net, or realized.'')
           | Some c \<Rightarrow>
               (let records = read_records dp lt c (row # rows); m = metrics_of records in
                if records = [] then Inl (ErrorMsg ''No numeric P&L rows found.'')
                else Inr \<lparr>ta_status = ''Imported '' @ jsnum_string (count records) @ '' row(s); account base '' @ money TRADE_ANALYTICS_ACCOUNT_SIZE @ ''.'',
                  ta_riskLevel = tradeAnalyticsRiskLevel m, ta_metrics = m, ta_studies = buildTradeAnalyticsStudies m,
                  ta_curve = equityCurveFromPnls (map fr_pnl records) TRADE_ANALYTICS_ACCOUNT_SIZE,
                  ta_productTotals = product_totals records, ta_report = buildTradeAnalyticsReport m records,
                  ta_records = records, ta_filename = filename\<rparr>))
      | _ \<Rightarrow> Inl (ErrorMsg ''CSV needs a header row and at least one fill row''))"

section \<open>Drawdown\<close>

text \<open>
  The reference definitions: the highest equity so far (0 before the first fill included), and the
  largest fall from an earlier to a later equity.
\<close>

definition equity_at :: "rat list \<Rightarrow> nat \<Rightarrow> rat" where
  "equity_at xs j = sum_list (take j xs)"

definition peak_of :: "rat list \<Rightarrow> rat" where
  "peak_of xs = Max (equity_at xs ` {..length xs})"

definition drawdown_of :: "rat list \<Rightarrow> rat" where
  "drawdown_of xs = Max (\<Union>k \<le> length xs. (\<lambda>j. equity_at xs j - equity_at xs k) ` {..k})"

lemma equity_at_append: "j \<le> length xs \<Longrightarrow> equity_at (xs @ ys) j = equity_at xs j"
  by (simp add: equity_at_def)

lemma equity_at_all [simp]: "equity_at xs (length xs) = sum_list xs"
  by (simp add: equity_at_def)

lemma equity_at_snoc [simp]: "equity_at (xs @ [x]) (Suc (length xs)) = sum_list xs + x"
  by (simp add: equity_at_def)

lemma peak_of_Nil [simp]: "peak_of [] = 0"
  by (simp add: peak_of_def equity_at_def)

lemma peak_of_snoc: "peak_of (xs @ [x]) = max (peak_of xs) (sum_list xs + x)"
proof -
  have "equity_at (xs @ [x]) ` {..Suc (length xs)} = insert (sum_list xs + x) (equity_at xs ` {..length xs})"
    by (auto simp: atMost_Suc equity_at_append)
  then show ?thesis by (simp add: peak_of_def max.commute)
qed

lemma drawdown_of_Nil [simp]: "drawdown_of [] = 0"
  by (simp add: drawdown_of_def equity_at_def)

lemma Max_diff: "finite S \<Longrightarrow> S \<noteq> {} \<Longrightarrow> Max ((\<lambda>j. f j - (c :: rat)) ` S) = Max (f ` S) - c"
  using Max_add_commute [of S f "- c"] by simp

lemma drawdown_of_snoc:
  "drawdown_of (xs @ [x]) = max (drawdown_of xs) (peak_of (xs @ [x]) - (sum_list xs + x))"
proof -
  let ?n = "length xs" and ?e = "equity_at (xs @ [x])"
  let ?D = "\<lambda>k. (\<lambda>j. ?e j - ?e k) ` {..k}"
  have old: "(\<Union>k \<le> ?n. ?D k) = (\<Union>k \<le> ?n. (\<lambda>j. equity_at xs j - equity_at xs k) ` {..k})"
    by (intro SUP_cong image_cong) (auto simp: equity_at_append)
  have fin: "finite (\<Union>k \<le> ?n. ?D k)" "(\<Union>k \<le> ?n. ?D k) \<noteq> {}" by auto
  have "Max (?D (Suc ?n)) = Max (?e ` {..Suc ?n}) - (sum_list xs + x)"
    using Max_diff [of "{..Suc ?n}" ?e "?e (Suc ?n)"] by simp
  moreover have "(\<Union>k \<le> length (xs @ [x]). ?D k) = ?D (Suc ?n) \<union> (\<Union>k \<le> ?n. ?D k)"
    by (simp add: atMost_Suc)
  ultimately show ?thesis
    using Max_Un [of "?D (Suc ?n)" "\<Union>k \<le> ?n. ?D k"] fin
    by (simp add: drawdown_of_def peak_of_def old max.commute)
qed

lemma drawdown_nonneg: "0 \<le> drawdown_of xs"
proof (induction xs rule: rev_induct)
  case (snoc x xs)
  then show ?case by (simp add: drawdown_of_snoc)
qed simp

lemma peak_ge: "sum_list xs \<le> peak_of xs"
  unfolding peak_of_def by (rule Max_ge) (auto intro!: image_eqI [where x = "length xs"])

lemma drawdown_step_fold:
  "foldl drawdown_step (Fin 0, Fin 0, Fin 0) (map Fin xs) = (Fin (peak_of xs), Fin (- drawdown_of xs), Fin (sum_list xs))"
proof (induction xs rule: rev_induct)
  case (snoc x xs)
  then show ?case by (simp add: Let_def peak_of_snoc drawdown_of_snoc)
qed simp

definition point_at :: "rat \<Rightarrow> rat list \<Rightarrow> nat \<Rightarrow> curve_point" where
  "point_at account xs i =
     \<lparr>cv_index = i, cv_equity = Fin (account + sum_list (take (Suc i) xs)),
      cv_drawdown = Fin (peak_of (take (Suc i) xs) - sum_list (take (Suc i) xs)),
      cv_maxDrawdown = Fin (drawdown_of (take (Suc i) xs))\<rparr>"

lemma curve_from_points:
  "curve_from (Fin account) (length pre) (Fin (sum_list pre)) (Fin (peak_of pre)) (Fin (drawdown_of pre)) (map Fin rest) =
   map (point_at account (pre @ rest)) [length pre..<length pre + length rest]"
proof (induction rest arbitrary: pre)
  case (Cons x rest)
  have m: "max 0 (peak_of (pre @ [x]) - (sum_list pre + x)) = peak_of (pre @ [x]) - (sum_list pre + x)"
    using peak_ge [of "pre @ [x]"] by simp
  have p: "max (peak_of pre) (sum_list pre + x) = peak_of (pre @ [x])" by (simp add: peak_of_snoc)
  have "curve_from (Fin account) (length pre) (Fin (sum_list pre)) (Fin (peak_of pre)) (Fin (drawdown_of pre)) (map Fin (x # rest)) =
      point_at account (pre @ x # rest) (length pre) #
      curve_from (Fin account) (length (pre @ [x])) (Fin (sum_list (pre @ [x]))) (Fin (peak_of (pre @ [x])))
        (Fin (drawdown_of (pre @ [x]))) (map Fin rest)"
    by (simp add: Let_def p m point_at_def drawdown_of_snoc)
  also have "\<dots> = map (point_at account (pre @ x # rest)) (length pre # [Suc (length pre)..<Suc (length pre) + length rest])"
    by (subst Cons.IH) simp
  also have "length pre # [Suc (length pre)..<Suc (length pre) + length rest] = [length pre..<length pre + length (x # rest)]"
    using upt_conv_Cons [of "length pre" "length pre + length (x # rest)"] by simp
  finally show ?case .
qed simp

lemma curve_points: "equityCurveFromPnls (map Fin xs) (Fin account) = map (point_at account xs) [0..<length xs]"
  using curve_from_points [of account "[]" xs] by (simp add: equityCurveFromPnls_def)

lemma max_drawdown_eq: "ceriousMaxDrawdown (map Fin xs) = Fin (drawdown_of xs)"
  using drawdown_nonneg [of xs] by (simp add: ceriousMaxDrawdown_def drawdown_step_fold)

section \<open>Numbers of a cell\<close>

lemma num_char_kept: "num_char c \<Longrightarrow> c \<notin> set ''()$,%'' \<and> \<not> is_space c"
proof -
  assume n: "num_char c"
  have "list_all (\<lambda>d. \<not> num_char d) ''()$,%''" by code_simp
  then show ?thesis using n num_char_no_space unfolding list_all_iff by blast
qed

lemma csvNumber_number: "is_decimal q \<Longrightarrow> csvNumber (JStr (rat_string q)) = Some (Fin q)"
proof -
  assume q: "is_decimal q"
  have c: "list_all num_char (rat_string q)" "rat_string q \<noteq> ''''" using rat_string_chars [OF q] by auto
  have t: "js_trim (rat_string q) = rat_string q" by (rule trim_num_chars [OF c(1)])
  have f: "filter (\<lambda>c. c \<notin> set ''()$,%'' \<and> \<not> is_space c) (rat_string q) = rat_string q"
    using c(1) num_char_kept by (simp add: list_all_iff filter_id_conv)
  have "num_char (hd (rat_string q))" using c by (cases "rat_string q") auto
  then have "\<not> bracketed (rat_string q)" by (auto simp: bracketed_def dest: num_char_kept)
  moreover have "js_parse (rat_string q) = Fin q" using js_parse_string [OF q] by simp
  ultimately show ?thesis by (simp only: csvNumber_def js_nn.simps is_nullish.simps js_str.simps t f Let_def if_False is_fin.simps if_True)
qed

section \<open>Totals by product\<close>

lemma fin_pnls: "list_all (\<lambda>r. is_fin (fr_pnl r)) rs \<Longrightarrow> map fr_pnl rs = map Fin (map (fin_val \<circ> fr_pnl) rs)"
  by (induction rs) auto

lemma update_sum:
  "distinct (map fst d) \<Longrightarrow> sum_list (map (fin_val \<circ> snd) (AList.update k (Fin (v + (case map_of d k of None \<Rightarrow> 0 | Some x \<Rightarrow> fin_val x))) d)) =
    v + sum_list (map (fin_val \<circ> snd) d)"
  by (induction d) (auto split: option.splits)

lemma product_map_snoc:
  "product_map (rs @ [r]) =
    (let m = product_map rs; key = or_text (fr_instrument r) ''UNKNOWN'';
         old = (case dict_get m key of Some x \<Rightarrow> if truthy (JNum x) then x else Fin 0 | None \<Rightarrow> Fin 0)
     in dict_set key (js_add old (fr_pnl r)) m)"
  by (simp add: product_map_def Let_def)

lemma product_map_sum:
  assumes "list_all (\<lambda>r. is_fin (fr_pnl r)) rs"
  shows "distinct (map fst (product_map rs)) \<and> list_all (is_fin \<circ> snd) (product_map rs) \<and>
    sum_list (map (fin_val \<circ> snd) (product_map rs)) = sum_list (map (fin_val \<circ> fr_pnl) rs)"
  using assms
proof (induction rs rule: rev_induct)
  case (snoc r rs)
  let ?d = "product_map rs" and ?k = "or_text (fr_instrument r) ''UNKNOWN''"
  have IH: "distinct (map fst ?d)" "list_all (is_fin \<circ> snd) ?d"
    "sum_list (map (fin_val \<circ> snd) ?d) = sum_list (map (fin_val \<circ> fr_pnl) rs)"
    using snoc.IH snoc.prems unfolding list_all_append by blast+
  obtain p where p: "fr_pnl r = Fin p" using snoc.prems by (auto simp: is_fin_conv)
  have old: "(case dict_get ?d ?k of Some x \<Rightarrow> if truthy (JNum x) then x else Fin 0 | None \<Rightarrow> Fin 0) =
      Fin (case dict_get ?d ?k of None \<Rightarrow> 0 | Some x \<Rightarrow> fin_val x)"
  proof (cases "dict_get ?d ?k")
    case (Some x)
    then have "is_fin x" using IH(2) by (force simp: list_all_iff dest: map_of_SomeD)
    then show ?thesis using Some by (auto simp: is_fin_conv)
  qed simp
  have m: "product_map (rs @ [r]) = dict_set ?k (Fin (p + (case dict_get ?d ?k of None \<Rightarrow> 0 | Some x \<Rightarrow> fin_val x))) ?d"
    by (simp only: product_map_snoc Let_def old p js_add.simps add.commute)
  have "list_all (is_fin \<circ> snd) (dict_set k (Fin x) d)" if "list_all (is_fin \<circ> snd) d" for k x d
    using that by (induction d) auto
  then show ?case using IH update_sum [OF IH(1), of ?k p] by (simp add: m p distinct_update comp_def)
qed (simp add: product_map_def)

lemma totals_sum:
  assumes "list_all (\<lambda>r. is_fin (fr_pnl r)) rs"
  shows "js_sum (map pr_pnl (product_totals rs)) = js_sum (map fr_pnl rs)"
proof -
  let ?t = "js_sort by_size (js_entries (product_map rs))"
  note p = product_map_sum [OF assms]
  have "list_all (is_fin \<circ> snd) ?t" using p by (auto simp: list_all_iff)
  then have f: "map snd ?t = map Fin (map (fin_val \<circ> snd) ?t)" by (induction ?t) (auto simp: list_all_iff)
  have "mset (map (fin_val \<circ> snd) ?t) = mset (map (fin_val \<circ> snd) (product_map rs))" by simp
  then have "sum_list (map (fin_val \<circ> snd) ?t) = sum_list (map (fin_val \<circ> fr_pnl) rs)"
    using p by (metis sum_mset_sum_list)
  moreover have "map pr_pnl (product_totals rs) = map snd ?t"
    by (simp add: product_totals_def case_prod_beta comp_def)
  ultimately show ?thesis by (simp only: f fin_pnls [OF assms] js_sum_Fin)
qed

section \<open>The analysis\<close>

lemma max_list_not_NaN: "NaN \<notin> set xs \<Longrightarrow> js_max_list xs \<noteq> NaN"
  by (induction xs) (auto simp: js_max_list_def js_max_def)

lemma max_zero_nonneg: "x \<noteq> NaN \<Longrightarrow> js_le (Fin 0) (js_max (Fin 0) x)"
  by (cases x) (auto simp: js_max_def js_le_def)

lemma analysis_records:
  assumes "analyzeTradeAnalyticsCsv dp lt text filename = Inr r"
  shows "ta_records r \<noteq> [] \<and> list_all (\<lambda>x. is_fin (fr_pnl x)) (ta_records r) \<and> ta_metrics r = metrics_of (ta_records r) \<and>
    ta_productTotals r = product_totals (ta_records r) \<and>
    ta_curve r = equityCurveFromPnls (map fr_pnl (ta_records r)) TRADE_ANALYTICS_ACCOUNT_SIZE"
  using assms
  by (auto simp: analyzeTradeAnalyticsCsv_def Let_def read_records_def list_all_iff
      split: list.splits option.splits if_splits)

lemma reported_drawdown: "js_le (Fin 0) (js_max_list (Fin 0 # filter is_fin xs))"
proof -
  have "js_max_list (filter is_fin xs) \<noteq> NaN" by (rule max_list_not_NaN) auto
  then show ?thesis using max_zero_nonneg by (simp add: js_max_list_def)
qed

lemma sum_pnls: "list_all (\<lambda>r. is_fin (fr_pnl r)) rs \<Longrightarrow> js_sum (map fr_pnl rs) = Fin (sum_list (map (fin_val \<circ> fr_pnl) rs))"
  by (simp only: fin_pnls js_sum_Fin)

lemma length_curve_from [simp]: "length (curve_from a i c p d xs) = length xs"
  by (induction xs arbitrary: i c p d) (auto simp: Let_def)

lemma metrics_amounts:
  assumes "rs \<noteq> []" "list_all (\<lambda>x. is_fin (fr_pnl x)) rs"
  shows "tm_endEquity (metrics_of rs) = Some (js_add (Fin 500000) (js_sum (map fr_pnl rs)))"
    "js_le (Fin 0) (tm_drawdown (metrics_of rs))"
    "js_le (Fin 0) (tm_winRate (metrics_of rs)) \<and> js_le (tm_winRate (metrics_of rs)) (Fin 1)"
proof -
  let ?qs = "map (fin_val \<circ> fr_pnl) rs"
  note f = fin_pnls [OF assms(2)]
  have c: "equityCurveFromPnls (map fr_pnl rs) (Fin 500000) = map (point_at 500000 ?qs) [0..<length rs]"
    unfolding f curve_points by simp
  have l: "last (map (point_at 500000 ?qs) [0..<length rs]) = point_at 500000 ?qs (length rs - 1)"
    using assms(1) by (simp add: last_map)
  show "tm_endEquity (metrics_of rs) = Some (js_add (Fin 500000) (js_sum (map fr_pnl rs)))"
    using assms(1) l by (simp add: metrics_of_def Let_def TRADE_ANALYTICS_ACCOUNT_SIZE_def c point_at_def)
       (simp add: sum_pnls [OF assms(2)])
  show "js_le (Fin 0) (tm_drawdown (metrics_of rs))"
    using assms(1) l reported_drawdown
    by (simp add: metrics_of_def Let_def TRADE_ANALYTICS_ACCOUNT_SIZE_def c point_at_def drawdown_nonneg)
  have "length (filter P xs) \<le> length xs" for P and xs :: "jsnum list" by simp
  then show "js_le (Fin 0) (tm_winRate (metrics_of rs)) \<and> js_le (tm_winRate (metrics_of rs)) (Fin 1)"
    using assms(1) by (simp add: metrics_of_def Let_def length_filter_map)
qed

lemma fill_columns:
  "find_columns [''instrument'', ''pnl''] = Some
     \<lparr>tc_pnl = 1, tc_instrument = Some 0, tc_side = None, tc_qty = None, tc_price = None, tc_timestamp = None,
      tc_timestampChicago = None, tc_time = None, tc_cumulative = None, tc_drawdown = None, tc_currentDrawdown = None\<rparr>"
  by code_simp

lemma sort_untimed: "list_all (\<lambda>r. fr_timestampMs r = NaN) rs \<Longrightarrow> js_sort by_fill_time rs = rs"
proof (induction rs)
  case (Cons r rs)
  then have "js_insert by_fill_time r rs = r # rs" by (cases rs) (auto simp: by_fill_time_def)
  then show ?case using Cons by simp
qed simp

lemma analyse_exported:
  assumes "fills \<noteq> []" "list_all (\<lambda>(i, q). is_decimal q) fills"
  shows "\<exists>r. analyzeTradeAnalyticsCsv dp lt
      (exportCsv [''instrument'', ''pnl''] (map (\<lambda>(i, q). JObj [(''instrument'', JStr i), (''pnl'', JNum (Fin q))]) fills)) filename = Inr r \<and>
    map fr_pnl (ta_records r) = map (\<lambda>(i, q). Fin q) fills \<and>
    map fr_instrument (ta_records r) = map (\<lambda>(i, q). to_upper (js_trim i)) fills"
proof -
  let ?rows = "map (\<lambda>(i, q). [i, rat_string q]) fills"
  obtain row rows where rs: "?rows = row # rows" using assms(1) by (cases fills) auto
  have nb: "nonblank [i, rat_string q]" if "is_decimal q" for i q
    using rat_string_chars [OF that] by (simp add: nonblank_def trim_num_chars)
  have t1: "map (\<lambda>r. map (\<lambda>h. cell_text (js_get r h)) [''instrument'', ''pnl''])
      (map (\<lambda>(i, q). JObj [(''instrument'', JStr i), (''pnl'', JNum (Fin q))]) fills) = ?rows"
    by (auto simp: cell_text_def)
  have t2: "filter nonblank ?rows = ?rows"
    using assms(2) nb by (auto simp: list_all_iff filter_id_conv)
  have h: "nonblank [''instrument'', ''pnl'']" by code_simp
  have p: "parseCeriousCsv (exportCsv [''instrument'', ''pnl''] (map (\<lambda>(i, q). JObj [(''instrument'', JStr i), (''pnl'', JNum (Fin q))]) fills)) =
      [''instrument'', ''pnl''] # ?rows"
    unfolding exported_csv_reads_back t1 using h t2 by simp
  have ht: "map js_trim [''instrument'', ''pnl''] = [''instrument'', ''pnl'']" by code_simp
  let ?c = "the (find_columns [''instrument'', ''pnl''])"
  have r: "record_of_row dp lt ?c [i, rat_string q] = \<lparr>fr_pnl = Fin q, fr_cumulativePnl = None, fr_accountMaxDrawdown = None,
      fr_accountDrawdown = None, fr_instrument = to_upper (js_trim i), fr_side = '''', fr_qty = None, fr_price = None,
      fr_timestamp = '''', fr_displayTimestamp = '''', fr_timestampMs = NaN\<rparr>" if "is_decimal q" for i q
    using csvNumber_number [OF that]
    by (simp add: record_of_row_def fill_columns text_at_def num_at_def row_at_def or_text_def parseTradeTimestamp_def js_trim_def
        trim_start_def Let_def)
  define recs where "recs = map (record_of_row dp lt ?c) ?rows"
  have u: "list_all (\<lambda>r. fr_timestampMs r = NaN \<and> is_fin (fr_pnl r)) recs"
    using assms(2) r by (auto simp: recs_def list_all_iff)
  have "read_records dp lt ?c ?rows = recs"
    using u sort_untimed [of recs] unfolding read_records_def recs_def [symmetric]
    by (simp add: list_all_iff filter_id_conv)
  moreover have "map fr_pnl recs = map (\<lambda>(i, q). Fin q) fills" "map fr_instrument recs = map (\<lambda>(i, q). to_upper (js_trim i)) fills"
    using assms(2) r by (auto simp: recs_def list_all_iff)
  moreover have "recs \<noteq> []" using assms(1) by (simp add: recs_def)
  ultimately show ?thesis
    unfolding analyzeTradeAnalyticsCsv_def p rs list.case ht
    by (simp add: fill_columns Let_def flip: rs)
qed

section \<open>Properties\<close>

text \<open>
  C13. The drawdown is the drawdown: the curve lists, fill by fill, the account with the profit so far, its
  distance to the highest equity so far and the largest fall so far, and both routines that compute a
  maximum drawdown return the largest fall from an earlier to a later equity.
\<close>

theorem equity_curve_drawdown:
  "equityCurveFromPnls (map Fin xs) (Fin account) = map (point_at account xs) [0..<length xs] \<and>
   ceriousMaxDrawdown (map Fin xs) = Fin (drawdown_of xs) \<and>
   cv_maxDrawdown (last (equityCurveFromPnls (map Fin (xs @ [x])) (Fin account))) = ceriousMaxDrawdown (map Fin (xs @ [x]))"
  unfolding curve_points max_drawdown_eq by (simp add: last_map point_at_def)

text \<open>
  C14. The figures of an analysis fit together: it covers at least one fill and only fills with a finite
  result; the total is the sum of the fills and of the product totals, the curve has a point per fill
  and ends at the account plus the total, the drawdown is not negative, and the win rate is between 0
  and 1.
\<close>

theorem trade_analysis_consistent:
  assumes "analyzeTradeAnalyticsCsv dp lt text filename = Inr r"
  shows "let m = ta_metrics r; rs = ta_records r in
    rs \<noteq> [] \<and> list_all (\<lambda>x. is_fin (fr_pnl x)) rs \<and> tm_rows m = length rs \<and> length (ta_curve r) = length rs \<and>
    tm_total m = js_sum (map fr_pnl rs) \<and> js_sum (map pr_pnl (ta_productTotals r)) = tm_total m \<and>
    tm_endEquity m = Some (js_add (Fin 500000) (tm_total m)) \<and> js_le (Fin 0) (tm_drawdown m) \<and>
    js_le (Fin 0) (tm_winRate m) \<and> js_le (tm_winRate m) (Fin 1)"
proof -
  note a = analysis_records [OF assms]
  let ?rs = "ta_records r"
  have f: "?rs \<noteq> []" "list_all (\<lambda>x. is_fin (fr_pnl x)) ?rs" using a by auto
  have "length (ta_curve r) = length ?rs" using a by (simp add: equityCurveFromPnls_def)
  then show ?thesis
    using a metrics_amounts [OF f] totals_sum [OF f(2)]
    by (simp add: Let_def) (simp add: metrics_of_def Let_def)
qed

theorem trade_analysis_consistent_witness:
  "\<exists>r. analyzeTradeAnalyticsCsv (\<lambda>_. NaN) (\<lambda>_. NaN)
      (exportCsv [''instrument'', ''pnl''] [JObj [(''instrument'', JStr ''es''), (''pnl'', JNum (Fin 2))]]) ''f'' = Inr r \<and>
    js_sum (map pr_pnl (ta_productTotals r)) = tm_total (ta_metrics r) \<and> js_le (Fin 0) (tm_drawdown (ta_metrics r))"
proof -
  have "is_decimal 2" by code_simp
  then obtain r where r: "analyzeTradeAnalyticsCsv (\<lambda>_. NaN) (\<lambda>_. NaN)
      (exportCsv [''instrument'', ''pnl''] [JObj [(''instrument'', JStr ''es''), (''pnl'', JNum (Fin 2))]]) ''f'' = Inr r"
    using analyse_exported [of "[(''es'', 2)]" "\<lambda>_. NaN" "\<lambda>_. NaN" "''f''"] by auto
  from trade_analysis_consistent [OF r] r show ?thesis by (auto simp: Let_def)
qed

text \<open>
  Exported fills can be analysed: a table of instruments and results, exported by the terminal and
  imported again, gives one record per row, in the order of the rows, with the very result that was
  exported and the instrument trimmed and in upper case.
\<close>

theorem exported_fills_analysed:
  assumes "fills \<noteq> []" "list_all (\<lambda>(i, q). is_decimal q) fills"
  shows "\<exists>r. analyzeTradeAnalyticsCsv dp lt
      (exportCsv [''instrument'', ''pnl''] (map (\<lambda>(i, q). JObj [(''instrument'', JStr i), (''pnl'', JNum (Fin q))]) fills)) filename = Inr r \<and>
    map fr_pnl (ta_records r) = map (\<lambda>(i, q). Fin q) fills \<and>
    map fr_instrument (ta_records r) = map (\<lambda>(i, q). to_upper (js_trim i)) fills"
  using assms by (rule analyse_exported)

theorem exported_fills_analysed_witness:
  "\<exists>r. analyzeTradeAnalyticsCsv (\<lambda>_. NaN) (\<lambda>_. NaN)
      (exportCsv [''instrument'', ''pnl''] [JObj [(''instrument'', JStr '' es''), (''pnl'', JNum (Fin (- 5 / 2)))]]) ''f'' = Inr r \<and>
    map fr_pnl (ta_records r) = [Fin (- 5 / 2)] \<and> map fr_instrument (ta_records r) = [''ES'']"
proof -
  have "is_decimal (- 5 / 2)" "to_upper (js_trim '' es'') = ''ES''" by code_simp+
  then show ?thesis
    using exported_fills_analysed [of "[('' es'', - 5 / 2)]" "\<lambda>_. NaN" "\<lambda>_. NaN" "''f''"] by simp
qed

text \<open>
  Without a drawdown column the report still names a drawdown point: a missing value is \<open>null\<close>,
  \<open>Number(null)\<close> is 0, so the first fill is taken for the worst and the line ``No drawdown point
  available'' is never shown for an import.
\<close>

theorem worst_point_without_drawdown:
  assumes "list_all (\<lambda>r. fr_accountDrawdown r = None) (r # rs)"
  shows "worst_point (r # rs) = Some r"
proof -
  have "foldl (\<lambda>worst r. let value = null_num (fr_accountDrawdown r) in
       if \<not> is_fin value then worst
       else case worst of
         None \<Rightarrow> Some r
       | Some w \<Rightarrow> if js_lt (null_num (fr_accountDrawdown w)) value then Some r else worst) (Some r) rs = Some r"
    using assms by (induction rs) (auto simp: null_num_def Let_def)
  then show ?thesis using assms by (simp add: worst_point_def null_num_def)
qed

definition plain_fill :: "string \<Rightarrow> fill_record" where
  "plain_fill t = \<lparr>fr_pnl = Fin 1, fr_cumulativePnl = None, fr_accountMaxDrawdown = None, fr_accountDrawdown = None,
     fr_instrument = ''ES'', fr_side = '''', fr_qty = None, fr_price = None, fr_timestamp = t, fr_displayTimestamp = t,
     fr_timestampMs = NaN\<rparr>"

theorem worst_point_without_drawdown_witness:
  "tm_worstDrawdownPoint (metrics_of [plain_fill ''09:30'', plain_fill ''09:31'']) = Some (plain_fill ''09:30'')"
  using worst_point_without_drawdown [of "plain_fill ''09:30''" "[plain_fill ''09:31'']"]
  by (simp add: metrics_of_def Let_def) (simp add: plain_fill_def)

end
