(* ===== verification/Studies.thy ===== *)
theory Studies
  imports Algos JsMath Format
begin

text \<open>
  Charts in \<open>components/WorkspaceDesktop.tsx\<close>: the studies of a chart and its settings, the candles of
  a timeframe built from one-minute bars, the forming candle, the regression channel, the
  average-true-range bands and the volume-at-price buckets.  A regression is computed on samples that
  the code has checked to be finite, so it is written on rationals.
\<close>

section \<open>Studies and settings\<close>

datatype study_type = Regression_Channel | Atr | Volume_At_Price
datatype chart_mode = Candles | Line_Mode
datatype chart_timeframe = CT_1m | CT_5m | CT_30m | CT_1h | CT_1d
datatype display_preset = Clean | Grid | Calendar | Outline

record chart_study =
  sy_id :: string
  sy_type :: study_type
  sy_lookback :: "jsnum option"
  sy_upperDeviation :: "jsnum option"
  sy_lowerDeviation :: "jsnum option"
  sy_atrMultiplier :: "jsnum option"
  sy_bins :: "jsnum option"

record chart_settings =
  ch_mode :: chart_mode
  ch_timeframe :: chart_timeframe
  ch_displayPreset :: display_preset
  ch_compressBlankSessions :: bool
  ch_showGrid :: bool
  ch_solidCandles :: bool
  ch_studies :: "chart_study list"
  ch_studyType :: study_type
  ch_studyLookback :: "jsnum option"
  ch_upperDeviation :: jsnum
  ch_lowerDeviation :: jsnum
  ch_atrMultiplier :: jsnum
  ch_volumePriceBins :: jsnum

definition defaultCeriousChartStudies :: "chart_study list" where
  "defaultCeriousChartStudies = []"

definition initialCeriousChartStudies :: "chart_settings option \<Rightarrow> chart_study list" where
  "initialCeriousChartStudies settings =
     (let configured = (case settings of None \<Rightarrow> [] | Some s \<Rightarrow> ch_studies s)
      in if configured \<noteq> [] then configured else defaultCeriousChartStudies)"

text \<open>\<open>normalizedLookback(value, minimum, maximum)\<close>; the bounds 2 and 2000 are the default.\<close>

definition lookback_within :: "jsval \<Rightarrow> jsnum \<Rightarrow> jsnum \<Rightarrow> jsnum option" where
  "lookback_within value minimum maximum =
     (let parsed = js_num value in
      if \<not> is_fin parsed then None
      else let lookback = js_floor parsed in
           if js_lt lookback minimum then None else Some (js_min maximum lookback))"

lemma lookback_default: "normalizedLookback value = lookback_within value (Fin 2) (Fin 2000)"
  by (simp add: normalizedLookback_def lookback_within_def)

definition opt_num :: "jsnum option \<Rightarrow> jsval" where
  "opt_num v = (case v of None \<Rightarrow> JUndef | Some x \<Rightarrow> JNum x)"

definition or_X :: "jsnum option \<Rightarrow> string" where
  "or_X v = (case v of None \<Rightarrow> ''X'' | Some x \<Rightarrow> jsnum_string x)"

definition ceriousChartStudyLabel :: "chart_study \<Rightarrow> string" where
  "ceriousChartStudyLabel study =
     (case sy_type study of
        Atr \<Rightarrow> ''ATR '' @ or_X (sy_lookback study) @ '' x'' @ to_fixed 2 (opt_or (sy_atrMultiplier study) (Fin 2))
      | Volume_At_Price \<Rightarrow> ''Volume at Price '' @ jsnum_string (opt_or (sy_bins study) (Fin 28))
      | Regression_Channel \<Rightarrow> ''Linear Regression lookback '' @ or_X (sy_lookback study) @ '' +'' @
          to_fixed 2 (opt_or (sy_upperDeviation study) (Fin 2)) @ ''/-'' @ to_fixed 2 (opt_or (sy_lowerDeviation study) (Fin 2)))"

text \<open>The state of a chart window.  The lookback is the text of an input field.\<close>

record chart_window =
  cw_mode :: chart_mode
  cw_timeframe :: chart_timeframe
  cw_compressBlankSessions :: bool
  cw_showGrid :: bool
  cw_solidCandles :: bool
  cw_displayPreset :: display_preset
  cw_studyType :: study_type
  cw_studyLookback :: string
  cw_upperDeviation :: jsnum
  cw_lowerDeviation :: jsnum
  cw_atrMultiplier :: jsnum
  cw_volumePriceBins :: jsnum
  cw_studies :: "chart_study list"

definition open_chart :: "chart_settings option \<Rightarrow> chart_window" where
  "open_chart settings =
     (case settings of
        None \<Rightarrow> \<lparr>cw_mode = Candles, cw_timeframe = CT_30m, cw_compressBlankSessions = True, cw_showGrid = False,
          cw_solidCandles = True, cw_displayPreset = Clean, cw_studyType = Regression_Channel, cw_studyLookback = '''',
          cw_upperDeviation = Fin 2, cw_lowerDeviation = Fin 2, cw_atrMultiplier = Fin 2, cw_volumePriceBins = Fin 28,
          cw_studies = initialCeriousChartStudies None\<rparr>
      | Some s \<Rightarrow> \<lparr>cw_mode = ch_mode s, cw_timeframe = ch_timeframe s,
          cw_compressBlankSessions = ch_compressBlankSessions s, cw_showGrid = ch_showGrid s,
          cw_solidCandles = ch_solidCandles s, cw_displayPreset = ch_displayPreset s, cw_studyType = ch_studyType s,
          cw_studyLookback = (case ch_studyLookback s of None \<Rightarrow> ''''
            | Some l \<Rightarrow> if truthy (JNum l) then jsnum_string l else ''''),
          cw_upperDeviation = ch_upperDeviation s, cw_lowerDeviation = ch_lowerDeviation s,
          cw_atrMultiplier = ch_atrMultiplier s, cw_volumePriceBins = ch_volumePriceBins s,
          cw_studies = initialCeriousChartStudies settings\<rparr>)"

definition chart_lookback :: "chart_window \<Rightarrow> jsnum option" where
  "chart_lookback w = lookback_within (JStr (cw_studyLookback w)) (Fin 2) (Fin 500)"

definition published_settings :: "chart_window \<Rightarrow> chart_settings" where
  "published_settings w =
     \<lparr>ch_mode = cw_mode w, ch_timeframe = cw_timeframe w, ch_displayPreset = cw_displayPreset w,
      ch_compressBlankSessions = cw_compressBlankSessions w, ch_showGrid = cw_showGrid w,
      ch_solidCandles = cw_solidCandles w, ch_studies = cw_studies w, ch_studyType = cw_studyType w,
      ch_studyLookback = chart_lookback w, ch_upperDeviation = cw_upperDeviation w,
      ch_lowerDeviation = cw_lowerDeviation w, ch_atrMultiplier = cw_atrMultiplier w,
      ch_volumePriceBins = cw_volumePriceBins w\<rparr>"

text \<open>\<open>x || d\<close> on numbers, and \<open>Number(Math.max(0, Math.min(hi, x || 0)).toFixed(2))\<close>\<close>

definition or_num :: "jsnum \<Rightarrow> jsnum \<Rightarrow> jsnum" where
  "or_num x d = (if truthy (JNum x) then x else d)"

definition two_decimals :: "jsnum \<Rightarrow> jsnum \<Rightarrow> jsnum" where
  "two_decimals hi x = js_parse (to_fixed 2 (js_max (Fin 0) (js_min hi (or_num x (Fin 0)))))"

definition study_bins :: "jsnum \<Rightarrow> jsnum" where
  "study_bins x = js_max (Fin 8) (js_min (Fin 80) (js_floor (or_num x (Fin 28))))"

definition addStudy :: "string \<Rightarrow> chart_window \<Rightarrow> chart_window" where
  "addStudy study_id w =
     (let lookback = chart_lookback w in
      if cw_studyType w \<noteq> Volume_At_Price \<and> lookback = None then w
      else let study = \<lparr>sy_id = study_id, sy_type = cw_studyType w, sy_lookback = lookback,
             sy_upperDeviation = (if cw_studyType w = Regression_Channel then Some (two_decimals (Fin 10) (cw_upperDeviation w)) else None),
             sy_lowerDeviation = (if cw_studyType w = Regression_Channel then Some (two_decimals (Fin 10) (cw_lowerDeviation w)) else None),
             sy_atrMultiplier = (if cw_studyType w = Atr then Some (two_decimals (Fin 20) (cw_atrMultiplier w)) else None),
             sy_bins = (if cw_studyType w = Volume_At_Price then Some (study_bins (cw_volumePriceBins w)) else None)\<rparr>
           in w\<lparr>cw_studies := cw_studies w @ [study]\<rparr>)"

definition clearOptionalStudies :: "chart_window \<Rightarrow> chart_window" where
  "clearOptionalStudies w = w\<lparr>cw_studies := defaultCeriousChartStudies\<rparr>"

definition applyDisplayPreset :: "display_preset \<Rightarrow> chart_window \<Rightarrow> chart_window" where
  "applyDisplayPreset preset w =
     w\<lparr>cw_displayPreset := preset, cw_compressBlankSessions := (preset \<noteq> Calendar), cw_showGrid := (preset = Grid),
       cw_solidCandles := (preset \<noteq> Outline)\<rparr>"

section \<open>Candles\<close>

definition ceriousChartBucketMs :: "chart_timeframe \<Rightarrow> rat" where
  "ceriousChartBucketMs tf =
     (case tf of CT_1m \<Rightarrow> 60000 | CT_5m \<Rightarrow> 5 * 60000 | CT_30m \<Rightarrow> 30 * 60000 | CT_1h \<Rightarrow> 60 * 60000 | CT_1d \<Rightarrow> 24 * 60 * 60000)"

text \<open>For days, the start of the UTC day of a date; a date holds at most \<open>8.64e15\<close> milliseconds.\<close>

definition ceriousChartBucketStart :: "jsnum \<Rightarrow> chart_timeframe \<Rightarrow> jsnum" where
  "ceriousChartBucketStart ts tf =
     (let ms = Fin (ceriousChartBucketMs tf) in
      if tf \<noteq> CT_1d then js_mul (js_floor (js_div ts ms)) ms
      else if js_le (js_abs ts) (Fin 8640000000000000) then js_mul (js_floor (js_div (js_trunc ts) ms)) ms
      else NaN)"

definition finite_bar :: "bar \<Rightarrow> bool" where
  "finite_bar r = list_all is_fin [bopen r, high r, low r, close r, timestamp r]"

definition fold_into :: "bar \<Rightarrow> bar \<Rightarrow> bar" where
  "fold_into row existing =
     existing\<lparr>high := js_max (high existing) (high row), low := js_min (low existing) (low row), close := close row,
       volume := js_add (volume existing) (volume row)\<rparr>"

definition bucket_row :: "chart_timeframe \<Rightarrow> bar list \<Rightarrow> bar \<Rightarrow> bar list" where
  "bucket_row tf bucketed row =
     (if \<not> finite_bar row then bucketed
      else let ts = ceriousChartBucketStart (timestamp row) tf in
        if list_ex (\<lambda>b. timestamp b = ts) bucketed
        then map (\<lambda>b. if timestamp b = ts then fold_into row b else b) bucketed
        else bucketed @ [row\<lparr>timestamp := ts\<rparr>])"

definition by_bar_time :: "bar \<Rightarrow> bar \<Rightarrow> jsnum" where
  "by_bar_time a b = js_sub (timestamp a) (timestamp b)"

definition ceriousChartSeriesBars :: "bar list \<Rightarrow> chart_timeframe \<Rightarrow> bar list" where
  "ceriousChartSeriesBars rows tf = js_sort by_bar_time (foldl (bucket_row tf) [] rows)"

definition ceriousCompletedStudyRows :: "rat \<Rightarrow> bar list \<Rightarrow> chart_timeframe \<Rightarrow> bar list" where
  "ceriousCompletedStudyRows now rows tf =
     filter (\<lambda>r. is_fin (timestamp r) \<and> js_le (js_add (timestamp r) (Fin (ceriousChartBucketMs tf))) (Fin now)) rows"

text \<open>The live price, its time and its size: the latest tick, unless the book is newer and has a price.\<close>

definition live_quote :: "rat \<Rightarrow> poly_book option \<Rightarrow> poly_tick list \<Rightarrow> (jsnum \<times> jsnum \<times> jsnum) option" where
  "live_quote now book ticks =
     (let latestTick = (if ticks = [] then None else Some (last ticks));
          tickPrice = finite_opt (case latestTick of None \<Rightarrow> JUndef | Some t \<Rightarrow> JNum (pt_price t));
          bookPrice = (case book of None \<Rightarrow> None
            | Some b \<Rightarrow> (case finite_opt (pb_ltp b) of Some p \<Rightarrow> Some p | None \<Rightarrow> finite_opt (JNum (pb_up_pct b))));
          tickTimestamp = opt_or (finite_opt (case latestTick of None \<Rightarrow> JUndef | Some t \<Rightarrow> JNum (pt_timestamp t))) (Fin 0);
          bookTimestamp = (case book of None \<Rightarrow> Fin 0
            | Some b \<Rightarrow> (case finite_opt (JNum (pb_timestamp_ms b)) of Some x \<Rightarrow> x
                | None \<Rightarrow> opt_or (finite_opt (opt_num (pb_seen_ms b))) (Fin 0)));
          fromTick = (tickPrice \<noteq> None \<and> js_le bookTimestamp tickTimestamp);
          livePrice = (if fromTick then tickPrice else (case bookPrice of Some p \<Rightarrow> Some p | None \<Rightarrow> tickPrice));
          tickSize = map_option pt_size latestTick;
          liveSize = (if fromTick then js_max (Fin 0) (opt_or tickSize (Fin 0))
            else js_max (Fin 0) (case (case book of None \<Rightarrow> None | Some b \<Rightarrow> pb_ltp_size b) of
                Some x \<Rightarrow> x | None \<Rightarrow> opt_or tickSize (Fin 0)))
      in map_option (\<lambda>price. (price, or_num (js_max tickTimestamp bookTimestamp) (Fin now), liveSize)) livePrice)"

definition ceriousChartWithLiveLast :: "rat \<Rightarrow> bar list \<Rightarrow> chart_timeframe \<Rightarrow> poly_book option \<Rightarrow> poly_tick list \<Rightarrow> bar list" where
  "ceriousChartWithLiveLast now rows tf book ticks =
     (let prepared = ceriousChartSeriesBars rows tf in
      case live_quote now book ticks of
        None \<Rightarrow> prepared
      | Some (price, liveTimestamp, liveSize) \<Rightarrow>
          (let bucket = ceriousChartBucketStart liveTimestamp tf
           in if prepared \<noteq> [] \<and> timestamp (last prepared) = bucket
              then let latest = last prepared in
                butlast prepared @ [latest\<lparr>high := js_max (high latest) price, low := js_min (low latest) price,
                  close := price, volume := js_add (volume latest) liveSize\<rparr>]
              else let start = (if prepared = [] then price else close (last prepared)) in
                prepared @ [\<lparr>timestamp = bucket, bopen = start, high = js_max start price, low = js_min start price,
                  close = price, volume = liveSize\<rparr>]))"

section \<open>Regression\<close>

definition ceriousAverage :: "jsnum list \<Rightarrow> jsnum" where
  "ceriousAverage values = (if values \<noteq> [] then js_div (js_sum values) (Fin (of_nat (length values))) else Fin 0)"

definition rat_mean :: "rat list \<Rightarrow> rat" where
  "rat_mean xs = sum_list xs / of_nat (length xs)"

text \<open>Slope and intercept of the sample, its points at 0, 1, 2, ...\<close>

definition indexed :: "'a list \<Rightarrow> (rat \<times> 'a) list" where
  "indexed xs = map (\<lambda>(i, x). (of_nat i, x)) (List.enumerate 0 xs)"

definition regression_line :: "rat list \<Rightarrow> rat \<times> rat" where
  "regression_line sample =
     (let xMean = (of_nat (length sample) - 1) / 2; yMean = rat_mean sample;
          numerator = sum_list (map (\<lambda>(i, v). (i - xMean) * (v - yMean)) (indexed sample));
          denominator = sum_list (map (\<lambda>(i, v). (i - xMean) ^ 2) (indexed sample));
          slope = (if denominator \<noteq> 0 then numerator / denominator else 0)
      in (slope, yMean - slope * xMean))"

definition regression_sigma :: "rat list \<Rightarrow> rat" where
  "regression_sigma sample =
     (let (slope, intercept) = regression_line sample
      in rat_sqrt (rat_mean (map (\<lambda>(i, v). (v - (intercept + slope * i)) ^ 2) (indexed sample))))"

record channel_point =
  cp_index :: nat
  cp_time :: jsnum
  cp_mean :: jsnum
  cp_upper :: jsnum
  cp_lower :: jsnum
  cp_sigma :: jsnum
  cp_slope :: jsnum

definition nat_of :: "jsnum \<Rightarrow> nat" where
  "nat_of x = nat \<lfloor>fin_val x\<rfloor>"

definition ceriousRegressionChannel :: "bar list \<Rightarrow> chart_study \<Rightarrow> channel_point list option" where
  "ceriousRegressionChannel bars study =
     (if sy_type study \<noteq> Regression_Channel then None
      else case normalizedLookback (opt_num (sy_lookback study)) of
        None \<Rightarrow> None
      | Some l \<Rightarrow>
          (let lookback = nat_of l; startIndex = length bars - lookback; window = drop startIndex bars;
               sample = map (fin_val \<circ> close) window; (slope, intercept) = regression_line sample;
               sigma = regression_sigma sample
           in if length bars < lookback \<or> \<not> list_all (is_fin \<circ> close) window then None
              else Some (map (\<lambda>(i, b). let mean = Fin (intercept + slope * of_nat i) in
                \<lparr>cp_index = startIndex + i, cp_time = timestamp b, cp_mean = mean,
                 cp_upper = js_add mean (js_mul (js_max (Fin 0) (opt_or (sy_upperDeviation study) (Fin 2))) (Fin sigma)),
                 cp_lower = js_sub mean (js_mul (js_max (Fin 0) (opt_or (sy_lowerDeviation study) (Fin 2))) (Fin sigma)),
                 cp_sigma = Fin sigma, cp_slope = Fin slope\<rparr>) (List.enumerate 0 window))))"

text \<open>What the study service publishes; its numbers are untyped.\<close>

record regression_snapshot =
  rg_ok :: bool
  rg_interval :: string
  rg_lookback :: jsval
  rg_standardDeviations :: jsval
  rg_updatedAt :: jsval
  rg_mean :: jsval
  rg_upper :: jsval
  rg_lower :: jsval
  rg_sigma :: jsval
  rg_slope :: jsval
  rg_label :: string

text \<open>\<open>Number(v) || d\<close>\<close>

definition num_or_d :: "jsval \<Rightarrow> jsnum \<Rightarrow> jsnum" where
  "num_or_d v d = or_num (js_num v) d"

definition regressionStudyKey :: "jsval \<Rightarrow> string \<Rightarrow> jsnum \<Rightarrow> jsnum \<Rightarrow> string js_result" where
  "regressionStudyKey symbol interval lookback standardDeviations =
     (case normalizedLookback (JNum lookback) of
        None \<Rightarrow> Inl (ErrorMsg ''regression lookback is not defined'')
      | Some normalized \<Rightarrow> Inr (normalizeProductKey symbol @ ''|'' @
          to_lower (if interval \<noteq> '''' then interval else ''30m'') @ ''|'' @ jsnum_string normalized @ ''|'' @
          to_fixed 4 (or_num standardDeviations (Fin 2))))"

record study_request =
  sq_key :: string
  sq_symbol :: string
  sq_interval :: string
  sq_lookback :: jsnum
  sq_standardDeviations :: jsnum

fun timeframe_text :: "chart_timeframe \<Rightarrow> string" where
  "timeframe_text CT_1m = ''1m''"
| "timeframe_text CT_5m = ''5m''"
| "timeframe_text CT_30m = ''30m''"
| "timeframe_text CT_1h = ''1h''"
| "timeframe_text CT_1d = ''1d''"

definition chartRegressionStudyRequest :: "string \<Rightarrow> chart_timeframe \<Rightarrow> chart_study \<Rightarrow> study_request option js_result" where
  "chartRegressionStudyRequest symbol tf study =
     (if sy_type study \<noteq> Regression_Channel then Inr None
      else case normalizedLookback (opt_num (sy_lookback study)) of
        None \<Rightarrow> Inr None
      | Some lookback \<Rightarrow>
          (let upper = opt_or (sy_upperDeviation study) (Fin 2); lower = opt_or (sy_lowerDeviation study) (Fin 2);
               sd = js_max_list [Fin 0, if is_fin upper then upper else Fin 2, if is_fin lower then lower else Fin 2];
               interval = to_lower (timeframe_text tf)
           in case regressionStudyKey (JStr symbol) interval lookback sd of
                Inl e \<Rightarrow> Inl e
              | Inr key \<Rightarrow> Inr (Some \<lparr>sq_key = key, sq_symbol = symbol, sq_interval = interval, sq_lookback = lookback,
                  sq_standardDeviations = sd\<rparr>)))"

definition ceriousChartTime :: "bar \<Rightarrow> jsnum" where
  "ceriousChartTime row = js_floor (js_div (timestamp row) (Fin 1000))"

record server_channel =
  sv_mean :: "(jsnum \<times> jsnum) list"
  sv_upper :: "(jsnum \<times> jsnum) list"
  sv_lower :: "(jsnum \<times> jsnum) list"
  sv_label :: string

definition serverRegressionChannel :: "bar list \<Rightarrow> chart_study \<Rightarrow> regression_snapshot option \<Rightarrow> server_channel option" where
  "serverRegressionChannel rows study snapshot =
     (case snapshot of
        None \<Rightarrow> None
      | Some s \<Rightarrow>
          if sy_type study \<noteq> Regression_Channel \<or> \<not> rg_ok s \<or> rows = [] then None
          else case (finite_opt (rg_mean s), finite_opt (rg_sigma s),
              normalizedLookback (js_nn [rg_lookback s, opt_num (sy_lookback study)])) of
            (Some latestMean, Some sigma, Some lookback) \<Rightarrow>
              (let slope = opt_or (finite_opt (rg_slope s)) (Fin 0);
                   eligibleRows = (case finite_opt (rg_updatedAt s) of
                     Some u \<Rightarrow> if js_lt (Fin 0) u then filter (\<lambda>r. js_le (timestamp r) u) rows else rows
                   | None \<Rightarrow> rows);
                   studyRows = slice_last (nat_of lookback) eligibleRows;
                   upperDeviation = js_max (Fin 0) (num_or_d (js_nn [opt_num (sy_upperDeviation study), rg_standardDeviations s, JNum (Fin 2)]) (Fin 0));
                   lowerDeviation = js_max (Fin 0) (num_or_d (js_nn [opt_num (sy_lowerDeviation study), rg_standardDeviations s, JNum (Fin 2)]) (Fin 0));
                   lastIndex = length studyRows - 1;
                   points = map (\<lambda>(i, r). (ceriousChartTime r, js_sub latestMean (js_mul slope (Fin (of_nat (lastIndex - i))))))
                     (List.enumerate 0 studyRows)
               in if length studyRows < 2 then None
                  else Some \<lparr>sv_mean = points,
                    sv_upper = map (\<lambda>(t, m). (t, js_add m (js_mul upperDeviation sigma))) points,
                    sv_lower = map (\<lambda>(t, m). (t, js_sub m (js_mul lowerDeviation sigma))) points,
                    sv_label = (if rg_label s \<noteq> '''' then rg_label s
                      else js_trim (''Linear Regression lookback '' @ jsnum_string lookback @ '' '' @ rg_interval s))\<rparr>)
          | _ \<Rightarrow> None)"

section \<open>Average true range\<close>

fun true_ranges :: "bar list \<Rightarrow> jsnum list" where
  "true_ranges (prior # row # rows) =
     js_max_list [js_sub (high row) (low row), js_abs (js_sub (high row) (close prior)), js_abs (js_sub (low row) (close prior))]
     # true_ranges (row # rows)"
| "true_ranges _ = []"

record band =
  bd_time :: jsnum
  bd_upper :: jsnum
  bd_lower :: jsnum

definition ceriousAtrBands :: "bar list \<Rightarrow> chart_study \<Rightarrow> band list" where
  "ceriousAtrBands rows study =
     (case lookback_within (opt_num (sy_lookback study)) (Fin 2) (Fin 500) of
        None \<Rightarrow> []
      | Some l \<Rightarrow>
          (let lookback = nat_of l; multiplier = js_max (Fin 0) (opt_or (sy_atrMultiplier study) (Fin 2)); trs = true_ranges rows
           in if length rows < lookback + 1 then []
              else map (\<lambda>(index, row). let atr = ceriousAverage (take lookback (drop (index - lookback) trs)) in
                \<lparr>bd_time = ceriousChartTime row, bd_upper = js_add (close row) (js_mul atr multiplier),
                 bd_lower = js_sub (close row) (js_mul atr multiplier)\<rparr>)
                (filter (\<lambda>(index, _). lookback \<le> index) (List.enumerate 0 rows))))"

section \<open>Volume at price\<close>

record vap_bucket =
  vb_low :: jsnum
  vb_high :: jsnum
  vb_volume :: jsnum

record vap_row =
  vr_bucket :: vap_bucket
  vr_pct :: jsnum
  vr_y :: jsnum
  vr_h :: jsnum

definition add_volume :: "jsnum \<Rightarrow> jsnum \<Rightarrow> vap_bucket list \<Rightarrow> vap_bucket list js_result" where
  "add_volume index v buckets =
     (if is_fin index \<and> nat_of index < length buckets
      then Inr (buckets[nat_of index := (buckets ! nat_of index)\<lparr>vb_volume := js_add (vb_volume (buckets ! nat_of index)) v\<rparr>])
      else Inl TypeError)"

fun fill_buckets :: "jsnum \<Rightarrow> jsnum \<Rightarrow> jsnum \<Rightarrow> vap_bucket list \<Rightarrow> bar list \<Rightarrow> vap_bucket list js_result" where
  "fill_buckets mn step bins buckets [] = Inr buckets"
| "fill_buckets mn step bins buckets (row # rows) =
     (let typical = js_div (js_add (js_add (high row) (low row)) (close row)) (Fin 3);
          index = js_clamp (js_floor (js_div (js_sub typical mn) step)) (Fin 0) (js_sub bins (Fin 1))
      in case add_volume index (js_max (Fin 0) (volume row)) buckets of
           Inl e \<Rightarrow> Inl e
         | Inr buckets' \<Rightarrow> fill_buckets mn step bins buckets' rows)"

definition ceriousVolumeAtPriceBuckets :: "bar list \<Rightarrow> chart_study list \<Rightarrow> vap_row list js_result" where
  "ceriousVolumeAtPriceBuckets rows studies =
     (case List.find (\<lambda>s. sy_type s = Volume_At_Price) studies of
        None \<Rightarrow> Inr []
      | Some study \<Rightarrow>
          (let prices = filter is_fin (concat (map (\<lambda>r. [low r, high r, close r]) rows));
               mn = js_min_list prices; mx = js_max_list prices;
               bins = js_max (Fin 8) (js_min (Fin 80) (js_floor (opt_or (sy_bins study) (Fin 28))));
               span = js_sub mx mn; step = js_div span bins;
               buckets = map (\<lambda>i. \<lparr>vb_low = js_add mn (js_mul (Fin (of_nat i)) step),
                 vb_high = js_add mn (js_mul (Fin (of_nat (Suc i))) step), vb_volume = Fin 0\<rparr>)
                 [0..<(if is_fin bins then nat_of bins else 0)]
           in if length rows < 2 \<or> \<not> is_fin mn \<or> \<not> is_fin mx \<or> js_le mx mn then Inr []
              else case fill_buckets mn step bins buckets rows of
                Inl e \<Rightarrow> Inl e
              | Inr filled \<Rightarrow>
                  (let maxVolume = js_max_list (Fin 1 # map vb_volume filled) in
                   Inr (map (\<lambda>b. \<lparr>vr_bucket = b, vr_pct = js_div (vb_volume b) maxVolume,
                       vr_y = js_mul (js_div (js_sub mx (js_div (js_add (vb_low b) (vb_high b)) (Fin 2))) span) (Fin 100),
                       vr_h = js_max (Fin (12 / 10)) (js_mul (js_div step span) (Fin 100))\<rparr>)
                     (filter (\<lambda>b. js_lt (Fin 0) (vb_volume b)) filled)))))"

section \<open>Lemmas: least squares\<close>

lemma indexed_sum: "sum_list (map (\<lambda>(i, v). f i v) (indexed xs)) = (\<Sum>i < length xs. f (of_nat i) (xs ! i))"
proof -
  have "map (\<lambda>(i, v). f i v) (indexed xs) = map (\<lambda>i. f (of_nat i) (xs ! i)) [0..<length xs]"
    by (rule nth_equalityI) (auto simp: indexed_def nth_enumerate_eq)
  then show ?thesis by (simp add: sum_list_sum_nth atLeast0LessThan)
qed

lemma sum_index: "(\<Sum>i < n. of_nat i :: rat) = of_nat n * (of_nat n - 1) / 2"
  by (induction n) (auto simp: field_simps)

lemma centred_index: "(\<Sum>i < n. of_nat i - (of_nat n - 1) / 2 :: rat) = 0"
  by (simp add: sum_subtractf sum_index)

lemma centred_values: "xs \<noteq> [] \<Longrightarrow> (\<Sum>i < length xs. xs ! i - rat_mean xs) = 0"
  by (simp add: sum_subtractf rat_mean_def sum_list_sum_nth atLeast0LessThan)

text \<open>The residuals of the line are orthogonal to constants and to the index.\<close>

lemma residuals_orthogonal:
  fixes X Y :: "nat \<Rightarrow> rat" and s :: rat
  assumes "(\<Sum>i < n. X i) = 0" "(\<Sum>i < n. Y i) = 0"
    and s: "s = (if (\<Sum>i < n. X i ^ 2) \<noteq> 0 then (\<Sum>i < n. X i * Y i) / (\<Sum>i < n. X i ^ 2) else 0)"
  shows "(\<Sum>i < n. Y i - s * X i) = 0" "(\<Sum>i < n. (Y i - s * X i) * X i) = 0"
proof -
  show "(\<Sum>i < n. Y i - s * X i) = 0" using assms(1,2) by (simp add: sum_subtractf flip: sum_distrib_left)
  have "(\<Sum>i < n. (Y i - s * X i) * X i) = (\<Sum>i < n. X i * Y i) - s * (\<Sum>i < n. X i ^ 2)"
    by (simp add: sum_subtractf left_diff_distrib sum_distrib_left power2_eq_square mult.assoc mult.commute [of "Y _"])
  also have "\<dots> = 0"
  proof (cases "(\<Sum>i < n. X i ^ 2) = 0")
    case True
    then have "\<forall>i \<in> {..<n}. X i ^ 2 = 0" by (subst (asm) sum_nonneg_eq_0_iff) auto
    then show ?thesis using True by simp
  qed (simp add: s)
  finally show "(\<Sum>i < n. (Y i - s * X i) * X i) = 0" .
qed

lemma orthogonal_least:
  fixes e X :: "nat \<Rightarrow> rat" and c d :: rat
  assumes "(\<Sum>i < n. e i) = 0" "(\<Sum>i < n. e i * X i) = 0"
  shows "(\<Sum>i < n. e i ^ 2) \<le> (\<Sum>i < n. (e i + (c + d * X i)) ^ 2)"
proof -
  have "(\<Sum>i < n. (e i + (c + d * X i)) ^ 2) =
      (\<Sum>i < n. e i ^ 2) + (\<Sum>i < n. (c + d * X i) ^ 2) + (2 * c * (\<Sum>i < n. e i) + 2 * d * (\<Sum>i < n. e i * X i))"
    by (simp add: sum_distrib_left flip: sum.distrib) (intro sum.cong refl, simp add: power2_eq_square algebra_simps)
  also have "\<dots> = (\<Sum>i < n. e i ^ 2) + (\<Sum>i < n. (c + d * X i) ^ 2)" using assms by simp
  finally show ?thesis by (simp add: sum_nonneg)
qed

definition squared_error :: "rat list \<Rightarrow> rat \<Rightarrow> rat \<Rightarrow> rat" where
  "squared_error sample slope intercept = (\<Sum>i < length sample. (sample ! i - (intercept + slope * of_nat i)) ^ 2)"

lemma line_least_squares:
  assumes "regression_line sample = (slope, intercept)"
  shows "squared_error sample slope intercept \<le> squared_error sample b a"
proof (cases "sample = []")
  case False
  let ?n = "length sample"
  define m :: rat where "m = (of_nat ?n - 1) / 2"
  define X :: "nat \<Rightarrow> rat" where "X i = of_nat i - m" for i
  define Y where "Y i = sample ! i - rat_mean sample" for i
  have s: "slope = (if (\<Sum>i < ?n. X i ^ 2) \<noteq> 0 then (\<Sum>i < ?n. X i * Y i) / (\<Sum>i < ?n. X i ^ 2) else 0)"
    and i: "intercept = rat_mean sample - slope * m"
    using assms by (auto simp: regression_line_def Let_def indexed_sum X_def Y_def m_def)
  have z: "(\<Sum>i < ?n. X i) = 0" "(\<Sum>i < ?n. Y i) = 0"
    using centred_index [of ?n] centred_values [OF False] by (simp_all add: X_def Y_def m_def)
  note o = residuals_orthogonal [OF z s]
  define c where "c = rat_mean sample - a - b * m"
  have "squared_error sample slope intercept = (\<Sum>i < ?n. (Y i - slope * X i) ^ 2)"
    unfolding squared_error_def by (intro sum.cong refl arg_cong [where f = "\<lambda>x. x ^ 2"]) (simp add: X_def Y_def i algebra_simps)
  moreover have "squared_error sample b a = (\<Sum>i < ?n. ((Y i - slope * X i) + (c + (slope - b) * X i)) ^ 2)"
    unfolding squared_error_def by (intro sum.cong refl arg_cong [where f = "\<lambda>x. x ^ 2"]) (simp add: X_def Y_def c_def algebra_simps)
  ultimately show ?thesis using orthogonal_least [OF o] by simp
qed (simp add: squared_error_def)

section \<open>Lemmas: candles\<close>

text \<open>The rows of one bucket, and the candle they make.\<close>

definition rows_of :: "chart_timeframe \<Rightarrow> jsnum \<Rightarrow> bar list \<Rightarrow> bar list" where
  "rows_of tf ts rows = filter (\<lambda>r. finite_bar r \<and> ceriousChartBucketStart (timestamp r) tf = ts) rows"

definition candle :: "jsnum \<Rightarrow> bar list \<Rightarrow> bar" where
  "candle ts rs = foldl (\<lambda>e r. fold_into r e) ((hd rs)\<lparr>timestamp := ts\<rparr>) (tl rs)"

definition bucket_starts :: "chart_timeframe \<Rightarrow> bar list \<Rightarrow> jsnum set" where
  "bucket_starts tf rows = set (map (\<lambda>r. ceriousChartBucketStart (timestamp r) tf) (filter finite_bar rows))"

lemma candle_snoc: "rs \<noteq> [] \<Longrightarrow> candle ts (rs @ [r]) = fold_into r (candle ts rs)"
  by (cases rs) (simp_all add: candle_def)

lemma candle_single: "candle ts [r] = r\<lparr>timestamp := ts\<rparr>"
  by (simp add: candle_def)

lemma timestamp_candle [simp]: "rs \<noteq> [] \<Longrightarrow> timestamp (candle ts rs) = ts"
  by (induction rs rule: rev_nonempty_induct) (simp_all add: candle_single candle_snoc fold_into_def)

lemma rows_of_empty: "rows_of tf ts rows = [] \<longleftrightarrow> ts \<notin> bucket_starts tf rows"
  by (auto simp: rows_of_def bucket_starts_def filter_empty_conv image_iff)

lemma buckets_inv:
  defines "B \<equiv> \<lambda>tf rows. foldl (bucket_row tf) [] rows"
  shows "distinct (map timestamp (B tf rows)) \<and> timestamp ` set (B tf rows) = bucket_starts tf rows \<and>
    (\<forall>b \<in> set (B tf rows). b = candle (timestamp b) (rows_of tf (timestamp b) rows))"
proof (induction rows rule: rev_induct)
  case Nil
  show ?case by (simp add: B_def bucket_starts_def)
next
  case (snoc row rows)
  let ?ts = "ceriousChartBucketStart (timestamp row) tf"
  have step: "B tf (rows @ [row]) = bucket_row tf (B tf rows) row" by (simp add: B_def)
  note IH = snoc.IH
  have ro: "rows_of tf t (rows @ [row]) = (if finite_bar row \<and> ?ts = t then rows_of tf t rows @ [row] else rows_of tf t rows)" for t
    by (simp add: rows_of_def)
  have bs: "bucket_starts tf (rows @ [row]) = (if finite_bar row then insert ?ts (bucket_starts tf rows) else bucket_starts tf rows)"
    by (auto simp: bucket_starts_def)
  consider "\<not> finite_bar row" | "finite_bar row" "?ts \<in> bucket_starts tf rows" | "finite_bar row" "?ts \<notin> bucket_starts tf rows"
    by blast
  then show ?case
  proof cases
    case 1
    then show ?thesis using IH by (simp add: step bucket_row_def ro bs)
  next
    case 2
    have ex: "list_ex (\<lambda>b. timestamp b = ?ts) (B tf rows)" using IH 2 unfolding list_ex_iff by (metis imageE)
    have new: "bucket_row tf (B tf rows) row = map (\<lambda>b. if timestamp b = ?ts then fold_into row b else b) (B tf rows)"
      using ex 2 by (simp add: bucket_row_def)
    have tm: "timestamp (if timestamp b = ?ts then fold_into row b else b) = timestamp b" for b by (simp add: fold_into_def)
    have "map timestamp (B tf (rows @ [row])) = map timestamp (B tf rows)" by (simp add: step new comp_def tm del: if_split)
    moreover from this have "timestamp ` set (B tf (rows @ [row])) = timestamp ` set (B tf rows)" by (metis list.set_map)
    moreover have "b = candle (timestamp b) (rows_of tf (timestamp b) (rows @ [row]))" if b: "b \<in> set (B tf (rows @ [row]))" for b
    proof -
      obtain a where a: "a \<in> set (B tf rows)" "b = (if timestamp a = ?ts then fold_into row a else a)"
        using b by (auto simp: step new)
      have t: "timestamp b = timestamp a" using a tm by simp
      have c: "a = candle (timestamp a) (rows_of tf (timestamp a) rows)" using IH a by blast
      show ?thesis
      proof (cases "timestamp a = ?ts")
        case True
        have "rows_of tf ?ts rows \<noteq> []" using 2 by (simp add: rows_of_empty)
        then show ?thesis using True a c 2 t by (simp add: ro candle_snoc)
      next
        case False
        then show ?thesis using a c t by (simp add: ro)
      qed
    qed
    ultimately show ?thesis using IH 2 by (simp add: bs insert_absorb)
  next
    case 3
    have no: "\<not> list_ex (\<lambda>b. timestamp b = ?ts) (B tf rows)" using IH 3 unfolding list_ex_iff by (metis imageI)
    have new: "B tf (rows @ [row]) = B tf rows @ [row\<lparr>timestamp := ?ts\<rparr>]" using no 3 by (simp add: step bucket_row_def)
    have r: "rows_of tf ?ts rows = []" using 3 by (simp add: rows_of_empty)
    have ne: "timestamp b \<noteq> ?ts" if "b \<in> set (B tf rows)" for b using that no by (auto simp: list_ex_iff)
    have "map timestamp (B tf (rows @ [row])) = map timestamp (B tf rows) @ [?ts]" by (simp add: new)
    moreover have "b = candle (timestamp b) (rows_of tf (timestamp b) (rows @ [row]))" if b: "b \<in> set (B tf (rows @ [row]))" for b
    proof (cases "b \<in> set (B tf rows)")
      case True
      have "b = candle (timestamp b) (rows_of tf (timestamp b) rows)" using IH True by blast
      then show ?thesis using ne [OF True] by (simp add: ro)
    next
      case False
      then have "b = row\<lparr>timestamp := ?ts\<rparr>" using b by (simp add: new)
      then show ?thesis using 3 r by (simp add: ro candle_single)
    qed
    moreover have "timestamp ` set (B tf (rows @ [row])) = insert ?ts (timestamp ` set (B tf rows))" by (simp add: new)
    moreover have "?ts \<notin> set (map timestamp (B tf rows))" using IH 3 by (simp only: list.set_map) simp
    ultimately show ?thesis using IH 3 by (simp only: bs distinct_append) simp
  qed
qed

lemma fin_val_inj: "fin_val x = fin_val y \<Longrightarrow> is_fin x \<Longrightarrow> is_fin y \<Longrightarrow> x = y"
  by (cases x; cases y) simp_all

lemma bucket_start_intraday: "is_fin t \<Longrightarrow> tf \<noteq> CT_1d \<Longrightarrow> is_fin (ceriousChartBucketStart t tf)"
  by (cases t; cases tf) (simp_all add: ceriousChartBucketStart_def ceriousChartBucketMs_def)

interpretation by_start: key_comparator by_bar_time "is_fin \<circ> timestamp" "fin_val \<circ> timestamp"
  by unfold_locales (auto simp: cmp_le_def by_bar_time_def is_fin_conv)

text \<open>The prices of a candle\<close>

lemma candle_prices:
  assumes "rs \<noteq> []" "\<forall>r \<in> set rs. finite_bar r"
  shows "bopen (candle ts rs) = bopen (hd rs) \<and> close (candle ts rs) = close (last rs) \<and>
    high (candle ts rs) = Fin (Max ((fin_val \<circ> high) ` set rs)) \<and> low (candle ts rs) = Fin (Min ((fin_val \<circ> low) ` set rs))"
  using assms
proof (induction rs rule: rev_nonempty_induct)
  case (snoc r rs)
  then show ?case
    by (auto simp: candle_snoc fold_into_def finite_bar_def is_fin_conv Max_insert2 max.commute min.commute)
qed (auto simp: candle_single finite_bar_def is_fin_conv)

lemma series_sorted:
  assumes "\<forall>ts \<in> bucket_starts tf rows. is_fin ts"
  shows "sorted_wrt (<) (map (fin_val \<circ> timestamp) (ceriousChartSeriesBars rows tf))"
    "timestamp ` set (ceriousChartSeriesBars rows tf) = bucket_starts tf rows"
proof -
  let ?B = "foldl (bucket_row tf) [] rows" and ?C = "ceriousChartSeriesBars rows tf"
  note inv = buckets_inv [of tf rows]
  have s: "set ?C = set ?B" by (simp add: ceriousChartSeriesBars_def)
  then show "timestamp ` set ?C = bucket_starts tf rows" using inv by simp
  have fin: "\<forall>b \<in> set ?B. (is_fin \<circ> timestamp) b" using assms inv by force
  have "distinct (map timestamp ?C)"
    using inv by (metis ceriousChartSeriesBars_def mset_eq_imp_distinct_iff mset_js_sort mset_map)
  moreover have "inj_on fin_val (timestamp ` set ?C)" using fin by (intro inj_onI) (auto simp: s dest: fin_val_inj)
  ultimately have "distinct (map (fin_val \<circ> timestamp) ?C)" by (simp add: distinct_map comp_inj_on flip: map_map)
  moreover have "sorted (map (fin_val \<circ> timestamp) ?C)"
    unfolding ceriousChartSeriesBars_def by (rule by_start.sort_sorted_key [OF fin])
  ultimately show "sorted_wrt (<) (map (fin_val \<circ> timestamp) ?C)" by (simp add: strict_sorted_iff)
qed

lemma series_candle:
  assumes "c \<in> set (ceriousChartSeriesBars rows tf)"
  shows "rows_of tf (timestamp c) rows \<noteq> []" "candle (timestamp c) (rows_of tf (timestamp c) rows) = c"
  using buckets_inv [of tf rows] assms by (auto simp: ceriousChartSeriesBars_def rows_of_empty)

text \<open>The candles of a timeframe, from any rows.\<close>

theorem timeframe_candles:
  assumes "\<forall>ts \<in> bucket_starts tf rows. is_fin ts"
  defines "candles \<equiv> ceriousChartSeriesBars rows tf"
  shows "sorted_wrt (<) (map (fin_val \<circ> timestamp) candles) \<and> timestamp ` set candles = bucket_starts tf rows \<and>
    (\<forall>c \<in> set candles. let rs = rows_of tf (timestamp c) rows in rs \<noteq> [] \<and> bopen c = bopen (hd rs) \<and>
      close c = close (last rs) \<and> high c = Fin (Max ((fin_val \<circ> high) ` set rs)) \<and> low c = Fin (Min ((fin_val \<circ> low) ` set rs)))"
proof -
  have "let rs = rows_of tf (timestamp c) rows in rs \<noteq> [] \<and> bopen c = bopen (hd rs) \<and> close c = close (last rs) \<and>
      high c = Fin (Max ((fin_val \<circ> high) ` set rs)) \<and> low c = Fin (Min ((fin_val \<circ> low) ` set rs))" if "c \<in> set candles" for c
  proof -
    note c = series_candle [OF that [unfolded candles_def]]
    have "\<forall>r \<in> set (rows_of tf (timestamp c) rows). finite_bar r" by (simp add: rows_of_def)
    from candle_prices [OF c(1) this, of "timestamp c", unfolded c(2)] c(1) show ?thesis by (simp add: Let_def)
  qed
  then show ?thesis using series_sorted [OF assms(1)] by (simp add: candles_def)
qed

definition sample_rows :: "bar list" where
  "sample_rows = [\<lparr>timestamp = Fin 1800000, bopen = Fin 10, high = Fin 12, low = Fin 9, close = Fin 11, volume = Fin 5\<rparr>,
     \<lparr>timestamp = Fin 1860000, bopen = Fin 11, high = Fin 14, low = Fin 10, close = Fin 13, volume = Fin 7\<rparr>,
     \<lparr>timestamp = Fin 60000, bopen = Fin 8, high = Fin 9, low = Fin 7, close = Fin 9, volume = Fin 3\<rparr>]"

theorem timeframe_candles_witness: "timestamp ` set (ceriousChartSeriesBars sample_rows CT_30m) = {Fin 0, Fin 1800000}"
proof -
  have f: "\<lfloor>1 / 30 :: rat\<rfloor> = 0" "\<lfloor>31 / 30 :: rat\<rfloor> = 1" by (rule floor_unique; simp)+
  have b: "bucket_starts CT_30m sample_rows = {Fin 0, Fin 1800000}"
    by (simp add: bucket_starts_def sample_rows_def finite_bar_def ceriousChartBucketStart_def ceriousChartBucketMs_def
        f insert_commute)
  then show ?thesis using timeframe_candles [of CT_30m sample_rows] by simp
qed

text \<open>The live candle keeps the candles in time order exactly when it is not older than the last one.\<close>

theorem live_candle_order:
  assumes "\<forall>ts \<in> bucket_starts tf rows. is_fin ts" "ceriousChartSeriesBars rows tf \<noteq> []"
    and live: "live_quote now book ticks = Some (price, t, sz)" "ceriousChartBucketStart t tf = Fin bucket"
  shows "sorted_wrt (<) (map (fin_val \<circ> timestamp) (ceriousChartWithLiveLast now rows tf book ticks)) \<longleftrightarrow>
    fin_val (timestamp (last (ceriousChartSeriesBars rows tf))) \<le> bucket"
proof -
  define P where "P = ceriousChartSeriesBars rows tf"
  have P: "P \<noteq> []" "sorted_wrt (<) (map (fin_val \<circ> timestamp) P)" "\<forall>b \<in> set P. is_fin (timestamp b)"
    using assms(1,2) series_sorted [OF assms(1)] by (auto simp: P_def)
  then obtain Q l where Q: "P = Q @ [l]" by (metis append_butlast_last_id)
  then have l: "is_fin (timestamp l)" using P by simp
  show ?thesis
  proof (cases "timestamp l = Fin bucket")
    case True
    then show ?thesis using P Q by (simp add: ceriousChartWithLiveLast_def live flip: P_def)
  next
    case False
    then have ne: "fin_val (timestamp l) \<noteq> bucket" using l by (auto simp: is_fin_conv)
    have "\<forall>x \<in> set P. fin_val (timestamp x) \<le> fin_val (timestamp l)"
      using P Q by (auto simp: sorted_wrt_append less_imp_le)
    then show ?thesis using P Q False ne
      by (auto simp: ceriousChartWithLiveLast_def Let_def live sorted_wrt_append simp flip: P_def)
  qed
qed

definition sample_tick :: poly_tick where
  "sample_tick = \<lparr>pt_timestamp = Fin 60000, pt_marketKey = ''ESU6'', pt_price = Fin 12, pt_size = Fin 1, pt_side = Yes, pt_rest = JUndef\<rparr>"

theorem live_candle_order_witness:
  "\<not> sorted_wrt (<) (map (fin_val \<circ> timestamp) (ceriousChartWithLiveLast 0 sample_rows CT_30m None [sample_tick]))"
proof -
  note ev = ceriousChartSeriesBars_def bucket_row_def ceriousChartBucketStart_def ceriousChartBucketMs_def
  have f: "\<lfloor>1 / 30 :: rat\<rfloor> = 0" "\<lfloor>31 / 30 :: rat\<rfloor> = 1" by (rule floor_unique; simp)+
  have P: "ceriousChartSeriesBars sample_rows CT_30m \<noteq> [] \<and> fin_val (timestamp (last (ceriousChartSeriesBars sample_rows CT_30m))) = 1800000"
    by (simp add: sample_rows_def ev finite_bar_def by_bar_time_def fold_into_def f)
  have b: "\<forall>ts \<in> bucket_starts CT_30m sample_rows. is_fin ts"
    by (simp add: bucket_starts_def sample_rows_def finite_bar_def ceriousChartBucketStart_def ceriousChartBucketMs_def f)
  have q: "live_quote 0 None [sample_tick] = Some (Fin 12, Fin 60000, Fin 1)"
    by (simp add: live_quote_def sample_tick_def finite_opt_def or_num_def Let_def)
  have "ceriousChartBucketStart (Fin 60000) CT_30m = Fin 0"
    by (simp add: ceriousChartBucketStart_def ceriousChartBucketMs_def f)
  from live_candle_order [OF b _ q this] P show ?thesis by simp
qed

section \<open>Lemmas: regression and volume at price\<close>

lemma squared_error_fin:
  "list_all (is_fin \<circ> close) w \<Longrightarrow>
    squared_error (map (fin_val \<circ> close) w) b a = (\<Sum>i < length w. (fin_val (close (w ! i)) - (a + b * of_nat i)) ^ 2)"
  by (simp add: squared_error_def)

lemma lookback_two: "normalizedLookback v = Some l \<Longrightarrow> 2 \<le> nat_of l \<and> l = Fin (of_nat (nat_of l))"
  by (cases "js_num v") (auto simp: normalizedLookback_def Let_def nat_of_def min_def le_nat_iff of_nat_nat split: if_splits)

lemma sigma_residual:
  assumes "regression_line sample = (slope, intercept)"
  shows "regression_sigma sample = rat_sqrt (squared_error sample slope intercept / of_nat (length sample))"
proof -
  have "sum_list (map (\<lambda>(i, v). (v - (intercept + slope * i)) ^ 2) (indexed sample)) = squared_error sample slope intercept"
    by (simp add: sum_list_sum_nth indexed_def squared_error_def nth_enumerate_eq atLeast0LessThan)
  then show ?thesis by (simp add: regression_sigma_def assms rat_mean_def) (simp add: indexed_def)
qed

text \<open>
  C15. A regression channel is a straight line through the last closes with two parallels.  It has as many points as the
  lookback, one for each of the last bars; their middles lie on one line, whose slope every point carries, and no line
  is nearer to the closes in the sum of squares; sigma is the root of the mean squared distance from that line, and the
  bounds lie the chosen number of sigmas above and below it (none, for a negative number).
\<close>

theorem regression_channel_fits:
  assumes "ceriousRegressionChannel bars study = Some points"
  defines "window \<equiv> drop (length bars - length points) bars"
  shows "2 \<le> length points \<and> normalizedLookback (opt_num (sy_lookback study)) = Some (Fin (of_nat (length points))) \<and>
    map cp_time points = map timestamp window \<and>
    (\<exists>slope intercept sigma. (\<forall>i < length points. let p = points ! i; mean = Fin (intercept + slope * of_nat i) in
         cp_index p = length bars - length points + i \<and> cp_mean p = mean \<and> cp_slope p = Fin slope \<and> cp_sigma p = Fin sigma \<and>
         cp_upper p = js_add mean (js_mul (js_max (Fin 0) (opt_or (sy_upperDeviation study) (Fin 2))) (Fin sigma)) \<and>
         cp_lower p = js_sub mean (js_mul (js_max (Fin 0) (opt_or (sy_lowerDeviation study) (Fin 2))) (Fin sigma))) \<and>
       (\<forall>a b. (\<Sum>i < length points. (fin_val (close (window ! i)) - (intercept + slope * of_nat i)) ^ 2) \<le>
          (\<Sum>i < length points. (fin_val (close (window ! i)) - (a + b * of_nat i)) ^ 2)) \<and>
       sigma = rat_sqrt ((\<Sum>i < length points. (fin_val (close (window ! i)) - (intercept + slope * of_nat i)) ^ 2) / of_nat (length points)))"
proof -
  obtain l where l: "normalizedLookback (opt_num (sy_lookback study)) = Some l"
    using assms(1) by (auto simp: ceriousRegressionChannel_def split: if_splits option.splits)
  define w where "w = drop (length bars - nat_of l) bars"
  let ?s = "map (fin_val \<circ> close) w"
  obtain slope intercept where line: "regression_line ?s = (slope, intercept)" by fastforce
  have n: "nat_of l \<le> length bars" and fin: "list_all (is_fin \<circ> close) w"
    and points: "points = map (\<lambda>(i, b). let mean = Fin (intercept + slope * of_nat i) in
        \<lparr>cp_index = length bars - nat_of l + i, cp_time = timestamp b, cp_mean = mean,
         cp_upper = js_add mean (js_mul (js_max (Fin 0) (opt_or (sy_upperDeviation study) (Fin 2))) (Fin (regression_sigma ?s))),
         cp_lower = js_sub mean (js_mul (js_max (Fin 0) (opt_or (sy_lowerDeviation study) (Fin 2))) (Fin (regression_sigma ?s))),
         cp_sigma = Fin (regression_sigma ?s), cp_slope = Fin slope\<rparr>) (List.enumerate 0 w)"
    using assms(1) by (auto simp: ceriousRegressionChannel_def l w_def [symmetric] line Let_def split: if_splits)
  have len: "length points = nat_of l" "length w = nat_of l" using n by (simp_all add: points w_def)
  have w: "window = w" by (simp add: window_def w_def len(1))
  have "map cp_time points = map timestamp w"
    by (rule nth_equalityI) (simp_all add: points nth_enumerate_eq Let_def)
  moreover have "2 \<le> nat_of l" "l = Fin (of_nat (nat_of l))" using lookback_two [OF l] by auto
  moreover note err = squared_error_fin [OF fin, unfolded len(2)]
  have "\<forall>a b. (\<Sum>i < nat_of l. (fin_val (close (w ! i)) - (intercept + slope * of_nat i)) ^ 2) \<le>
      (\<Sum>i < nat_of l. (fin_val (close (w ! i)) - (a + b * of_nat i)) ^ 2)"
    using line_least_squares [OF line] by (simp add: err)
  moreover have "regression_sigma ?s =
      rat_sqrt ((\<Sum>i < nat_of l. (fin_val (close (w ! i)) - (intercept + slope * of_nat i)) ^ 2) / of_nat (nat_of l))"
    using sigma_residual [OF line] by (simp add: err len(2))
  ultimately show ?thesis using l
    by (intro conjI exI [of _ slope] exI [of _ intercept] exI [of _ "regression_sigma ?s"])
      (simp_all add: w len, simp add: points nth_enumerate_eq Let_def len(2))
qed

definition sample_study :: chart_study where
  "sample_study = \<lparr>sy_id = ''s'', sy_type = Regression_Channel, sy_lookback = Some (Fin 2), sy_upperDeviation = None,
     sy_lowerDeviation = None, sy_atrMultiplier = None, sy_bins = None\<rparr>"

theorem regression_channel_fits_witness:
  "\<exists>points. ceriousRegressionChannel sample_rows sample_study = Some points \<and> map cp_time points = [Fin 1860000, Fin 60000]"
proof -
  have l: "normalizedLookback (opt_num (Some (Fin 2))) = Some (Fin 2)"
    by (simp add: normalizedLookback_def opt_num_def Let_def)
  obtain slope intercept where line: "regression_line [13, 9] = (slope, intercept)" by fastforce
  obtain points where p: "ceriousRegressionChannel sample_rows sample_study = Some points" "length points = 2"
    by (simp add: ceriousRegressionChannel_def sample_study_def l nat_of_def sample_rows_def line Let_def)
  from regression_channel_fits [OF p(1)] p show ?thesis by (simp add: sample_rows_def)
qed

text \<open>Volume at price\<close>

lemma js_max_list_fin: "xs \<noteq> [] \<Longrightarrow> \<forall>x \<in> set xs. is_fin x \<Longrightarrow> js_max_list xs = Fin (Max (fin_val ` set xs))"
proof (induction xs)
  case (Cons x xs)
  then show ?case by (cases xs) (auto simp: js_max_list_def is_fin_conv js_max_def)
qed simp

lemma js_min_list_fin: "xs \<noteq> [] \<Longrightarrow> \<forall>x \<in> set xs. is_fin x \<Longrightarrow> js_min_list xs = Fin (Min (fin_val ` set xs))"
proof (induction xs)
  case (Cons x xs)
  then show ?case by (cases xs) (auto simp: js_min_list_def is_fin_conv js_min_def)
qed simp

definition total_volume :: "vap_bucket list \<Rightarrow> rat" where
  "total_volume buckets = sum_list (map (fin_val \<circ> vb_volume) buckets)"

definition bar_volume :: "bar \<Rightarrow> rat" where
  "bar_volume r = max 0 (fin_val (volume r))"

lemma sum_list_change: "i < length xs \<Longrightarrow> sum_list (xs[i := x]) = sum_list xs + (x - xs ! i :: rat)"
  by (induction xs arbitrary: i) (auto split: nat.splits)

lemma total_volume_update:
  assumes "i < length bs" "is_fin (vb_volume (bs ! i))"
  shows "total_volume (bs[i := (bs ! i)\<lparr>vb_volume := js_add (vb_volume (bs ! i)) (Fin v)\<rparr>]) = total_volume bs + v"
  using assms by (auto simp: total_volume_def map_update sum_list_change is_fin_conv)

text \<open>Every finite row falls into a bucket, so filling cannot fail and keeps the volume.\<close>

lemma fill_buckets_total:
  assumes "\<forall>r \<in> set rows. finite_bar r \<and> is_fin (volume r)" "0 < step" "length bs = k" "0 < k"
    and "\<forall>b \<in> set bs. is_fin (vb_volume b) \<and> 0 \<le> fin_val (vb_volume b)"
  shows "\<exists>bs'. fill_buckets (Fin mn) (Fin step) (Fin (of_nat k)) bs rows = Inr bs' \<and>
    total_volume bs' = total_volume bs + sum_list (map bar_volume rows) \<and>
    (\<forall>b \<in> set bs'. is_fin (vb_volume b) \<and> 0 \<le> fin_val (vb_volume b))"
  using assms
proof (induction rows arbitrary: bs)
  case (Cons row rows)
  obtain h l c v where row: "high row = Fin h" "low row = Fin l" "close row = Fin c" "volume row = Fin v"
    using Cons.prems(1) by (auto simp: finite_bar_def is_fin_conv)
  define z where "z = \<lfloor>((h + l + c) / 3 - mn) / step\<rfloor>"
  define i where "i = nat (max 0 (min (int k - 1) z))"
  have i: "i < length bs" using Cons.prems by (auto simp: i_def)
  have "js_clamp (Fin (of_int z)) (Fin 0) (js_sub (Fin (of_nat k)) (Fin 1)) = Fin (of_int (max 0 (min (int k - 1) z)))"
    by (simp add: js_clamp_def of_int_max of_int_min)
  moreover have "nat_of (Fin (of_int (max 0 (min (int k - 1) z)))) = i" by (simp add: nat_of_def i_def)
  ultimately have idx: "nat_of (js_clamp (Fin (of_int z)) (Fin 0) (js_sub (Fin (of_nat k)) (Fin 1))) = i"
    "is_fin (js_clamp (Fin (of_int z)) (Fin 0) (js_sub (Fin (of_nat k)) (Fin 1)))" by simp_all
  let ?bs = "bs[i := (bs ! i)\<lparr>vb_volume := js_add (vb_volume (bs ! i)) (Fin (max 0 v))\<rparr>]"
  have fin: "is_fin (vb_volume (bs ! i))" "0 \<le> fin_val (vb_volume (bs ! i))" using Cons.prems(5) i by simp_all
  have "fill_buckets (Fin mn) (Fin step) (Fin (of_nat k)) bs (row # rows) = fill_buckets (Fin mn) (Fin step) (Fin (of_nat k)) ?bs rows"
    using Cons.prems(2) i idx by (simp add: row add_volume_def Let_def flip: z_def)
  moreover have "\<forall>b \<in> set ?bs. is_fin (vb_volume b) \<and> 0 \<le> fin_val (vb_volume b)"
    using Cons.prems(5) fin by (auto dest!: set_update_subset_insert [THEN subsetD] simp: is_fin_conv)
  ultimately show ?case
    using Cons.IH [of ?bs] Cons.prems(1-4) total_volume_update [OF i fin(1), of "max 0 v"] by (auto simp: bar_volume_def row)
qed simp

lemma sum_filter_positive:
  assumes "\<forall>b \<in> set bs. is_fin (vb_volume b) \<and> 0 \<le> fin_val (vb_volume b)"
  shows "total_volume (filter (\<lambda>b. js_lt (Fin 0) (vb_volume b)) bs) = total_volume bs"
  using assms by (induction bs) (auto simp: total_volume_def is_fin_conv)

definition vap_prices :: "bar list \<Rightarrow> jsnum set" where
  "vap_prices rows = (\<Union>r \<in> set rows. {low r, high r, close r})"

lemma min_less_max:
  fixes a b :: rat
  assumes "finite A" "a \<noteq> b" "a \<in> A" "b \<in> A"
  shows "Min A < Max A"
  using Min_le [OF assms(1,3)] Min_le [OF assms(1,4)] Max_ge [OF assms(1,3)] Max_ge [OF assms(1,4)] assms(2) by linarith

text \<open>The volume at price distributes the volume of the rows over the buckets, and loses none.\<close>

theorem volume_at_price_conserved:
  assumes study: "List.find (\<lambda>s. sy_type s = Volume_At_Price) studies = Some study" "is_fin (opt_or (sy_bins study) (Fin 28))"
    and rows: "2 \<le> length rows" "\<forall>r \<in> set rows. finite_bar r \<and> is_fin (volume r)"
    and spread: "p \<in> vap_prices rows" "q \<in> vap_prices rows" "p \<noteq> q"
  shows "\<exists>out. ceriousVolumeAtPriceBuckets rows studies = Inr out \<and>
    total_volume (map vr_bucket out) = sum_list (map bar_volume rows)"
proof -
  let ?prices = "filter is_fin (concat (map (\<lambda>r. [low r, high r, close r]) rows))"
  have set: "set ?prices = vap_prices rows" using rows(2) by (auto simp: vap_prices_def finite_bar_def)
  have fin: "\<forall>x \<in> set ?prices. is_fin x" by simp
  have ne: "?prices \<noteq> []" using spread(1) set by (metis list.set_intros(1) empty_iff list.set(1))
  define mn mx where "mn = Min (fin_val ` vap_prices rows)" and "mx = Max (fin_val ` vap_prices rows)"
  have ext: "js_min_list ?prices = Fin mn" "js_max_list ?prices = Fin mx"
    using js_min_list_fin [OF ne fin] js_max_list_fin [OF ne fin] by (simp_all only: set mn_def mx_def)
  have "finite (fin_val ` vap_prices rows)" by (simp add: flip: set)
  moreover have "fin_val p \<noteq> fin_val q" using spread fin fin_val_inj unfolding set by blast
  moreover have "fin_val p \<in> fin_val ` vap_prices rows" "fin_val q \<in> fin_val ` vap_prices rows" using spread by simp_all
  ultimately have lt: "mn < mx" unfolding mn_def mx_def by (rule min_less_max)
  obtain b where b: "opt_or (sy_bins study) (Fin 28) = Fin b" using study(2) by (auto simp: is_fin_conv)
  define k where "k = nat (max 8 (min 80 \<lfloor>b\<rfloor>))"
  have k: "max 8 (min 80 (of_int \<lfloor>b\<rfloor>)) = (of_nat k :: rat)" "0 < k"
    by (simp_all add: k_def of_nat_nat of_int_max of_int_min)
  have nk: "nat_of (Fin (of_nat k)) = k" by (simp add: nat_of_def)
  define step where "step = (mx - mn) / of_nat k"
  have step: "0 < step" using lt k(2) by (simp add: step_def)
  define bs where "bs = map (\<lambda>i. \<lparr>vb_low = Fin (mn + of_nat i * step),
    vb_high = Fin (mn + (1 + of_nat i) * step), vb_volume = Fin 0\<rparr>) [0..<k]"
  have bs: "length bs = k" "total_volume bs = 0" "\<forall>b \<in> set bs. is_fin (vb_volume b) \<and> 0 \<le> fin_val (vb_volume b)"
    by (auto simp: bs_def total_volume_def comp_def)
  obtain filled where f: "fill_buckets (Fin mn) (Fin step) (Fin (of_nat k)) bs rows = Inr filled"
      "total_volume filled = sum_list (map bar_volume rows)" "\<forall>b \<in> set filled. is_fin (vb_volume b) \<and> 0 \<le> fin_val (vb_volume b)"
    using fill_buckets_total [OF rows(2) step bs(1) k(2) bs(3), of mn] bs(2) by auto
  have "\<exists>out. ceriousVolumeAtPriceBuckets rows studies = Inr out \<and> map vr_bucket out = filter (\<lambda>b. js_lt (Fin 0) (vb_volume b)) filled"
    using rows(1) lt f(1) k(2)
    by (simp add: ceriousVolumeAtPriceBuckets_def study ext b k(1) nk Let_def comp_def flip: step_def bs_def)
  then show ?thesis using sum_filter_positive [OF f(3)] f(2) by auto
qed

theorem volume_at_price_conserved_witness:
  "\<exists>out. ceriousVolumeAtPriceBuckets sample_rows [sample_study\<lparr>sy_type := Volume_At_Price\<rparr>] = Inr out \<and>
    total_volume (map vr_bucket out) = 15"
  using volume_at_price_conserved [of "[sample_study\<lparr>sy_type := Volume_At_Price\<rparr>]" "sample_study\<lparr>sy_type := Volume_At_Price\<rparr>"
      sample_rows "Fin 12" "Fin 9"]
  by (simp add: sample_study_def sample_rows_def finite_bar_def vap_prices_def bar_volume_def)

end
