(* ===== verification/Windows.thy ===== *)
theory Windows
  imports Studies
begin

text \<open>
  The windows of the desktop, \<open>components/WorkspaceDesktop.tsx\<close>: the default layout, dragging and
  resizing with the pointer, stacking, adding, cloning and closing, and the panning of the canvas, by the
  wheel and at its edges.  A handler that reads the clock takes it as a parameter, and one that reads
  stored settings takes what it read.  The window kinds are the labelled ones.
\<close>

section \<open>Windows\<close>

record floating_bounds =
  fb_x :: jsnum
  fb_y :: jsnum
  fb_w :: jsnum
  fb_h :: jsnum

record workspace_window =
  ww_id :: string
  ww_kind :: string
  ww_title :: string
  ww_x :: jsnum
  ww_y :: jsnum
  ww_w :: jsnum
  ww_h :: jsnum
  ww_z :: jsnum
  ww_collapsed :: bool
  ww_template :: "string option"
  ww_provider :: "string option"
  ww_symbol :: "string option"
  ww_account :: "string option"
  ww_poppedOut :: "bool option"
  ww_floatingBounds :: "floating_bounds option"
  ww_chartSettings :: "chart_settings option"
  ww_depthLadderSettings :: "depth_settings option"

definition label_of :: "string \<Rightarrow> string" where
  "label_of kind = (case map_of WINDOW_LABELS kind of Some l \<Rightarrow> l | None \<Rightarrow> ''undefined'')"

definition win :: "string \<Rightarrow> jsnum \<Rightarrow> jsnum \<Rightarrow> jsnum \<Rightarrow> jsnum \<Rightarrow> jsnum \<Rightarrow> string option \<Rightarrow> workspace_window" where
  "win kind x y w h z template =
     \<lparr>ww_id = kind @ ''-'' @ jsnum_string z, ww_kind = kind, ww_title = label_of kind, ww_x = x, ww_y = y, ww_w = w, ww_h = h,
      ww_z = z, ww_collapsed = False, ww_template = template, ww_provider = None, ww_symbol = None, ww_account = None,
      ww_poppedOut = None, ww_floatingBounds = None, ww_chartSettings = None, ww_depthLadderSettings = None\<rparr>"

definition defaultWindows :: "string \<Rightarrow> workspace_window list" where
  "defaultWindows template =
     map (\<lambda>(kind, x, y, w, h, z). win kind (Fin x) (Fin y) (Fin w) (Fin h) (Fin z) None)
       [(''marketData'', 16, 58, 560, 315, 1), (''charts'', 588, 58, 620, 430, 2), (''depthLadder'', 1220, 58, 600, 655, 3),
        (''order'', 16, 386, 370, 430, 4), (''fills'', 398, 500, 390, 310, 5), (''alerts'', 800, 500, 400, 310, 6),
        (''liquidityMap'', 16, 830, 370, 290, 11), (''serviceMap'', 398, 1134, 520, 260, 12),
        (''algoManager'', 930, 1134, 430, 300, 13), (''spreadConfigurations'', 1372, 1134, 448, 300, 14)]"

definition defaultSymbolForWindowKind :: "string \<Rightarrow> string \<Rightarrow> string" where
  "defaultSymbolForWindowKind kind fallback =
     (if kind = ''depthLadder'' then ''''
      else if kind = ''charts'' then ''ES_NQ''
      else if kind = ''depthTraderEsNq'' then ''ES_NQ''
      else if kind = ''depthTraderYmEs'' then ''YM_ES''
      else if kind = ''depthTraderRtyEs'' then ''RTY_ES''
      else if kind = ''mdTraderEs'' then ''ES''
      else fallback)"

section \<open>Dragging and resizing\<close>

datatype resize_direction = Dir_n | Dir_e | Dir_s | Dir_w | Dir_ne | Dir_nw | Dir_se | Dir_sw

fun direction_text :: "resize_direction \<Rightarrow> string" where
  "direction_text Dir_n = ''n''"
| "direction_text Dir_e = ''e''"
| "direction_text Dir_s = ''s''"
| "direction_text Dir_w = ''w''"
| "direction_text Dir_ne = ''ne''"
| "direction_text Dir_nw = ''nw''"
| "direction_text Dir_se = ''se''"
| "direction_text Dir_sw = ''sw''"

definition towards :: "string \<Rightarrow> resize_direction \<Rightarrow> bool" where
  "towards c d = js_includes c (direction_text d)"

type_synonym pt = "jsnum \<times> jsnum"

text \<open>What a drag or a resize keeps from the moment the pointer went down.\<close>

record grip =
  gr_id :: string
  gr_pointer :: pt
  gr_left :: jsnum
  gr_top :: jsnum
  gr_width :: jsnum
  gr_height :: jsnum
  gr_pan :: pt

definition grip_of :: "workspace_window \<Rightarrow> pt \<Rightarrow> pt \<Rightarrow> grip" where
  "grip_of item pointer pan =
     \<lparr>gr_id = ww_id item, gr_pointer = pointer, gr_left = ww_x item, gr_top = ww_y item, gr_width = ww_w item,
      gr_height = ww_h item, gr_pan = pan\<rparr>"

definition drag_position :: "grip \<Rightarrow> pt \<Rightarrow> pt \<Rightarrow> pt" where
  "drag_position g latest pan =
     (js_max (Fin 8) (js_add (js_sub (js_add (gr_left g) (fst latest)) (fst (gr_pointer g))) (js_sub (fst pan) (fst (gr_pan g)))),
      js_max (Fin 48) (js_add (js_sub (js_add (gr_top g) (snd latest)) (snd (gr_pointer g))) (js_sub (snd pan) (snd (gr_pan g)))))"

record bounds_patch =
  bp_x :: "jsnum option"
  bp_y :: "jsnum option"
  bp_w :: "jsnum option"
  bp_h :: "jsnum option"

definition resize_patch :: "resize_direction \<Rightarrow> grip \<Rightarrow> pt \<Rightarrow> pt \<Rightarrow> bounds_patch" where
  "resize_patch d g pointer pan =
     (let minWidth = Fin 260; minHeight = Fin 180;
          dx = js_sub (fst pointer) (fst (gr_pointer g)); dy = js_sub (snd pointer) (snd (gr_pointer g));
          panDx = js_sub (fst pan) (fst (gr_pan g)); panDy = js_sub (snd pan) (snd (gr_pan g));
          p = \<lparr>bp_x = None, bp_y = None, bp_w = None, bp_h = None\<rparr>;
          p = (if towards ''e'' d
               then p\<lparr>bp_w := Some (js_clamp (js_add (js_add (gr_width g) dx) panDx) minWidth (Fin 2400))\<rparr> else p);
          p = (if towards ''s'' d
               then p\<lparr>bp_h := Some (js_clamp (js_add (js_add (gr_height g) dy) panDy) minHeight (Fin 1800))\<rparr> else p);
          p = (if towards ''w'' d
               then let nextDx = js_clamp (js_add dx panDx) (js_sub (Fin 8) (gr_left g)) (js_sub (gr_width g) minWidth)
                 in p\<lparr>bp_x := Some (js_add (gr_left g) nextDx), bp_w := Some (js_sub (gr_width g) nextDx)\<rparr> else p)
      in if towards ''n'' d
         then let nextDy = js_clamp (js_add dy panDy) (js_sub (Fin 48) (gr_top g)) (js_sub (gr_height g) minHeight)
           in p\<lparr>bp_y := Some (js_add (gr_top g) nextDy), bp_h := Some (js_sub (gr_height g) nextDy)\<rparr>
         else p)"

section \<open>The window list\<close>

definition on_window :: "string \<Rightarrow> (workspace_window \<Rightarrow> workspace_window) \<Rightarrow> workspace_window list \<Rightarrow> workspace_window list" where
  "on_window i f windows = map (\<lambda>item. if ww_id item = i then f item else item) windows"

definition maxZ :: "workspace_window list \<Rightarrow> jsnum" where
  "maxZ windows = js_max_list (Fin 1 # map ww_z windows)"

text \<open>\<open>zmax\<close> is \<open>maxZ\<close> as of the last rendering.\<close>

definition bringForward :: "jsnum \<Rightarrow> string \<Rightarrow> workspace_window list \<Rightarrow> workspace_window list" where
  "bringForward zmax i = on_window i (\<lambda>item. item\<lparr>ww_z := js_add zmax (Fin 1)\<rparr>)"

definition moveWindow :: "string \<Rightarrow> jsnum \<Rightarrow> jsnum \<Rightarrow> workspace_window list \<Rightarrow> workspace_window list" where
  "moveWindow i x y = on_window i (\<lambda>item. item\<lparr>ww_x := x, ww_y := y\<rparr>)"

definition resizeWindow :: "string \<Rightarrow> bounds_patch \<Rightarrow> workspace_window list \<Rightarrow> workspace_window list" where
  "resizeWindow i p = on_window i (\<lambda>item. item\<lparr>ww_x := opt_or (bp_x p) (ww_x item), ww_y := opt_or (bp_y p) (ww_y item),
     ww_w := opt_or (bp_w p) (ww_w item), ww_h := opt_or (bp_h p) (ww_h item)\<rparr>)"

definition toggleCollapse :: "string \<Rightarrow> workspace_window list \<Rightarrow> workspace_window list" where
  "toggleCollapse i = on_window i (\<lambda>item. item\<lparr>ww_collapsed := \<not> ww_collapsed item\<rparr>)"

definition closeWindow :: "string \<Rightarrow> workspace_window list \<Rightarrow> workspace_window list" where
  "closeWindow i windows = filter (\<lambda>item. ww_id item \<noteq> i) windows"

definition count_kind :: "string \<Rightarrow> workspace_window list \<Rightarrow> nat" where
  "count_kind kind windows = length (filter (\<lambda>item. ww_kind item = kind) windows)"

definition cloneWindow :: "rat \<Rightarrow> string \<Rightarrow> workspace_window list \<Rightarrow> workspace_window list" where
  "cloneWindow now i current =
     (case List.find (\<lambda>item. ww_id item = i) current of
        None \<Rightarrow> current
      | Some source \<Rightarrow>
          (let cloneCount = count_kind (ww_kind source) current + 1
           in current @ [source\<lparr>ww_id := ww_kind source @ ''-clone-'' @ jsnum_string (Fin now),
             ww_title := label_of (ww_kind source) @ '' '' @ jsnum_string (Fin (of_nat cloneCount)),
             ww_x := js_max (Fin 8) (js_add (ww_x source) (Fin 34)), ww_y := js_max (Fin 48) (js_add (ww_y source) (Fin 34)),
             ww_z := js_add (maxZ current) (Fin 1), ww_collapsed := False,
             ww_depthLadderSettings := map_option (normalizeDepthLadderSettings \<circ> depth_value) (ww_depthLadderSettings source)\<rparr>]))"

text \<open>
  \<open>addWindow\<close>: \<open>rendered\<close> is the list at the last rendering, \<open>stored\<close> the default ladder settings read
  from storage.
\<close>

definition addWindow ::
  "rat \<Rightarrow> depth_settings \<Rightarrow> workspace_window list \<Rightarrow> pt \<Rightarrow> string \<Rightarrow> string option \<Rightarrow> string \<Rightarrow> string
    \<Rightarrow> workspace_window list \<Rightarrow> workspace_window list" where
  "addWindow now stored rendered pan kind template providerOverride symbolOverride current =
     (let seed = List.find (\<lambda>item. ww_kind item = kind) (defaultWindows (opt_or template ''cme''));
          count = count_kind kind rendered; zmax = maxZ rendered; shift = Fin (of_nat count * 34);
          base = (case seed of Some s \<Rightarrow> s
            | None \<Rightarrow> win kind (Fin 80) (Fin 80) (Fin 520) (Fin 360) (js_add zmax (Fin 1)) template)
      in current @ [base\<lparr>ww_id := kind @ ''-'' @ jsnum_string (Fin now),
           ww_title := (if 0 < count then label_of kind @ '' '' @ jsnum_string (Fin (of_nat (count + 1))) else label_of kind),
           ww_x := js_add (js_add (fst pan) (Fin 60)) shift, ww_y := js_add (js_add (snd pan) (Fin 70)) shift,
           ww_z := js_add zmax (Fin 1), ww_collapsed := False, ww_provider := Some providerOverride,
           ww_symbol := Some (defaultSymbolForWindowKind kind symbolOverride),
           ww_depthLadderSettings := (if kind = ''depthLadder'' then Some stored else None)\<rparr>])"

definition selectWindowProduct :: "string \<Rightarrow> string \<Rightarrow> string \<Rightarrow> workspace_window list \<Rightarrow> workspace_window list" where
  "selectWindowProduct i provider symbol =
     on_window i (\<lambda>item. item\<lparr>ww_provider := Some (normalizeProviderKey (JStr provider)), ww_symbol := Some symbol\<rparr>)"

definition updateWindowChartSettings :: "string \<Rightarrow> chart_settings \<Rightarrow> workspace_window list \<Rightarrow> workspace_window list" where
  "updateWindowChartSettings i settings = on_window i (\<lambda>item. item\<lparr>ww_chartSettings := Some settings\<rparr>)"

definition updateWindowDepthLadderSettings :: "string \<Rightarrow> depth_settings \<Rightarrow> workspace_window list \<Rightarrow> workspace_window list" where
  "updateWindowDepthLadderSettings i settings current =
     (let normalized = normalizeDepthLadderSettings (depth_value settings)
      in case List.find (\<lambda>item. ww_id item = i) current of
           None \<Rightarrow> current
         | Some target \<Rightarrow>
             if ww_depthLadderSettings target = Some normalized then current
             else on_window i (\<lambda>item. item\<lparr>ww_depthLadderSettings := Some normalized\<rparr>) current)"

definition saveDepthLadderDefaultForWindow :: "string \<Rightarrow> depth_settings \<Rightarrow> workspace_window list \<Rightarrow> workspace_window list" where
  "saveDepthLadderDefaultForWindow i settings current =
     (let normalized = normalizeDepthLadderSettings (depth_value settings)
      in map (\<lambda>item. if ww_kind item = ''depthLadder'' \<and> ww_id item = i
           then item\<lparr>ww_depthLadderSettings := Some normalized\<rparr> else item) current)"

section \<open>The canvas\<close>

definition WORKSPACE_HEADER_HEIGHT :: jsnum where "WORKSPACE_HEADER_HEIGHT = Fin 48"
definition WORKSPACE_FOOTER_HEIGHT :: jsnum where "WORKSPACE_FOOTER_HEIGHT = Fin 28"
definition WORKSPACE_EDGE_PAN_ZONE :: jsnum where "WORKSPACE_EDGE_PAN_ZONE = Fin 150"
definition WORKSPACE_HOVER_PAN_ZONE :: jsnum where "WORKSPACE_HOVER_PAN_ZONE = Fin 24"

lemmas zones = WORKSPACE_HEADER_HEIGHT_def WORKSPACE_FOOTER_HEIGHT_def WORKSPACE_EDGE_PAN_ZONE_def WORKSPACE_HOVER_PAN_ZONE_def

record view_rect =
  vw_left :: jsnum
  vw_right :: jsnum
  vw_top :: jsnum
  vw_bottom :: jsnum
  vw_width :: jsnum
  vw_height :: jsnum

definition workspaceBounds :: "pt \<Rightarrow> workspace_window list \<Rightarrow> pt" where
  "workspaceBounds viewport windows =
     (foldl (\<lambda>m item. js_max m (js_add (js_add (ww_x item) (ww_w item)) (Fin 96))) (fst viewport) windows,
      foldl (\<lambda>m item. js_max m (js_add (js_add (ww_y item) (if ww_collapsed item then Fin 34 else ww_h item)) (Fin 96)))
        (snd viewport) windows)"

text \<open>From the bounding rectangle of the main element, absent before it is mounted.\<close>

definition getWorkspaceViewportRect :: "view_rect option \<Rightarrow> view_rect option" where
  "getWorkspaceViewportRect rect =
     map_option (\<lambda>r. let t = js_add (vw_top r) WORKSPACE_HEADER_HEIGHT; b = js_sub (vw_bottom r) WORKSPACE_FOOTER_HEIGHT
       in r\<lparr>vw_top := t, vw_bottom := b, vw_height := js_max (Fin 1) (js_sub b t)\<rparr>) rect"

definition clampWorkspacePan :: "pt \<Rightarrow> pt \<Rightarrow> view_rect option \<Rightarrow> jsnum \<Rightarrow> jsnum \<Rightarrow> pt" where
  "clampWorkspacePan bounds viewport main x y =
     (let rect = getWorkspaceViewportRect main;
          viewWidth = (case rect of Some r \<Rightarrow> vw_width r | None \<Rightarrow> fst viewport);
          viewHeight = (case rect of Some r \<Rightarrow> vw_height r | None \<Rightarrow> snd viewport);
          maxX = js_max (Fin 0) (js_sub (fst bounds) viewWidth); maxY = js_max (Fin 0) (js_sub (snd bounds) viewHeight)
      in (js_clamp x (Fin 0) maxX, js_clamp y (Fin 0) maxY))"

text \<open>The desktop: windows, pan, the pointer at an edge and whether a pan frame is pending.\<close>

record desktop =
  dk_windows :: "workspace_window list"
  dk_pan :: pt
  dk_viewport :: pt
  dk_main :: "view_rect option"
  dk_edgePointer :: "pt option"
  dk_panFrame :: bool
  dk_grip :: "(resize_direction option \<times> grip \<times> pt) option"

definition clamp_pan :: "desktop \<Rightarrow> pt \<Rightarrow> pt" where
  "clamp_pan d p = clampWorkspacePan (workspaceBounds (dk_viewport d) (dk_windows d)) (dk_viewport d) (dk_main d) (fst p) (snd p)"

definition reclamp :: "desktop \<Rightarrow> desktop" where
  "reclamp d = d\<lparr>dk_pan := clamp_pan d (dk_pan d)\<rparr>"

text \<open>The pan that was applied is returned.\<close>

definition panWorkspaceBy :: "jsnum \<Rightarrow> jsnum \<Rightarrow> desktop \<Rightarrow> desktop \<times> pt" where
  "panWorkspaceBy dx dy d =
     (if js_lt (js_abs dx) (Fin (1 / 100)) \<and> js_lt (js_abs dy) (Fin (1 / 100)) then (d, (Fin 0, Fin 0))
      else let next = clamp_pan d (js_add (fst (dk_pan d)) dx, js_add (snd (dk_pan d)) dy)
        in (d\<lparr>dk_pan := next\<rparr>, (js_sub (fst next) (fst (dk_pan d)), js_sub (snd next) (snd (dk_pan d)))))"

definition stopWorkspaceEdgePan :: "desktop \<Rightarrow> desktop" where
  "stopWorkspaceEdgePan d = d\<lparr>dk_edgePointer := None, dk_panFrame := False\<rparr>"

definition startWorkspaceEdgePan :: "desktop \<Rightarrow> desktop" where
  "startWorkspaceEdgePan d = d\<lparr>dk_panFrame := True\<rparr>"

definition speedFromDepth :: "jsnum \<Rightarrow> jsnum" where
  "speedFromDepth depth =
     (let t = js_clamp (js_div depth WORKSPACE_EDGE_PAN_ZONE) (Fin 0) (Fin 1) in js_add (Fin 6) (js_mul (js_mul t t) (Fin 72)))"

text \<open>How deep a coordinate is in the zone at the end and at the start of an interval.\<close>

definition end_depth :: "jsnum \<Rightarrow> jsnum \<Rightarrow> jsnum" where
  "end_depth v hi = (if js_le hi v then WORKSPACE_EDGE_PAN_ZONE else js_max (Fin 0) (js_sub v (js_sub hi WORKSPACE_EDGE_PAN_ZONE)))"

definition start_depth :: "jsnum \<Rightarrow> jsnum \<Rightarrow> jsnum" where
  "start_depth v lo = (if js_le v lo then WORKSPACE_EDGE_PAN_ZONE else js_max (Fin 0) (js_sub (js_add lo WORKSPACE_EDGE_PAN_ZONE) v))"

definition edge_speed :: "jsnum \<Rightarrow> jsnum \<Rightarrow> jsnum \<Rightarrow> jsnum" where
  "edge_speed v lo hi =
     (if js_lt (Fin 0) (end_depth v hi) then speedFromDepth (end_depth v hi)
      else if js_lt (Fin 0) (start_depth v lo) then js_neg (speedFromDepth (start_depth v lo))
      else Fin 0)"

text \<open>One animation frame of the edge pan.\<close>

definition stepWorkspaceEdgePan :: "desktop \<Rightarrow> desktop" where
  "stepWorkspaceEdgePan d =
     (case (dk_edgePointer d, dk_main d) of
        (Some pointer, Some rect) \<Rightarrow>
          (let viewportRect = (case getWorkspaceViewportRect (Some rect) of Some r \<Rightarrow> r | None \<Rightarrow> rect);
               dx = edge_speed (fst pointer) (vw_left viewportRect) (vw_right viewportRect);
               dy = edge_speed (snd pointer) (vw_top viewportRect) (vw_bottom viewportRect)
           in if dx = Fin 0 \<and> dy = Fin 0 then stopWorkspaceEdgePan d
              else (fst (panWorkspaceBy dx dy d))\<lparr>dk_panFrame := True\<rparr>)
      | _ \<Rightarrow> d\<lparr>dk_panFrame := False\<rparr>)"

text \<open>The pointer over the canvas, without and with a button held.\<close>

definition handleWorkspacePointerMove :: "nat \<Rightarrow> pt \<Rightarrow> desktop \<Rightarrow> desktop" where
  "handleWorkspacePointerMove buttons p d =
     (if buttons \<noteq> 0 then d
      else case getWorkspaceViewportRect (dk_main d) of
        None \<Rightarrow> stopWorkspaceEdgePan d
      | Some r \<Rightarrow>
          if js_le (fst p) (js_add (vw_left r) WORKSPACE_HOVER_PAN_ZONE) \<or> js_le (js_sub (vw_right r) WORKSPACE_HOVER_PAN_ZONE) (fst p)
            \<or> js_le (snd p) (js_add (vw_top r) WORKSPACE_HOVER_PAN_ZONE) \<or> js_le (js_sub (vw_bottom r) WORKSPACE_HOVER_PAN_ZONE) (snd p)
          then startWorkspaceEdgePan (d\<lparr>dk_edgePointer := Some p\<rparr>)
          else stopWorkspaceEdgePan d)"

definition handleWindowDragPointerMove :: "pt \<Rightarrow> desktop \<Rightarrow> desktop" where
  "handleWindowDragPointerMove p d =
     (let edge = WORKSPACE_EDGE_PAN_ZONE;
          inside = (case getWorkspaceViewportRect (dk_main d) of
              None \<Rightarrow> False
            | Some r \<Rightarrow> js_lt (js_add (vw_left r) edge) (fst p) \<and> js_lt (fst p) (js_sub (vw_right r) edge)
                \<and> js_lt (js_add (vw_top r) edge) (snd p) \<and> js_lt (snd p) (js_sub (vw_bottom r) edge))
      in if inside then stopWorkspaceEdgePan d else startWorkspaceEdgePan (d\<lparr>dk_edgePointer := Some p\<rparr>))"

definition handleWorkspaceWheel :: "bool \<Rightarrow> bool \<Rightarrow> bool \<Rightarrow> pt \<Rightarrow> desktop \<Rightarrow> desktop" where
  "handleWorkspaceWheel altKey shiftKey overWindow delta d =
     (let horizontal = js_lt (js_abs (snd delta)) (js_abs (fst delta))
      in if \<not> altKey \<and> \<not> shiftKey \<and> (\<not> horizontal \<or> overWindow) then d
         else fst (panWorkspaceBy (if shiftKey \<and> \<not> horizontal then snd delta else fst delta)
                (if altKey then snd delta else Fin 0) d))"

section \<open>Events\<close>

definition update_windows :: "(workspace_window list \<Rightarrow> workspace_window list) \<Rightarrow> desktop \<Rightarrow> desktop" where
  "update_windows f d = d\<lparr>dk_windows := f (dk_windows d)\<rparr>"

text \<open>The frame that follows a drag puts the window under the pointer.\<close>

definition syncDrag :: "desktop \<Rightarrow> desktop" where
  "syncDrag d =
     (case dk_grip d of
        Some (None, g, latest) \<Rightarrow> (let (x, y) = drag_position g latest (dk_pan d) in update_windows (moveWindow (gr_id g) x y) d)
      | _ \<Rightarrow> d)"

text \<open>\<open>onActivate\<close> of a frame, then the grip: no direction is a drag by the title bar.\<close>

definition take_grip :: "resize_direction option \<Rightarrow> workspace_window \<Rightarrow> pt \<Rightarrow> desktop \<Rightarrow> desktop" where
  "take_grip dir item p d =
     (update_windows (bringForward (maxZ (dk_windows d)) (ww_id item)) d)\<lparr>dk_grip := Some (dir, grip_of item p (dk_pan d), p)\<rparr>"

definition startDrag :: "workspace_window \<Rightarrow> pt \<Rightarrow> desktop \<Rightarrow> desktop" where
  "startDrag item p d = syncDrag (take_grip None item p d)"

definition startResize :: "resize_direction \<Rightarrow> workspace_window \<Rightarrow> pt \<Rightarrow> desktop \<Rightarrow> desktop" where
  "startResize dir item p d = (if ww_collapsed item then d else take_grip (Some dir) item p d)"

definition grip_move :: "pt \<Rightarrow> desktop \<Rightarrow> desktop" where
  "grip_move p d =
     (case dk_grip d of
        None \<Rightarrow> d
      | Some (None, g, latest) \<Rightarrow> handleWindowDragPointerMove p (d\<lparr>dk_grip := Some (None, g, p)\<rparr>)
      | Some (Some dir, g, latest) \<Rightarrow>
          update_windows (resizeWindow (gr_id g) (resize_patch dir g p (dk_pan d))) (handleWindowDragPointerMove p d))"

definition grip_up :: "desktop \<Rightarrow> desktop" where
  "grip_up d = (case dk_grip d of None \<Rightarrow> d | Some _ \<Rightarrow> stopWorkspaceEdgePan (d\<lparr>dk_grip := None\<rparr>))"

datatype desk_event =
    Activate string
  | Title_Down string pt
  | Handle_Down resize_direction string pt
  | Drag_Frame
  | Pointer_Move pt
  | Pointer_Up
  | Hover nat pt
  | Pan_Frame
  | Wheel bool bool bool pt
  | Collapse string
  | Close string
  | Clone string
  | Add_Window string "string option" string string
  | Product string string string
  | Chart string chart_settings
  | Ladder string depth_settings
  | Ladder_Default string depth_settings
  | Viewport pt "view_rect option"

definition with_window :: "string \<Rightarrow> (workspace_window \<Rightarrow> desktop \<Rightarrow> desktop) \<Rightarrow> desktop \<Rightarrow> desktop" where
  "with_window i f d = (case List.find (\<lambda>w. ww_id w = i) (dk_windows d) of None \<Rightarrow> d | Some w \<Rightarrow> f w d)"

text \<open>One event at time \<open>now\<close>; each rendering clamps the pan to the new canvas.\<close>

fun desk_handle :: "rat \<Rightarrow> depth_settings \<Rightarrow> desk_event \<Rightarrow> desktop \<Rightarrow> desktop" where
  "desk_handle now stored (Activate i) d = update_windows (bringForward (maxZ (dk_windows d)) i) d"
| "desk_handle now stored (Title_Down i p) d = with_window i (\<lambda>w. startDrag w p) d"
| "desk_handle now stored (Handle_Down dir i p) d = with_window i (\<lambda>w. startResize dir w p) d"
| "desk_handle now stored Drag_Frame d = syncDrag d"
| "desk_handle now stored (Pointer_Move p) d = grip_move p d"
| "desk_handle now stored Pointer_Up d = grip_up d"
| "desk_handle now stored (Hover buttons p) d = handleWorkspacePointerMove buttons p d"
| "desk_handle now stored Pan_Frame d = (if dk_panFrame d then stepWorkspaceEdgePan d else d)"
| "desk_handle now stored (Wheel alt shift over delta) d = handleWorkspaceWheel alt shift over delta d"
| "desk_handle now stored (Collapse i) d = update_windows (toggleCollapse i) d"
| "desk_handle now stored (Close i) d = update_windows (closeWindow i) d"
| "desk_handle now stored (Clone i) d = update_windows (cloneWindow now i) d"
| "desk_handle now stored (Add_Window kind template provider symbol) d =
     update_windows (addWindow now stored (dk_windows d) (dk_pan d) kind template provider symbol) d"
| "desk_handle now stored (Product i provider symbol) d = update_windows (selectWindowProduct i provider symbol) d"
| "desk_handle now stored (Chart i settings) d = update_windows (updateWindowChartSettings i settings) d"
| "desk_handle now stored (Ladder i settings) d = update_windows (updateWindowDepthLadderSettings i settings) d"
| "desk_handle now stored (Ladder_Default i settings) d = update_windows (saveDepthLadderDefaultForWindow i settings) d"
| "desk_handle now stored (Viewport extent main) d = d\<lparr>dk_viewport := extent, dk_main := main\<rparr>"

definition desk_step :: "rat \<Rightarrow> depth_settings \<Rightarrow> desk_event \<Rightarrow> desktop \<Rightarrow> desktop" where
  "desk_step now stored e d = reclamp (desk_handle now stored e d)"

text \<open>
  Loading saved windows: removed kinds go, a chart and a ladder are added where there is none.  The values
  of \<open>normalizeWindows\<close> in \<open>Workspace\<close> carry the same identifiers, kinds and bounds.
\<close>

definition above :: "workspace_window list \<Rightarrow> jsnum" where
  "above ws = js_add (foldl (\<lambda>m w. js_max m (ww_z w)) (Fin 0) ws) (Fin 1)"

definition with_chart :: "rat \<Rightarrow> workspace_window list \<Rightarrow> workspace_window list" where
  "with_chart now ws =
     (if \<exists>w \<in> set ws. ww_kind w \<in> {''charts'', ''relativeSpreadCharts''} then ws
      else ws @ [(win ''charts'' (Fin 588) (Fin 58) (Fin 620) (Fin 430) (above ws) None)\<lparr>ww_id := ''charts-migrated-'' @ jsnum_string (Fin now)\<rparr>])"

definition with_ladder :: "rat \<Rightarrow> workspace_window list \<Rightarrow> workspace_window list" where
  "with_ladder now ws =
     (if \<exists>w \<in> set ws. ww_kind w = ''depthLadder'' then ws
      else ws @ [(win ''depthLadder'' (Fin 1220) (Fin 58) (Fin 600) (Fin 655) (above ws) None)
        \<lparr>ww_id := ''depth-ladder-migrated-'' @ jsnum_string (Fin now), ww_symbol := Some ''ES'', ww_provider := Some ''cme''\<rparr>])"

definition as_loaded :: "workspace_window \<Rightarrow> workspace_window" where
  "as_loaded w = w\<lparr>ww_provider := Some (normalizeProviderKey (case ww_provider w of None \<Rightarrow> JUndef | Some p \<Rightarrow> JStr p)),
     ww_depthLadderSettings := (if ww_kind w = ''depthLadder''
       then map_option (normalizeDepthLadderSettings \<circ> depth_value) (ww_depthLadderSettings w) else ww_depthLadderSettings w)\<rparr>"

definition load_windows :: "rat \<Rightarrow> workspace_window list \<Rightarrow> workspace_window list" where
  "load_windows now ws =
     map as_loaded (with_ladder now (with_chart now (filter (\<lambda>w. \<not> isRemovedWindowKind (JStr (ww_kind w))) ws)))"

section \<open>Lemmas: geometry\<close>

definition at_least :: "rat \<Rightarrow> jsnum \<Rightarrow> bool" where
  "at_least lo v = (\<exists>q. v = Fin q \<and> lo \<le> q)"

lemma at_least_Fin [simp]: "at_least lo (Fin q) \<longleftrightarrow> lo \<le> q"
  by (simp add: at_least_def)

lemma at_least_fin: "at_least lo v \<Longrightarrow> is_fin v"
  by (auto simp: at_least_def)

definition placed :: "workspace_window \<Rightarrow> bool" where
  "placed w = (at_least 8 (ww_x w) \<and> at_least 48 (ww_y w) \<and> at_least 260 (ww_w w) \<and> at_least 180 (ww_h w) \<and> is_fin (ww_z w))"

definition fin_pt :: "pt \<Rightarrow> bool" where
  "fin_pt p = (is_fin (fst p) \<and> is_fin (snd p))"

definition fin_rect :: "view_rect \<Rightarrow> bool" where
  "fin_rect r = list_all is_fin [vw_left r, vw_right r, vw_top r, vw_bottom r, vw_width r, vw_height r]"

definition firm :: "grip \<Rightarrow> bool" where
  "firm g = (fin_pt (gr_pointer g) \<and> at_least 8 (gr_left g) \<and> at_least 48 (gr_top g) \<and> at_least 260 (gr_width g) \<and>
     at_least 180 (gr_height g) \<and> fin_pt (gr_pan g))"

lemma fin_ptE: "fin_pt p \<Longrightarrow> (\<And>x y. p = (Fin x, Fin y) \<Longrightarrow> thesis) \<Longrightarrow> thesis"
  by (cases p) (auto simp: fin_pt_def is_fin_conv)

lemma drag_position_bounds:
  assumes "firm g" "fin_pt p" "fin_pt pan"
  shows "at_least 8 (fst (drag_position g p pan)) \<and> at_least 48 (snd (drag_position g p pan))"
  using assms by (auto simp: firm_def drag_position_def at_least_def elim!: fin_ptE)

definition patch_ok :: "bounds_patch \<Rightarrow> bool" where
  "patch_ok p = ((\<forall>x. bp_x p = Some x \<longrightarrow> at_least 8 x) \<and> (\<forall>y. bp_y p = Some y \<longrightarrow> at_least 48 y) \<and>
     (\<forall>w. bp_w p = Some w \<longrightarrow> at_least 260 w) \<and> (\<forall>h. bp_h p = Some h \<longrightarrow> at_least 180 h))"

lemma towards_simps [simp]:
  "towards ''n'' d \<longleftrightarrow> d \<in> {Dir_n, Dir_ne, Dir_nw}" "towards ''e'' d \<longleftrightarrow> d \<in> {Dir_e, Dir_ne, Dir_se}"
  "towards ''s'' d \<longleftrightarrow> d \<in> {Dir_s, Dir_se, Dir_sw}" "towards ''w'' d \<longleftrightarrow> d \<in> {Dir_w, Dir_nw, Dir_sw}"
  by (cases d; simp add: towards_def)+

lemma resize_patch_ok:
  assumes "firm g" "fin_pt p" "fin_pt pan"
  shows "patch_ok (resize_patch d g p pan)"
  using assms
  by (cases d) (auto simp: firm_def resize_patch_def patch_ok_def Let_def at_least_def js_clamp_Fin elim!: fin_ptE)

lemma opt_or_cases: "(\<And>x. v = Some x \<Longrightarrow> P x) \<Longrightarrow> P d \<Longrightarrow> P (opt_or v d)"
  by (cases v) simp_all

lemma placed_resized:
  assumes "patch_ok b" "placed w"
  shows "placed (w\<lparr>ww_x := opt_or (bp_x b) (ww_x w), ww_y := opt_or (bp_y b) (ww_y w), ww_w := opt_or (bp_w b) (ww_w w),
    ww_h := opt_or (bp_h b) (ww_h w)\<rparr>)"
  using assms by (auto simp: placed_def patch_ok_def intro: opt_or_cases)

text \<open>A resize moves the edges it is towards and no other, and never below the least size.\<close>

theorem resize_moves_one_edge:
  fixes d g p pan w
  assumes "firm g" "fin_pt p" "fin_pt pan" "ww_id w = gr_id g"
    and "ww_x w = gr_left g" "ww_y w = gr_top g" "ww_w w = gr_width g" "ww_h w = gr_height g" "is_fin (ww_z w)"
  defines "r \<equiv> hd (resizeWindow (gr_id g) (resize_patch d g p pan) [w])"
  shows "placed r \<and> r\<lparr>ww_x := ww_x w, ww_y := ww_y w, ww_w := ww_w w, ww_h := ww_h w\<rparr> = w \<and>
    (\<not> towards ''w'' d \<longrightarrow> ww_x r = ww_x w) \<and> (\<not> towards ''n'' d \<longrightarrow> ww_y r = ww_y w) \<and>
    (\<not> towards ''e'' d \<longrightarrow> js_add (ww_x r) (ww_w r) = js_add (ww_x w) (ww_w w)) \<and>
    (\<not> towards ''s'' d \<longrightarrow> js_add (ww_y r) (ww_h r) = js_add (ww_y w) (ww_h w))"
proof -
  obtain x y ww h where q: "ww_x w = Fin x" "ww_y w = Fin y" "ww_w w = Fin ww" "ww_h w = Fin h"
      "8 \<le> x" "48 \<le> y" "260 \<le> ww" "180 \<le> h"
    using assms(1,5-8) by (auto simp: firm_def at_least_def)
  have "placed w" using q assms(9) by (simp add: placed_def)
  from placed_resized [OF resize_patch_ok [OF assms(1-3), of d] this]
  have "placed r" by (simp add: r_def resizeWindow_def on_window_def assms(4))
  moreover obtain px py gx gy bx by' where "p = (Fin px, Fin py)" "gr_pointer g = (Fin gx, Fin gy)" "pan = (Fin bx, Fin by')"
    using assms(1-3) by (auto simp: firm_def elim!: fin_ptE)
  moreover obtain ox oy where "gr_pan g = (Fin ox, Fin oy)" using assms(1) by (auto simp: firm_def elim!: fin_ptE)
  ultimately show ?thesis
    using q assms(4-8)
    by (cases d) (auto simp: r_def resizeWindow_def on_window_def resize_patch_def Let_def js_clamp_Fin)
qed

definition sample_window :: workspace_window where
  "sample_window = win ''charts'' (Fin 588) (Fin 58) (Fin 620) (Fin 430) (Fin 2) None"

theorem resize_moves_one_edge_witness:
  "placed (hd (resizeWindow ''charts-2'' (resize_patch Dir_nw (grip_of sample_window (Fin 600, Fin 60) (Fin 0, Fin 0)) (Fin 9000, Fin 9000) (Fin 0, Fin 0))
     [sample_window]))"
proof -
  have i: "jsnum_string (Fin 2) = ''2''" by code_simp
  have s: "ww_id sample_window = ''charts-2''" "ww_x sample_window = Fin 588" "ww_y sample_window = Fin 58"
    "ww_w sample_window = Fin 620" "ww_h sample_window = Fin 430" "ww_z sample_window = Fin 2"
    by (simp_all add: sample_window_def win_def i del: jsnum_string.simps)
  have "firm (grip_of sample_window (Fin 600, Fin 60) (Fin 0, Fin 0))" by (simp add: firm_def grip_of_def fin_pt_def s)
  from resize_moves_one_edge [OF this, of "(Fin 9000, Fin 9000)" "(Fin 0, Fin 0)" sample_window Dir_nw]
  show ?thesis by (simp add: fin_pt_def grip_of_def s)
qed

text \<open>The speed of an edge pan is 0, or between 6 and 78 pixels a frame towards the edge.\<close>

lemma speed_bounds:
  assumes "0 \<le> q"
  shows "\<exists>s. speedFromDepth (Fin q) = Fin s \<and> 6 \<le> s \<and> s \<le> 78"
proof -
  define t where "t = max 0 (min 1 (q / 150))"
  have "0 \<le> t" "t \<le> 1" by (auto simp: t_def)
  then have "t * t \<le> 1" "0 \<le> t * t" by (simp_all add: mult_le_one)
  moreover have "speedFromDepth (Fin q) = Fin (6 + t * t * 72)"
    by (simp add: speedFromDepth_def zones js_clamp_Fin t_def Let_def)
  ultimately show ?thesis by auto
qed

lemma edge_speed_bounds: "\<exists>s. edge_speed (Fin v) (Fin lo) (Fin hi) = Fin s \<and> (s = 0 \<or> 6 \<le> \<bar>s\<bar> \<and> \<bar>s\<bar> \<le> 78)"
proof -
  obtain e where e: "end_depth (Fin v) (Fin hi) = Fin e" by (cases "hi \<le> v") (auto simp: end_depth_def zones)
  obtain a where a: "start_depth (Fin v) (Fin lo) = Fin a" by (cases "v \<le> lo") (auto simp: start_depth_def zones)
  show ?thesis
    using speed_bounds [of e] speed_bounds [of a] by (auto simp: edge_speed_def e a)
qed

section \<open>Lemmas: the pan\<close>

lemma foldl_max_fin: "is_fin a \<Longrightarrow> \<forall>x \<in> set xs. is_fin (f x) \<Longrightarrow> is_fin (foldl (\<lambda>m x. js_max m (f x)) a xs)"
  by (induction xs arbitrary: a) (auto simp: is_fin_conv)

lemma placed_fin: "placed w \<Longrightarrow> is_fin (ww_x w) \<and> is_fin (ww_y w) \<and> is_fin (ww_w w) \<and> is_fin (ww_h w) \<and> is_fin (ww_z w)"
  by (auto simp: placed_def at_least_def)

lemma workspaceBounds_fin: "fin_pt v \<Longrightarrow> \<forall>w \<in> set ws. placed w \<Longrightarrow> fin_pt (workspaceBounds v ws)"
  by (auto simp: workspaceBounds_def fin_pt_def is_fin_js_add intro!: foldl_max_fin dest!: placed_fin)

definition view_size :: "desktop \<Rightarrow> pt" where
  "view_size d = (case getWorkspaceViewportRect (dk_main d) of None \<Rightarrow> dk_viewport d | Some r \<Rightarrow> (vw_width r, vw_height r))"

definition pan_limit :: "desktop \<Rightarrow> pt" where
  "pan_limit d =
     (let b = workspaceBounds (dk_viewport d) (dk_windows d)
      in (js_max (Fin 0) (js_sub (fst b) (fst (view_size d))), js_max (Fin 0) (js_sub (snd b) (snd (view_size d)))))"

lemma clamp_pan_limit: "clamp_pan d p = (js_clamp (fst p) (Fin 0) (fst (pan_limit d)), js_clamp (snd p) (Fin 0) (snd (pan_limit d)))"
  by (simp add: clamp_pan_def clampWorkspacePan_def pan_limit_def view_size_def Let_def split: option.splits)

definition in_span :: "jsnum \<Rightarrow> jsnum \<Rightarrow> bool" where
  "in_span v hi = (\<exists>q h. v = Fin q \<and> hi = Fin h \<and> 0 \<le> q \<and> q \<le> h)"

lemma js_clamp_span: "is_fin x \<Longrightarrow> at_least 0 hi \<Longrightarrow> in_span (js_clamp x (Fin 0) hi) hi"
  by (auto simp: in_span_def at_least_def is_fin_conv js_clamp_Fin)

text \<open>The state of the desktop that its handlers keep.\<close>

definition desk_ok :: "desktop \<Rightarrow> bool" where
  "desk_ok d = ((\<forall>w \<in> set (dk_windows d). placed w) \<and> at_least 0 (fst (dk_pan d)) \<and> at_least 0 (snd (dk_pan d)) \<and> fin_pt (dk_viewport d) \<and>
     (\<forall>r. dk_main d = Some r \<longrightarrow> fin_rect r) \<and> (\<forall>p. dk_edgePointer d = Some p \<longrightarrow> fin_pt p) \<and>
     (\<forall>dir g p. dk_grip d = Some (dir, g, p) \<longrightarrow> firm g \<and> fin_pt p))"

lemma view_size_fin: "desk_ok d \<Longrightarrow> fin_pt (view_size d)"
  by (cases "dk_main d")
    (auto simp: view_size_def desk_ok_def getWorkspaceViewportRect_def fin_rect_def fin_pt_def Let_def zones is_fin_conv)

lemma pan_limit_ok: "desk_ok d \<Longrightarrow> at_least 0 (fst (pan_limit d)) \<and> at_least 0 (snd (pan_limit d))"
proof -
  assume d: "desk_ok d"
  then have "fin_pt (workspaceBounds (dk_viewport d) (dk_windows d))" by (auto simp: desk_ok_def intro: workspaceBounds_fin)
  then show ?thesis using view_size_fin [OF d] by (auto simp: pan_limit_def Let_def elim!: fin_ptE)
qed

lemma clamp_pan_span:
  assumes "desk_ok d" "fin_pt p"
  shows "in_span (fst (clamp_pan d p)) (fst (pan_limit d)) \<and> in_span (snd (clamp_pan d p)) (snd (pan_limit d))"
  using assms pan_limit_ok [OF assms(1)] by (auto simp: clamp_pan_limit fin_pt_def intro!: js_clamp_span)

lemma span_at_least: "in_span v hi \<Longrightarrow> at_least 0 v"
  by (auto simp: in_span_def)

lemma desk_ok_pan: "desk_ok d \<Longrightarrow> fin_pt p \<Longrightarrow> desk_ok (d\<lparr>dk_pan := clamp_pan d p\<rparr>)"
  using clamp_pan_span [of d p] by (auto simp: desk_ok_def dest: span_at_least)

lemma desk_ok_fin_pan: "desk_ok d \<Longrightarrow> fin_pt (dk_pan d)"
  by (auto simp: desk_ok_def fin_pt_def dest: at_least_fin)

lemma desk_ok_panned: "desk_ok d \<Longrightarrow> is_fin dx \<Longrightarrow> is_fin dy \<Longrightarrow> desk_ok (fst (panWorkspaceBy dx dy d))"
  using desk_ok_pan [of d] desk_ok_fin_pan [of d] by (auto simp: panWorkspaceBy_def Let_def fin_pt_def is_fin_js_add)

lemma pan_limit_reclamp [simp]: "pan_limit (d\<lparr>dk_pan := p\<rparr>) = pan_limit d"
  by (simp add: pan_limit_def view_size_def split: option.splits)

section \<open>Lemmas: the handlers\<close>

lemma on_window_all: "\<forall>w \<in> set ws. P w \<Longrightarrow> (\<And>w. P w \<Longrightarrow> P (f w)) \<Longrightarrow> \<forall>w \<in> set (on_window i f ws). P w"
  by (auto simp: on_window_def)

lemma ids_on_window [simp]: "(\<And>w. ww_id (f w) = ww_id w) \<Longrightarrow> map ww_id (on_window i f ws) = map ww_id ws"
  by (simp add: on_window_def comp_def if_distrib cong: if_cong)

lemma maxZ_fin: "\<forall>w \<in> set ws. placed w \<Longrightarrow> is_fin (maxZ ws)"
  using js_max_list_fin [of "Fin 1 # map ww_z ws"] by (auto simp: maxZ_def placed_def)

lemma maxZ_ge: "\<forall>w \<in> set ws. placed w \<Longrightarrow> w \<in> set ws \<Longrightarrow> fin_val (ww_z w) \<le> fin_val (maxZ ws)"
  using js_max_list_fin [of "Fin 1 # map ww_z ws"] by (auto simp: maxZ_def placed_def)

lemma placed_bring: "\<forall>w \<in> set ws. placed w \<Longrightarrow> is_fin z \<Longrightarrow> \<forall>w \<in> set (bringForward z i ws). placed w"
  unfolding bringForward_def by (rule on_window_all) (auto simp: placed_def is_fin_js_add)

lemma placed_move:
  "\<forall>w \<in> set ws. placed w \<Longrightarrow> at_least 8 x \<Longrightarrow> at_least 48 y \<Longrightarrow> \<forall>w \<in> set (moveWindow i x y ws). placed w"
  unfolding moveWindow_def by (rule on_window_all) (auto simp: placed_def)

lemma placed_resize: "\<forall>w \<in> set ws. placed w \<Longrightarrow> patch_ok p \<Longrightarrow> \<forall>w \<in> set (resizeWindow i p ws). placed w"
  unfolding resizeWindow_def by (rule on_window_all) (auto intro: placed_resized)

lemma placed_default: "\<forall>w \<in> set (defaultWindows t). placed w"
  by (simp add: defaultWindows_def win_def placed_def)

lemma placed_clone: "\<forall>w \<in> set ws. placed w \<Longrightarrow> \<forall>w \<in> set (cloneWindow now i ws). placed w"
  using maxZ_fin [of ws]
  by (auto simp: cloneWindow_def Let_def find_Some_iff placed_def at_least_def is_fin_js_add split: option.splits)
    (metis nth_mem js_add.simps(1) js_max_Fin jsnum.inject max.cobounded1)+

lemma placed_add:
  assumes "\<forall>w \<in> set ws. placed w" "\<forall>w \<in> set rendered. placed w" "at_least 0 (fst pan)" "at_least 0 (snd pan)"
  shows "\<forall>w \<in> set (addWindow now stored rendered pan kind template pr sy ws). placed w"
proof -
  have seed: "placed s" if "List.find (\<lambda>item. ww_kind item = kind) (defaultWindows t) = Some s" for s t
    using placed_default [of t] that by (auto simp: find_Some_iff)
  have z: "is_fin (js_add (maxZ rendered) (Fin 1))" using maxZ_fin [OF assms(2)] by (simp add: is_fin_js_add)
  have fresh: "placed (win kind (Fin 80) (Fin 80) (Fin 520) (Fin 360) (js_add (maxZ rendered) (Fin 1)) template)"
    using z by (simp add: win_def placed_def)
  have new: "placed (b\<lparr>ww_id := i, ww_title := tt, ww_x := js_add (js_add (fst pan) (Fin 60)) (Fin (of_nat n * 34)),
      ww_y := js_add (js_add (snd pan) (Fin 70)) (Fin (of_nat n * 34)), ww_z := js_add (maxZ rendered) (Fin 1), ww_collapsed := False,
      ww_provider := pv, ww_symbol := sy, ww_depthLadderSettings := ds\<rparr>)" if "placed b" for b i tt n pv sy ds
    using that z assms(3,4) by (auto simp: placed_def at_least_def intro: add_nonneg_nonneg order_trans)
  show ?thesis
    using assms(1) seed fresh new by (auto simp: addWindow_def Let_def split: option.splits)
qed

lemma placed_settings:
  assumes "\<forall>w \<in> set ws. placed w"
  shows "\<forall>w \<in> set (toggleCollapse i ws). placed w" "\<forall>w \<in> set (closeWindow i ws). placed w"
    "\<forall>w \<in> set (selectWindowProduct i pr sy ws). placed w" "\<forall>w \<in> set (updateWindowChartSettings i cs ws). placed w"
    "\<forall>w \<in> set (updateWindowDepthLadderSettings i ds ws). placed w" "\<forall>w \<in> set (saveDepthLadderDefaultForWindow i ds ws). placed w"
  using assms
  by (auto simp: toggleCollapse_def closeWindow_def selectWindowProduct_def updateWindowChartSettings_def Let_def placed_def
      updateWindowDepthLadderSettings_def saveDepthLadderDefaultForWindow_def on_window_def split: option.splits)

lemma placed_load:
  assumes "\<forall>w \<in> set ws. placed w"
  shows "\<forall>w \<in> set (load_windows now ws). placed w"
proof -
  have a: "is_fin (above vs)" if "\<forall>w \<in> set vs. placed w" for vs
    using that foldl_max_fin [of "Fin 0" vs ww_z] by (simp add: above_def placed_def is_fin_js_add)
  have c: "\<forall>w \<in> set (with_chart now vs). placed w" if "\<forall>w \<in> set vs. placed w" for vs
    using that a [OF that] by (auto simp: with_chart_def win_def placed_def)
  have l: "\<forall>w \<in> set (with_ladder now vs). placed w" if "\<forall>w \<in> set vs. placed w" for vs
    using that a [OF that] by (auto simp: with_ladder_def win_def placed_def)
  have "\<forall>w \<in> set (with_ladder now (with_chart now (filter (\<lambda>w. \<not> isRemovedWindowKind (JStr (ww_kind w))) ws))). placed w"
    using assms by (intro l c) simp
  then show ?thesis by (simp add: load_windows_def as_loaded_def placed_def)
qed

fun event_fin :: "desk_event \<Rightarrow> bool" where
  "event_fin (Title_Down i p) = fin_pt p"
| "event_fin (Handle_Down dir i p) = fin_pt p"
| "event_fin (Pointer_Move p) = fin_pt p"
| "event_fin (Hover buttons p) = fin_pt p"
| "event_fin (Wheel alt shift over delta) = fin_pt delta"
| "event_fin (Viewport extent main) = (fin_pt extent \<and> (\<forall>r. main = Some r \<longrightarrow> fin_rect r))"
| "event_fin _ = True"

lemma desk_ok_update: "desk_ok d \<Longrightarrow> \<forall>w \<in> set (f (dk_windows d)). placed w \<Longrightarrow> desk_ok (update_windows f d)"
  by (simp add: desk_ok_def update_windows_def)

lemma desk_ok_stop: "desk_ok d \<Longrightarrow> desk_ok (stopWorkspaceEdgePan d)"
  by (simp add: desk_ok_def stopWorkspaceEdgePan_def)

lemma desk_ok_start: "desk_ok d \<Longrightarrow> fin_pt p \<Longrightarrow> desk_ok (startWorkspaceEdgePan (d\<lparr>dk_edgePointer := Some p\<rparr>))"
  by (simp add: desk_ok_def startWorkspaceEdgePan_def)

lemma desk_ok_frame [simp]: "desk_ok (d\<lparr>dk_panFrame := b\<rparr>) = desk_ok d"
  by (simp add: desk_ok_def)

lemma desk_ok_grip: "desk_ok d \<Longrightarrow> firm g \<Longrightarrow> fin_pt p \<Longrightarrow> desk_ok (d\<lparr>dk_grip := Some (dir, g, p)\<rparr>)"
  by (cases p) (simp add: desk_ok_def)

lemma desk_ok_hover: "desk_ok d \<Longrightarrow> fin_pt p \<Longrightarrow> desk_ok (handleWorkspacePointerMove b p d)"
  by (auto simp: handleWorkspacePointerMove_def intro: desk_ok_stop desk_ok_start split: option.splits)

lemma desk_ok_drag_pointer: "desk_ok d \<Longrightarrow> fin_pt p \<Longrightarrow> desk_ok (handleWindowDragPointerMove p d)"
  by (auto simp: handleWindowDragPointerMove_def Let_def intro: desk_ok_stop desk_ok_start)

lemma edge_speed_fin: "is_fin v \<Longrightarrow> is_fin lo \<Longrightarrow> is_fin hi \<Longrightarrow> is_fin (edge_speed v lo hi)"
  using edge_speed_bounds [of "fin_val v" "fin_val lo" "fin_val hi"] by (auto simp: is_fin_conv)

lemma desk_ok_edge_step: "desk_ok d \<Longrightarrow> desk_ok (stepWorkspaceEdgePan d)"
proof -
  assume d: "desk_ok d"
  show ?thesis
  proof (cases "dk_edgePointer d = None \<or> dk_main d = None")
    case True
    then show ?thesis using d by (auto simp: stepWorkspaceEdgePan_def split: option.splits)
  next
    case False
    then obtain p r where p: "dk_edgePointer d = Some p" "dk_main d = Some r" by auto
    obtain v where v: "getWorkspaceViewportRect (Some r) = Some v" by (simp add: getWorkspaceViewportRect_def)
    have "fin_pt p" "fin_rect r" using d p by (auto simp: desk_ok_def)
    then have "is_fin (fst p)" "is_fin (snd p)" "fin_rect v"
      using v by (auto simp: getWorkspaceViewportRect_def fin_rect_def fin_pt_def Let_def zones is_fin_conv)
    then have "is_fin (edge_speed (fst p) (vw_left v) (vw_right v))" "is_fin (edge_speed (snd p) (vw_top v) (vw_bottom v))"
      by (auto simp: fin_rect_def intro: edge_speed_fin)
    then show ?thesis using d desk_ok_stop [OF d] by (simp add: stepWorkspaceEdgePan_def p v Let_def desk_ok_panned)
  qed
qed

lemma desk_ok_gripped: "desk_ok d \<Longrightarrow> dk_grip d = Some (dir, g, p) \<Longrightarrow> firm g \<and> fin_pt p"
  by (cases p) (simp add: desk_ok_def)

lemma desk_ok_sync: "desk_ok d \<Longrightarrow> desk_ok (syncDrag d)"
proof -
  assume d: "desk_ok d"
  have "desk_ok (update_windows (moveWindow (gr_id g) (fst (drag_position g p (dk_pan d))) (snd (drag_position g p (dk_pan d)))) d)"
    if "firm g" "fin_pt p" for g p
  proof (rule desk_ok_update [OF d placed_move])
    show "\<forall>w \<in> set (dk_windows d). placed w" using d by (simp add: desk_ok_def)
  qed (use drag_position_bounds [OF that desk_ok_fin_pan [OF d]] in simp_all)
  then show ?thesis using d desk_ok_gripped [OF d]
    by (cases "dk_grip d") (fastforce simp: syncDrag_def case_prod_beta Let_def split: option.splits)+
qed

lemma desk_ok_take_grip:
  assumes "desk_ok d" "w \<in> set (dk_windows d)" "fin_pt p"
  shows "desk_ok (take_grip dir w p d)"
  unfolding take_grip_def
proof (rule desk_ok_grip [OF desk_ok_update [OF assms(1)] _ assms(3)])
  have "\<forall>w \<in> set (dk_windows d). placed w" using assms(1) by (simp add: desk_ok_def)
  then show "\<forall>w' \<in> set (bringForward (maxZ (dk_windows d)) (ww_id w) (dk_windows d)). placed w'"
    by (intro placed_bring maxZ_fin)
  show "firm (grip_of w p (dk_pan d))"
    using assms desk_ok_fin_pan [OF assms(1)] by (auto simp: firm_def grip_of_def desk_ok_def placed_def)
qed

lemma desk_ok_grip_move: "desk_ok d \<Longrightarrow> fin_pt p \<Longrightarrow> desk_ok (grip_move p d)"
proof -
  assume d: "desk_ok d" and p: "fin_pt p"
  have res: "desk_ok (update_windows (resizeWindow (gr_id g) (resize_patch dir g p (dk_pan d))) (handleWindowDragPointerMove p d))"
    if "firm g" for g dir
  proof (rule desk_ok_update [OF desk_ok_drag_pointer [OF d p]])
    show "\<forall>w \<in> set (resizeWindow (gr_id g) (resize_patch dir g p (dk_pan d)) (dk_windows (handleWindowDragPointerMove p d))). placed w"
      using desk_ok_drag_pointer [OF d p] resize_patch_ok [OF that p desk_ok_fin_pan [OF d]]
      by (intro placed_resize) (auto simp: desk_ok_def)
  qed
  show ?thesis
  proof (cases "dk_grip d")
    case (Some h)
    obtain dir g l where h: "dk_grip d = Some (dir, g, l)" using Some by (cases h) auto
    have g: "firm g" using desk_ok_gripped [OF d h] by simp
    have "desk_ok (handleWindowDragPointerMove p (d\<lparr>dk_grip := Some (None, g, p)\<rparr>))"
      by (intro desk_ok_drag_pointer desk_ok_grip d g p)
    then show ?thesis using res [OF g] by (cases dir) (simp_all add: grip_move_def h)
  qed (simp add: grip_move_def d)
qed

lemma desk_ok_with: "desk_ok d \<Longrightarrow> (\<And>w. w \<in> set (dk_windows d) \<Longrightarrow> desk_ok (f w d)) \<Longrightarrow> desk_ok (with_window i f d)"
  by (auto simp: with_window_def find_Some_iff split: option.splits)

lemma desk_ok_handle:
  assumes d: "desk_ok d" and e: "event_fin e"
  shows "desk_ok (desk_handle now stored e d)"
proof -
  have w: "\<forall>w \<in> set (dk_windows d). placed w" using d by (simp add: desk_ok_def)
  note upd = desk_ok_update [OF d]
  show ?thesis
  proof (cases e)
    case (Activate i)
    show ?thesis using placed_bring [OF w maxZ_fin [OF w]] by (simp add: Activate upd)
  next
    case (Title_Down i p)
    then show ?thesis using d e by (auto simp: startDrag_def intro!: desk_ok_with desk_ok_sync desk_ok_take_grip)
  next
    case (Handle_Down dir i p)
    then show ?thesis using d e by (auto simp: startResize_def intro!: desk_ok_with desk_ok_take_grip)
  next
    case Pointer_Up
    then show ?thesis using d desk_ok_stop [of "d\<lparr>dk_grip := None\<rparr>"] by (auto simp: grip_up_def desk_ok_def split: option.splits)
  next
    case (Wheel alt shift over delta)
    then show ?thesis using d e by (auto simp: handleWorkspaceWheel_def Let_def fin_pt_def intro!: desk_ok_panned)
  next
    case (Add_Window kind template pv sy)
    have "at_least 0 (fst (dk_pan d))" "at_least 0 (snd (dk_pan d))" using d by (simp_all add: desk_ok_def)
    from placed_add [OF w w this] show ?thesis by (simp add: Add_Window upd)
  next
    case (Viewport extent main)
    then show ?thesis using d e by (auto simp: desk_ok_def)
  qed (use d e placed_clone [OF w] placed_settings [OF w] in
      \<open>simp_all add: upd desk_ok_sync desk_ok_grip_move desk_ok_hover desk_ok_edge_step\<close>)
qed

lemma desk_ok_step: "desk_ok d \<Longrightarrow> event_fin e \<Longrightarrow> desk_ok (desk_step now stored e d)"
  unfolding desk_step_def reclamp_def by (intro desk_ok_pan desk_ok_handle desk_ok_fin_pan)

section \<open>Lemmas: identifiers\<close>

definition plain :: "string \<Rightarrow> bool" where
  "plain k = (CHR ''-'' \<notin> set k)"

text \<open>The identifiers issued up to time \<open>t\<close>.\<close>

definition STAMPS :: "string set" where
  "STAMPS = {'''', ''clone-'', ''migrated-'', ''ladder-migrated-''}"

definition issued :: "rat \<Rightarrow> string \<Rightarrow> bool" where
  "issued t i = (\<exists>k p s. i = k @ ''-'' @ p @ rat_string s \<and> plain k \<and> p \<in> STAMPS \<and> is_decimal s \<and> s \<le> t)"

lemma issued_mono: "issued t i \<Longrightarrow> t \<le> u \<Longrightarrow> issued u i"
  unfolding issued_def by (elim exE conjE) (intro exI conjI, assumption+, linarith)

lemma letter_stamp: "is_decimal s \<Longrightarrow> \<not> num_char c \<Longrightarrow> c # r \<noteq> rat_string s"
  using rat_string_chars [of s] by (cases "rat_string s") auto

lemma label_stamp_inj:
  assumes "p \<in> STAMPS" "p' \<in> STAMPS" "is_decimal s" "is_decimal s'" "p @ rat_string s = p' @ rat_string s'"
  shows "rat_string s = rat_string s'"
proof -
  have n: "\<not> num_char CHR ''c''" "\<not> num_char CHR ''m''" "\<not> num_char CHR ''l''" by code_simp+
  note letter = letter_stamp [OF assms(3)] letter_stamp [OF assms(4)]
  show ?thesis
    using assms(1,2,5) letter [OF n(1)] letter [OF n(2)] letter [OF n(3)] by (auto simp: STAMPS_def dest: sym)
qed

lemma dash_split: "plain k \<Longrightarrow> plain k' \<Longrightarrow> k @ ''-'' @ r = k' @ ''-'' @ r' \<longleftrightarrow> k = k' \<and> r = r'"
proof -
  assume p: "plain k" "plain k'"
  have t: "takeWhile (\<lambda>c. c \<noteq> CHR ''-'') (x @ ''-'' @ y) = x" if "plain x" for x y :: string
    using that by (induction x) (auto simp: plain_def)
  show ?thesis using t [OF p(1), of r] t [OF p(2), of r'] by auto
qed

lemma fresh_id:
  assumes "issued t i" "plain k" "p \<in> STAMPS" "is_decimal now" "t < now"
  shows "i \<noteq> k @ ''-'' @ p @ rat_string now"
proof
  assume i: "i = k @ ''-'' @ p @ rat_string now"
  obtain k' p' s where s: "i = k' @ ''-'' @ p' @ rat_string s" "plain k'" "p' \<in> STAMPS" "is_decimal s" "s \<le> t"
    using assms(1) by (auto simp: issued_def)
  have "p @ rat_string now = p' @ rat_string s" using i s(1) dash_split [OF assms(2) s(2)] by metis
  then have "rat_string now = rat_string s" by (rule label_stamp_inj [OF assms(3) s(3) assms(4) s(4)])
  then show False using rat_string_inj [OF assms(4) s(4)] s(5) assms(5) by simp
qed

definition named :: "rat \<Rightarrow> workspace_window list \<Rightarrow> bool" where
  "named t ws = (distinct (map ww_id ws) \<and> (\<forall>w \<in> set ws. issued t (ww_id w) \<and> plain (ww_kind w)))"

definition keeps_names :: "(workspace_window \<Rightarrow> workspace_window) \<Rightarrow> bool" where
  "keeps_names f = (\<forall>w. ww_id (f w) = ww_id w \<and> ww_kind (f w) = ww_kind w)"

lemma named_mono: "named t ws \<Longrightarrow> t \<le> u \<Longrightarrow> named u ws"
  unfolding named_def by (meson issued_mono)

lemma named_map: "named t ws \<Longrightarrow> keeps_names f \<Longrightarrow> named t (map f ws)"
  by (simp add: named_def keeps_names_def comp_def)

lemma named_on_window: "named t ws \<Longrightarrow> keeps_names f \<Longrightarrow> named t (on_window i f ws)"
  unfolding on_window_def by (rule named_map) (simp_all add: keeps_names_def)

lemma named_close: "named t ws \<Longrightarrow> named t (closeWindow i ws)"
  by (auto simp: named_def closeWindow_def distinct_map inj_on_def)

lemma named_snoc:
  assumes "named t ws" "t < now" "is_decimal now" "plain (ww_kind w)" "plain k" "p \<in> STAMPS"
    and "ww_id w = k @ ''-'' @ p @ rat_string now"
  shows "named now (ws @ [w])"
proof -
  have "ww_id v \<noteq> ww_id w" if "v \<in> set ws" for v
    using assms(1) that fresh_id [OF _ assms(5,6,3,2)] unfolding assms(7) named_def by blast
  then have "ww_id w \<notin> ww_id ` set ws" by force
  moreover have "issued now (ww_id w)" using assms by (auto simp: issued_def)
  ultimately show ?thesis using named_mono [OF assms(1), of now] assms by (auto simp: named_def)
qed

lemma named_clone: "named t ws \<Longrightarrow> t < now \<Longrightarrow> is_decimal now \<Longrightarrow> named now (cloneWindow now i ws)"
  by (auto simp: cloneWindow_def Let_def find_Some_iff STAMPS_def intro: named_mono split: option.splits intro!: named_snoc [where p = "''clone-''"])
    (auto simp: named_def)

lemma add_window_new:
  "\<exists>w. addWindow now stored rendered pan kind template pv sy ws = ws @ [w] \<and> ww_id w = kind @ ''-'' @ rat_string now \<and> ww_kind w = kind"
  by (auto simp: addWindow_def Let_def find_Some_iff win_def split: option.splits)

lemma named_add:
  assumes "named t ws" "t < now" "is_decimal now" "plain kind"
  shows "named now (addWindow now stored rendered pan kind template pv sy ws)"
proof -
  obtain w where "addWindow now stored rendered pan kind template pv sy ws = ws @ [w]"
      "ww_id w = kind @ ''-'' @ rat_string now" "ww_kind w = kind"
    using add_window_new by blast
  then show ?thesis using named_snoc [OF assms(1-3), of w kind "''''"] assms(4) by (simp add: STAMPS_def)
qed

lemma labelled_plain: "kind \<in> fst ` set WINDOW_LABELS \<Longrightarrow> plain kind"
proof -
  have "list_all (\<lambda>(k, _). plain k) WINDOW_LABELS" by code_simp
  then show "kind \<in> fst ` set WINDOW_LABELS \<Longrightarrow> plain kind" by (auto simp: list_all_iff)
qed

lemma named_default: "named 14 (defaultWindows t)"
proof -
  have "distinct (map ww_id (defaultWindows t)) \<and> list_all (\<lambda>w. plain (ww_kind w) \<and> (\<exists>z \<in> set [1, 2, 3, 4, 5, 6, 11, 12, 13, 14].
      ww_id w = ww_kind w @ ''-'' @ rat_string z)) (defaultWindows t)"
    unfolding defaultWindows_def by code_simp
  moreover have "\<forall>z \<in> set [1, 2, 3, 4, 5, 6, 11, 12, 13, 14]. is_decimal z \<and> z \<le> 14" by code_simp
  ultimately show ?thesis unfolding named_def issued_def list_all_iff STAMPS_def by (metis append_Nil insertI1)
qed

section \<open>The desktop\<close>

definition event_ok :: "desk_event \<Rightarrow> bool" where
  "event_ok e = (event_fin e \<and> (case e of Add_Window kind template pv sy \<Rightarrow> kind \<in> fst ` set WINDOW_LABELS | _ \<Rightarrow> True))"

lemma named_grip: "named t (dk_windows d) \<Longrightarrow> named t (dk_windows (take_grip dir w p d))"
  by (simp add: take_grip_def update_windows_def bringForward_def named_on_window keeps_names_def)

lemma windows_pan [simp]:
  "dk_windows (fst (panWorkspaceBy dx dy d)) = dk_windows d" "dk_windows (stopWorkspaceEdgePan d) = dk_windows d"
  "dk_windows (startWorkspaceEdgePan d) = dk_windows d" "dk_windows (handleWindowDragPointerMove p d) = dk_windows d"
  "dk_windows (handleWorkspacePointerMove b p d) = dk_windows d" "dk_windows (stepWorkspaceEdgePan d) = dk_windows d"
  "dk_windows (reclamp d) = dk_windows d" "dk_windows (handleWorkspaceWheel x y z q d) = dk_windows d"
  by (simp_all add: panWorkspaceBy_def stopWorkspaceEdgePan_def startWorkspaceEdgePan_def handleWindowDragPointerMove_def
      handleWorkspacePointerMove_def stepWorkspaceEdgePan_def reclamp_def handleWorkspaceWheel_def Let_def split: option.splits)

lemma named_sync: "named t (dk_windows d) \<Longrightarrow> named t (dk_windows (syncDrag d))"
  by (auto simp: syncDrag_def update_windows_def moveWindow_def case_prod_beta keeps_names_def intro: named_on_window split: option.splits)

lemma named_grip_move: "named t (dk_windows d) \<Longrightarrow> named t (dk_windows (grip_move p d))"
  by (auto simp: grip_move_def update_windows_def resizeWindow_def keeps_names_def intro: named_on_window split: option.splits)

lemma named_with: "named t (dk_windows d) \<Longrightarrow> (\<And>w. named t (dk_windows (f w d))) \<Longrightarrow> named t (dk_windows (with_window i f d))"
  by (simp add: with_window_def split: option.splits)

lemma named_step:
  assumes n: "named t (dk_windows d)" and e: "event_ok e" and now: "t < now" "is_decimal now"
  shows "named now (dk_windows (desk_step now stored e d))"
proof -
  note later = named_mono [OF _ less_imp_le [OF now(1)]]
  have "named now (dk_windows (desk_handle now stored e d))"
  proof (cases e)
    case (Title_Down i p)
    then show ?thesis by (auto simp: startDrag_def intro!: later named_with named_sync named_grip n)
  next
    case (Handle_Down dir i p)
    then show ?thesis by (auto simp: startResize_def intro!: later named_with named_grip n)
  next
    case Pointer_Up
    then show ?thesis by (auto simp: grip_up_def intro!: later n split: option.splits)
  next
    case (Add_Window kind template pv sy)
    then show ?thesis using e named_add [OF n now labelled_plain] by (simp add: event_ok_def update_windows_def)
  next
    case (Clone i)
    then show ?thesis using named_clone [OF n now] by (simp add: update_windows_def)
  next
    case (Ladder i st)
    then show ?thesis
      by (auto simp: update_windows_def updateWindowDepthLadderSettings_def Let_def keeps_names_def intro!: later n named_on_window split: option.splits)
  next
    case (Ladder_Default i st)
    then show ?thesis
      by (auto simp: update_windows_def saveDepthLadderDefaultForWindow_def Let_def keeps_names_def intro!: later n named_map)
  qed (auto simp: update_windows_def bringForward_def toggleCollapse_def selectWindowProduct_def updateWindowChartSettings_def
      keeps_names_def intro!: later n named_on_window named_sync named_grip_move named_close)
  then show ?thesis by (simp add: desk_step_def)
qed

text \<open>Loading keeps the names: the added windows are stamped with the time of the load.\<close>

lemma named_with_chart: "named t ws \<Longrightarrow> t < now \<Longrightarrow> is_decimal now \<Longrightarrow>
    named now (with_chart now ws) \<and> (\<forall>w \<in> set (with_chart now ws). w \<in> set ws \<or> ww_id w = ''charts-migrated-'' @ rat_string now)"
  by (auto simp: with_chart_def win_def STAMPS_def plain_def intro: named_mono
      intro!: named_snoc [where p = "''migrated-''" and k = "''charts''"])

lemma ladder_fresh:
  assumes "named t ws" "t < now" "is_decimal now"
    and "\<forall>w \<in> set ws'. w \<in> set ws \<or> ww_id w = ''charts-migrated-'' @ rat_string now"
  shows "\<forall>w \<in> set ws'. ww_id w \<noteq> ''depth-ladder-migrated-'' @ rat_string now"
proof
  fix w assume w: "w \<in> set ws'"
  have "ww_id w \<noteq> ''depth'' @ ''-'' @ ''ladder-migrated-'' @ rat_string now" if "w \<in> set ws"
    using assms(1-3) that by (intro fresh_id [of t]) (auto simp: named_def plain_def STAMPS_def)
  then show "ww_id w \<noteq> ''depth-ladder-migrated-'' @ rat_string now" using assms(4) w by auto
qed

lemma named_load:
  assumes n: "named t ws" and now: "t < now" "is_decimal now"
  shows "named now (load_windows now ws)"
proof -
  let ?kept = "filter (\<lambda>w. \<not> isRemovedWindowKind (JStr (ww_kind w))) ws"
  let ?ws = "with_chart now ?kept"
  have k: "named t ?kept" using n by (auto simp: named_def distinct_map inj_on_def)
  note c = named_with_chart [OF k now]
  have "issued now (''depth-ladder-migrated-'' @ rat_string now)"
    unfolding issued_def using now
    by (intro exI [of _ "''depth''"] exI [of _ "''ladder-migrated-''"] exI [of _ now]) (simp add: plain_def STAMPS_def)
  then have "named now (with_ladder now ?ws)"
    using c ladder_fresh [OF k now conjunct2 [OF c]] by (auto simp: with_ladder_def win_def named_def plain_def)
  then show ?thesis by (simp add: load_windows_def named_def as_loaded_def comp_def)
qed

definition opened_desk :: "pt \<Rightarrow> view_rect option \<Rightarrow> workspace_window list \<Rightarrow> desktop" where
  "opened_desk viewport main ws =
     \<lparr>dk_windows = ws, dk_pan = (Fin 0, Fin 0), dk_viewport = viewport, dk_main = main,
      dk_edgePointer = None, dk_panFrame = False, dk_grip = None\<rparr>"

text \<open>
  The desktops that sessions can reach, with the window lists that were saved.  A saved list is loaded into
  a session or opens the next one, and lists come from the recovery server, laid out as this code lays them
  out.  \<open>t\<close> is the last time that went into an identifier, and the flag says that every such time was later
  than the one before and that no recovered list broke the rule; the clock may do anything.
\<close>

fun stamps :: "desk_event \<Rightarrow> bool" where
  "stamps (Clone i) = True"
| "stamps (Add_Window kind template pv sy) = True"
| "stamps _ = False"

inductive desk_reach :: "bool \<Rightarrow> rat \<Rightarrow> workspace_window list list \<Rightarrow> desktop \<Rightarrow> bool" where
  opened: "fin_pt viewport \<Longrightarrow> (\<forall>r. main = Some r \<longrightarrow> fin_rect r) \<Longrightarrow>
    desk_reach True 14 [] (reclamp (opened_desk viewport main (defaultWindows ''cme'')))"
| event: "desk_reach c t kept d \<Longrightarrow> event_ok e \<Longrightarrow> is_decimal now \<Longrightarrow>
    desk_reach (c \<and> (stamps e \<longrightarrow> t < now)) (if stamps e then now else t) kept (desk_step now stored e d)"
| saved: "desk_reach c t kept d \<Longrightarrow> desk_reach c t (dk_windows d # kept) d"
| recovered: "desk_reach c t kept d \<Longrightarrow> (\<forall>w \<in> set ws. placed w) \<Longrightarrow> desk_reach (c \<and> named t ws) t (ws # kept) d"
| loaded: "desk_reach c t kept d \<Longrightarrow> ws \<in> set kept \<Longrightarrow> is_decimal now \<Longrightarrow>
    desk_reach (c \<and> t < now) now kept (reclamp (d\<lparr>dk_windows := load_windows now ws\<rparr>))"
| reopened: "desk_reach c t kept d \<Longrightarrow> ws \<in> set kept \<Longrightarrow> is_decimal now \<Longrightarrow> fin_pt viewport \<Longrightarrow> (\<forall>r. main = Some r \<longrightarrow> fin_rect r) \<Longrightarrow>
    desk_reach (c \<and> t < now) now kept (reclamp (opened_desk viewport main (load_windows now ws)))"

lemma opened_ok: "fin_pt viewport \<Longrightarrow> (\<forall>r. main = Some r \<longrightarrow> fin_rect r) \<Longrightarrow> \<forall>w \<in> set ws. placed w \<Longrightarrow> desk_ok (opened_desk viewport main ws)"
  by (auto simp: opened_desk_def desk_ok_def)

lemma reclamp_span: "desk_ok d \<Longrightarrow> in_span (fst (dk_pan (reclamp d))) (fst (pan_limit (reclamp d))) \<and>
    in_span (snd (dk_pan (reclamp d))) (snd (pan_limit (reclamp d)))"
  using clamp_pan_span [OF _ desk_ok_fin_pan] by (simp add: reclamp_def)

definition in_view :: "desktop \<Rightarrow> bool" where
  "in_view d = (desk_ok d \<and> in_span (fst (dk_pan d)) (fst (pan_limit d)) \<and> in_span (snd (dk_pan d)) (snd (pan_limit d)))"

lemma reclamp_view: "desk_ok d \<Longrightarrow> in_view (reclamp d)"
  using reclamp_span [of d] desk_ok_pan [OF _ desk_ok_fin_pan] by (simp add: in_view_def reclamp_def)

lemma reach_view: "desk_reach c t kept d \<Longrightarrow> in_view d \<and> (\<forall>ws \<in> set kept. \<forall>w \<in> set ws. placed w)"
proof (induction rule: desk_reach.induct)
  case (opened viewport main)
  then show ?case using placed_default by (auto intro!: reclamp_view opened_ok)
next
  case (event c t kept d e now stored)
  then have "event_fin e" by (simp add: event_ok_def)
  with event.IH show ?case
    unfolding desk_step_def by (auto simp: in_view_def [of d] intro!: reclamp_view desk_ok_handle)
next
  case (loaded c t kept d ws now)
  then have "desk_ok (d\<lparr>dk_windows := load_windows now ws\<rparr>)" using placed_load by (auto simp: in_view_def desk_ok_def)
  then show ?case using loaded.IH reclamp_view by blast
next
  case (reopened c t kept d ws now viewport main)
  then show ?case using placed_load by (auto intro!: reclamp_view opened_ok)
qed (auto simp: in_view_def desk_ok_def)

lemma named_untimed: "named t (dk_windows d) \<Longrightarrow> event_ok e \<Longrightarrow> \<not> stamps e \<Longrightarrow> named t (dk_windows (desk_step now stored e d))"
  by (cases e) (auto simp: desk_step_def startDrag_def startResize_def grip_up_def update_windows_def bringForward_def toggleCollapse_def
      selectWindowProduct_def updateWindowChartSettings_def updateWindowDepthLadderSettings_def saveDepthLadderDefaultForWindow_def
      Let_def keeps_names_def intro!: named_with named_sync named_grip named_grip_move named_on_window named_map named_close
      split: option.splits)

lemma reach_named: "desk_reach c t kept d \<Longrightarrow> c \<Longrightarrow> named t (dk_windows d) \<and> (\<forall>ws \<in> set kept. named t ws)"
proof (induction rule: desk_reach.induct)
  case (event c t kept d e now stored)
  then show ?case
    using named_step [of t d e now stored] named_untimed [of t d e now stored] named_mono [of t _ now] by (auto simp: less_imp_le)
next
  case (loaded c t kept d ws now)
  then show ?case using named_load [of t ws now] named_mono [of t _ now] by (auto simp: less_imp_le)
next
  case (reopened c t kept d ws now viewport main)
  then show ?case using named_load [of t ws now] named_mono [of t _ now] by (auto simp: less_imp_le opened_desk_def)
qed (use named_default in \<open>auto simp: opened_desk_def\<close>)


text \<open>Two clones at one time share an identifier.\<close>

lemma clones_collide:
  assumes "List.find (\<lambda>w. ww_id w = i) ws = Some w"
  shows "\<not> distinct (map ww_id (cloneWindow now i (cloneWindow now i ws)))"
proof -
  have again: "List.find (\<lambda>w. ww_id w = i) (ws @ vs) = Some w" for vs
    using assms by (induction ws) (auto split: if_splits)
  show ?thesis using assms again by (simp add: cloneWindow_def Let_def)
qed

text \<open>Activating a window puts it, and it alone, on top.\<close>

theorem activated_on_top:
  fixes t now stored d w kept
  assumes "desk_reach True t kept d" "w \<in> set (dk_windows d)"
  defines "after \<equiv> dk_windows (desk_step now stored (Activate (ww_id w)) d)"
  shows "\<exists>w' \<in> set after. ww_id w' = ww_id w \<and> w'\<lparr>ww_z := ww_z w\<rparr> = w \<and> ww_z w' = maxZ after \<and>
    (\<forall>v \<in> set after - {w'}. v \<in> set (dk_windows d) \<and> js_lt (ww_z v) (ww_z w'))"
proof -
  let ?ws = "dk_windows d"
  let ?w = "w\<lparr>ww_z := js_add (maxZ ?ws) (Fin 1)\<rparr>"
  have ok: "\<forall>w \<in> set ?ws. placed w" and dist: "distinct (map ww_id ?ws)"
    using reach_view [OF assms(1)] reach_named [OF assms(1)] by (simp_all add: in_view_def desk_ok_def named_def)
  have after: "after = bringForward (maxZ ?ws) (ww_id w) ?ws" by (simp add: after_def desk_step_def update_windows_def)
  have same: "v = w" if "v \<in> set ?ws" "ww_id v = ww_id w" for v using dist assms(2) that by (auto simp: distinct_map inj_on_def)
  have "after = map (\<lambda>v. if v = w then ?w else v) ?ws"
    unfolding after bringForward_def on_window_def by (rule map_cong [OF refl]) (metis same)
  then have set: "set after = insert ?w (set ?ws - {w})" using assms(2) by auto
  obtain m where m: "maxZ ?ws = Fin m" using maxZ_fin [OF ok] by (auto simp: is_fin_conv)
  have le: "\<exists>q. ww_z v = Fin q \<and> q \<le> m" if "v \<in> set ?ws" for v
    using maxZ_ge [OF ok that] ok that m by (cases "ww_z v") (auto simp: placed_def)
  have lt: "js_lt (ww_z v) (Fin (m + 1))" if "v \<in> set ?ws" for v using le [OF that] by auto
  have fin: "\<forall>x \<in> set (Fin 1 # map ww_z after). is_fin x" using ok m by (auto simp: set placed_def)
  have "1 \<le> m" using js_max_list_fin [of "Fin 1 # map ww_z ?ws"] ok m by (auto simp: maxZ_def placed_def)
  moreover have "fin_val (ww_z v) \<le> m + 1" if "v \<in> set ?ws" for v using le [OF that] by auto
  ultimately have "\<forall>q \<in> fin_val ` set (Fin 1 # map ww_z after). q \<le> m + 1" by (simp add: set m)
  moreover have "m + 1 \<in> fin_val ` set (Fin 1 # map ww_z after)" by (simp add: set m)
  ultimately have "Max (fin_val ` set (Fin 1 # map ww_z after)) = m + 1" by (intro Max_eqI) blast+
  then have "maxZ after = Fin (m + 1)" using js_max_list_fin [OF _ fin] by (simp add: maxZ_def)
  then show ?thesis using lt m by (intro bexI [of _ ?w]) (auto simp: set)
qed

definition sample_desk :: desktop where
  "sample_desk = reclamp (opened_desk (Fin 1280, Fin 720) None (defaultWindows ''cme''))"

lemma sample_desk_reach: "desk_reach True 14 [] sample_desk"
  unfolding sample_desk_def by (rule desk_reach.opened) (simp_all add: fin_pt_def)




theorem activated_on_top_witness:
  "let after = dk_windows (desk_step 20 DEFAULT_DEPTH_LADDER_SETTINGS (Activate ''charts-2'') sample_desk)
   in \<exists>w' \<in> set after. ww_id w' = ''charts-2'' \<and> (\<forall>v \<in> set after - {w'}. js_lt (ww_z v) (ww_z w'))"
proof -
  have i: "ww_id sample_window = ''charts-2''" by code_simp
  have "sample_window \<in> set (dk_windows sample_desk)"
    by (simp add: sample_desk_def opened_desk_def defaultWindows_def sample_window_def)
  from activated_on_top [OF sample_desk_reach this, of 20 DEFAULT_DEPTH_LADDER_SETTINGS] show ?thesis
    unfolding i Let_def by blast
qed

end
