(* ===== verification/Workspace.thy ===== *)
theory Workspace
  imports Windows
begin

text \<open>
  Saved workspaces, \<open>components/WorkspaceDesktop.tsx\<close>: what is read from browser storage and repaired,
  the named workspaces, the backups, and the session that saves, loads, autosaves and merges the
  workspaces the server recovered.  A key of the storage is a slot that is missing, holds a text that does
  not parse, or the value it parses to; the windows and rows of a workspace are kept as the untyped values
  they are.
\<close>

section \<open>Storage\<close>

datatype slot = Missing | Garbled | Holds jsval

text \<open>
  \<open>JSON.parse(JSON.stringify(v))\<close>: absent properties go, absent elements and numbers that are not finite
  become \<open>null\<close>.
\<close>

fun json :: "jsval \<Rightarrow> jsval" and json_fields :: "(string \<times> jsval) list \<Rightarrow> (string \<times> jsval) list" and json_items :: "jsval list \<Rightarrow> jsval list" where
  "json (JNum x) = (if is_fin x then JNum x else JNull)"
| "json (JArr vs) = JArr (json_items vs)"
| "json (JObj ps) = JObj (json_fields ps)"
| "json v = v"
| "json_fields [] = []"
| "json_fields ((k, v) # ps) = (if v = JUndef then json_fields ps else (k, json v) # json_fields ps)"
| "json_items [] = []"
| "json_items (v # vs) = (if v = JUndef then JNull else json v) # json_items vs"

definition stored :: "jsval \<Rightarrow> slot" where
  "stored v = Holds (json v)"

record browser_storage =
  st_active :: slot
  st_names :: slot
  st_default :: slot
  st_backups :: slot
  st_manager :: slot
  st_ladder :: slot
  st_library :: "jsval option"
  st_token :: string

definition loadDepthLadderDefaultSettings :: "browser_storage \<Rightarrow> depth_settings" where
  "loadDepthLadderDefaultSettings st =
     (case st_ladder st of
        Missing \<Rightarrow> normalizeDepthLadderSettings JUndef
      | Garbled \<Rightarrow> DEFAULT_DEPTH_LADDER_SETTINGS
      | Holds v \<Rightarrow> normalizeDepthLadderSettings v)"

definition saveDepthLadderDefaultSettings :: "depth_settings \<Rightarrow> browser_storage \<Rightarrow> browser_storage \<times> depth_settings" where
  "saveDepthLadderDefaultSettings settings st =
     (let normalized = normalizeDepthLadderSettings (depth_value settings)
      in (st\<lparr>st_ladder := stored (depth_value normalized)\<rparr>, normalized))"

definition loadAlgoManagerWorkspaceState :: "rat \<Rightarrow> browser_storage \<Rightarrow> manager_state" where
  "loadAlgoManagerWorkspaceState now st =
     (case st_manager st of
        Missing \<Rightarrow> normalizeAlgoManagerWorkspaceState now (JObj [])
      | Garbled \<Rightarrow> normalizeAlgoManagerWorkspaceState now JNull
      | Holds v \<Rightarrow> normalizeAlgoManagerWorkspaceState now v)"

definition saveAlgoManagerWorkspaceState :: "rat \<Rightarrow> manager_state \<Rightarrow> browser_storage \<Rightarrow> browser_storage" where
  "saveAlgoManagerWorkspaceState now next st =
     st\<lparr>st_manager := stored (manager_value (normalizeAlgoManagerWorkspaceState now (manager_value next)))\<rparr>"

section \<open>Workspaces\<close>

record saved_workspace =
  sw_name :: string
  sw_operator :: string
  sw_windows :: "jsval list"
  sw_rows :: "jsval list"
  sw_alerts :: "alert_rule list"
  sw_algoLibrary :: "algo_def list option"
  sw_algoManager :: "manager_state option"
  sw_selectedProvider :: string
  sw_selectedSymbol :: jsval
  sw_updatedAt :: jsnum
  sw_recoveredFrom :: jsval
  sw_serverFile :: jsval

definition workspace_value :: "saved_workspace \<Rightarrow> jsval" where
  "workspace_value w = JObj
     [(''name'', JStr (sw_name w)), (''operator'', JStr (sw_operator w)), (''windows'', JArr (sw_windows w)),
      (''rows'', JArr (sw_rows w)), (''alerts'', JArr (map alert_value (sw_alerts w))),
      (''algoLibrary'', case sw_algoLibrary w of None \<Rightarrow> JUndef | Some as \<Rightarrow> JArr (map algo_value as)),
      (''algoManager'', case sw_algoManager w of None \<Rightarrow> JUndef | Some m \<Rightarrow> manager_value m),
      (''selectedProvider'', JStr (sw_selectedProvider w)), (''selectedSymbol'', sw_selectedSymbol w),
      (''updatedAt'', JNum (sw_updatedAt w)), (''recoveredFrom'', sw_recoveredFrom w), (''serverFile'', sw_serverFile w)]"

text \<open>A window of the default layout as a value; its other properties are absent.\<close>

definition window_value :: "workspace_window \<Rightarrow> jsval" where
  "window_value w = JObj
     ([(''id'', JStr (ww_id w)), (''kind'', JStr (ww_kind w)), (''title'', JStr (ww_title w)), (''x'', JNum (ww_x w)),
       (''y'', JNum (ww_y w)), (''w'', JNum (ww_w w)), (''h'', JNum (ww_h w)), (''z'', JNum (ww_z w)),
       (''collapsed'', JBool (ww_collapsed w))] @
      (case ww_provider w of None \<Rightarrow> [] | Some p \<Rightarrow> [(''provider'', JStr p)]) @
      (case ww_symbol w of None \<Rightarrow> [] | Some s \<Rightarrow> [(''symbol'', JStr s)]))"

definition kind_in :: "string list \<Rightarrow> jsval \<Rightarrow> bool" where
  "kind_in kinds item = (case js_get item ''kind'' of JStr k \<Rightarrow> k \<in> set kinds | _ \<Rightarrow> False)"

definition next_z :: "jsval list \<Rightarrow> jsnum" where
  "next_z windows = js_add (foldl (\<lambda>m item. js_max m (js_num (js_get item ''z''))) (Fin 0) windows) (Fin 1)"

definition ensureLegacyChartWindows :: "rat \<Rightarrow> jsval list \<Rightarrow> jsval list" where
  "ensureLegacyChartWindows now windows =
     (if list_ex (kind_in [''charts'', ''relativeSpreadCharts'']) windows then windows
      else windows @ [window_value ((win ''charts'' (Fin 588) (Fin 58) (Fin 620) (Fin 430) (next_z windows) None)
        \<lparr>ww_id := ''charts-migrated-'' @ jsnum_string (Fin now)\<rparr>)])"

definition ensureFuturesDepthLadderWindow :: "rat \<Rightarrow> jsval list \<Rightarrow> jsval list" where
  "ensureFuturesDepthLadderWindow now windows =
     (if list_ex (kind_in [''depthLadder'']) windows then windows
      else windows @ [window_value ((win ''depthLadder'' (Fin 1220) (Fin 58) (Fin 600) (Fin 655) (next_z windows) None)
        \<lparr>ww_id := ''depth-ladder-migrated-'' @ jsnum_string (Fin now), ww_symbol := Some ''ES'', ww_provider := Some ''cme''\<rparr>)])"

definition repair_window :: "jsval \<Rightarrow> jsval" where
  "repair_window item =
     (let base = js_spread item (JObj [(''provider'', JStr (normalizeProviderKey (js_get item ''provider'')))])
      in if kind_in [''depthLadder''] item \<and> truthy (js_get item ''depthLadderSettings'')
         then js_spread base (JObj [(''depthLadderSettings'', depth_value (normalizeDepthLadderSettings (js_get item ''depthLadderSettings'')))])
         else base)"

text \<open>Reading a property of \<open>null\<close> throws.\<close>

definition own :: "(jsval \<Rightarrow> jsval) \<Rightarrow> jsval \<Rightarrow> jsval js_result" where
  "own f item = (if is_nullish item then Inl TypeError else Inr (f item))"

definition normalizeWindows :: "rat \<Rightarrow> jsval list \<Rightarrow> jsval list js_result" where
  "normalizeWindows now windows =
     (case map_result (own id) windows of
        Inl e \<Rightarrow> Inl e
      | Inr ws \<Rightarrow> Inr (map repair_window (ensureFuturesDepthLadderWindow now (ensureLegacyChartWindows now
          (filter (\<lambda>item. \<not> isRemovedWindowKind (js_get item ''kind'')) ws)))))"

definition normalizeRows :: "jsval \<Rightarrow> jsval list js_result" where
  "normalizeRows rows =
     (case rows of
        JArr items \<Rightarrow> map_result (own (\<lambda>row. js_spread row
          (JObj [(''provider'', JStr (normalizeProviderKey (js_get row ''provider'')))]))) items
      | _ \<Rightarrow> Inr [])"

definition normalizeAlerts :: "rat \<Rightarrow> jsval \<Rightarrow> alert_rule list" where
  "normalizeAlerts now alerts =
     (case alerts of
        JArr items \<Rightarrow> List.map_filter (\<lambda>(i, raw). normalizeAlertRule now raw i) (List.enumerate 0 items)
      | _ \<Rightarrow> [])"

text \<open>\<open>normalizeWorkspace\<close>, with the collation \<open>lc\<close> of the algo library.\<close>

definition normalizeWorkspace :: "(string \<Rightarrow> string \<Rightarrow> jsnum) \<Rightarrow> rat \<Rightarrow> jsval \<Rightarrow> saved_workspace option js_result" where
  "normalizeWorkspace lc now raw =
     (case js_get raw ''windows'' of
        JArr items \<Rightarrow>
          (case normalizeWindows now items of
             Inl e \<Rightarrow> Inl e
           | Inr windows \<Rightarrow>
               (case normalizeRows (js_get raw ''rows'') of
                  Inl e \<Rightarrow> Inl e
                | Inr rows \<Rightarrow> Inr (Some
                    \<lparr>sw_name = js_str (js_or [js_get raw ''name'', JStr ''Cerious CME Desk'']),
                     sw_operator = js_str (js_or [js_get raw ''operator'', JStr DEFAULT_OPERATOR]),
                     sw_windows = windows, sw_rows = rows, sw_alerts = normalizeAlerts now (js_get raw ''alerts''),
                     sw_algoLibrary = normalizeAlgoLibrarySnapshot lc now (js_get raw ''algoLibrary''),
                     sw_algoManager = (if truthy (js_get raw ''algoManager'')
                       then Some (normalizeAlgoManagerWorkspaceState now (js_get raw ''algoManager'')) else None),
                     sw_selectedProvider = normalizeProviderKey (js_get raw ''selectedProvider''),
                     sw_selectedSymbol = js_get raw ''selectedSymbol'',
                     sw_updatedAt = js_num (js_or [js_get raw ''updatedAt'', JNum (Fin now)]),
                     sw_recoveredFrom = js_get raw ''recoveredFrom'', sw_serverFile = js_get raw ''serverFile''\<rparr>)))
      | _ \<Rightarrow> Inr None)"

text \<open>\<open>try { ... } catch { return null }\<close>\<close>

definition or_null :: "'a option js_result \<Rightarrow> 'a option" where
  "or_null r = (case r of Inl _ \<Rightarrow> None | Inr w \<Rightarrow> w)"

definition read_workspace :: "(string \<Rightarrow> string \<Rightarrow> jsnum) \<Rightarrow> rat \<Rightarrow> slot \<Rightarrow> saved_workspace option" where
  "read_workspace lc now s = (case s of Holds v \<Rightarrow> or_null (normalizeWorkspace lc now v) | _ \<Rightarrow> None)"

definition loadDefaultWorkspace :: "(string \<Rightarrow> string \<Rightarrow> jsnum) \<Rightarrow> rat \<Rightarrow> browser_storage \<Rightarrow> saved_workspace option" where
  "loadDefaultWorkspace lc now st = read_workspace lc now (st_default st)"

definition loadActiveWorkspace :: "(string \<Rightarrow> string \<Rightarrow> jsnum) \<Rightarrow> rat \<Rightarrow> browser_storage \<Rightarrow> saved_workspace option" where
  "loadActiveWorkspace lc now st =
     (case loadDefaultWorkspace lc now st of Some w \<Rightarrow> Some w | None \<Rightarrow> read_workspace lc now (st_active st))"

definition workspaceKey :: "string \<Rightarrow> string \<Rightarrow> string" where
  "workspaceKey operator name = to_lower (js_trim operator) @ ''::'' @ to_lower (js_trim name)"

definition workspace_key :: "saved_workspace \<Rightarrow> string" where
  "workspace_key w = workspaceKey (sw_operator w) (sw_name w)"

definition newest_first :: "saved_workspace \<Rightarrow> saved_workspace \<Rightarrow> jsnum" where
  "newest_first a b = js_sub (sw_updatedAt b) (sw_updatedAt a)"

definition upsertSavedWorkspace :: "saved_workspace list \<Rightarrow> saved_workspace \<Rightarrow> saved_workspace list" where
  "upsertSavedWorkspace ws next =
     js_sort newest_first (next # filter (\<lambda>item. workspace_key item \<noteq> workspace_key next) ws)"

definition loadSavedWorkspaces :: "(string \<Rightarrow> string \<Rightarrow> jsnum) \<Rightarrow> rat \<Rightarrow> browser_storage \<Rightarrow> saved_workspace list" where
  "loadSavedWorkspaces lc now st =
     (case (case st_names st of
              Garbled \<Rightarrow> Inl TypeError
            | Holds (JArr items) \<Rightarrow> map_result (normalizeWorkspace lc now) items
            | _ \<Rightarrow> Inr []) of
        Inl _ \<Rightarrow> []
      | Inr rs \<Rightarrow>
          (let indexed = List.map_filter id rs
           in case loadActiveWorkspace lc now st of
                Some active \<Rightarrow> upsertSavedWorkspace indexed active
              | None \<Rightarrow> js_sort newest_first indexed))"

section \<open>Backups\<close>

definition MAX_WORKSPACE_BACKUPS :: nat where
  "MAX_WORKSPACE_BACKUPS = 12"

record workspace_backup =
  bk_id :: string
  bk_backedUpAt :: jsnum
  bk_reason :: string
  bk_workspace :: saved_workspace

definition backup_value :: "workspace_backup \<Rightarrow> jsval" where
  "backup_value b = JObj [(''id'', JStr (bk_id b)), (''backedUpAt'', JNum (bk_backedUpAt b)), (''reason'', JStr (bk_reason b)),
     (''workspace'', workspace_value (bk_workspace b))]"

definition read_backup :: "(string \<Rightarrow> string \<Rightarrow> jsnum) \<Rightarrow> rat \<Rightarrow> jsval \<Rightarrow> workspace_backup option js_result" where
  "read_backup lc now item =
     (if is_nullish item then Inl TypeError
      else case normalizeWorkspace lc now (js_get item ''workspace'') of
        Inl e \<Rightarrow> Inl e
      | Inr None \<Rightarrow> Inr None
      | Inr (Some w) \<Rightarrow>
          (let t = js_num (js_or [js_get item ''backedUpAt'', JNum (sw_updatedAt w), JNum (Fin now)])
           in Inr (Some \<lparr>bk_id = js_str (js_or [js_get item ''id'', JStr (workspace_key w @ ''::'' @ jsnum_string t)]),
             bk_backedUpAt = t, bk_reason = js_str (js_or [js_get item ''reason'', JStr ''workspace backup'']), bk_workspace = w\<rparr>)))"

definition latest_backup :: "workspace_backup \<Rightarrow> workspace_backup \<Rightarrow> jsnum" where
  "latest_backup a b = js_sub (bk_backedUpAt b) (bk_backedUpAt a)"

definition loadWorkspaceBackups :: "(string \<Rightarrow> string \<Rightarrow> jsnum) \<Rightarrow> rat \<Rightarrow> browser_storage \<Rightarrow> workspace_backup list" where
  "loadWorkspaceBackups lc now st =
     (case st_backups st of
        Holds (JArr items) \<Rightarrow> (case map_result (read_backup lc now) items of
            Inl _ \<Rightarrow> []
          | Inr rs \<Rightarrow> js_sort latest_backup (List.map_filter id rs))
      | _ \<Rightarrow> [])"

definition backupWorkspace ::
  "(string \<Rightarrow> string \<Rightarrow> jsnum) \<Rightarrow> rat \<Rightarrow> saved_workspace \<Rightarrow> string \<Rightarrow> browser_storage \<Rightarrow> browser_storage \<times> workspace_backup list" where
  "backupWorkspace lc now next reason st =
     (let backup = \<lparr>bk_id = workspace_key next @ ''::'' @ jsnum_string (Fin now), bk_backedUpAt = Fin now, bk_reason = reason,
            bk_workspace = next\<lparr>sw_updatedAt := Fin now\<rparr>\<rparr>;
          backups = take MAX_WORKSPACE_BACKUPS (backup # filter (\<lambda>item. bk_id item \<noteq> bk_id backup) (loadWorkspaceBackups lc now st))
      in (st\<lparr>st_backups := stored (JArr (map backup_value backups))\<rparr>, backups))"

definition persistWorkspaceSnapshot ::
  "(string \<Rightarrow> string \<Rightarrow> jsnum) \<Rightarrow> rat \<Rightarrow> saved_workspace \<Rightarrow> saved_workspace list \<Rightarrow> bool \<Rightarrow> string \<Rightarrow> browser_storage \<Rightarrow> browser_storage" where
  "persistWorkspaceSnapshot lc now next ws makeDefault reason st =
     (let st = st\<lparr>st_names := stored (JArr (map workspace_value ws)), st_active := stored (workspace_value next)\<rparr>;
          st = (if makeDefault then st\<lparr>st_default := stored (workspace_value next)\<rparr> else st)
      in fst (backupWorkspace lc now next reason st))"

section \<open>The session\<close>

record session =
  se_operator :: string
  se_name :: string
  se_windows :: "jsval list"
  se_rows :: "jsval list"
  se_alerts :: "alert_rule list"
  se_provider :: string
  se_symbol :: jsval
  se_saved :: "saved_workspace list"
  se_status :: string
  se_initial :: "saved_workspace option"
  se_storage :: browser_storage

definition or_else_text :: "string \<Rightarrow> string \<Rightarrow> string" where
  "or_else_text s d = (if js_trim s \<noteq> '''' then js_trim s else d)"

text \<open>The workspace on screen, as it is saved; \<open>untitled\<close> names one without a name.\<close>

definition screen_workspace :: "(string \<Rightarrow> string \<Rightarrow> jsnum) \<Rightarrow> rat \<Rightarrow> string \<Rightarrow> session \<Rightarrow> saved_workspace" where
  "screen_workspace lc now untitled s =
     \<lparr>sw_name = or_else_text (se_name s) untitled, sw_operator = or_else_text (se_operator s) DEFAULT_OPERATOR,
      sw_windows = se_windows s, sw_rows = se_rows s, sw_alerts = se_alerts s,
      sw_algoLibrary = Some (loadAlgoLibrary lc now (st_library (se_storage s))),
      sw_algoManager = Some (loadAlgoManagerWorkspaceState now (se_storage s)),
      sw_selectedProvider = se_provider s, sw_selectedSymbol = se_symbol s, sw_updatedAt = Fin now,
      sw_recoveredFrom = JUndef, sw_serverFile = JUndef\<rparr>"

text \<open>Only the row selection of the algo manager is restored.\<close>

definition applyWorkspaceAlgoSnapshot :: "rat \<Rightarrow> saved_workspace \<Rightarrow> browser_storage \<Rightarrow> browser_storage" where
  "applyWorkspaceAlgoSnapshot now w st =
     (case sw_algoManager w of None \<Rightarrow> st | Some m \<Rightarrow> saveAlgoManagerWorkspaceState now m st)"

definition write_names :: "session \<Rightarrow> session" where
  "write_names s = s\<lparr>se_storage := (se_storage s)\<lparr>st_names := stored (JArr (map workspace_value (se_saved s)))\<rparr>\<rparr>"

definition autosave :: "(string \<Rightarrow> string \<Rightarrow> jsnum) \<Rightarrow> rat \<Rightarrow> session \<Rightarrow> session" where
  "autosave lc now s =
     s\<lparr>se_storage := (se_storage s)\<lparr>st_active := stored (workspace_value (screen_workspace lc now ''Untitled Workspace'' s))\<rparr>\<rparr>"

definition seed_default :: "(string \<Rightarrow> string \<Rightarrow> jsnum) \<Rightarrow> rat \<Rightarrow> session \<Rightarrow> session" where
  "seed_default lc now s =
     (if st_default (se_storage s) \<noteq> Missing then s
      else let initial = screen_workspace lc now ''Cerious CME Desk'' s; merged = upsertSavedWorkspace (se_saved s) initial
        in s\<lparr>se_saved := merged,
             se_storage := persistWorkspaceSnapshot lc now initial merged True ''initial default workspace'' (se_storage s)\<rparr>)"

definition opened_session :: "(string \<Rightarrow> string \<Rightarrow> jsnum) \<Rightarrow> rat \<Rightarrow> browser_storage \<Rightarrow> session" where
  "opened_session lc now st =
     (let initialWorkspace = loadActiveWorkspace lc now st;
          st = (case initialWorkspace of None \<Rightarrow> st | Some w \<Rightarrow> applyWorkspaceAlgoSnapshot now w st);
          ws = loadSavedWorkspaces lc now st
      in case initialWorkspace of
           None \<Rightarrow> \<lparr>se_operator = DEFAULT_OPERATOR, se_name = ''Cerious CME Desk'',
             se_windows = map window_value (defaultWindows ''cme''), se_rows = [], se_alerts = [], se_provider = normalizeProviderKey JUndef,
             se_symbol = JStr ''ES'', se_saved = ws, se_status = '''', se_initial = None, se_storage = st\<rparr>
         | Some w \<Rightarrow> \<lparr>se_operator = sw_operator w, se_name = sw_name w, se_windows = sw_windows w, se_rows = sw_rows w,
             se_alerts = sw_alerts w, se_provider = normalizeProviderKey (JStr (sw_selectedProvider w)),
             se_symbol = js_nn [sw_selectedSymbol w, JStr ''ES''],
             se_saved = (if list_ex (\<lambda>item. workspace_key item = workspace_key w) ws then ws else upsertSavedWorkspace ws w),
             se_status = '''', se_initial = Some w, se_storage = st\<rparr>)"

text \<open>Mounting runs the three effects, in their order.\<close>

definition mount :: "(string \<Rightarrow> string \<Rightarrow> jsnum) \<Rightarrow> rat \<Rightarrow> browser_storage \<Rightarrow> session" where
  "mount lc now st =
     (let s = seed_default lc now (autosave lc now (write_names (opened_session lc now st))) in write_names s)"

definition show_workspace :: "rat \<Rightarrow> saved_workspace \<Rightarrow> session \<Rightarrow> session" where
  "show_workspace now w s =
     s\<lparr>se_operator := sw_operator w, se_name := sw_name w, se_windows := sw_windows w, se_rows := sw_rows w, se_alerts := sw_alerts w,
       se_provider := normalizeProviderKey (JStr (sw_selectedProvider w)),
       se_symbol := (if truthy (sw_selectedSymbol w) then sw_selectedSymbol w else se_symbol s),
       se_storage := applyWorkspaceAlgoSnapshot now w (se_storage s)\<rparr>"

text \<open>\<open>serverSaved\<close> is whether the server accepted the snapshot.\<close>

definition saveWorkspace :: "(string \<Rightarrow> string \<Rightarrow> jsnum) \<Rightarrow> rat \<Rightarrow> bool \<Rightarrow> session \<Rightarrow> session" where
  "saveWorkspace lc now serverSaved s =
     (let next = screen_workspace lc now ''Untitled Workspace'' s; merged = upsertSavedWorkspace (se_saved s) next
      in s\<lparr>se_saved := merged, se_storage := persistWorkspaceSnapshot lc now next merged True ''manual save default'' (se_storage s),
           se_operator := sw_operator next, se_name := sw_name next,
           se_status := (if serverSaved then ''Saved local + server'' else ''Saved local; server pending'')\<rparr>)"

definition loadWorkspace :: "(string \<Rightarrow> string \<Rightarrow> jsnum) \<Rightarrow> rat \<Rightarrow> string \<Rightarrow> string \<Rightarrow> session \<Rightarrow> session js_result" where
  "loadWorkspace lc now operator name s =
     (case List.find (\<lambda>item. workspace_key item = workspaceKey operator name) (se_saved s) of
        None \<Rightarrow> Inr s
      | Some found \<Rightarrow>
          (case normalizeWorkspace lc now (workspace_value found) of
             Inl e \<Rightarrow> Inl e
           | Inr r \<Rightarrow>
               (let normalized = (case r of Some w \<Rightarrow> w | None \<Rightarrow> found); s = show_workspace now normalized s
                in Inr (s\<lparr>se_storage := (se_storage s)\<lparr>st_active := stored (workspace_value (normalized\<lparr>sw_updatedAt := Fin now\<rparr>))\<rparr>,
                     se_status := ''Loaded '' @ sw_name normalized\<rparr>))))"

text \<open>The newest workspace of every key, in the order the keys came.\<close>

definition latest_of :: "saved_workspace list \<Rightarrow> saved_workspace list" where
  "latest_of ws = map snd (foldl (\<lambda>m item. case map_of m (workspace_key item) of
       Some existing \<Rightarrow> if js_lt (sw_updatedAt existing) (sw_updatedAt item) then AList.update (workspace_key item) item m else m
     | None \<Rightarrow> AList.update (workspace_key item) item m) [] ws)"

definition TED_S_DEFAULT_RECOVERY_FILE :: string where
  "TED_S_DEFAULT_RECOVERY_FILE = ''leveldb-07-ted-s.json''"

definition named_key :: "string \<Rightarrow> saved_workspace \<Rightarrow> bool" where
  "named_key name w = (workspace_key w = workspaceKey DEFAULT_OPERATOR name)"

definition head_opt :: "'a list \<Rightarrow> 'a option" where
  "head_opt xs = (case xs of [] \<Rightarrow> None | x # _ \<Rightarrow> Some x)"

definition latestTedS :: "saved_workspace list \<Rightarrow> saved_workspace list \<Rightarrow> saved_workspace option" where
  "latestTedS recovered latestRecovered =
     (case head_opt (js_sort newest_first (filter (named_key ''Ted S'') latestRecovered)) of
        Some w \<Rightarrow> Some w
      | None \<Rightarrow> List.find (\<lambda>w. sw_recoveredFrom w = JStr TED_S_DEFAULT_RECOVERY_FILE) (filter (named_key ''Ted S'') recovered))"

definition merge_recovered :: "saved_workspace option \<Rightarrow> saved_workspace list \<Rightarrow> saved_workspace list \<Rightarrow> saved_workspace list" where
  "merge_recovered ted latestRecovered current =
     foldl upsertSavedWorkspace (if ted = None then current else filter (\<lambda>w. \<not> named_key ''Ted'' w) current) latestRecovered"

text \<open>The answers of the two fetches.  The effect reads operator and name as they were at the mount.\<close>

definition restoreRecoveredWorkspace ::
  "rat \<Rightarrow> saved_workspace list \<Rightarrow> saved_workspace list \<Rightarrow> session \<Rightarrow> session" where
  "restoreRecoveredWorkspace now recovered serverSaved s =
     (let available = serverSaved @ recovered; latestRecovered = latest_of available; ted = latestTedS recovered latestRecovered;
          activeKey = (case se_initial s of
              None \<Rightarrow> workspaceKey DEFAULT_OPERATOR ''Cerious CME Desk''
            | Some w \<Rightarrow> workspaceKey (or_else_text (sw_operator w) DEFAULT_OPERATOR) (js_trim (sw_name w)));
          activeUpdatedAt = (case se_initial s of None \<Rightarrow> Fin 0 | Some w \<Rightarrow> num_or_d (JNum (sw_updatedAt w)) (Fin 0));
          s' = write_names (s\<lparr>se_saved := merge_recovered ted latestRecovered (se_saved s)\<rparr>)
      in if available = [] then s
         else case ted of
           None \<Rightarrow> s'
         | Some w \<Rightarrow>
             if activeKey = workspaceKey DEFAULT_OPERATOR ''Ted'' \<or> activeKey = workspaceKey DEFAULT_OPERATOR ''Cerious CME Desk''
               \<or> js_lt activeUpdatedAt (sw_updatedAt w)
             then let activated = w\<lparr>sw_updatedAt := Fin now\<rparr>; s'' = show_workspace now activated s'
               in s''\<lparr>se_storage := (se_storage s'')\<lparr>st_active := stored (workspace_value activated),
                    st_default := stored (workspace_value activated)\<rparr>, se_status := ''Recovered '' @ sw_name activated\<rparr>
             else s')"

text \<open>The payload of either fetch.\<close>

definition fetched_workspaces :: "(string \<Rightarrow> string \<Rightarrow> jsnum) \<Rightarrow> rat \<Rightarrow> jsval js_result \<Rightarrow> bool \<Rightarrow> saved_workspace list" where
  "fetched_workspaces lc now payload ok =
     (case payload of
        Inr p \<Rightarrow> (case js_get p ''workspaces'' of
            JArr items \<Rightarrow> if ok then (case map_result (normalizeWorkspace lc now) items of Inl _ \<Rightarrow> [] | Inr rs \<Rightarrow> List.map_filter id rs) else []
          | _ \<Rightarrow> [])
      | Inl _ \<Rightarrow> [])"

datatype session_event =
    Edit_Windows "jsval list"
  | Edit_Rows "jsval list"
  | Edit_Alerts "alert_rule list"
  | Rename string string
  | Select_Product string jsval
  | Load_Workspace string string
  | Save_Workspace bool
  | Recovered "saved_workspace list" "saved_workspace list"

fun session_handle :: "(string \<Rightarrow> string \<Rightarrow> jsnum) \<Rightarrow> rat \<Rightarrow> session_event \<Rightarrow> session \<Rightarrow> session" where
  "session_handle lc now (Edit_Windows ws) s = s\<lparr>se_windows := ws\<rparr>"
| "session_handle lc now (Edit_Rows rs) s = s\<lparr>se_rows := rs\<rparr>"
| "session_handle lc now (Edit_Alerts as) s = s\<lparr>se_alerts := as\<rparr>"
| "session_handle lc now (Rename operator name) s = s\<lparr>se_operator := operator, se_name := name\<rparr>"
| "session_handle lc now (Select_Product provider symbol) s = s\<lparr>se_provider := normalizeProviderKey (JStr provider), se_symbol := symbol\<rparr>"
| "session_handle lc now (Load_Workspace operator name) s = (case loadWorkspace lc now operator name s of Inl _ \<Rightarrow> s | Inr s' \<Rightarrow> s')"
| "session_handle lc now (Save_Workspace ok) s = saveWorkspace lc now ok s"
| "session_handle lc now (Recovered recovered serverSaved) s = restoreRecoveredWorkspace now recovered serverSaved s"

text \<open>The effects run when what they depend on changed.\<close>

definition session_effects :: "(string \<Rightarrow> string \<Rightarrow> jsnum) \<Rightarrow> rat \<Rightarrow> session \<Rightarrow> session \<Rightarrow> session" where
  "session_effects lc now before after =
     (let s = (if se_saved before = se_saved after then after else write_names after)
      in if (se_alerts before, se_rows before, se_operator before, se_provider before, se_symbol before, se_windows before, se_name before)
            = (se_alerts s, se_rows s, se_operator s, se_provider s, se_symbol s, se_windows s, se_name s)
         then s else autosave lc now s)"

definition session_step :: "(string \<Rightarrow> string \<Rightarrow> jsnum) \<Rightarrow> session \<Rightarrow> rat \<times> session_event \<Rightarrow> session" where
  "session_step lc s e = (case e of (now, event) \<Rightarrow> session_effects lc now s (session_handle lc now event s))"

section \<open>Lemmas: repaired windows\<close>

lemma get_pairs: "js_get (JObj (obj_pairs item)) k = js_get item k"
  by (cases item) simp_all

lemma get_put: "js_get (js_spread item (JObj [(k, v)])) j = (if j = k then v else js_get item j)"
  using get_pairs [of item j] by (simp add: js_spread_def update_conv')

lemma put_again: "js_get item k = v \<Longrightarrow> v \<noteq> JUndef \<Longrightarrow> item = JObj ps \<Longrightarrow> js_spread item (JObj [(k, v)]) = item"
  by (auto simp: js_spread_def AList.update_triv split: option.splits)

lemma spread_obj: "\<exists>ps. js_spread item v = JObj ps"
  by (simp add: js_spread_def)

lemma repair_get:
  "k \<noteq> ''provider'' \<Longrightarrow> k \<noteq> ''depthLadderSettings'' \<Longrightarrow> js_get (repair_window item) k = js_get item k"
  by (simp add: repair_window_def Let_def get_put)

lemma repair_provider: "js_get (repair_window item) ''provider'' = JStr ''cme''"
  by (simp add: repair_window_def Let_def get_put)

lemma repair_kind [simp]: "kind_in ks (repair_window item) = kind_in ks item"
  by (simp add: kind_in_def repair_get)

lemma repair_obj: "\<exists>ps. repair_window item = JObj ps"
  using spread_obj by (auto simp: repair_window_def Let_def)

lemma repair_idem: "repair_window (repair_window item) = repair_window item"
proof -
  let ?r = "repair_window item"
  obtain ps where ps: "?r = JObj ps" using repair_obj by blast
  have p: "js_spread ?r (JObj [(''provider'', JStr ''cme'')]) = ?r"
    using repair_provider by (intro put_again [OF _ _ ps]) simp_all
  have d: "js_spread ?r (JObj [(''depthLadderSettings'', depth_value (normalizeDepthLadderSettings (js_get ?r ''depthLadderSettings'')))]) = ?r"
    if "kind_in [''depthLadder''] item" "truthy (js_get ?r ''depthLadderSettings'')"
  proof (cases "truthy (js_get item ''depthLadderSettings'')")
    case True
    then have "js_get ?r ''depthLadderSettings'' = depth_value (normalizeDepthLadderSettings (js_get item ''depthLadderSettings''))"
      using that(1) by (simp add: repair_window_def Let_def get_put)
    then show ?thesis using depth.normal_idem by (intro put_again [OF _ _ ps]) (simp_all add: depth_value_def)
  next
    case False
    then have "js_get ?r ''depthLadderSettings'' = js_get item ''depthLadderSettings''"
      by (simp add: repair_window_def Let_def get_put)
    then show ?thesis using that(2) False by simp
  qed
  show ?thesis
    by (subst repair_window_def) (simp add: repair_provider Let_def p d)
qed

lemma own_all: "map_result (own f) items = Inr out \<longleftrightarrow> (\<forall>v \<in> set items. \<not> is_nullish v) \<and> out = map f items"
  unfolding map_result_Inr
proof (induction items arbitrary: out)
  case (Cons v items)
  show ?case by (cases out) (auto simp: own_def [of f v] Cons.IH split: if_splits)
qed auto

lemma chart_value [simp]:
  "kind_in ks (window_value w) \<longleftrightarrow> ww_kind w \<in> set ks" "\<not> is_nullish (window_value w)"
  by (simp_all add: kind_in_def window_value_def)

lemma default_kinds [simp]: "ww_kind (win k x y w h z t) = k"
  by (simp add: win_def)

text \<open>The windows a repair leaves: a chart, a ladder, and no removed kind.\<close>

definition complete_windows :: "jsval list \<Rightarrow> bool" where
  "complete_windows ws = (list_ex (kind_in [''charts'', ''relativeSpreadCharts'']) ws \<and> list_ex (kind_in [''depthLadder'']) ws \<and>
     (\<forall>w \<in> set ws. \<not> is_nullish w \<and> \<not> isRemovedWindowKind (js_get w ''kind'') \<and> repair_window w = w))"

lemma repair_not_nullish: "\<not> is_nullish (repair_window w)"
  using repair_obj [of w] by auto

lemma complete_map:
  assumes "list_ex (kind_in [''charts'', ''relativeSpreadCharts'']) ws" "list_ex (kind_in [''depthLadder'']) ws"
    and "\<And>w. w \<in> set ws \<Longrightarrow> \<not> isRemovedWindowKind (js_get w ''kind'')"
  shows "complete_windows (map repair_window ws)"
  using assms by (simp add: complete_windows_def list_ex_iff repair_get repair_idem repair_not_nullish)

lemma normalize_complete: "complete_windows ws \<Longrightarrow> normalizeWindows now ws = Inr ws"
proof -
  assume c: "complete_windows ws"
  then have "map_result (own id) ws = Inr ws" "filter (\<lambda>item. \<not> isRemovedWindowKind (js_get item ''kind'')) ws = ws"
    by (auto simp: own_all complete_windows_def filter_id_conv)
  moreover have "map repair_window ws = ws" using c by (simp add: complete_windows_def map_idI)
  ultimately show ?thesis
    using c by (simp add: normalizeWindows_def ensureLegacyChartWindows_def ensureFuturesDepthLadderWindow_def complete_windows_def)
qed

lemma added_kinds: "\<not> isRemovedWindowKind (JStr ''charts'')" "\<not> isRemovedWindowKind (JStr ''depthLadder'')"
  by code_simp+

lemma window_value_kind: "js_get (window_value w) ''kind'' = JStr (ww_kind w)"
  by (simp add: window_value_def)

lemma ensure_chart_ok:
  "\<forall>w \<in> set ws. \<not> isRemovedWindowKind (js_get w ''kind'') \<Longrightarrow>
    \<forall>w \<in> set (ensureLegacyChartWindows now ws). \<not> isRemovedWindowKind (js_get w ''kind'')"
  using added_kinds(1) by (simp add: ensureLegacyChartWindows_def window_value_kind)

lemma ensure_ladder_ok:
  "\<forall>w \<in> set ws. \<not> isRemovedWindowKind (js_get w ''kind'') \<Longrightarrow>
    \<forall>w \<in> set (ensureFuturesDepthLadderWindow now ws). \<not> isRemovedWindowKind (js_get w ''kind'')"
  using added_kinds(2) by (simp add: ensureFuturesDepthLadderWindow_def window_value_kind)

lemma ensure_chart_append: "\<exists>a. ensureLegacyChartWindows now ws = ws @ a"
  unfolding ensureLegacyChartWindows_def by (metis append_Nil2)

lemma ensure_ladder_append: "\<exists>a. ensureFuturesDepthLadderWindow now ws = ws @ a"
  unfolding ensureFuturesDepthLadderWindow_def by (metis append_Nil2)

lemma normalize_windows_complete:
  assumes "normalizeWindows now items = Inr out"
  shows "complete_windows out"
    and "\<exists>added. out = map repair_window (filter (\<lambda>item. \<not> isRemovedWindowKind (js_get item ''kind'')) items @ added)"
proof -
  let ?kept = "filter (\<lambda>item. \<not> isRemovedWindowKind (js_get item ''kind'')) items"
  let ?ws = "ensureFuturesDepthLadderWindow now (ensureLegacyChartWindows now ?kept)"
  have out: "out = map repair_window ?ws"
    using assms by (auto simp: normalizeWindows_def own_all split: sum.splits)
  have "\<forall>w \<in> set ?kept. \<not> isRemovedWindowKind (js_get w ''kind'')" by simp
  note ok = bspec [OF ensure_ladder_ok [OF ensure_chart_ok [OF this]]]
  have "list_ex (kind_in [''charts'', ''relativeSpreadCharts'']) ?ws" "list_ex (kind_in [''depthLadder'']) ?ws"
    by (simp_all add: ensureFuturesDepthLadderWindow_def ensureLegacyChartWindows_def)
  then show "complete_windows out" unfolding out by (rule complete_map) (rule ok)
  show "\<exists>added. out = map repair_window (?kept @ added)"
  proof -
    obtain a b where "ensureLegacyChartWindows now ?kept = ?kept @ a"
        "ensureFuturesDepthLadderWindow now (?kept @ a) = (?kept @ a) @ b"
      using ensure_chart_append ensure_ladder_append by metis
    then show ?thesis by (simp only: out) (rule exI [of _ "a @ b"], simp)
  qed
qed

text \<open>On windows of the model a repair is \<open>load_windows\<close>, as far as the desktop's invariant reads them.\<close>

lemma next_z_above: "next_z (map window_value ws) = above ws"
proof -
  have "foldl (\<lambda>m item. js_max m (js_num (js_get item ''z''))) a (map window_value ws) = foldl (\<lambda>m w. js_max m (ww_z w)) a ws" for a
    by (induction ws arbitrary: a) (simp_all add: window_value_def)
  then show ?thesis by (simp add: next_z_def above_def)
qed

lemma chart_values: "ensureLegacyChartWindows now (map window_value ws) = map window_value (with_chart now ws)"
  by (auto simp: ensureLegacyChartWindows_def with_chart_def next_z_above list_ex_iff)

lemma ladder_values: "ensureFuturesDepthLadderWindow now (map window_value ws) = map window_value (with_ladder now ws)"
  by (auto simp: ensureFuturesDepthLadderWindow_def with_ladder_def next_z_above list_ex_iff)

lemma load_windows_values:
  assumes "k \<in> {''id'', ''kind'', ''x'', ''y'', ''w'', ''h'', ''z''}"
  shows "\<exists>out. normalizeWindows now (map window_value ws) = Inr out \<and>
    map (\<lambda>i. js_get i k) out = map (\<lambda>w. js_get (window_value w) k) (load_windows now ws)"
proof -
  have own: "map_result (own id) (map window_value ws) = Inr (map window_value ws)" by (auto simp: own_all)
  have kept: "filter (\<lambda>item. \<not> isRemovedWindowKind (js_get item ''kind'')) (map window_value ws) =
      map window_value (filter (\<lambda>w. \<not> isRemovedWindowKind (JStr (ww_kind w))) ws)"
    by (simp add: filter_map comp_def window_value_kind)
  have "js_get (repair_window (window_value w)) k = js_get (window_value (as_loaded w)) k" for w
    using assms by (auto simp: repair_get) (simp_all add: window_value_def as_loaded_def)
  then show ?thesis
    by (simp add: normalizeWindows_def own kept chart_values ladder_values load_windows_def comp_def)
qed

text \<open>A repaired market row is left as it is.\<close>

definition repair_row :: "jsval \<Rightarrow> jsval" where
  "repair_row row = js_spread row (JObj [(''provider'', JStr (normalizeProviderKey (js_get row ''provider'')))])"

lemma repair_row_idem: "repair_row (repair_row row) = repair_row row"
proof -
  obtain ps where ps: "repair_row row = JObj ps" using spread_obj unfolding repair_row_def by blast
  have p: "js_get (repair_row row) ''provider'' = JStr ''cme''" by (simp add: repair_row_def get_put)
  then show ?thesis
    by (subst (1) repair_row_def) (simp add: put_again [OF p _ ps])
qed

lemma normalize_rows_again: "normalizeRows rows = Inr out \<Longrightarrow> normalizeRows (JArr out) = Inr out"
proof -
  assume r: "normalizeRows rows = Inr out"
  have norm: "normalizeRows (JArr items) = map_result (own repair_row) items" for items
    unfolding normalizeRows_def repair_row_def [abs_def] by simp
  have o: "\<not> is_nullish (repair_row v)" for v using spread_obj [of v] by (auto simp: repair_row_def js_spread_def)
  have "map_result (own repair_row) (map repair_row items) = Inr (map repair_row items)" for items
    unfolding own_all using o by (simp add: repair_row_idem)
  moreover have "out = [] \<or> (\<exists>items. out = map repair_row items)"
    using r norm by (cases rows) (auto simp: own_all normalizeRows_def repair_row_def [abs_def] split: jsval.splits)
  ultimately show ?thesis by (auto simp: norm own_all)
qed

text \<open>
  C17. Whatever storage holds, a workspace that is read has a usable list of windows: a chart, a ladder and
  no removed kind, the stored windows first and in their order.  Reading its windows and its market rows
  again changes neither.
\<close>

theorem workspace_windows_usable:
  assumes "normalizeWorkspace lc now raw = Inr (Some w)"
  shows "complete_windows (sw_windows w) \<and> normalizeWindows now' (sw_windows w) = Inr (sw_windows w) \<and>
    (\<exists>added. map (\<lambda>i. js_get i ''id'') (sw_windows w) =
      map (\<lambda>i. js_get i ''id'') (filter (\<lambda>i. \<not> isRemovedWindowKind (js_get i ''kind'')) (arr_elems (js_get raw ''windows''))) @ added) \<and>
    normalizeRows (JArr (sw_rows w)) = Inr (sw_rows w)"
proof -
  obtain items where items: "js_get raw ''windows'' = JArr items" "normalizeWindows now items = Inr (sw_windows w)"
    and rows: "normalizeRows (js_get raw ''rows'') = Inr (sw_rows w)"
    using assms by (auto simp: normalizeWorkspace_def split: jsval.splits sum.splits)
  note n = normalize_windows_complete [OF items(2)]
  have "map (\<lambda>i. js_get i ''id'') (map repair_window ws) = map (\<lambda>i. js_get i ''id'') ws" for ws
    by (simp add: comp_def repair_get)
  then show ?thesis
    using n(2) normalize_complete [OF n(1)] n(1) items(1) normalize_rows_again [OF rows] by (auto simp: comp_def repair_get)
qed

section \<open>Keyed lists\<close>

text \<open>The contract of a list kept in order with one element per key.\<close>

locale keyed_list = key_comparator cmp valid rank
  for cmp :: "'a \<Rightarrow> 'a \<Rightarrow> jsnum" and valid :: "'a \<Rightarrow> bool" and rank :: "'a \<Rightarrow> rat" +
  fixes key :: "'a \<Rightarrow> string" and upsert :: "'a list \<Rightarrow> 'a \<Rightarrow> 'a list"
  assumes upsert_eq: "upsert xs x = js_sort cmp (x # filter (\<lambda>y. key y \<noteq> key x) xs)"
begin

lemma set_upsert: "set (upsert xs x) = insert x {y \<in> set xs. key y \<noteq> key x}"
  by (simp only: upsert_eq set_js_sort) auto

lemma distinct_upsert: "distinct (map key xs) \<Longrightarrow> distinct (map key (upsert xs x))"
proof -
  assume d: "distinct (map key xs)"
  have "mset (map key (upsert xs x)) = mset (map key (x # filter (\<lambda>y. key y \<noteq> key x) xs))"
    by (simp only: upsert_eq mset_map mset_js_sort)
  moreover have "distinct (map key (x # filter (\<lambda>y. key y \<noteq> key x) xs))"
    using d by (auto simp: distinct_map inj_on_def)
  ultimately show ?thesis by (metis mset_eq_imp_distinct_iff)
qed

lemma sorted_upsert: "\<forall>y \<in> set xs. valid y \<Longrightarrow> valid x \<Longrightarrow> sorted (map rank (upsert xs x))"
  unfolding upsert_eq by (rule sort_sorted_key) auto

lemma find_key: "distinct (map key xs) \<Longrightarrow> x \<in> set xs \<Longrightarrow> List.find (\<lambda>y. key y = key x) xs = Some x"
  by (induction xs) auto

lemma find_other: "\<forall>y \<in> set xs. key y \<noteq> k \<Longrightarrow> List.find (\<lambda>y. key y = k) xs = None"
  by (simp add: find_None_iff)

lemma find_upsert:
  assumes "distinct (map key xs)"
  shows "List.find (\<lambda>y. key y = k) (upsert xs x) = (if k = key x then Some x else List.find (\<lambda>y. key y = k) xs)"
proof (cases "\<exists>y \<in> set (upsert xs x). key y = k")
  case True
  then obtain y where y: "y \<in> set (upsert xs x)" "key y = k" by blast
  have "List.find (\<lambda>y. key y = k) (upsert xs x) = Some y"
    using find_key [OF distinct_upsert [OF assms] y(1)] y(2) by simp
  moreover have "List.find (\<lambda>y. key y = k) xs = Some y" if "k \<noteq> key x"
    using find_key [OF assms, of y] y that by (auto simp: set_upsert)
  ultimately show ?thesis using y by (auto simp: set_upsert)
next
  case False
  then have "k \<noteq> key x" "\<forall>y \<in> set xs. key y \<noteq> k" by (auto simp: set_upsert)
  then show ?thesis using find_other [of "upsert xs x" k] find_other [of xs k] False by auto
qed

lemma distinct_fold: "distinct (map key xs) \<Longrightarrow> distinct (map key (foldl upsert xs ys))"
  by (induction ys arbitrary: xs) (simp_all add: distinct_upsert)

lemma find_fold:
  assumes "distinct (map key xs)" "distinct (map key ys)"
  shows "List.find (\<lambda>y. key y = k) (foldl upsert xs ys) =
    (case List.find (\<lambda>y. key y = k) ys of Some y \<Rightarrow> Some y | None \<Rightarrow> List.find (\<lambda>y. key y = k) xs)"
  using assms
proof (induction ys arbitrary: xs)
  case (Cons y ys)
  have "List.find (\<lambda>z. key z = key y) ys = None" using Cons.prems(2) by (intro find_other) (auto simp: image_iff)
  then show ?case using Cons distinct_upsert find_upsert by (auto split: option.splits)
qed simp

end

interpretation workspaces: keyed_list newest_first "is_fin \<circ> sw_updatedAt" "\<lambda>w. - fin_val (sw_updatedAt w)"
  workspace_key upsertSavedWorkspace
  by unfold_locales (auto simp: cmp_le_def newest_first_def upsertSavedWorkspace_def is_fin_conv)

lemma saved_save:
  "se_saved (saveWorkspace lc now ok s) = upsertSavedWorkspace (se_saved s) (screen_workspace lc now ''Untitled Workspace'' s)"
  by (simp add: saveWorkspace_def Let_def)

text \<open>Saving files what is on screen under its name, first in the list, and touches no other workspace.\<close>

theorem save_workspace_files_screen:
  fixes lc now ok s
  assumes "distinct (map workspace_key (se_saved s))" "\<forall>w \<in> set (se_saved s). is_fin (sw_updatedAt w)"
  defines "shown \<equiv> screen_workspace lc now ''Untitled Workspace'' s" and "after \<equiv> se_saved (saveWorkspace lc now ok s)"
  shows "distinct (map workspace_key after) \<and> sorted (map (\<lambda>w. - fin_val (sw_updatedAt w)) after) \<and>
    List.find (\<lambda>w. workspace_key w = workspace_key shown) after = Some shown \<and>
    (\<forall>k. k \<noteq> workspace_key shown \<longrightarrow>
      List.find (\<lambda>w. workspace_key w = k) after = List.find (\<lambda>w. workspace_key w = k) (se_saved s))"
  using workspaces.distinct_upsert [OF assms(1)] workspaces.sorted_upsert [of "se_saved s" shown] workspaces.find_upsert [OF assms(1)] assms(2)
  by (simp add: after_def saved_save screen_workspace_def flip: shown_def) (simp add: shown_def screen_workspace_def)

section \<open>Lemmas: recovery\<close>

lemma latest_of_inv:
  "distinct (map fst m) \<Longrightarrow> \<forall>(k, w) \<in> set m. workspace_key w = k \<Longrightarrow>
    (let m' = foldl (\<lambda>m item. case map_of m (workspace_key item) of
         Some existing \<Rightarrow> if js_lt (sw_updatedAt existing) (sw_updatedAt item) then AList.update (workspace_key item) item m else m
       | None \<Rightarrow> AList.update (workspace_key item) item m) m ws
     in distinct (map fst m') \<and> (\<forall>(k, w) \<in> set m'. workspace_key w = k))"
proof (induction ws arbitrary: m)
  case (Cons w ws)
  have up: "distinct (map fst (AList.update (workspace_key w) w m))"
    "\<forall>(k, v) \<in> set (AList.update (workspace_key w) w m). workspace_key v = k"
    using Cons.prems by (auto simp: distinct_update) (metis (mono_tags, lifting) case_prodD distinct_update fun_upd_def map_of_eq_Some_iff option.inject update_conv')
  show ?case using Cons.IH [OF up] Cons.IH [OF Cons.prems] by (simp add: Let_def split: option.splits)
qed simp

lemma latest_of_distinct: "distinct (map workspace_key (latest_of ws))"
proof -
  define m where "m = foldl (\<lambda>m item. case map_of m (workspace_key item) of
         Some existing \<Rightarrow> if js_lt (sw_updatedAt existing) (sw_updatedAt item) then AList.update (workspace_key item) item m else m
       | None \<Rightarrow> AList.update (workspace_key item) item m) [] ws"
  have m: "distinct (map fst m)" "\<forall>(k, w) \<in> set m. workspace_key w = k"
    using latest_of_inv [of "[]" ws] by (simp_all add: m_def Let_def)
  have "map workspace_key (map snd m) = map fst m" unfolding map_map by (rule map_cong) (use m(2) in auto)
  then show ?thesis unfolding latest_of_def m_def [symmetric] using m(1) by metis
qed

lemma show_saved [simp]: "se_saved (show_workspace now w s) = se_saved s" "se_saved (write_names s) = se_saved s"
  by (simp_all add: show_workspace_def write_names_def)

lemma saved_restore:
  "serverSaved @ recovered \<noteq> [] \<Longrightarrow> se_saved (restoreRecoveredWorkspace now recovered serverSaved s) =
    merge_recovered (latestTedS recovered (latest_of (serverSaved @ recovered))) (latest_of (serverSaved @ recovered)) (se_saved s)"
  by (simp add: restoreRecoveredWorkspace_def Let_def split: option.splits del: append_is_Nil_conv)

text \<open>
  Every workspace the server has takes the place of the local one of its name, however much newer the
  local one is.
\<close>

theorem recovery_ignores_age:
  assumes "distinct (map workspace_key (se_saved s))" "w \<in> set (latest_of (serverSaved @ recovered))"
  shows "List.find (\<lambda>v. workspace_key v = workspace_key w) (se_saved (restoreRecoveredWorkspace now recovered serverSaved s)) = Some w"
proof -
  let ?latest = "latest_of (serverSaved @ recovered)"
  have ne: "serverSaved @ recovered \<noteq> []" using assms(2) by (auto simp: latest_of_def)
  note d = latest_of_distinct [of "serverSaved @ recovered"]
  have f: "List.find (\<lambda>v. workspace_key v = workspace_key w) ?latest = Some w" by (rule workspaces.find_key [OF d assms(2)])
  have b: "distinct (map workspace_key (if ted = None then se_saved s else filter (\<lambda>w. \<not> named_key ''Ted'' w) (se_saved s)))" for ted
    using assms(1) by (simp add: distinct_map inj_on_def)
  show ?thesis unfolding saved_restore [OF ne] merge_recovered_def workspaces.find_fold [OF b d] f by (simp only: option.case)
qed

section \<open>Lemmas: reloading\<close>

text \<open>The events that a user takes for saved, as every change is written to storage.\<close>

fun edits :: "session_event \<Rightarrow> bool" where
  "edits (Save_Workspace ok) = False"
| "edits (Recovered rs ss) = False"
| "edits _ = True"

lemma default_kept [simp]:
  "st_default (saveAlgoManagerWorkspaceState now m st) = st_default st"
  "st_default (applyWorkspaceAlgoSnapshot now w st) = st_default st"
  "st_default (se_storage (write_names s)) = st_default (se_storage s)"
  "st_default (se_storage (autosave lc now s)) = st_default (se_storage s)"
  "st_default (se_storage (show_workspace now w s)) = st_default (se_storage s)"
  by (simp_all add: saveAlgoManagerWorkspaceState_def applyWorkspaceAlgoSnapshot_def write_names_def autosave_def show_workspace_def
      split: option.splits)

lemma default_load: "loadWorkspace lc now op n s = Inr s' \<Longrightarrow> st_default (se_storage s') = st_default (se_storage s)"
  by (auto simp: loadWorkspace_def Let_def split: option.splits sum.splits)

lemma default_effects [simp]: "st_default (se_storage (session_effects lc now before after)) = st_default (se_storage after)"
  by (simp add: session_effects_def Let_def)

lemma default_step: "edits (snd e) \<Longrightarrow> st_default (se_storage (session_step lc s e)) = st_default (se_storage s)"
  by (cases e; cases "snd e") (auto simp: session_step_def default_load split: sum.splits)

lemma default_steps: "\<forall>e \<in> set es. edits (snd e) \<Longrightarrow> st_default (se_storage (foldl (session_step lc) s es)) = st_default (se_storage s)"
  by (induction es arbitrary: s) (simp_all add: default_step)

text \<open>
  While a default workspace can be read, a reload restores it, and never the workspace that was
  autosaved with the latest changes or the one that was loaded since.
\<close>

theorem reload_forgets_autosave:
  fixes lc now' s es now ws
  assumes "\<forall>e \<in> set es. edits (snd e)" "loadDefaultWorkspace lc now' (se_storage s) = Some w"
    and "ws \<noteq> se_windows (foldl (session_step lc) s es)"
  defines "after \<equiv> foldl (session_step lc) s (es @ [(now, Edit_Windows ws)])"
  shows "loadActiveWorkspace lc now' (se_storage after) = Some w \<and>
    (\<exists>v. st_active (se_storage after) = stored (workspace_value v) \<and> sw_windows v = ws)"
proof -
  have "st_default (se_storage after) = st_default (se_storage s)"
    unfolding after_def using assms(1) by (intro default_steps) auto
  then have "loadDefaultWorkspace lc now' (se_storage after) = Some w" using assms(2) by (simp add: loadDefaultWorkspace_def)
  moreover have "\<exists>v. st_active (se_storage after) = stored (workspace_value v) \<and> sw_windows v = ws"
    using assms(3) by (auto simp: after_def session_step_def session_effects_def autosave_def screen_workspace_def Let_def)
  ultimately show ?thesis by (simp add: loadActiveWorkspace_def)
qed

lemma map_result_fails: "x \<in> set xs \<Longrightarrow> f x = Inl e \<Longrightarrow> \<exists>e'. map_result f xs = Inl e'"
  by (induction xs) (auto split: sum.splits)

lemma bad_window_fails:
  assumes "js_get raw ''windows'' = JArr items" "v \<in> set items" "is_nullish v"
  shows "\<exists>e. normalizeWorkspace lc now raw = Inl e"
proof -
  have "\<exists>e. map_result (own id) items = Inl e" using assms(2,3) by (intro map_result_fails) (auto simp: own_def)
  then show ?thesis using assms(1) by (auto simp: normalizeWorkspace_def normalizeWindows_def)
qed

lemma names_after_seed: "se_saved (write_names s) = se_saved s \<and>
    st_names (se_storage (write_names s)) = stored (JArr (map workspace_value (se_saved s)))"
  by (simp add: write_names_def)

text \<open>
  C18. One window that is \<open>null\<close> in one saved workspace hides all saved workspaces, and opening the desktop
  then overwrites them in storage: what is left is the workspace on screen.
\<close>

theorem bad_window_erases_workspaces:
  fixes lc now st
  assumes names: "st_names st = Holds (JArr raws)" "raw \<in> set raws"
    and bad: "js_get raw ''windows'' = JArr items" "v \<in> set items" "is_nullish v"
  defines "s \<equiv> mount lc now st"
  shows "(\<forall>x \<in> set (se_saved s). sw_windows x = se_windows s) \<and> st_names (se_storage s) = stored (JArr (map workspace_value (se_saved s)))"
proof -
  have kept: "st_names (applyWorkspaceAlgoSnapshot now w st) = st_names st" for w
    by (simp add: applyWorkspaceAlgoSnapshot_def saveAlgoManagerWorkspaceState_def split: option.splits)
  have none: "loadSavedWorkspaces lc now st' = []" if "st_names st' = st_names st" for st'
  proof -
    obtain e where "normalizeWorkspace lc now raw = Inl e" using bad_window_fails [OF bad] by blast
    then obtain e' where "map_result (normalizeWorkspace lc now) raws = Inl e'" using map_result_fails [OF names(2)] by blast
    then show ?thesis using that names(1) by (simp add: loadSavedWorkspaces_def)
  qed
  let ?o = "opened_session lc now st"
  have o: "\<forall>x \<in> set (se_saved ?o). sw_windows x = se_windows ?o"
    by (auto simp: opened_session_def Let_def none kept upsertSavedWorkspace_def split: option.splits)
  let ?a = "autosave lc now (write_names ?o)"
  have a: "se_saved ?a = se_saved ?o" "se_windows ?a = se_windows ?o" by (simp_all add: autosave_def write_names_def)
  have "se_windows (seed_default lc now ?a) = se_windows ?a"
    "set (se_saved (seed_default lc now ?a)) \<subseteq> insert (screen_workspace lc now ''Cerious CME Desk'' ?a) (set (se_saved ?a))"
    by (auto simp: seed_default_def Let_def workspaces.set_upsert)
  moreover have "se_saved s = se_saved (seed_default lc now ?a)" "se_windows s = se_windows (seed_default lc now ?a)"
    "st_names (se_storage s) = stored (JArr (map workspace_value (se_saved s)))"
    by (simp_all add: s_def mount_def write_names_def Let_def)
  ultimately show ?thesis using o a by (auto simp: screen_workspace_def)
qed

section \<open>Concrete sessions\<close>

definition blank_storage :: browser_storage where
  "blank_storage = \<lparr>st_active = Missing, st_names = Missing, st_default = Missing, st_backups = Missing, st_manager = Missing,
     st_ladder = Missing, st_library = None, st_token = ''''\<rparr>"

definition bare_workspace :: jsval where
  "bare_workspace = JObj [(''name'', JStr ''Desk''), (''windows'', JArr []),
     (''rows'', JArr [JObj [(''symbol'', JStr ''ES''), (''provider'', JStr ''kalshi'')]])]"

lemma bare_normal: "\<exists>w. normalizeWorkspace lc now bare_workspace = Inr (Some w)"
  by (simp add: normalizeWorkspace_def normalizeWindows_def normalizeRows_def bare_workspace_def own_def)

theorem workspace_windows_usable_witness:
  "\<exists>w. normalizeWorkspace code_order 20 bare_workspace = Inr (Some w) \<and> complete_windows (sw_windows w)"
  using bare_normal [of code_order 20] workspace_windows_usable [of code_order 20 bare_workspace] by blast

definition blank_session :: session where
  "blank_session = opened_session code_order 20 blank_storage"

lemma blank_saved: "se_saved blank_session = []"
  by (simp add: blank_session_def opened_session_def blank_storage_def loadActiveWorkspace_def loadDefaultWorkspace_def read_workspace_def
      loadSavedWorkspaces_def Let_def)

theorem save_workspace_files_screen_witness:
  "let after = se_saved (saveWorkspace code_order 30 True blank_session)
   in distinct (map workspace_key after) \<and> (\<exists>w. List.find (\<lambda>v. workspace_key v = workspace_key w) after = Some w)"
  using save_workspace_files_screen [of blank_session code_order 30 True] by (simp add: blank_saved Let_def) blast

definition server_copy :: "rat \<Rightarrow> saved_workspace" where
  "server_copy t = \<lparr>sw_name = ''Desk'', sw_operator = ''Operator 1'', sw_windows = [], sw_rows = [], sw_alerts = [], sw_algoLibrary = None,
     sw_algoManager = None, sw_selectedProvider = ''cme'', sw_selectedSymbol = JUndef, sw_updatedAt = Fin t,
     sw_recoveredFrom = JUndef, sw_serverFile = JUndef\<rparr>"

theorem recovery_ignores_age_witness:
  "List.find (\<lambda>v. workspace_key v = workspace_key (server_copy 5))
     (se_saved (restoreRecoveredWorkspace 200 [] [server_copy 5] (blank_session\<lparr>se_saved := [server_copy 100]\<rparr>))) = Some (server_copy 5)"
  by (rule recovery_ignores_age) (simp_all add: latest_of_def)

theorem reload_forgets_autosave_witness:
  "\<exists>w. loadActiveWorkspace code_order 50 (se_storage (foldl (session_step code_order)
     (blank_session\<lparr>se_storage := blank_storage\<lparr>st_default := Holds bare_workspace\<rparr>\<rparr>) [(40, Edit_Windows [])])) = Some w"
proof -
  let ?s = "blank_session\<lparr>se_storage := blank_storage\<lparr>st_default := Holds bare_workspace\<rparr>\<rparr>"
  obtain w where w: "loadDefaultWorkspace code_order 50 (se_storage ?s) = Some w"
    using bare_normal [of code_order 50] by (auto simp: loadDefaultWorkspace_def read_workspace_def or_null_def)
  have "se_windows blank_session \<noteq> []"
    by (simp add: blank_session_def opened_session_def blank_storage_def loadActiveWorkspace_def loadDefaultWorkspace_def
        read_workspace_def defaultWindows_def Let_def)
  then show ?thesis using reload_forgets_autosave [where es = "[]" and ws = "[]" and now = 40, OF _ w] by auto
qed

theorem bad_window_erases_workspaces_witness:
  "let st = blank_storage\<lparr>st_names := Holds (JArr [bare_workspace, JObj [(''name'', JStr ''Other''), (''windows'', JArr [JNull])]])\<rparr>;
       s = mount code_order 20 st
   in st_names (se_storage s) = stored (JArr (map workspace_value (se_saved s))) \<and> (\<forall>x \<in> set (se_saved s). sw_windows x = se_windows s)"
  using bad_window_erases_workspaces [of "blank_storage\<lparr>st_names := Holds (JArr [bare_workspace,
      JObj [(''name'', JStr ''Other''), (''windows'', JArr [JNull])]])\<rparr>" "[bare_workspace, JObj [(''name'', JStr ''Other''), (''windows'', JArr [JNull])]]"
      "JObj [(''name'', JStr ''Other''), (''windows'', JArr [JNull])]" "[JNull]" JNull code_order 20]
  by (simp add: Let_def)

end
