(* ===== verification/Deployment.thy ===== *)
theory Deployment
  imports Workspace
begin

text \<open>
  The algo manager of \<open>components/WorkspaceDesktop.tsx\<close>: the regression bands an algo is pegged to, the
  layered orders it would send, and the manager window that stages, deploys and kills algos.  The answers of
  the services are parameters; a spread statistic is the untyped value that the service publishes.
\<close>

section \<open>Bands\<close>

record band_values =
  bv_mean :: "jsnum option"
  bv_upper :: jsnum
  bv_lower :: jsnum
  bv_sigma :: "jsnum option"
  bv_slope :: "jsnum option"
  bv_interval :: string
  bv_lookback :: jsnum
  bv_updatedAt :: "jsnum option"
  bv_label :: string

definition regressionBandsForPeg :: "jsval \<Rightarrow> jsval \<Rightarrow> jsval \<Rightarrow> band_values option" where
  "regressionBandsForPeg stat lookback deviations =
     (case normalizedLookback lookback of
        None \<Rightarrow> None
      | Some requestedLookback \<Rightarrow>
          (let statLookback = js_floor (num_or_d (js_get stat ''linearRegressionLookback'') (Fin 0));
               std = js_max (Fin 0) (num_or_d deviations (Fin 2));
               interval = (let i = js_get stat ''linearRegressionInterval'' in if truthy i then js_str i else ''30m'')
           in if js_lt (Fin 0) statLookback \<and> statLookback \<noteq> requestedLookback then None
              else case (finite_opt (js_get stat ''linearRegressionUpper''), finite_opt (js_get stat ''linearRegressionLower'')) of
                (Some upper, Some lower) \<Rightarrow> Some
                  \<lparr>bv_mean = finite_opt (js_get stat ''linearRegressionMean''), bv_upper = upper, bv_lower = lower,
                   bv_sigma = finite_opt (js_get stat ''linearRegressionSigma''), bv_slope = finite_opt (js_get stat ''linearRegressionSlope''),
                   bv_interval = interval, bv_lookback = requestedLookback,
                   bv_updatedAt = finite_opt (js_get stat ''linearRegressionUpdatedAt''),
                   bv_label = ''Linear Regression lookback '' @ jsnum_string requestedLookback @ '' '' @ interval @ '' +/-'' @ jsnum_string std\<rparr>
              | _ \<Rightarrow> None))"

definition regressionBandsFromSnapshot :: "regression_snapshot option \<Rightarrow> band_values option" where
  "regressionBandsFromSnapshot snapshot =
     (case snapshot of
        None \<Rightarrow> None
      | Some s \<Rightarrow>
          if \<not> rg_ok s then None
          else case (finite_opt (rg_upper s), finite_opt (rg_lower s), normalizedLookback (rg_lookback s)) of
            (Some upper, Some lower, Some lookback) \<Rightarrow>
              (let std = js_max (Fin 0) (num_or_d (rg_standardDeviations s) (Fin 2)) in Some
               \<lparr>bv_mean = finite_opt (rg_mean s), bv_upper = upper, bv_lower = lower, bv_sigma = finite_opt (rg_sigma s),
                bv_slope = finite_opt (rg_slope s), bv_interval = rg_interval s, bv_lookback = lookback,
                bv_updatedAt = finite_opt (rg_updatedAt s),
                bv_label = (if rg_label s \<noteq> '''' then rg_label s
                  else ''Linear Regression lookback '' @ jsnum_string lookback @ '' '' @
                    (if rg_interval s \<noteq> '''' then rg_interval s else ''30m'') @ '' +/-'' @ jsnum_string std)\<rparr>)
          | _ \<Rightarrow> None)"

text \<open>An array is joined with nothing for an absent element.\<close>

definition shown :: "jsval \<Rightarrow> string" where
  "shown v = (if is_nullish v then '''' else js_str v)"

definition algoUsesRegressionPeg :: "algo_def \<Rightarrow> jsval \<Rightarrow> bool" where
  "algoUsesRegressionPeg algo entryPeg =
     (let source = to_lower (join_with '' '' ([shown (js_get entryPeg ''source''), shown (js_get entryPeg ''lookback''),
            shown (js_get (cf_orderPolicy (ag_fields algo)) ''priceReference'')] @
            map (\<lambda>r. sr_field r @ '' '' @ sr_action r) (cf_signalRules (ag_fields algo))))
      in js_includes ''regression'' source \<or> js_includes ''least-squares'' source \<or> js_includes ''rls'' source \<or> js_includes ''band'' source)"

definition resolveAlgoSendBands :: "algo_def \<Rightarrow> jsval \<Rightarrow> jsval \<Rightarrow> regression_snapshot option \<Rightarrow> band_values option" where
  "resolveAlgoSendBands algo entryPeg spreadStat studySnapshot =
     (if \<not> algoUsesRegressionPeg algo entryPeg then None
      else case regressionBandsFromSnapshot studySnapshot of
        Some b \<Rightarrow> Some b
      | None \<Rightarrow> regressionBandsForPeg spreadStat (js_get entryPeg ''lookback'') (js_get entryPeg ''standardDeviations''))"

definition algo_peg :: "algo_def \<Rightarrow> string \<Rightarrow> jsval" where
  "algo_peg algo symbol = js_nn [cf_entryPeg (ag_fields algo), cf_entryPeg (normalizeCeriousFields (algo_value algo) symbol)]"

definition algoRegressionStudyRequest :: "algo_def \<Rightarrow> product_option option \<Rightarrow> study_request option js_result" where
  "algoRegressionStudyRequest algo opt =
     (let symbol = resolveAlgoMarketKey (algo_value algo) opt; entryPeg = algo_peg algo symbol;
          interval = to_lower (js_str (js_nn [js_get entryPeg ''interval'', js_get entryPeg ''timeframe'', JStr ''30m'']));
          sd = js_max (Fin 0) (num_or_d (js_get entryPeg ''standardDeviations'') (Fin 2))
      in if \<not> algoUsesRegressionPeg algo entryPeg then Inr None
         else case normalizedLookback (js_get entryPeg ''lookback'') of
           None \<Rightarrow> Inr None
         | Some lookback \<Rightarrow>
             (case regressionStudyKey (JStr symbol) interval lookback sd of
                Inl e \<Rightarrow> Inl e
              | Inr key \<Rightarrow> Inr (Some \<lparr>sq_key = key, sq_symbol = symbol, sq_interval = interval, sq_lookback = lookback,
                  sq_standardDeviations = sd\<rparr>)))"

definition algo_plan :: "algo_def \<Rightarrow> string \<Rightarrow> jsval" where
  "algo_plan algo symbol = js_nn [cf_layerPlan (ag_fields algo), cf_layerPlan (normalizeCeriousFields (algo_value algo) symbol)]"

section \<open>Orders\<close>

datatype deploy_side = Deploy_bid | Deploy_offer

record deployment_order =
  do_side :: deploy_side
  do_price :: jsnum
  do_size :: jsnum
  do_layer :: nat
  do_trigger :: string
  do_coverTicksFromFill :: jsnum
  do_coverTickSize :: jsnum

record deployment_build =
  db_orders :: "deployment_order list"
  db_missing :: "string list"

definition works_side :: "algo_def \<Rightarrow> jsval \<Rightarrow> deploy_side \<Rightarrow> bool" where
  "works_side algo layerPlan side =
     (case side of
        Deploy_bid \<Rightarrow> (ag_side algo = ''both'' \<or> ag_side algo = ''bid'') \<and> js_get layerPlan ''workBuySide'' \<noteq> JBool False
      | Deploy_offer \<Rightarrow> (ag_side algo = ''both'' \<or> ag_side algo = ''offer'') \<and> js_get layerPlan ''workSellSide'' \<noteq> JBool False)"

definition layer_count :: "jsval \<Rightarrow> nat" where
  "layer_count layerPlan = nat_of (js_clamp (js_floor (num_or_d (js_get layerPlan ''layerCount'') (Fin 1))) (Fin 1) (Fin 100))"

definition layer_price :: "deploy_side \<Rightarrow> jsnum \<Rightarrow> jsnum \<Rightarrow> jsnum \<Rightarrow> nat \<Rightarrow> jsnum" where
  "layer_price side base spacing tick layer =
     (let offset = js_mul (js_mul (Fin (of_nat layer)) spacing) tick
      in roundToPriceIncrement (case side of Deploy_bid \<Rightarrow> js_sub base offset | Deploy_offer \<Rightarrow> js_add base offset) tick)"

definition buildAlgoDeploymentOrders ::
  "algo_def \<Rightarrow> product_option option \<Rightarrow> jsval \<Rightarrow> regression_snapshot option \<Rightarrow> deployment_build" where
  "buildAlgoDeploymentOrders algo opt spreadStat studySnapshot =
     (let symbol = resolveAlgoMarketKey (algo_value algo) opt;
          fields = normalizeCeriousFields (algo_value algo) symbol;
          layerPlan = algo_plan algo symbol;
          entryPeg = algo_peg algo symbol;
          exitPolicy = js_nn [cf_exitPolicy (ag_fields algo), cf_exitPolicy fields];
          requestedLookback = normalizedLookback (js_get entryPeg ''lookback'')
      in case finiteMarketPrice (opt_num (case opt of None \<Rightarrow> None | Some o' \<Rightarrow> po_tickSize o')) of
           None \<Rightarrow> \<lparr>db_orders = [], db_missing = [ag_name algo @ '': product tick size missing'']\<rparr>
         | Some tick \<Rightarrow>
             if js_le tick (Fin 0) then \<lparr>db_orders = [], db_missing = [ag_name algo @ '': product tick size missing'']\<rparr>
             else if algoUsesRegressionPeg algo entryPeg \<and> requestedLookback = None
             then \<lparr>db_orders = [], db_missing = [ag_name algo @ '': regression lookback is not defined'']\<rparr>
             else
               (let pegBands = resolveAlgoSendBands algo entryPeg spreadStat studySnapshot;
                    spacingTicks = num_or_d (js_get layerPlan ''layerSpacingTicks'') (Fin 0);
                    size = js_max (Fin 1) (or_num (ag_clipSize algo) (Fin 1));
                    base = (\<lambda>side. map_option (case side of Deploy_bid \<Rightarrow> bv_lower | Deploy_offer \<Rightarrow> bv_upper) pegBands);
                    label = (case pegBands of Some b \<Rightarrow> bv_label b
                      | None \<Rightarrow> js_trim (''Linear Regression lookback '' @ (case requestedLookback of None \<Rightarrow> '''' | Some l \<Rightarrow> jsnum_string l)));
                    cover = num_or_d (js_get exitPolicy ''coverTicksFromFill'') (Fin 0);
                    missing = (\<lambda>side text sign. if works_side algo layerPlan side \<and> base side = None
                      then [ag_name algo @ text @ js_str (js_get entryPeg ''source'') @ sign @ js_str (js_get entryPeg ''standardDeviations'') @
                        '' not published''] else []);
                    order = (\<lambda>layer side trigger. case base side of
                        Some b \<Rightarrow> if works_side algo layerPlan side
                          then [\<lparr>do_side = side, do_price = layer_price side b spacingTicks tick layer, do_size = size, do_layer = layer + 1,
                            do_trigger = label @ trigger, do_coverTicksFromFill = cover, do_coverTickSize = tick\<rparr>] else []
                      | None \<Rightarrow> [])
                in \<lparr>db_orders = concat (map (\<lambda>layer. order layer Deploy_bid '' lower'' @ order layer Deploy_offer '' upper'') [0..<layer_count layerPlan]),
                    db_missing = missing Deploy_bid '': buy send peg '' '' -'' @ missing Deploy_offer '': sell send peg '' '' +''\<rparr>))"

section \<open>The manager window\<close>

record manager_session =
  ms_library :: library_state
  ms_filter :: string
  ms_algoToLoad :: string
  ms_staged :: "string list"
  ms_selected :: "string list"
  ms_status :: string
  ms_deploying :: bool
  ms_storage :: browser_storage
  ms_pushed :: "jsval list"

definition save_selection :: "rat \<Rightarrow> manager_session \<Rightarrow> manager_session" where
  "save_selection now s = s\<lparr>ms_storage := saveAlgoManagerWorkspaceState now \<lparr>mg_stagedAlgoIds = ms_staged s, mg_selectedDeployIds = ms_selected s,
     mg_statusFilter = ms_filter s, mg_deployStatus = '''', mg_updatedAt = Fin now\<rparr> (ms_storage s)\<rparr>"

definition mount_manager :: "rat \<Rightarrow> library_state \<Rightarrow> browser_storage \<Rightarrow> manager_session" where
  "mount_manager now lib st =
     (let initial = loadAlgoManagerWorkspaceState now st
      in save_selection now \<lparr>ms_library = lib, ms_filter = mg_statusFilter initial, ms_algoToLoad = '''', ms_staged = [], ms_selected = [],
           ms_status = mg_deployStatus initial, ms_deploying = False, ms_storage = st, ms_pushed = []\<rparr>)"

text \<open>The handler of the event that a restored workspace sends.\<close>

definition sync_manager :: "rat \<Rightarrow> manager_session \<Rightarrow> manager_session" where
  "sync_manager now s =
     (let next = loadAlgoManagerWorkspaceState now (ms_storage s)
      in save_selection now (s\<lparr>ms_filter := mg_statusFilter next, ms_staged := [], ms_selected := [], ms_status := mg_deployStatus next\<rparr>))"

definition include_once :: "string \<Rightarrow> string list \<Rightarrow> string list" where
  "include_once i xs = (if i \<in> set xs then xs else xs @ [i])"

definition loadAlgo :: "manager_session \<Rightarrow> manager_session" where
  "loadAlgo s =
     (if ms_algoToLoad s = '''' then s
      else s\<lparr>ms_staged := include_once (ms_algoToLoad s) (ms_staged s), ms_selected := include_once (ms_algoToLoad s) (ms_selected s),
             ms_algoToLoad := ''''\<rparr>)"

definition toggleDeploySelection :: "string \<Rightarrow> manager_session \<Rightarrow> manager_session" where
  "toggleDeploySelection i s =
     s\<lparr>ms_selected := (if i \<in> set (ms_selected s) then filter (\<lambda>j. j \<noteq> i) (ms_selected s) else ms_selected s @ [i])\<rparr>"

definition find_algo :: "string \<Rightarrow> algo_def list \<Rightarrow> algo_def option" where
  "find_algo i algos = List.find (\<lambda>a. ag_id a = i) algos"

definition stagedAlgos :: "manager_session \<Rightarrow> algo_def list" where
  "stagedAlgos s = List.map_filter (\<lambda>i. find_algo i (lb_algos (ms_library s))) (ms_staged s)"

definition set_status :: "(string \<Rightarrow> string \<Rightarrow> jsnum) \<Rightarrow> rat \<Rightarrow> string \<Rightarrow> library_state \<Rightarrow> string \<Rightarrow> library_state" where
  "set_status lc now status lib i = library_step lc (\<lambda>_. NaN) now lib (UpdateAlgo i (\<lambda>a. a\<lparr>ag_status := status\<rparr>))"

text \<open>What the service answered: the error of a request that failed, or the HTTP status and the payload.\<close>

datatype answer = Unreachable string | Answered bool string jsval

definition push_state :: "jsval \<Rightarrow> manager_session \<Rightarrow> manager_session" where
  "push_state payload s = (if truthy (js_get payload ''state'') then s\<lparr>ms_pushed := ms_pushed s @ [js_get payload ''state'']\<rparr> else s)"

definition plural :: "jsnum \<Rightarrow> string" where
  "plural n = (if n = Fin 1 then '''' else ''s'')"

definition deployAlgoDefinitions ::
  "(string \<Rightarrow> string \<Rightarrow> jsnum) \<Rightarrow> rat \<Rightarrow> answer \<Rightarrow> algo_def list \<Rightarrow> manager_session \<Rightarrow> manager_session \<times> jsnum" where
  "deployAlgoDefinitions lc now answer selected s =
     (if selected = [] then (s\<lparr>ms_status := ''Select algo rows to deploy''\<rparr>, Fin 0)
      else case answer of
        Unreachable message \<Rightarrow> (s\<lparr>ms_status := ''DEPLOY ERROR: '' @ message\<rparr>, Fin 0)
      | Answered ok http payload \<Rightarrow>
          (let s = push_state payload s in
           if \<not> ok \<or> \<not> truthy (js_get payload ''ok'')
           then let errors = arr_elems (js_get payload ''errors''); joined = join_with '' | '' (map shown (take 2 errors));
                  detail = (if truthy (js_get payload ''detail'') then js_str (js_get payload ''detail'')
                    else if joined \<noteq> '''' then joined else ''HTTP '' @ http)
                in (s\<lparr>ms_status := ''DEPLOY ERROR: '' @ detail @ (if 2 < length errors
                      then '' (+'' @ jsnum_string (Fin (of_nat (length errors - 2))) @ '' more)'' else '''')\<rparr>, Fin 0)
           else let accepted = js_num (js_nn [js_get payload ''acceptedCount'', JNum (Fin 0)]); notes = filter truthy (arr_elems (js_get payload ''notes''))
             in (s\<lparr>ms_library := foldl (set_status lc now ''quoting'') (ms_library s) (map ag_id selected),
                   ms_status := ''Released '' @ jsnum_string accepted @ '' algo order'' @ plural accepted @ '' from server study engine.'' @
                     (case notes of [] \<Rightarrow> '''' | n # _ \<Rightarrow> '' '' @ js_str n)\<rparr>, accepted)))"

definition deploySelected :: "(string \<Rightarrow> string \<Rightarrow> jsnum) \<Rightarrow> rat \<Rightarrow> answer \<Rightarrow> manager_session \<Rightarrow> manager_session" where
  "deploySelected lc now answer s = fst (deployAlgoDefinitions lc now answer (filter (\<lambda>a. ag_id a \<in> set (ms_selected s)) (stagedAlgos s)) s)"





section \<open>Lemmas: prices of layers\<close>

lemma peg_bands_fin:
  assumes "regressionBandsForPeg stat lookback deviations = Some b"
  shows "is_fin (bv_upper b) \<and> is_fin (bv_lower b)"
proof (cases "finite_opt (js_get stat ''linearRegressionUpper'')")
  case None
  then show ?thesis using assms by (auto simp: regressionBandsForPeg_def Let_def split: option.splits if_splits)
next
  case (Some u)
  show ?thesis
  proof (cases "finite_opt (js_get stat ''linearRegressionLower'')")
    case None
    then show ?thesis using assms Some by (auto simp: regressionBandsForPeg_def Let_def split: option.splits if_splits)
  next
    case (Some l)
    then show ?thesis using assms \<open>finite_opt (js_get stat ''linearRegressionUpper'') = Some u\<close> finite_opt_fin
      by (cases "normalizedLookback lookback") (auto simp: regressionBandsForPeg_def Let_def simp del: not_None_eq split: if_split_asm)
  qed
qed

lemma snapshot_bands_fin:
  assumes "regressionBandsFromSnapshot snapshot = Some b"
  shows "is_fin (bv_upper b) \<and> is_fin (bv_lower b)"
proof -
  obtain s where s: "snapshot = Some s" "rg_ok s" using assms by (cases snapshot) (auto simp: regressionBandsFromSnapshot_def split: if_split_asm)
  show ?thesis
  proof (cases "finite_opt (rg_upper s)")
    case None
    then show ?thesis using assms s by (simp add: regressionBandsFromSnapshot_def)
  next
    case (Some u)
    show ?thesis
      by (cases "finite_opt (rg_lower s)"; cases "normalizedLookback (rg_lookback s)")
        (use assms s Some finite_opt_fin in \<open>auto simp: regressionBandsFromSnapshot_def Let_def\<close>)
  qed
qed

lemma bands_fin:
  assumes "resolveAlgoSendBands algo peg stat snap = Some b"
  shows "is_fin (bv_upper b) \<and> is_fin (bv_lower b)"
  using assms peg_bands_fin snapshot_bands_fin
  by (cases "regressionBandsFromSnapshot snap") (auto simp: resolveAlgoSendBands_def split: if_split_asm)

definition base_of :: "deploy_side \<Rightarrow> band_values \<Rightarrow> jsnum" where
  "base_of side = (case side of Deploy_bid \<Rightarrow> bv_lower | Deploy_offer \<Rightarrow> bv_upper)"

text \<open>What a layer aims at, before the price is put on the grid.\<close>

definition aim :: "deploy_side \<Rightarrow> rat \<Rightarrow> rat \<Rightarrow> rat \<Rightarrow> nat \<Rightarrow> rat" where
  "aim side base spacing tick i = (case side of Deploy_bid \<Rightarrow> base - of_nat i * spacing * tick | Deploy_offer \<Rightarrow> base + of_nat i * spacing * tick)"

lemma layer_price_aim:
  "layer_price side (Fin base) (Fin spacing) (Fin tick) i = roundToPriceIncrement (Fin (aim side base spacing tick i)) (Fin tick)"
  by (cases side) (simp_all add: layer_price_def aim_def)

lemma round_mono:
  assumes "0 < t" "p \<le> q" "roundToPriceIncrement (Fin p) (Fin t) = Fin x" "roundToPriceIncrement (Fin q) (Fin t) = Fin y"
  shows "x \<le> y"
proof -
  have "p / t + 1 / 2 \<le> q / t + 1 / 2" using assms(1,2) by (simp add: divide_right_mono)
  then have f: "\<lfloor>p / t + 1 / 2\<rfloor> \<le> \<lfloor>q / t + 1 / 2\<rfloor>" by (rule floor_mono)
  have "x = rat_of_int \<lfloor>p / t + 1 / 2\<rfloor> * t" "y = rat_of_int \<lfloor>q / t + 1 / 2\<rfloor> * t"
    using assms(3,4) roundToPriceIncrement_Fin [OF assms(1)] by simp_all
  then show ?thesis using f assms(1) by (simp only:) (intro mult_right_mono, simp_all)
qed

lemma round_near:
  assumes "0 < t"
  shows "\<exists>k :: int. roundToPriceIncrement (Fin p) (Fin t) = Fin (of_int k * t) \<and> \<bar>of_int k * t - p\<bar> \<le> t / 2"
proof -
  define k where "k = \<lfloor>p / t + 1 / 2\<rfloor>"
  have "of_int k \<le> p / t + 1 / 2" "p / t + 1 / 2 < of_int k + 1" unfolding k_def by linarith+
  then have "of_int k * t \<le> (p / t + 1 / 2) * t" "(p / t + 1 / 2) * t < (of_int k + 1) * t"
    using assms by (simp_all only: mult_right_mono mult_strict_right_mono less_imp_le)
  then have "of_int k * t \<le> p + t / 2" "p + t / 2 < of_int k * t + t" using assms by (simp_all add: algebra_simps)
  then have "\<bar>of_int k * t - p\<bar> \<le> t / 2" by linarith
  moreover have "roundToPriceIncrement (Fin p) (Fin t) = Fin (of_int k * t)"
    using roundToPriceIncrement_Fin [OF assms] by (simp add: k_def)
  ultimately show ?thesis by blast
qed

lemma size_least: "js_le (Fin 1) (js_max (Fin 1) (or_num c (Fin 1)))"
  by (cases c) (auto simp: or_num_def js_max_def js_le_def)

text \<open>Every order is the order of a layer that is worked, on a published band.\<close>

lemma deployed_order:
  assumes "d \<in> set (db_orders (buildAlgoDeploymentOrders algo opt stat snap))"
  defines "symbol \<equiv> resolveAlgoMarketKey (algo_value algo) opt"
  obtains q t b i where "opt = Some q" "po_tickSize q = Some (Fin t)" "0 < t"
    "resolveAlgoSendBands algo (algo_peg algo symbol) stat snap = Some b" "i < layer_count (algo_plan algo symbol)"
    "works_side algo (algo_plan algo symbol) (do_side d)" "do_layer d = i + 1" "js_le (Fin 1) (do_size d)"
    "do_price d = layer_price (do_side d) (base_of (do_side d) b)
      (num_or_d (js_get (algo_plan algo symbol) ''layerSpacingTicks'') (Fin 0)) (Fin t) i"
proof (cases "finiteMarketPrice (opt_num (case opt of None \<Rightarrow> None | Some q \<Rightarrow> po_tickSize q))")
  case None
  then show ?thesis using assms(1) by (simp add: buildAlgoDeploymentOrders_def Let_def)
next
  case (Some tick)
  then obtain q where q: "opt = Some q" "po_tickSize q = Some tick" "is_fin tick"
    by (cases opt; cases "po_tickSize (the opt)") (auto simp: finiteMarketPrice_def Let_def opt_num_def split: if_splits)
  have d: "d \<in> set (db_orders (buildAlgoDeploymentOrders algo opt stat snap))" by (rule assms(1))
  have pos: "\<not> js_le tick (Fin 0)" using d Some by (auto simp: buildAlgoDeploymentOrders_def Let_def split: if_splits)
  then obtain t where t: "tick = Fin t" "0 < t" using q(3) by (cases tick) auto
  have "resolveAlgoSendBands algo (algo_peg algo symbol) stat snap \<noteq> None"
    using d by (auto simp: buildAlgoDeploymentOrders_def Let_def symbol_def split: if_splits option.splits)
  then obtain b where b: "resolveAlgoSendBands algo (algo_peg algo symbol) stat snap = Some b" by blast
  have "\<exists>i < layer_count (algo_plan algo symbol). works_side algo (algo_plan algo symbol) (do_side d) \<and> do_layer d = i + 1 \<and>
      js_le (Fin 1) (do_size d) \<and> do_price d = layer_price (do_side d) (base_of (do_side d) b)
        (num_or_d (js_get (algo_plan algo symbol) ''layerSpacingTicks'') (Fin 0)) tick i"
    using d Some pos b
    by (auto simp: buildAlgoDeploymentOrders_def Let_def base_of_def size_least simp flip: symbol_def split: if_splits)
  then show ?thesis using that q b t by auto
qed

text \<open>The same with the tick, the spacing and the bands of the algo known.\<close>

lemma deployed_layer:
  assumes "d \<in> set (db_orders (buildAlgoDeploymentOrders algo (Some q) stat snap))"
    "num_or_d (js_get (algo_plan algo (resolveAlgoMarketKey (algo_value algo) (Some q))) ''layerSpacingTicks'') (Fin 0) = Fin spacing"
    "resolveAlgoSendBands algo (algo_peg algo (resolveAlgoMarketKey (algo_value algo) (Some q))) stat snap = Some b"
  shows "\<exists>t i. po_tickSize q = Some (Fin t) \<and> 0 < t \<and> do_layer d = i + 1 \<and>
    i < layer_count (algo_plan algo (resolveAlgoMarketKey (algo_value algo) (Some q))) \<and> js_le (Fin 1) (do_size d) \<and>
    do_price d = layer_price (do_side d) (base_of (do_side d) b) (Fin spacing) (Fin t) i"
  by (rule deployed_order [OF assms(1)]) (use assms(2,3) in auto)

section \<open>Lemmas: statuses\<close>



lemma push_state_keeps [simp]:
  "ms_library (push_state p s) = ms_library s" "ms_staged (push_state p s) = ms_staged s"
  "ms_selected (push_state p s) = ms_selected s" "ms_storage (push_state p s) = ms_storage s"
  by (simp_all add: push_state_def)

section \<open>Properties\<close>

text \<open>
  C19. Every order that an algo would send is the order of one of its layers: its price is a multiple of the
  product's tick, at most half a tick from the band moved out by the layer's spacing, and its size is at
  least one.
\<close>

theorem deployed_orders_on_grid:
  fixes algo q stat snap d tick spacing lo up b
  defines "symbol \<equiv> resolveAlgoMarketKey (algo_value algo) (Some q)"
  assumes "d \<in> set (db_orders (buildAlgoDeploymentOrders algo (Some q) stat snap))" "po_tickSize q = Some (Fin tick)"
    "num_or_d (js_get (algo_plan algo symbol) ''layerSpacingTicks'') (Fin 0) = Fin spacing"
    "resolveAlgoSendBands algo (algo_peg algo symbol) stat snap = Some b" "bv_lower b = Fin lo" "bv_upper b = Fin up"
  shows "1 \<le> do_layer d \<and> do_layer d \<le> layer_count (algo_plan algo symbol) \<and> js_le (Fin 1) (do_size d) \<and>
    (\<exists>k :: int. do_price d = Fin (of_int k * tick) \<and>
      \<bar>of_int k * tick - (case do_side d of Deploy_bid \<Rightarrow> lo - of_nat (do_layer d - 1) * spacing * tick
        | Deploy_offer \<Rightarrow> up + of_nat (do_layer d - 1) * spacing * tick)\<bar> \<le> tick / 2)"
proof -
  obtain i where i: "i < layer_count (algo_plan algo symbol)" "do_layer d = i + 1" "js_le (Fin 1) (do_size d)" "0 < tick"
    "do_price d = layer_price (do_side d) (base_of (do_side d) b) (Fin spacing) (Fin tick) i"
    using deployed_layer [OF assms(2) assms(4,5) [unfolded symbol_def]] assms(3) by (auto simp: symbol_def)
  have "do_price d = roundToPriceIncrement (Fin (aim (do_side d) (case do_side d of Deploy_bid \<Rightarrow> lo | Deploy_offer \<Rightarrow> up) spacing tick i)) (Fin tick)"
    using i(5) assms(6,7) by (cases "do_side d") (simp_all add: base_of_def layer_price_aim)
  then show ?thesis using i(1-3) round_near [OF i(4)] by (cases "do_side d") (auto simp: aim_def)
qed

lemma layer_count_pos: "0 < layer_count plan"
proof -
  let ?x = "js_clamp (js_floor (num_or_d (js_get plan ''layerCount'') (Fin 1))) (Fin 1) (Fin 100)"
  have "or_num x (Fin 1) \<noteq> NaN" for x by (cases x) (simp_all add: or_num_def)
  then have "js_floor (num_or_d (js_get plan ''layerCount'') (Fin 1)) \<noteq> NaN"
    unfolding num_or_d_def using js_floor.elims by (metis jsnum.distinct(1,3,5))
  then obtain r where "?x = Fin r" "1 \<le> r"
    by (cases "js_floor (num_or_d (js_get plan ''layerCount'') (Fin 1))"; atomize (full))
      (auto simp: js_clamp_def js_max_def js_min_def)
  then show ?thesis by (simp add: layer_count_def nat_of_def)
qed

lemma built_orders:
  assumes "po_tickSize q = Some (Fin t)" "0 < t"
    "resolveAlgoSendBands algo (algo_peg algo (resolveAlgoMarketKey (algo_value algo) (Some q))) stat snap = Some b"
    "db_orders (buildAlgoDeploymentOrders algo (Some q) stat snap) \<noteq> []"
    "works_side algo (algo_plan algo (resolveAlgoMarketKey (algo_value algo) (Some q))) side"
  shows "\<exists>d \<in> set (db_orders (buildAlgoDeploymentOrders algo (Some q) stat snap)). do_side d = side \<and> do_layer d = 1"
proof -
  have f: "finiteMarketPrice (opt_num (Some (Fin t))) = Some (Fin t)" by (simp add: finiteMarketPrice_def Let_def opt_num_def)
  show ?thesis
    using assms layer_count_pos
    by (cases side) (force simp: buildAlgoDeploymentOrders_def Let_def f base_of_def split: if_splits)+
qed

text \<open>
  C20. With a spacing that is not negative every bid of an algo is at or below its lower band on the price
  grid and every offer at or above its upper band, and the first layer sits there.  So an algo that sends
  orders for both sides sends crossing ones exactly when its bands cross on the grid, which nothing checks.
\<close>

theorem deployed_orders_cross_with_bands:
  fixes algo q stat snap spacing b t
  defines "symbol \<equiv> resolveAlgoMarketKey (algo_value algo) (Some q)"
    and "orders \<equiv> set (db_orders (buildAlgoDeploymentOrders algo (Some q) stat snap))"
    and "lower \<equiv> roundToPriceIncrement (bv_lower b) (Fin t)" and "upper \<equiv> roundToPriceIncrement (bv_upper b) (Fin t)"
  assumes "po_tickSize q = Some (Fin t)"
    "num_or_d (js_get (algo_plan algo symbol) ''layerSpacingTicks'') (Fin 0) = Fin spacing" "0 \<le> spacing"
    "resolveAlgoSendBands algo (algo_peg algo symbol) stat snap = Some b"
  shows "(\<forall>d \<in> orders. if do_side d = Deploy_bid then js_le (do_price d) lower \<and> (do_layer d = 1 \<longrightarrow> do_price d = lower)
      else js_le upper (do_price d) \<and> (do_layer d = 1 \<longrightarrow> do_price d = upper)) \<and>
    (orders \<noteq> {} \<and> works_side algo (algo_plan algo symbol) Deploy_bid \<and> works_side algo (algo_plan algo symbol) Deploy_offer \<longrightarrow>
      ((\<exists>d \<in> orders. \<exists>e \<in> orders. do_side d = Deploy_bid \<and> do_side e = Deploy_offer \<and> js_lt (do_price e) (do_price d)) \<longleftrightarrow> js_lt upper lower))"
proof -
  obtain lo up where band: "bv_lower b = Fin lo" "bv_upper b = Fin up"
    using bands_fin [OF assms(8)] by (cases "bv_lower b"; cases "bv_upper b") auto
  have layer: "if do_side d = Deploy_bid then js_le (do_price d) lower \<and> (do_layer d = 1 \<longrightarrow> do_price d = lower)
      else js_le upper (do_price d) \<and> (do_layer d = 1 \<longrightarrow> do_price d = upper)" if mem: "d \<in> orders" for d
  proof -
    obtain i where t: "0 < t" "do_layer d = i + 1" "do_price d = layer_price (do_side d) (base_of (do_side d) b) (Fin spacing) (Fin t) i"
      using deployed_layer [OF mem [unfolded orders_def] assms(6,8) [unfolded symbol_def]] assms(5) by auto
    have off: "0 \<le> of_nat i * spacing * t" using t(1) assms(7) by (intro mult_nonneg_nonneg) simp_all
    have r: "\<exists>x. roundToPriceIncrement (Fin p) (Fin t) = Fin x" for p using round_near [OF t(1)] by blast
    obtain x where x: "do_price d = Fin x" using t(3) band r by (cases "do_side d") (auto simp: base_of_def layer_price_aim)
    obtain l u where lu: "lower = Fin l" "upper = Fin u" using r band by (metis lower_def upper_def)
    show ?thesis
    proof (cases "do_side d")
      case Deploy_bid
      then have "roundToPriceIncrement (Fin (lo - of_nat i * spacing * t)) (Fin t) = Fin x"
        using t(3) x band(1) by (simp add: layer_price_aim base_of_def aim_def)
      moreover have "roundToPriceIncrement (Fin lo) (Fin t) = Fin l" using lu(1) band(1) by (simp add: lower_def)
      ultimately show ?thesis using round_mono [OF t(1), of "lo - of_nat i * spacing * t" lo] off Deploy_bid x lu(1) t(2) by auto
    next
      case Deploy_offer
      then have "roundToPriceIncrement (Fin (up + of_nat i * spacing * t)) (Fin t) = Fin x"
        using t(3) x band(2) by (simp add: layer_price_aim base_of_def aim_def)
      moreover have "roundToPriceIncrement (Fin up) (Fin t) = Fin u" using lu(2) band(2) by (simp add: upper_def)
      ultimately show ?thesis using round_mono [OF t(1), of up "up + of_nat i * spacing * t"] off Deploy_offer x lu(2) t(2) by auto
    qed
  qed
  have "(\<exists>d \<in> orders. \<exists>e \<in> orders. do_side d = Deploy_bid \<and> do_side e = Deploy_offer \<and> js_lt (do_price e) (do_price d)) \<longleftrightarrow> js_lt upper lower"
    if both: "orders \<noteq> {}" "works_side algo (algo_plan algo symbol) Deploy_bid" "works_side algo (algo_plan algo symbol) Deploy_offer"
  proof
    assume "\<exists>d \<in> orders. \<exists>e \<in> orders. do_side d = Deploy_bid \<and> do_side e = Deploy_offer \<and> js_lt (do_price e) (do_price d)"
    then obtain d e where de: "d \<in> orders" "e \<in> orders" "do_side d = Deploy_bid" "do_side e = Deploy_offer" "js_lt (do_price e) (do_price d)"
      by blast
    with layer [of d] layer [of e] have "js_le (do_price d) lower" "js_le upper (do_price e)" by simp_all
    with de(5) show "js_lt upper lower"
      by (cases "do_price d"; cases "do_price e"; cases upper; cases lower) (auto simp: js_le_def)
  next
    assume "js_lt upper lower"
    obtain d0 where d0: "d0 \<in> orders" using both(1) by blast
    then have t: "0 < t" using deployed_layer [OF d0 [unfolded orders_def] assms(6,8) [unfolded symbol_def]] assms(5) by auto
    have some: "db_orders (buildAlgoDeploymentOrders algo (Some q) stat snap) \<noteq> []" using both(1) by (auto simp: orders_def)
    note first = built_orders [OF assms(5) t assms(8) [unfolded symbol_def] some]
    obtain d e where "d \<in> orders" "do_side d = Deploy_bid" "do_layer d = 1" "e \<in> orders" "do_side e = Deploy_offer" "do_layer e = 1"
      using first [OF both(2) [unfolded symbol_def]] first [OF both(3) [unfolded symbol_def]] by (auto simp: orders_def)
    with layer [of d] layer [of e] \<open>js_lt upper lower\<close>
    show "\<exists>d \<in> orders. \<exists>e \<in> orders. do_side d = Deploy_bid \<and> do_side e = Deploy_offer \<and> js_lt (do_price e) (do_price d)" by auto
  qed
  with layer show ?thesis by blast
qed

definition peg_product :: product_option where
  "peg_product = \<lparr>po_provider = ''cme'', po_symbol = ''ES_NQ'', po_label = ''ES_NQ'', po_subtitle = '''', po_marketKey = Some ''ES_NQ'',
     po_asset = None, po_live = Some True, po_volume = JUndef, po_openInterest = JUndef, po_tickSize = Some (Fin (1 / 4)), po_tickValue = None,
     po_multiplier = None, po_rest = JUndef\<rparr>"

definition peg_study :: regression_snapshot where
  "peg_study = \<lparr>rg_ok = True, rg_interval = ''30m'', rg_lookback = JNum (Fin 500), rg_standardDeviations = JNum (Fin 2), rg_updatedAt = JUndef,
     rg_mean = JNum (Fin 100), rg_upper = JNum (Fin (1011 / 10)), rg_lower = JNum (Fin (989 / 10)), rg_sigma = JUndef, rg_slope = JUndef, rg_label = ''LR''\<rparr>"

definition pegged_algo :: algo_def where
  "pegged_algo = (sample_algo ''a'' ''held'')\<lparr>ag_fields := (ag_fields (sample_algo ''a'' ''held''))
     \<lparr>cf_entryPeg := JObj [(''source'', JStr ''linear-regression''), (''lookback'', JInt 500), (''standardDeviations'', JInt 2)]\<rparr>\<rparr>"

lemma pegged_plan:
  "num_or_d (js_get (algo_plan pegged_algo (resolveAlgoMarketKey (algo_value pegged_algo) (Some peg_product))) ''layerSpacingTicks'') (Fin 0) = Fin 2"
  "layer_count (algo_plan pegged_algo (resolveAlgoMarketKey (algo_value pegged_algo) (Some peg_product))) = 3"
  by code_simp+

definition sample_bands :: band_values where
  "sample_bands = the (regressionBandsFromSnapshot (Some peg_study))"

lemma pegged_bands:
  "resolveAlgoSendBands pegged_algo (algo_peg pegged_algo (resolveAlgoMarketKey (algo_value pegged_algo) (Some peg_product))) JUndef (Some peg_study) =
    Some sample_bands"
  "bv_lower sample_bands = Fin (989 / 10)" "bv_upper sample_bands = Fin (1011 / 10)"
  by code_simp+

definition pegged_orders :: "deployment_order list" where
  "pegged_orders = db_orders (buildAlgoDeploymentOrders pegged_algo (Some peg_product) JUndef (Some peg_study))"

lemma pegged_orders_shown:
  "map (\<lambda>d. (do_side d, do_price d, do_layer d)) pegged_orders =
    [(Deploy_bid, Fin 99, 1), (Deploy_offer, Fin 101, 1), (Deploy_bid, Fin (197 / 2), 2), (Deploy_offer, Fin (203 / 2), 2),
     (Deploy_bid, Fin 98, 3), (Deploy_offer, Fin 102, 3)]"
  by code_simp

lemma pegged_order:
  "i < 6 \<Longrightarrow> pegged_orders ! i \<in> set (db_orders (buildAlgoDeploymentOrders pegged_algo (Some peg_product) JUndef (Some peg_study)))"
  unfolding pegged_orders_def [symmetric] using arg_cong [OF pegged_orders_shown, of length] by (intro nth_mem) simp

lemma pegged_side:
  "do_side (pegged_orders ! 0) = Deploy_bid" "do_side (pegged_orders ! 5) = Deploy_offer" "do_layer (pegged_orders ! 5) = 3"
  using arg_cong [OF pegged_orders_shown, of "\<lambda>xs. xs ! 0"] arg_cong [OF pegged_orders_shown, of "\<lambda>xs. xs ! 5"]
    arg_cong [OF pegged_orders_shown, of length]
  by (simp_all add: nth_map)

theorem deployed_orders_on_grid_witness:
  "\<exists>k :: int. do_price (pegged_orders ! 5) = Fin (of_int k * (1 / 4)) \<and> \<bar>of_int k * (1 / 4) - (1011 / 10 + 2 * 2 * (1 / 4) :: rat)\<bar> \<le> 1 / 4 / 2"
  using deployed_orders_on_grid [where algo = pegged_algo and q = peg_product and stat = JUndef and snap = "Some peg_study" and
      d = "pegged_orders ! 5" and tick = "1 / 4" and spacing = 2 and b = sample_bands and lo = "989 / 10" and up = "1011 / 10",
      OF pegged_order _ pegged_plan(1) pegged_bands]
  by (simp add: peg_product_def pegged_side)

theorem deployed_orders_cross_with_bands_witness:
  "js_le (Fin 101) (do_price (pegged_orders ! 5)) \<and> js_le (do_price (pegged_orders ! 0)) (Fin 99)"
proof -
  have r: "roundToPriceIncrement (Fin (989 / 10)) (Fin (1 / 4)) = Fin 99" "roundToPriceIncrement (Fin (1011 / 10)) (Fin (1 / 4)) = Fin 101"
    by code_simp+
  have "po_tickSize peg_product = Some (Fin (1 / 4))" by (simp add: peg_product_def)
  note cross = deployed_orders_cross_with_bands [where stat = JUndef and snap = "Some peg_study", OF this pegged_plan(1) _ pegged_bands(1)]
  show ?thesis
    using bspec [OF conjunct1 [OF cross] pegged_order [of 5]] bspec [OF conjunct1 [OF cross] pegged_order [of 0]]
    by (simp add: pegged_bands r pegged_side)
qed

text \<open>A spacing below zero moves the bids up and the offers down until they cross.\<close>

lemma negative_spacing_crosses:
  "js_lt (layer_price Deploy_offer (Fin 101) (Fin (- 2)) (Fin (1 / 4)) 4) (layer_price Deploy_bid (Fin 99) (Fin (- 2)) (Fin (1 / 4)) 4)"
  by code_simp





text \<open>
  Opening the algo manager, or restoring a workspace while it is open, empties the row selection on the
  screen and in storage, whatever rows the stored state had; only the status filter survives.
\<close>

theorem manager_selection_lost:
  fixes st lib s now later
  shows "(let m = mount_manager now lib st; stored = loadAlgoManagerWorkspaceState later (ms_storage m)
    in ms_staged m = [] \<and> ms_selected m = [] \<and> mg_stagedAlgoIds stored = [] \<and> mg_selectedDeployIds stored = [] \<and>
       mg_statusFilter stored = mg_statusFilter (loadAlgoManagerWorkspaceState now st)) \<and>
    (let m = sync_manager now s; stored = loadAlgoManagerWorkspaceState later (ms_storage m)
    in ms_staged m = [] \<and> ms_selected m = [] \<and> mg_stagedAlgoIds stored = [] \<and> mg_selectedDeployIds stored = [] \<and>
       mg_statusFilter stored = mg_statusFilter (loadAlgoManagerWorkspaceState now (ms_storage s)))"
proof -
  have f: "normalizeAlgoStatusFilter (JStr (normalizeAlgoStatusFilter v)) = normalizeAlgoStatusFilter v" for v
    by (rule status_filter_read) (simp add: normalizeAlgoStatusFilter_def Let_def)
  have e: "normalizeStringIdList (JArr []) = []" by (simp add: normalizeStringIdList_def)
  have r: "mg_statusFilter (loadAlgoManagerWorkspaceState now x) = normalizeAlgoStatusFilter (JStr (mg_statusFilter (loadAlgoManagerWorkspaceState now x)))" for now x
    by (cases "st_manager x") (simp_all add: loadAlgoManagerWorkspaceState_def normalizeAlgoManagerWorkspaceState_def Let_def f)
  show ?thesis
    using r [symmetric]
    by (simp add: mount_manager_def sync_manager_def save_selection_def Let_def saveAlgoManagerWorkspaceState_def
        loadAlgoManagerWorkspaceState_def [of later] stored_def normalizeAlgoManagerWorkspaceState_def manager_value_def e)
qed

end
