(* ===== verification/Ladder.thy ===== *)
theory Ladder
  imports Quotes Workspace
begin

text \<open>
  The depth ladder of \<open>components/WorkspaceDesktop.tsx\<close>: the stream that feeds it, the aggregation of book
  levels into rows, the model of the market it shows, its anchor and rows, and its columns.  The height of the
  ladder's body is a parameter.
\<close>

section \<open>Levels\<close>

definition isRawDepthPrice :: "jsval \<Rightarrow> bool" where
  "isRawDepthPrice price = (case price of JNum (Fin q) \<Rightarrow> q < 0 \<or> 1 < q | _ \<Rightarrow> False)"

definition bookUsesRawPrices :: "poly_book option \<Rightarrow> poly_tick list \<Rightarrow> bool" where
  "bookUsesRawPrices book ticks =
     ((case book of None \<Rightarrow> False
       | Some b \<Rightarrow> list_ex isRawDepthPrice ([pb_best_bid b, pb_best_ask b, pb_mid b] @
           map (JNum \<circ> pl_price) (pb_bids b) @ map (JNum \<circ> pl_price) (pb_asks b))) \<or>
      list_ex (\<lambda>t. isRawDepthPrice (JNum (pt_price t))) ticks)"

record depth_cell =
  cell_size :: jsnum
  cell_count :: jsnum

definition level_count :: "ob_level \<Rightarrow> jsnum" where
  "level_count l = opt_or (or_else (obl_count l) (obl_ct l)) (Fin 0)"

definition ladder_key :: "jsnum \<Rightarrow> jsnum \<Rightarrow> string" where
  "ladder_key rowStep price = formatMarketPrice (roundToPriceIncrement price rowStep) (Some rowStep)"

definition add_cell :: "jsnum \<Rightarrow> ob_level \<Rightarrow> depth_cell dict \<Rightarrow> depth_cell dict" where
  "add_cell rowStep l cells =
     (if \<not> is_fin (obl_price l) \<or> \<not> is_fin (obl_size l) \<or> js_le (obl_size l) (Fin 0) then cells
      else let count = or_num (js_max (Fin 0) (js_trunc (level_count l))) (Fin 0);
               key = ladder_key rowStep (obl_price l);
               current = opt_or (dict_get cells key) \<lparr>cell_size = Fin 0, cell_count = Fin 0\<rparr>
           in dict_set key \<lparr>cell_size = js_add (cell_size current) (obl_size l), cell_count = js_add (cell_count current) count\<rparr> cells)"

definition aggregateDepthLevels :: "ob_level list \<Rightarrow> jsnum \<Rightarrow> depth_cell dict" where
  "aggregateDepthLevels levels rowStep =
     (if \<not> is_fin rowStep \<or> js_le rowStep (Fin 0) then [] else foldl (\<lambda>cells l. add_cell rowStep l cells) [] levels)"

section \<open>The stream\<close>

datatype stream_status = Stream_idle | Stream_connecting | Stream_live | Stream_retrying
datatype stream_source = From_ws | From_snapshot | From_rest | From_nowhere

record depth_stream =
  dm_alive :: bool
  dm_target :: string
  dm_status :: stream_status
  dm_lastEventAt :: rat
  dm_source :: stream_source
  dm_book :: "cme_book option"
  dm_trades :: "cme_trade list"
  dm_store :: terminal_state

definition stream_ingestBook :: "rat \<Rightarrow> stream_source \<Rightarrow> cme_book \<Rightarrow> depth_stream \<Rightarrow> depth_stream" where
  "stream_ingestBook now source nextBook s =
     (if \<not> dm_alive s \<or> to_upper (cb_symbol nextBook) \<noteq> dm_target s then s
      else s\<lparr>dm_book := Some nextBook, dm_store := setPolyBook (dm_target s) (cmeBookToPolyCompat now nextBook) (dm_store s),
             dm_status := Stream_live, dm_lastEventAt := now, dm_source := source\<rparr>)"

definition stream_acceptTrade :: "rat \<Rightarrow> stream_source \<Rightarrow> cme_trade \<Rightarrow> depth_stream \<Rightarrow> depth_stream" where
  "stream_acceptTrade now source trade s =
     (if \<not> dm_alive s \<or> to_upper (ct_symbol trade) \<noteq> dm_target s then s
      else s\<lparr>dm_trades := slice_last 199 (dm_trades s) @ [trade],
             dm_store := pushPolyTick (dm_target s) (cmeTradeToPolyCompat trade) (dm_store s),
             dm_status := Stream_live, dm_lastEventAt := now, dm_source := source\<rparr>)"

definition accept_trades :: "rat \<Rightarrow> stream_source \<Rightarrow> cme_trade list \<Rightarrow> depth_stream \<Rightarrow> depth_stream" where
  "accept_trades now source ts s = foldl (\<lambda>s t. stream_acceptTrade now source t s) s ts"

definition ingestSnapshot :: "rat \<Rightarrow> snapshot \<Rightarrow> cme_book dict \<Rightarrow> cme_trade list dict \<Rightarrow> depth_stream \<Rightarrow> depth_stream" where
  "ingestSnapshot now snapshot cmeBooks cmeTrades s =
     (let s1 = s\<lparr>dm_store := loadSnapshot (dm_target s) snapshot (dm_store s)\<rparr>;
          s2 = (case dict_get cmeBooks (dm_target s) of None \<Rightarrow> s1 | Some b \<Rightarrow> stream_ingestBook now From_snapshot b s1)
      in accept_trades now From_snapshot (opt_or (dict_get cmeTrades (dm_target s)) []) s2)"

datatype stream_message =
    SM_book asset order_book
  | SM_tick asset trade_tick
  | SM_cme_book string cme_book
  | SM_cme_trade string cme_trade
  | SM_markets "market_info list"

text \<open>A tick for an asset that the store does not know throws, and the handler catches it.\<close>

fun ingestMessage :: "rat \<Rightarrow> stream_message \<Rightarrow> depth_stream \<Rightarrow> depth_stream" where
  "ingestMessage now (SM_book a b) s = (if a = dm_target s then s\<lparr>dm_store := setBook a b (dm_store s)\<rparr> else s)"
| "ingestMessage now (SM_tick a t) s =
     (if a = dm_target s then (case pushTick a t (dm_store s) of Inl _ \<Rightarrow> s | Inr st \<Rightarrow> s\<lparr>dm_store := st\<rparr>) else s)"
| "ingestMessage now (SM_cme_book symb b) s = (if symb = dm_target s then stream_ingestBook now From_ws b s else s)"
| "ingestMessage now (SM_cme_trade symb t) s = (if symb = dm_target s then stream_acceptTrade now From_ws t s else s)"
| "ingestMessage now (SM_markets ms) s = s\<lparr>dm_store := setMarkets ms True (dm_store s)\<rparr>"

text \<open>
  The messages of one socket, the answers of the polls, and a change of the product: the effect is cleaned up and
  runs again, which clears what was received only when there is no product.
\<close>

datatype stream_event =
    RestBook "cme_book option"
  | RestTrades "cme_trade list option"
  | WsConnect
  | WsOpen
  | WsSnapshot snapshot "cme_book dict" "cme_trade list dict"
  | WsMessage stream_message
  | WsGarbled
  | WsClose
  | StreamCleanup
  | StreamSwitch "string option"

fun stream_step :: "rat \<Rightarrow> stream_event \<Rightarrow> depth_stream \<Rightarrow> depth_stream" where
  "stream_step now (RestBook payload) s = (case payload of None \<Rightarrow> s | Some b \<Rightarrow> stream_ingestBook now From_rest b s)"
| "stream_step now (RestTrades payload) s =
     (case payload of None \<Rightarrow> s | Some ts \<Rightarrow> if dm_alive s then accept_trades now From_rest (slice_last 50 ts) s else s)"
| "stream_step now WsConnect s =
     (if dm_alive s then s\<lparr>dm_status := (if dm_lastEventAt s \<noteq> 0 then Stream_retrying else Stream_connecting)\<rparr> else s)"
| "stream_step now WsOpen s = (if dm_alive s then s\<lparr>dm_status := Stream_live\<rparr> else s)"
| "stream_step now (WsSnapshot d bs ts) s = ingestSnapshot now d bs ts s"
| "stream_step now (WsMessage m) s = ingestMessage now m s"
| "stream_step now WsGarbled s = s"
| "stream_step now WsClose s = (if dm_alive s then s\<lparr>dm_status := Stream_retrying\<rparr> else s)"
| "stream_step now StreamCleanup s = s\<lparr>dm_alive := False\<rparr>"
| "stream_step now (StreamSwitch asset) s =
     (case asset of
        None \<Rightarrow> s\<lparr>dm_alive := False, dm_status := Stream_idle, dm_lastEventAt := 0, dm_source := From_nowhere, dm_book := None, dm_trades := []\<rparr>
      | Some a \<Rightarrow> s\<lparr>dm_alive := True, dm_target := to_upper a\<rparr>)"

definition open_stream :: "string \<Rightarrow> terminal_state \<Rightarrow> depth_stream" where
  "open_stream asset st = \<lparr>dm_alive = True, dm_target = to_upper asset, dm_status = Stream_idle, dm_lastEventAt = 0,
     dm_source = From_nowhere, dm_book = None, dm_trades = [], dm_store = st\<rparr>"

section \<open>The market the ladder shows\<close>

record ladder_level =
  ll_price :: jsnum
  ll_size :: jsnum
  ll_count :: jsnum

definition normal_levels :: "ob_level list option \<Rightarrow> ladder_level list" where
  "normal_levels ls = map (\<lambda>l. \<lparr>ll_price = obl_price l, ll_size = obl_size l, ll_count = level_count l\<rparr>)
     (filter (\<lambda>l. is_fin (obl_price l) \<and> is_fin (obl_size l)) (opt_or ls []))"

definition normalizedBids :: "ob_level list option \<Rightarrow> ladder_level list" where
  "normalizedBids ls = js_sort (\<lambda>a b. js_sub (ll_price b) (ll_price a)) (normal_levels ls)"

definition normalizedAsks :: "ob_level list option \<Rightarrow> ladder_level list" where
  "normalizedAsks ls = js_sort (\<lambda>a b. js_sub (ll_price a) (ll_price b)) (normal_levels ls)"

definition as_ob_level :: "ladder_level \<Rightarrow> ob_level" where
  "as_ob_level l = \<lparr>obl_price = ll_price l, obl_size = ll_size l, obl_count = Some (ll_count l), obl_ct = None\<rparr>"

definition as_depth_level :: "ladder_level \<Rightarrow> depth_level" where
  "as_depth_level l = \<lparr>dl_price = JNum (ll_price l), dl_size = JNum (ll_size l)\<rparr>"

definition fin_only :: "jsnum option \<Rightarrow> jsnum option" where
  "fin_only v = (case v of Some x \<Rightarrow> if is_fin x then Some x else None | None \<Rightarrow> None)"

definition book_num :: "(cme_book \<Rightarrow> 'a option) \<Rightarrow> cme_book option \<Rightarrow> 'a option" where
  "book_num f book = (case book of None \<Rightarrow> None | Some b \<Rightarrow> f b)"

record last_trade =
  lt_price :: "jsnum option"
  lt_size :: jsnum

text \<open>The last price is the newer of the book's and the tape's; the book wins a tie.\<close>

definition ladder_last :: "cme_book option \<Rightarrow> cme_trade list \<Rightarrow> last_trade" where
  "ladder_last book ticks =
     (let latestTick = (if ticks = [] then None else Some (last ticks));
          tickLast = fin_only (map_option ct_price latestTick);
          bookLast = fin_only (book_num cb_ltp book);
          tickTs = (case latestTick of None \<Rightarrow> Fin 0 | Some t \<Rightarrow> ct_timestamp t);
          bookTs = opt_or (book_num cb_tsMs book) (Fin 0);
          preferBookLast = (bookLast \<noteq> None \<and> js_le tickTs bookTs);
          tickSize = map_option ct_size latestTick; bookSize = book_num cb_ltpSize book
      in \<lparr>lt_price = (if preferBookLast then bookLast else or_else tickLast bookLast),
          lt_size = opt_or (if preferBookLast then or_else bookSize tickSize else or_else tickSize bookSize) (Fin 0)\<rparr>)"

record ladder_model =
  lm_fallbackLast :: jsnum
  lm_bid :: jsnum
  lm_ask :: jsnum
  lm_mid :: jsnum
  lm_tick :: jsnum
  lm_rowStep :: jsnum
  lm_bidMap :: "depth_cell dict"
  lm_askMap :: "depth_cell dict"
  lm_bidKey :: string
  lm_askKey :: string
  lm_lastTradeKey :: "string option"
  lm_lastTradeSize :: jsnum

definition model_key :: "jsnum \<Rightarrow> jsnum \<Rightarrow> jsnum \<Rightarrow> string" where
  "model_key tick rowStep price =
     (if js_lt (Fin 0) rowStep then ladder_key rowStep price
      else formatMarketPrice price (if tick = Fin 0 \<or> tick = NaN then None else Some tick))"

definition option_price :: "string \<Rightarrow> product_option option \<Rightarrow> jsnum option" where
  "option_price field opt =
     (case opt of None \<Rightarrow> None | Some p \<Rightarrow>
        (let v = js_get (po_rest p) field in if v = JUndef then None else finiteMarketPrice v))"

definition row_step :: "jsnum \<Rightarrow> jsnum \<Rightarrow> jsnum" where
  "row_step tick priceMultiplier = (if js_lt (Fin 0) tick then js_max tick (js_mul tick priceMultiplier) else Fin 0)"

definition first_ll :: "ladder_level list \<Rightarrow> jsnum option" where
  "first_ll ls = (case ls of [] \<Rightarrow> None | l # _ \<Rightarrow> Some (ll_price l))"

definition book_center :: "jsnum option \<Rightarrow> jsnum option \<Rightarrow> jsnum option \<Rightarrow> jsnum option" where
  "book_center bookMid bestBid bestAsk =
     or_else bookMid (case (bestBid, bestAsk) of (Some b, Some a) \<Rightarrow> Some (js_div (js_add b a) (Fin 2)) | _ \<Rightarrow> None)"

definition num_field :: "jsnum option \<Rightarrow> jsval" where
  "num_field v = (case v of None \<Rightarrow> JUndef | Some x \<Rightarrow> JNum x)"

definition ladderModel :: "cme_book option \<Rightarrow> cme_trade list \<Rightarrow> product_option option \<Rightarrow> jsnum \<Rightarrow> ladder_model" where
  "ladderModel book ticks opt priceMultiplier =
     (let trade = ladder_last book ticks; lastTrade = lt_price trade;
          bids = normalizedBids (book_num cb_bids book); asks = normalizedAsks (book_num cb_asks book);
          bestBid = or_else (fin_only (book_num cb_bestBid book)) (first_ll bids);
          bestAsk = or_else (fin_only (book_num cb_bestAsk book)) (first_ll asks);
          bookMid = fin_only (book_num cb_mid book);
          fallbackLast = opt_or (or_else lastTrade (or_else (book_center bookMid bestBid bestAsk)
            (or_else (option_price ''spot'' opt) (option_price ''priceToBeat'' opt)))) (Fin 0);
          contract = resolveDepthDisplayContract \<lparr>iq_publishedTickSize = num_field (book_num cb_tickSize book),
            iq_productTickSize = num_field (case opt of None \<Rightarrow> None | Some p \<Rightarrow> po_tickSize p),
            iq_bids = Some (map as_depth_level bids), iq_asks = Some (map as_depth_level asks)\<rparr>;
          tick = opt_or (dc_priceIncrement contract) (Fin 0);
          rowStep = row_step tick priceMultiplier;
          bid = opt_or bestBid (case bestAsk of Some a \<Rightarrow> if js_lt (Fin 0) tick then js_sub a tick else fallbackLast | None \<Rightarrow> fallbackLast);
          ask = opt_or bestAsk (case bestBid of Some b \<Rightarrow> if js_lt (Fin 0) tick then js_add b tick else fallbackLast | None \<Rightarrow> fallbackLast)
      in \<lparr>lm_fallbackLast = fallbackLast, lm_bid = bid, lm_ask = ask,
          lm_mid = opt_or bookMid (if is_fin bid \<and> is_fin ask then js_div (js_add bid ask) (Fin 2) else fallbackLast),
          lm_tick = tick, lm_rowStep = rowStep,
          lm_bidMap = aggregateDepthLevels (map as_ob_level bids) rowStep, lm_askMap = aggregateDepthLevels (map as_ob_level asks) rowStep,
          lm_bidKey = model_key tick rowStep bid, lm_askKey = model_key tick rowStep ask,
          lm_lastTradeKey = map_option (model_key tick rowStep) lastTrade, lm_lastTradeSize = lt_size trade\<rparr>)"

section \<open>Anchor and rows\<close>

record ladder_anchor =
  an_marketKey :: string
  an_center :: jsnum
  an_tick :: jsnum

definition centred :: "string \<Rightarrow> ladder_model \<Rightarrow> ladder_anchor" where
  "centred marketKey m = \<lparr>an_marketKey = marketKey, an_center = roundToPriceIncrement (lm_mid m) (lm_rowStep m), an_tick = lm_tick m\<rparr>"

definition can_centre :: "ladder_model \<Rightarrow> bool" where
  "can_centre m = (is_fin (lm_mid m) \<and> is_fin (lm_tick m) \<and> \<not> js_le (lm_tick m) (Fin 0))"

text \<open>The first book of a market centres the ladder, once; the second component is the market it was centred for.\<close>

definition initial_centre :: "string option \<Rightarrow> cme_book option \<Rightarrow> ladder_model \<Rightarrow> ladder_anchor option \<times> string option \<Rightarrow> ladder_anchor option \<times> string option" where
  "initial_centre marketKey book m s =
     (case marketKey of None \<Rightarrow> s
      | Some k \<Rightarrow> if k = '''' \<or> snd s = Some k \<or> book = None \<or> \<not> can_centre m then s else (Some (centred k m), Some k))"

definition recenterLadder :: "string option \<Rightarrow> ladder_model \<Rightarrow> ladder_anchor option \<times> string option \<Rightarrow> ladder_anchor option \<times> string option" where
  "recenterLadder marketKey m s =
     (case marketKey of None \<Rightarrow> s | Some k \<Rightarrow> if k = '''' \<or> \<not> can_centre m then s else (Some (centred k m), Some k))"

definition shiftLadderRows :: "string option \<Rightarrow> ladder_model \<Rightarrow> int \<Rightarrow> ladder_anchor option \<Rightarrow> ladder_anchor option" where
  "shiftLadderRows marketKey m rows anchor =
     (case marketKey of None \<Rightarrow> anchor
      | Some k \<Rightarrow>
          if k = '''' \<or> \<not> is_fin (lm_rowStep m) \<or> js_le (lm_rowStep m) (Fin 0) then anchor
          else let currentCenter = (case anchor of
                     Some a \<Rightarrow> if an_marketKey a = k then an_center a
                       else roundToPriceIncrement (or_num (lm_mid m) (or_num (lm_fallbackLast m) (Fin 0))) (lm_rowStep m)
                   | None \<Rightarrow> roundToPriceIncrement (or_num (lm_mid m) (or_num (lm_fallbackLast m) (Fin 0))) (lm_rowStep m))
               in Some \<lparr>an_marketKey = k,
                    an_center = roundToPriceIncrement (js_add currentCenter (js_mul (Fin (of_int rows)) (lm_rowStep m))) (lm_rowStep m),
                    an_tick = lm_tick m\<rparr>)"

definition wheelScrollLadder :: "string option \<Rightarrow> ladder_model \<Rightarrow> rat \<Rightarrow> bool \<Rightarrow> bool \<Rightarrow> ladder_anchor option \<Rightarrow> ladder_anchor option" where
  "wheelScrollLadder marketKey m deltaY shiftKey altKey anchor =
     (let rows = (if shiftKey then 10 else if altKey then 1 else 3)
      in shiftLadderRows marketKey m (if 0 < deltaY then - rows else rows) anchor)"

section \<open>Orders on the ladder\<close>

datatype depth_side = BID | ASK
datatype depth_status = Depth_pending | Depth_working | Depth_filled | Depth_rejected

record local_order =
  lo_id :: string
  lo_side :: depth_side
  lo_priceKey :: string
  lo_size :: jsnum
  lo_orderType :: sim_order_type
  lo_status :: depth_status
  lo_createdAt :: jsnum
  lo_source :: "sim_source option"
  lo_strategy :: "string option"
  lo_legId :: "string option"
  lo_orderTag :: jsval
  lo_rest :: jsval

definition working_sim :: "sim_order \<Rightarrow> bool" where
  "working_sim o' = ((so_status o' = SO_working \<or> so_status o' = SO_partially_filled) \<and> js_lt (Fin 0) (so_remaining o'))"

definition depth_order_of :: "jsnum \<Rightarrow> sim_order \<Rightarrow> local_order" where
  "depth_order_of rowStep o' =
     \<lparr>lo_id = so_id o', lo_side = (case so_side o' of Bid \<Rightarrow> BID | Offer \<Rightarrow> ASK), lo_priceKey = ladder_key rowStep (so_price o'),
      lo_size = so_remaining o', lo_orderType = so_orderType o', lo_status = Depth_working, lo_createdAt = so_createdAt o',
      lo_source = Some (so_source o'), lo_strategy = Some (so_strategy o'), lo_legId = Some (so_legId o'),
      lo_orderTag = js_nn [js_get (so_rest o') ''orderTag'', JStr (if so_source o' = Algo then ''ALGO ENTRY'' else ''MANUAL'')],
      lo_rest = so_rest o'\<rparr>"

definition simDepthOrders :: "string list \<Rightarrow> string option \<Rightarrow> jsnum \<Rightarrow> sim_order list \<Rightarrow> local_order list" where
  "simDepthOrders aliases marketKey rowStep simOrders =
     (if marketKey = None \<or> marketKey = Some '''' \<or> \<not> is_fin rowStep \<or> js_le rowStep (Fin 0) then []
      else map (depth_order_of rowStep)
        (filter (\<lambda>o'. normalizeProductKey (JStr (so_marketKey o')) \<in> set aliases \<and> working_sim o') simOrders))"

definition displayActiveOrders :: "bool \<Rightarrow> sim_order list \<Rightarrow> local_order list \<Rightarrow> local_order list" where
  "displayActiveOrders simulation simOrders activeOrders =
     (if simulation then [] else filter (\<lambda>o'. lo_id o' \<notin> so_id ` set simOrders) activeOrders)"

definition unfilled :: "local_order \<Rightarrow> bool" where
  "unfilled o' = (lo_status o' = Depth_pending \<or> lo_status o' = Depth_working)"

definition side_sum :: "depth_side \<Rightarrow> string \<Rightarrow> local_order list \<Rightarrow> jsnum" where
  "side_sum side key os = js_sum (map lo_size (filter (\<lambda>o'. lo_side o' = side \<and> lo_priceKey o' = key) os))"

record working_totals =
  wt_bidOrders :: nat
  wt_askOrders :: nat
  wt_bidContracts :: jsnum
  wt_askContracts :: jsnum
  wt_totalOrders :: nat
  wt_totalContracts :: jsnum

definition side_contracts :: "depth_side \<Rightarrow> local_order list \<Rightarrow> jsnum" where
  "side_contracts side os = js_sum (map (\<lambda>o'. or_num (lo_size o') (Fin 0)) (filter (\<lambda>o'. lo_side o' = side) os))"

definition workingTotals :: "local_order list \<Rightarrow> local_order list \<Rightarrow> working_totals" where
  "workingTotals displayed simulated =
     (let working = filter unfilled displayed @ simulated;
          count = (\<lambda>side. length (filter (\<lambda>o'. lo_side o' = side) working))
      in \<lparr>wt_bidOrders = count BID, wt_askOrders = count ASK, wt_bidContracts = side_contracts BID working,
          wt_askContracts = side_contracts ASK working, wt_totalOrders = count BID + count ASK,
          wt_totalContracts = js_add (side_contracts BID working) (side_contracts ASK working)\<rparr>)"

definition activeForSide :: "depth_side \<Rightarrow> local_order list \<Rightarrow> local_order list \<Rightarrow> bool" where
  "activeForSide side displayed simulated =
     (list_ex (\<lambda>o'. lo_side o' = side \<and> unfilled o') displayed \<or> list_ex (\<lambda>o'. lo_side o' = side) simulated)"

record depth_position =
  dp_net :: jsnum
  dp_avg :: "jsnum option"
  dp_openPnl :: jsnum

definition localDepthPosition :: "string list \<Rightarrow> string option \<Rightarrow> sim_position list \<Rightarrow> depth_position" where
  "localDepthPosition aliases marketKey simPositions =
     (let livePositions = (if marketKey = None \<or> marketKey = Some '''' then []
            else filter (\<lambda>p. normalizeProductKey (JStr (sp_marketKey p)) \<in> set aliases \<and> sp_status p = SP_open) simPositions);
          size = (\<lambda>p. or_num (sp_size p) (Fin 0));
          gross = js_sum (map (\<lambda>p. js_abs (size p)) livePositions);
          notional = js_sum (map (\<lambda>p. js_mul (or_num (sp_avgPrice p) (Fin 0)) (js_abs (size p))) livePositions)
      in if livePositions = [] then \<lparr>dp_net = Fin 0, dp_avg = None, dp_openPnl = Fin 0\<rparr>
         else \<lparr>dp_net = js_sum (map size livePositions), dp_avg = (if js_lt (Fin 0) gross then Some (js_div notional gross) else None),
               dp_openPnl = js_sum (map (\<lambda>p. or_num (sp_openPnl p) (Fin 0)) livePositions)\<rparr>)"

section \<open>Rows\<close>

datatype ladder_density = Small | Medium | Large

fun row_height :: "ladder_density \<Rightarrow> rat" where
  "row_height Small = 18"
| "row_height Medium = 24"
| "row_height Large = 34"

definition row_count :: "rat \<Rightarrow> rat \<Rightarrow> int" where
  "row_count bodyHeight rowHeight =
     (let measuredBodyHeight = (if bodyHeight = 0 then 504 else bodyHeight);
          measuredRowCount = max 9 (min 241 (\<lceil>measuredBodyHeight / rowHeight\<rceil> + 2))
      in if even measuredRowCount then min 241 (measuredRowCount + 1) else measuredRowCount)"

record ladder_row =
  lr_price :: jsnum
  lr_key :: string
  lr_bid :: depth_cell
  lr_ask :: depth_cell
  lr_myBidSize :: jsnum
  lr_myAskSize :: jsnum
  lr_inside :: bool
  lr_bestBid :: bool
  lr_bestAsk :: bool
  lr_lastTrade :: bool
  lr_lastTradeSize :: jsnum

definition row_price :: "jsnum \<Rightarrow> jsnum \<Rightarrow> int \<Rightarrow> int \<Rightarrow> jsnum" where
  "row_price center rowStep centerIndex index = js_add center (js_mul (Fin (of_int (centerIndex - index))) rowStep)"

definition ladder_row_of :: "ladder_model \<Rightarrow> local_order list \<Rightarrow> local_order list \<Rightarrow> jsnum \<Rightarrow> ladder_row" where
  "ladder_row_of m displayed simulated price =
     (let rowStep = lm_rowStep m; key = ladder_key rowStep price; half = js_div rowStep (Fin 2);
          empty = \<lparr>cell_size = Fin 0, cell_count = Fin 0\<rparr>;
          mine = (\<lambda>side. js_add (side_sum side key (filter unfilled displayed)) (side_sum side key simulated))
      in \<lparr>lr_price = price, lr_key = key, lr_bid = opt_or (dict_get (lm_bidMap m) key) empty, lr_ask = opt_or (dict_get (lm_askMap m) key) empty,
          lr_myBidSize = mine BID, lr_myAskSize = mine ASK,
          lr_inside = (is_fin (lm_bid m) \<and> is_fin (lm_ask m) \<and> js_le (js_sub (lm_bid m) half) price \<and> js_le price (js_add (lm_ask m) half)),
          lr_bestBid = (is_fin (lm_bid m) \<and> key = lm_bidKey m), lr_bestAsk = (is_fin (lm_ask m) \<and> key = lm_askKey m),
          lr_lastTrade = (lm_lastTradeKey m = Some key), lr_lastTradeSize = lm_lastTradeSize m\<rparr>)"

definition ladder_rows :: "ladder_anchor option \<Rightarrow> string option \<Rightarrow> ladder_model \<Rightarrow> rat \<Rightarrow> rat \<Rightarrow> local_order list \<Rightarrow> local_order list \<Rightarrow> ladder_row list" where
  "ladder_rows anchor marketKey m bodyHeight rowHeight displayed simulated =
     (case anchor of
        None \<Rightarrow> []
      | Some a \<Rightarrow> if Some (an_marketKey a) \<noteq> marketKey then []
          else let rowCount = row_count bodyHeight rowHeight
               in map (\<lambda>index. ladder_row_of m displayed simulated (row_price (an_center a) (lm_rowStep m) (rowCount div 2) index)) [0..rowCount - 1])"

section \<open>Columns\<close>

definition moveDepthColumn :: "string option \<Rightarrow> string \<Rightarrow> string list \<Rightarrow> string list" where
  "moveDepthColumn draggingColumn target current =
     (case draggingColumn of
        None \<Rightarrow> current
      | Some d \<Rightarrow>
          if d = target then current
          else let withoutDragged = filter (\<lambda>c. c \<noteq> d) current in
            case find_index (\<lambda>c. c = target) withoutDragged of
              Some i \<Rightarrow> take i withoutDragged @ [d] @ drop i withoutDragged
            | None \<Rightarrow> butlast withoutDragged @ [d] @ (if withoutDragged = [] then [] else [last withoutDragged]))"

definition columnResizeBounds :: "string \<Rightarrow> rat \<times> rat" where
  "columnResizeBounds column = (if column = ''orders'' then (48, 150) else if column = ''price'' then (68, 180) else (64, 260))"

definition resize_partner :: "string \<Rightarrow> string list \<Rightarrow> (string \<times> rat) option" where
  "resize_partner column order =
     (case find_index (\<lambda>c. c = column) order of
        None \<Rightarrow> (case order of [] \<Rightarrow> None | c # _ \<Rightarrow> Some (c, 1))
      | Some i \<Rightarrow> if i + 1 < length order then Some (order ! (i + 1), 1)
          else if 0 < i then Some (order ! (i - 1), - 1) else None)"

text \<open>One pointer move of a resize that began at \<open>startX\<close> with \<open>startWidths\<close>.\<close>

definition column_resize_move :: "string \<Rightarrow> string list \<Rightarrow> jsnum dict \<Rightarrow> jsnum \<Rightarrow> jsnum \<Rightarrow> jsnum \<Rightarrow> jsnum dict \<Rightarrow> jsnum dict" where
  "column_resize_move column order startWidths startX gridWidth clientX current =
     (case resize_partner column order of
        None \<Rightarrow> current
      | Some (partner, direction) \<Rightarrow>
          (let (cmin, cmax) = columnResizeBounds column; (pmin, pmax) = columnResizeBounds partner;
               start = opt_or (dict_get startWidths column) NaN;
               pairTotal = js_add start (opt_or (dict_get startWidths partner) NaN);
               delta = js_mul (js_mul (js_div (js_sub clientX startX) (js_max (Fin 1) gridWidth)) pairTotal) (Fin direction);
               nextWidth = js_clamp (js_add start delta) (Fin cmin) (js_min (Fin cmax) (js_sub pairTotal (Fin pmin)));
               nextPartnerWidth = js_clamp (js_sub pairTotal nextWidth) (Fin pmin) (Fin pmax)
           in dict_set partner nextPartnerWidth (dict_set column nextWidth current)))"

section \<open>Lemmas: aggregation\<close>

definition shown_level :: "ob_level \<Rightarrow> bool" where
  "shown_level l = (is_fin (obl_price l) \<and> is_fin (obl_size l) \<and> js_lt (Fin 0) (obl_size l))"

definition level_size :: "ob_level \<Rightarrow> rat" where
  "level_size l = fin_val (obl_size l)"

definition total_size :: "depth_cell dict \<Rightarrow> rat" where
  "total_size cells = sum_list (map (\<lambda>c. fin_val (cell_size (snd c))) cells)"

definition cells_fin :: "depth_cell dict \<Rightarrow> bool" where
  "cells_fin cells = (distinct (map fst cells) \<and> list_all (\<lambda>c. is_fin (cell_size (snd c))) cells)"

lemma total_size_update:
  "distinct (map fst cells) \<Longrightarrow> total_size (AList.update k c cells) =
    total_size cells + fin_val (cell_size c) - (case dict_get cells k of None \<Rightarrow> 0 | Some c' \<Rightarrow> fin_val (cell_size c'))"
proof (induction cells)
  case (Cons e es)
  then have "fst e = k \<Longrightarrow> dict_get es k = None" by (auto simp: map_of_eq_None_iff)
  then show ?case using Cons by (cases e) (auto simp: total_size_def)
qed (simp add: total_size_def)

lemma set_update: "e \<in> set (AList.update k c cells) \<Longrightarrow> e = (k, c) \<or> e \<in> set cells"
  by (induction cells) (auto split: if_split_asm)

lemma get_cell_fin: "cells_fin cells \<Longrightarrow> dict_get cells k = Some c \<Longrightarrow> is_fin (cell_size c)"
  by (auto simp: cells_fin_def list_all_iff dest!: map_of_SomeD)

lemma add_cell_skip: "\<not> shown_level l \<Longrightarrow> add_cell r l cells = cells"
  by (cases "obl_size l") (auto simp: add_cell_def shown_level_def)

lemma add_cell_fin:
  assumes "cells_fin cells"
  shows "cells_fin (add_cell r l cells)"
proof (cases "shown_level l")
  case True
  have "is_fin (cell_size (opt_or (dict_get cells k) \<lparr>cell_size = Fin 0, cell_count = Fin 0\<rparr>))" for k
    using get_cell_fin [OF assms] by (cases "dict_get cells k") auto
  then have new: "is_fin (js_add (cell_size (opt_or (dict_get cells k) \<lparr>cell_size = Fin 0, cell_count = Fin 0\<rparr>)) (obl_size l))" for k
    using True by (simp add: is_fin_js_add shown_level_def)
  have "distinct (map fst (AList.update k c cells))" for k c using assms by (simp add: cells_fin_def distinct_update)
  moreover have "list_all (\<lambda>e. is_fin (cell_size (snd e))) (AList.update k c cells)" if "is_fin (cell_size c)" for k c
    using assms that set_update [of _ k c cells] by (fastforce simp: cells_fin_def list_all_iff)
  ultimately show ?thesis using assms new by (simp add: add_cell_def Let_def cells_fin_def)
qed (simp add: add_cell_skip assms)

lemma add_cell_total:
  assumes "cells_fin cells"
  shows "total_size (add_cell r l cells) = total_size cells + (if shown_level l then level_size l else 0)"
proof (cases "shown_level l")
  case True
  then obtain q where q: "obl_size l = Fin q" "0 < q" by (cases "obl_size l") (auto simp: shown_level_def)
  have d: "distinct (map fst cells)" using assms by (simp add: cells_fin_def)
  show ?thesis
  proof (cases "dict_get cells (ladder_key r (obl_price l))")
    case None
    then show ?thesis using True q d by (simp add: add_cell_def shown_level_def Let_def total_size_update level_size_def)
  next
    case (Some c)
    then obtain z where "cell_size c = Fin z" using get_cell_fin [OF assms Some] by (cases "cell_size c") auto
    then show ?thesis using True q d Some by (simp add: add_cell_def shown_level_def Let_def total_size_update level_size_def)
  qed
qed (simp add: add_cell_skip)

lemma add_cell_get:
  assumes "cells_fin cells"
  shows "map_option cell_size (dict_get (add_cell r l cells) k) =
    (if shown_level l \<and> ladder_key r (obl_price l) = k
     then Some (Fin ((case dict_get cells k of None \<Rightarrow> 0 | Some c \<Rightarrow> fin_val (cell_size c)) + level_size l))
     else map_option cell_size (dict_get cells k))"
proof (cases "shown_level l")
  case True
  then obtain q where q: "obl_size l = Fin q" "0 < q" by (cases "obl_size l") (auto simp: shown_level_def)
  show ?thesis
  proof (cases "dict_get cells (ladder_key r (obl_price l))")
    case None
    then show ?thesis using True q by (auto simp: add_cell_def shown_level_def Let_def level_size_def)
  next
    case (Some c)
    then obtain z where "cell_size c = Fin z" using get_cell_fin [OF assms Some] by (cases "cell_size c") auto
    then show ?thesis using True q Some by (auto simp: add_cell_def shown_level_def Let_def level_size_def)
  qed
qed (simp add: add_cell_skip)

definition key_sum :: "jsnum \<Rightarrow> string \<Rightarrow> ob_level list \<Rightarrow> rat" where
  "key_sum r k ls = sum_list (map level_size (filter (\<lambda>l. shown_level l \<and> ladder_key r (obl_price l) = k) ls))"

lemma cells_of_fold:
  "cells_fin (foldl (\<lambda>cells l. add_cell r l cells) [] ls) \<and>
   total_size (foldl (\<lambda>cells l. add_cell r l cells) [] ls) = sum_list (map level_size (filter shown_level ls)) \<and>
   map_option cell_size (dict_get (foldl (\<lambda>cells l. add_cell r l cells) [] ls) k) =
     (if \<exists>l \<in> set ls. shown_level l \<and> ladder_key r (obl_price l) = k then Some (Fin (key_sum r k ls)) else None)"
proof (induction ls rule: rev_induct)
  case (snoc l ls)
  let ?c = "foldl (\<lambda>cells l. add_cell r l cells) [] ls"
  have f: "cells_fin ?c" using snoc by simp
  have "(case dict_get ?c k of None \<Rightarrow> 0 | Some c \<Rightarrow> fin_val (cell_size c)) = key_sum r k ls"
  proof (cases "\<exists>l \<in> set ls. shown_level l \<and> ladder_key r (obl_price l) = k")
    case True
    then show ?thesis using snoc by (cases "dict_get ?c k") auto
  next
    case False
    then have "filter (\<lambda>l. shown_level l \<and> ladder_key r (obl_price l) = k) ls = []" by (auto simp: filter_empty_conv)
    then show ?thesis using snoc False by (simp add: key_sum_def)
  qed
  then show ?case using snoc add_cell_fin [OF f] add_cell_total [OF f] add_cell_get [OF f]
    by (auto simp: key_sum_def)
qed (simp add: cells_fin_def total_size_def key_sum_def)

section \<open>Lemmas: the stream\<close>

definition stream_ok :: "depth_stream \<Rightarrow> bool" where
  "stream_ok s =
     ((\<forall>b. dm_book s = Some b \<longrightarrow> to_upper (cb_symbol b) = dm_target s) \<and>
      list_all (\<lambda>t. to_upper (ct_symbol t) = dm_target s) (dm_trades s) \<and> length (dm_trades s) \<le> 200 \<and> store_ok (dm_store s))"

fun stream_event_ok :: "stream_event \<Rightarrow> bool" where
  "stream_event_ok (WsSnapshot d bs ts) = snapshot_ok (\<lambda>_. 0) d"
| "stream_event_ok (WsMessage (SM_markets ms)) = market_points_ok ms"
| "stream_event_ok e = True"

fun switches_product :: "stream_event \<Rightarrow> bool" where
  "switches_product (StreamSwitch (Some a)) = True"
| "switches_product e = False"

lemma stream_book_ok: "stream_ok s \<Longrightarrow> stream_ok (stream_ingestBook now src b s)"
  by (auto simp: stream_ok_def stream_ingestBook_def setPolyBook_ok)

lemma list_all_slice: "list_all P xs \<Longrightarrow> list_all P (slice_last n xs)"
  using set_slice_last [of n xs] by (auto simp: list_all_iff)

lemma stream_trade_ok: "stream_ok s \<Longrightarrow> stream_ok (stream_acceptTrade now src t s)"
  by (auto simp: stream_ok_def stream_acceptTrade_def pushPolyTick_ok list_all_slice)

lemma stream_trades_ok: "stream_ok s \<Longrightarrow> stream_ok (accept_trades now src ts s)"
  unfolding accept_trades_def by (induction ts arbitrary: s) (auto intro: stream_trade_ok)

lemma stream_store_ok: "stream_ok s \<Longrightarrow> store_ok st \<Longrightarrow> stream_ok (s\<lparr>dm_store := st\<rparr>)"
  by (simp add: stream_ok_def)

lemma stream_snapshot_ok: "stream_ok s \<Longrightarrow> snapshot_ok (\<lambda>_. 0) d \<Longrightarrow> stream_ok (ingestSnapshot now d bs ts s)"
proof -
  assume s: "stream_ok s" "snapshot_ok (\<lambda>_. 0) d"
  then have "stream_ok (s\<lparr>dm_store := loadSnapshot (dm_target s) d (dm_store s)\<rparr>)"
    by (intro stream_store_ok) (simp_all add: stream_ok_def loadSnapshot_ok)
  then show ?thesis by (auto simp: ingestSnapshot_def Let_def intro!: stream_trades_ok stream_book_ok split: option.splits)
qed

lemma stream_message_ok: "stream_ok s \<Longrightarrow> stream_event_ok (WsMessage m) \<Longrightarrow> stream_ok (ingestMessage now m s)"
proof (cases m)
  case (SM_book a b)
  moreover assume "stream_ok s"
  ultimately show ?thesis by (simp add: stream_ok_def setBook_def store_within_def)
next
  case (SM_tick a t)
  moreover assume "stream_ok s"
  ultimately show ?thesis
    by (auto simp: stream_ok_def split: sum.splits intro: pushTick_ok)
next
  case (SM_markets ms)
  moreover assume "stream_ok s" "stream_event_ok (WsMessage m)"
  ultimately show ?thesis by (simp add: stream_ok_def setMarkets_ok)
qed (simp_all add: stream_book_ok stream_trade_ok)

lemma stream_step_ok:
  "stream_ok s \<Longrightarrow> stream_event_ok e \<Longrightarrow> \<not> switches_product e \<Longrightarrow> stream_ok (stream_step now e s)"
proof (cases e)
  case (RestTrades p)
  moreover assume "stream_ok s"
  ultimately show ?thesis by (simp add: stream_trades_ok split: option.splits)
next
  case (StreamSwitch a)
  moreover assume "stream_ok s" "\<not> switches_product e"
  ultimately show ?thesis by (cases a) (simp_all add: stream_ok_def)
qed (auto simp: stream_book_ok stream_snapshot_ok stream_message_ok stream_ok_def [of "_\<lparr>dm_status := _\<rparr>"] stream_ok_def
    [of "_\<lparr>dm_alive := _\<rparr>"] split: option.splits, simp_all add: stream_ok_def)

lemma stream_steps_ok:
  "stream_ok s \<Longrightarrow> list_all (\<lambda>(now, e). stream_event_ok e \<and> \<not> switches_product e) es \<Longrightarrow>
    stream_ok (foldl (\<lambda>s (now, e). stream_step now e s) s es)"
  by (induction es arbitrary: s) (auto intro: stream_step_ok)

section \<open>Lemmas: rows\<close>

lemma row_count_odd: "odd (row_count h r) \<and> 9 \<le> row_count h r \<and> row_count h r \<le> 241"
proof -
  define m where "m = max 9 (min 241 (\<lceil>(if h = 0 then 504 else h) / r\<rceil> + 2))"
  have "9 \<le> m \<and> m \<le> 241" by (simp add: m_def)
  moreover have "row_count h r = (if even m then min 241 (m + 1) else m)" by (simp add: row_count_def m_def Let_def)
  ultimately show ?thesis
  proof (cases "even m")
    case True
    then have "m \<noteq> 241" by auto
    then show ?thesis using True \<open>9 \<le> m \<and> m \<le> 241\<close> \<open>row_count h r = _\<close> by simp
  qed simp
qed

lemma round_multiple: "0 < r \<Longrightarrow> roundToPriceIncrement (Fin (of_int k * r)) (Fin r) = Fin (of_int k * r)"
proof -
  assume r: "0 < r"
  have "\<lfloor>of_int k + 1 / 2 :: rat\<rfloor> = k" by linarith
  then show ?thesis using r by (simp add: roundToPriceIncrement_Fin)
qed

lemma key_of_multiple:
  assumes "0 < r" "r < 10 ^ 21" "r * 10 ^ 8 = of_int n" "\<bar>of_int k * r\<bar> < 10 ^ 21"
  shows "js_parse (ladder_key (Fin r) (Fin (of_int k * r))) = Fin (of_int k * r)"
  using parse_format [OF assms] assms(1) by (simp add: ladder_key_def round_multiple)

lemma row_price_multiple: "row_price (Fin (of_int c * r)) (Fin r) ci i = Fin (of_int (c + ci - i) * r)"
  by (simp add: row_price_def algebra_simps)

lemma row_of_price: "lr_price (ladder_row_of m d s p) = p" "lr_key (ladder_row_of m d s p) = ladder_key (lm_rowStep m) p"
  by (simp_all add: ladder_row_of_def Let_def)

section \<open>Lemmas: columns\<close>

lemma find_index_split: "x \<in> set xs \<Longrightarrow> \<exists>i. find_index (\<lambda>c. c = x) xs = Some i \<and> i < length xs \<and> xs ! i = x"
  by (induction xs) auto

lemma clamp_Fin: "js_clamp (Fin x) (Fin lo) (Fin hi) = Fin (max lo (min hi x))"
  by (simp add: js_clamp_Fin)

section \<open>Properties\<close>

text \<open>
  C25. Aggregating book levels into rows loses and duplicates nothing: the sizes of the cells add up to the sizes
  of the levels with a usable price and a positive size, and the cell of a row holds exactly the levels that
  round to it.
\<close>

theorem aggregation_conserves:
  assumes "0 < r"
  shows "let cells = aggregateDepthLevels levels (Fin r) in
    distinct (map fst cells) \<and> total_size cells = sum_list (map level_size (filter shown_level levels)) \<and>
    (\<forall>k. map_option cell_size (dict_get cells k) =
      (if \<exists>l \<in> set levels. shown_level l \<and> ladder_key (Fin r) (obl_price l) = k then Some (Fin (key_sum (Fin r) k levels)) else None))"
  using cells_of_fold [where r = "Fin r" and ls = levels] assms by (simp add: aggregateDepthLevels_def cells_fin_def)

theorem aggregation_conserves_witness:
  "total_size (aggregateDepthLevels [\<lparr>obl_price = Fin 100, obl_size = Fin 3, obl_count = None, obl_ct = None\<rparr>,
      \<lparr>obl_price = Fin (401 / 4), obl_size = Fin 4, obl_count = None, obl_ct = None\<rparr>] (Fin 1)) = 7"
  using aggregation_conserves [of 1 "[\<lparr>obl_price = Fin 100, obl_size = Fin 3, obl_count = None, obl_ct = None\<rparr>,
      \<lparr>obl_price = Fin (401 / 4), obl_size = Fin 4, obl_count = None, obl_ct = None\<rparr>]"]
  by (simp add: Let_def shown_level_def level_size_def)

text \<open>
  The rows of an anchored ladder: an odd number between 9 and 241, one row step apart in falling order with
  the anchor in the middle, each labelled with a text that reads back as its price, so that no two rows claim
  the same levels or orders.
\<close>

theorem ladder_rows_grid:
  fixes a key m h rh d s c r
  defines "rows \<equiv> ladder_rows (Some a) (Some key) m h rh d s"
  assumes "an_marketKey a = key" "lm_rowStep m = Fin r" "an_center a = Fin (of_int c * r)" "0 < r" "r < 10 ^ 21" "r * 10 ^ 8 = of_int n"
    "(\<bar>of_int c\<bar> + 241) * r < 10 ^ 21"
  shows "odd (length rows) \<and> 9 \<le> length rows \<and> length rows \<le> 241 \<and>
    map lr_price rows = map (\<lambda>i. Fin (of_int (c + int (length rows div 2) - i) * r)) [0..int (length rows) - 1] \<and>
    list_all (\<lambda>row. js_parse (lr_key row) = lr_price row) rows \<and> distinct (map lr_key rows)"
proof -
  define N where "N = row_count h rh"
  have N: "odd N" "9 \<le> N" "N \<le> 241" using row_count_odd by (auto simp: N_def)
  have rows: "rows = map (\<lambda>i. ladder_row_of m d s (Fin (of_int (c + N div 2 - i) * r))) [0..N - 1]"
    using assms(2-4) by (simp add: rows_def ladder_rows_def Let_def row_price_multiple flip: N_def)
  then have len: "int (length rows) = N" using N by simp
  have keys: "js_parse (ladder_key (Fin r) (Fin (of_int (c + N div 2 - i) * r))) = Fin (of_int (c + N div 2 - i) * r)"
    if "i \<in> {0..N - 1}" for i
  proof (rule key_of_multiple [OF assms(5-7)])
    have "\<bar>c + N div 2 - i\<bar> \<le> \<bar>c\<bar> + 241" using that N by auto
    then have "rat_of_int \<bar>c + N div 2 - i\<bar> \<le> rat_of_int (\<bar>c\<bar> + 241)" by (rule of_int_le_iff [THEN iffD2])
    then have "rat_of_int \<bar>c + N div 2 - i\<bar> * r \<le> (\<bar>of_int c\<bar> + 241) * r" using assms(5) by (intro mult_right_mono) simp_all
    then have "rat_of_int \<bar>c + N div 2 - i\<bar> * r < 10 ^ 21" using assms(8) by linarith
    then show "\<bar>of_int (c + N div 2 - i) * r\<bar> < 10 ^ 21" using assms(5) by (simp add: abs_mult)
  qed
  then have parse: "list_all (\<lambda>row. js_parse (lr_key row) = lr_price row) rows"
    by (simp add: rows row_of_price assms(3) list_all_iff)
  have "inj_on (\<lambda>i. ladder_key (Fin r) (Fin (of_int (c + N div 2 - i) * r))) {0..N - 1}"
  proof (rule inj_onI)
    fix i j assume ij: "i \<in> {0..N - 1}" "j \<in> {0..N - 1}"
      "ladder_key (Fin r) (Fin (of_int (c + N div 2 - i) * r)) = ladder_key (Fin r) (Fin (of_int (c + N div 2 - j) * r))"
    then have "rat_of_int (c + N div 2 - i) * r = of_int (c + N div 2 - j) * r" using keys by (metis jsnum.inject(1))
    then show "i = j" using assms(5) by simp
  qed
  then have "distinct (map lr_key rows)" by (simp add: rows row_of_price assms(3) distinct_map o_def)
  moreover have "map lr_price rows = map (\<lambda>i. Fin (of_int (c + N div 2 - i) * r)) [0..N - 1]" by (simp add: rows row_of_price o_def)
  ultimately show ?thesis using parse N len by (simp add: zdiv_int) presburger
qed

definition quiet_model :: ladder_model where
  "quiet_model = ladderModel (Some (bare_book\<lparr>cb_mid := Some (Fin (10001 / 2)), cb_tickSize := Some (Fin (1 / 4))\<rparr>)) [] None (Fin 1)"

lemma quiet_step: "lm_rowStep quiet_model = Fin (1 / 4)" "lm_mid quiet_model = Fin (10001 / 2)" "lm_tick quiet_model = Fin (1 / 4)"
  by code_simp+

theorem ladder_rows_grid_witness:
  "list_all (\<lambda>row. js_parse (lr_key row) = lr_price row)
    (ladder_rows (Some \<lparr>an_marketKey = ''ES'', an_center = Fin (of_int 20002 * (1 / 4)), an_tick = Fin (1 / 4)\<rparr>) (Some ''ES'') quiet_model 504 24 [] [])"
  using ladder_rows_grid [of "\<lparr>an_marketKey = ''ES'', an_center = Fin (of_int 20002 * (1 / 4)), an_tick = Fin (1 / 4)\<rparr>" "''ES''" quiet_model
      "1 / 4" 20002 25000000 504 24 "[]" "[]"] quiet_step
  by simp

text \<open>
  While the product stays, a ladder's stream holds only that product: whatever is polled, pushed, dropped or
  garbled, its book and its at most 200 trades are of the product asked for, and the store keeps its bounds.
\<close>

theorem depth_stream_one_product:
  assumes "store_ok st" "list_all (\<lambda>(now, e). stream_event_ok e \<and> \<not> switches_product e) es"
  shows "stream_ok (foldl (\<lambda>s (now, e). stream_step now e s) (open_stream asset st) es)"
  by (rule stream_steps_ok [OF _ assms(2)]) (simp add: stream_ok_def open_stream_def assms(1))

theorem depth_stream_one_product_witness:
  "stream_ok (foldl (\<lambda>s (now, e). stream_step now e s) (open_stream ''es'' initial_state)
    [(5, RestBook (Some bare_book)), (6, WsGarbled), (7, StreamCleanup), (8, RestBook None)])"
  by (rule depth_stream_one_product [OF initial_ok]) simp

text \<open>
  A change of product does not clear the stream: the book of the old product is still there, the ladder of the
  new product is centred on it, and no later book of the new product moves that centre.
\<close>

theorem product_switch_centres_on_old_book:
  fixes s a b k opt mult now
  defines "s' \<equiv> stream_step now (StreamSwitch (Some a)) s"
  defines "m \<equiv> ladderModel (dm_book s') (dm_trades s') opt mult"
  assumes "dm_book s = Some b" "k \<noteq> ''''" "can_centre m"
  shows "dm_book s' = Some b \<and> dm_trades s' = dm_trades s \<and>
    initial_centre (Some k) (dm_book s') m (None, None) = (Some (centred k m), Some k) \<and>
    (\<forall>book' m'. initial_centre (Some k) book' m' (Some (centred k m), Some k) = (Some (centred k m), Some k))"
  using assms by (simp add: initial_centre_def)

theorem product_switch_centres_on_old_book_witness:
  "an_center (the (fst (initial_centre (Some ''NQ'') (Some (bare_book\<lparr>cb_mid := Some (Fin (10001 / 2)), cb_tickSize := Some (Fin (1 / 4))\<rparr>))
    quiet_model (None, None)))) = Fin (10001 / 2)"
proof -
  let ?b = "bare_book\<lparr>cb_mid := Some (Fin (10001 / 2)), cb_tickSize := Some (Fin (1 / 4))\<rparr>"
  have "can_centre quiet_model" by (simp add: can_centre_def quiet_step)
  then have "initial_centre (Some ''NQ'') (Some ?b) quiet_model (None, None) = (Some (centred ''NQ'' quiet_model), Some ''NQ'')"
    using product_switch_centres_on_old_book [of "(open_stream ''ES'' initial_state)\<lparr>dm_book := Some ?b\<rparr>" ?b "''NQ''" 1 "''NQ''" None "Fin 1"]
    by (simp add: quiet_model_def open_stream_def)
  then show ?thesis using round_multiple [of "1 / 4" 20002] by (simp add: centred_def quiet_step)
qed

text \<open>
  Dragging a column keeps the columns: the order stays a permutation without repetitions and the dragged
  column comes to stand directly before the column it was dropped on.
\<close>

theorem column_drag_permutes:
  assumes "distinct order" "d \<in> set order" "t \<in> set order" "d \<noteq> t"
  shows "let new = moveDepthColumn (Some d) t order in
    mset new = mset order \<and> (\<exists>xs ys. new = xs @ [d, t] @ ys) \<and> filter (\<lambda>c. c \<noteq> d) new = filter (\<lambda>c. c \<noteq> d) order"
proof -
  let ?w = "filter (\<lambda>c. c \<noteq> d) order"
  obtain i where i: "find_index (\<lambda>c. c = t) ?w = Some i" "i < length ?w" "?w ! i = t"
    using find_index_split [of t ?w] assms(3,4) by auto
  have new: "moveDepthColumn (Some d) t order = take i ?w @ [d] @ drop i ?w" using i(1) assms(4) by (simp add: moveDepthColumn_def Let_def)
  have m1: "mset (take i ?w @ [d] @ drop i ?w) = add_mset d (mset ?w)" 
  proof -
    have "mset (take i ?w @ [d] @ drop i ?w) = add_mset d (mset (take i ?w @ drop i ?w))" by (simp only: mset_append) simp
    then show ?thesis by (simp only: append_take_drop_id)
  qed
  have m2: "mset order = add_mset d (mset ?w)"
  proof -
    have "?w = remove1 d order" using assms(1) by (simp add: distinct_remove1_removeAll removeAll_filter_not_eq eq_commute)
    then show ?thesis using assms(2) by simp
  qed
  have dr: "drop i ?w = t # drop (Suc i) ?w" using i(2,3) by (metis Cons_nth_drop_Suc)
  have f: "filter (\<lambda>c. c \<noteq> d) (take i ?w @ [d] @ drop i ?w) = ?w"
  proof -
    have "filter (\<lambda>c. c \<noteq> d) (take i ?w @ [d] @ drop i ?w) = filter (\<lambda>c. c \<noteq> d) (take i ?w @ drop i ?w)"
      by (simp only: filter_append) simp
    then show ?thesis by (simp only: append_take_drop_id filter_filter) simp
  qed
  have "take i ?w @ [d] @ drop i ?w = take i ?w @ [d, t] @ drop (Suc i) ?w" by (simp only: dr) simp
  then have "\<exists>xs ys. take i ?w @ [d] @ drop i ?w = xs @ [d, t] @ ys" by blast
  then show ?thesis unfolding new Let_def using m1 m2 f by (simp only: simp_thms)
qed

theorem column_drag_permutes_witness:
  "mset (moveDepthColumn (Some ''ask'') ''orders'' DEPTH_COLUMNS) = mset DEPTH_COLUMNS"
  using column_drag_permutes [of DEPTH_COLUMNS "''ask''" "''orders''"] by (simp add: Let_def DEPTH_COLUMNS_def)

text \<open>
  A column resize keeps both columns of the pair within their bounds and never widens the pair; the pair keeps
  its total unless the neighbour is at its greatest width.
\<close>

theorem column_resize_within_bounds:
  assumes "resize_partner column order = Some (partner, dir)" "partner \<noteq> column"
    "dict_get start column = Some (Fin w)" "dict_get start partner = Some (Fin v)"
    "fst (columnResizeBounds column) \<le> w" "fst (columnResizeBounds partner) \<le> v"
  shows "let r = column_resize_move column order start (Fin x0) (Fin g) (Fin x) current in
    \<exists>a b. dict_get r column = Some (Fin a) \<and> dict_get r partner = Some (Fin b) \<and>
      fst (columnResizeBounds column) \<le> a \<and> a \<le> snd (columnResizeBounds column) \<and>
      fst (columnResizeBounds partner) \<le> b \<and> b \<le> snd (columnResizeBounds partner) \<and>
      a + b \<le> w + v \<and> (b < snd (columnResizeBounds partner) \<longrightarrow> a + b = w + v) \<and>
      (\<forall>c. c \<noteq> column \<longrightarrow> c \<noteq> partner \<longrightarrow> dict_get r c = dict_get current c)"
proof -
  obtain cmin cmax where c: "columnResizeBounds column = (cmin, cmax)" "cmin \<le> cmax"
    by (cases "columnResizeBounds column") (auto simp: columnResizeBounds_def split: if_splits)
  obtain pmin pmax where p: "columnResizeBounds partner = (pmin, pmax)" "pmin \<le> pmax"
    by (cases "columnResizeBounds partner") (auto simp: columnResizeBounds_def split: if_splits)
  define delta where "delta = (x - x0) / max 1 g * (w + v) * dir"
  define a where "a = max cmin (min (min cmax (w + v - pmin)) (w + delta))"
  define b where "b = max pmin (min pmax (w + v - a))"
  have "max 1 g \<noteq> 0" by (simp add: max_def)
  then have g: "js_div (Fin (x - x0)) (Fin (max 1 g)) = Fin ((x - x0) / max 1 g)" by simp
  have "column_resize_move column order start (Fin x0) (Fin g) (Fin x) current = dict_set partner (Fin b) (dict_set column (Fin a) current)"
    using assms(1,3,4) c(1) p(1) g
    by (simp add: column_resize_move_def clamp_Fin a_def b_def delta_def Let_def)
  moreover have "cmin \<le> a \<and> a \<le> cmax \<and> pmin \<le> b \<and> b \<le> pmax \<and> a + b \<le> w + v \<and> (b < pmax \<longrightarrow> a + b = w + v)"
    using assms(5,6) c p by (auto simp: a_def b_def max_def min_def)
  ultimately show ?thesis using assms(2) c(1) p(1) by (simp add: Let_def)
qed

theorem column_resize_within_bounds_witness:
  "\<exists>b. dict_get (column_resize_move ''orders'' DEPTH_COLUMNS DEFAULT_WIDTHS (Fin 0) (Fin 400) (Fin 9000) DEFAULT_WIDTHS) ''bid'' = Some (Fin b) \<and> 64 \<le> b"
  using column_resize_within_bounds [of "''orders''" DEPTH_COLUMNS "''bid''" 1 DEFAULT_WIDTHS "fin_val (the (dict_get DEFAULT_WIDTHS ''orders''))"
      "fin_val (the (dict_get DEFAULT_WIDTHS ''bid''))" 0 400 9000 DEFAULT_WIDTHS]
  by (auto simp: Let_def DEFAULT_WIDTHS_def DEPTH_COLUMNS_def resize_partner_def columnResizeBounds_def)

end
