(* ===== verification/LadderOrders.thy ===== *)
theory LadderOrders
  imports Ladder Deployment
begin

text \<open>
  The orders of the depth ladder in \<open>components/WorkspaceDesktop.tsx\<close>: placing, releasing, moving and cancelling
  them, in the simulation and live.  A handler returns the requests it sends; the answer to a request is a later
  step.  An answer is the parameter type of the algo manager.
\<close>

section \<open>Requests to the shared exchange\<close>

record order_body =
  bo_orderId :: string
  bo_marketKey :: string
  bo_side :: depth_side
  bo_orderType :: sim_order_type
  bo_price :: jsnum
  bo_size :: jsnum
  bo_operator :: string
  bo_source :: sim_source
  bo_strategy :: string
  bo_legId :: string
  bo_tags :: "(string \<times> jsval) list"
  bo_tickSize :: jsval
  bo_tickValue :: jsval
  bo_multiplier :: jsval

datatype ladder_request =
    LiveOrder string depth_side jsnum jsnum sim_order_type
  | SharedOrder order_body
  | SharedCancel string

text \<open>A refused request throws its reason; an accepted one may carry a state for the store.\<close>

definition shared_answer :: "string \<Rightarrow> answer \<Rightarrow> jsval js_result" where
  "shared_answer what answer =
     (case answer of
        Unreachable message \<Rightarrow> Inl (ErrorMsg message)
      | Answered ok http payload \<Rightarrow>
          if \<not> ok \<or> \<not> truthy (js_get payload ''ok'')
          then Inl (ErrorMsg (js_str (js_or [js_get payload ''detail'', js_get payload ''message'', JStr (what @ '' rejected HTTP '' @ http)])))
          else Inr payload)"

definition submitSharedOrder :: "answer \<Rightarrow> (jsval \<times> jsval option) js_result" where
  "submitSharedOrder answer =
     (case shared_answer ''Order'' answer of
        Inl e \<Rightarrow> Inl e
      | Inr payload \<Rightarrow> Inr (js_get payload ''order'', if truthy (js_get payload ''state'') then Some (js_get payload ''state'') else None))"

definition cancelSharedOrder :: "answer \<Rightarrow> jsval option js_result" where
  "cancelSharedOrder answer =
     (case shared_answer ''Cancel'' answer of
        Inl e \<Rightarrow> Inl e
      | Inr payload \<Rightarrow> Inr (if truthy (js_get payload ''state'') then Some (js_get payload ''state'') else None))"

definition error_text :: "js_error \<Rightarrow> string" where
  "error_text e = (case e of ErrorMsg m \<Rightarrow> m | _ \<Rightarrow> ''gateway unavailable'')"

section \<open>State\<close>

record ladder_config =
  lc_marketKey :: "string option"
  lc_ready :: bool
  lc_simulation :: bool
  lc_fastTrade :: bool
  lc_actionMode :: sim_order_type
  lc_defaultSize :: jsnum
  lc_operator :: string
  lc_tickSize :: jsval
  lc_tickValue :: jsval
  lc_multiplier :: jsval

record ladder_orders =
  la_orders :: "local_order list"
  la_dragging :: "local_order option"
  la_dragTarget :: "string option"
  la_status :: string
  la_sequence :: nat
  la_pushed :: "jsval list"

definition the_key :: "ladder_config \<Rightarrow> string" where
  "the_key c = opt_or (lc_marketKey c) ''''"

fun side_name :: "depth_side \<Rightarrow> string" where
  "side_name BID = ''BID''"
| "side_name ASK = ''ASK''"

definition applyDepthOrderState :: "ladder_config \<Rightarrow> local_order \<Rightarrow> local_order" where
  "applyDepthOrderState c o' =
     (if lc_simulation c then o'\<lparr>lo_status := (if lo_orderType o' = Market then Depth_pending else Depth_working)\<rparr>
      else o'\<lparr>lo_status := (if lc_fastTrade c then Depth_working else Depth_pending)\<rparr>)"

definition order_id :: "rat \<Rightarrow> ladder_config \<Rightarrow> depth_side \<Rightarrow> string \<Rightarrow> nat \<Rightarrow> string" where
  "order_id now c side priceKey sequence =
     ''fut-'' @ the_key c @ ''-'' @ side_name side @ ''-'' @ priceKey @ ''-'' @ jsnum_string (Fin now) @ ''-'' @ jsnum_string (Fin (of_nat sequence))"

definition live_request :: "local_order \<Rightarrow> sim_order_type \<Rightarrow> ladder_request" where
  "live_request o' type = LiveOrder (lo_id o') (lo_side o') (js_parse (lo_priceKey o')) (lo_size o') type"

section \<open>Handlers\<close>

definition submitDepthOrder :: "rat \<Rightarrow> ladder_config \<Rightarrow> depth_side \<Rightarrow> string \<Rightarrow> ladder_orders \<Rightarrow> ladder_orders \<times> ladder_request list" where
  "submitDepthOrder now c side priceKey s =
     (if the_key c = '''' then (s, [])
      else if \<not> lc_ready c then (s\<lparr>la_status := ''Definition pending''\<rparr>, [])
      else
        (let sequence = la_sequence s + 1; i = order_id now c side priceKey sequence;
             nextOrderType = (if lc_simulation c then Limit else lc_actionMode c);
             order = applyDepthOrderState c \<lparr>lo_id = i, lo_side = side, lo_priceKey = priceKey, lo_size = lc_defaultSize c,
               lo_orderType = nextOrderType, lo_status = Depth_pending, lo_createdAt = Fin now, lo_source = None, lo_strategy = None,
               lo_legId = None, lo_orderTag = JUndef, lo_rest = JObj []\<rparr>;
             s = s\<lparr>la_sequence := sequence\<rparr>
         in if lc_simulation c
            then (s\<lparr>la_status := ''Sending '' @ side_name side @ '' '' @ priceKey\<rparr>,
              [SharedOrder \<lparr>bo_orderId = i, bo_marketKey = the_key c, bo_side = side, bo_orderType = nextOrderType, bo_price = js_parse priceKey,
                 bo_size = lc_defaultSize c, bo_operator = lc_operator c, bo_source = Manual, bo_strategy = ''depth-ladder'',
                 bo_legId = ''depth-'' @ the_key c @ ''-'' @ priceKey @ ''-'' @ side_name side, bo_tags = [],
                 bo_tickSize = lc_tickSize c, bo_tickValue = lc_tickValue c, bo_multiplier = lc_multiplier c\<rparr>])
            else (s\<lparr>la_orders := take 80 (order # la_orders s)\<rparr>,
              if lc_fastTrade c then [live_request order (lc_actionMode c)] else [])))"

definition reject_local :: "string \<Rightarrow> ladder_orders \<Rightarrow> ladder_orders" where
  "reject_local i s = s\<lparr>la_orders := map (\<lambda>o'. if lo_id o' = i then o'\<lparr>lo_status := Depth_rejected\<rparr> else o') (la_orders s)\<rparr>"

text \<open>The answer to a live order is not looked at: only a request that fails marks the order.\<close>

definition live_answered :: "string \<Rightarrow> answer \<Rightarrow> ladder_orders \<Rightarrow> ladder_orders" where
  "live_answered i answer s = (case answer of Unreachable _ \<Rightarrow> reject_local i s | Answered ok http payload \<Rightarrow> s)"

definition push_payload :: "jsval option \<Rightarrow> ladder_orders \<Rightarrow> ladder_orders" where
  "push_payload st s = (case st of None \<Rightarrow> s | Some v \<Rightarrow> s\<lparr>la_pushed := la_pushed s @ [v]\<rparr>)"

definition shared_submitted :: "answer \<Rightarrow> ladder_orders \<Rightarrow> ladder_orders" where
  "shared_submitted answer s = (case submitSharedOrder answer of Inl _ \<Rightarrow> s | Inr (_, st) \<Rightarrow> push_payload st s)"

definition pending_at :: "depth_side \<Rightarrow> string \<Rightarrow> local_order \<Rightarrow> bool" where
  "pending_at side priceKey o' = (lo_side o' = side \<and> lo_priceKey o' = priceKey \<and> lo_status o' = Depth_pending)"

definition submitPendingOrders :: "ladder_config \<Rightarrow> depth_side \<Rightarrow> string \<Rightarrow> ladder_orders \<Rightarrow> ladder_orders \<times> ladder_request list" where
  "submitPendingOrders c side priceKey s =
     (s\<lparr>la_orders := map (\<lambda>o'. if pending_at side priceKey o' then applyDepthOrderState c (o'\<lparr>lo_status := Depth_working\<rparr>) else o') (la_orders s)\<rparr>,
      if lc_simulation c then []
      else map (\<lambda>o'. live_request o' (lo_orderType o')) (filter (pending_at side priceKey) (la_orders s)))"

definition cancelOrderGroup :: "local_order list \<Rightarrow> depth_side \<Rightarrow> string \<Rightarrow> ladder_orders \<Rightarrow> ladder_orders \<times> ladder_request list" where
  "cancelOrderGroup simulated side priceKey s =
     (s\<lparr>la_orders := filter (\<lambda>o'. \<not> (lo_side o' = side \<and> lo_priceKey o' = priceKey)) (la_orders s),
        la_status := ''Cancel requested '' @ side_name side @ '' '' @ priceKey\<rparr>,
      map (SharedCancel \<circ> lo_id) (filter (\<lambda>o'. lo_side o' = side \<and> lo_priceKey o' = priceKey) simulated))"

definition group_cancelled :: "depth_side \<Rightarrow> string \<Rightarrow> answer \<Rightarrow> ladder_orders \<Rightarrow> ladder_orders" where
  "group_cancelled side priceKey answer s =
     (case cancelSharedOrder answer of
        Inl e \<Rightarrow> s\<lparr>la_status := ''Cancel failed '' @ side_name side @ '' '' @ priceKey @ '': '' @ error_text e\<rparr>
      | Inr st \<Rightarrow> (push_payload st s)\<lparr>la_status := ''Cancelled '' @ side_name side @ '' '' @ priceKey\<rparr>)"

definition clearSide :: "local_order list \<Rightarrow> depth_side option \<Rightarrow> ladder_orders \<Rightarrow> ladder_orders \<times> ladder_request list" where
  "clearSide simulated side s =
     (s\<lparr>la_orders := (case side of None \<Rightarrow> [] | Some d \<Rightarrow> filter (\<lambda>o'. lo_side o' \<noteq> d) (la_orders s)),
        la_status := (case side of None \<Rightarrow> ''Cancel requested all'' | Some d \<Rightarrow> ''Cancel requested '' @ side_name d)\<rparr>,
      map (SharedCancel \<circ> lo_id) (filter (\<lambda>o'. side = None \<or> side = Some (lo_side o')) simulated))"

definition side_cleared :: "depth_side option \<Rightarrow> answer \<Rightarrow> ladder_orders \<Rightarrow> ladder_orders" where
  "side_cleared side answer s =
     (case cancelSharedOrder answer of
        Inl e \<Rightarrow> s\<lparr>la_status := ''Cancel failed: '' @ error_text e\<rparr>
      | Inr st \<Rightarrow> (push_payload st s)\<lparr>la_status := (case side of None \<Rightarrow> ''Cancelled all working orders'' | Some d \<Rightarrow> ''Cancelled '' @ side_name d)\<rparr>)"

definition MOVED_TAGS :: "string list" where
  "MOVED_TAGS = [''algoRole'', ''algoId'', ''algoName'', ''parentOrderId'', ''layer'', ''trigger'', ''coverTicksFromFill'', ''coverTickSize'']"

definition moved_body :: "ladder_config \<Rightarrow> local_order \<Rightarrow> string \<Rightarrow> order_body" where
  "moved_body c o' target =
     \<lparr>bo_orderId = lo_id o', bo_marketKey = the_key c, bo_side = lo_side o', bo_orderType = Limit, bo_price = js_parse target, bo_size = lo_size o',
      bo_operator = lc_operator c, bo_source = opt_or (lo_source o') Manual, bo_strategy = opt_or (lo_strategy o') ''depth-ladder'',
      bo_legId = opt_or (lo_legId o') (''depth-'' @ the_key c @ ''-'' @ target @ ''-'' @ side_name (lo_side o')),
      bo_tags = (''orderTag'', lo_orderTag o') # map (\<lambda>k. (k, js_get (lo_rest o') k)) MOVED_TAGS,
      bo_tickSize = js_nn [js_get (lo_rest o') ''tickSize'', lc_tickSize c], bo_tickValue = js_nn [js_get (lo_rest o') ''tickValue'', lc_tickValue c],
      bo_multiplier = js_nn [js_get (lo_rest o') ''multiplier'', lc_multiplier c]\<rparr>"

definition end_drag :: "ladder_orders \<Rightarrow> ladder_orders" where
  "end_drag s = s\<lparr>la_dragging := None, la_dragTarget := None\<rparr>"

definition moveOrder :: "ladder_config \<Rightarrow> string \<Rightarrow> ladder_orders \<Rightarrow> ladder_orders \<times> ladder_request list" where
  "moveOrder c target s =
     (case la_dragging s of
        None \<Rightarrow> (s, [])
      | Some d \<Rightarrow>
          if the_key c = '''' then (s, [])
          else if target = lo_priceKey d then (end_drag s, [])
          else
            (let moved = s\<lparr>la_orders := map (\<lambda>o'. if lo_id o' = lo_id d
                   then applyDepthOrderState c (o'\<lparr>lo_priceKey := target, lo_status := Depth_pending\<rparr>) else o') (la_orders s)\<rparr>
             in if lc_simulation c then (end_drag (moved\<lparr>la_status := ''Modify requested '' @ lo_id d\<rparr>), [SharedCancel (lo_id d)])
                else (end_drag moved, [])))"

text \<open>The continuation of a simulated move: the order is sent again once its cancel was accepted.\<close>

definition move_cancelled :: "ladder_config \<Rightarrow> local_order \<Rightarrow> string \<Rightarrow> answer \<Rightarrow> ladder_orders \<Rightarrow> ladder_orders \<times> ladder_request list" where
  "move_cancelled c d target answer s =
     (case cancelSharedOrder answer of
        Inl e \<Rightarrow> (s\<lparr>la_status := ''Modify failed '' @ lo_id d @ '': '' @ error_text e\<rparr>, [])
      | Inr st \<Rightarrow> (push_payload st s, [SharedOrder (moved_body c d target)]))"

definition move_resubmitted :: "local_order \<Rightarrow> answer \<Rightarrow> ladder_orders \<Rightarrow> ladder_orders" where
  "move_resubmitted d answer s =
     (case submitSharedOrder answer of
        Inl e \<Rightarrow> s\<lparr>la_status := ''Modify failed '' @ lo_id d @ '': '' @ error_text e\<rparr>
      | Inr (_, st) \<Rightarrow> (push_payload st s)\<lparr>la_status := ''Modified '' @ lo_id d\<rparr>)"

definition pointer_up :: "ladder_config \<Rightarrow> nat \<Rightarrow> ladder_orders \<Rightarrow> ladder_orders \<times> ladder_request list" where
  "pointer_up c button s =
     (if la_dragging s = None \<or> button \<noteq> 2 then (s, [])
      else case la_dragTarget s of
        Some k \<Rightarrow> if k \<noteq> '''' then moveOrder c k s else (s\<lparr>la_dragging := None\<rparr>, [])
      | None \<Rightarrow> (s\<lparr>la_dragging := None\<rparr>, []))"

definition market_changed :: "ladder_orders \<Rightarrow> ladder_orders" where
  "market_changed s = (end_drag s)\<lparr>la_orders := []\<rparr>"

section \<open>Steps\<close>

datatype ladder_op =
    Submit depth_side string
  | Release depth_side string
  | Cancel_Group depth_side string
  | Clear_Side "depth_side option"
  | Start_Drag local_order string
  | Drag_Over string
  | Drop_On string
  | Pointer_Up nat
  | Live_Answered string answer
  | Move_Cancelled local_order string answer
  | Move_Resubmitted local_order answer
  | Shared_Submitted answer
  | Market_Changed

fun ladder_step :: "rat \<Rightarrow> ladder_config \<Rightarrow> local_order list \<Rightarrow> ladder_op \<Rightarrow> ladder_orders \<Rightarrow> ladder_orders \<times> ladder_request list" where
  "ladder_step now c sim (Submit side k) s = submitDepthOrder now c side k s"
| "ladder_step now c sim (Release side k) s = submitPendingOrders c side k s"
| "ladder_step now c sim (Cancel_Group side k) s = cancelOrderGroup sim side k s"
| "ladder_step now c sim (Clear_Side side) s = clearSide sim side s"
| "ladder_step now c sim (Start_Drag o' k) s =
     (if lo_status o' = Depth_filled then (s, []) else (s\<lparr>la_dragging := Some o', la_dragTarget := Some k\<rparr>, []))"
| "ladder_step now c sim (Drag_Over k) s = (if la_dragging s = None then s else s\<lparr>la_dragTarget := Some k\<rparr>, [])"
| "ladder_step now c sim (Drop_On k) s = (if la_dragging s = None then (s, []) else moveOrder c k s)"
| "ladder_step now c sim (Pointer_Up button) s = pointer_up c button s"
| "ladder_step now c sim (Live_Answered i a) s = (live_answered i a s, [])"
| "ladder_step now c sim (Move_Cancelled d k a) s = move_cancelled c d k a s"
| "ladder_step now c sim (Move_Resubmitted d a) s = (move_resubmitted d a s, [])"
| "ladder_step now c sim (Shared_Submitted a) s = (shared_submitted a s, [])"
| "ladder_step now c sim Market_Changed s = (market_changed s, [])"

definition no_orders :: ladder_orders where
  "no_orders = \<lparr>la_orders = [], la_dragging = None, la_dragTarget = None, la_status = '''', la_sequence = 0, la_pushed = []\<rparr>"

text \<open>The time, the settings and the simulated orders may be others at every step.\<close>

inductive ladder_reach :: "ladder_orders \<Rightarrow> bool" where
  Opened: "ladder_reach no_orders"
| Step: "ladder_reach s \<Longrightarrow> ladder_reach (fst (ladder_step now c sim op s))"

section \<open>Lemmas: identifiers\<close>

lemma dec_scale_nat: "dec_scale (of_nat n) = Some 0"
proof -
  have "quotient_of (of_nat n) = (int n, 1)" by (simp add: of_nat_rat quotient_of_Fract normalize_def)
  then show ?thesis by (simp add: dec_scale_def strip_factor.simps)
qed

lemma digit_no_dash: "is_digit c \<Longrightarrow> c \<noteq> CHR ''-''"
  by (auto simp: is_digit_def)

lemma digits_no_dash: "all_digits s \<Longrightarrow> CHR ''-'' \<notin> set s"
  using digit_no_dash by (auto simp: all_digits_def list_all_iff)

lemma layout_no_dash:
  assumes "all_digits s" "1 \<le> n"
  shows "CHR ''-'' \<notin> set (digits_layout s n)"
proof -
  have "CHR ''-'' \<notin> set s" "\<And>m. CHR ''-'' \<notin> set (take m s)" "\<And>m. CHR ''-'' \<notin> set (drop m s)"
    using digits_no_dash [OF assms(1)] by (auto dest: in_set_takeD in_set_dropD)
  moreover have "CHR ''-'' \<notin> set (int_digits \<bar>n - 1\<bar>)"
    using int_digits_correct [of "\<bar>n - 1\<bar>"] by (intro digits_no_dash) simp
  ultimately show ?thesis using assms(2) by (auto simp: digits_layout_def Let_def)
qed

lemma nat_string_no_dash: "CHR ''-'' \<notin> set (jsnum_string (Fin (of_nat n)))"
proof (cases "n = 0")
  case False
  obtain m z where mz: "strip_factor 10 (int n) = (m, z)" by fastforce
  have "0 < m" using strip_factor_correct [OF mz] False by auto
  then have "all_digits (int_digits m)" "int_digits m \<noteq> []" using int_digits_correct [of m] by auto
  then have "CHR ''-'' \<notin> set (digits_layout (int_digits m) (int (length (int_digits m)) + int z))"
    by (intro layout_no_dash) (cases "int_digits m"; simp)+
  then show ?thesis using mz False by (simp add: rat_string_def pos_rat_string_def dec_scale_nat Let_def)
qed (simp add: rat_string_def)

lemma nat_string_inj: "jsnum_string (Fin (of_nat m)) = jsnum_string (Fin (of_nat n)) \<Longrightarrow> m = n"
  using rat_string_inj [of "of_nat m" "of_nat n"] by (simp add: is_decimal_def dec_scale_nat)

lemma last_part: "CHR ''-'' \<notin> set r \<Longrightarrow> rev (takeWhile (\<lambda>c. c \<noteq> CHR ''-'') (rev (p @ ''-'' @ r))) = r"
proof -
  assume "CHR ''-'' \<notin> set r"
  then have "takeWhile (\<lambda>c. c \<noteq> CHR ''-'') (rev r @ CHR ''-'' # rev p) = rev r" by (subst takeWhile_append2) auto
  then show ?thesis by simp
qed

lemma order_id_inj: "order_id now c side k m = order_id now' c' side' k' n \<Longrightarrow> m = n"
proof -
  assume e: "order_id now c side k m = order_id now' c' side' k' n"
  have "order_id now c side k n = (''fut-'' @ the_key c @ ''-'' @ side_name side @ ''-'' @ k @ ''-'' @ jsnum_string (Fin now)) @
      ''-'' @ jsnum_string (Fin (of_nat n))" for now c side k n by (simp add: order_id_def)
  then have "rev (takeWhile (\<lambda>c. c \<noteq> CHR ''-'') (rev (order_id now c side k n))) = jsnum_string (Fin (of_nat n))" for now c side k n
    using last_part nat_string_no_dash by metis
  then have "jsnum_string (Fin (of_nat m)) = jsnum_string (Fin (of_nat n))" using e by metis
  then show "m = n" by (rule nat_string_inj)
qed

section \<open>Lemmas: the order list\<close>

definition numbered :: "nat \<Rightarrow> string \<Rightarrow> bool" where
  "numbered m i = (\<exists>now c side k n. i = order_id now c side k n \<and> n \<le> m)"

lemma numbered_new: "numbered m (order_id now c side k m)"
  unfolding numbered_def by blast

lemma numbered_Suc: "numbered m i \<Longrightarrow> numbered (Suc m) i"
  unfolding numbered_def using le_SucI by blast

lemma numbered_fresh: "\<not> numbered m (order_id now c side k (Suc m))"
  unfolding numbered_def using order_id_inj by (metis Suc_n_not_le_n)

definition orders_ok :: "ladder_orders \<Rightarrow> bool" where
  "orders_ok s =
     (distinct (map lo_id (la_orders s)) \<and> length (la_orders s) \<le> 80 \<and>
      (\<forall>o' \<in> set (la_orders s). lo_status o' \<noteq> Depth_filled \<and> numbered (la_sequence s) (lo_id o')))"

definition keeps_id :: "(local_order \<Rightarrow> local_order) \<Rightarrow> bool" where
  "keeps_id f = (\<forall>o'. lo_id (f o') = lo_id o' \<and> (lo_status o' \<noteq> Depth_filled \<longrightarrow> lo_status (f o') \<noteq> Depth_filled))"

lemma orders_ok_map: "orders_ok s \<Longrightarrow> keeps_id f \<Longrightarrow> orders_ok (s\<lparr>la_orders := map f (la_orders s)\<rparr>)"
  by (auto simp: orders_ok_def keeps_id_def comp_def)

lemma orders_ok_filter: "orders_ok s \<Longrightarrow> orders_ok (s\<lparr>la_orders := filter P (la_orders s)\<rparr>)"
  by (auto simp: orders_ok_def distinct_map_filter intro: le_trans [OF length_filter_le])

lemma orders_ok_status [simp]:
  "orders_ok (s\<lparr>la_status := t\<rparr>) = orders_ok s" "orders_ok (s\<lparr>la_dragging := d\<rparr>) = orders_ok s"
  "orders_ok (s\<lparr>la_dragTarget := k\<rparr>) = orders_ok s" "orders_ok (s\<lparr>la_pushed := vs\<rparr>) = orders_ok s"
  by (simp_all add: orders_ok_def)

lemma applied_simps [simp]:
  "lo_id (applyDepthOrderState c o') = lo_id o'" "lo_status (applyDepthOrderState c o') \<noteq> Depth_filled"
  "lo_side (applyDepthOrderState c o') = lo_side o'" "lo_priceKey (applyDepthOrderState c o') = lo_priceKey o'"
  by (simp_all add: applyDepthOrderState_def)

lemma push_payload_ok [simp]: "orders_ok (push_payload st s) = orders_ok s"
  by (simp add: push_payload_def split: option.splits)

lemma submit_ok:
  assumes "orders_ok s"
  shows "orders_ok (fst (submitDepthOrder now c side k s))"
proof -
  let ?i = "order_id now c side k (Suc (la_sequence s))"
  have new: "?i \<notin> lo_id ` set (la_orders s)" using assms numbered_fresh by (metis imageE orders_ok_def)
  have grow: "orders_ok (s\<lparr>la_sequence := Suc (la_sequence s)\<rparr>)" using assms by (auto simp: orders_ok_def intro: numbered_Suc)
  have add: "orders_ok (s\<lparr>la_sequence := Suc (la_sequence s), la_orders := take 80 (o' # la_orders s)\<rparr>)"
    if "lo_id o' = ?i" "lo_status o' \<noteq> Depth_filled" for o'
  proof -
    have "distinct (map lo_id (o' # la_orders s))" using assms new that by (simp add: orders_ok_def)
    then have "distinct (map lo_id (take 80 (o' # la_orders s)))" by (metis distinct_take take_map)
    moreover have "p = o' \<or> p \<in> set (la_orders s)" if "p \<in> set (take 80 (o' # la_orders s))" for p
      using in_set_takeD [OF that] by auto
    ultimately show ?thesis using grow that numbered_new unfolding orders_ok_def by (simp del: take_Suc_Cons) metis
  qed
  show ?thesis
  proof (cases "the_key c = '''' \<or> \<not> lc_ready c")
    case True
    then show ?thesis using assms by (auto simp: submitDepthOrder_def)
  next
    case False
    then show ?thesis using grow add by (simp add: submitDepthOrder_def Let_def)
  qed
qed

lemma move_ok: "orders_ok s \<Longrightarrow> orders_ok (fst (moveOrder c k s))"
proof (cases "la_dragging s")
  case (Some d)
  assume "orders_ok s"
  then have "orders_ok (s\<lparr>la_orders := map (\<lambda>o'. if lo_id o' = lo_id d then applyDepthOrderState c (o'\<lparr>lo_priceKey := k, lo_status := Depth_pending\<rparr>)
      else o') (la_orders s)\<rparr>)" by (rule orders_ok_map) (simp add: keeps_id_def)
  then show ?thesis using Some \<open>orders_ok s\<close> by (simp add: moveOrder_def end_drag_def Let_def)
qed (simp add: moveOrder_def)

lemma step_ok: "orders_ok s \<Longrightarrow> orders_ok (fst (ladder_step now c sim op s))"
proof (cases op)
  case (Release side k)
  moreover assume "orders_ok s"
  ultimately show ?thesis by (auto simp: submitPendingOrders_def keeps_id_def intro!: orders_ok_map)
next
  case (Cancel_Group side k)
  moreover assume "orders_ok s"
  ultimately show ?thesis using orders_ok_filter [of s] by (simp add: cancelOrderGroup_def orders_ok_def)
next
  case (Clear_Side side)
  moreover assume "orders_ok s"
  ultimately show ?thesis using orders_ok_filter [of s] by (cases side) (simp_all add: clearSide_def orders_ok_def)
next
  case (Pointer_Up b)
  moreover assume "orders_ok s"
  ultimately show ?thesis using move_ok by (simp add: pointer_up_def split: option.splits)
next
  case (Live_Answered i a)
  moreover assume "orders_ok s"
  ultimately show ?thesis by (cases a) (auto simp: live_answered_def reject_local_def keeps_id_def intro!: orders_ok_map)
next
  case Market_Changed
  then show ?thesis by (simp add: market_changed_def end_drag_def orders_ok_def)
qed (simp_all add: submit_ok move_ok move_cancelled_def move_resubmitted_def shared_submitted_def split: sum.splits prod.splits)

lemma reach_orders_ok: "ladder_reach s \<Longrightarrow> orders_ok s"
  by (induction rule: ladder_reach.induct) (simp_all add: step_ok, simp add: orders_ok_def no_orders_def)

lemma simulated_ids:
  assumes "distinct (map so_id os)"
  shows "distinct (map lo_id (simDepthOrders aliases key r os))" "lo_id ` set (simDepthOrders aliases key r os) \<subseteq> so_id ` set os"
proof -
  let ?f = "filter (\<lambda>o'. normalizeProductKey (JStr (so_marketKey o')) \<in> set aliases \<and> working_sim o') os"
  have e: "simDepthOrders aliases key r os = [] \<or> simDepthOrders aliases key r os = map (depth_order_of r) ?f"
    unfolding simDepthOrders_def by (simp only: split: if_split) blast
  have "map lo_id (map (depth_order_of r) ?f) = map so_id ?f" by (simp add: depth_order_of_def)
  then have "distinct (map lo_id (map (depth_order_of r) ?f))" using assms by (simp only: distinct_map_filter)
  then show "distinct (map lo_id (simDepthOrders aliases key r os))" using e by auto
  show "lo_id ` set (simDepthOrders aliases key r os) \<subseteq> so_id ` set os" using e by (auto simp: depth_order_of_def)
qed

section \<open>Properties\<close>

text \<open>
  C23. Whatever is placed, released, moved, cancelled or answered, the ladder keeps at most eighty local orders with
  distinct identifiers, and none of them is ever shown as filled.
\<close>

theorem ladder_orders_invariant:
  assumes "ladder_reach s"
  shows "distinct (map lo_id (la_orders s)) \<and> length (la_orders s) \<le> 80 \<and> list_all (\<lambda>o'. lo_status o' \<noteq> Depth_filled) (la_orders s)"
  using reach_orders_ok [OF assms] by (simp add: orders_ok_def list_all_iff)

definition live_config :: ladder_config where
  "live_config = \<lparr>lc_marketKey = Some ''ES'', lc_ready = True, lc_simulation = False, lc_fastTrade = True, lc_actionMode = Limit,
     lc_defaultSize = Fin 2, lc_operator = ''op'', lc_tickSize = JUndef, lc_tickValue = JUndef, lc_multiplier = JUndef\<rparr>"

theorem ladder_orders_invariant_witness:
  "distinct (map lo_id (la_orders (fst (ladder_step 6 live_config [] (Submit ASK ''101'') (fst (ladder_step 6 live_config [] (Submit BID ''100'') no_orders))))))"
  using ladder_orders_invariant [OF ladder_reach.Step [OF ladder_reach.Step [OF ladder_reach.Opened]],
      of 6 live_config "[]" "Submit ASK ''101''" 6 live_config "[]" "Submit BID ''100''"] by simp

text \<open>
  Live orders that the exchange has not yet echoed cannot be pulled or moved: after an order was sent, clearing
  the ladder removes it from the screen and dragging it shows it elsewhere, and neither sends anything.
\<close>

theorem unechoed_orders_stay_at_exchange:
  fixes now c side k s
  defines "t \<equiv> submitDepthOrder now c side k s"
  assumes "\<not> lc_simulation c" "lc_fastTrade c" "lc_ready c" "the_key c \<noteq> ''''"
  shows "\<exists>o'. la_orders (fst t) = take 80 (o' # la_orders s) \<and> lo_status o' = Depth_working \<and> lo_priceKey o' = k \<and>
    snd t = [LiveOrder (lo_id o') side (js_parse k) (lc_defaultSize c) (lc_actionMode c)] \<and>
    la_orders (fst (clearSide [] None (fst t))) = [] \<and> snd (clearSide [] None (fst t)) = [] \<and>
    snd (cancelOrderGroup [] side k (fst t)) = [] \<and> o' \<notin> set (la_orders (fst (cancelOrderGroup [] side k (fst t)))) \<and>
    (\<forall>target. snd (moveOrder c target ((fst t)\<lparr>la_dragging := Some o'\<rparr>)) = [] \<and>
      (target \<noteq> k \<longrightarrow> (\<exists>m \<in> set (la_orders (fst (moveOrder c target ((fst t)\<lparr>la_dragging := Some o'\<rparr>)))).
         lo_id m = lo_id o' \<and> lo_priceKey m = target \<and> lo_status m = Depth_working)))"
proof -
  define o' where "o' = applyDepthOrderState c \<lparr>lo_id = order_id now c side k (Suc (la_sequence s)), lo_side = side, lo_priceKey = k,
    lo_size = lc_defaultSize c, lo_orderType = lc_actionMode c, lo_status = Depth_pending, lo_createdAt = Fin now, lo_source = None,
    lo_strategy = None, lo_legId = None, lo_orderTag = JUndef, lo_rest = JObj []\<rparr>"
  have o': "lo_status o' = Depth_working" "lo_priceKey o' = k" "lo_side o' = side" "lo_size o' = lc_defaultSize c"
    using assms(2,3) by (simp_all add: o'_def applyDepthOrderState_def)
  have t: "la_orders (fst t) = take 80 (o' # la_orders s)" "snd t = [live_request o' (lc_actionMode c)]"
    using assms(2-5) by (simp_all add: t_def submitDepthOrder_def Let_def o'_def)
  have "snd (moveOrder c target ((fst t)\<lparr>la_dragging := Some o'\<rparr>)) = []" for target
    using assms(2) by (simp add: moveOrder_def Let_def)
  moreover have "\<exists>m \<in> set (la_orders (fst (moveOrder c target ((fst t)\<lparr>la_dragging := Some o'\<rparr>)))).
      lo_id m = lo_id o' \<and> lo_priceKey m = target \<and> lo_status m = Depth_working" if "target \<noteq> k" for target
    using assms(2,3,5) t(1) o'(2) that by (simp add: moveOrder_def end_drag_def Let_def applyDepthOrderState_def)
  ultimately show ?thesis using t o' by (intro exI [of _ o']) (simp add: clearSide_def cancelOrderGroup_def live_request_def)
qed

theorem unechoed_orders_stay_at_exchange_witness:
  "snd (clearSide [] None (fst (submitDepthOrder 6 live_config BID ''100'' no_orders))) = [] \<and>
   length (snd (submitDepthOrder 6 live_config BID ''100'' no_orders)) = 1"
  using unechoed_orders_stay_at_exchange [of live_config 6 BID "''100''" no_orders] by (auto simp: live_config_def the_key_def)

text \<open>
  Working orders of the simulation are pulled completely: clearing a side, or all, asks to cancel exactly the
  working orders shown there, each once, and leaves no local order of the side.
\<close>

theorem clear_reaches_every_order:
  fixes aliases key r os side s
  defines "visible \<equiv> simDepthOrders aliases key r os"
  assumes "distinct (map so_id os)"
  shows "distinct (snd (clearSide visible side s)) \<and>
    set (snd (clearSide visible side s)) = SharedCancel ` lo_id ` {o' \<in> set visible. side = None \<or> side = Some (lo_side o')} \<and>
    list_all (\<lambda>o'. side \<noteq> None \<and> side \<noteq> Some (lo_side o')) (la_orders (fst (clearSide visible side s)))"
proof -
  have "distinct (map lo_id visible)" unfolding visible_def by (rule simulated_ids [OF assms(2)])
  then have "distinct (map lo_id (filter (\<lambda>o'. side = None \<or> side = Some (lo_side o')) visible))" by (rule distinct_map_filter)
  then have "distinct (map SharedCancel (map lo_id (filter (\<lambda>o'. side = None \<or> side = Some (lo_side o')) visible)))"
    by (subst distinct_map) (simp add: inj_on_def)
  then show ?thesis by (cases side) (auto simp: clearSide_def comp_def list_all_iff)
qed

theorem clear_reaches_every_order_witness:
  "distinct (snd (clearSide (simDepthOrders [''ES''] (Some ''ES'') (Fin 1) []) (Some BID) no_orders))"
  using clear_reaches_every_order [of "[]" "[''ES'']" "Some ''ES''" "Fin 1" "Some BID" no_orders] by simp

text \<open>
  C24. As long as the exchange's own identifiers are distinct, every order is counted once.  The count of a side is the
  number of different pending or working orders shown there; an order that the exchange holds is shown as the
  exchange's alone, a local one that it does not hold is shown outside the simulation, and a rejected one is
  shown but not counted.
\<close>

theorem orders_counted_once:
  fixes s os simulation aliases key r
  defines "displayed \<equiv> displayActiveOrders simulation os (la_orders s)" and "simulated \<equiv> simDepthOrders aliases key r os"
  defines "tallied \<equiv> \<lambda>side. {o' \<in> set (filter unfilled displayed @ simulated). lo_side o' = side}"
  assumes "ladder_reach s" "distinct (map so_id os)"
  shows "wt_bidOrders (workingTotals displayed simulated) = card (lo_id ` tallied BID) \<and>
    wt_askOrders (workingTotals displayed simulated) = card (lo_id ` tallied ASK) \<and>
    wt_totalOrders (workingTotals displayed simulated) = card (lo_id ` tallied BID \<union> lo_id ` tallied ASK) \<and>
    (\<forall>side. activeForSide side displayed simulated \<longleftrightarrow> tallied side \<noteq> {}) \<and>
    (\<forall>o' \<in> set (la_orders s). o' \<in> set displayed \<longleftrightarrow> \<not> simulation \<and> lo_id o' \<notin> so_id ` set os)"
proof -
  let ?w = "filter unfilled displayed @ simulated"
  have "distinct (map lo_id simulated) \<and> lo_id ` set simulated \<subseteq> so_id ` set os"
    unfolding simulated_def using simulated_ids [OF assms(5)] by blast
  moreover have "distinct (map lo_id (filter unfilled displayed))" "lo_id ` set displayed \<inter> so_id ` set os = {}"
    using reach_orders_ok [OF assms(4)] by (auto simp: displayed_def displayActiveOrders_def orders_ok_def distinct_map_filter)
  moreover from calculation have "lo_id ` set displayed \<inter> lo_id ` set simulated = {}" by blast
  ultimately have d: "distinct (map lo_id ?w)" by auto
  have card: "card (lo_id ` tallied side) = length (filter (\<lambda>o'. lo_side o' = side) ?w)" for side
  proof -
    have "tallied side = set (filter (\<lambda>o'. lo_side o' = side) ?w)" by (auto simp: tallied_def)
    then show ?thesis using distinct_card [OF distinct_map_filter [OF d]] by (simp only: set_map [symmetric] length_map)
  qed
  have inj: "inj_on lo_id (set ?w)" using conjunct2 [OF d [unfolded distinct_map]] .
  have "lo_id ` tallied BID \<inter> lo_id ` tallied ASK = lo_id ` (tallied BID \<inter> tallied ASK)"
    by (rule inj_on_image_Int [OF inj, symmetric]) (auto simp: tallied_def)
  then have "card (lo_id ` tallied BID \<union> lo_id ` tallied ASK) = card (lo_id ` tallied BID) + card (lo_id ` tallied ASK)"
    by (intro card_Un_disjoint) (auto simp: tallied_def)
  moreover have "activeForSide side displayed simulated \<longleftrightarrow> tallied side \<noteq> {}" for side
    by (auto simp: activeForSide_def tallied_def list_ex_iff)
  ultimately show ?thesis
    using card by (auto simp: workingTotals_def Let_def displayed_def displayActiveOrders_def)
qed

text \<open>The exchange has echoed the first of two orders.\<close>

definition two_orders :: ladder_orders where
  "two_orders = fst (ladder_step 7 live_config [] (Submit ASK ''101'') (fst (ladder_step 6 live_config [] (Submit BID ''100'') no_orders)))"

definition echoed_order :: sim_order where
  "echoed_order = \<lparr>so_id = order_id 6 live_config BID ''100'' 1, so_marketKey = ''ES'', so_outcome = Yes, so_side = Bid, so_orderType = Limit,
     so_price = Fin 100, so_size = Fin 2, so_remaining = Fin 2, so_filledSize = Fin 0, so_matchedVolume = Fin 0, so_status = SO_working,
     so_createdAt = Fin 6, so_updatedAt = Fin 6, so_operator = ''op'', so_source = Manual, so_strategy = '''', so_legId = '''', so_rest = JObj []\<rparr>"

lemma two_orders_reach: "ladder_reach two_orders"
  unfolding two_orders_def by (intro ladder_reach.intros)

lemma two_orders_shown:
  "map (\<lambda>o'. (lo_id o', lo_side o')) (displayActiveOrders False [echoed_order] (la_orders two_orders)) =
     [(order_id 7 live_config ASK ''101'' 2, ASK)]"
  "map lo_status (displayActiveOrders False [echoed_order] (la_orders two_orders)) = [Depth_working]"
  "map (\<lambda>o'. (lo_id o', lo_side o')) (simDepthOrders [''ES''] (Some ''ES'') (Fin 1) [echoed_order]) = [(order_id 6 live_config BID ''100'' 1, BID)]"
  "length (la_orders two_orders) = 2"
  by code_simp+

theorem orders_counted_once_witness:
  "let displayed = displayActiveOrders False [echoed_order] (la_orders two_orders);
       simulated = simDepthOrders [''ES''] (Some ''ES'') (Fin 1) [echoed_order];
       totals = workingTotals displayed simulated
   in length (la_orders two_orders) = 2 \<and> wt_bidOrders totals = 1 \<and> wt_askOrders totals = 1"
proof -
  let ?d = "displayActiveOrders False [echoed_order] (la_orders two_orders)"
  let ?m = "simDepthOrders [''ES''] (Some ''ES'') (Fin 1) [echoed_order]"
  obtain a where a: "?d = [a]" "lo_side a = ASK" "unfilled a" using two_orders_shown by (auto simp: unfilled_def)
  obtain b where b: "?m = [b]" "lo_side b = BID" using two_orders_shown by auto
  have "{o' \<in> set (filter unfilled ?d @ ?m). lo_side o' = BID} = {b}" "{o' \<in> set (filter unfilled ?d @ ?m). lo_side o' = ASK} = {a}"
    using a b by auto
  then show ?thesis
    using orders_counted_once [OF two_orders_reach, of "[echoed_order]" False "[''ES'']" "Some ''ES''" "Fin 1"] two_orders_shown(4)
    by (simp add: Let_def)
qed

text \<open>
  What the exchange refuses is not shown: a live order that is refused stays working on the ladder, and a
  simulated order that was moved is gone when its cancel was accepted and its new submission refused, because
  nothing sends it again.
\<close>

theorem refusals_are_not_shown:
  assumes "\<not> ok \<or> \<not> truthy (js_get payload ''ok'')"
  shows "live_answered i (Answered ok http payload) s = s \<and> shared_submitted (Answered ok http payload) s = s \<and>
    (let r = move_cancelled c d k (Answered True ''200'' (JObj [(''ok'', JBool True)])) s
     in snd r = [SharedOrder (moved_body c d k)] \<and>
        la_orders (move_resubmitted d (Answered ok http payload) (fst r)) = la_orders s \<and>
        (\<exists>m. la_status (move_resubmitted d (Answered ok http payload) (fst r)) = ''Modify failed '' @ lo_id d @ '': '' @ m))"
  using assms by (auto simp: live_answered_def shared_submitted_def move_cancelled_def move_resubmitted_def submitSharedOrder_def
      cancelSharedOrder_def shared_answer_def push_payload_def error_text_def)

theorem refusals_are_not_shown_witness:
  "live_answered ''a'' (Answered False ''400'' (JObj [])) no_orders = no_orders"
  using refusals_are_not_shown [of False "JObj []" "''a''" "''400''" no_orders live_config undefined "''100''"] by simp

text \<open>
  A pending order cannot be released by a double click: its first click cancels the group, and releasing it then
  sends nothing.
\<close>

theorem double_click_cancels:
  "snd (submitPendingOrders c side k (fst (cancelOrderGroup sim side k s))) = [] \<and>
   list_all (\<lambda>o'. \<not> (lo_side o' = side \<and> lo_priceKey o' = k))
     (la_orders (fst (submitPendingOrders c side k (fst (cancelOrderGroup sim side k s)))))"
  by (auto simp: submitPendingOrders_def cancelOrderGroup_def pending_at_def filter_empty_conv list_all_iff)

end
