(* ===== verification/Grouping.thy ===== *)
theory Grouping
  imports Types
begin

text \<open>
  Rows collected under a key.  The code loops over rows with a \<open>Map\<close>: a row with a new key starts an entry, a row with
  a known key is added to the entry of its key.  The totals of fills, the positions and orders of a list and the candles
  of a chart are built this way; the theory holds the loop, what an entry holds, and the contract under which a measure
  of the entries adds up to the weights of the rows.
\<close>

definition grouped :: "('a \<Rightarrow> 'k) \<Rightarrow> ('a \<Rightarrow> 'b) \<Rightarrow> ('a \<Rightarrow> 'b \<Rightarrow> 'b) \<Rightarrow> 'a list \<Rightarrow> ('k \<times> 'b) list" where
  "grouped key start add xs =
     foldl (\<lambda>d x. AList.update (key x) (case map_of d (key x) of None \<Rightarrow> start x | Some c \<Rightarrow> add x c) d) [] xs"

lemma grouped_Nil [simp]: "grouped key start add [] = []"
  by (simp add: grouped_def)

lemma grouped_snoc:
  "grouped key start add (xs @ [x]) =
    AList.update (key x) (case map_of (grouped key start add xs) (key x) of None \<Rightarrow> start x | Some c \<Rightarrow> add x c) (grouped key start add xs)"
  by (simp add: grouped_def)

lemma grouped_keys: "distinct (map fst (grouped key start add xs)) \<and> fst ` set (grouped key start add xs) = key ` set xs"
  by (induction xs rule: rev_induct) (auto simp: grouped_snoc distinct_update dom_update)

lemma grouped_get:
  "map_of (grouped key start add xs) k =
    (case filter (\<lambda>x. key x = k) xs of [] \<Rightarrow> None | y # ys \<Rightarrow> Some (foldl (\<lambda>c x. add x c) (start y) ys))"
  by (induction xs rule: rev_induct) (auto simp: grouped_snoc update_conv' split: list.splits)

lemma grouped_entry: "(k, c) \<in> set (grouped key start add xs) \<longleftrightarrow> map_of (grouped key start add xs) k = Some c"
  using grouped_keys by (metis map_of_eq_Some_iff)

lemma sum_update: "distinct (map fst d) \<Longrightarrow> sum_list (map (\<lambda>e. m (snd e)) (AList.update k c d)) =
    sum_list (map (\<lambda>e. m (snd e)) d) + (m c - (case map_of d k of None \<Rightarrow> 0 | Some c' \<Rightarrow> (m c' :: rat)))"
proof (induction d)
  case (Cons e es)
  then have "fst e = k \<Longrightarrow> map_of es k = None" by (auto simp: map_of_eq_None_iff)
  then show ?case using Cons by (cases e) auto
qed simp

locale grouping =
  fixes key :: "'a \<Rightarrow> 'k" and start :: "'a \<Rightarrow> 'b" and add :: "'a \<Rightarrow> 'b \<Rightarrow> 'b"
    and measure :: "'b \<Rightarrow> rat" and weight :: "'a \<Rightarrow> rat" and valid :: "'a \<Rightarrow> bool" and good :: "'b \<Rightarrow> bool"
  assumes start_good: "valid x \<Longrightarrow> good (start x)" and start_measure: "valid x \<Longrightarrow> measure (start x) = weight x"
    and add_good: "valid x \<Longrightarrow> good c \<Longrightarrow> good (add x c)"
    and add_measure: "valid x \<Longrightarrow> good c \<Longrightarrow> measure (add x c) = measure c + weight x"
begin

lemma group_good: "list_all valid xs \<Longrightarrow> map_of (grouped key start add xs) k = Some c \<Longrightarrow> good c"
proof (induction xs arbitrary: k c rule: rev_induct)
  case (snoc x xs)
  then show ?case using add_good start_good
    by (auto simp: grouped_snoc update_conv' split: if_split_asm option.splits)
qed simp

lemma groups_good: "list_all valid xs \<Longrightarrow> e \<in> set (grouped key start add xs) \<Longrightarrow> good (snd e)"
  using group_good [of xs "fst e" "snd e"] by (simp add: grouped_entry flip: grouped_entry)

lemma group_total: "list_all valid xs \<Longrightarrow> sum_list (map (\<lambda>e. measure (snd e)) (grouped key start add xs)) = sum_list (map weight xs)"
proof (induction xs rule: rev_induct)
  case (snoc x xs)
  let ?g = "grouped key start add xs"
  have ok: "list_all valid xs" "valid x" using snoc.prems by auto
  have d: "distinct (map fst ?g)" using grouped_keys by blast
  show ?case
  proof (cases "map_of ?g (key x)")
    case None
    then show ?thesis using snoc.IH ok d start_measure by (simp add: grouped_snoc sum_update)
  next
    case (Some c)
    then show ?thesis using snoc.IH ok d group_good [OF ok(1) Some] add_measure by (simp add: grouped_snoc sum_update)
  qed
qed simp

end

end
