(* ===== verification/Executions.thy ===== *)
theory Executions
  imports LadderOrders Grouping
begin

text \<open>
  Orders, fills and positions as the windows of \<open>components/WorkspaceDesktop.tsx\<close> list them: the rows built from
  the store, their filters and cancel buttons, the totals per product and per leg, and the position monitor.
  \<open>localeCompare\<close> and the writing of dates are parameters.
\<close>

section \<open>Labels\<close>

definition executionNumber :: "jsval \<Rightarrow> jsnum \<Rightarrow> jsnum" where
  "executionNumber value fallback = (if is_fin (js_num value) then js_num value else fallback)"

definition simOrderTag :: "sim_source \<Rightarrow> string \<Rightarrow> string \<Rightarrow> string" where
  "simOrderTag source role fallback =
     (if fallback \<noteq> '''' then fallback
      else if source = Algo \<and> role = ''cover'' then ''ALGO COVER'' else if source = Algo then ''ALGO ENTRY'' else ''MANUAL'')"

definition executionRawPrice :: "jsnum \<Rightarrow> string \<Rightarrow> jsval \<Rightarrow> bool" where
  "executionRawPrice price marketKey raw =
     (isKnownFuturesProduct marketKey \<or> (case js_get raw ''multiplier'' of JNum m \<Rightarrow> js_lt (Fin 1) m | _ \<Rightarrow> False) \<or>
      (is_fin price \<and> (js_lt price (Fin 0) \<or> js_lt (Fin 100) price)))"

definition executionMultiplier :: "string \<Rightarrow> jsval \<Rightarrow> jsnum \<Rightarrow> jsnum" where
  "executionMultiplier marketKey raw price =
     (let rawMultiplier = js_num (js_get raw ''multiplier'') in
      if is_fin rawMultiplier \<and> js_lt (Fin 0) rawMultiplier then rawMultiplier
      else if executionRawPrice price marketKey raw then resolveFuturesMultiplier marketKey (JNum rawMultiplier) (Some price)
      else Fin (1 / 100))"

definition executionPriceLabel :: "jsnum \<Rightarrow> string \<Rightarrow> jsval \<Rightarrow> string" where
  "executionPriceLabel price marketKey raw =
     (if \<not> is_fin price then ''-''
      else if executionRawPrice price marketKey raw then to_fixed (if js_le (Fin 100) (js_abs price) then 2 else 3) price
      else to_fixed 1 price @ ''c'')"

definition executionNotional :: "jsnum \<Rightarrow> jsnum \<Rightarrow> string \<Rightarrow> jsval \<Rightarrow> jsnum" where
  "executionNotional price contracts marketKey raw = calculateFuturesMarketValue price contracts (executionMultiplier marketKey raw price)"

fun outcome_label :: "outcome \<Rightarrow> string" where
  "outcome_label Yes = ''YES''"
| "outcome_label No = ''NO''"

definition executionSideLabel :: "poly_tick \<Rightarrow> string \<Rightarrow> string" where
  "executionSideLabel fill marketKey =
     (let raw = pt_rest fill in
      if executionRawPrice (pt_price fill) marketKey raw then
        (let normalized = to_lower (js_str (js_nn [js_get raw ''displaySide'', js_get raw ''marketSide'', js_get raw ''orderSide'', JStr '''']))
         in if normalized \<in> set [''sell'', ''offer'', ''ask''] then ''SELL''
            else if normalized \<in> set [''buy'', ''bid''] then ''BUY''
            else if pt_side fill = No then ''SELL'' else ''BUY'')
      else outcome_label (pt_side fill))"

fun sim_side_label :: "sim_side \<Rightarrow> string" where
  "sim_side_label Bid = ''BID''"
| "sim_side_label Offer = ''OFFER''"

definition executionOrderSideLabel :: "sim_order \<Rightarrow> string" where
  "executionOrderSideLabel o' =
     (if executionRawPrice (so_price o') (so_marketKey o') (so_rest o') then (if so_side o' = Bid then ''BUY'' else ''SELL'')
      else outcome_label (so_outcome o') @ '' '' @ sim_side_label (so_side o'))"

definition executionSideClassName :: "string \<Rightarrow> string" where
  "executionSideClassName side =
     (if side \<in> set [''BUY'', ''BID'', ''YES'', ''UP''] then ''font-bold text-up''
      else if side \<in> set [''SELL'', ''ASK'', ''NO'', ''DOWN''] then ''font-bold text-down'' else ''text-muted'')"

definition inferSource :: "jsval \<Rightarrow> string \<Rightarrow> sim_source" where
  "inferSource raw model =
     (let source = to_lower (js_str (js_nn [js_get raw ''source'', js_get raw ''origin'', js_get raw ''placement'', JStr ''''])); modelText = to_lower model
      in if js_includes ''manual'' source \<or> js_includes ''depth-ladder'' source then Manual
         else if js_includes ''algo'' source \<or> js_includes ''bot'' source \<or> js_includes ''agent'' source then Algo
         else if modelText = '''' \<or> modelText = ''manual'' \<or> js_includes ''depth-ladder'' modelText then Manual else Algo)"

definition isAccountFillTick :: "jsval \<Rightarrow> bool" where
  "isAccountFillTick raw =
     (js_str (js_nn [js_get raw ''exchange'', JStr '''']) = ''Sim Exchange'' \<or>
      list_ex (\<lambda>k. \<not> is_nullish (js_get raw k)) [''orderId'', ''order_id'', ''fillId'', ''fill_id'', ''account'', ''operator'', ''legId'', ''leg_id'',
        ''orderTag'', ''realizedPnl''])"

datatype fill_bucket = Bucket_buy | Bucket_sell | Bucket_unknown

definition fillSideBucket :: "string \<Rightarrow> fill_bucket" where
  "fillSideBucket side =
     (let normalized = to_upper side in
      if list_ex (\<lambda>w. js_includes w normalized) [''SELL'', ''OFFER'', ''ASK''] \<or> normalized = ''NO'' \<or> normalized = ''DOWN'' then Bucket_sell
      else if list_ex (\<lambda>w. js_includes w normalized) [''BUY'', ''BID''] \<or> normalized = ''YES'' \<or> normalized = ''UP'' then Bucket_buy
      else Bucket_unknown)"

definition formatContractCount :: "jsnum \<Rightarrow> string" where
  "formatContractCount value = to_fixed (if js_is_integer value then 0 else 2) value"

definition isSyntheticProductKey :: "string \<Rightarrow> bool" where
  "isSyntheticProductKey value = (CHR ''_'' \<in> set value \<or> CHR ''/'' \<in> set value \<or> js_includes '' spread'' (to_lower value))"

record fill_leg =
  fl_symbol :: string
  fl_side :: fill_bucket
  fl_size :: jsnum
  fl_price :: "jsnum option"
  fl_pnl :: "jsnum option"
  fl_ratio :: "jsnum option"
  fl_legId :: string

definition fin_num :: "jsval \<Rightarrow> jsnum option" where
  "fin_num v = (if is_fin (js_num v) then Some (js_num v) else None)"

definition fill_size :: "jsval \<Rightarrow> jsnum" where
  "fill_size v = (if is_fin (js_num v) then js_abs (js_num v) else Fin 0)"

definition fill_leg_of :: "nat \<times> jsval \<Rightarrow> fill_leg list" where
  "fill_leg_of = (\<lambda>(index, item).
     if \<not> is_object item then []
     else let number = jsnum_string (Fin (of_nat (index + 1)));
              symbol = js_str (js_nn [js_get item ''symbol'', js_get item ''asset'', js_get item ''marketKey'', js_get item ''market_key'',
                js_get item ''instrument'', JStr (''LEG-'' @ number)])
          in [\<lparr>fl_symbol = symbol,
               fl_side = fillSideBucket (js_str (js_nn [js_get item ''side'', js_get item ''action'', js_get item ''orderSide'', js_get item ''order_side'', JStr ''''])),
               fl_size = fill_size (js_nn [js_get item ''size'', js_get item ''qty'', js_get item ''quantity'', js_get item ''contracts'', JNum (Fin 0)]),
               fl_price = fin_num (js_nn [js_get item ''price'', js_get item ''fillPrice'', js_get item ''fill_price'']),
               fl_pnl = fin_num (js_nn [js_get item ''pnl'', js_get item ''realizedPnl'', js_get item ''realized_pnl'']),
               fl_ratio = fin_num (js_nn [js_get item ''ratio'', js_get item ''weight'', js_get item ''hedgeRatio'', js_get item ''hedge_ratio'']),
               fl_legId = js_str (js_nn [js_get item ''legId'', js_get item ''leg_id'', JStr (symbol @ ''-'' @ number)])\<rparr>])"

definition normalizeSyntheticFillLegs :: "jsval \<Rightarrow> fill_leg list" where
  "normalizeSyntheticFillLegs raw =
     (case List.find is_array (map (js_get raw) [''syntheticLegs'', ''synthetic_legs'', ''legs'', ''fillLegs'', ''fill_legs'']) of
        None \<Rightarrow> []
      | Some legPayload \<Rightarrow> concat (map fill_leg_of (List.enumerate 0 (arr_elems legPayload))))"

definition productLookup :: "product_option list \<Rightarrow> product_option dict" where
  "productLookup options =
     foldl (\<lambda>byKey p. foldl (\<lambda>d k. dict_set k p d) byKey
       (po_symbol p # filter (\<lambda>k. k \<noteq> '''') (opt_or (po_marketKey p) '''' # [opt_or (po_asset p) '''']))) [] options"

section \<open>Rows of orders and fills\<close>

datatype row_type = Row_fill | Row_order

record exec_row =
  xr_id :: string
  xr_type :: row_type
  xr_timestamp :: jsnum
  xr_account :: string
  xr_exchange :: string
  xr_provider :: string
  xr_product :: string
  xr_marketKey :: string
  xr_orderId :: string
  xr_source :: sim_source
  xr_orderTag :: string
  xr_algoRole :: jsval
  xr_operator :: string
  xr_strategy :: string
  xr_legId :: string
  xr_side :: string
  xr_price :: string
  xr_size :: string
  xr_status :: string
  xr_pnl :: jsnum
  xr_notional :: jsnum
  xr_details :: string
  xr_legs :: "fill_leg list"

definition option_label :: "product_option option \<Rightarrow> string \<Rightarrow> string" where
  "option_label opt fallback = (case opt of Some p \<Rightarrow> po_label p | None \<Rightarrow> fallback)"

definition option_provider :: "product_option option \<Rightarrow> string" where
  "option_provider opt = (case opt of Some p \<Rightarrow> po_provider p | None \<Rightarrow> ''cme'')"

definition fill_row :: "rat \<Rightarrow> string \<Rightarrow> product_option option \<Rightarrow> market_info option \<Rightarrow> string \<Rightarrow> nat \<times> poly_tick \<Rightarrow> exec_row" where
  "fill_row now operatorName opt mkt marketKey = (\<lambda>(index, fill).
     let raw = pt_rest fill;
         fillTimestamp = executionNumber (JNum (pt_timestamp fill)) (Fin now);
         fillPrice = executionNumber (JNum (pt_price fill)) (Fin 0);
         fillSize = executionNumber (JNum (pt_size fill)) (Fin 0);
         exchange = js_str (js_nn [js_get raw ''exchange'', JStr (providerLabel (option_provider opt))]);
         source = inferSource raw (case js_get raw ''model'' of JStr m \<Rightarrow> m | _ \<Rightarrow> '''');
         ix = jsnum_string (Fin (of_nat index));
         orderId = js_str (js_nn [js_get raw ''order_id'', js_get raw ''orderId'', js_get raw ''trade_id'', js_get raw ''tradeId'',
           JStr (option_provider opt @ ''-'' @ marketKey @ ''-'' @ jsnum_string fillTimestamp @ ''-'' @ ix)]);
         product = option_label opt (case mkt of Some m \<Rightarrow> mk_key m | None \<Rightarrow> pt_marketKey fill);
         priceLabel = executionPriceLabel fillPrice marketKey raw;
         sideLabel = executionSideLabel fill marketKey;
         tag = simOrderTag source (shown (js_get raw ''algoRole'')) (shown (js_get raw ''orderTag''))
     in \<lparr>xr_id = ''fill-'' @ marketKey @ ''-'' @ jsnum_string fillTimestamp @ ''-'' @ jsnum_string fillPrice @ ''-'' @ jsnum_string fillSize @ ''-'' @ ix,
         xr_type = Row_fill, xr_timestamp = fillTimestamp, xr_account = ''Parent'', xr_exchange = exchange,
         xr_provider = (if exchange = ''Sim Exchange'' then ''sim'' else option_provider opt), xr_product = product, xr_marketKey = marketKey,
         xr_orderId = orderId, xr_source = source, xr_orderTag = tag,
         xr_algoRole = (case js_get raw ''algoRole'' of JStr r \<Rightarrow> JStr r | _ \<Rightarrow> JUndef),
         xr_operator = js_str (js_nn [js_get raw ''operator'', js_get raw ''user'', JStr operatorName]),
         xr_strategy = js_str (js_nn [js_get raw ''model'', js_get raw ''strategy'', JStr (if source = Algo then ''algo-router'' else ''manual'')]),
         xr_legId = js_str (js_nn [js_get raw ''leg_id'', js_get raw ''legId'', JStr (orderId @ ''-L'' @ jsnum_string (Fin (of_nat (index + 1))))]),
         xr_side = sideLabel, xr_price = priceLabel, xr_size = to_fixed 0 fillSize, xr_status = ''FILLED'',
         xr_pnl = (case js_get raw ''realizedPnl'' of JNum x \<Rightarrow> x | _ \<Rightarrow> Fin 0),
         xr_notional = executionNotional fillPrice fillSize marketKey raw,
         xr_details = join_with '' '' [tag, exchange, product, sideLabel, to_fixed 0 fillSize, ''@'', priceLabel],
         xr_legs = normalizeSyntheticFillLegs raw\<rparr>)"

definition fill_rows :: "rat \<Rightarrow> string \<Rightarrow> product_option list \<Rightarrow> market_info list \<Rightarrow> poly_tick list dict \<Rightarrow> exec_row list" where
  "fill_rows now operatorName options markets fillsByMarket =
     concat (map (\<lambda>(marketKey, fills).
       map (fill_row now operatorName (dict_get (productLookup options) marketKey) (List.find (\<lambda>m. mk_key m = marketKey) markets) marketKey)
         (List.enumerate 0 (filter (isAccountFillTick \<circ> pt_rest) fills))) (js_entries fillsByMarket))"

definition order_type_label :: "sim_order_type \<Rightarrow> string" where
  "order_type_label t = (case t of Limit \<Rightarrow> ''LIMIT'' | Market \<Rightarrow> ''MARKET'')"

definition detail_of :: "string \<Rightarrow> jsval \<Rightarrow> string" where
  "detail_of before v = (if truthy v then before @ js_str v else '''')"

definition order_row :: "rat \<Rightarrow> product_option list \<Rightarrow> sim_position list \<Rightarrow> sim_order \<Rightarrow> exec_row" where
  "order_row now options simPositions o' =
     (let opt = dict_get (productLookup options) (so_marketKey o'); raw = so_rest o';
          position = List.find (\<lambda>p. sp_legId p = so_legId o' \<and> sp_marketKey p = so_marketKey o') simPositions;
          tag = simOrderTag (so_source o') (shown (js_get raw ''algoRole'')) (shown (js_get raw ''orderTag''));
          price = executionNumber (JNum (so_price o')) (Fin 0); size = executionNumber (JNum (so_size o')) (Fin 0);
          filledSize = executionNumber (JNum (so_filledSize o')) (Fin 0); status = order_status_value (so_status o');
          priceLabel = executionPriceLabel price (so_marketKey o') raw; sideLabel = executionOrderSideLabel o'
      in \<lparr>xr_id = ''sim-order-'' @ so_id o', xr_type = Row_order, xr_timestamp = executionNumber (JNum (so_updatedAt o')) (Fin now), xr_account = ''Parent'',
          xr_exchange = ''Sim Exchange'', xr_provider = ''sim'', xr_product = option_label opt (so_marketKey o'), xr_marketKey = so_marketKey o',
          xr_orderId = so_id o', xr_source = so_source o', xr_orderTag = tag, xr_algoRole = js_get raw ''algoRole'', xr_operator = so_operator o',
          xr_strategy = so_strategy o', xr_legId = so_legId o', xr_side = sideLabel, xr_price = priceLabel,
          xr_size = to_fixed 0 filledSize @ '' / '' @ to_fixed 0 size, xr_status = status,
          xr_pnl = (case position of Some p \<Rightarrow> sp_totalPnl p | None \<Rightarrow> Fin 0), xr_notional = executionNotional price size (so_marketKey o') raw,
          xr_details = tag @ detail_of '' L'' (js_get raw ''layer'') @ '' '' @ sideLabel @ '' '' @ order_type_label (so_orderType o') @ '' '' @ status @ '' '' @
            to_fixed 0 filledSize @ ''/'' @ to_fixed 0 size @ '' @ '' @ priceLabel @ detail_of '' trigger '' (js_get raw ''trigger'') @
            detail_of '' parent '' (js_get raw ''parentOrderId''),
          xr_legs = []\<rparr>)"

definition newest_row_first :: "exec_row \<Rightarrow> exec_row \<Rightarrow> jsnum" where
  "newest_row_first a b = js_sub (xr_timestamp b) (xr_timestamp a)"

definition buildExecutionRows ::
  "rat \<Rightarrow> string \<Rightarrow> product_option list \<Rightarrow> poly_tick list dict \<Rightarrow> sim_order list \<Rightarrow> sim_position list \<Rightarrow> market_info list \<Rightarrow> exec_row list" where
  "buildExecutionRows now operatorName options fillsByMarket simOrders simPositions markets =
     js_sort newest_row_first (fill_rows now operatorName options markets fillsByMarket @ map (order_row now options simPositions) simOrders)"

section \<open>The window of orders\<close>

definition closed_status :: "string \<Rightarrow> bool" where
  "closed_status status = list_ex (\<lambda>w. js_includes w (to_lower status)) [''closed'', ''filled'', ''cancel'']"

record order_filters =
  of_provider :: string
  of_product :: string
  of_status :: string
  of_source :: "sim_source option"

definition row_matches :: "order_filters \<Rightarrow> exec_row \<Rightarrow> bool" where
  "row_matches f row = ((of_provider f = ''all'' \<or> xr_provider row = of_provider f) \<and> (of_product f = ''all'' \<or> xr_product row = of_product f) \<and>
     (of_source f = None \<or> of_source f = Some (xr_source row)))"

definition status_matches :: "order_filters \<Rightarrow> exec_row \<Rightarrow> bool" where
  "status_matches f row = (of_status f = ''all'' \<or>
     (if of_status f = ''working'' then \<not> closed_status (xr_status row) else to_lower (xr_status row) = of_status f))"

definition window_rows :: "rat \<Rightarrow> string \<Rightarrow> product_option list \<Rightarrow> sim_order list \<Rightarrow> sim_position list \<Rightarrow> exec_row list" where
  "window_rows now operatorName options simOrders simPositions =
     filter (\<lambda>r. xr_type r = Row_order) (buildExecutionRows now operatorName options [] simOrders simPositions [])"

definition visible_rows :: "order_filters \<Rightarrow> exec_row list \<Rightarrow> exec_row list" where
  "visible_rows f allRows = filter (\<lambda>r. row_matches f r \<and> status_matches f r) allRows"

definition order_products :: "string \<Rightarrow> exec_row list \<Rightarrow> string list" where
  "order_products providerFilter allRows =
     sort (first_occ (=) (map xr_product (filter (\<lambda>r. providerFilter = ''all'' \<or> xr_provider r = providerFilter) allRows)))"

definition workingCount :: "order_filters \<Rightarrow> exec_row list \<Rightarrow> nat" where
  "workingCount f allRows = length (filter (\<lambda>r. row_matches f r \<and> \<not> closed_status (xr_status r)) allRows)"

definition workingNotional :: "order_filters \<Rightarrow> exec_row list \<Rightarrow> jsnum" where
  "workingNotional f allRows = js_sum (map xr_notional (filter (\<lambda>r. row_matches f r \<and> \<not> closed_status (xr_status r)) allRows))"

definition split_drag :: "rat \<Rightarrow> rat \<Rightarrow> rat \<Rightarrow> rat \<Rightarrow> jsnum" where
  "split_drag startPct startY height clientY =
     js_clamp (js_add (Fin startPct) (js_mul (js_div (Fin (clientY - startY)) (Fin height)) (Fin 100))) (Fin 42) (Fin 92)"

datatype cancel_request = Cancel_shared string | Cancel_served string | Cancel_all

text \<open>The request that the cancel button of a row sends, if any.\<close>

definition cancelOrderRow :: "exec_row \<Rightarrow> cancel_request option" where
  "cancelOrderRow row =
     (if closed_status (xr_status row) then None
      else Some (if xr_provider row = ''sim'' then Cancel_shared (xr_orderId row) else Cancel_served (xr_orderId row)))"

definition row_cancel_status :: "exec_row \<Rightarrow> answer \<Rightarrow> string" where
  "row_cancel_status row answer =
     (if xr_provider row = ''sim'' then (case cancelSharedOrder answer of
          Inl e \<Rightarrow> ''Cancel failed for '' @ xr_orderId row @ '': '' @ error_text e
        | Inr _ \<Rightarrow> ''Cancelled '' @ xr_orderTag row @ '' '' @ xr_orderId row)
      else (case answer of
          Unreachable _ \<Rightarrow> ''Cancel failed for '' @ xr_orderId row
        | Answered ok _ _ \<Rightarrow> (if ok then ''Cancel accepted for '' else ''Cancel rejected for '') @ xr_orderId row))"

definition cancel_all_status :: "answer \<Rightarrow> string" where
  "cancel_all_status answer =
     (case answer of
        Answered True http payload \<Rightarrow>
          (let n = js_num (js_nn [js_get payload ''count'', JNum (Fin 0)])
           in ''Cancel all accepted by order service; '' @ jsnum_string n @ '' server order'' @ plural n @ '' cancelled.'')
      | _ \<Rightarrow> ''Cancel-all failed; no order service acknowledged.'')"

section \<open>Totals\<close>

definition executionSizeValue :: "jsval \<Rightarrow> jsnum" where
  "executionSizeValue value =
     (case value of
        JNum x \<Rightarrow> if is_fin x then x else Fin 0
      | _ \<Rightarrow> (let parsed = js_parse (js_trim (takeWhile (\<lambda>c. c \<noteq> CHR ''/'') (if is_nullish value then ''0'' else js_str value)))
             in if is_fin parsed then parsed else Fin 0))"

record fill_rollup =
  fr_product :: string
  fr_buys :: jsnum
  fr_sells :: jsnum
  fr_pnl :: jsnum
  fr_notional :: jsnum
  fr_fills :: nat
  fr_synthetic :: bool
  fr_legs :: "fill_leg list"
  fr_ready :: bool

definition empty_rollup :: "string \<Rightarrow> fill_rollup" where
  "empty_rollup product = \<lparr>fr_product = product, fr_buys = Fin 0, fr_sells = Fin 0, fr_pnl = Fin 0, fr_notional = Fin 0, fr_fills = 0,
     fr_synthetic = False, fr_legs = [], fr_ready = True\<rparr>"

definition row_contracts :: "exec_row \<Rightarrow> jsnum" where
  "row_contracts row = js_abs (executionSizeValue (JStr (xr_size row)))"

definition roll_row :: "exec_row \<Rightarrow> fill_rollup \<Rightarrow> fill_rollup" where
  "roll_row row current =
     (let side = fillSideBucket (xr_side row);
          synthetic = (fr_synthetic current \<or> isSyntheticProductKey (xr_marketKey row) \<or> isSyntheticProductKey (xr_product row));
          legs = fr_legs current @ xr_legs row
      in \<lparr>fr_product = fr_product current,
          fr_buys = (if side = Bucket_buy then js_add (fr_buys current) (row_contracts row) else fr_buys current),
          fr_sells = (if side = Bucket_sell then js_add (fr_sells current) (row_contracts row) else fr_sells current),
          fr_pnl = js_add (fr_pnl current) (xr_pnl row), fr_notional = js_add (fr_notional current) (xr_notional row),
          fr_fills = fr_fills current + 1, fr_synthetic = synthetic, fr_legs = legs, fr_ready = (\<not> synthetic \<or> legs \<noteq> [])\<rparr>)"

definition roll_into :: "fill_rollup dict \<Rightarrow> exec_row \<Rightarrow> fill_rollup dict" where
  "roll_into byProduct row =
     dict_set (xr_product row) (roll_row row (opt_or (dict_get byProduct (xr_product row)) (empty_rollup (xr_product row)))) byProduct"

definition buildProductFillRollups :: "(string \<Rightarrow> string \<Rightarrow> jsnum) \<Rightarrow> exec_row list \<Rightarrow> fill_rollup list" where
  "buildProductFillRollups lc rows =
     js_sort (\<lambda>a b. lc (fr_product a) (fr_product b)) (map snd (foldl roll_into [] rows))"

record pnl_leg =
  pg_leg :: string
  pg_product :: string
  pg_pnl :: jsnum
  pg_notional :: jsnum
  pg_rows :: nat

definition start_leg :: "exec_row \<Rightarrow> pnl_leg" where
  "start_leg row = \<lparr>pg_leg = xr_legId row, pg_product = xr_product row, pg_pnl = Fin 0, pg_notional = Fin 0, pg_rows = 0\<rparr>"

definition leg_row :: "exec_row \<Rightarrow> pnl_leg \<Rightarrow> pnl_leg" where
  "leg_row row leg = leg\<lparr>pg_pnl := js_add (pg_pnl leg) (xr_pnl row), pg_notional := js_add (pg_notional leg) (xr_notional row),
     pg_rows := pg_rows leg + 1\<rparr>"

definition leg_into :: "pnl_leg dict \<Rightarrow> exec_row \<Rightarrow> pnl_leg dict" where
  "leg_into byLeg row = dict_set (xr_legId row) (leg_row row (opt_or (dict_get byLeg (xr_legId row)) (start_leg row))) byLeg"

definition pnl_legs :: "exec_row list \<Rightarrow> pnl_leg list" where
  "pnl_legs rows = map snd (foldl leg_into [] rows)"

section \<open>The position monitor\<close>

record monitor_row =
  mr_id :: string
  mr_provider :: string
  mr_exchange :: string
  mr_product :: string
  mr_symbol :: string
  mr_marketKey :: string
  mr_position :: jsnum
  mr_avgPrice :: jsnum
  mr_marketPrice :: jsnum
  mr_marketValue :: jsnum
  mr_openPnl :: jsnum
  mr_closedPnl :: jsnum
  mr_dayPnl :: jsnum
  mr_status :: string
  mr_source :: sim_source
  mr_strategy :: string
  mr_updatedAt :: jsnum
  mr_details :: string

definition positionSideLabel :: "jsnum \<Rightarrow> string" where
  "positionSideLabel contracts =
     (let qty = executionNumber (JNum contracts) (Fin 0); text = to_fixed (if js_is_integer qty then 0 else 2) (js_abs qty)
      in if js_lt (Fin 0) qty then ''LONG '' @ text else if js_lt qty (Fin 0) then ''SHORT '' @ text else ''FLAT'')"

definition monitorPriceLabel :: "jsnum \<Rightarrow> string \<Rightarrow> jsval \<Rightarrow> string" where
  "monitorPriceLabel price marketKey raw = (if \<not> is_fin price then ''-'' else executionPriceLabel price marketKey raw)"

definition option_symbol :: "product_option option \<Rightarrow> string \<Rightarrow> string" where
  "option_symbol opt fallback = (case opt of Some p \<Rightarrow> opt_or (po_asset p) (po_symbol p) | None \<Rightarrow> fallback)"

fun position_status_text :: "sim_position_status \<Rightarrow> string" where
  "position_status_text SP_open = ''open''"
| "position_status_text SP_closed = ''closed''"

definition simPositionToMonitorRow :: "rat \<Rightarrow> product_option option \<Rightarrow> sim_position \<Rightarrow> monitor_row" where
  "simPositionToMonitorRow now opt p =
     (let size = executionNumber (JNum (sp_size p)) (Fin 0); avgPrice = executionNumber (JNum (sp_avgPrice p)) (Fin 0);
          marketPrice = executionNumber (JNum (sp_markPrice p)) avgPrice; realizedPnl = executionNumber (JNum (sp_realizedPnl p)) (Fin 0);
          openedAt = executionNumber (JNum (sp_openedAt p)) (Fin now);
          closedAt = map_option (\<lambda>t. executionNumber (JNum t) (Fin 0)) (sp_closedAt p);
          raw = sp_rest p; multiplier = executionMultiplier (sp_marketKey p) raw avgPrice;
          openPnl = calculateOpenFuturesPnl avgPrice marketPrice size multiplier
      in \<lparr>mr_id = ''sim-position-'' @ sp_id p, mr_provider = ''sim'', mr_exchange = ''Sim Exchange'', mr_product = option_label opt (sp_marketKey p),
          mr_symbol = option_symbol opt (sp_marketKey p), mr_marketKey = sp_marketKey p,
          mr_position = (if sp_status p = SP_closed then Fin 0 else size), mr_avgPrice = avgPrice, mr_marketPrice = marketPrice,
          mr_marketValue = calculateFuturesMarketValue marketPrice size multiplier, mr_openPnl = openPnl, mr_closedPnl = realizedPnl,
          mr_dayPnl = js_add realizedPnl openPnl, mr_status = position_status_text (sp_status p), mr_source = sp_source p,
          mr_strategy = js_str (js_nn [js_get raw ''algoName'', JStr (sp_strategy p)]), mr_updatedAt = opt_or closedAt openedAt,
          mr_details = simOrderTag (sp_source p) (shown (js_get raw ''algoRole'')) (shown (js_get raw ''orderTag'')) @ '' '' @
            to_upper (position_status_text (sp_status p)) @ '' '' @ positionSideLabel size @ '' @ '' @ monitorPriceLabel avgPrice (sp_marketKey p) raw\<rparr>)"

definition executionPositionToMonitorRow :: "rat \<Rightarrow> product_option option \<Rightarrow> exec_position \<Rightarrow> monitor_row" where
  "executionPositionToMonitorRow now opt p =
     (let marketKey = (case opt of Some o' \<Rightarrow> opt_or (po_marketKey o') (ep_asset p) | None \<Rightarrow> ep_asset p);
          signedSize = signedExecutionPositionSize (ep_direction p) (or_num (js_num (ep_size p)) (Fin 0));
          entryPrice = js_num (ep_entry_price p); currentPrice = js_num (ep_current_price p); backendOpenPnl = js_num (ep_unrealized_pnl p);
          multiplier = executionMultiplier marketKey (ep_rest p) (or_num entryPrice (Fin 0));
          openPnl = (if is_fin entryPrice \<and> is_fin currentPrice then calculateOpenFuturesPnl entryPrice currentPrice signedSize multiplier
            else if is_fin backendOpenPnl then backendOpenPnl else Fin 0);
          displayEntryPrice = (if is_fin entryPrice then entryPrice else Fin 0);
          displayCurrentPrice = (if is_fin currentPrice then currentPrice else displayEntryPrice)
      in \<lparr>mr_id = ''execution-position-'' @ ep_position_id p, mr_provider = (case opt of Some o' \<Rightarrow> po_provider o' | None \<Rightarrow> ''execution''),
          mr_exchange = providerLabel (option_provider opt), mr_product = option_label opt (ep_asset p), mr_symbol = option_symbol opt (ep_asset p),
          mr_marketKey = marketKey, mr_position = (if closed_status (ep_status p) then Fin 0 else signedSize), mr_avgPrice = displayEntryPrice,
          mr_marketPrice = displayCurrentPrice, mr_marketValue = calculateFuturesMarketValue displayCurrentPrice signedSize multiplier,
          mr_openPnl = openPnl, mr_closedPnl = (if closed_status (ep_status p) then openPnl else Fin 0), mr_dayPnl = openPnl,
          mr_status = ep_status p, mr_source = Algo, mr_strategy = js_str (js_nn [ep_model p, JStr ''ExecutionAgent'']), mr_updatedAt = Fin now,
          mr_details = ''Execution position '' @ ep_position_id p @ '' '' @ ep_direction p @ '' '' @ js_str (ep_size p) @ '' '' @ ep_asset p\<rparr>)"

definition monitor_rows :: "rat \<Rightarrow> product_option list \<Rightarrow> sim_position list \<Rightarrow> exec_position list \<Rightarrow> monitor_row list" where
  "monitor_rows now options simPositions executionPositions =
     js_sort (\<lambda>a b. js_sub (mr_updatedAt b) (mr_updatedAt a))
       (map (\<lambda>p. simPositionToMonitorRow now (dict_get (productLookup options) (sp_marketKey p)) p) simPositions @
        map (\<lambda>p. executionPositionToMonitorRow now
          (List.find (\<lambda>o'. po_asset o' = Some (ep_asset p) \<or> po_symbol o' = ep_asset p \<or> po_marketKey o' = Some (ep_asset p)) options) p) executionPositions)"

definition open_monitor_row :: "monitor_row \<Rightarrow> bool" where
  "open_monitor_row r = (js_lt (Fin 0) (js_abs (mr_position r)) \<and>
     \<not> (js_includes ''closed'' (to_lower (mr_status r)) \<or> js_includes ''flat'' (to_lower (mr_status r))))"

record pnl_summary =
  ps_pnl :: jsnum
  ps_notional :: jsnum
  ps_fills :: nat
  ps_filledContracts :: jsnum
  ps_totalBuys :: jsnum
  ps_totalSells :: jsnum
  ps_netPosition :: jsnum
  ps_openPnl :: jsnum
  ps_closedPnl :: jsnum
  ps_dayPnl :: jsnum
  ps_products :: "fill_rollup list"
  ps_legs :: "pnl_leg list"

definition pnlSummary :: "fill_rollup list \<Rightarrow> exec_row list \<Rightarrow> monitor_row list \<Rightarrow> pnl_summary" where
  "pnlSummary rollups fillRows positionRows =
     (let fillClosedPnl = js_sum (map xr_pnl fillRows); positionClosedPnl = js_sum (map mr_closedPnl positionRows);
          closedPnl = (if positionClosedPnl \<noteq> Fin 0 then positionClosedPnl else fillClosedPnl);
          openRows = filter open_monitor_row positionRows; openPnl = js_sum (map mr_openPnl openRows)
      in \<lparr>ps_pnl = fillClosedPnl, ps_notional = js_sum (map xr_notional fillRows), ps_fills = length fillRows,
          ps_filledContracts = js_sum (map row_contracts fillRows), ps_totalBuys = js_sum (map fr_buys rollups),
          ps_totalSells = js_sum (map fr_sells rollups), ps_netPosition = js_sum (map mr_position openRows), ps_openPnl = openPnl,
          ps_closedPnl = closedPnl, ps_dayPnl = js_add openPnl closedPnl,
          ps_products = take 5 (js_sort (\<lambda>a b. js_sub (js_abs (fr_pnl b)) (js_abs (fr_pnl a))) rollups),
          ps_legs = take 5 (js_sort (\<lambda>a b. js_sub (js_abs (pg_pnl b)) (js_abs (pg_pnl a))) (pnl_legs fillRows))\<rparr>)"

section \<open>The window of positions and orders\<close>

record cerious_position =
  cp_instrumentId :: string
  cp_label :: "string option"
  cp_qty :: jsnum
  cp_avgPrice :: jsnum
  cp_markPrice :: jsnum
  cp_markLive :: bool
  cp_multiplier :: "jsnum option"
  cp_openPnl :: jsnum
  cp_realizedPnl :: "jsnum option"
  cp_account :: "string option"
  cp_lastFillAt :: "string option"
  cp_fillCount :: "jsnum option"

record cerious_order =
  co_id :: string
  co_instrumentId :: string
  co_label :: "string option"
  co_side :: string
  co_qty :: jsnum
  co_price :: jsnum
  co_status :: string
  co_held :: bool
  co_source :: "string option"
  co_orderClass :: "string option"
  co_orderType :: "string option"
  co_algoName :: "string option"
  co_algoLegRole :: "string option"
  co_updatedAt :: "string option"

definition opt_text :: "jsval \<Rightarrow> string option" where
  "opt_text v = (if is_nullish v then None else Some (js_str v))"

definition opt_number :: "jsval \<Rightarrow> jsnum option" where
  "opt_number v = (if is_nullish v then None else Some (executionNumber v (Fin 0)))"

definition normalizeCeriousPositionRow :: "jsval \<Rightarrow> cerious_position" where
  "normalizeCeriousPositionRow row =
     (let avgPrice = executionNumber (js_get row ''avgPrice'') (Fin 0)
      in \<lparr>cp_instrumentId = js_str (js_nn [js_get row ''instrumentId'', js_get row ''marketKey'', js_get row ''symbol'', JStr ''UNKNOWN'']),
          cp_label = opt_text (js_get row ''label''), cp_qty = executionNumber (js_get row ''qty'') (Fin 0), cp_avgPrice = avgPrice,
          cp_markPrice = executionNumber (js_get row ''markPrice'') avgPrice, cp_markLive = truthy (js_get row ''markLive''),
          cp_multiplier = opt_number (js_get row ''multiplier''), cp_openPnl = executionNumber (js_get row ''openPnl'') (Fin 0),
          cp_realizedPnl = opt_number (js_get row ''realizedPnl''), cp_account = opt_text (js_get row ''account''),
          cp_lastFillAt = opt_text (js_get row ''lastFillAt''), cp_fillCount = opt_number (js_get row ''fillCount'')\<rparr>)"

definition normalizeCeriousOrderRow :: "jsval \<Rightarrow> cerious_order" where
  "normalizeCeriousOrderRow row =
     \<lparr>co_id = js_str (js_nn [js_get row ''id'', js_get row ''order_id'', js_get row ''orderId'', JStr ''unknown-order'']),
      co_instrumentId = js_str (js_nn [js_get row ''instrumentId'', js_get row ''marketKey'', js_get row ''symbol'', JStr ''UNKNOWN'']),
      co_label = opt_text (js_get row ''label''), co_side = js_str (js_nn [js_get row ''side'', JStr '''']),
      co_qty = executionNumber (js_get row ''qty'') (Fin 0), co_price = executionNumber (js_get row ''price'') (Fin 0),
      co_status = js_str (js_nn [js_get row ''status'', JStr ''unknown'']), co_held = truthy (js_get row ''held''),
      co_source = opt_text (js_get row ''source''), co_orderClass = opt_text (js_get row ''orderClass''), co_orderType = opt_text (js_get row ''orderType''),
      co_algoName = opt_text (js_get row ''algoName''), co_algoLegRole = opt_text (js_get row ''algoLegRole''), co_updatedAt = opt_text (js_get row ''updatedAt'')\<rparr>"

definition opt_str :: "string option \<Rightarrow> jsval" where
  "opt_str v = (case v of None \<Rightarrow> JUndef | Some s \<Rightarrow> JStr s)"

definition opt_num :: "jsnum option \<Rightarrow> jsval" where
  "opt_num v = (case v of None \<Rightarrow> JUndef | Some x \<Rightarrow> JNum x)"

definition cerious_position_value :: "cerious_position \<Rightarrow> jsval" where
  "cerious_position_value p = JObj [(''instrumentId'', JStr (cp_instrumentId p)), (''label'', opt_str (cp_label p)), (''qty'', JNum (cp_qty p)),
     (''avgPrice'', JNum (cp_avgPrice p)), (''markPrice'', JNum (cp_markPrice p)), (''markLive'', JBool (cp_markLive p)),
     (''multiplier'', opt_num (cp_multiplier p)), (''openPnl'', JNum (cp_openPnl p)), (''realizedPnl'', opt_num (cp_realizedPnl p)),
     (''account'', opt_str (cp_account p)), (''lastFillAt'', opt_str (cp_lastFillAt p)), (''fillCount'', opt_num (cp_fillCount p))]"

definition cerious_order_value :: "cerious_order \<Rightarrow> jsval" where
  "cerious_order_value o' = JObj [(''id'', JStr (co_id o')), (''instrumentId'', JStr (co_instrumentId o')), (''label'', opt_str (co_label o')),
     (''side'', JStr (co_side o')), (''qty'', JNum (co_qty o')), (''price'', JNum (co_price o')), (''status'', JStr (co_status o')),
     (''held'', JBool (co_held o')), (''source'', opt_str (co_source o')), (''orderClass'', opt_str (co_orderClass o')),
     (''orderType'', opt_str (co_orderType o')), (''algoName'', opt_str (co_algoName o')), (''algoLegRole'', opt_str (co_algoLegRole o')),
     (''updatedAt'', opt_str (co_updatedAt o'))]"

fun source_name :: "sim_source \<Rightarrow> string" where
  "source_name Manual = ''manual''"
| "source_name Algo = ''algo''"

definition type_text :: "sim_order_type \<Rightarrow> string" where
  "type_text t = (case t of Limit \<Rightarrow> ''limit'' | Market \<Rightarrow> ''market'')"

text \<open>\<open>new Date(t).toISOString()\<close> is the parameter \<open>isoOf\<close>.\<close>

definition simOrderToCeriousOrderRow :: "(jsnum \<Rightarrow> string) \<Rightarrow> rat \<Rightarrow> product_option option \<Rightarrow> sim_order \<Rightarrow> cerious_order" where
  "simOrderToCeriousOrderRow isoOf now opt o' =
     (let raw = so_rest o'; role = shown (js_get raw ''algoRole'');
          remaining = executionNumber (JNum (so_remaining o')) (Fin 0); size = executionNumber (JNum (so_size o')) (Fin 0)
      in \<lparr>co_id = so_id o', co_instrumentId = option_label opt (so_marketKey o'),
          co_label = Some (case opt of Some p \<Rightarrow> po_subtitle p | None \<Rightarrow> so_marketKey o'), co_side = executionOrderSideLabel o',
          co_qty = (if js_lt (Fin 0) remaining then remaining else size), co_price = executionNumber (JNum (so_price o')) (Fin 0),
          co_status = order_status_value (so_status o'), co_held = False, co_source = Some (source_name (so_source o')),
          co_orderClass = Some (simOrderTag (so_source o') role (shown (js_get raw ''orderTag''))), co_orderType = Some (type_text (so_orderType o')),
          co_algoName = (if is_nullish (js_get raw ''algoName'') then (if so_source o' = Algo then Some (so_strategy o') else None)
            else Some (js_str (js_get raw ''algoName''))),
          co_algoLegRole = (if role = '''' then None else Some (if role = ''cover'' then ''ALGO COVER'' else ''ALGO ENTRY'')),
          co_updatedAt = Some (isoOf (executionNumber (JNum (so_updatedAt o')) (Fin now)))\<rparr>)"

definition simPositionToCeriousPositionRow :: "(jsnum \<Rightarrow> string) \<Rightarrow> product_option option \<Rightarrow> sim_position \<Rightarrow> cerious_position" where
  "simPositionToCeriousPositionRow isoOf opt p =
     (let multiplier = executionMultiplier (sp_marketKey p) (sp_rest p) (sp_avgPrice p); role = shown (js_get (sp_rest p) ''algoRole'')
      in \<lparr>cp_instrumentId = option_label opt (sp_marketKey p),
          cp_label = Some ((if sp_source p = Algo then js_str (js_nn [js_get (sp_rest p) ''algoName'', JStr (sp_strategy p)]) else ''Manual'') @
            (if role = '''' then '''' else '' / '' @ role)),
          cp_qty = sp_size p, cp_avgPrice = sp_avgPrice p, cp_markPrice = sp_markPrice p, cp_markLive = True, cp_multiplier = Some multiplier,
          cp_openPnl = calculateOpenFuturesPnl (sp_avgPrice p) (sp_markPrice p) (sp_size p) multiplier, cp_realizedPnl = Some (sp_realizedPnl p),
          cp_account = Some (sp_operator p), cp_lastFillAt = Some (isoOf (opt_or (sp_closedAt p) (sp_openedAt p))), cp_fillCount = Some (Fin 1)\<rparr>)"

definition ceriousTradingSnapshotUnavailable :: "sim_patch option \<Rightarrow> bool" where
  "ceriousTradingSnapshotUnavailable payload =
     (case payload of None \<Rightarrow> True | Some p \<Rightarrow> list_ex (\<lambda>m. js_includes ''STATE UNAVAILABLE'' (to_upper m)) (opt_or (pa_simMessages p) []))"

definition applyCeriousTradingSnapshot :: "rat \<Rightarrow> sim_patch option \<Rightarrow> terminal_state \<Rightarrow> terminal_state js_result" where
  "applyCeriousTradingSnapshot now payload s =
     (case payload of
        None \<Rightarrow> Inr s
      | Some p \<Rightarrow> if ceriousTradingSnapshotUnavailable payload then Inr s
          else if pa_simOrders p \<noteq> None \<or> pa_simPositions p \<noteq> None \<or> pa_fills p \<noteq> None \<or> pa_simMessages p \<noteq> None
          then setSimTradingState now p s else Inr s)"

subsection \<open>Rows of the window\<close>

definition livePositionRows :: "(jsnum \<Rightarrow> string) \<Rightarrow> product_option list \<Rightarrow> sim_position list \<Rightarrow> cerious_position list" where
  "livePositionRows isoOf options simPositions =
     map (\<lambda>p. simPositionToCeriousPositionRow isoOf (dict_get (productLookup options) (sp_marketKey p)) p) (filter (\<lambda>p. sp_status p = SP_open) simPositions)"

definition liveOrderRows :: "(jsnum \<Rightarrow> string) \<Rightarrow> rat \<Rightarrow> product_option list \<Rightarrow> sim_order list \<Rightarrow> cerious_order list" where
  "liveOrderRows isoOf now options simOrders =
     map (\<lambda>o'. simOrderToCeriousOrderRow isoOf now (dict_get (productLookup options) (so_marketKey o')) o')
       (filter (\<lambda>o'. so_status o' = SO_working \<or> so_status o' = SO_partially_filled) simOrders)"

definition liveFillCount :: "poly_tick list dict \<Rightarrow> nat" where
  "liveFillCount fillsByMarket = sum_list (map (\<lambda>(k, fills). length (filter (isAccountFillTick \<circ> pt_rest) fills)) fillsByMarket)"

definition liveUpdatedMs :: "poly_tick list dict \<Rightarrow> sim_order list \<Rightarrow> sim_position list \<Rightarrow> jsnum" where
  "liveUpdatedMs fillsByMarket simOrders simPositions =
     foldl js_max (Fin 0) (map (\<lambda>x. or_num x (Fin 0)) (map so_updatedAt simOrders @
       map (\<lambda>p. opt_or (sp_closedAt p) (sp_openedAt p)) simPositions @ concat (map (map pt_timestamp \<circ> snd) (js_entries fillsByMarket))))"

definition position_key :: "string \<Rightarrow> cerious_position \<Rightarrow> string" where
  "position_key origin p = origin @ ''-'' @ cp_instrumentId p @ ''-'' @ opt_or (cp_account p) '''' @ ''-'' @ opt_or (cp_label p) ''''"

definition keyed_positions :: "jsval \<Rightarrow> cerious_position list \<Rightarrow> (string \<times> cerious_position) list" where
  "keyed_positions data live =
     map (\<lambda>p. (position_key ''backend'' p, p)) (map normalizeCeriousPositionRow (arr_elems (js_nn [js_get data ''positions'', JArr []]))) @
     map (\<lambda>p. (position_key ''sim'' p, p)) (map (normalizeCeriousPositionRow \<circ> cerious_position_value) live)"

definition allPositionRows :: "jsval \<Rightarrow> cerious_position list \<Rightarrow> cerious_position list" where
  "allPositionRows data live = map snd (foldl (\<lambda>rows (k, p). dict_set k p rows) [] (keyed_positions data live))"

definition listed_orders :: "jsval \<Rightarrow> cerious_order list \<Rightarrow> cerious_order list" where
  "listed_orders data live = map normalizeCeriousOrderRow (arr_elems (js_nn [js_get data ''orders'', JArr []])) @
     map (normalizeCeriousOrderRow \<circ> cerious_order_value) live"

definition allOrderRows :: "jsval \<Rightarrow> cerious_order list \<Rightarrow> cerious_order list" where
  "allOrderRows data live = map snd (foldl (\<lambda>rows o'. dict_set (co_id o') o' rows) [] (listed_orders data live))"

definition cerious_row_matches :: "string \<Rightarrow> jsval \<Rightarrow> bool" where
  "cerious_row_matches query row =
     (query = '''' \<or> list_ex (\<lambda>(k, v). js_includes query (to_lower (js_str (js_nn [v, JStr ''''])))) (obj_pairs row))"

datatype cerious_sort = Sort_instrument | Sort_qty | Sort_openPnl | Sort_updated

definition position_order :: "(string \<Rightarrow> string \<Rightarrow> jsnum) \<Rightarrow> (string \<Rightarrow> jsnum) \<Rightarrow> cerious_sort \<Rightarrow> cerious_position \<Rightarrow> cerious_position \<Rightarrow> jsnum" where
  "position_order lc parse so a b =
     (case so of
        Sort_qty \<Rightarrow> js_sub (js_abs (or_num (cp_qty b) (Fin 0))) (js_abs (or_num (cp_qty a) (Fin 0)))
      | Sort_openPnl \<Rightarrow> js_sub (or_num (cp_openPnl b) (Fin 0)) (or_num (cp_openPnl a) (Fin 0))
      | Sort_updated \<Rightarrow> js_sub (parse (opt_or (cp_lastFillAt b) '''')) (parse (opt_or (cp_lastFillAt a) ''''))
      | Sort_instrument \<Rightarrow> lc (cp_instrumentId a) (cp_instrumentId b))"

definition order_order :: "(string \<Rightarrow> string \<Rightarrow> jsnum) \<Rightarrow> (string \<Rightarrow> jsnum) \<Rightarrow> cerious_sort \<Rightarrow> cerious_order \<Rightarrow> cerious_order \<Rightarrow> jsnum" where
  "order_order lc parse so a b =
     (case so of
        Sort_qty \<Rightarrow> js_sub (js_abs (or_num (co_qty b) (Fin 0))) (js_abs (or_num (co_qty a) (Fin 0)))
      | Sort_updated \<Rightarrow> js_sub (parse (opt_or (co_updatedAt b) '''')) (parse (opt_or (co_updatedAt a) ''''))
      | _ \<Rightarrow> lc (co_instrumentId a) (co_instrumentId b))"

definition shown_positions ::
  "(string \<Rightarrow> string \<Rightarrow> jsnum) \<Rightarrow> (string \<Rightarrow> jsnum) \<Rightarrow> string \<Rightarrow> cerious_sort \<Rightarrow> cerious_position list \<Rightarrow> cerious_position list" where
  "shown_positions lc parse query so rows = js_sort (position_order lc parse so) (filter (cerious_row_matches query \<circ> cerious_position_value) rows)"

definition shown_order_rows ::
  "(string \<Rightarrow> string \<Rightarrow> jsnum) \<Rightarrow> (string \<Rightarrow> jsnum) \<Rightarrow> string \<Rightarrow> cerious_sort \<Rightarrow> cerious_order list \<Rightarrow> cerious_order list" where
  "shown_order_rows lc parse query so rows = js_sort (order_order lc parse so) (filter (cerious_row_matches query \<circ> cerious_order_value) rows)"

datatype order_request_of_window = Shared_cancel_of string | Served_cancel_of string

text \<open>The request of a cancel button of the list, with the status shown before the answer.\<close>

definition cancelOrder :: "string list \<Rightarrow> string \<Rightarrow> (order_request_of_window \<times> string option) option" where
  "cancelOrder liveOrderIds orderId =
     (if orderId = '''' \<or> orderId = ''-'' then None
      else if orderId \<in> set liveOrderIds then Some (Shared_cancel_of orderId, None)
      else Some (Served_cancel_of orderId, Some (''Cancel requested for '' @ orderId)))"

definition http_error :: "answer \<Rightarrow> string option" where
  "http_error answer =
     (case answer of
        Unreachable msg \<Rightarrow> Some msg
      | Answered ok http payload \<Rightarrow> if ok then None else Some (''HTTP '' @ http))"

definition cancel_order_status :: "order_request_of_window \<Rightarrow> answer \<Rightarrow> string" where
  "cancel_order_status request answer =
     (case request of
        Shared_cancel_of orderId \<Rightarrow> (case cancelSharedOrder answer of
            Inl e \<Rightarrow> ''Cancel failed '' @ orderId @ '': '' @ error_text e
          | Inr _ \<Rightarrow> ''Cancelled order '' @ orderId)
      | Served_cancel_of orderId \<Rightarrow> (case http_error answer of
            Some msg \<Rightarrow> ''Cancel failed: '' @ msg
          | None \<Rightarrow> ''Cancel routed for '' @ orderId))"

text \<open>The state that the answer asks the store to take, and the status.\<close>

definition cancelAll_answered :: "nat \<Rightarrow> answer \<Rightarrow> jsval option \<times> string" where
  "cancelAll_answered shownOrders answer =
     (case answer of
        Answered True http payload \<Rightarrow>
          (if truthy (js_get payload ''state'') then Some (js_get payload ''state'') else None,
           ''Cancel-all routed for '' @
             jsnum_string (or_num (js_num (js_nn [js_get payload ''count'', JNum (Fin 0)])) (Fin (of_nat shownOrders))) @ '' working order(s)'')
      | _ \<Rightarrow> (None, ''Cancel-all failed: '' @ opt_or (http_error answer) ''unknown error''))"

definition working_status :: "string \<Rightarrow> bool" where
  "working_status status =
     (list_ex (\<lambda>w. js_includes w (to_lower status)) [''working'', ''partial'', ''open'', ''held'', ''queued'', ''staged''] \<and>
      \<not> list_ex (\<lambda>w. js_includes w (to_lower status)) [''cancel'', ''filled'', ''reject''])"

record cerious_summary =
  cs_positionCount :: nat
  cs_workingOrderCount :: nat
  cs_fillCount :: jsnum
  cs_openPnl :: jsnum
  cs_closedPnl :: jsnum
  cs_totalPnl :: jsnum

definition cerious_summary_of :: "jsval \<Rightarrow> cerious_position list \<Rightarrow> cerious_order list \<Rightarrow> nat \<Rightarrow> cerious_summary" where
  "cerious_summary_of data live orders fillCount =
     (let served = js_get data ''summary''; rows = allPositionRows data live;
          openPnl = js_sum (map (\<lambda>p. or_num (cp_openPnl p) (Fin 0)) rows);
          liveRealizedPnl = js_sum (map (\<lambda>p. or_num (opt_or (cp_realizedPnl p) (Fin 0)) (Fin 0)) live);
          closedPnl = js_add (js_num (js_or [js_get served ''closedPnl'', JNum (Fin 0)])) liveRealizedPnl
      in \<lparr>cs_positionCount = length rows, cs_workingOrderCount = length (filter (working_status \<circ> co_status) orders),
          cs_fillCount = js_max (js_num (js_or [js_get served ''fillCount'', JNum (Fin 0)])) (Fin (of_nat fillCount)),
          cs_openPnl = openPnl, cs_closedPnl = closedPnl, cs_totalPnl = js_add openPnl closedPnl\<rparr>)"

section \<open>Totals and rows\<close>

subsection \<open>Totals of the fills\<close>

definition finite_row :: "exec_row \<Rightarrow> bool" where
  "finite_row row = (is_fin (xr_pnl row) \<and> is_fin (xr_notional row))"

definition finite_rollup :: "fill_rollup \<Rightarrow> bool" where
  "finite_rollup r = (is_fin (fr_pnl r) \<and> is_fin (fr_notional r) \<and> is_fin (fr_buys r) \<and> is_fin (fr_sells r))"

definition finite_leg :: "pnl_leg \<Rightarrow> bool" where
  "finite_leg l = (is_fin (pg_pnl l) \<and> is_fin (pg_notional l))"

lemma row_contracts_fin: "is_fin (row_contracts row)"
  by (auto simp: row_contracts_def executionSizeValue_def Let_def is_fin_conv)

lemma fin_val_add: "is_fin a \<Longrightarrow> is_fin b \<Longrightarrow> fin_val (js_add a b) = fin_val a + fin_val b"
  by (cases a; cases b) auto

definition first_roll :: "exec_row \<Rightarrow> fill_rollup" where
  "first_roll row = roll_row row (empty_rollup (xr_product row))"

definition first_leg :: "exec_row \<Rightarrow> pnl_leg" where
  "first_leg row = leg_row row (start_leg row)"

lemmas rollup_simps = first_roll_def first_leg_def roll_row_def empty_rollup_def finite_rollup_def finite_row_def finite_leg_def Let_def is_fin_js_add row_contracts_fin fin_val_add

interpretation rollup_pnl: grouping xr_product first_roll roll_row "\<lambda>r. fin_val (fr_pnl r)" "\<lambda>r. fin_val (xr_pnl r)" finite_row finite_rollup
  by unfold_locales (auto simp: rollup_simps)

interpretation rollup_notional: grouping xr_product first_roll roll_row "\<lambda>r. fin_val (fr_notional r)" "\<lambda>r. fin_val (xr_notional r)" finite_row finite_rollup
  by unfold_locales (auto simp: rollup_simps)

interpretation rollup_fills: grouping xr_product first_roll roll_row "\<lambda>r. of_nat (fr_fills r)" "\<lambda>_. 1" finite_row finite_rollup
  by unfold_locales (auto simp: rollup_simps)

interpretation rollup_contracts: grouping xr_product first_roll roll_row
    "\<lambda>r. fin_val (fr_buys r) + fin_val (fr_sells r)"
    "\<lambda>r. case fillSideBucket (xr_side r) of Bucket_unknown \<Rightarrow> 0 | _ \<Rightarrow> fin_val (row_contracts r)" finite_row finite_rollup
  by unfold_locales (auto simp: rollup_simps split: fill_bucket.splits)

interpretation legs_pnl: grouping xr_legId first_leg leg_row "\<lambda>l. fin_val (pg_pnl l)" "\<lambda>r. fin_val (xr_pnl r)" finite_row finite_leg
  by unfold_locales (auto simp: rollup_simps start_leg_def leg_row_def)

interpretation legs_notional: grouping xr_legId first_leg leg_row "\<lambda>l. fin_val (pg_notional l)" "\<lambda>r. fin_val (xr_notional r)" finite_row finite_leg
  by unfold_locales (auto simp: rollup_simps start_leg_def leg_row_def)

interpretation legs_rows: grouping xr_legId first_leg leg_row "\<lambda>l. of_nat (pg_rows l)" "\<lambda>_. 1" finite_row finite_leg
  by unfold_locales (auto simp: rollup_simps start_leg_def leg_row_def)

lemma rollups_grouped: "foldl roll_into [] rows = grouped xr_product first_roll roll_row rows"
  unfolding grouped_def by (rule arg_cong [of _ _ "\<lambda>f. foldl f [] rows"]) (simp add: fun_eq_iff roll_into_def first_roll_def split: option.split)

lemma legs_grouped: "foldl leg_into [] rows = grouped xr_legId first_leg leg_row rows"
  unfolding grouped_def by (rule arg_cong [of _ _ "\<lambda>f. foldl f [] rows"]) (simp add: fun_eq_iff leg_into_def first_leg_def split: option.split)

lemma sum_sort: "sum_list (map f (js_sort cmp xs)) = (sum_list (map f xs) :: 'b :: comm_monoid_add)"
  by (simp flip: sum_mset_sum_list)

lemma js_sum_fin: "(\<And>x. x \<in> set xs \<Longrightarrow> is_fin (f x)) \<Longrightarrow> js_sum (map f xs) = Fin (sum_list (map (\<lambda>x. fin_val (f x)) xs))"
proof -
  assume "\<And>x. x \<in> set xs \<Longrightarrow> is_fin (f x)"
  then have "map f xs = map Fin (map (\<lambda>x. fin_val (f x)) xs)" by simp
  then show ?thesis by (metis js_sum_Fin)
qed

lemma row_product: "fr_product (foldl (\<lambda>c x. roll_row x c) r rows) = fr_product r"
  by (induction rows arbitrary: r) (simp_all add: roll_row_def Let_def)

lemma grouped_rollup: "dict_get (grouped xr_product first_roll roll_row rows) k = Some r \<Longrightarrow>
    r = foldl (\<lambda>c x. roll_row x c) (empty_rollup k) (filter (\<lambda>x. xr_product x = k) rows)"
proof -
  assume *: "dict_get (grouped xr_product first_roll roll_row rows) k = Some r"
  show ?thesis
  proof (cases "filter (\<lambda>x. xr_product x = k) rows")
    case (Cons y ys)
    then have "xr_product y = k" by (auto simp: filter_eq_Cons_iff)
    then show ?thesis using * Cons by (simp add: grouped_get first_roll_def)
  qed (use * in \<open>simp add: grouped_get\<close>)
qed

lemma grouped_product: "dict_get (grouped xr_product first_roll roll_row rows) k = Some r \<Longrightarrow> fr_product r = k"
  by (drule grouped_rollup) (simp add: row_product empty_rollup_def)

lemma rollup_of_product:
  assumes "r \<in> set (buildProductFillRollups lc rows)"
  shows "r = foldl (\<lambda>c x. roll_row x c) (empty_rollup (fr_product r)) (filter (\<lambda>x. xr_product x = fr_product r) rows)"
proof -
  let ?g = "grouped xr_product first_roll roll_row rows"
  obtain k where "(k, r) \<in> set ?g" using assms by (auto simp: buildProductFillRollups_def rollups_grouped)
  then have g: "dict_get ?g k = Some r" by (rule iffD1 [OF grouped_entry])
  show ?thesis unfolding grouped_product [OF g] by (rule grouped_rollup [OF g])
qed

lemma rollup_products: "distinct (map fr_product (buildProductFillRollups lc rows)) \<and>
    fr_product ` set (buildProductFillRollups lc rows) = xr_product ` set rows"
proof -
  let ?g = "grouped xr_product first_roll roll_row rows"
  have k: "distinct (map fst ?g)" "fst ` set ?g = xr_product ` set rows" using grouped_keys [of xr_product first_roll roll_row rows] by simp_all
  have "fr_product (snd e) = fst e" if "e \<in> set ?g" for e
  proof -
    have "dict_get ?g (fst e) = Some (snd e)" using that k(1) map_of_is_SomeI [of ?g "fst e" "snd e"] by simp
    then show ?thesis by (rule grouped_product)
  qed
  then have p: "map (fr_product \<circ> snd) ?g = map fst ?g" by simp
  have m: "mset (map fr_product (buildProductFillRollups lc rows)) = mset (map fst ?g)"
    by (simp add: buildProductFillRollups_def rollups_grouped multiset.map_comp flip: p)
  show ?thesis using k mset_eq_imp_distinct_iff [OF m] mset_eq_setD [OF m] by auto
qed

definition known_side :: "exec_row \<Rightarrow> bool" where
  "known_side row = (fillSideBucket (xr_side row) \<noteq> Bucket_unknown)"

lemma total_fin:
  assumes "distinct (map fst d)" "\<And>e. e \<in> set d \<Longrightarrow> is_fin (f (snd e))"
  shows "js_sum (map f (map snd d)) = Fin (sum_list (map (\<lambda>e. fin_val (f (snd e))) d))"
  using js_sum_fin [of d "f \<circ> snd"] assms by (simp add: comp_def)

lemma js_sum_sort:
  assumes "\<And>x. x \<in> set xs \<Longrightarrow> is_fin (f x)"
  shows "js_sum (map f (js_sort cmp xs)) = js_sum (map f xs)"
  using js_sum_fin [of "js_sort cmp xs" f] js_sum_fin [of xs f] assms by (simp add: sum_sort)

lemma known_contracts: "sum_list (map (\<lambda>r. case fillSideBucket (xr_side r) of Bucket_unknown \<Rightarrow> 0 | _ \<Rightarrow> fin_val (row_contracts r)) rows) =
    sum_list (map (\<lambda>r. fin_val (row_contracts r)) (filter known_side rows))"
  by (induction rows) (auto simp: known_side_def split: fill_bucket.splits)

lemma of_nat_total: "rat_of_nat (sum_list (map f xs)) = sum_list (map (\<lambda>x. rat_of_nat (f x)) xs)"
  by (induction xs) simp_all

lemma rollup_totals:
  assumes "list_all finite_row rows"
  shows "js_sum (map fr_pnl (buildProductFillRollups lc rows)) = js_sum (map xr_pnl rows)"
    and "js_sum (map fr_notional (buildProductFillRollups lc rows)) = js_sum (map xr_notional rows)"
    and "js_add (js_sum (map fr_buys (buildProductFillRollups lc rows))) (js_sum (map fr_sells (buildProductFillRollups lc rows))) =
      js_sum (map row_contracts (filter known_side rows))"
    and "sum_list (map fr_fills (buildProductFillRollups lc rows)) = length rows"
proof -
  let ?g = "grouped xr_product first_roll roll_row rows"
  have d: "distinct (map fst ?g)" by (rule conjunct1 [OF grouped_keys])
  have f: "finite_rollup (snd e)" if "e \<in> set ?g" for e using rollup_pnl.groups_good [OF assms that] .
  have rows: "is_fin (xr_pnl r)" "is_fin (xr_notional r)" if "r \<in> set rows" for r using assms that by (auto simp: list_all_iff finite_row_def)
  have fields: "is_fin (fr_pnl (snd e))" "is_fin (fr_notional (snd e))" "is_fin (fr_buys (snd e))" "is_fin (fr_sells (snd e))" if "e \<in> set ?g" for e
    using f [OF that] by (auto simp: finite_rollup_def)
  have b: "js_sum (map g (buildProductFillRollups lc rows)) = Fin (sum_list (map (\<lambda>e. fin_val (g (snd e))) ?g))"
    if "\<And>e. e \<in> set ?g \<Longrightarrow> is_fin (g (snd e))" for g
  proof -
    have "js_sum (map g (buildProductFillRollups lc rows)) = js_sum (map g (map snd ?g))"
      unfolding buildProductFillRollups_def rollups_grouped by (rule js_sum_sort) (use that in auto)
    then show ?thesis using total_fin [OF d, of g] that by simp
  qed
  show "js_sum (map fr_pnl (buildProductFillRollups lc rows)) = js_sum (map xr_pnl rows)"
    using b [of fr_pnl] fields rows rollup_pnl.group_total [OF assms] by (simp add: js_sum_fin)
  show "js_sum (map fr_notional (buildProductFillRollups lc rows)) = js_sum (map xr_notional rows)"
    using b [of fr_notional] fields rows rollup_notional.group_total [OF assms] by (simp add: js_sum_fin)
  show "js_add (js_sum (map fr_buys (buildProductFillRollups lc rows))) (js_sum (map fr_sells (buildProductFillRollups lc rows))) =
      js_sum (map row_contracts (filter known_side rows))"
    using b [of fr_buys] b [of fr_sells] fields rollup_contracts.group_total [OF assms]
    by (simp add: js_sum_fin row_contracts_fin known_contracts flip: sum_list_addf)
  have "sum_list (map (\<lambda>e. rat_of_nat (fr_fills (snd e))) ?g) = of_nat (length rows)"
    using rollup_fills.group_total [OF assms] by (simp add: sum_list_triv)
  then have "rat_of_nat (sum_list (map (\<lambda>e. fr_fills (snd e)) ?g)) = of_nat (length rows)"
    by (simp add: of_nat_total)
  then show "sum_list (map fr_fills (buildProductFillRollups lc rows)) = length rows"
    unfolding buildProductFillRollups_def rollups_grouped sum_sort by (simp add: comp_def)
qed

lemma leg_totals:
  assumes "list_all finite_row rows"
  shows "js_sum (map pg_pnl (pnl_legs rows)) = js_sum (map xr_pnl rows)"
    and "js_sum (map pg_notional (pnl_legs rows)) = js_sum (map xr_notional rows)"
    and "sum_list (map pg_rows (pnl_legs rows)) = length rows"
proof -
  let ?g = "grouped xr_legId first_leg leg_row rows"
  have d: "distinct (map fst ?g)" by (rule conjunct1 [OF grouped_keys])
  have f: "is_fin (pg_pnl (snd e))" "is_fin (pg_notional (snd e))" if "e \<in> set ?g" for e
    using legs_pnl.groups_good [OF assms that] by (simp_all add: finite_leg_def)
  have rows: "is_fin (xr_pnl r)" "is_fin (xr_notional r)" if "r \<in> set rows" for r
    using assms that by (auto simp: list_all_iff finite_row_def)
  show "js_sum (map pg_pnl (pnl_legs rows)) = js_sum (map xr_pnl rows)"
    unfolding pnl_legs_def legs_grouped using total_fin [OF d, of pg_pnl] f rows legs_pnl.group_total [OF assms] by (simp add: js_sum_fin)
  show "js_sum (map pg_notional (pnl_legs rows)) = js_sum (map xr_notional rows)"
    unfolding pnl_legs_def legs_grouped using total_fin [OF d, of pg_notional] f rows legs_notional.group_total [OF assms]
    by (simp add: js_sum_fin)
  have "rat_of_nat (sum_list (map (\<lambda>e. pg_rows (snd e)) ?g)) = of_nat (length rows)"
    using legs_rows.group_total [OF assms] by (simp add: sum_list_triv of_nat_total)
  then show "sum_list (map pg_rows (pnl_legs rows)) = length rows" by (simp add: pnl_legs_def legs_grouped comp_def)
qed

text \<open>The entry of a leg is built from the rows of the leg.\<close>

definition leg_of :: "exec_row list \<Rightarrow> pnl_leg" where
  "leg_of rows = foldl (\<lambda>c x. leg_row x c) (start_leg (hd rows)) rows"

lemma row_leg: "pg_leg (foldl (\<lambda>c x. leg_row x c) l rows) = pg_leg l"
  by (induction rows arbitrary: l) (simp_all add: leg_row_def)

lemma grouped_leg: "dict_get (grouped xr_legId first_leg leg_row rows) k = Some l \<Longrightarrow>
    l = leg_of (filter (\<lambda>x. xr_legId x = k) rows) \<and> pg_leg l = k"
proof -
  assume *: "dict_get (grouped xr_legId first_leg leg_row rows) k = Some l"
  show ?thesis
  proof (cases "filter (\<lambda>x. xr_legId x = k) rows")
    case (Cons y ys)
    then have "xr_legId y = k" by (auto simp: filter_eq_Cons_iff)
    then have "l = leg_of (y # ys)" using * Cons by (simp add: grouped_get first_leg_def leg_of_def)
    then show ?thesis using Cons \<open>xr_legId y = k\<close> by (simp only: leg_of_def row_leg) (simp add: start_leg_def)
  qed (use * in \<open>simp add: grouped_get\<close>)
qed

lemma leg_entries:
  "distinct (map pg_leg (pnl_legs rows)) \<and> pg_leg ` set (pnl_legs rows) = xr_legId ` set rows \<and>
   (\<forall>l \<in> set (pnl_legs rows). l = leg_of (filter (\<lambda>x. xr_legId x = pg_leg l) rows))"
proof -
  let ?g = "grouped xr_legId first_leg leg_row rows"
  have k: "distinct (map fst ?g)" "fst ` set ?g = xr_legId ` set rows" using grouped_keys [of xr_legId first_leg leg_row rows] by simp_all
  have e: "snd e = leg_of (filter (\<lambda>x. xr_legId x = fst e) rows) \<and> pg_leg (snd e) = fst e" if "e \<in> set ?g" for e
    using that k(1) map_of_is_SomeI [of ?g "fst e" "snd e"] by (intro grouped_leg) simp
  have m: "map pg_leg (map snd ?g) = map fst ?g" using conjunct2 [OF e] by simp
  then have s: "pg_leg ` snd ` set ?g = fst ` set ?g" by (metis set_map)
  show ?thesis unfolding pnl_legs_def legs_grouped m set_map s k(2) using k(1) e by auto
qed

text \<open>
  C26. On rows with a finite P&L and notional the totals of the fills agree with each other: summed per product, per leg
  and over all rows the P&L, the notional and the number of fills are the same, and the contracts bought and sold add up
  to those of the rows with a known side.  There is one entry per product and one per leg, built from its own rows in
  their order.
\<close>
theorem fill_totals_agree:
  fixes lc :: "string \<Rightarrow> string \<Rightarrow> jsnum" and rows :: "exec_row list" and monitor :: "monitor_row list"
  assumes "list_all finite_row rows"
  defines "rollups \<equiv> buildProductFillRollups lc rows"
  defines "s \<equiv> pnlSummary rollups rows monitor"
  shows "js_sum (map fr_pnl rollups) = ps_pnl s \<and> js_sum (map pg_pnl (pnl_legs rows)) = ps_pnl s \<and>
    js_sum (map fr_notional rollups) = ps_notional s \<and> js_sum (map pg_notional (pnl_legs rows)) = ps_notional s \<and>
    sum_list (map fr_fills rollups) = ps_fills s \<and> sum_list (map pg_rows (pnl_legs rows)) = ps_fills s \<and>
    distinct (map pg_leg (pnl_legs rows)) \<and> pg_leg ` set (pnl_legs rows) = xr_legId ` set rows \<and>
    (\<forall>l \<in> set (pnl_legs rows). l = leg_of (filter (\<lambda>x. xr_legId x = pg_leg l) rows)) \<and>
    js_add (ps_totalBuys s) (ps_totalSells s) = js_sum (map row_contracts (filter known_side rows)) \<and>
    distinct (map fr_product rollups) \<and> fr_product ` set rollups = xr_product ` set rows \<and>
    (\<forall>r \<in> set rollups. r = foldl (\<lambda>c x. roll_row x c) (empty_rollup (fr_product r)) (filter (\<lambda>x. xr_product x = fr_product r) rows))"
  using rollup_totals [OF assms(1), of lc] leg_totals [OF assms(1)] leg_entries [of rows] rollup_products [of lc rows]
    rollup_of_product [of _ lc rows]
  unfolding rollups_def s_def pnlSummary_def by (simp add: Let_def)

definition sample_fill :: "string \<Rightarrow> rat \<Rightarrow> exec_row" where
  "sample_fill side p = \<lparr>xr_id = ''f'', xr_type = Row_fill, xr_timestamp = Fin 1, xr_account = ''Parent'', xr_exchange = ''Sim Exchange'', xr_provider = ''sim'',
     xr_product = ''ES'', xr_marketKey = ''ES'', xr_orderId = ''o'', xr_source = Manual, xr_orderTag = ''MANUAL'', xr_algoRole = JUndef,
     xr_operator = ''u'', xr_strategy = ''s'', xr_legId = ''L1'', xr_side = side, xr_price = ''1'', xr_size = ''2'', xr_status = ''FILLED'',
     xr_pnl = Fin p, xr_notional = Fin 100, xr_details = '''', xr_legs = []\<rparr>"

theorem fill_totals_agree_witness:
  "js_sum (map fr_pnl (buildProductFillRollups (\<lambda>a b. Fin 0) [sample_fill ''BUY'' 5, sample_fill ''SELL'' (- 2)])) = Fin 3 \<and>
   js_sum (map pg_notional (pnl_legs [sample_fill ''BUY'' 5, sample_fill ''SELL'' (- 2)])) = Fin 200"
  using fill_totals_agree [of "[sample_fill ''BUY'' 5, sample_fill ''SELL'' (- 2)]" "\<lambda>a b. Fin 0" "[]"]
  by (simp add: finite_row_def sample_fill_def pnlSummary_def Let_def js_sum_def)

lemma listed_fold: "foldl (\<lambda>rows (k, p). dict_set k p rows) [] ks = grouped fst snd (\<lambda>x c. snd x) ks"
  unfolding grouped_def by (rule arg_cong [of _ _ "\<lambda>f. foldl f [] ks"]) (simp add: fun_eq_iff split: prod.splits option.split)

lemma last_of_key: "dict_get (foldl (\<lambda>rows (k, p). dict_set k p rows) [] ks) = map_of (rev ks)"
  by (induction ks rule: rev_induct) (auto simp: fun_eq_iff)

lemma listed_keys: "distinct (map fst (foldl (\<lambda>rows (k, p). dict_set k p rows) [] ks)) \<and>
    fst ` set (foldl (\<lambda>rows (k, p). dict_set k p rows) [] ks) = fst ` set ks"
  unfolding listed_fold by (rule grouped_keys)

text \<open>
  The list of positions shows one row per key of origin, instrument, account and label: the last position with the key.
  Positions of one instrument that differ in their leg only hide each other, and the totals count the shown one alone.
\<close>
theorem position_rows_collapse:
  "set (allPositionRows data live) = ran (map_of (rev (keyed_positions data live))) \<and>
    cs_positionCount (cerious_summary_of data live orders fillCount) = card (fst ` set (keyed_positions data live)) \<and>
    cs_openPnl (cerious_summary_of data live orders fillCount) = js_sum (map (\<lambda>p. or_num (cp_openPnl p) (Fin 0)) (allPositionRows data live))"
proof -
  let ?ks = "keyed_positions data live"
  let ?d = "foldl (\<lambda>rows (k, p). dict_set k p rows) [] ?ks"
  have d: "distinct (map fst ?d)" "fst ` set ?d = fst ` set ?ks" using listed_keys [of ?ks] by auto
  have "set (map snd ?d) = ran (dict_get ?d)" using ran_distinct [OF d(1)] by simp
  moreover have "length ?d = card (fst ` set ?ks)" using distinct_card [OF d(1)] by (simp flip: d(2))
  ultimately show ?thesis by (simp add: cerious_summary_of_def allPositionRows_def Let_def last_of_key)
qed

text \<open>Two open manual positions of one market and operator, on different legs, are shown as one.\<close>

lemma manual_legs_hide:
  assumes "sp_marketKey p = sp_marketKey q" "sp_operator p = sp_operator q" "sp_source p = Manual" "sp_source q = Manual"
    "js_get (sp_rest p) ''algoRole'' = JUndef" "js_get (sp_rest q) ''algoRole'' = JUndef"
  shows "allPositionRows JUndef (map (\<lambda>r. simPositionToCeriousPositionRow isoOf opt r) [p, q]) =
    [normalizeCeriousPositionRow (cerious_position_value (simPositionToCeriousPositionRow isoOf opt q))]"
  using assms by (simp add: allPositionRows_def keyed_positions_def position_key_def normalizeCeriousPositionRow_def
      cerious_position_value_def simPositionToCeriousPositionRow_def Let_def opt_text_def opt_str_def shown_def)

text \<open>An order is listed once, and a working order of the store replaces the served row of its identifier.\<close>

lemma keyed_orders: "foldl (\<lambda>rows o'. dict_set (co_id o') o' rows) d os = foldl (\<lambda>rows (k, p). dict_set k p rows) d (map (\<lambda>o'. (co_id o', o')) os)"
  by (induction os arbitrary: d) simp_all

lemma order_rows_once:
  "distinct (map co_id (allOrderRows data live)) \<and>
   set (allOrderRows data live) = ran (map_of (rev (map (\<lambda>o'. (co_id o', o')) (listed_orders data live))))"
proof -
  let ?ks = "map (\<lambda>o'. (co_id o', o')) (listed_orders data live)"
  let ?d = "foldl (\<lambda>rows (k, p). dict_set k p rows) [] ?ks"
  have d: "distinct (map fst ?d)" using listed_keys [of ?ks] by auto
  have "co_id (snd e) = fst e" if "e \<in> set ?d" for e
  proof -
    have "map_of (rev ?ks) (fst e) = Some (snd e)" using that d map_of_is_SomeI [of ?d "fst e" "snd e"] by (simp flip: last_of_key)
    then show ?thesis by (auto dest!: map_of_SomeD)
  qed
  then have m: "map co_id (map snd ?d) = map fst ?d" by simp
  have "distinct (map co_id (map snd ?d))" unfolding m by (rule d)
  moreover have "set (map snd ?d) = ran (map_of (rev ?ks))" using ran_distinct [OF d] by (simp add: last_of_key)
  ultimately show ?thesis unfolding allOrderRows_def keyed_orders by blast
qed

subsection \<open>Rows of orders and their cancel buttons\<close>

lemma order_row_simps [simp]:
  "xr_type (order_row now options ps o') = Row_order" "xr_orderId (order_row now options ps o') = so_id o'"
  "xr_provider (order_row now options ps o') = ''sim''" "xr_status (order_row now options ps o') = order_status_value (so_status o')"
  "is_fin (xr_timestamp (order_row now options ps o'))"
  by (simp_all add: order_row_def Let_def executionNumber_def)

lemma fill_row_simps [simp]: "xr_type (fill_row now op opt mkt key x) = Row_fill" "is_fin (xr_timestamp (fill_row now op opt mkt key x))"
  by (simp_all add: fill_row_def Let_def executionNumber_def split: prod.splits)

lemma fill_rows_type: "r \<in> set (fill_rows now op options markets fills) \<Longrightarrow> xr_type r = Row_fill \<and> is_fin (xr_timestamp r)"
  by (auto simp: fill_rows_def)

lemma fill_rows_length: "length (fill_rows now op options markets fills) = liveFillCount fills"
proof -
  have "length (fill_rows now op options markets fills) =
      sum_list (map (\<lambda>e. length (filter (isAccountFillTick \<circ> pt_rest) (snd e))) (js_entries fills))"
    by (simp add: fill_rows_def length_concat comp_def case_prod_beta' length_enumerate)
  also have "\<dots> = sum_mset (image_mset (\<lambda>e. length (filter (isAccountFillTick \<circ> pt_rest) (snd e))) (mset (js_entries fills)))"
    by (simp flip: sum_mset_sum_list)
  also have "\<dots> = liveFillCount fills" by (simp add: liveFillCount_def case_prod_beta' flip: sum_mset_sum_list)
  finally show ?thesis .
qed

interpretation newest_rows: key_comparator newest_row_first "is_fin \<circ> xr_timestamp" "\<lambda>r. - fin_val (xr_timestamp r)"
  by unfold_locales (auto simp: newest_row_first_def cmp_le_def is_fin_conv)

lemma execution_rows_type: "r \<in> set (buildExecutionRows now op options fills orders ps markets) \<Longrightarrow> is_fin (xr_timestamp r)"
  by (auto simp: buildExecutionRows_def dest: fill_rows_type)

lemma filter_fill_rows: "filter (\<lambda>r. xr_type r = Row_fill) (fill_rows now op options markets fills) = fill_rows now op options markets fills"
  "filter (\<lambda>r. xr_type r = Row_order) (fill_rows now op options markets fills) = []"
  using fill_rows_type [of _ now op options markets fills] by (auto simp: filter_id_conv filter_empty_conv)

lemma mset_of_type: "mset (filter P (buildExecutionRows now op options fills orders ps markets)) =
    mset (filter P (fill_rows now op options markets fills)) + mset (filter P (map (order_row now options ps) orders))"
  by (simp add: buildExecutionRows_def)

text \<open>
  The rows of orders and fills are sorted newest first whatever the timestamps are, with one row for every order and one
  for every fill of the account, and none for the trades of the market.
\<close>
theorem execution_rows_complete:
  fixes now :: rat and op :: string and options :: "product_option list" and fills :: "poly_tick list dict" and orders :: "sim_order list"
    and ps :: "sim_position list" and markets :: "market_info list"
  shows "sorted (map (\<lambda>r. - fin_val (xr_timestamp r)) (buildExecutionRows now op options fills orders ps markets)) \<and>
    length (filter (\<lambda>r. xr_type r = Row_fill) (buildExecutionRows now op options fills orders ps markets)) = liveFillCount fills \<and>
    mset (map xr_orderId (filter (\<lambda>r. xr_type r = Row_order) (buildExecutionRows now op options fills orders ps markets))) = mset (map so_id orders)"
proof (intro conjI)
  show "sorted (map (\<lambda>r. - fin_val (xr_timestamp r)) (buildExecutionRows now op options fills orders ps markets))"
    using execution_rows_type [of _ now op options fills orders ps markets] unfolding buildExecutionRows_def
    by (intro newest_rows.sort_sorted_key) simp
  show "length (filter (\<lambda>r. xr_type r = Row_fill) (buildExecutionRows now op options fills orders ps markets)) = liveFillCount fills"
    using arg_cong [OF mset_of_type [of "\<lambda>r. xr_type r = Row_fill" now op options fills orders ps markets], of size]
    by (simp add: filter_fill_rows fill_rows_length filter_map comp_def del: mset_filter)
  show "mset (map xr_orderId (filter (\<lambda>r. xr_type r = Row_order) (buildExecutionRows now op options fills orders ps markets))) = mset (map so_id orders)"
    using arg_cong [OF mset_of_type [of "\<lambda>r. xr_type r = Row_order" now op options fills orders ps markets], of "image_mset xr_orderId"]
    by (simp add: filter_fill_rows filter_map comp_def multiset.map_comp)
qed

lemma closed_status_values: "closed_status (order_status_value st) \<longleftrightarrow> st \<noteq> SO_working"
  by (cases st; simp only: order_status_value.simps; code_simp)

lemma working_status_values: "working_status (order_status_value st) \<longleftrightarrow> st = SO_working"
  by (cases st; simp only: order_status_value.simps; code_simp)

definition all_orders :: order_filters where
  "all_orders = \<lparr>of_provider = ''all'', of_product = ''all'', of_status = ''working'', of_source = None\<rparr>"

lemma row_matches_all: "row_matches all_orders row"
  by (simp add: row_matches_def all_orders_def)

lemma status_filter: "status_matches all_orders row \<longleftrightarrow> \<not> closed_status (xr_status row)"
  by (simp add: status_matches_def all_orders_def)

lemma mset_window_rows: "mset (window_rows now op options orders ps) = mset (map (order_row now options ps) orders)"
  using mset_of_type [of "\<lambda>r. xr_type r = Row_order" now op options "[]" orders ps "[]"]
  by (simp add: window_rows_def filter_fill_rows filter_map comp_def)

lemma mset_window_filter: "mset (filter Q (window_rows now op options orders ps)) =
    mset (map (order_row now options ps) (filter (\<lambda>x. Q (order_row now options ps x)) orders))"
proof -
  have "mset (filter Q (window_rows now op options orders ps)) = mset (filter Q (map (order_row now options ps) orders))"
    unfolding mset_filter mset_window_rows ..
  then show ?thesis by (simp add: filter_map comp_def del: mset_filter)
qed

text \<open>
  A partially filled order counts as closed: the window of orders does not list it among the working ones, does not
  count it and its cancel button does nothing, and the window of positions and orders shows it but does not count it.
\<close>
theorem partial_fills_look_closed:
  "cancelOrderRow (order_row now options ps o') = (if so_status o' = SO_working then Some (Cancel_shared (so_id o')) else None) \<and>
   workingCount all_orders (window_rows now op options orders ps) = length (filter (\<lambda>x. so_status x = SO_working) orders) \<and>
   mset (map xr_orderId (visible_rows all_orders (window_rows now op options orders ps))) =
     mset (map so_id (filter (\<lambda>x. so_status x = SO_working) orders)) \<and>
   cs_workingOrderCount (cerious_summary_of JUndef live (map (simOrderToCeriousOrderRow isoOf now opt) orders) fillCount) =
     length (filter (\<lambda>x. so_status x = SO_working) orders)"
proof (intro conjI)
  show "cancelOrderRow (order_row now options ps o') = (if so_status o' = SO_working then Some (Cancel_shared (so_id o')) else None)"
    by (simp add: cancelOrderRow_def closed_status_values)
  have "mset (filter (\<lambda>r. row_matches all_orders r \<and> \<not> closed_status (xr_status r)) (window_rows now op options orders ps)) =
      mset (map (order_row now options ps) (filter (\<lambda>x. so_status x = SO_working) orders))"
    unfolding mset_window_filter by (simp add: row_matches_all closed_status_values del: mset_filter)
  from arg_cong [OF this, of size] show "workingCount all_orders (window_rows now op options orders ps) = length (filter (\<lambda>x. so_status x = SO_working) orders)"
    by (simp add: workingCount_def del: mset_filter)
  have "mset (visible_rows all_orders (window_rows now op options orders ps)) =
      mset (map (order_row now options ps) (filter (\<lambda>x. so_status x = SO_working) orders))"
    unfolding visible_rows_def mset_window_filter
    by (simp add: row_matches_all status_filter closed_status_values del: mset_filter)
  from arg_cong [OF this, of "image_mset xr_orderId"] show "mset (map xr_orderId (visible_rows all_orders (window_rows now op options orders ps))) =
     mset (map so_id (filter (\<lambda>x. so_status x = SO_working) orders))"
    by (simp add: multiset.map_comp comp_def)
  show "cs_workingOrderCount (cerious_summary_of JUndef live (map (simOrderToCeriousOrderRow isoOf now opt) orders) fillCount) =
     length (filter (\<lambda>x. so_status x = SO_working) orders)"
    by (simp add: cerious_summary_of_def Let_def filter_map comp_def simOrderToCeriousOrderRow_def working_status_values)
qed

subsection \<open>Served rows\<close>












end
