(* ===== verification/Profile.thy ===== *)
theory Profile
  imports Studies
begin

text \<open>
  The volume profile drawn over the charts of \<open>components/Chart.tsx\<close> and \<open>components/MultiChart.tsx\<close>: the volume of
  every bar spread over price bins, the point of control (the fullest bin) and the value area grown around it until it
  holds seventy per cent of the volume.  The two components differ in the number of bins and in the least number of bars.
\<close>

section \<open>Bins\<close>

definition bin_add :: "jsnum \<Rightarrow> jsnum \<Rightarrow> jsnum list \<Rightarrow> jsnum list" where
  "bin_add index v bins =
     (if is_fin index \<and> nat_of index < length bins then bins[nat_of index := js_add (bins ! nat_of index) v] else bins)"

definition overlap :: "jsnum \<Rightarrow> jsnum \<Rightarrow> jsnum \<Rightarrow> jsnum \<Rightarrow> nat \<Rightarrow> jsnum" where
  "overlap lo step barLow barHigh i =
     (let binLow = js_add lo (js_mul (Fin (of_nat i)) step); binHigh = js_add binLow step
      in js_max (Fin 0) (js_sub (js_min barHigh binHigh) (js_max barLow binLow)))"

definition spread_bar :: "jsnum \<Rightarrow> jsnum \<Rightarrow> jsnum \<Rightarrow> bar \<Rightarrow> jsnum list \<Rightarrow> jsnum list" where
  "spread_bar lo hi step b bins =
     (let barVol = volume b; barLow = js_max lo (low b); barHigh = js_min hi (high b); range = js_sub barHigh barLow
      in if js_le barVol (Fin 0) then bins
         else if js_le range (Fin 0) then
           bin_add (js_max (Fin 0) (js_min (Fin (of_nat (length bins) - 1)) (js_floor (js_div (js_sub (close b) lo) step)))) barVol bins
         else map (\<lambda>(i, v). if js_lt (Fin 0) (overlap lo step barLow barHigh i)
                then js_add v (js_mul barVol (js_div (overlap lo step barLow barHigh i) range)) else v) (List.enumerate 0 bins))"

definition volume_bins :: "jsnum \<Rightarrow> jsnum \<Rightarrow> jsnum \<Rightarrow> nat \<Rightarrow> bar list \<Rightarrow> jsnum list" where
  "volume_bins lo hi step n bars = foldl (\<lambda>bins b. spread_bar lo hi step b bins) (replicate n (Fin 0)) bars"

section \<open>Value area\<close>

text \<open>
  The loop grows the area by the larger neighbour, upwards on ties.  Its last branch, where neither side has a bin left,
  changes nothing; the guard excludes it.
\<close>

function value_area :: "jsnum list \<Rightarrow> jsnum \<Rightarrow> nat \<Rightarrow> nat \<Rightarrow> jsnum \<Rightarrow> nat \<times> nat \<times> jsnum" where
  "value_area bins target vaLow vaHigh covered =
     (if \<not> (js_lt covered target \<and> (0 < vaLow \<or> vaHigh < length bins - 1)) then (vaLow, vaHigh, covered)
      else let left = (if 0 < vaLow then bins ! (vaLow - 1) else Fin (- 1));
               right = (if vaHigh < length bins - 1 then bins ! (vaHigh + 1) else Fin (- 1))
           in if js_le left right then
                (if vaHigh < length bins - 1 then value_area bins target vaLow (vaHigh + 1) (js_add covered (bins ! (vaHigh + 1)))
                 else if 0 < vaLow then value_area bins target (vaLow - 1) vaHigh (js_add covered (bins ! (vaLow - 1)))
                 else value_area bins target vaLow vaHigh covered)
              else if 0 < vaLow then value_area bins target (vaLow - 1) vaHigh (js_add covered (bins ! (vaLow - 1)))
              else if vaHigh < length bins - 1 then value_area bins target vaLow (vaHigh + 1) (js_add covered (bins ! (vaHigh + 1)))
              else value_area bins target vaLow vaHigh covered)"
  by pat_completeness auto
termination
  by (relation "measure (\<lambda>(bins, target, vaLow, vaHigh, covered). vaLow + (length bins - vaHigh))") auto

declare value_area.simps [simp del]

record volume_profile =
  vp_low :: jsnum
  vp_step :: jsnum
  vp_bins :: "jsnum list"
  vp_max :: jsnum
  vp_poc :: nat
  vp_vaLow :: nat
  vp_vaHigh :: nat
  vp_covered :: jsnum

definition index_of :: "jsnum \<Rightarrow> jsnum list \<Rightarrow> nat" where
  "index_of v bins = opt_or (find_index (\<lambda>x. js_eq x v) bins) 0"

definition profile_of :: "nat \<Rightarrow> nat \<Rightarrow> bar list \<Rightarrow> volume_profile option" where
  "profile_of minBars binsCount bars =
     (let lo = js_min_list (map low bars); hi = js_max_list (map high bars); step = js_div (js_sub hi lo) (Fin (of_nat binsCount))
      in if length bars < minBars \<or> \<not> is_fin lo \<or> \<not> is_fin hi \<or> js_le hi lo \<or> js_le step (Fin 0) then None
         else let bins = volume_bins lo hi step binsCount bars; totalVol = js_sum bins; maxVol = js_max_list bins;
                  pocIdx = index_of maxVol bins
              in if js_le totalVol (Fin 0) \<or> js_le maxVol (Fin 0) then None
                 else let (vaLow, vaHigh, covered) = value_area bins (js_mul totalVol (Fin (7 / 10))) pocIdx pocIdx (bins ! pocIdx)
                      in Some \<lparr>vp_low = lo, vp_step = step, vp_bins = bins, vp_max = maxVol, vp_poc = pocIdx,
                           vp_vaLow = vaLow, vp_vaHigh = vaHigh, vp_covered = covered\<rparr>)"

datatype bin_kind = Bin_poc | Bin_value | Bin_outside

text \<open>The bins drawn, with the kind that colours them and their width.\<close>

definition drawn_bins :: "jsnum \<Rightarrow> jsnum \<Rightarrow> volume_profile \<Rightarrow> (jsnum \<times> jsnum \<times> bin_kind \<times> jsnum) list" where
  "drawn_bins leastWidth w p =
     (let maxBarW = js_max leastWidth (js_floor (js_mul w (Fin (2 / 10))))
      in map (\<lambda>(i, vol). let p0 = js_add (vp_low p) (js_mul (Fin (of_nat i)) (vp_step p))
             in (p0, js_add p0 (vp_step p),
                 (if i = vp_poc p then Bin_poc else if vp_vaLow p \<le> i \<and> i \<le> vp_vaHigh p then Bin_value else Bin_outside),
                 js_mul (js_div vol (vp_max p)) maxBarW))
           (filter (\<lambda>(i, vol). \<not> js_le vol (Fin 0)) (List.enumerate 0 (vp_bins p))))"

definition chart_profile :: "bool \<Rightarrow> nat \<Rightarrow> bar list \<Rightarrow> volume_profile option" where
  "chart_profile tickMode vpBins bars = (if tickMode \<or> bars = [] then None else profile_of 3 vpBins bars)"

definition panel_profile :: "bar list \<Rightarrow> volume_profile option" where
  "panel_profile bars = (if bars = [] then None else profile_of 2 28 bars)"

section \<open>The value area\<close>

definition fin_bins :: "jsnum list \<Rightarrow> bool" where
  "fin_bins bins = list_all (\<lambda>x. is_fin x \<and> 0 \<le> fin_val x) bins"

definition area_sum :: "jsnum list \<Rightarrow> nat \<Rightarrow> nat \<Rightarrow> rat" where
  "area_sum bins lo hi = (\<Sum>i = lo..hi. fin_val (bins ! i))"

lemma area_up: "lo \<le> hi \<Longrightarrow> area_sum bins lo (Suc hi) = area_sum bins lo hi + fin_val (bins ! Suc hi)"
  by (simp add: area_sum_def)

lemma area_down: "0 < lo \<Longrightarrow> lo \<le> hi \<Longrightarrow> area_sum bins (lo - 1) hi = fin_val (bins ! (lo - 1)) + area_sum bins lo hi"
  by (cases lo) (simp_all add: area_sum_def sum.atLeast_Suc_atMost)

lemma fin_bins_nth: "fin_bins bins \<Longrightarrow> i < length bins \<Longrightarrow> bins ! i = Fin (fin_val (bins ! i)) \<and> 0 \<le> fin_val (bins ! i)"
  by (auto simp: fin_bins_def list_all_length)

text \<open>The state of the loop: a range of bins with its sum, which was below the target before its last bin was added.\<close>

definition area_ok :: "jsnum list \<Rightarrow> rat \<Rightarrow> nat \<Rightarrow> nat \<Rightarrow> nat \<Rightarrow> jsnum \<Rightarrow> bool" where
  "area_ok bins target poc lo hi covered =
     (lo \<le> poc \<and> poc \<le> hi \<and> hi < length bins \<and> covered = Fin (area_sum bins lo hi) \<and>
      (lo = poc \<and> hi = poc \<or> (\<exists>i \<in> {lo, hi}. area_sum bins lo hi - fin_val (bins ! i) < target)))"

lemma area_ok_up:
  assumes "area_ok bins target poc lo hi covered" "js_lt covered (Fin target)" "hi < length bins - 1" "fin_bins bins"
  shows "area_ok bins target poc lo (hi + 1) (js_add covered (bins ! (hi + 1)))"
proof -
  have "bins ! Suc hi = Fin (fin_val (bins ! Suc hi))" using fin_bins_nth [OF assms(4), of "Suc hi"] assms(3) by simp
  then have "js_add covered (bins ! (hi + 1)) = Fin (area_sum bins lo (hi + 1))"
    using assms(1) by (metis Suc_eq_plus1 area_ok_def area_up js_add.simps(1) le_trans)
  then show ?thesis using assms by (auto simp: area_ok_def area_up)
qed

lemma area_ok_down:
  assumes "area_ok bins target poc lo hi covered" "js_lt covered (Fin target)" "0 < lo" "fin_bins bins"
  shows "area_ok bins target poc (lo - 1) hi (js_add covered (bins ! (lo - 1)))"
proof -
  have "bins ! (lo - 1) = Fin (fin_val (bins ! (lo - 1)))" using fin_bins_nth [OF assms(4), of "lo - 1"] assms by (auto simp: area_ok_def)
  then have "js_add covered (bins ! (lo - 1)) = Fin (area_sum bins (lo - 1) hi)"
    using assms(1,3) area_down [of lo hi bins] by (metis add.commute area_ok_def js_add.simps(1) le_trans)
  then show ?thesis using assms area_down [of lo hi bins] by (auto simp: area_ok_def)
qed

definition goes_up :: "jsnum list \<Rightarrow> nat \<Rightarrow> nat \<Rightarrow> bool" where
  "goes_up bins lo hi = (hi < length bins - 1 \<and> (lo = 0 \<or> js_le (bins ! (lo - 1)) (bins ! (hi + 1))))"

lemma value_area_stop: "\<not> (js_lt covered target \<and> (0 < lo \<or> hi < length bins - 1)) \<Longrightarrow> value_area bins target lo hi covered = (lo, hi, covered)"
  by (simp add: value_area.simps)

lemma value_area_step:
  assumes "js_lt covered target" "0 < lo \<or> hi < length bins - 1" "fin_bins bins" "lo \<le> hi" "hi < length bins"
  shows "value_area bins target lo hi covered =
    (if goes_up bins lo hi then value_area bins target lo (hi + 1) (js_add covered (bins ! (hi + 1)))
     else value_area bins target (lo - 1) hi (js_add covered (bins ! (lo - 1))))"
proof -
  have neg: "js_le (Fin (- 1)) (bins ! i)" "\<not> js_le (bins ! i) (Fin (- 1))" if "i < length bins" for i
    using fin_bins_nth [OF assms(3) that] by (metis js_le_Fin le_minus_one_simps(1) order_trans, metis js_le_Fin le_minus_one_simps(3) order_trans)
  consider "lo = 0" "hi < length bins - 1" | "0 < lo" "hi < length bins - 1" | "0 < lo" "\<not> hi < length bins - 1" using assms(2) by blast
  then show ?thesis
  proof cases
    case 1
    then show ?thesis using assms(1) neg(1) [of "hi + 1"] by (subst value_area.simps) (simp add: goes_up_def)
  next
    case 2
    then show ?thesis using assms(1) by (subst value_area.simps) (simp add: goes_up_def)
  next
    case 3
    then show ?thesis using assms neg(2) [of "lo - 1"] by (subst value_area.simps) (simp add: goes_up_def)
  qed
qed

lemma value_area_inv:
  assumes "area_ok bins target poc lo hi covered" "fin_bins bins"
  shows "case value_area bins (Fin target) lo hi covered of (lo', hi', covered') \<Rightarrow>
    area_ok bins target poc lo' hi' covered' \<and> (js_le (Fin target) covered' \<or> lo' = 0 \<and> hi' = length bins - 1)"
  using assms(1)
proof (induction "lo + (length bins - hi)" arbitrary: lo hi covered rule: less_induct)
  case less
  have r: "lo \<le> hi" "hi < length bins" using less.prems by (auto simp: area_ok_def)
  show ?case
  proof (cases "js_lt covered (Fin target) \<and> (0 < lo \<or> hi < length bins - 1)")
    case False
    then have "js_le (Fin target) covered \<or> lo = 0 \<and> hi = length bins - 1" using less.prems by (auto simp: area_ok_def not_less)
    then show ?thesis using less.prems by (simp add: value_area_stop [OF False])
  next
    case True
    then have go: "js_lt covered (Fin target)" "0 < lo \<or> hi < length bins - 1" by simp_all
    note step = value_area_step [OF go assms(2) r]
    show ?thesis
    proof (cases "goes_up bins lo hi")
      case up: True
      then have "hi < length bins - 1" by (simp add: goes_up_def)
      with less.hyps [OF _ area_ok_up [OF less.prems go(1) this assms(2)]] up show ?thesis by (simp add: step)
    next
      case down: False
      then have "0 < lo" using go by (auto simp: goes_up_def)
      with less.hyps [OF _ area_ok_down [OF less.prems go(1) this assms(2)]] down show ?thesis by (simp add: step)
    qed
  qed
qed

section \<open>The volume of the bins\<close>

definition total :: "jsnum list \<Rightarrow> rat" where
  "total bins = sum_list (map fin_val bins)"

lemma total_sum: "total bins = (\<Sum>i < length bins. fin_val (bins ! i))"
  unfolding total_def sum_list_sum_nth by (simp add: atLeast0LessThan)

lemma total_area: "bins \<noteq> [] \<Longrightarrow> total bins = area_sum bins 0 (length bins - 1)"
proof -
  assume "bins \<noteq> []"
  then have "{..<length bins} = {0..length bins - 1}" by (cases bins) auto
  then show ?thesis by (simp add: total_sum area_sum_def)
qed

text \<open>Cut at the ends of the bins, the interval of a bar is as long as the interval itself.\<close>

definition cut :: "rat \<Rightarrow> rat \<Rightarrow> rat \<Rightarrow> rat" where
  "cut bl bh x = min bh (max bl x)"

lemma cut_overlap: "x \<le> y \<Longrightarrow> bl \<le> bh \<Longrightarrow> max 0 (min bh y - max bl x) = cut bl bh y - cut bl bh x"
  by (auto simp: cut_def min_def max_def)

lemma sum_steps: "(\<Sum>i < n. f (Suc i) - f i) = f n - (f 0 :: rat)"
  by (induction n) simp_all

lemma overlaps_total:
  assumes "0 < n" "lo < hi" "lo \<le> bl" "bl \<le> bh" "bh \<le> (hi :: rat)"
  defines "step \<equiv> (hi - lo) / of_nat n"
  shows "(\<Sum>i < n. max 0 (min bh (lo + of_nat i * step + step) - max bl (lo + of_nat i * step))) = bh - bl"
proof -
  let ?x = "\<lambda>i. lo + of_nat i * step"
  have s: "0 < step" using assms by (simp add: step_def)
  have "(\<Sum>i < n. max 0 (min bh (lo + of_nat i * step + step) - max bl (lo + of_nat i * step))) =
      (\<Sum>i < n. cut bl bh (?x (Suc i)) - cut bl bh (?x i))"
  proof (rule sum.cong [OF refl])
    fix i
    have "?x i + step = ?x (Suc i)" by (simp add: algebra_simps)
    then show "max 0 (min bh (lo + of_nat i * step + step) - max bl (lo + of_nat i * step)) = cut bl bh (?x (Suc i)) - cut bl bh (?x i)"
      using cut_overlap [of "?x i" "?x (Suc i)" bl bh] s assms(4) by simp
  qed
  also have "\<dots> = cut bl bh (?x n) - cut bl bh (?x 0)" by (rule sum_steps)
  also have "?x n = hi" using assms(1) by (simp add: step_def)
  finally show ?thesis using assms by (simp add: cut_def)
qed

lemma map_enumerate: "map (\<lambda>(i, v). f i v) (List.enumerate 0 xs) = map (\<lambda>i. f i (xs ! i)) [0..<length xs]"
  by (rule nth_equalityI) (simp_all add: nth_enumerate_eq)

lemma bin_add_total:
  assumes "fin_bins bins" "is_fin index" "nat_of index < length bins" "0 \<le> v"
  shows "fin_bins (bin_add index (Fin v) bins) \<and> total (bin_add index (Fin v) bins) = total bins + v"
proof -
  let ?i = "nat_of index"
  have i: "bins ! ?i = Fin (fin_val (bins ! ?i))" "0 \<le> fin_val (bins ! ?i)" using fin_bins_nth [OF assms(1,3)] by simp_all
  then have "js_add (bins ! ?i) (Fin v) = Fin (fin_val (bins ! ?i) + v)" by (metis js_add.simps(1))
  then show ?thesis using assms i
    by (auto simp: bin_add_def total_def map_update sum_list_change fin_bins_def list_all_iff dest!: set_update_subset_insert [THEN subsetD])
qed

lemma spread_total:
  assumes "fin_bins bins" "bins \<noteq> []" "finite_bar b" "is_fin (volume b)" "lo < hi" "lo \<le> fin_val (low b)" "fin_val (high b) \<le> hi"
  defines "step \<equiv> (hi - lo) / of_nat (length bins)"
  defines "bins' \<equiv> spread_bar (Fin lo) (Fin hi) (Fin step) b bins"
  shows "fin_bins bins' \<and> length bins' = length bins \<and> total bins' = total bins + bar_volume b"
proof -
  obtain l h c v where b: "low b = Fin l" "high b = Fin h" "close b = Fin c" "volume b = Fin v"
    using assms(3,4) by (auto simp: finite_bar_def is_fin_conv)
  have lh: "max lo l = l" "min hi h = h" using assms(6,7) b by simp_all
  have step: "0 < step" using assms(2,5) by (simp add: step_def)
  consider "v \<le> 0" | "0 < v" "h \<le> l" | "0 < v" "l < h" by linarith
  then show ?thesis
  proof cases
    case 1
    then show ?thesis using assms(1) by (simp add: bins'_def spread_bar_def b bar_volume_def)
  next
    case 2
    let ?ix = "js_max (Fin 0) (js_min (Fin (of_nat (length bins) - 1)) (js_floor (js_div (js_sub (Fin c) (Fin lo)) (Fin step))))"
    have "\<exists>z. ?ix = Fin (of_int z) \<and> 0 \<le> z \<and> z < int (length bins)"
      using step assms(2) by (intro exI [of _ "max 0 (min (int (length bins) - 1) \<lfloor>(c - lo) / step\<rfloor>)"])
        (auto simp: of_int_max of_int_min)
    then have ix: "is_fin ?ix" "nat_of ?ix < length bins" by (auto simp: nat_of_def)
    have "bins' = bin_add ?ix (Fin v) bins" using 2 lh by (simp add: bins'_def spread_bar_def b Let_def)
    moreover have "length (bin_add ?ix (Fin v) bins) = length bins" by (simp add: bin_add_def)
    ultimately show ?thesis using bin_add_total [OF assms(1) ix, of v] 2 by (simp add: bar_volume_def b)
  next
    case 3
    define ov where "ov = (\<lambda>i. max 0 (min h (lo + of_nat i * step + step) - max l (lo + of_nat i * step)))"
    have o: "overlap (Fin lo) (Fin step) (Fin l) (Fin h) i = Fin (ov i)" for i by (simp add: overlap_def Let_def ov_def)
    let ?f = "\<lambda>i v'. if js_lt (Fin 0) (Fin (ov i)) then js_add v' (js_mul (Fin v) (js_div (Fin (ov i)) (Fin (h - l)))) else v'"
    have f: "?f i (bins ! i) = Fin (fin_val (bins ! i) + v * ov i / (h - l))" "0 \<le> v * ov i / (h - l)" if "i < length bins" for i
    proof -
      have nn: "0 \<le> ov i" by (simp add: ov_def)
      have e: "bins ! i = Fin (fin_val (bins ! i))" using fin_bins_nth [OF assms(1) that] by simp
      show "?f i (bins ! i) = Fin (fin_val (bins ! i) + v * ov i / (h - l))" using nn 3 by (subst (1 2) e) (auto simp: not_less)
      show "0 \<le> v * ov i / (h - l)" using nn 3 by simp
    qed
    have "bins' = map (\<lambda>(i, v'). ?f i v') (List.enumerate 0 bins)"
      using 3 lh by (auto simp: bins'_def spread_bar_def b Let_def o split: prod.splits)
    then have m: "bins' = map (\<lambda>i. ?f i (bins ! i)) [0..<length bins]" by (simp only: map_enumerate)
    have len: "length bins' = length bins" by (simp add: m)
    have nth: "bins' ! i = Fin (fin_val (bins ! i) + v * ov i / (h - l))" if "i < length bins" for i
    proof -
      have "bins' ! i = ?f i (bins ! i)" using that unfolding m by simp
      also note f(1) [OF that]
      finally show ?thesis .
    qed
    have "total bins' = (\<Sum>i < length bins. fin_val (bins ! i) + v * ov i / (h - l))"
      using nth by (simp add: len total_sum)
    also have "\<dots> = total bins + v / (h - l) * (\<Sum>i < length bins. ov i)"
      by (simp add: total_sum sum.distrib sum_distrib_left)
    also have "(\<Sum>i < length bins. ov i) = h - l"
      unfolding ov_def step_def using overlaps_total [of "length bins" lo hi l h] assms 3 b by simp
    finally have "total bins' = total bins + v" using 3 by simp
    moreover have "fin_bins bins'" using nth f(2) fin_bins_nth [OF assms(1)] by (auto simp: fin_bins_def list_all_length len)
    ultimately show ?thesis using 3 len by (simp add: bar_volume_def b)
  qed
qed

lemma volume_bins_total:
  assumes "\<forall>b \<in> set bars. finite_bar b \<and> is_fin (volume b) \<and> lo \<le> fin_val (low b) \<and> fin_val (high b) \<le> hi" "lo < hi" "0 < n"
  defines "bins \<equiv> volume_bins (Fin lo) (Fin hi) (Fin ((hi - lo) / of_nat n)) n bars"
  shows "fin_bins bins \<and> length bins = n \<and> total bins = sum_list (map bar_volume bars)"
  using assms(1) unfolding bins_def volume_bins_def
proof (induction bars rule: rev_induct)
  case Nil
  then show ?case by (simp add: fin_bins_def total_def list_all_iff map_replicate_const sum_list_replicate)
next
  case (snoc b bars)
  let ?bs = "foldl (\<lambda>bins b. spread_bar (Fin lo) (Fin hi) (Fin ((hi - lo) / of_nat n)) b bins) (replicate n (Fin 0)) bars"
  have IH: "fin_bins ?bs" "length ?bs = n" "total ?bs = sum_list (map bar_volume bars)" using snoc by simp_all
  then have "?bs \<noteq> []" using assms(3) by auto
  from spread_total [OF IH(1) this, of b lo hi] snoc.prems assms(2) IH show ?case by simp
qed

lemma index_of_member: "v \<in> set bins \<Longrightarrow> is_fin v \<Longrightarrow> index_of v bins < length bins \<and> bins ! index_of v bins = v"
proof -
  assume *: "v \<in> set bins" "is_fin v"
  then have "\<exists>i. find_index (\<lambda>x. js_eq x v) bins = Some i \<and> i < length bins \<and> bins ! i = v"
    by (induction bins) (auto simp: is_fin_conv)
  then show ?thesis by (auto simp: index_of_def)
qed

lemma profile_parts:
  assumes "profile_of m n bars = Some p" "\<forall>b \<in> set bars. finite_bar b \<and> is_fin (volume b)" "0 < n" "bars \<noteq> []"
  shows "fin_bins (vp_bins p) \<and> length (vp_bins p) = n \<and> total (vp_bins p) = sum_list (map bar_volume bars) \<and> 0 < total (vp_bins p) \<and>
    vp_max p = js_max_list (vp_bins p) \<and> vp_poc p = index_of (vp_max p) (vp_bins p) \<and>
    value_area (vp_bins p) (Fin (total (vp_bins p) * 7 / 10)) (vp_poc p) (vp_poc p) (vp_bins p ! vp_poc p) = (vp_vaLow p, vp_vaHigh p, vp_covered p)"
proof -
  define lo hi where "lo = Min (fin_val ` low ` set bars)" and "hi = Max (fin_val ` high ` set bars)"
  have ext: "js_min_list (map low bars) = Fin lo" "js_max_list (map high bars) = Fin hi"
    using js_min_list_fin [of "map low bars"] js_max_list_fin [of "map high bars"] assms(2,4)
    by (auto simp: lo_def hi_def finite_bar_def)
  have inside: "\<forall>b \<in> set bars. finite_bar b \<and> is_fin (volume b) \<and> lo \<le> fin_val (low b) \<and> fin_val (high b) \<le> hi"
    using assms(2) by (simp add: lo_def hi_def)
  define bins where "bins = volume_bins (Fin lo) (Fin hi) (Fin ((hi - lo) / of_nat n)) n bars"
  have lt: "lo < hi" using assms(1) ext by (auto simp: profile_of_def Let_def not_le split: if_split_asm)
  note v = volume_bins_total [OF inside lt assms(3), folded bins_def]
  have sum: "js_sum bins = Fin (total bins)"
  proof -
    have "bins = map Fin (map fin_val bins)" using v by (auto simp: fin_bins_def list_all_iff map_idI)
    then show ?thesis unfolding total_def by (metis js_sum_Fin)
  qed
  obtain a b c where va: "value_area bins (Fin (total bins * 7 / 10)) (index_of (js_max_list bins) bins) (index_of (js_max_list bins) bins)
      (bins ! index_of (js_max_list bins) bins) = (a, b, c)" by (metis prod_cases3)
  have "p = \<lparr>vp_low = Fin lo, vp_step = Fin ((hi - lo) / of_nat n), vp_bins = bins, vp_max = js_max_list bins,
      vp_poc = index_of (js_max_list bins) bins, vp_vaLow = a, vp_vaHigh = b, vp_covered = c\<rparr> \<and> 0 < total bins"
    using assms(1,3) lt by (auto simp: profile_of_def Let_def ext sum va not_le split: if_split_asm simp flip: bins_def)
  then show ?thesis using v va by simp
qed

lemma max_bin: "fin_bins bins \<Longrightarrow> bins \<noteq> [] \<Longrightarrow> js_max_list bins \<in> set bins \<and> is_fin (js_max_list bins) \<and> (\<forall>v \<in> set bins. js_le v (js_max_list bins))"
proof -
  assume *: "fin_bins bins" "bins \<noteq> []"
  then have fin: "\<forall>x \<in> set bins. is_fin x" by (simp add: fin_bins_def list_all_iff)
  have m: "js_max_list bins = Fin (Max (fin_val ` set bins))" by (rule js_max_list_fin [OF *(2) fin])
  have "Max (fin_val ` set bins) \<in> fin_val ` set bins" using *(2) by (intro Max_in) simp_all
  then have "Fin (Max (fin_val ` set bins)) \<in> set bins" using fin by (metis (no_types, lifting) Fin_fin_val imageE)
  moreover have "js_le v (Fin (Max (fin_val ` set bins)))" if "v \<in> set bins" for v
  proof -
    have "v = Fin (fin_val v)" "fin_val v \<le> Max (fin_val ` set bins)" using fin that by simp_all
    then show ?thesis by (metis js_le_Fin)
  qed
  ultimately show ?thesis by (simp add: m)
qed

text \<open>
  The bins of a volume profile hold the whole volume of the bars, whatever the ranges and closes of the bars are: none
  is lost at the edges and none counted twice; the point of control is a fullest bin.
\<close>
theorem profile_conserves_volume:
  assumes "profile_of m n bars = Some p" "\<forall>b \<in> set bars. finite_bar b \<and> is_fin (volume b)" "0 < n" "bars \<noteq> []"
  shows "js_sum (vp_bins p) = Fin (sum_list (map bar_volume bars)) \<and> length (vp_bins p) = n \<and>
    (\<forall>v \<in> set (vp_bins p). js_le (Fin 0) v \<and> js_le v (vp_max p)) \<and> vp_poc p < n \<and> vp_bins p ! vp_poc p = vp_max p"
proof -
  note P = profile_parts [OF assms]
  have ne: "vp_bins p \<noteq> []" using P assms(3) by auto
  have fb: "fin_bins (vp_bins p)" using P by blast
  have "vp_bins p = map Fin (map fin_val (vp_bins p))" using fb by (auto simp: fin_bins_def list_all_iff map_idI)
  then have "js_sum (vp_bins p) = Fin (total (vp_bins p))" unfolding total_def by (metis js_sum_Fin)
  moreover have "js_le (Fin 0) v" if "v \<in> set (vp_bins p)" for v using fb that by (cases v) (auto simp: fin_bins_def list_all_iff)
  moreover note max_bin [OF fb ne]
  ultimately show ?thesis using P index_of_member [of "vp_max p" "vp_bins p"] by auto
qed

text \<open>
  C35. Growing the value area ends with a range of bins around the point of control that holds at least seventy per cent of
  the volume, and it stops there: without one of its ends the range is below that share.
\<close>
theorem value_area_holds_target:
  assumes "profile_of m n bars = Some p" "\<forall>b \<in> set bars. finite_bar b \<and> is_fin (volume b)" "0 < n" "bars \<noteq> []"
  shows "vp_vaLow p \<le> vp_poc p \<and> vp_poc p \<le> vp_vaHigh p \<and> vp_vaHigh p < n \<and>
    vp_covered p = Fin (area_sum (vp_bins p) (vp_vaLow p) (vp_vaHigh p)) \<and>
    sum_list (map bar_volume bars) * 7 / 10 \<le> area_sum (vp_bins p) (vp_vaLow p) (vp_vaHigh p) \<and>
    (vp_vaLow p = vp_vaHigh p \<or> (\<exists>i \<in> {vp_vaLow p, vp_vaHigh p}.
       area_sum (vp_bins p) (vp_vaLow p) (vp_vaHigh p) - fin_val (vp_bins p ! i) < sum_list (map bar_volume bars) * 7 / 10))"
proof -
  note P = profile_parts [OF assms]
  let ?T = "total (vp_bins p) * 7 / 10"
  have ne: "vp_bins p \<noteq> []" using P assms(3) by auto
  have fb: "fin_bins (vp_bins p)" using P by blast
  have poc: "vp_poc p < length (vp_bins p)" using P max_bin [OF fb ne] index_of_member by metis
  have "area_ok (vp_bins p) ?T (vp_poc p) (vp_poc p) (vp_poc p) (vp_bins p ! vp_poc p)"
    using poc fin_bins_nth [OF fb poc] by (auto simp: area_ok_def area_sum_def)
  from value_area_inv [OF this fb] P have A: "area_ok (vp_bins p) ?T (vp_poc p) (vp_vaLow p) (vp_vaHigh p) (vp_covered p)"
    "js_le (Fin ?T) (vp_covered p) \<or> vp_vaLow p = 0 \<and> vp_vaHigh p = length (vp_bins p) - 1" by auto
  have "?T \<le> area_sum (vp_bins p) (vp_vaLow p) (vp_vaHigh p)"
    using A P total_area [OF ne] by (auto simp: area_ok_def)
  then show ?thesis using A P by (auto simp: area_ok_def)
qed

lemma profile_exists:
  assumes "\<forall>b \<in> set bars. finite_bar b \<and> is_fin (volume b)" "m \<le> length bars" "0 < n" "bars \<noteq> []"
    and "Min (fin_val ` low ` set bars) < Max (fin_val ` high ` set bars)" "0 < sum_list (map bar_volume bars)"
  shows "\<exists>p. profile_of m n bars = Some p"
proof -
  define lo hi where "lo = Min (fin_val ` low ` set bars)" and "hi = Max (fin_val ` high ` set bars)"
  have ext: "js_min_list (map low bars) = Fin lo" "js_max_list (map high bars) = Fin hi"
    using js_min_list_fin [of "map low bars"] js_max_list_fin [of "map high bars"] assms(1,4)
    by (auto simp: lo_def hi_def finite_bar_def)
  have inside: "\<forall>b \<in> set bars. finite_bar b \<and> is_fin (volume b) \<and> lo \<le> fin_val (low b) \<and> fin_val (high b) \<le> hi"
    using assms(1) by (simp add: lo_def hi_def)
  have lt: "lo < hi" using assms(5) by (simp add: lo_def hi_def)
  define bins where "bins = volume_bins (Fin lo) (Fin hi) (Fin ((hi - lo) / of_nat n)) n bars"
  note v = volume_bins_total [OF inside lt assms(3), folded bins_def]
  have pos: "0 < total bins" using v assms(6) by simp
  have e: "bins = map Fin (map fin_val bins)" using v by (auto simp: fin_bins_def list_all_iff map_idI)
  then have sum: "js_sum bins = Fin (total bins)" unfolding total_def by (metis js_sum_Fin)
  have ne: "bins \<noteq> []" using v assms(3) by auto
  have "\<exists>x \<in> set bins. 0 < fin_val x"
  proof (rule ccontr)
    assume "\<not> (\<exists>x \<in> set bins. 0 < fin_val x)"
    then have "total bins \<le> 0" unfolding total_def by (intro sum_list_nonpos) auto
    with pos show False by simp
  qed
  then obtain x where x: "x \<in> set bins" "0 < fin_val x" by blast
  have "js_le x (js_max_list bins)" "is_fin (js_max_list bins)" using max_bin [of bins] v ne x(1) by auto
  then have "\<not> js_le (js_max_list bins) (Fin 0)" using x(2) by (cases x; cases "js_max_list bins") auto
  moreover have "0 < (hi - lo) / of_nat n" using lt assms(3) by simp
  ultimately show ?thesis using lt pos assms(2,3)
    by (simp add: profile_of_def Let_def ext sum not_le flip: bins_def split: prod.split)
qed

definition profile_rows :: "bar list" where
  "profile_rows = [\<lparr>timestamp = Fin 0, bopen = Fin 10, high = Fin 12, low = Fin 10, close = Fin 11, volume = Fin 6\<rparr>,
     \<lparr>timestamp = Fin 1, bopen = Fin 11, high = Fin 14, low = Fin 11, close = Fin 13, volume = Fin 4\<rparr>]"

lemma profile_rows_ok: "\<forall>b \<in> set profile_rows. finite_bar b \<and> is_fin (volume b)" "sum_list (map bar_volume profile_rows) = 10"
    "\<exists>p. profile_of 2 28 profile_rows = Some p"
proof -
  show ok: "\<forall>b \<in> set profile_rows. finite_bar b \<and> is_fin (volume b)" by (simp add: profile_rows_def finite_bar_def)
  show s: "sum_list (map bar_volume profile_rows) = 10" by (simp add: profile_rows_def bar_volume_def)
  show "\<exists>p. profile_of 2 28 profile_rows = Some p"
    by (rule profile_exists [OF ok]) (use s in \<open>simp_all add: profile_rows_def\<close>)
qed

theorem profile_conserves_volume_witness: "\<exists>p. profile_of 2 28 profile_rows = Some p \<and> js_sum (vp_bins p) = Fin 10"
proof -
  obtain p where p: "profile_of 2 28 profile_rows = Some p" using profile_rows_ok(3) by blast
  have "profile_rows \<noteq> []" by (simp add: profile_rows_def)
  from profile_conserves_volume [OF p profile_rows_ok(1) _ this] p profile_rows_ok(2) show ?thesis by simp
qed

theorem value_area_holds_target_witness:
  "\<exists>p. profile_of 2 28 profile_rows = Some p \<and> 7 \<le> area_sum (vp_bins p) (vp_vaLow p) (vp_vaHigh p)"
proof -
  obtain p where p: "profile_of 2 28 profile_rows = Some p" using profile_rows_ok(3) by blast
  have "profile_rows \<noteq> []" by (simp add: profile_rows_def)
  from value_area_holds_target [OF p profile_rows_ok(1) _ this] p profile_rows_ok(2) show ?thesis by simp
qed

end
