(* ===== verification/ChartPanels.thy ===== *)
theory ChartPanels
  imports Profile Grouping
begin

text \<open>
  The candle charts of \<open>components/Chart.tsx\<close> and \<open>components/MultiChart.tsx\<close>: the bars of the history and of the live
  feed merged into candles of a timeframe, the forming candle the one-second timer draws, the smoothed bands, the
  reference price of a market, and the drawing commands sent to the chart library, whose exceptions are a parameter.
  The offset of local time from UTC is a parameter.
\<close>

section \<open>Timeframes\<close>

datatype chart_frame = Frame_tick | Frame_min rat

definition TF_OPTIONS :: "(chart_frame \<times> string) list" where
  "TF_OPTIONS = [(Frame_tick, ''Tick''), (Frame_min (1 / 3), ''20s''), (Frame_min 1, ''1m''), (Frame_min 5, ''5m''), (Frame_min 15, ''15m''),
     (Frame_min 60, ''1h''), (Frame_min 240, ''4h''), (Frame_min 480, ''8h''), (Frame_min 1440, ''D'')]"

definition VP_BIN_OPTIONS :: "nat list" where
  "VP_BIN_OPTIONS = [24, 32, 48, 64, 80, 96, 128]"

definition TF_INTERVALS :: "rat list" where
  "TF_INTERVALS = [1 / 3, 1, 5, 15, 60]"

text \<open>\<open>key.split('_').pop()\<close>\<close>

definition last_part :: "string \<Rightarrow> string" where
  "last_part key = rev (takeWhile (\<lambda>c. c \<noteq> CHR ''_'') (rev key))"

definition market_frame :: "string \<Rightarrow> chart_frame \<Rightarrow> chart_frame" where
  "market_frame key current =
     (if key = '''' then current
      else case dict_get [(''5min'', Frame_min 5), (''15min'', Frame_min 15), (''1h'', Frame_min 60), (''4h'', Frame_min 240)] (last_part key) of
        None \<Rightarrow> current | Some f \<Rightarrow> f)"

definition panel_intervals :: "nat \<Rightarrow> rat list" where
  "panel_intervals panels = take panels TF_INTERVALS"

section \<open>Statistics and bands\<close>

definition calcZScore :: "nat \<Rightarrow> bar list \<Rightarrow> jsnum option" where
  "calcZScore period bars =
     (if length bars < period then None
      else let closes = map close (slice_last period bars); n = Fin (of_nat period); mean = js_div (js_sum closes) n;
               variance = js_div (js_sum (map (\<lambda>c. js_mul (js_sub c mean) (js_sub c mean)) closes)) n; stddev = js_sqrt variance
           in Some (if stddev = Fin 0 then Fin 0 else js_div (js_sub (last closes) mean) stddev))"

fun ema_from :: "rat \<Rightarrow> jsnum \<Rightarrow> jsnum list \<Rightarrow> jsnum list" where
  "ema_from k prev [] = []"
| "ema_from k prev (x # xs) = (let e = js_add (js_mul x (Fin k)) (js_mul prev (Fin (1 - k))) in e # ema_from k e xs)"

fun emaArr :: "jsnum list \<Rightarrow> nat \<Rightarrow> jsnum list" where
  "emaArr [] period = []"
| "emaArr (x # xs) period = x # ema_from (2 / (of_nat period + 1)) x xs"

definition bar_ranges :: "bar list \<Rightarrow> jsnum list" where
  "bar_ranges bars = (case bars of [] \<Rightarrow> [] | b # _ \<Rightarrow> js_sub (high b) (low b) # true_ranges bars)"

record chart_band =
  cb_time :: jsnum
  cb_upper :: jsnum
  cb_mid :: jsnum
  cb_lower :: jsnum

definition bands_around :: "jsnum \<Rightarrow> bar list \<Rightarrow> jsnum list \<Rightarrow> jsnum list \<Rightarrow> chart_band list" where
  "bands_around width bars mids atr =
     map (\<lambda>(b, m, a). \<lparr>cb_time = js_floor (js_div (timestamp b) (Fin 1000)), cb_upper = js_add m (js_mul width a), cb_mid = m,
       cb_lower = js_sub m (js_mul width a)\<rparr>) (zip bars (zip mids atr))"

definition calcAPZ :: "nat \<Rightarrow> jsnum \<Rightarrow> bar list \<Rightarrow> chart_band list option" where
  "calcAPZ period width bars =
     (if length bars < period * 2 then None
      else let ema1 = emaArr (map close bars) period; ema2 = emaArr ema1 period;
               dema = map (\<lambda>(e1, e2). js_sub (js_mul (Fin 2) e1) e2) (zip ema1 ema2)
           in Some (bands_around width bars dema (emaArr (bar_ranges bars) period)))"

definition ema :: "jsnum list \<Rightarrow> nat \<Rightarrow> jsnum list" where
  "ema = emaArr"

definition calcKC :: "nat \<Rightarrow> jsnum \<Rightarrow> bar list \<Rightarrow> chart_band list option" where
  "calcKC period width bars =
     (if length bars < 2 then None else Some (bands_around width bars (ema (map close bars) period) (ema (bar_ranges bars) period)))"

section \<open>Candles\<close>

definition bucket_floor :: "jsnum \<Rightarrow> rat \<Rightarrow> jsnum" where
  "bucket_floor t ms = js_mul (js_floor (js_div t (Fin ms))) (Fin ms)"

text \<open>The start of the calendar bucket; local time is UTC plus \<open>offset\<close> milliseconds.\<close>

definition getBarStart :: "rat \<Rightarrow> jsnum \<Rightarrow> rat \<Rightarrow> jsnum" where
  "getBarStart offset t intervalMinutes =
     (if intervalMinutes \<in> {5, 15, 60} then
        js_sub (bucket_floor (js_add (js_trunc t) (Fin offset)) (intervalMinutes * 60000)) (Fin offset)
      else bucket_floor t (intervalMinutes * 60000))"

definition fold_bar :: "bar \<Rightarrow> bar \<Rightarrow> bar" where
  "fold_bar b ex = ex\<lparr>high := js_max (high ex) (high b), low := js_min (low ex) (low b), close := close b,
     volume := js_add (volume ex) (volume b)\<rparr>"

definition candles_by :: "(bar \<Rightarrow> jsnum) \<Rightarrow> bar list \<Rightarrow> bar list" where
  "candles_by start bars = js_sort by_bar_time (map snd (grouped start (\<lambda>b. b\<lparr>timestamp := start b\<rparr>) fold_bar bars))"

definition prepBars :: "rat \<Rightarrow> bar list \<Rightarrow> rat \<Rightarrow> bar list" where
  "prepBars offset bars intervalMinutes =
     candles_by (\<lambda>b. js_floor (js_div (getBarStart offset (timestamp b) intervalMinutes) (Fin 1000))) bars"

definition mergeAndAggregate :: "bar list \<Rightarrow> bar list \<Rightarrow> rat \<Rightarrow> bar list" where
  "mergeAndAggregate histBars liveBars intervalMinutes =
     candles_by (\<lambda>b. bucket_floor (timestamp b) (intervalMinutes * 60 * 1000)) (histBars @ liveBars)"

text \<open>The panels keep the timestamp of the earliest bar of a candle beside it, and take the open from that bar.\<close>

definition panel_add :: "bar \<Rightarrow> bar \<times> jsnum \<Rightarrow> bar \<times> jsnum" where
  "panel_add b = (\<lambda>(ex, ts).
     let (ex', ts') = (if js_lt (timestamp b) ts then (ex\<lparr>bopen := bopen b\<rparr>, timestamp b) else (ex, ts)) in (fold_bar b ex', ts'))"

definition prepBars_panel :: "bar list \<Rightarrow> rat \<Rightarrow> bar list" where
  "prepBars_panel bars intervalMinutes =
     (let bktMs = intervalMinutes * 60 * 1000;
          start = (\<lambda>b. js_mul (js_floor (js_div (timestamp b) (Fin bktMs))) (Fin (bktMs / 1000)))
      in js_sort by_bar_time (map (fst \<circ> snd) (grouped start (\<lambda>b. (b\<lparr>timestamp := start b\<rparr>, timestamp b)) panel_add bars)))"

definition tick_bar :: "trade_tick \<Rightarrow> bar" where
  "tick_bar t = \<lparr>timestamp = tt_timestamp t, bopen = tt_price t, high = tt_price t, low = tt_price t, close = tt_price t, volume = tt_size t\<rparr>"

definition displayBars :: "chart_frame \<Rightarrow> bar list \<Rightarrow> bar list \<Rightarrow> bar list \<Rightarrow> trade_tick list \<Rightarrow> bar list" where
  "displayBars tf liveBars histBars bars60m liveTicks =
     (case tf of
        Frame_tick \<Rightarrow> []
      | Frame_min m \<Rightarrow>
          if m = 1 / 3 then candles_by (\<lambda>b. bucket_floor (timestamp b) 20000) (histBars @ map tick_bar liveTicks)
          else if m = 480 then mergeAndAggregate bars60m liveBars 480
          else if histBars = [] then [] else mergeAndAggregate histBars liveBars m)"

definition tick_series :: "trade_tick list \<Rightarrow> (jsnum \<times> jsnum) list" where
  "tick_series liveTicks =
     js_sort (\<lambda>a b. js_sub (fst a) (fst b))
       (foldl (\<lambda>d t. AList.update (js_floor (js_div (tt_timestamp t) (Fin 1000))) (tt_price t) d) [] liveTicks)"

text \<open>The candle that the timer draws every second, and its bucket.\<close>

record live_candle =
  lv_time :: jsnum
  lv_open :: jsnum
  lv_high :: jsnum
  lv_low :: jsnum
  lv_close :: jsnum

definition heartbeat_candle :: "rat \<Rightarrow> rat \<Rightarrow> bar list \<Rightarrow> trade_tick list \<Rightarrow> live_candle option" where
  "heartbeat_candle now tfMinutes aggBars ticks =
     (if aggBars = [] then None
      else let tfSec = tfMinutes * 60; lastAgg = last aggBars;
               latestPrice = (if ticks = [] then close lastAgg else tt_price (last ticks));
               bucketSec = bucket_floor (js_floor (Fin (now / 1000))) tfSec; bucketMs = js_mul bucketSec (Fin 1000);
               isCurrentBucket = js_le bucketMs (timestamp lastAgg);
               openPrice = (if isCurrentBucket then bopen lastAgg else latestPrice);
               baseHigh = (if isCurrentBucket then high lastAgg else latestPrice);
               baseLow = (if isCurrentBucket then low lastAgg else latestPrice);
               bucketTicks = map tt_price (filter (\<lambda>t. js_le bucketMs (tt_timestamp t)) ticks)
           in Some \<lparr>lv_time = bucketSec, lv_open = openPrice,
                lv_high = (if bucketTicks = [] then js_max baseHigh latestPrice else js_max_list (baseHigh # bucketTicks)),
                lv_low = (if bucketTicks = [] then js_min baseLow latestPrice else js_min_list (baseLow # bucketTicks)),
                lv_close = latestPrice\<rparr>)"

definition chart_live :: "rat \<Rightarrow> bool \<Rightarrow> bar list \<Rightarrow> trade_tick list \<Rightarrow> bool" where
  "chart_live now online liveBars liveTicks =
     (let lastTs = js_max (if liveBars = [] then Fin 0 else timestamp (last liveBars)) (if liveTicks = [] then Fin 0 else tt_timestamp (last liveTicks))
      in online \<and> (lastTs = Fin 0 \<or> js_lt (js_sub (Fin now) lastTs) (Fin 300000)))"

definition deadzone :: "rat \<Rightarrow> rat \<Rightarrow> (rat \<times> rat) option" where
  "deadzone now interval =
     (if interval \<noteq> 5 \<and> interval \<noteq> 15 then None
      else let tfSec = interval * 60; periodStart = of_int \<lfloor>now / 1000 / tfSec\<rfloor> * tfSec
           in Some (periodStart, periodStart + (if interval = 5 then 60 else 180)))"

definition percent_change :: "bar list \<Rightarrow> jsnum option" where
  "percent_change bars =
     (if length bars \<le> 1 then None
      else let prev = close (bars ! (length bars - 2)) in Some (js_mul (js_div (js_sub (close (last bars)) prev) prev) (Fin 100)))"

text \<open>The panels hold copies of four of these functions.\<close>

definition panel_zscore :: "nat \<Rightarrow> bar list \<Rightarrow> jsnum option" where
  "panel_zscore = calcZScore"

definition panel_merge :: "bar list \<Rightarrow> bar list \<Rightarrow> rat \<Rightarrow> bar list" where
  "panel_merge = mergeAndAggregate"

definition panel_heartbeat :: "rat \<Rightarrow> rat \<Rightarrow> bar list \<Rightarrow> trade_tick list \<Rightarrow> live_candle option" where
  "panel_heartbeat = heartbeat_candle"

definition panel_deadzone :: "rat \<Rightarrow> rat \<Rightarrow> (rat \<times> rat) option" where
  "panel_deadzone = deadzone"

section \<open>The reference price of a market\<close>

definition period_ms :: "timeframe \<Rightarrow> rat option" where
  "period_ms tf = (case tf of TF_5min \<Rightarrow> Some 300000 | TF_15min \<Rightarrow> Some 900000 | TF_1h \<Rightarrow> Some 3600000 | TF_4h \<Rightarrow> Some 14400000 | _ \<Rightarrow> None)"

definition positive_num :: "jsnum option \<Rightarrow> jsnum option" where
  "positive_num v = (case v of Some x \<Rightarrow> if js_lt (Fin 0) x then Some x else None | None \<Rightarrow> None)"

definition nonzero :: "jsnum option \<Rightarrow> jsnum option" where
  "nonzero v = (case v of Some x \<Rightarrow> if truthy (JNum x) then Some x else None | None \<Rightarrow> None)"

fun first_some :: "'a option list \<Rightarrow> 'a option" where
  "first_some [] = None"
| "first_some (x # xs) = (case x of None \<Rightarrow> first_some xs | Some v \<Rightarrow> Some v)"

definition earliest_open :: "bar list \<Rightarrow> jsnum option" where
  "earliest_open bars = (case js_sort by_bar_time bars of [] \<Rightarrow> None | b # _ \<Rightarrow> nonzero (Some (bopen b)))"

definition period_open :: "market_info \<Rightarrow> bar list \<Rightarrow> bar list \<Rightarrow> jsnum option" where
  "period_open m liveBars shownBars =
     (case period_ms (mk_timeframe m) of
        None \<Rightarrow> None
      | Some ms \<Rightarrow> if \<not> truthy (JNum (mk_expiry_ts m)) then None
          else let start = js_sub (mk_expiry_ts m) (Fin ms) in
            first_some [earliest_open (filter (\<lambda>b. js_le start (timestamp b) \<and> js_lt (timestamp b) (mk_expiry_ts m)) liveBars),
              earliest_open (filter (\<lambda>b. js_eq (bucket_floor (timestamp b) ms) start) shownBars)])"

definition reference_price :: "market_info option \<Rightarrow> bar list \<Rightarrow> bar list \<Rightarrow> jsnum option" where
  "reference_price m liveBars shownBars =
     (case m of None \<Rightarrow> None
      | Some mk \<Rightarrow> nonzero (first_some [positive_num (mk_price_to_beat mk), period_open mk liveBars shownBars, mk_start_price mk]))"

definition settled_price :: "market_info option \<Rightarrow> jsnum option" where
  "settled_price m = (case m of None \<Rightarrow> None | Some mk \<Rightarrow> nonzero (mk_resolution_price mk))"

definition strikePrice :: "market_info option \<Rightarrow> bar list \<Rightarrow> jsnum option" where
  "strikePrice m liveBars =
     (case m of None \<Rightarrow> None
      | Some mk \<Rightarrow>
          if liveBars = [] then mk_start_price mk
          else case period_ms (mk_timeframe mk) of
            None \<Rightarrow> mk_start_price mk
          | Some ms \<Rightarrow>
              (let start = js_sub (mk_expiry_ts mk) (Fin ms);
                   bucketTs = js_mul (bucket_floor (js_floor (js_div start (Fin 1000))) (ms / 1000)) (Fin 1000);
                   open_of = (\<lambda>b. nonzero (map_option bopen b))
               in first_some [open_of (List.find (\<lambda>b. js_eq (bucket_floor (timestamp b) ms) bucketTs) liveBars),
                    open_of (List.find (\<lambda>b. js_le start (timestamp b)) liveBars), mk_start_price mk]))"

section \<open>Drawing\<close>

text \<open>
  A series is drawn anew or its last row is updated; \<open>refused\<close> tells on which commands the library throws.  The key of
  the data and the time of the last band drawn are kept between paints.
\<close>

datatype 'r draw = Set_data "'r list" | Update_row 'r

record paint_state =
  pn_dataKey :: string
  pn_lastBand :: jsnum

definition data_key :: "string \<Rightarrow> bar list \<Rightarrow> string" where
  "data_key before prepared = join_with ''-'' [before, jsnum_string (Fin (of_nat (length prepared))), jsnum_string (timestamp (hd prepared))]"

definition draw_rows :: "('r draw \<Rightarrow> bool) \<Rightarrow> bool \<Rightarrow> 'r list \<Rightarrow> 'r draw list" where
  "draw_rows refused isNew rows =
     (if isNew then [Set_data rows]
      else Update_row (last rows) # (if refused (Update_row (last rows)) then [Set_data rows] else []))"

definition volume_row :: "bar \<Rightarrow> jsnum \<times> jsnum \<times> bool" where
  "volume_row b = (timestamp b, volume b, js_le (bopen b) (close b))"

definition finite_band :: "chart_band \<Rightarrow> bool" where
  "finite_band d = list_all is_fin [cb_time d, cb_upper d, cb_mid d, cb_lower d]"

definition dedup_bands :: "chart_band list \<Rightarrow> chart_band list" where
  "dedup_bands ds = map snd (foldl (\<lambda>d b. AList.update (cb_time b) b d) [] ds)"

definition by_band_time :: "chart_band \<Rightarrow> chart_band \<Rightarrow> jsnum" where
  "by_band_time a b = js_sub (cb_time a) (cb_time b)"

definition draw_bands :: "(chart_band draw \<Rightarrow> bool) \<Rightarrow> bool \<Rightarrow> chart_band list \<Rightarrow> jsnum \<Rightarrow> jsnum \<times> chart_band draw list" where
  "draw_bands refused isNew rows lastTime =
     (if rows = [] then (lastTime, [])
      else let l = last rows in
        if isNew then (cb_time l, [Set_data rows])
        else if js_eq (cb_time l) lastTime then (lastTime, [])
        else (if refused (Update_row l) then lastTime else cb_time l, [Update_row l]))"

record drawing =
  dw_candles :: "bar draw list"
  dw_volume :: "(jsnum \<times> jsnum \<times> bool) draw list"
  dw_bands :: "chart_band draw list"
  dw_scroll :: bool

definition no_drawing :: drawing where
  "no_drawing = \<lparr>dw_candles = [], dw_volume = [], dw_bands = [], dw_scroll = False\<rparr>"

definition chart_paint ::
  "(bar draw \<Rightarrow> bool) \<Rightarrow> ((jsnum \<times> jsnum \<times> bool) draw \<Rightarrow> bool) \<Rightarrow> (chart_band draw \<Rightarrow> bool) \<Rightarrow> rat \<Rightarrow> string \<Rightarrow> rat \<Rightarrow> bar list \<Rightarrow> paint_state \<Rightarrow>
    paint_state \<times> drawing" where
  "chart_paint refusedC refusedV refusedB offset asset tf shownBars s =
     (let prepared = prepBars offset shownBars tf in
      if shownBars = [] \<or> prepared = [] then (s, no_drawing)
      else let key = data_key (asset @ ''-'' @ jsnum_string (Fin tf)) prepared; isNew = (pn_dataKey s \<noteq> key);
               bands = (case calcAPZ 5 (Fin 2) shownBars of None \<Rightarrow> [] | Some ds \<Rightarrow> js_sort by_band_time (filter finite_band (dedup_bands ds)));
               (lastBand, bandDraws) = draw_bands refusedB isNew bands (pn_lastBand s)
           in (\<lparr>pn_dataKey = key, pn_lastBand = lastBand\<rparr>,
               \<lparr>dw_candles = draw_rows refusedC isNew prepared, dw_volume = draw_rows refusedV isNew (map volume_row prepared),
                dw_bands = bandDraws, dw_scroll = isNew\<rparr>))"

text \<open>The panels draw the bands from the unsorted last one, and never redraw on a refused update.\<close>

definition panel_paint ::
  "(chart_band draw \<Rightarrow> bool) \<Rightarrow> rat \<Rightarrow> bar list \<Rightarrow> bool \<Rightarrow> paint_state \<Rightarrow> paint_state \<times> drawing" where
  "panel_paint refusedB intervalMinutes bars scrollToLatest s =
     (let prepared = prepBars_panel bars intervalMinutes in
      if bars = [] \<or> prepared = [] then (s, no_drawing)
      else let key = data_key (jsnum_string (Fin intervalMinutes)) prepared; isNew = (pn_dataKey s \<noteq> key);
               kc = (case calcKC 20 (Fin (5 / 2)) bars of None \<Rightarrow> [] | Some ds \<Rightarrow> ds);
               (lastBand, bandDraws) = draw_bands refusedB isNew (if isNew then js_sort by_band_time (dedup_bands kc) else kc) (pn_lastBand s)
           in (\<lparr>pn_dataKey = key, pn_lastBand = lastBand\<rparr>,
               \<lparr>dw_candles = draw_rows (\<lambda>_. False) isNew prepared, dw_volume = draw_rows (\<lambda>_. False) isNew (map volume_row prepared),
                dw_bands = bandDraws, dw_scroll = isNew \<and> scrollToLatest\<rparr>))"

section \<open>A panel\<close>

record panel_state =
  pl_bars :: "bar list"
  pl_agg :: "bar list"
  pl_loaded :: bool
  pl_asset :: string

datatype panel_event = Panel_loaded "bar list" | Panel_live "bar list" | Panel_asset string

text \<open>What a panel paints, and whether it scrolls.\<close>

definition panel_step :: "rat \<Rightarrow> panel_event \<Rightarrow> panel_state \<Rightarrow> panel_state \<times> (bar list \<times> bool) option" where
  "panel_step interval e s =
     (case e of
        Panel_loaded bars \<Rightarrow> if bars = [] then (s, None)
          else (s\<lparr>pl_bars := bars, pl_agg := (if pl_agg s = [] then panel_merge bars [] interval else pl_agg s), pl_loaded := True\<rparr>,
                Some (bars, \<not> pl_loaded s))
      | Panel_live liveBars \<Rightarrow>
          (let combined = panel_merge (pl_bars s) liveBars interval
           in if combined = [] then (s, None) else (s\<lparr>pl_agg := combined\<rparr>, Some (combined, False)))
      | Panel_asset asset \<Rightarrow> if pl_asset s = asset then (s, None) else (s\<lparr>pl_bars := [], pl_agg := [], pl_loaded := False, pl_asset := asset\<rparr>, None))"

section \<open>Lemmas: candles\<close>

definition merged :: "jsnum \<Rightarrow> bar list \<Rightarrow> bar" where
  "merged t rs = foldl (\<lambda>c b. fold_bar b c) ((hd rs)\<lparr>timestamp := t\<rparr>) (tl rs)"

definition whole_bar :: "bar \<Rightarrow> bool" where
  "whole_bar b = (finite_bar b \<and> is_fin (volume b))"

lemma fold_bar_simps [simp]: "timestamp (fold_bar b c) = timestamp c" "bopen (fold_bar b c) = bopen c" "close (fold_bar b c) = close b"
  "volume (fold_bar b c) = js_add (volume c) (volume b)" "high (fold_bar b c) = js_max (high c) (high b)" "low (fold_bar b c) = js_min (low c) (low b)"
  by (simp_all add: fold_bar_def)

lemma merged_snoc: "rs \<noteq> [] \<Longrightarrow> merged t (rs @ [r]) = fold_bar r (merged t rs)"
  by (simp add: merged_def)

lemma merged_single: "merged t [r] = r\<lparr>timestamp := t\<rparr>"
  by (simp add: merged_def)

lemma merged_time [simp]: "rs \<noteq> [] \<Longrightarrow> timestamp (merged t rs) = t"
  by (induction rs rule: rev_nonempty_induct) (simp_all add: merged_snoc merged_single)

lemma merged_prices:
  assumes "rs \<noteq> []" "\<forall>r \<in> set rs. whole_bar r"
  shows "bopen (merged t rs) = bopen (hd rs) \<and> close (merged t rs) = close (last rs) \<and>
    high (merged t rs) = Fin (Max ((fin_val \<circ> high) ` set rs)) \<and> low (merged t rs) = Fin (Min ((fin_val \<circ> low) ` set rs)) \<and>
    volume (merged t rs) = Fin (sum_list (map (fin_val \<circ> volume) rs))"
  using assms
proof (induction rs rule: rev_nonempty_induct)
  case (snoc r rs)
  then show ?case
    by (auto simp: merged_snoc whole_bar_def finite_bar_def is_fin_conv Max_insert2 max.commute min.commute)
qed (auto simp: merged_single whole_bar_def finite_bar_def is_fin_conv)

lemma grouped_candle:
  "map_of (grouped start (\<lambda>b. b\<lparr>timestamp := start b\<rparr>) fold_bar bars) t =
    (case filter (\<lambda>b. start b = t) bars of [] \<Rightarrow> None | r # rs \<Rightarrow> Some (merged t (r # rs)))"
proof (cases "filter (\<lambda>b. start b = t) bars")
  case (Cons r rs)
  then have "start r = t" by (auto simp: filter_eq_Cons_iff)
  then show ?thesis by (simp add: grouped_get Cons merged_def)
qed (simp add: grouped_get)

lemma grouped_time: "e \<in> set (grouped start (\<lambda>b. b\<lparr>timestamp := start b\<rparr>) fold_bar bars) \<Longrightarrow>
    filter (\<lambda>b. start b = fst e) bars \<noteq> [] \<and> snd e = merged (fst e) (filter (\<lambda>b. start b = fst e) bars)"
  using grouped_entry [of "fst e" "snd e" start "\<lambda>b. b\<lparr>timestamp := start b\<rparr>" fold_bar bars] unfolding grouped_candle
  by (auto split: list.splits)

lemma candles_times: "mset (map timestamp (candles_by start bars)) = mset (map fst (grouped start (\<lambda>b. b\<lparr>timestamp := start b\<rparr>) fold_bar bars))"
proof -
  let ?g = "grouped start (\<lambda>b. b\<lparr>timestamp := start b\<rparr>) fold_bar bars"
  have m: "map (timestamp \<circ> snd) ?g = map fst ?g"
  proof (rule map_cong [OF refl])
    fix e
    assume "e \<in> set ?g"
    from grouped_time [OF this] show "(timestamp \<circ> snd) e = fst e" by simp
  qed
  have "mset (map timestamp (candles_by start bars)) = mset (map (timestamp \<circ> snd) ?g)"
    by (simp add: candles_by_def multiset.map_comp)
  then show ?thesis unfolding m .
qed

lemma candle_of:
  assumes "c \<in> set (candles_by start bars)"
  shows "filter (\<lambda>b. start b = timestamp c) bars \<noteq> [] \<and> c = merged (timestamp c) (filter (\<lambda>b. start b = timestamp c) bars)"
proof -
  obtain e where e: "e \<in> set (grouped start (\<lambda>b. b\<lparr>timestamp := start b\<rparr>) fold_bar bars)" "c = snd e"
    using assms by (auto simp: candles_by_def)
  from grouped_time [OF e(1)] have t: "timestamp c = fst e" using e(2) by simp
  from grouped_time [OF e(1)] show ?thesis unfolding t unfolding e(2) .
qed

lemma candles_sorted:
  assumes "\<forall>b \<in> set bars. is_fin (start b)"
  shows "sorted_wrt (<) (map (fin_val \<circ> timestamp) (candles_by start bars)) \<and> timestamp ` set (candles_by start bars) = start ` set bars"
proof -
  let ?g = "grouped start (\<lambda>b. b\<lparr>timestamp := start b\<rparr>) fold_bar bars" and ?C = "candles_by start bars"
  note m = candles_times [of start bars]
  have set: "timestamp ` set ?C = start ` set bars"
    using arg_cong [OF m, of set_mset] grouped_keys [of start "\<lambda>b. b\<lparr>timestamp := start b\<rparr>" fold_bar bars] by simp
  have d: "distinct (map timestamp ?C)"
    using mset_eq_imp_distinct_iff [OF m] grouped_keys [of start "\<lambda>b. b\<lparr>timestamp := start b\<rparr>" fold_bar bars] by simp
  have fin: "is_fin (timestamp c)" if "c \<in> set ?C" for c using set that assms by (metis imageE imageI)
  have "inj_on fin_val (timestamp ` set ?C)" using fin by (intro inj_onI) (auto dest: fin_val_inj)
  then have "distinct (map (fin_val \<circ> timestamp) ?C)" using d by (simp add: distinct_map comp_inj_on flip: map_map)
  moreover have "sorted (map (fin_val \<circ> timestamp) ?C)"
    unfolding candles_by_def by (rule by_start.sort_sorted_key) (use fin in \<open>auto simp: candles_by_def\<close>)
  ultimately show ?thesis using set by (simp add: strict_sorted_iff)
qed

interpretation candle_volume: grouping start "\<lambda>b. b\<lparr>timestamp := start b\<rparr>" fold_bar "\<lambda>c. fin_val (volume c)" "\<lambda>b. fin_val (volume b)"
    "\<lambda>b. is_fin (volume b)" "\<lambda>c. is_fin (volume c)" for start :: "bar \<Rightarrow> jsnum"
  by unfold_locales (auto simp: is_fin_conv)

lemma candles_volume:
  assumes "\<forall>b \<in> set bars. is_fin (volume b)"
  shows "js_sum (map volume (candles_by start bars)) = Fin (sum_list (map (\<lambda>b. fin_val (volume b)) bars))"
proof -
  let ?g = "grouped start (\<lambda>b. b\<lparr>timestamp := start b\<rparr>) fold_bar bars"
  have ok: "list_all (\<lambda>b. is_fin (volume b)) bars" using assms by (simp add: list_all_iff)
  have fin: "is_fin (volume c)" if c: "c \<in> set (candles_by start bars)" for c
    using c candle_volume.groups_good [OF ok] by (auto simp: candles_by_def)
  then have "map volume (candles_by start bars) = map Fin (map (\<lambda>c. fin_val (volume c)) (candles_by start bars))" by simp
  then have "js_sum (map volume (candles_by start bars)) = Fin (sum_list (map (\<lambda>c. fin_val (volume c)) (candles_by start bars)))"
    by (metis js_sum_Fin)
  also have "sum_list (map (\<lambda>c. fin_val (volume c)) (candles_by start bars)) = sum_list (map (\<lambda>e. fin_val (volume (snd e))) ?g)"
    unfolding candles_by_def by (simp add: multiset.map_comp comp_def flip: sum_mset_sum_list)
  finally show ?thesis by (simp add: candle_volume.group_total [OF ok])
qed

lemma bucket_floor_fin: "is_fin t \<Longrightarrow> ms \<noteq> 0 \<Longrightarrow> is_fin (bucket_floor t ms)"
  by (auto simp: bucket_floor_def is_fin_conv)

text \<open>
  The merged candles are in strict time order, one per bucket, each with the open of its first bar, the close of its last
  one, the highest high and the lowest low.  The volume of the history and of the live feed is added up, so a bar that
  both hold counts twice: the live bar does not replace the one of the history.
\<close>
theorem merged_candles:
  assumes "\<forall>b \<in> set (hist @ live). whole_bar b" "0 < interval"
  shows "sorted_wrt (<) (map (fin_val \<circ> timestamp) (mergeAndAggregate hist live interval)) \<and>
    (\<forall>c \<in> set (mergeAndAggregate hist live interval).
       let rs = filter (\<lambda>b. bucket_floor (timestamp b) (interval * 60 * 1000) = timestamp c) (hist @ live)
       in rs \<noteq> [] \<and> bopen c = bopen (hd rs) \<and> close c = close (last rs) \<and>
          high c = Fin (Max ((fin_val \<circ> high) ` set rs)) \<and> low c = Fin (Min ((fin_val \<circ> low) ` set rs))) \<and>
    js_sum (map volume (mergeAndAggregate hist live interval)) =
      Fin (sum_list (map (\<lambda>b. fin_val (volume b)) hist) + sum_list (map (\<lambda>b. fin_val (volume b)) live))"
proof -
  let ?start = "\<lambda>b. bucket_floor (timestamp b) (interval * 60 * 1000)"
  have fin: "\<forall>b \<in> set (hist @ live). is_fin (?start b)"
    using assms by (auto simp: whole_bar_def finite_bar_def intro!: bucket_floor_fin)
  have vol: "\<forall>b \<in> set (hist @ live). is_fin (volume b)" using assms by (auto simp: whole_bar_def)
  have candle: "let rs = filter (\<lambda>b. ?start b = timestamp c) (hist @ live)
       in rs \<noteq> [] \<and> bopen c = bopen (hd rs) \<and> close c = close (last rs) \<and>
          high c = Fin (Max ((fin_val \<circ> high) ` set rs)) \<and> low c = Fin (Min ((fin_val \<circ> low) ` set rs))"
    if c: "c \<in> set (mergeAndAggregate hist live interval)" for c
  proof -
    let ?rs = "filter (\<lambda>b. ?start b = timestamp c) (hist @ live)"
    have rs: "?rs \<noteq> []" "c = merged (timestamp c) ?rs" using candle_of [OF c [unfolded mergeAndAggregate_def]] by blast+
    have "\<forall>r \<in> set ?rs. whole_bar r" using assms(1) by auto
    from merged_prices [OF rs(1) this, of "timestamp c", folded rs(2)] rs(1) show ?thesis by (simp add: Let_def)
  qed
  show ?thesis
    using candles_sorted [OF fin] candle candles_volume [OF vol, of ?start] unfolding mergeAndAggregate_def by simp
qed

definition shared_bar :: bar where
  "shared_bar = \<lparr>timestamp = Fin 60000, bopen = Fin 10, high = Fin 12, low = Fin 9, close = Fin 11, volume = Fin 5\<rparr>"

theorem merged_candles_witness: "js_sum (map volume (mergeAndAggregate [shared_bar] [shared_bar] 1)) = Fin 10"
  using merged_candles [of "[shared_bar]" "[shared_bar]" 1] by (simp add: whole_bar_def finite_bar_def shared_bar_def)

section \<open>Lemmas: smoothed bands\<close>

lemma convex_bounds:
  fixes k a b lo hi :: rat
  assumes "0 \<le> k" "k \<le> 1" "lo \<le> a" "a \<le> hi" "lo \<le> b" "b \<le> hi"
  shows "lo \<le> a * k + b * (1 - k) \<and> a * k + b * (1 - k) \<le> hi"
proof -
  have "lo * k \<le> a * k" "a * k \<le> hi * k" "lo * (1 - k) \<le> b * (1 - k)" "b * (1 - k) \<le> hi * (1 - k)"
    using assms by (simp_all add: mult_right_mono)
  then show ?thesis by (simp add: algebra_simps)
qed

definition within_range :: "rat \<Rightarrow> rat \<Rightarrow> jsnum \<Rightarrow> bool" where
  "within_range lo hi x = (is_fin x \<and> lo \<le> fin_val x \<and> fin_val x \<le> hi)"

lemma ema_from_range:
  assumes "0 \<le> k" "k \<le> 1" "within_range lo hi prev" "list_all (within_range lo hi) xs"
  shows "list_all (within_range lo hi) (ema_from k prev xs) \<and> length (ema_from k prev xs) = length xs"
  using assms(3,4)
proof (induction xs arbitrary: prev)
  case (Cons x xs)
  have "within_range lo hi (js_add (js_mul x (Fin k)) (js_mul prev (Fin (1 - k))))"
    using Cons.prems convex_bounds [OF assms(1,2), of lo "fin_val x" hi "fin_val prev"]
    by (auto simp: within_range_def is_fin_conv)
  then show ?case using Cons by (simp add: Let_def)
qed simp

lemma emaArr_range:
  assumes "list_all (within_range lo hi) xs" "0 < period"
  shows "list_all (within_range lo hi) (emaArr xs period) \<and> length (emaArr xs period) = length xs"
proof (cases xs)
  case (Cons x ys)
  have "0 \<le> 2 / (rat_of_nat period + 1)" "2 / (rat_of_nat period + 1) \<le> 1" using assms(2) by simp_all
  from ema_from_range [OF this, of lo hi x ys] assms(1) show ?thesis by (simp add: Cons)
qed simp

lemma true_ranges_nonneg: "list_all whole_bar bars \<Longrightarrow>
    list_all (\<lambda>x. is_fin x \<and> 0 \<le> fin_val x) (true_ranges bars) \<and> length (true_ranges bars) = length bars - 1"
proof (induction bars rule: true_ranges.induct)
  case (1 a b bars)
  have "is_fin (js_max_list [js_sub (high b) (low b), js_abs (js_sub (high b) (close a)), js_abs (js_sub (low b) (close a))]) \<and>
      0 \<le> fin_val (js_max_list [js_sub (high b) (low b), js_abs (js_sub (high b) (close a)), js_abs (js_sub (low b) (close a))])"
    using 1(2) by (auto simp: whole_bar_def finite_bar_def is_fin_conv js_max_list_fin le_max_iff_disj)
  then show ?case using 1 by simp
qed simp_all

lemma nonneg_range: "list_all (\<lambda>x. is_fin x \<and> 0 \<le> fin_val x) xs \<Longrightarrow> list_all (within_range 0 (sum_list (map fin_val xs))) xs"
  by (auto simp: list_all_iff within_range_def intro!: member_le_sum_list)

lemma bar_ranges_nonneg:
  assumes "list_all whole_bar bars" "\<forall>b \<in> set bars. fin_val (low b) \<le> fin_val (high b)"
  shows "list_all (\<lambda>x. is_fin x \<and> 0 \<le> fin_val x) (bar_ranges bars) \<and> length (bar_ranges bars) = length bars"
proof (cases bars)
  case (Cons b bs)
  have "is_fin (js_sub (high b) (low b)) \<and> 0 \<le> fin_val (js_sub (high b) (low b))"
    using assms by (auto simp: Cons whole_bar_def finite_bar_def is_fin_conv)
  then show ?thesis using true_ranges_nonneg [OF assms(1)] by (simp add: bar_ranges_def Cons)
qed (simp add: bar_ranges_def)

text \<open>
  The Keltner bands of the panels: one band per bar, its middle within the closes (the moving average never leaves the
  range of its inputs), the lower line not above it and the upper one not below.
\<close>
theorem keltner_bands_ordered:
  assumes "calcKC period (Fin m) bars = Some ds" "list_all whole_bar bars" "\<forall>b \<in> set bars. fin_val (low b) \<le> fin_val (high b)"
    and "\<forall>b \<in> set bars. lo \<le> fin_val (close b) \<and> fin_val (close b) \<le> hi" "0 < period" "0 \<le> m"
  shows "length ds = length bars \<and> (\<forall>d \<in> set ds. within_range lo hi (cb_mid d) \<and> js_le (cb_lower d) (cb_mid d) \<and> js_le (cb_mid d) (cb_upper d))"
proof -
  let ?mid = "ema (map close bars) period" and ?atr = "ema (bar_ranges bars) period"
  have "list_all (within_range lo hi) (map close bars)"
    using assms(2,4) by (auto simp: list_all_iff within_range_def whole_bar_def finite_bar_def)
  from emaArr_range [OF this assms(5)] have mid: "list_all (within_range lo hi) ?mid" "length ?mid = length bars" by (simp_all add: ema_def)
  note r = bar_ranges_nonneg [OF assms(2,3)]
  have atr: "list_all (within_range 0 (sum_list (map fin_val (bar_ranges bars)))) ?atr" "length ?atr = length bars"
    using emaArr_range [OF nonneg_range [OF conjunct1 [OF r]] assms(5)] r by (simp_all add: ema_def)
  have ds: "ds = bands_around (Fin m) bars ?mid ?atr" using assms(1) by (simp add: calcKC_def split: if_split_asm)
  have "within_range lo hi (cb_mid d) \<and> js_le (cb_lower d) (cb_mid d) \<and> js_le (cb_mid d) (cb_upper d)" if d: "d \<in> set ds" for d
  proof -
    obtain b c a where z: "(b, c, a) \<in> set (zip bars (zip ?mid ?atr))" and e: "cb_mid d = c" "cb_lower d = js_sub c (js_mul (Fin m) a)"
      "cb_upper d = js_add c (js_mul (Fin m) a)" using d unfolding ds bands_around_def by auto
    have "(c, a) \<in> set (zip ?mid ?atr)" using z by (rule set_zip_rightD)
    then have "c \<in> set ?mid" "a \<in> set ?atr" by (auto dest: set_zip_leftD set_zip_rightD)
    then have "within_range lo hi c" "within_range 0 (sum_list (map fin_val (bar_ranges bars))) a"
      using mid(1) atr(1) by (simp_all add: list_all_iff)
    then obtain x y where "c = Fin x" "lo \<le> x" "x \<le> hi" "a = Fin y" "0 \<le> y"
      by (cases c; cases a) (simp_all add: within_range_def)
    then show ?thesis using e assms(6) by (simp add: within_range_def)
  qed
  then show ?thesis by (simp add: ds bands_around_def mid(2) atr(2))
qed

theorem keltner_bands_ordered_witness:
  "\<exists>ds. calcKC 20 (Fin (5 / 2)) [shared_bar, shared_bar\<lparr>timestamp := Fin 120000, close := Fin 12\<rparr>] = Some ds \<and>
    (\<forall>d \<in> set ds. within_range 11 12 (cb_mid d))"
proof -
  let ?bars = "[shared_bar, shared_bar\<lparr>timestamp := Fin 120000, close := Fin 12\<rparr>]"
  obtain ds where ds: "calcKC 20 (Fin (5 / 2)) ?bars = Some ds" by (simp add: calcKC_def)
  from keltner_bands_ordered [OF ds, of 11 12] have "\<forall>d \<in> set ds. within_range 11 12 (cb_mid d)"
    by (simp add: whole_bar_def finite_bar_def shared_bar_def)
  with ds show ?thesis by blast
qed

section \<open>Lemmas: the forming candle\<close>

definition ordered_ticks :: "trade_tick list \<Rightarrow> bool" where
  "ordered_ticks ticks = (list_all (\<lambda>t. is_fin (tt_timestamp t) \<and> is_fin (tt_price t)) ticks \<and>
     sorted (map (fin_val \<circ> tt_timestamp) ticks))"

lemma last_in_bucket:
  assumes "ordered_ticks ticks" "t \<in> set ticks" "js_le (Fin b) (tt_timestamp t)"
  shows "js_le (Fin b) (tt_timestamp (last ticks))"
proof -
  obtain i where i: "i < length ticks" "t = ticks ! i" using assms(2) by (auto simp: in_set_conv_nth)
  have "fin_val (tt_timestamp (ticks ! i)) \<le> fin_val (tt_timestamp (ticks ! (length ticks - 1)))"
    using sorted_nth_mono [of "map (fin_val \<circ> tt_timestamp) ticks" i "length ticks - 1"] assms(1) i by (simp add: ordered_ticks_def)
  moreover have ne: "ticks \<noteq> []" using assms(2) by auto
  moreover have "is_fin (tt_timestamp (last ticks))" "is_fin (tt_timestamp t)"
    using assms(1,2) last_in_set [OF ne] by (auto simp: ordered_ticks_def list_all_iff)
  ultimately show ?thesis using assms(3) i(2) by (auto simp: is_fin_conv last_conv_nth)
qed

lemma list_extremes:
  assumes "x \<in> set xs" "\<forall>x \<in> set xs. is_fin x"
  shows "js_le x (js_max_list xs)" "js_le (js_min_list xs) x"
proof -
  have ne: "xs \<noteq> []" using assms(1) by auto
  have "x = Fin (fin_val x)" "fin_val x \<le> Max (fin_val ` set xs)" "Min (fin_val ` set xs) \<le> fin_val x" using assms by simp_all
  then show "js_le x (js_max_list xs)" "js_le (js_min_list xs) x"
    unfolding js_max_list_fin [OF ne assms(2)] js_min_list_fin [OF ne assms(2)] by (metis js_le_Fin)+
qed

lemma le_le: "js_le x y \<Longrightarrow> js_le y z \<Longrightarrow> is_fin x \<Longrightarrow> is_fin y \<Longrightarrow> js_le x z"
  by (cases x; cases y; cases z) (auto simp: js_le_def)

text \<open>
  With ticks in time order the candle that the timer draws encloses its open and its close, and starts at the bucket of
  the clock.
\<close>
theorem live_candle_encloses:
  assumes "heartbeat_candle now tf aggBars ticks = Some c" "0 < tf" "ordered_ticks ticks" "whole_bar (last aggBars)"
    and "js_le (low (last aggBars)) (bopen (last aggBars))" "js_le (bopen (last aggBars)) (high (last aggBars))"
    and "js_le (low (last aggBars)) (close (last aggBars))" "js_le (close (last aggBars)) (high (last aggBars))"
  shows "js_le (lv_low c) (lv_open c) \<and> js_le (lv_open c) (lv_high c) \<and> js_le (lv_low c) (lv_close c) \<and> js_le (lv_close c) (lv_high c) \<and>
    lv_time c = bucket_floor (js_floor (Fin (now / 1000))) (tf * 60)"
proof -
  define agg where "agg = last aggBars"
  define bs where "bs = bucket_floor (js_floor (Fin (now / 1000))) (tf * 60)"
  define latest where "latest = (if ticks = [] then close agg else tt_price (last ticks))"
  define cur where "cur = js_le (js_mul bs (Fin 1000)) (timestamp agg)"
  define op hi lo where "op = (if cur then bopen agg else latest)" and "hi = (if cur then high agg else latest)"
    and "lo = (if cur then low agg else latest)"
  define ps where "ps = map tt_price (filter (\<lambda>t. js_le (js_mul bs (Fin 1000)) (tt_timestamp t)) ticks)"
  have c: "c = \<lparr>lv_time = bs, lv_open = op, lv_high = (if ps = [] then js_max hi latest else js_max_list (hi # ps)),
      lv_low = (if ps = [] then js_min lo latest else js_min_list (lo # ps)), lv_close = latest\<rparr>"
    using assms(1) unfolding heartbeat_candle_def Let_def
    by (auto split: if_split_asm simp: agg_def bs_def latest_def cur_def op_def hi_def lo_def ps_def)
  obtain b where b: "bs = Fin b" using assms(2) by (simp add: bs_def bucket_floor_def)
  have agg: "is_fin (bopen agg)" "is_fin (high agg)" "is_fin (low agg)" "is_fin (close agg)"
    using assms(4) by (auto simp: whole_bar_def finite_bar_def agg_def)
  have price: "is_fin (tt_price t)" if "t \<in> set ticks" for t using assms(3) that by (auto simp: ordered_ticks_def list_all_iff)
  then have latest: "is_fin latest" using agg by (simp add: latest_def)
  have fin: "is_fin op" "is_fin hi" "is_fin lo" using agg latest by (simp_all add: op_def hi_def lo_def)
  have base: "js_le lo op" "js_le op hi" using assms(5,6) latest by (auto simp: op_def hi_def lo_def agg_def js_le_def is_fin_conv)
  show ?thesis
  proof (cases "ps = []")
    case True
    then show ?thesis using base fin latest by (auto simp: c is_fin_conv bs_def)
  next
    case False
    then obtain t where t: "t \<in> set ticks" "js_le (Fin (b * 1000)) (tt_timestamp t)" by (auto simp: ps_def b filter_empty_conv)
    have "last ticks \<in> set ticks" using t(1) last_in_set [of ticks] by (cases ticks) simp_all
    then have "last ticks \<in> set (filter (\<lambda>t. js_le (js_mul bs (Fin 1000)) (tt_timestamp t)) ticks)"
      using last_in_bucket [OF assms(3) t] by (simp add: b)
    then have "tt_price (last ticks) \<in> set ps" unfolding ps_def by (rule list.set_map [THEN equalityD2, THEN subsetD, OF imageI])
    moreover have "latest = tt_price (last ticks)" using t(1) by (auto simp: latest_def)
    ultimately have "latest \<in> set ps" by simp
    moreover have "\<forall>x \<in> set ps. is_fin x" using price by (auto simp: ps_def)
    ultimately have e: "js_le latest (js_max_list (hi # ps))" "js_le (js_min_list (lo # ps)) latest"
      "js_le hi (js_max_list (hi # ps))" "js_le (js_min_list (lo # ps)) lo" "is_fin (js_min_list (lo # ps))"
      using list_extremes [of _ "hi # ps"] list_extremes [of _ "lo # ps"] js_min_list_fin [of "lo # ps"] fin by simp_all
    have "js_le op (js_max_list (hi # ps))" "js_le (js_min_list (lo # ps)) op"
      using le_le [OF base(2) e(3) fin(1,2)] le_le [OF e(4) base(1) e(5) fin(3)] by blast+
    then show ?thesis using e(1,2) False by (simp add: c bs_def)
  qed
qed

theorem live_candle_encloses_witness:
  "\<exists>c. heartbeat_candle 60500 1 [shared_bar] [] = Some c \<and> js_le (lv_low c) (lv_close c) \<and> js_le (lv_close c) (lv_high c)"
proof -
  obtain c where c: "heartbeat_candle 60500 1 [shared_bar] [] = Some c" by (simp add: heartbeat_candle_def Let_def)
  from live_candle_encloses [OF c] c show ?thesis by (simp add: ordered_ticks_def whole_bar_def finite_bar_def shared_bar_def)
qed

end
