(* ===== verification/Paper.thy ===== *)
theory Paper
  imports StoreProps TradeAnalytics Studies
begin

text \<open>
  The simulated trading of \<open>components/PaperTrade.tsx\<close>: prices of binary outcomes with fees, positions opened by hand
  or by signals and closed by hand or by the thresholds, the lifetime statistics kept in storage, and the backtest of a
  strategy on a history of probabilities.  The clock and the random part of identifiers are parameters.
\<close>

section \<open>Profit and loss\<close>

definition pct :: "jsnum \<Rightarrow> jsnum" where
  "pct x = js_div x (Fin 100)"

definition calcPnl :: "outcome \<Rightarrow> jsnum \<Rightarrow> jsnum \<Rightarrow> jsnum \<Rightarrow> jsnum" where
  "calcPnl side entryProb exitProb invested =
     (case side of
        Yes \<Rightarrow> (let shares = js_div invested (pct entryProb) in js_div (js_mul shares (js_sub exitProb entryProb)) (Fin 100))
      | No \<Rightarrow> (let noEntry = pct (js_sub (Fin 100) entryProb); noExit = pct (js_sub (Fin 100) exitProb); shares = js_div invested noEntry
               in js_mul shares (js_sub noExit noEntry)))"

definition POLY_FEE_RATE_CRYPTO :: jsnum where
  "POLY_FEE_RATE_CRYPTO = Fin (72 / 1000)"

definition calcFee :: "jsnum \<Rightarrow> jsnum \<Rightarrow> jsnum \<Rightarrow> jsnum" where
  "calcFee shares p feeRate = js_mul (js_mul (js_mul shares feeRate) p) (js_sub (Fin 1) p)"

record net_pnl =
  np_gross :: jsnum
  np_entryFee :: jsnum
  np_exitFee :: jsnum
  np_net :: jsnum
  np_shares :: jsnum

definition token_price :: "outcome \<Rightarrow> jsnum \<Rightarrow> jsnum" where
  "token_price side prob = pct (case side of Yes \<Rightarrow> prob | No \<Rightarrow> js_sub (Fin 100) prob)"

definition calcNetPnl :: "outcome \<Rightarrow> jsnum \<Rightarrow> jsnum \<Rightarrow> jsnum \<Rightarrow> jsnum \<Rightarrow> net_pnl" where
  "calcNetPnl side entryProb exitProb invested feeRate =
     (let entryP = token_price side entryProb; exitP = token_price side exitProb; shares = js_div invested entryP;
          gross = js_mul shares (js_sub exitP entryP); entryFee = calcFee shares entryP feeRate; exitFee = calcFee shares exitP feeRate
      in \<lparr>np_gross = gross, np_entryFee = entryFee, np_exitFee = exitFee, np_net = js_sub (js_sub gross entryFee) exitFee, np_shares = shares\<rparr>)"

definition calcUnrealizedNet :: "outcome \<Rightarrow> jsnum \<Rightarrow> jsnum \<Rightarrow> jsnum \<Rightarrow> jsnum \<Rightarrow> net_pnl" where
  "calcUnrealizedNet side entryProb currentProb invested feeRate =
     (let entryP = token_price side entryProb; currentP = token_price side currentProb; shares = js_div invested entryP;
          gross = js_mul shares (js_sub currentP entryP); entryFee = calcFee shares entryP feeRate; estExitFee = calcFee shares currentP feeRate
      in \<lparr>np_gross = gross, np_entryFee = entryFee, np_exitFee = estExitFee, np_net = js_sub (js_sub gross entryFee) estExitFee, np_shares = shares\<rparr>)"

section \<open>Positions and records\<close>

datatype paper_source = Src_manual | Src_signal | Src_backtest

record paper_position =
  pq_id :: string
  pq_marketKey :: string
  pq_question :: string
  pq_side :: outcome
  pq_model :: "model_name option"
  pq_entryPrice :: jsnum
  pq_shares :: jsnum
  pq_size :: jsnum
  pq_entryTime :: jsnum
  pq_source :: paper_source

datatype exit_reason = Exit_manual | Exit_stop | Exit_take_profit | Exit_rollover | Exit_signal

record paper_record =
  rc_position :: paper_position
  rc_exitPrice :: jsnum
  rc_exitTime :: jsnum
  rc_grossPnl :: jsnum
  rc_entryFee :: jsnum
  rc_exitFee :: jsnum
  rc_pnl :: jsnum
  rc_reason :: exit_reason

record lifetime_stats =
  lt_totalPnl :: jsnum
  lt_wins :: nat
  lt_count :: nat
  lt_maxDrawdown :: jsnum
  lt_peakPnl :: jsnum
  lt_totalFees :: jsnum

definition empty_lifetime :: lifetime_stats where
  "empty_lifetime = \<lparr>lt_totalPnl = Fin 0, lt_wins = 0, lt_count = 0, lt_maxDrawdown = Fin 0, lt_peakPnl = Fin 0, lt_totalFees = Fin 0\<rparr>"

record paper_stats =
  sx_totalPnl :: jsnum
  sx_winRate :: jsnum
  sx_maxDrawdown :: jsnum
  sx_avgTrade :: jsnum
  sx_wins :: nat

definition stats_step :: "jsnum \<times> jsnum \<times> jsnum \<Rightarrow> jsnum \<Rightarrow> jsnum \<times> jsnum \<times> jsnum" where
  "stats_step = (\<lambda>(peak, maxDrawdown, cum) pnl.
     let cum = js_add cum pnl; peak = (if js_lt peak cum then cum else peak); dd = js_sub peak cum
     in (peak, if js_lt maxDrawdown dd then dd else maxDrawdown, cum))"

definition calcStats :: "jsnum list \<Rightarrow> paper_stats" where
  "calcStats pnls =
     (if pnls = [] then \<lparr>sx_totalPnl = Fin 0, sx_winRate = Fin 0, sx_maxDrawdown = Fin 0, sx_avgTrade = Fin 0, sx_wins = 0\<rparr>
      else let totalPnl = js_sum pnls; wins = length (filter (js_lt (Fin 0)) pnls); n = Fin (of_nat (length pnls));
               (peak, maxDrawdown, cum) = foldl stats_step (Fin 0, Fin 0, Fin 0) pnls
           in \<lparr>sx_totalPnl = totalPnl, sx_winRate = js_mul (js_div (Fin (of_nat wins)) n) (Fin 100), sx_maxDrawdown = maxDrawdown,
               sx_avgTrade = js_div totalPnl n, sx_wins = wins\<rparr>)"

section \<open>Backtest\<close>

datatype bt_strategy = Mean_reversion | Momentum | Threshold

record bt_config =
  bc_marketKey :: string
  bc_strategy :: bt_strategy
  bc_buyYesBelow :: jsnum
  bc_buyNoAbove :: jsnum
  bc_exitTarget :: jsnum
  bc_stopLoss :: jsnum
  bc_takeProfit :: jsnum
  bc_tradeSize :: jsnum

definition DEFAULT_BT :: bt_config where
  "DEFAULT_BT = \<lparr>bc_marketKey = ''BTC_5min'', bc_strategy = Mean_reversion, bc_buyYesBelow = Fin 35, bc_buyNoAbove = Fin 65,
     bc_exitTarget = Fin 50, bc_stopLoss = Fin 50, bc_takeProfit = Fin 100, bc_tradeSize = Fin 10\<rparr>"

record bt_state =
  bx_trades :: "paper_record list"
  bx_equity :: "(jsnum \<times> jsnum) list"
  bx_cumPnl :: jsnum
  bx_open :: "paper_position option"
  bx_n :: nat

definition closeAt :: "prob_point \<Rightarrow> exit_reason \<Rightarrow> bt_state \<Rightarrow> bt_state" where
  "closeAt pt reason s =
     (case bx_open s of
        None \<Rightarrow> s
      | Some pos \<Rightarrow>
          (let pnl = calcPnl (pq_side pos) (pq_entryPrice pos) (pp_up_pct pt) (pq_size pos); cum = js_add (bx_cumPnl s) pnl
           in s\<lparr>bx_trades := bx_trades s @ [\<lparr>rc_position = pos, rc_exitPrice = pp_up_pct pt, rc_exitTime = pp_ts pt, rc_grossPnl = pnl,
                  rc_entryFee = Fin 0, rc_exitFee = Fin 0, rc_pnl = pnl, rc_reason = reason\<rparr>],
                bx_cumPnl := cum, bx_equity := bx_equity s @ [(pp_ts pt, cum)], bx_open := None\<rparr>))"

definition openAt :: "bt_config \<Rightarrow> prob_point \<Rightarrow> outcome \<Rightarrow> bt_state \<Rightarrow> bt_state" where
  "openAt cfg pt side s =
     (let price = token_price side (pp_up_pct pt); n = bx_n s + 1
      in s\<lparr>bx_n := n, bx_open := Some \<lparr>pq_id = ''bt_'' @ jsnum_string (Fin (of_nat n)), pq_marketKey = bc_marketKey cfg,
             pq_question = bc_marketKey cfg, pq_side = side, pq_model = None, pq_entryPrice = pp_up_pct pt,
             pq_shares = js_div (bc_tradeSize cfg) price, pq_size = bc_tradeSize cfg, pq_entryTime = pp_ts pt, pq_source = Src_backtest\<rparr>\<rparr>)"

definition exit_of :: "bt_config \<Rightarrow> jsnum \<Rightarrow> paper_position \<Rightarrow> exit_reason option" where
  "exit_of cfg prob pos =
     (let pnlPct = js_mul (js_div (calcPnl (pq_side pos) (pq_entryPrice pos) prob (pq_size pos)) (pq_size pos)) (Fin 100);
          onTarget = (case pq_side pos of Yes \<Rightarrow> js_le (bc_exitTarget cfg) prob | No \<Rightarrow> js_le prob (js_sub (Fin 100) (bc_exitTarget cfg)))
      in if js_le pnlPct (js_neg (bc_stopLoss cfg)) then Some Exit_stop
         else if js_le (bc_takeProfit cfg) pnlPct then Some Exit_take_profit
         else if onTarget then Some Exit_signal else None)"

text \<open>The side to enter at index \<open>i\<close> of the history, if any.\<close>

definition entry_of :: "bt_config \<Rightarrow> prob_point list \<Rightarrow> nat \<Rightarrow> outcome option" where
  "entry_of cfg history i =
     (let prob = pp_up_pct (history ! i)
      in case bc_strategy cfg of
           Mean_reversion \<Rightarrow> if js_le prob (bc_buyYesBelow cfg) then Some Yes else if js_le (bc_buyNoAbove cfg) prob then Some No else None
         | Momentum \<Rightarrow> if i < 3 then None
             else let prev = pp_up_pct (history ! (i - 3))
               in if js_le (Fin 5) (js_sub prob prev) \<and> js_lt prob (Fin 80) then Some Yes
                  else if js_le (Fin 5) (js_sub prev prob) \<and> js_lt (Fin 20) prob then Some No else None
         | Threshold \<Rightarrow> if js_lt prob (bc_buyYesBelow cfg) then Some Yes else if js_lt (bc_buyNoAbove cfg) prob then Some No else None)"

definition bt_step :: "bt_config \<Rightarrow> prob_point list \<Rightarrow> bt_state \<Rightarrow> nat \<Rightarrow> bt_state" where
  "bt_step cfg history s i =
     (let pt = history ! i;
          s = (case bx_open s of None \<Rightarrow> s | Some pos \<Rightarrow> (case exit_of cfg (pp_up_pct pt) pos of None \<Rightarrow> s | Some reason \<Rightarrow> closeAt pt reason s))
      in case bx_open s of
           Some _ \<Rightarrow> s
         | None \<Rightarrow> (case entry_of cfg history i of None \<Rightarrow> s | Some side \<Rightarrow> openAt cfg pt side s))"

definition bt_start :: bt_state where
  "bt_start = \<lparr>bx_trades = [], bx_equity = [], bx_cumPnl = Fin 0, bx_open = None, bx_n = 0\<rparr>"

definition runBacktest :: "prob_point list \<Rightarrow> bt_config \<Rightarrow> bt_state" where
  "runBacktest history cfg =
     (let s = foldl (bt_step cfg history) bt_start [1..<length history]
      in if bx_open s \<noteq> None \<and> history \<noteq> [] then closeAt (last history) Exit_rollover s else s)"

section \<open>The panel\<close>

record paper_state =
  pa_positions :: "paper_position list"
  pa_trades :: "paper_record list"
  pa_lifetime :: lifetime_stats
  pa_seen :: "string list"
  pa_bankroll :: jsnum
  pa_result :: "bt_state option"

definition record_close :: "lifetime_stats \<Rightarrow> paper_record \<Rightarrow> lifetime_stats" where
  "record_close l c =
     (let totalPnl = js_add (lt_totalPnl l) (rc_pnl c); peak = (if js_lt (lt_peakPnl l) totalPnl then totalPnl else lt_peakPnl l);
          dd = js_sub peak totalPnl
      in \<lparr>lt_totalPnl = totalPnl, lt_wins = (if js_lt (Fin 0) (rc_pnl c) then lt_wins l + 1 else lt_wins l), lt_count = lt_count l + 1,
          lt_maxDrawdown = (if js_lt (lt_maxDrawdown l) dd then dd else lt_maxDrawdown l), lt_peakPnl = peak,
          lt_totalFees = js_add (lt_totalFees l) (js_add (rc_entryFee c) (rc_exitFee c))\<rparr>)"

definition current_prob :: "terminal_state \<Rightarrow> paper_position \<Rightarrow> jsnum" where
  "current_prob st pos =
     (case dict_get (ss_polyBooks st) (pq_marketKey pos) of
        Some b \<Rightarrow> pb_up_pct b
      | None \<Rightarrow> (case List.find (\<lambda>m. mk_key m = pq_marketKey pos) (ss_markets st) of Some m \<Rightarrow> mk_up_pct m | None \<Rightarrow> pq_entryPrice pos))"

definition close_record :: "rat \<Rightarrow> jsnum \<Rightarrow> exit_reason \<Rightarrow> paper_position \<Rightarrow> paper_record" where
  "close_record now exitP reason pos =
     (let r = calcNetPnl (pq_side pos) (pq_entryPrice pos) exitP (pq_size pos) POLY_FEE_RATE_CRYPTO
      in \<lparr>rc_position = pos, rc_exitPrice = exitP, rc_exitTime = Fin now, rc_grossPnl = np_gross r, rc_entryFee = np_entryFee r,
          rc_exitFee = np_exitFee r, rc_pnl = np_net r, rc_reason = reason\<rparr>)"

text \<open>Take profit at a return of 20 per cent and stop at -50 per cent, net of fees.\<close>

definition auto_exit :: "terminal_state \<Rightarrow> paper_position \<Rightarrow> exit_reason option" where
  "auto_exit st pos =
     (let roi = js_div (np_net (calcNetPnl (pq_side pos) (pq_entryPrice pos) (current_prob st pos) (pq_size pos) POLY_FEE_RATE_CRYPTO)) (pq_size pos)
      in if js_le (Fin (20 / 100)) roi then Some Exit_take_profit else if js_le roi (Fin (- 50 / 100)) then Some Exit_stop else None)"

definition auto_closed :: "rat \<Rightarrow> terminal_state \<Rightarrow> paper_position list \<Rightarrow> paper_record list" where
  "auto_closed now st ps =
     concat (map (\<lambda>p. case auto_exit st p of None \<Rightarrow> [] | Some reason \<Rightarrow> [close_record now (current_prob st p) reason p]) ps)"

definition add_records :: "paper_record list \<Rightarrow> paper_state \<Rightarrow> paper_state" where
  "add_records closing s = s\<lparr>pa_trades := take 5000 (closing @ pa_trades s), pa_lifetime := foldl record_close (pa_lifetime s) closing\<rparr>"

definition auto_close :: "rat \<Rightarrow> terminal_state \<Rightarrow> paper_state \<Rightarrow> paper_state" where
  "auto_close now st s =
     (let closing = auto_closed now st (pa_positions s)
      in if closing = [] then s else (add_records closing s)\<lparr>pa_positions := filter (\<lambda>p. auto_exit st p = None) (pa_positions s)\<rparr>)"

definition handleClose :: "rat \<Rightarrow> terminal_state \<Rightarrow> string \<Rightarrow> paper_state \<Rightarrow> paper_state" where
  "handleClose now st posId s =
     (case List.find (\<lambda>p. pq_id p = posId) (pa_positions s) of
        None \<Rightarrow> s
      | Some pos \<Rightarrow> (add_records [close_record now (current_prob st pos) Exit_manual pos] s)
          \<lparr>pa_positions := filter (\<lambda>p. pq_id p \<noteq> posId) (pa_positions s)\<rparr>)"

text \<open>The market that orders go to, with its price; orders are ignored while none is active.\<close>

definition active_market :: "terminal_state \<Rightarrow> (string \<times> market_info \<times> jsnum) option" where
  "active_market st =
     (case ss_activeMarketKey st of
        None \<Rightarrow> None
      | Some key \<Rightarrow> if key = '''' then None
          else (case List.find (\<lambda>m. mk_key m = key) (ss_markets st) of
            None \<Rightarrow> None
          | Some m \<Rightarrow> Some (key, m, case dict_get (ss_polyBooks st) key of Some b \<Rightarrow> pb_up_pct b | None \<Rightarrow> mk_up_pct m)))"

definition bet_size :: "string \<Rightarrow> jsnum" where
  "bet_size betSize = or_num (js_parse_float betSize) (Fin 10)"

definition new_position :: "rat \<Rightarrow> string \<Rightarrow> outcome \<Rightarrow> model_name option \<Rightarrow> paper_source \<Rightarrow> string \<Rightarrow> string \<times> market_info \<times> jsnum \<Rightarrow> paper_position" where
  "new_position now i side model source betSize = (\<lambda>(key, m, ep).
     \<lparr>pq_id = i, pq_marketKey = key, pq_question = mk_question m, pq_side = side, pq_model = model, pq_entryPrice = ep,
      pq_shares = js_div (bet_size betSize) (token_price side ep), pq_size = bet_size betSize, pq_entryTime = Fin now, pq_source = source\<rparr>)"

definition add_position :: "paper_position \<Rightarrow> paper_state \<Rightarrow> paper_state" where
  "add_position p s = s\<lparr>pa_positions := pa_positions s @ [p]\<rparr>"

definition handleBuy :: "rat \<Rightarrow> terminal_state \<Rightarrow> outcome \<Rightarrow> string \<Rightarrow> paper_state \<Rightarrow> paper_state" where
  "handleBuy now st betSide betSize s =
     (case active_market st of
        None \<Rightarrow> s
      | Some am \<Rightarrow> add_position (new_position now (''manual_'' @ jsnum_string (Fin now)) betSide None Src_manual betSize am) s)"

definition signal_side :: "signal \<Rightarrow> outcome" where
  "signal_side sig = (if sg_direction sig = ''UP'' then Yes else No)"

definition handleQuickSignalTrade :: "rat \<Rightarrow> terminal_state \<Rightarrow> signal \<Rightarrow> string \<Rightarrow> paper_state \<Rightarrow> paper_state" where
  "handleQuickSignalTrade now st sig betSize s =
     (case active_market st of
        None \<Rightarrow> s
      | Some am \<Rightarrow> add_position (new_position now (''sig_'' @ jsnum_string (Fin now)) (signal_side sig) (Some (sg_model sig)) Src_signal betSize am) s)"

definition signal_key :: "signal \<Rightarrow> string" where
  "signal_key sig = jsnum_string (sg_timestamp sig) @ ''_'' @ sg_model sig @ ''_'' @ sg_direction sig"

text \<open>\<open>salt\<close> gives the random suffix of the identifier of each signal.\<close>

definition auto_signal :: "rat \<Rightarrow> (string \<Rightarrow> string) \<Rightarrow> terminal_state \<Rightarrow> bool \<Rightarrow> string \<Rightarrow> paper_state \<Rightarrow> paper_state" where
  "auto_signal now salt st autoSignal betSize s =
     (if \<not> autoSignal then s
      else case active_market st of
        None \<Rightarrow> s
      | Some am \<Rightarrow> foldl (\<lambda>s sig. if signal_key sig \<in> set (pa_seen s) then s
            else add_position (new_position now (''sig_'' @ jsnum_string (Fin now) @ ''_'' @ salt (signal_key sig)) (signal_side sig)
              (Some (sg_model sig)) Src_signal betSize am) (s\<lparr>pa_seen := signal_key sig # pa_seen s\<rparr>))
          s (opt_or (dict_get (ss_signals st) (ss_activeAsset st)) []))"

definition handleReset :: "paper_state \<Rightarrow> paper_state" where
  "handleReset s = s\<lparr>pa_positions := [], pa_trades := [], pa_lifetime := empty_lifetime, pa_result := None\<rparr>"

definition setBankroll :: "string \<Rightarrow> paper_state \<Rightarrow> paper_state" where
  "setBankroll typed s = s\<lparr>pa_bankroll := js_max (Fin 1) (js_num (JStr typed))\<rparr>"

section \<open>Opening the panel\<close>

record paper_storage =
  st_positions :: "paper_position list option"
  st_trades :: "paper_record list option"
  st_lifetime :: "lifetime_stats option"
  st_bankroll :: "jsnum option"
  st_restored :: bool

definition normalize_position :: "paper_position \<Rightarrow> paper_position" where
  "normalize_position p = p\<lparr>pq_model := (case pq_model p of None \<Rightarrow> None | Some m \<Rightarrow> if m = '''' then Some m else Some (normalizeModel m))\<rparr>"

definition adopt_trades :: "paper_state \<Rightarrow> paper_state" where
  "adopt_trades s =
     (if lt_count (pa_lifetime s) = 0 \<and> pa_trades s \<noteq> [] then
        (let x = calcStats (map rc_pnl (pa_trades s))
         in s\<lparr>pa_lifetime := \<lparr>lt_totalPnl = sx_totalPnl x, lt_wins = sx_wins x, lt_count = length (pa_trades s),
              lt_maxDrawdown = sx_maxDrawdown x, lt_peakPnl = (if js_lt (Fin 0) (sx_totalPnl x) then sx_totalPnl x else Fin 0),
              lt_totalFees = Fin 0\<rparr>\<rparr>)
      else s)"

definition restore_patch :: "bool \<Rightarrow> paper_state \<Rightarrow> paper_state" where
  "restore_patch restored s =
     (if restored then s
      else let l = pa_lifetime s; t = js_add (lt_totalPnl l) (Fin 33820)
        in s\<lparr>pa_lifetime := l\<lparr>lt_totalPnl := t, lt_peakPnl := js_max (lt_peakPnl l) t\<rparr>\<rparr>)"

definition open_panel :: "paper_storage \<Rightarrow> paper_state" where
  "open_panel stored =
     restore_patch (st_restored stored) (adopt_trades
       \<lparr>pa_positions = map normalize_position (opt_or (st_positions stored) []),
        pa_trades = map (\<lambda>t. t\<lparr>rc_position := normalize_position (rc_position t)\<rparr>) (opt_or (st_trades stored) []),
        pa_lifetime = opt_or (st_lifetime stored) empty_lifetime, pa_seen = [],
        pa_bankroll = opt_or (st_bankroll stored) (Fin 1000), pa_result = None\<rparr>)"

text \<open>JSON writes \<open>null\<close> for a number that is not finite, and arithmetic takes \<open>null\<close> for zero.\<close>

definition stored_num :: "jsnum \<Rightarrow> jsnum" where
  "stored_num x = (if is_fin x then x else Fin 0)"

definition stored_position :: "paper_position \<Rightarrow> paper_position" where
  "stored_position p = p\<lparr>pq_entryPrice := stored_num (pq_entryPrice p), pq_shares := stored_num (pq_shares p),
     pq_size := stored_num (pq_size p), pq_entryTime := stored_num (pq_entryTime p)\<rparr>"

definition stored_record :: "paper_record \<Rightarrow> paper_record" where
  "stored_record c = \<lparr>rc_position = stored_position (rc_position c), rc_exitPrice = stored_num (rc_exitPrice c),
     rc_exitTime = stored_num (rc_exitTime c), rc_grossPnl = stored_num (rc_grossPnl c), rc_entryFee = stored_num (rc_entryFee c),
     rc_exitFee = stored_num (rc_exitFee c), rc_pnl = stored_num (rc_pnl c), rc_reason = rc_reason c\<rparr>"

definition stored_lifetime :: "lifetime_stats \<Rightarrow> lifetime_stats" where
  "stored_lifetime l = \<lparr>lt_totalPnl = stored_num (lt_totalPnl l), lt_wins = lt_wins l, lt_count = lt_count l,
     lt_maxDrawdown = stored_num (lt_maxDrawdown l), lt_peakPnl = stored_num (lt_peakPnl l), lt_totalFees = stored_num (lt_totalFees l)\<rparr>"

definition persist :: "paper_state \<Rightarrow> paper_storage" where
  "persist s = \<lparr>st_positions = Some (map stored_position (pa_positions s)), st_trades = Some (map stored_record (pa_trades s)),
     st_lifetime = Some (stored_lifetime (pa_lifetime s)), st_bankroll = Some (stored_num (pa_bankroll s)), st_restored = True\<rparr>"

section \<open>Derived values\<close>

definition lifetime_winRate :: "lifetime_stats \<Rightarrow> jsnum" where
  "lifetime_winRate l = (if lt_count l \<noteq> 0 then js_mul (js_div (Fin (of_nat (lt_wins l))) (Fin (of_nat (lt_count l)))) (Fin 100) else Fin 0)"

definition lifetime_avgTrade :: "lifetime_stats \<Rightarrow> jsnum" where
  "lifetime_avgTrade l = (if lt_count l \<noteq> 0 then js_div (lt_totalPnl l) (Fin (of_nat (lt_count l))) else Fin 0)"

definition unrealised :: "terminal_state \<Rightarrow> paper_position list \<Rightarrow> jsnum" where
  "unrealised st ps = js_sum (map (\<lambda>p. calcPnl (pq_side p) (pq_entryPrice p) (current_prob st p) (pq_size p)) ps)"

fun equity_from :: "jsnum \<Rightarrow> paper_record list \<Rightarrow> (jsnum \<times> jsnum) list" where
  "equity_from cum [] = []"
| "equity_from cum (t # ts) = (let cum = js_add cum (rc_pnl t) in (rc_exitTime t, cum) # equity_from cum ts)"

definition reportEquity :: "paper_state \<Rightarrow> (jsnum \<times> jsnum) list" where
  "reportEquity s =
     (let visiblePnl = js_sum (map rc_pnl (pa_trades s)); basePnl = js_sub (lt_totalPnl (pa_lifetime s)) visiblePnl;
          inOrder = js_sort (\<lambda>a b. js_sub (rc_exitTime a) (rc_exitTime b)) (pa_trades s)
      in case inOrder of [] \<Rightarrow> [] | t # _ \<Rightarrow> (js_sub (rc_exitTime t) (Fin 1), basePnl) # equity_from basePnl inOrder)"

definition historyKeys :: "prob_point list dict \<Rightarrow> string list" where
  "historyKeys probHistory = map fst (filter (\<lambda>(k, h). 10 \<le> length h) (js_entries probHistory))"

definition valid_bt_key :: "prob_point list dict \<Rightarrow> bt_config \<Rightarrow> bt_config" where
  "valid_bt_key probHistory cfg =
     (let keys = historyKeys probHistory in if keys \<noteq> [] \<and> bc_marketKey cfg \<notin> set keys then cfg\<lparr>bc_marketKey := hd keys\<rparr> else cfg)"

definition handleRunBacktest :: "prob_point list dict \<Rightarrow> bt_config \<Rightarrow> paper_state \<Rightarrow> paper_state" where
  "handleRunBacktest probHistory cfg s =
     (case dict_get probHistory (bc_marketKey cfg) of
        None \<Rightarrow> s
      | Some hist \<Rightarrow> if length hist < 10 then s else s\<lparr>pa_result := Some (runBacktest hist cfg)\<rparr>)"

definition inPositions :: "paper_state \<Rightarrow> jsnum" where
  "inPositions s = js_sum (map pq_size (pa_positions s))"

text \<open>The money left for new positions.\<close>

definition available_funds :: "paper_state \<Rightarrow> jsnum" where
  "available_funds s = js_add (js_sub (pa_bankroll s) (inPositions s)) (lt_totalPnl (pa_lifetime s))"

definition fmtUsd :: "jsnum \<Rightarrow> bool \<Rightarrow> string" where
  "fmtUsd n sign =
     (let a = js_abs n; s = (if js_le (Fin 1000) a then ''$'' @ to_fixed 2 (js_div a (Fin 1000)) @ ''K'' else ''$'' @ to_fixed 2 a)
      in if js_lt n (Fin 0) then ''-'' @ s else if sign \<and> js_lt (Fin 0) n then ''+'' @ s else s)"

definition paper_fmtPct :: "jsnum \<Rightarrow> bool \<Rightarrow> string" where
  "paper_fmtPct n sign = (if sign \<and> js_lt (Fin 0) n then ''+'' else '''') @ to_fixed 1 n @ ''%''"

definition pnlColor :: "jsnum \<Rightarrow> string" where
  "pnlColor n = (if js_lt (Fin 0) n then ''#22c55e'' else if js_lt n (Fin 0) then ''#ef4444'' else ''#94a3b8'')"

text \<open>The curve on its canvas of height 250, with a fifth of the range added at both ends and zero in view.\<close>

record equity_plot =
  ep_width :: jsnum
  ep_min :: jsnum
  ep_max :: jsnum
  ep_points :: "(jsnum \<times> jsnum) list"
  ep_grid :: "(jsnum \<times> string) list"

definition value_label :: "jsnum \<Rightarrow> string" where
  "value_label v = (if js_le (Fin 0) v then ''+$'' @ to_fixed 2 v else ''-$'' @ to_fixed 2 (js_abs v))"

definition plot_y :: "jsnum \<Rightarrow> jsnum \<Rightarrow> jsnum \<Rightarrow> jsnum" where
  "plot_y minV rng v = js_sub (Fin (250 - 20)) (js_mul (js_div (js_sub v minV) rng) (Fin (250 - 2 * 20)))"

definition EquityCanvas :: "jsnum \<Rightarrow> (jsnum \<times> jsnum) list \<Rightarrow> equity_plot option" where
  "EquityCanvas parent_width equity =
     (if length equity < 2 then None
      else let w = js_max parent_width (Fin 300); vals = map snd equity;
               rawMin = js_min_list (Fin 0 # vals); rawMax = js_max_list (Fin 0 # vals);
               rngRaw = or_num (js_sub rawMax rawMin) (Fin 1); minV = js_sub rawMin (js_mul rngRaw (Fin (20 / 100)));
               maxV = js_add rawMax (js_mul rngRaw (Fin (20 / 100))); rng = or_num (js_sub maxV minV) (Fin 1);
               sx = (\<lambda>i. js_add (Fin 20) (js_mul (Fin (of_nat i / of_nat (length equity - 1))) (js_sub (js_sub w (Fin 70)) (Fin (20 * 2)))))
           in Some \<lparr>ep_width = w, ep_min = minV, ep_max = maxV, ep_points = map (\<lambda>(i, v). (sx i, plot_y minV rng v)) (enumerate 0 vals),
                ep_grid = map (\<lambda>k. let v = js_add minV (js_mul (Fin (of_nat k / 4)) rng) in (plot_y minV rng v, value_label v)) [0..<5]\<rparr>)"

text \<open>What the order form shows.\<close>

record entry_preview =
  ey_shares :: jsnum
  ey_maxLoss :: jsnum
  ey_maxGain :: jsnum
  ey_entryFee :: jsnum
  ey_exitFee :: jsnum
  ey_breakeven :: jsnum

definition entry_preview_of :: "outcome \<Rightarrow> string \<Rightarrow> jsnum \<Rightarrow> entry_preview" where
  "entry_preview_of betSide betSize currentYesP =
     (let sz = bet_size betSize; prob = (case betSide of Yes \<Rightarrow> currentYesP | No \<Rightarrow> js_sub (Fin 100) currentYesP); shares = js_div sz (pct prob);
          entryFee = calcFee shares (pct prob) POLY_FEE_RATE_CRYPTO; estExitFee = calcFee shares (Fin (1 / 2)) POLY_FEE_RATE_CRYPTO
      in \<lparr>ey_shares = shares, ey_maxLoss = sz, ey_maxGain = js_sub shares sz, ey_entryFee = entryFee, ey_exitFee = estExitFee,
          ey_breakeven = js_mul (js_div (js_add entryFee estExitFee) shares) (Fin 100)\<rparr>)"

section \<open>Lemmas: fees\<close>

definition tok :: "outcome \<Rightarrow> rat \<Rightarrow> rat" where
  "tok side p = (case side of Yes \<Rightarrow> p / 100 | No \<Rightarrow> (100 - p) / 100)"

lemma token_price_Fin: "token_price side (Fin p) = Fin (tok side p)"
  by (cases side) (simp_all add: token_price_def tok_def pct_def)

lemma tok_pos: "0 < p \<Longrightarrow> p < 100 \<Longrightarrow> 0 < tok side p \<and> tok side p < 1"
  by (cases side) (simp_all add: tok_def)

lemma tok_range: "0 \<le> p \<Longrightarrow> p \<le> 100 \<Longrightarrow> 0 \<le> tok side p \<and> tok side p \<le> 1"
  by (cases side) (simp_all add: tok_def)

definition fee :: "rat \<Rightarrow> rat \<Rightarrow> rat \<Rightarrow> rat" where
  "fee shares p r = shares * r * p * (1 - p)"

lemma calcNetPnl_Fin:
  fixes p q s r :: rat
  assumes "tok side p \<noteq> 0"
  defines "e \<equiv> tok side p" and "x \<equiv> tok side q"
  shows "calcNetPnl side (Fin p) (Fin q) (Fin s) (Fin r) =
    \<lparr>np_gross = Fin (s / e * (x - e)), np_entryFee = Fin (fee (s / e) e r), np_exitFee = Fin (fee (s / e) x r),
     np_net = Fin (s / e * (x - e) - fee (s / e) e r - fee (s / e) x r), np_shares = Fin (s / e)\<rparr>"
  using assms(1) by (simp add: calcNetPnl_def token_price_Fin calcFee_def fee_def Let_def e_def x_def)

lemma fee_bounds: "0 \<le> s \<Longrightarrow> 0 \<le> r \<Longrightarrow> 0 \<le> x \<Longrightarrow> x \<le> 1 \<Longrightarrow> 0 \<le> fee s x r \<and> fee s x r \<le> fee s (1 / 2) r"
proof -
  assume *: "0 \<le> s" "0 \<le> r" "0 \<le> x" "x \<le> (1 :: rat)"
  have "x * (1 - x) = 1 / 4 - (x - 1 / 2) * (x - 1 / 2)" by (simp add: algebra_simps)
  then have "x * (1 - x) \<le> 1 / 2 * (1 - 1 / 2)" by simp
  then have "s * r * (x * (1 - x)) \<le> s * r * (1 / 2 * (1 - 1 / 2))" by (rule mult_left_mono) (use * in simp)
  then show ?thesis using * by (simp add: fee_def mult.assoc)
qed

lemma fee_pos: "0 < s \<Longrightarrow> 0 < r \<Longrightarrow> 0 < x \<Longrightarrow> x < 1 \<Longrightarrow> 0 < fee s x r"
  by (simp add: fee_def)

text \<open>
  The price of a NO token is the complement of the YES price: a NO trade is the YES trade on the complement.  The gross
  part agrees with the formula without fees, an open position is valued as it would be closed, the fees are never
  negative, the exit fee is largest at a price of one half, and a trade closed at its entry price loses both fees.
\<close>
theorem fee_model_consistent:
  assumes "0 < p" "p < 100" "0 \<le> q" "q \<le> 100" "0 < s" "0 < r"
  shows "calcNetPnl No (Fin p) (Fin q) (Fin s) (Fin r) = calcNetPnl Yes (Fin (100 - p)) (Fin (100 - q)) (Fin s) (Fin r) \<and>
    np_gross (calcNetPnl side (Fin p) (Fin q) (Fin s) (Fin r)) = calcPnl side (Fin p) (Fin q) (Fin s) \<and>
    calcUnrealizedNet side (Fin p) (Fin q) (Fin s) (Fin r) = calcNetPnl side (Fin p) (Fin q) (Fin s) (Fin r) \<and>
    js_le (Fin 0) (np_entryFee (calcNetPnl side (Fin p) (Fin q) (Fin s) (Fin r))) \<and>
    js_le (Fin 0) (np_exitFee (calcNetPnl side (Fin p) (Fin q) (Fin s) (Fin r))) \<and>
    js_le (np_exitFee (calcNetPnl side (Fin p) (Fin q) (Fin s) (Fin r))) (np_exitFee (calcNetPnl side (Fin p) (Fin 50) (Fin s) (Fin r))) \<and>
    js_lt (np_net (calcNetPnl side (Fin p) (Fin p) (Fin s) (Fin r))) (Fin 0)"
proof -
  have e: "0 < tok side p" "tok side p < 1" using tok_pos assms by simp_all
  have x: "0 \<le> tok side q" "tok side q \<le> 1" using tok_range assms by simp_all
  have half: "tok side 50 = 1 / 2" by (cases side) (simp_all add: tok_def)
  have sh: "0 < s / tok side p" using e assms by simp
  note net = calcNetPnl_Fin [OF less_imp_neq [OF e(1), symmetric]]
  have c: "tok No p = tok Yes (100 - p)" "tok No q = tok Yes (100 - q)" by (simp_all add: tok_def)
  have "tok No p \<noteq> 0" "tok Yes (100 - p) \<noteq> 0" using assms by (simp_all add: tok_def)
  then have a: "calcNetPnl No (Fin p) (Fin q) (Fin s) (Fin r) = calcNetPnl Yes (Fin (100 - p)) (Fin (100 - q)) (Fin s) (Fin r)"
    using calcNetPnl_Fin [of No p q s r] calcNetPnl_Fin [of Yes "100 - p" "100 - q" s r] by (simp add: c)
  have g: "np_gross (calcNetPnl side (Fin p) (Fin q) (Fin s) (Fin r)) = calcPnl side (Fin p) (Fin q) (Fin s)"
    using assms by (cases side) (auto simp: calcPnl_def calcNetPnl_def token_price_def pct_def Let_def field_simps)
  have "0 < fee (s / tok side p) (tok side p) r" using sh e assms(6) by (intro fee_pos)
  then have n: "js_lt (np_net (calcNetPnl side (Fin p) (Fin p) (Fin s) (Fin r))) (Fin 0)" by (simp add: net)
  show ?thesis
    using a g n fee_bounds [of "s / tok side p" r "tok side q"] fee_bounds [of "s / tok side p" r "tok side p"] sh assms e x
    by (simp add: net half calcUnrealizedNet_def flip: calcNetPnl_def)
qed

theorem fee_model_consistent_witness: "js_lt (np_net (calcNetPnl No (Fin 40) (Fin 40) (Fin 10) (Fin (72 / 1000)))) (Fin 0)"
proof -
  have "(0 :: rat) < 40" "(40 :: rat) < 100" "(0 :: rat) \<le> 40" "(40 :: rat) \<le> 100" "(0 :: rat) < 10" "(0 :: rat) < 72 / 1000" by simp_all
  from fee_model_consistent [OF this, of No] show ?thesis by blast
qed

text \<open>The order form shows the size as the greatest loss; a trade closed at price zero loses the entry fee besides.\<close>

lemma max_loss_understated:
  assumes "0 < p" "p < 100" "ey_maxLoss (entry_preview_of Yes betSize (Fin p)) = Fin s" "0 < s"
  shows "js_lt (np_net (calcNetPnl Yes (Fin p) (Fin 0) (Fin s) POLY_FEE_RATE_CRYPTO)) (js_neg (ey_maxLoss (entry_preview_of Yes betSize (Fin p))))"
proof -
  have e: "0 < tok Yes p" "tok Yes p < 1" using tok_pos assms by simp_all
  have "0 < s / tok Yes p" using e assms by simp
  then have f: "0 < fee (s / tok Yes p) (tok Yes p) (72 / 1000)" using e by (intro fee_pos) simp_all
  have z: "tok Yes 0 = 0" by (simp add: tok_def)
  show ?thesis using f e unfolding assms(3) POLY_FEE_RATE_CRYPTO_def calcNetPnl_Fin [OF less_imp_neq [OF e(1), symmetric]]
    by (simp add: z fee_def)
qed

section \<open>Lemmas: lifetime statistics\<close>

definition record_ok :: "paper_record \<Rightarrow> bool" where
  "record_ok c = (is_fin (rc_pnl c) \<and> is_fin (rc_entryFee c) \<and> is_fin (rc_exitFee c))"

definition lifetime_ok :: "lifetime_stats \<Rightarrow> bool" where
  "lifetime_ok l = (list_all is_fin [lt_totalPnl l, lt_peakPnl l, lt_maxDrawdown l, lt_totalFees l] \<and> lt_wins l \<le> lt_count l \<and>
     fin_val (lt_totalPnl l) \<le> fin_val (lt_peakPnl l) \<and> 0 \<le> fin_val (lt_peakPnl l) \<and>
     fin_val (lt_peakPnl l) - fin_val (lt_totalPnl l) \<le> fin_val (lt_maxDrawdown l))"

lemma record_close_ok: "lifetime_ok l \<Longrightarrow> record_ok c \<Longrightarrow> lifetime_ok (record_close l c)"
  by (auto simp: lifetime_ok_def record_ok_def record_close_def Let_def is_fin_conv)

lemma record_closes_ok: "lifetime_ok l \<Longrightarrow> list_all record_ok cs \<Longrightarrow> lifetime_ok (foldl record_close l cs)"
  by (induction cs arbitrary: l) (simp_all add: record_close_ok)

lemma record_close_count: "lt_count (record_close l c) = lt_count l + 1" "lt_totalPnl (record_close l c) = js_add (lt_totalPnl l) (rc_pnl c)"
  by (simp_all add: record_close_def Let_def)

lemma record_closes_count: "lt_count (foldl record_close l cs) = lt_count l + length cs"
  by (induction cs arbitrary: l) (simp_all add: record_close_count)

lemma record_closes_total: "lt_totalPnl l = Fin t \<Longrightarrow> list_all record_ok cs \<Longrightarrow>
    lt_totalPnl (foldl record_close l cs) = Fin (t + sum_list (map (\<lambda>c. fin_val (rc_pnl c)) cs))"
  by (induction cs arbitrary: l t) (auto simp: record_close_count record_ok_def is_fin_conv)

lemma stats_steps:
  assumes "foldl stats_step (Fin pk, Fin dd, Fin c) (map Fin xs) = (a, b, z)" "c \<le> pk" "pk - c \<le> dd" "0 \<le> pk"
  shows "\<exists>pk' dd'. a = Fin pk' \<and> b = Fin dd' \<and> z = Fin (c + sum_list xs) \<and> c + sum_list xs \<le> pk' \<and> pk' - (c + sum_list xs) \<le> dd' \<and> pk \<le> pk'"
  using assms
proof (induction xs arbitrary: pk dd c)
  case (Cons x xs)
  let ?pk = "max pk (c + x)"
  let ?dd = "max dd (?pk - (c + x))"
  have s: "stats_step (Fin pk, Fin dd, Fin c) (Fin x) = (Fin ?pk, Fin ?dd, Fin (c + x))" by (auto simp: stats_step_def Let_def max_def)
  have "c + x \<le> ?pk" "?pk - (c + x) \<le> ?dd" "0 \<le> ?pk" using Cons.prems by simp_all
  from Cons.IH [OF _ this] Cons.prems(1) obtain pk' dd' where "a = Fin pk'" "b = Fin dd'" "z = Fin (c + x + sum_list xs)"
    "c + x + sum_list xs \<le> pk'" "pk' - (c + x + sum_list xs) \<le> dd'" "?pk \<le> pk'" by (auto simp: s)
  then show ?case by (intro exI [of _ pk'] exI [of _ dd']) (simp add: add.assoc)
qed auto

lemma adopt_ok:
  assumes "list_all record_ok (pa_trades s)" "lifetime_ok (pa_lifetime s)"
  shows "lifetime_ok (pa_lifetime (adopt_trades s))"
proof (cases "lt_count (pa_lifetime s) = 0 \<and> pa_trades s \<noteq> []")
  case True
  define xs where "xs = map (\<lambda>t. fin_val (rc_pnl t)) (pa_trades s)"
  have m: "map rc_pnl (pa_trades s) = map Fin xs" using assms(1) by (auto simp: xs_def list_all_iff record_ok_def)
  obtain a b c where f: "foldl stats_step (Fin 0, Fin 0, Fin 0) (map Fin xs) = (a, b, c)" by (metis prod_cases3)
  from stats_steps [OF this] obtain pk dd where d: "b = Fin dd" "0 \<le> pk" "sum_list xs \<le> pk" "pk - sum_list xs \<le> dd" by auto
  have ne: "map Fin xs \<noteq> []" using True by (simp add: xs_def)
  have len: "length xs = length (pa_trades s)" by (simp add: xs_def)
  have w: "length (filter P xs) \<le> length (pa_trades s)" for P using length_filter_le [of P xs] by (simp add: len)
  show ?thesis using True ne d unfolding adopt_trades_def m calcStats_def f
    by (auto simp: lifetime_ok_def Let_def len not_less w filter_map simp flip: map_map)
qed (use assms in \<open>auto simp: adopt_trades_def\<close>)

lemma restore_ok: "lifetime_ok (pa_lifetime s) \<Longrightarrow> lifetime_ok (pa_lifetime (restore_patch r s))"
  by (auto simp: lifetime_ok_def restore_patch_def Let_def is_fin_conv)

section \<open>Reachable states\<close>

datatype paper_op =
    Op_buy outcome string
  | Op_quick signal string
  | Op_signals "string \<Rightarrow> string" bool string
  | Op_prices
  | Op_close string
  | Op_reset
  | Op_reload
  | Op_bankroll string
  | Op_backtest bt_config

text \<open>One step at time \<open>now\<close> with the store in state \<open>st\<close>; a reload persists the state and opens the panel again.\<close>

fun paper_step :: "rat \<Rightarrow> terminal_state \<Rightarrow> paper_op \<Rightarrow> paper_state \<Rightarrow> paper_state" where
  "paper_step now st (Op_buy side bet) s = handleBuy now st side bet s"
| "paper_step now st (Op_quick sig bet) s = handleQuickSignalTrade now st sig bet s"
| "paper_step now st (Op_signals salt on bet) s = auto_signal now salt st on bet s"
| "paper_step now st Op_prices s = auto_close now st s"
| "paper_step now st (Op_close i) s = handleClose now st i s"
| "paper_step now st Op_reset s = handleReset s"
| "paper_step now st Op_reload s = open_panel (persist s)"
| "paper_step now st (Op_bankroll typed) s = setBankroll typed s"
| "paper_step now st (Op_backtest cfg) s = handleRunBacktest (ss_probHistory st) cfg s"

definition inner_prob :: "jsnum \<Rightarrow> bool" where
  "inner_prob p = (is_fin p \<and> 0 < fin_val p \<and> fin_val p < 100)"

definition prices_ok :: "terminal_state \<Rightarrow> bool" where
  "prices_ok st = ((\<forall>(k, b) \<in> set (ss_polyBooks st). inner_prob (pb_up_pct b)) \<and> (\<forall>m \<in> set (ss_markets st). inner_prob (mk_up_pct m)))"

definition position_ok :: "paper_position \<Rightarrow> bool" where
  "position_ok p = (inner_prob (pq_entryPrice p) \<and> is_fin (pq_size p))"

fun op_ok :: "paper_op \<Rightarrow> bool" where
  "op_ok (Op_buy side bet) = is_fin (bet_size bet)"
| "op_ok (Op_quick sig bet) = is_fin (bet_size bet)"
| "op_ok (Op_signals salt on bet) = is_fin (bet_size bet)"
| "op_ok _ = True"

definition paper_ok :: "paper_state \<Rightarrow> bool" where
  "paper_ok s = (list_all position_ok (pa_positions s) \<and> list_all record_ok (pa_trades s) \<and> lifetime_ok (pa_lifetime s) \<and>
     length (pa_trades s) \<le> 5000 \<and> length (pa_trades s) \<le> lt_count (pa_lifetime s))"

text \<open>
  What storage may hold at the start: counts that fit together, and numbers that are sound where the flag of the
  reachable states is to hold.  The flag says that since then, or since the last reset, every price was strictly between
  0 and 100 and every size a number.
\<close>

definition stored_counts :: "paper_storage \<Rightarrow> bool" where
  "stored_counts stored =
     (let l = opt_or (st_lifetime stored) empty_lifetime; n = length (opt_or (st_trades stored) [])
      in lt_wins l \<le> lt_count l \<and> n \<le> 5000 \<and> (lt_count l = 0 \<or> n \<le> lt_count l))"

definition stored_sound :: "paper_storage \<Rightarrow> bool" where
  "stored_sound stored = (list_all position_ok (opt_or (st_positions stored) []) \<and> list_all record_ok (opt_or (st_trades stored) []) \<and>
     lifetime_ok (opt_or (st_lifetime stored) empty_lifetime))"

inductive paper_reach :: "bool \<Rightarrow> paper_state \<Rightarrow> bool" where
  paper_first: "stored_counts stored \<Longrightarrow> paper_reach (stored_sound stored) (open_panel stored)"
| paper_next: "paper_reach b s \<Longrightarrow> paper_reach (op = Op_reset \<or> b \<and> prices_ok st \<and> op_ok op) (paper_step now st op s)"

lemma inner_Fin: "inner_prob p \<Longrightarrow> \<exists>q. p = Fin q \<and> 0 < q \<and> q < 100"
  by (auto simp: inner_prob_def is_fin_conv)

lemma current_inner: "prices_ok st \<Longrightarrow> position_ok p \<Longrightarrow> inner_prob (current_prob st p)"
  by (auto simp: prices_ok_def position_ok_def current_prob_def find_Some_iff split: option.splits dest!: map_of_SomeD)

lemma close_record_ok:
  assumes "position_ok p" "inner_prob x"
  shows "record_ok (close_record now x reason p)"
proof -
  obtain q e s where q: "x = Fin q" and e: "pq_entryPrice p = Fin e" "0 < e" "e < 100" and s: "pq_size p = Fin s"
    using assms inner_Fin by (metis is_fin_conv position_ok_def)
  have "tok (pq_side p) e \<noteq> 0" using tok_pos [OF e(2,3), of "pq_side p"] by simp
  from calcNetPnl_Fin [OF this] show ?thesis by (simp add: close_record_def record_ok_def Let_def q e s POLY_FEE_RATE_CRYPTO_def)
qed

lemma add_records_ok: "paper_ok s \<Longrightarrow> list_all record_ok cs \<Longrightarrow> paper_ok (add_records cs s)"
  by (auto simp: paper_ok_def add_records_def record_closes_ok record_closes_count list_all_iff dest: in_set_takeD)

lemma paper_ok_positions: "paper_ok s \<Longrightarrow> list_all position_ok ps \<Longrightarrow> paper_ok (s\<lparr>pa_positions := ps\<rparr>)"
  by (simp add: paper_ok_def)

lemma active_inner: "prices_ok st \<Longrightarrow> active_market st = Some (k, m, ep) \<Longrightarrow> inner_prob ep"
  by (auto simp: prices_ok_def active_market_def find_Some_iff split: option.splits if_split_asm dest!: map_of_SomeD)

lemma add_position_ok: "paper_ok s \<Longrightarrow> prices_ok st \<Longrightarrow> active_market st = Some am \<Longrightarrow> is_fin (bet_size bet) \<Longrightarrow>
    paper_ok (add_position (new_position now i side model source bet am) s)"
  using active_inner [of st] by (cases am) (auto simp: paper_ok_def add_position_def new_position_def position_ok_def)

lemma seen_ok: "paper_ok (s\<lparr>pa_seen := x\<rparr>) = paper_ok s"
  by (simp add: paper_ok_def)

lemma auto_signal_ok: "paper_ok s \<Longrightarrow> prices_ok st \<Longrightarrow> is_fin (bet_size bet) \<Longrightarrow> paper_ok (auto_signal now salt st on bet s)"
proof -
  assume *: "paper_ok s" "prices_ok st" "is_fin (bet_size bet)"
  have "paper_ok (foldl (\<lambda>s sig. if signal_key sig \<in> set (pa_seen s) then s
      else add_position (new_position now (''sig_'' @ jsnum_string (Fin now) @ ''_'' @ salt (signal_key sig)) (signal_side sig)
        (Some (sg_model sig)) Src_signal bet am) (s\<lparr>pa_seen := signal_key sig # pa_seen s\<rparr>)) s sigs)"
    if "active_market st = Some am" "paper_ok s" for am sigs s
    using that(2)
  proof (induction sigs arbitrary: s)
    case (Cons sig sigs)
    have "paper_ok (add_position (new_position now (''sig_'' @ jsnum_string (Fin now) @ ''_'' @ salt (signal_key sig)) (signal_side sig)
        (Some (sg_model sig)) Src_signal bet am) (s\<lparr>pa_seen := signal_key sig # pa_seen s\<rparr>))"
      by (rule add_position_ok [OF _ *(2) that(1) *(3)]) (simp add: seen_ok Cons.prems)
    then show ?case using Cons by simp
  qed simp
  then show ?thesis using *(1) by (auto simp: auto_signal_def split: option.split)
qed

lemma auto_closed_ok: "prices_ok st \<Longrightarrow> list_all position_ok ps \<Longrightarrow> list_all record_ok (auto_closed now st ps)"
  by (auto simp: auto_closed_def list_all_iff current_inner intro!: close_record_ok split: option.splits)

lemma auto_close_ok: "paper_ok s \<Longrightarrow> prices_ok st \<Longrightarrow> paper_ok (auto_close now st s)"
proof -
  assume *: "paper_ok s" "prices_ok st"
  have ps: "list_all position_ok (pa_positions s)" using *(1) by (simp add: paper_ok_def)
  have f: "list_all position_ok (filter P (pa_positions s))" for P using ps by (simp add: list_all_iff)
  show ?thesis using *(1) paper_ok_positions [OF add_records_ok [OF *(1) auto_closed_ok [OF *(2) ps]] f]
    by (simp add: auto_close_def Let_def)
qed

lemma handleClose_ok: "paper_ok s \<Longrightarrow> prices_ok st \<Longrightarrow> paper_ok (handleClose now st i s)"
proof (cases "List.find (\<lambda>p. pq_id p = i) (pa_positions s)")
  case (Some pos)
  assume *: "paper_ok s" "prices_ok st"
  have ps: "list_all position_ok (pa_positions s)" using *(1) by (simp add: paper_ok_def)
  have f: "list_all position_ok (filter P (pa_positions s))" for P using ps by (simp add: list_all_iff)
  have "position_ok pos" using Some ps by (auto simp: find_Some_iff list_all_length)
  then have "list_all record_ok [close_record now (current_prob st pos) Exit_manual pos]"
    using close_record_ok current_inner [OF *(2)] by simp
  from paper_ok_positions [OF add_records_ok [OF *(1) this] f] show ?thesis by (simp add: handleClose_def Some)
qed (simp add: handleClose_def)

lemma paper_ok_other [simp]: "paper_ok (s\<lparr>pa_bankroll := b\<rparr>) = paper_ok s" "paper_ok (s\<lparr>pa_result := r\<rparr>) = paper_ok s"
  by (simp_all add: paper_ok_def)

lemma normalize_position_ok [simp]: "position_ok (normalize_position p) = position_ok p"
  by (simp add: position_ok_def normalize_position_def)

lemma stored_num_fin [simp]: "is_fin x \<Longrightarrow> stored_num x = x" "is_fin (stored_num x)"
  by (simp_all add: stored_num_def)

lemma stored_ok: "position_ok p \<Longrightarrow> position_ok (stored_position p)" "record_ok (stored_record c)"
    "lifetime_ok l \<Longrightarrow> stored_lifetime l = l"
  by (simp_all add: position_ok_def inner_prob_def stored_position_def record_ok_def stored_record_def stored_lifetime_def lifetime_ok_def)

lemma reload_parts:
  assumes "length (pa_trades s) \<le> lt_count (pa_lifetime s)"
  shows "pa_lifetime (open_panel (persist s)) = stored_lifetime (pa_lifetime s)"
    "pa_trades (open_panel (persist s)) =
      map (\<lambda>t. t\<lparr>rc_position := normalize_position (rc_position t)\<rparr>) (map stored_record (pa_trades s))"
    "pa_positions (open_panel (persist s)) = map normalize_position (map stored_position (pa_positions s))"
  using assms by (auto simp: open_panel_def persist_def restore_patch_def adopt_trades_def opt_or.simps stored_lifetime_def)

lemma reload_ok: "paper_ok s \<Longrightarrow> paper_ok (open_panel (persist s))"
  using reload_parts [of s] stored_ok by (auto simp: paper_ok_def list_all_iff record_ok_def)

text \<open>The counts fit together whatever the numbers are.\<close>

definition counts_ok :: "paper_state \<Rightarrow> bool" where
  "counts_ok s = (lt_wins (pa_lifetime s) \<le> lt_count (pa_lifetime s) \<and> length (pa_trades s) \<le> 5000 \<and>
     length (pa_trades s) \<le> lt_count (pa_lifetime s))"

lemma record_closes_wins: "lt_wins l \<le> lt_count l \<Longrightarrow> lt_wins (foldl record_close l cs) \<le> lt_count (foldl record_close l cs)"
  by (induction cs arbitrary: l) (simp_all add: record_close_def Let_def)

lemma add_records_counts: "counts_ok s \<Longrightarrow> counts_ok ((add_records cs s)\<lparr>pa_positions := ps\<rparr>)"
  using record_closes_wins [of "pa_lifetime s" cs] by (auto simp: counts_ok_def add_records_def record_closes_count min_def)

lemma add_position_counts: "counts_ok (add_position p s) = counts_ok s" "counts_ok (s\<lparr>pa_seen := x\<rparr>) = counts_ok s"
    "counts_ok (s\<lparr>pa_bankroll := y\<rparr>) = counts_ok s" "counts_ok (s\<lparr>pa_result := z\<rparr>) = counts_ok s"
  by (simp_all add: counts_ok_def add_position_def)

lemma signal_counts: "counts_ok s \<Longrightarrow> counts_ok (foldl (\<lambda>s sig. if P s sig then s else add_position (f sig) (s\<lparr>pa_seen := g s sig\<rparr>)) s sigs)"
  by (induction sigs arbitrary: s) (simp_all add: add_position_counts)

lemma step_counts: "counts_ok s \<Longrightarrow> counts_ok (paper_step now st op s)"
proof (cases op)
  case Op_reset
  then show ?thesis by (simp add: counts_ok_def handleReset_def empty_lifetime_def)
next
  case Op_reload
  assume "counts_ok s"
  then show ?thesis using reload_parts [of s] by (simp add: Op_reload counts_ok_def stored_lifetime_def)
qed (auto simp: handleBuy_def handleQuickSignalTrade_def auto_signal_def auto_close_def handleClose_def setBankroll_def handleRunBacktest_def
    Let_def add_position_counts intro!: add_records_counts signal_counts split: option.split)

lemma first_counts: "stored_counts stored \<Longrightarrow> counts_ok (open_panel stored)"
proof -
  assume *: "stored_counts stored"
  have w: "sx_wins (calcStats xs) \<le> length xs" for xs by (simp add: calcStats_def Let_def split_beta)
  have "sx_wins (calcStats (map f ts)) \<le> length ts" for f and ts :: "paper_record list" using w [of "map f ts"] by simp
  then show ?thesis
    using * by (auto simp: counts_ok_def stored_counts_def open_panel_def adopt_trades_def restore_patch_def Let_def)
qed

lemma backtest_kept [simp]: "paper_ok (handleRunBacktest ph cfg s) = paper_ok s"
  by (simp add: handleRunBacktest_def split: option.split)

lemma empty_ok: "lifetime_ok empty_lifetime"
  by (simp add: lifetime_ok_def empty_lifetime_def)

lemma paper_step_ok:
  assumes "paper_ok s" "prices_ok st" "op_ok op"
  shows "paper_ok (paper_step now st op s)"
proof (cases op)
  case Op_reset
  then show ?thesis using empty_ok by (simp add: handleReset_def paper_ok_def)
qed (use assms in \<open>auto simp: auto_signal_ok auto_close_ok handleClose_ok reload_ok setBankroll_def handleBuy_def handleQuickSignalTrade_def
    intro!: add_position_ok split: option.split\<close>)

lemma first_ok: "stored_counts stored \<Longrightarrow> stored_sound stored \<Longrightarrow> paper_ok (open_panel stored)"
proof -
  assume *: "stored_counts stored" "stored_sound stored"
  let ?s = "\<lparr>pa_positions = map normalize_position (opt_or (st_positions stored) []),
      pa_trades = map (\<lambda>t. t\<lparr>rc_position := normalize_position (rc_position t)\<rparr>) (opt_or (st_trades stored) []),
      pa_lifetime = opt_or (st_lifetime stored) empty_lifetime, pa_seen = [],
      pa_bankroll = opt_or (st_bankroll stored) (Fin 1000), pa_result = None\<rparr>"
  have "list_all record_ok (pa_trades ?s)" "lifetime_ok (pa_lifetime ?s)" "list_all position_ok (pa_positions ?s)"
    using *(2) by (auto simp: stored_sound_def list_all_iff record_ok_def)
  then have "lifetime_ok (pa_lifetime (open_panel stored)) \<and> list_all record_ok (pa_trades (open_panel stored)) \<and>
      list_all position_ok (pa_positions (open_panel stored))"
    using restore_ok [OF adopt_ok [of ?s]] by (simp add: open_panel_def restore_patch_def adopt_trades_def Let_def)
  then show ?thesis using first_counts [OF *(1)] by (simp add: paper_ok_def counts_ok_def)
qed

lemma reset_ok: "paper_ok (handleReset s)"
  using empty_ok by (simp add: handleReset_def paper_ok_def)

lemma paper_reach_ok: "paper_reach b s \<Longrightarrow> counts_ok s \<and> (b \<longrightarrow> paper_ok s)"
proof (induction rule: paper_reach.induct)
  case (paper_first stored)
  then show ?case using first_counts first_ok by blast
next
  case (paper_next b s op st now)
  then show ?case using step_counts paper_step_ok reset_ok by fastforce
qed

text \<open>
  C32. However positions are opened and closed, by hand, by signals or by the thresholds, at any prices and sizes, on any
  stored state whose counts fit together: no more wins than closed trades are counted, and the list of trades is bounded
  and covered by the count.  While every price has been strictly between 0 and 100 and every size a number since a sound
  start or a reset, the statistics are finite, the peak is at or above the total, the drawdown covers the distance
  between them, and opening the panel again on the stored state gives the same statistics.
\<close>
theorem paper_lifetime_consistent:
  assumes "paper_reach sound s"
  defines "l \<equiv> pa_lifetime s"
  shows "lt_wins l \<le> lt_count l \<and> length (pa_trades s) \<le> min 5000 (lt_count l) \<and>
    (sound \<longrightarrow> (\<exists>t p d. lt_totalPnl l = Fin t \<and> lt_peakPnl l = Fin p \<and> lt_maxDrawdown l = Fin d \<and> t \<le> p \<and> 0 \<le> p \<and> p - t \<le> d) \<and>
      pa_lifetime (open_panel (persist s)) = l)"
proof -
  have c: "counts_ok s" and ok: "sound \<longrightarrow> paper_ok s" using paper_reach_ok [OF assms(1)] by simp_all
  have "pa_lifetime (open_panel (persist s)) = l" if sound
    using that ok reload_parts stored_ok(3) by (simp add: paper_ok_def l_def)
  moreover have "\<exists>t p d. lt_totalPnl l = Fin t \<and> lt_peakPnl l = Fin p \<and> lt_maxDrawdown l = Fin d \<and> t \<le> p \<and> 0 \<le> p \<and> p - t \<le> d" if sound
    using that ok by (auto simp: paper_ok_def lifetime_ok_def l_def is_fin_conv)
  ultimately show ?thesis using c by (simp add: counts_ok_def l_def)
qed

definition no_storage :: paper_storage where
  "no_storage = \<lparr>st_positions = None, st_trades = None, st_lifetime = None, st_bankroll = None, st_restored = False\<rparr>"

lemma first_visit: "paper_reach True (open_panel no_storage)"
  using paper_first [of no_storage] empty_ok by (simp add: stored_counts_def stored_sound_def no_storage_def empty_lifetime_def)

definition one_market :: terminal_state where
  "one_market = initial_state\<lparr>ss_markets := [market ''BTC_5min'' ''BTC'' TF_5min ''c1'' 60 True []], ss_activeMarketKey := Some ''BTC_5min''\<rparr>"

definition bought :: paper_state where
  "bought = handleBuy 7 one_market Yes ''10'' (open_panel no_storage)"

lemma ten: "bet_size ''10'' = Fin 10"
  by code_simp

lemma one_market_ok: "prices_ok one_market"
  by (simp add: prices_ok_def one_market_def initial_state_def market_def inner_prob_def is_fin_conv)

lemma bought_reach: "paper_reach True bought"
  using paper_next [OF first_visit, of "Op_buy Yes ''10''" one_market 7] one_market_ok by (simp add: ten bought_def is_fin_conv)

lemma bought_position: "map pq_id (pa_positions bought) = [''manual_7'']" "lt_totalPnl (pa_lifetime bought) = Fin 33820"
  by code_simp+

text \<open>A first trade, closed at a loss of its two fees.\<close>

definition closed_again :: paper_state where
  "closed_again = handleClose 9 one_market ''manual_7'' bought"

lemma closed_again_reach: "paper_reach True closed_again"
  using paper_next [OF bought_reach, of "Op_close ''manual_7''" one_market 9] one_market_ok by (simp add: closed_again_def)

lemma closed_again_parts: "lt_count (pa_lifetime closed_again) = 1" "lt_wins (pa_lifetime closed_again) = 0" "length (pa_trades closed_again) = 1"
  by code_simp+

theorem paper_lifetime_consistent_witness:
  "lt_count (pa_lifetime closed_again) = 1 \<and> pa_lifetime (open_panel (persist closed_again)) = pa_lifetime closed_again"
  using paper_lifetime_consistent [OF closed_again_reach] closed_again_parts by blast

text \<open>A browser without storage starts with the profit of the restoration patch and no trade.\<close>

lemma first_visit_profit: "lt_totalPnl (pa_lifetime (open_panel no_storage)) = Fin 33820 \<and> lt_count (pa_lifetime (open_panel no_storage)) = 0"
  by (simp add: open_panel_def no_storage_def adopt_trades_def restore_patch_def empty_lifetime_def Let_def)

section \<open>Closing\<close>

lemma auto_closed_positions: "map rc_position (auto_closed now st ps) = filter (\<lambda>p. auto_exit st p \<noteq> None) ps"
  by (induction ps) (auto simp: auto_closed_def close_record_def Let_def split: option.split)

lemma add_records_parts: "pa_positions (add_records cs s) = pa_positions s" "pa_trades (add_records cs s) = take 5000 (cs @ pa_trades s)"
    "pa_lifetime (add_records cs s) = foldl record_close (pa_lifetime s) cs"
  by (simp_all add: add_records_def)

lemma auto_close_parts:
  fixes now :: rat and st :: terminal_state
  assumes "length (pa_trades s) \<le> 5000"
  defines "cs \<equiv> auto_closed now st (pa_positions s)"
  shows "pa_positions (auto_close now st s) = filter (\<lambda>p. auto_exit st p = None) (pa_positions s)"
    "pa_trades (auto_close now st s) = take 5000 (cs @ pa_trades s)"
    "pa_lifetime (auto_close now st s) = foldl record_close (pa_lifetime s) cs"
proof -
  have "filter (\<lambda>p. auto_exit st p = None) (pa_positions s) = pa_positions s" if "cs = []"
    using that arg_cong [OF auto_closed_positions [of now st "pa_positions s"], of set] by (auto simp: cs_def filter_id_conv)
  then show "pa_positions (auto_close now st s) = filter (\<lambda>p. auto_exit st p = None) (pa_positions s)"
    "pa_trades (auto_close now st s) = take 5000 (cs @ pa_trades s)"
    "pa_lifetime (auto_close now st s) = foldl record_close (pa_lifetime s) cs"
    using assms(1) by (simp_all add: auto_close_def Let_def add_records_parts flip: cs_def)
qed

lemma mset_remove_id:
  "distinct (map pq_id ps) \<Longrightarrow> p \<in> set ps \<Longrightarrow> mset ps = add_mset p (mset (filter (\<lambda>q. pq_id q \<noteq> pq_id p) ps))"
proof (induction ps)
  case (Cons q ps)
  show ?case
  proof (cases "p = q")
    case True
    then have "filter (\<lambda>r. pq_id r \<noteq> pq_id q) ps = ps" using Cons.prems(1) by (auto simp: filter_id_conv image_iff)
    then show ?thesis using True by simp
  next
    case False
    then have "p \<in> set ps" using Cons.prems(2) by simp
    moreover from this have "pq_id q \<noteq> pq_id p" using Cons.prems(1) by (auto simp: image_iff)
    ultimately show ?thesis using Cons by (simp add: add_mset_commute)
  qed
qed simp

lemma find_id: "distinct (map pq_id ps) \<Longrightarrow> p \<in> set ps \<Longrightarrow> List.find (\<lambda>q. pq_id q = pq_id p) ps = Some p"
  by (induction ps) (auto simp: image_iff)

lemma record_closes_sum: "lt_totalPnl (foldl record_close l cs) = foldl js_add (lt_totalPnl l) (map rc_pnl cs)"
  by (induction cs arbitrary: l) (simp_all add: record_close_count)

text \<open>
  C31. Nothing is lost when positions close.  The positions at a threshold leave the open positions, each becomes one record at
  the head of the trades, the count grows by their number and their net results are added to the total one by one, and no
  position that stays open is at a threshold.  A close by hand records the first position with its identifier and takes
  away those with that identifier: only this one, as long as the identifiers are distinct.
\<close>
theorem closing_conserves:
  fixes now :: rat and st :: terminal_state and sound s i pos
  assumes "paper_reach sound s" "List.find (\<lambda>p. pq_id p = i) (pa_positions s) = Some pos"
  defines "cs \<equiv> auto_closed now st (pa_positions s)" and "s' \<equiv> auto_close now st s"
    and "c \<equiv> close_record now (current_prob st pos) Exit_manual pos" and "s'' \<equiv> handleClose now st i s"
  shows "mset (pa_positions s) = mset (pa_positions s') + mset (map rc_position cs) \<and> pa_trades s' = take 5000 (cs @ pa_trades s) \<and>
    lt_count (pa_lifetime s') = lt_count (pa_lifetime s) + length cs \<and>
    lt_totalPnl (pa_lifetime s') = foldl js_add (lt_totalPnl (pa_lifetime s)) (map rc_pnl cs) \<and>
    (\<forall>p \<in> set (pa_positions s'). auto_exit st p = None) \<and>
    pa_positions s'' = filter (\<lambda>p. pq_id p \<noteq> i) (pa_positions s) \<and> pa_trades s'' = take 5000 (c # pa_trades s) \<and>
    lt_count (pa_lifetime s'') = lt_count (pa_lifetime s) + 1 \<and> lt_totalPnl (pa_lifetime s'') = js_add (lt_totalPnl (pa_lifetime s)) (rc_pnl c) \<and>
    (distinct (map pq_id (pa_positions s)) \<longrightarrow> mset (pa_positions s) = add_mset pos (mset (pa_positions s'')))"
proof -
  have len: "length (pa_trades s) \<le> 5000" using paper_reach_ok [OF assms(1)] by (simp add: counts_ok_def)
  note a = auto_close_parts [OF len, of now st, folded cs_def s'_def]
  have m: "mset (pa_positions s) = mset (pa_positions s') + mset (map rc_position cs)"
    unfolding a(1) cs_def auto_closed_positions by (simp add: multiset_partition)
  have pos: "pos \<in> set (pa_positions s)" "pq_id pos = i" using assms(2) by (auto simp: find_Some_iff)
  have h: "s'' = (add_records [c] s)\<lparr>pa_positions := filter (\<lambda>p. pq_id p \<noteq> i) (pa_positions s)\<rparr>"
    using assms(2) by (simp add: s''_def handleClose_def c_def)
  have r: "mset (pa_positions s) = add_mset pos (mset (pa_positions s''))" if "distinct (map pq_id (pa_positions s))"
    using mset_remove_id [OF that pos(1)] by (simp add: h pos(2))
  show ?thesis
    using m a r by (simp add: h add_records_parts record_closes_count record_close_count record_closes_sum)
qed

theorem closing_conserves_witness: "lt_count (pa_lifetime closed_again) = lt_count (pa_lifetime bought) + 1 \<and> pa_positions closed_again = []"
proof -
  obtain p where p: "pa_positions bought = [p]" "pq_id p = ''manual_7''" using bought_position(1) by auto
  then have "List.find (\<lambda>p. pq_id p = ''manual_7'') (pa_positions bought) = Some p" by simp
  from closing_conserves [OF bought_reach this, of 9 one_market] show ?thesis by (simp add: closed_again_def p)
qed

text \<open>Two positions bought in the same millisecond share an identifier: closing one removes both and records one.\<close>

lemma same_millisecond:
  "map pq_id (pa_positions (handleBuy 7 one_market No ''20'' bought)) = [''manual_7'', ''manual_7''] \<and>
   pa_positions (handleClose 9 one_market ''manual_7'' (handleBuy 7 one_market No ''20'' bought)) = [] \<and>
   length (pa_trades (handleClose 9 one_market ''manual_7'' (handleBuy 7 one_market No ''20'' bought))) = 1"
  by code_simp

text \<open>A YES token bought at price zero has infinitely many shares; once closed, the lifetime total is no number, and stays so.\<close>

lemma record_closes_NaN: "lt_totalPnl l = NaN \<Longrightarrow> lt_totalPnl (foldl record_close l cs) = NaN"
  by (induction cs arbitrary: l) (simp_all add: record_close_count)

lemma zero_price_poisons:
  assumes "pq_side p = Yes" "pq_entryPrice p = Fin 0" "pq_size p = Fin s"
  shows "auto_exit st p = None \<and> lt_totalPnl (foldl record_close (record_close l (close_record now x reason p)) cs) = NaN"
proof -
  have n: "np_net (calcNetPnl Yes (Fin 0) y (Fin s) POLY_FEE_RATE_CRYPTO) = NaN" for y
    by (simp add: calcNetPnl_def token_price_def pct_def calcFee_def Let_def POLY_FEE_RATE_CRYPTO_def inf_of_sign_def)
  then show ?thesis using assms
    by (auto simp: auto_exit_def close_record_def Let_def record_close_count intro!: record_closes_NaN)
qed

section \<open>Lemmas: backtest\<close>

definition entered :: "bt_config \<Rightarrow> prob_point list \<Rightarrow> nat \<Rightarrow> nat \<Rightarrow> paper_position \<Rightarrow> bool" where
  "entered cfg history n e pos =
     (1 \<le> e \<and> e < length history \<and> entry_of cfg history e = Some (pq_side pos) \<and> pq_id pos = ''bt_'' @ jsnum_string (Fin (of_nat n)) \<and>
      pq_entryPrice pos = pp_up_pct (history ! e) \<and> pq_entryTime pos = pp_ts (history ! e) \<and> pq_size pos = bc_tradeSize cfg \<and>
      pq_source pos = Src_backtest)"

text \<open>Trade number \<open>n\<close>, entered at index \<open>e\<close> and left at the first index \<open>x\<close> where the rule says so, or at the end.\<close>

definition bt_trade :: "bt_config \<Rightarrow> prob_point list \<Rightarrow> nat \<Rightarrow> paper_record \<Rightarrow> nat \<times> nat \<Rightarrow> bool" where
  "bt_trade cfg history n t = (\<lambda>(e, x).
     let pos = rc_position t; pt = history ! x
     in entered cfg history n e pos \<and> e \<le> x \<and> x < length history \<and> rc_exitPrice t = pp_up_pct pt \<and> rc_exitTime t = pp_ts pt \<and>
        rc_pnl t = calcPnl (pq_side pos) (pq_entryPrice pos) (pp_up_pct pt) (pq_size pos) \<and>
        (\<forall>j. e < j \<and> j < x \<longrightarrow> exit_of cfg (pp_up_pct (history ! j)) pos = None) \<and>
        (e < x \<and> exit_of cfg (pp_up_pct pt) pos = Some (rc_reason t) \<or> x = length history - 1 \<and> rc_reason t = Exit_rollover))"

definition bt_trades :: "bt_config \<Rightarrow> prob_point list \<Rightarrow> paper_record list \<Rightarrow> (nat \<times> nat) list \<Rightarrow> bool" where
  "bt_trades cfg history ts ixs =
     (length ts = length ixs \<and> (\<forall>k < length ts. bt_trade cfg history (k + 1) (ts ! k) (ixs ! k)) \<and> sorted_wrt (\<lambda>(e, x) (e', x'). x \<le> e') ixs)"

text \<open>At index \<open>j\<close> a position is held: one is entered there, or one entered before is not yet left by a rule.\<close>

definition held :: "paper_record list \<Rightarrow> (nat \<times> nat) list \<Rightarrow> nat \<Rightarrow> bool" where
  "held ts ixs j = list_ex (\<lambda>(t, e, x). e \<le> j \<and> (j < x \<or> j = e \<or> j = x \<and> rc_reason t = Exit_rollover)) (zip ts ixs)"

text \<open>The state at index \<open>i\<close>, when the entries before index \<open>g\<close> have been decided.\<close>

definition bt_inv :: "bt_config \<Rightarrow> prob_point list \<Rightarrow> nat \<Rightarrow> nat \<Rightarrow> bt_state \<Rightarrow> bool" where
  "bt_inv cfg history i g s =
     (bx_equity s = equity_from (Fin 0) (bx_trades s) \<and> bx_cumPnl s = js_sum (map rc_pnl (bx_trades s)) \<and>
      (\<exists>ixs. bt_trades cfg history (bx_trades s) ixs \<and> (\<forall>(e, x) \<in> set ixs. x < i) \<and>
         (case bx_open s of
            None \<Rightarrow> bx_n s = length (bx_trades s) \<and>
              (\<forall>j. 1 \<le> j \<and> j < g \<and> entry_of cfg history j \<noteq> None \<longrightarrow> held (bx_trades s) ixs j)
          | Some pos \<Rightarrow> bx_n s = length (bx_trades s) + 1 \<and> (\<exists>e. entered cfg history (bx_n s) e pos \<and> e < i \<and> (\<forall>(e', x) \<in> set ixs. x \<le> e) \<and>
              (\<forall>j. e < j \<and> j < i \<longrightarrow> exit_of cfg (pp_up_pct (history ! j)) pos = None) \<and>
              (\<forall>j. 1 \<le> j \<and> j < g \<and> entry_of cfg history j \<noteq> None \<longrightarrow> e \<le> j \<or> held (bx_trades s) ixs j)))))"

lemma equity_from_snoc: "equity_from c (ts @ [t]) = equity_from c ts @ [(rc_exitTime t, js_add (foldl js_add c (map rc_pnl ts)) (rc_pnl t))]"
  by (induction ts arbitrary: c) (simp_all add: Let_def)

lemma bt_trades_snoc:
  assumes "bt_trades cfg history ts ixs" "bt_trade cfg history (length ts + 1) t (e, x)" "\<forall>(e', x') \<in> set ixs. x' \<le> e"
  shows "bt_trades cfg history (ts @ [t]) (ixs @ [(e, x)])"
  using assms by (auto simp: bt_trades_def nth_append less_Suc_eq sorted_wrt_append)

lemma held_snoc: "length ts = length ixs \<Longrightarrow> held (ts @ [t]) (ixs @ [(e, x)]) j \<longleftrightarrow>
    held ts ixs j \<or> e \<le> j \<and> (j < x \<or> j = e \<or> j = x \<and> rc_reason t = Exit_rollover)"
  by (simp add: held_def)

lemma bt_close:
  assumes "bt_inv cfg history i g s" "bx_open s = Some pos" "x < length history" "g \<le> i"
    "i = Suc x \<and> reason = Exit_rollover \<and> x = length history - 1 \<or> i = x \<and> exit_of cfg (pp_up_pct (history ! x)) pos = Some reason"
  shows "bt_inv cfg history (Suc x) g (closeAt (history ! x) reason s) \<and> bx_open (closeAt (history ! x) reason s) = None"
proof -
  obtain ixs e where ix: "bt_trades cfg history (bx_trades s) ixs" "\<forall>(e, x) \<in> set ixs. x < i" and n: "bx_n s = length (bx_trades s) + 1"
    and e: "entered cfg history (bx_n s) e pos" "e < i" "\<forall>(e', x) \<in> set ixs. x \<le> e"
      "\<forall>j. e < j \<and> j < i \<longrightarrow> exit_of cfg (pp_up_pct (history ! j)) pos = None"
    and g: "\<forall>j. 1 \<le> j \<and> j < g \<and> entry_of cfg history j \<noteq> None \<longrightarrow> e \<le> j \<or> held (bx_trades s) ixs j"
    using assms(1,2) by (auto simp: bt_inv_def)
  define t where "t = \<lparr>rc_position = pos, rc_exitPrice = pp_up_pct (history ! x), rc_exitTime = pp_ts (history ! x),
      rc_grossPnl = calcPnl (pq_side pos) (pq_entryPrice pos) (pp_up_pct (history ! x)) (pq_size pos), rc_entryFee = Fin 0, rc_exitFee = Fin 0,
      rc_pnl = calcPnl (pq_side pos) (pq_entryPrice pos) (pp_up_pct (history ! x)) (pq_size pos), rc_reason = reason\<rparr>"
  have "bt_trade cfg history (length (bx_trades s) + 1) t (e, x)"
    using e assms(3,5) n by (auto simp: bt_trade_def t_def Let_def)
  from bt_trades_snoc [OF ix(1) this e(3)] have b: "bt_trades cfg history (bx_trades s @ [t]) (ixs @ [(e, x)])" .
  have l: "\<forall>(e, x') \<in> set (ixs @ [(e, x)]). x' < Suc x" using ix(2) assms(5) by auto
  have len: "length (bx_trades s) = length ixs" using ix(1) by (simp add: bt_trades_def)
  have h: "\<forall>j. 1 \<le> j \<and> j < g \<and> entry_of cfg history j \<noteq> None \<longrightarrow> held (bx_trades s @ [t]) (ixs @ [(e, x)]) j"
    unfolding held_snoc [OF len] using g assms(4,5) by (fastforce simp: t_def)
  have c: "closeAt (history ! x) reason s = s\<lparr>bx_trades := bx_trades s @ [t], bx_cumPnl := js_add (bx_cumPnl s) (rc_pnl t),
      bx_equity := bx_equity s @ [(pp_ts (history ! x), js_add (bx_cumPnl s) (rc_pnl t))], bx_open := None\<rparr>"
    by (simp add: closeAt_def assms(2) t_def Let_def)
  have eq: "bx_equity s = equity_from (Fin 0) (bx_trades s)" "bx_cumPnl s = js_sum (map rc_pnl (bx_trades s))"
    using assms(1) by (simp_all add: bt_inv_def)
  have "rc_exitTime t = pp_ts (history ! x)" by (simp add: t_def)
  then show ?thesis
    unfolding c bt_inv_def using b l h n eq
    by (intro conjI exI [of _ "ixs @ [(e, x)]"]) (simp_all add: equity_from_snoc js_sum_def del: set_append)
qed

lemma bt_open:
  assumes "bt_inv cfg history (Suc i) i s" "bx_open s = None" "entry_of cfg history i = Some side" "1 \<le> i" "i < length history"
  shows "bt_inv cfg history (Suc i) (Suc i) (openAt cfg (history ! i) side s)"
proof -
  obtain ixs where ix: "bt_trades cfg history (bx_trades s) ixs" "\<forall>(e, x) \<in> set ixs. x < Suc i" and n: "bx_n s = length (bx_trades s)"
    and g: "\<forall>j. 1 \<le> j \<and> j < i \<and> entry_of cfg history j \<noteq> None \<longrightarrow> held (bx_trades s) ixs j"
    using assms(1,2) by (auto simp: bt_inv_def)
  have "\<forall>j. 1 \<le> j \<and> j < Suc i \<and> entry_of cfg history j \<noteq> None \<longrightarrow> i \<le> j \<or> held (bx_trades s) ixs j"
    using g by (auto simp: less_Suc_eq)
  then show ?thesis using assms ix n
    by (auto simp: bt_inv_def openAt_def Let_def entered_def less_Suc_eq_le intro!: exI [of _ ixs] exI [of _ i])
qed

lemma bt_inv_open:
  assumes "bt_inv cfg history i g s" "bx_open s = Some pos"
  obtains ixs e where "bt_trades cfg history (bx_trades s) ixs" "\<forall>(e, x) \<in> set ixs. x < i" "bx_n s = length (bx_trades s) + 1"
    "entered cfg history (bx_n s) e pos" "e < i" "\<forall>(e', x) \<in> set ixs. x \<le> e"
    "\<forall>j. e < j \<and> j < i \<longrightarrow> exit_of cfg (pp_up_pct (history ! j)) pos = None"
    "\<forall>j. 1 \<le> j \<and> j < g \<and> entry_of cfg history j \<noteq> None \<longrightarrow> e \<le> j \<or> held (bx_trades s) ixs j"
  using assms by (auto simp: bt_inv_def)

lemma bt_inv_openI:
  assumes "bx_equity s = equity_from (Fin 0) (bx_trades s)" "bx_cumPnl s = js_sum (map rc_pnl (bx_trades s))" "bx_open s = Some pos"
    "bt_trades cfg history (bx_trades s) ixs" "\<forall>(e, x) \<in> set ixs. x < i" "bx_n s = length (bx_trades s) + 1"
    "entered cfg history (bx_n s) e pos" "e < i" "\<forall>(e', x) \<in> set ixs. x \<le> e"
    "\<forall>j. e < j \<and> j < i \<longrightarrow> exit_of cfg (pp_up_pct (history ! j)) pos = None"
    "\<forall>j. 1 \<le> j \<and> j < g \<and> entry_of cfg history j \<noteq> None \<longrightarrow> e \<le> j \<or> held (bx_trades s) ixs j"
  shows "bt_inv cfg history i g s"
  unfolding bt_inv_def assms(3) option.case by (intro conjI exI [of _ ixs] exI [of _ e] assms)

lemma bt_inv_flat:
  assumes "bx_open s = None"
  shows "bt_inv cfg history i g s \<longleftrightarrow> bx_equity s = equity_from (Fin 0) (bx_trades s) \<and> bx_cumPnl s = js_sum (map rc_pnl (bx_trades s)) \<and>
    (\<exists>ixs. bt_trades cfg history (bx_trades s) ixs \<and> (\<forall>(e, x) \<in> set ixs. x < i) \<and> bx_n s = length (bx_trades s) \<and>
      (\<forall>j. 1 \<le> j \<and> j < g \<and> entry_of cfg history j \<noteq> None \<longrightarrow> held (bx_trades s) ixs j))"
  by (simp add: bt_inv_def assms)

lemma bt_inv_sums: "bt_inv cfg history i g s \<Longrightarrow>
    bx_equity s = equity_from (Fin 0) (bx_trades s) \<and> bx_cumPnl s = js_sum (map rc_pnl (bx_trades s))"
  by (simp add: bt_inv_def)

lemma later_index: "\<forall>(e, x) \<in> set ixs. x < (i :: nat) \<Longrightarrow> \<forall>(e, x) \<in> set ixs. x < Suc i"
  by auto

lemma bt_inv_mono:
  assumes "bt_inv cfg history i g s" "\<And>pos. bx_open s = Some pos \<Longrightarrow> exit_of cfg (pp_up_pct (history ! i)) pos = None"
  shows "bt_inv cfg history (Suc i) g s"
proof (cases "bx_open s")
  case None
  show ?thesis using assms(1) later_index unfolding bt_inv_flat [OF None] by blast
next
  case (Some pos)
  from assms(1) this obtain ixs e where *: "bt_trades cfg history (bx_trades s) ixs" "\<forall>(e, x) \<in> set ixs. x < i" "bx_n s = length (bx_trades s) + 1"
    "entered cfg history (bx_n s) e pos" "e < i" "\<forall>(e', x) \<in> set ixs. x \<le> e"
    "\<forall>j. e < j \<and> j < i \<longrightarrow> exit_of cfg (pp_up_pct (history ! j)) pos = None"
    "\<forall>j. 1 \<le> j \<and> j < g \<and> entry_of cfg history j \<noteq> None \<longrightarrow> e \<le> j \<or> held (bx_trades s) ixs j" by (rule bt_inv_open)
  have "\<forall>j. e < j \<and> j < Suc i \<longrightarrow> exit_of cfg (pp_up_pct (history ! j)) pos = None"
    using *(7) assms(2) [OF Some] less_Suc_eq by blast
  with conjunct1 [OF bt_inv_sums] conjunct2 [OF bt_inv_sums] show ?thesis
    using assms(1) by (intro bt_inv_openI [OF _ _ Some *(1) later_index [OF *(2)] *(3,4) less_SucI [OF *(5)] *(6) _ *(8)])
qed

text \<open>An index is decided when a position is open after it, or when the strategy enters none there.\<close>

lemma bt_decided:
  assumes "bt_inv cfg history (Suc i) i s" "bx_open s \<noteq> None \<or> entry_of cfg history i = None"
  shows "bt_inv cfg history (Suc i) (Suc i) s"
proof (cases "bx_open s")
  case None
  then have "entry_of cfg history i = None" using assms(2) by simp
  then show ?thesis using assms(1) unfolding bt_inv_flat [OF None] by (metis less_Suc_eq)
next
  case (Some pos)
  from assms(1) this obtain ixs e where *: "bt_trades cfg history (bx_trades s) ixs" "\<forall>(e, x) \<in> set ixs. x < Suc i" "bx_n s = length (bx_trades s) + 1"
    "entered cfg history (bx_n s) e pos" "e < Suc i" "\<forall>(e', x) \<in> set ixs. x \<le> e"
    "\<forall>j. e < j \<and> j < Suc i \<longrightarrow> exit_of cfg (pp_up_pct (history ! j)) pos = None"
    "\<forall>j. 1 \<le> j \<and> j < i \<and> entry_of cfg history j \<noteq> None \<longrightarrow> e \<le> j \<or> held (bx_trades s) ixs j" by (rule bt_inv_open)
  have "\<forall>j. 1 \<le> j \<and> j < Suc i \<and> entry_of cfg history j \<noteq> None \<longrightarrow> e \<le> j \<or> held (bx_trades s) ixs j"
    using *(5,8) less_Suc_eq less_Suc_eq_le by blast
  with conjunct1 [OF bt_inv_sums] conjunct2 [OF bt_inv_sums] show ?thesis
    using assms(1) by (intro bt_inv_openI [OF _ _ Some *(1-7)])
qed

lemma bt_step_inv:
  assumes "bt_inv cfg history i i s" "1 \<le> i" "i < length history"
  shows "bt_inv cfg history (Suc i) (Suc i) (bt_step cfg history s i)"
proof -
  define m where "m = (case bx_open s of None \<Rightarrow> s
    | Some pos \<Rightarrow> (case exit_of cfg (pp_up_pct (history ! i)) pos of None \<Rightarrow> s | Some reason \<Rightarrow> closeAt (history ! i) reason s))"
  have m: "bt_inv cfg history (Suc i) i m"
  proof (cases "bx_open s")
    case None
    then show ?thesis using bt_inv_mono [OF assms(1)] by (simp add: m_def)
  next
    case (Some pos)
    show ?thesis
    proof (cases "exit_of cfg (pp_up_pct (history ! i)) pos")
      case None
      then show ?thesis using bt_inv_mono [OF assms(1)] Some by (simp add: m_def)
    next
      case (Some reason)
      then show ?thesis using bt_close [OF assms(1) \<open>bx_open s = Some pos\<close> assms(3)] \<open>bx_open s = Some pos\<close> by (simp add: m_def)
    qed
  qed
  have "bt_step cfg history s i = (case bx_open m of Some _ \<Rightarrow> m
      | None \<Rightarrow> (case entry_of cfg history i of None \<Rightarrow> m | Some side \<Rightarrow> openAt cfg (history ! i) side m))"
    unfolding m_def bt_step_def Let_def by (rule refl)
  then show ?thesis using bt_decided [OF m] bt_open [OF m] assms(2,3) by (auto split: option.split)
qed

lemma bt_steps_inv: "n \<le> length history \<Longrightarrow>
    bt_inv cfg history (max 1 n) (max 1 n) (foldl (bt_step cfg history) bt_start [1..<n])"
proof (induction n)
  case 0
  show ?case by (auto simp: bt_inv_def bt_start_def bt_trades_def js_sum_def intro!: exI [of _ "[]"])
next
  case (Suc n)
  show ?case
  proof (cases n)
    case 0
    then show ?thesis by (auto simp: bt_inv_def bt_start_def bt_trades_def js_sum_def intro!: exI [of _ "[]"])
  next
    case (Suc k)
    then show ?thesis using bt_step_inv [of cfg history n] Suc.IH Suc.prems by (simp add: max_def)
  qed
qed

text \<open>
  C33. A backtest ends with every position closed, and its trades are those of the rules: trade \<open>k\<close> is entered at an index \<open>e\<close>
  of the history where the strategy says so, and left at the first later index \<open>x\<close> where stop, profit or target is met,
  or at the last one; it carries the prices and times of these two points; the next trade enters at \<open>x\<close> at the earliest.  No
  entry is left out: wherever the strategy says to enter, from the second point on, a position is entered or still held.
  The equity curve is the running sum of the results.
\<close>
theorem backtest_follows_rules:
  fixes cfg :: bt_config and history :: "prob_point list"
  defines "s \<equiv> runBacktest history cfg"
  shows "bx_open s = None \<and> bx_equity s = equity_from (Fin 0) (bx_trades s) \<and> bx_n s = length (bx_trades s) \<and>
    (\<exists>ixs. bt_trades cfg history (bx_trades s) ixs \<and>
      (\<forall>j < length history. 1 \<le> j \<and> entry_of cfg history j \<noteq> None \<longrightarrow> held (bx_trades s) ixs j))"
proof -
  define m where "m = foldl (bt_step cfg history) bt_start [1..<length history]"
  let ?n = "max 1 (length history)"
  have m: "bt_inv cfg history ?n ?n m" unfolding m_def by (rule bt_steps_inv) simp
  have s: "s = (if bx_open m \<noteq> None \<and> history \<noteq> [] then closeAt (last history) Exit_rollover m else m)"
    by (simp only: s_def runBacktest_def Let_def m_def)
  have "\<exists>i. bt_inv cfg history i ?n s \<and> bx_open s = None"
  proof (cases "bx_open m")
    case None
    then show ?thesis using m by (auto simp: s)
  next
    case (Some pos)
    then have ne: "history \<noteq> []" using m by (auto simp: bt_inv_def entered_def)
    then have n: "?n = Suc (length history - 1)" by (cases history) simp_all
    have "bt_inv cfg history (Suc (length history - 1)) ?n m" using m n by simp
    then have "bt_inv cfg history (Suc (length history - 1)) ?n (closeAt (last history) Exit_rollover m) \<and>
        bx_open (closeAt (last history) Exit_rollover m) = None"
      using bt_close [OF _ Some, of cfg history "Suc (length history - 1)" ?n "length history - 1" Exit_rollover] ne n
      by (simp add: last_conv_nth)
    then show ?thesis using ne Some by (auto simp: s)
  qed
  then obtain i where "bt_inv cfg history i ?n s" "bx_open s = None" by blast
  then show ?thesis by (auto simp: bt_inv_def)
qed

text \<open>A YES position is bought at 30 and sold with the profit at 60.\<close>

definition short_history :: "prob_point list" where
  "short_history = map (\<lambda>(t, p). \<lparr>pp_ts = Fin t, pp_up_pct = Fin p\<rparr>) [(1, 50), (2, 30), (3, 40), (4, 60)]"

lemma short_backtest: "map (\<lambda>t. (rc_exitTime t, rc_pnl t, rc_reason t)) (bx_trades (runBacktest short_history DEFAULT_BT)) =
    [(Fin 4, Fin 10, Exit_take_profit)]" "entry_of DEFAULT_BT short_history 1 = Some Yes" "length short_history = 4"
  by code_simp+

theorem backtest_follows_rules_witness:
  "bx_n (runBacktest short_history DEFAULT_BT) = 1 \<and> bx_equity (runBacktest short_history DEFAULT_BT) = [(Fin 4, Fin 10)]"
proof -
  obtain t where t: "bx_trades (runBacktest short_history DEFAULT_BT) = [t]" "rc_exitTime t = Fin 4" "rc_pnl t = Fin 10"
    using short_backtest(1) by auto
  show ?thesis using backtest_follows_rules [where history = short_history and cfg = DEFAULT_BT] by (simp add: t)
qed

section \<open>Lemmas: the report\<close>

lemma equity_from_last: "ts \<noteq> [] \<Longrightarrow> snd (last (equity_from c ts)) = foldl js_add c (map rc_pnl ts)"
proof (induction ts arbitrary: c)
  case (Cons t ts)
  then show ?case by (cases ts) (simp_all add: Let_def)
qed simp

lemma record_pnls: "list_all record_ok ts \<Longrightarrow> map rc_pnl ts = map Fin (map (\<lambda>t. fin_val (rc_pnl t)) ts)"
  by (auto simp: list_all_iff record_ok_def)

lemma report_ends_at_total:
  assumes "list_all record_ok (pa_trades s)" "lt_totalPnl (pa_lifetime s) = Fin t" "pa_trades s \<noteq> []"
  shows "snd (last (reportEquity s)) = Fin t"
proof -
  define so where "so = js_sort (\<lambda>a b. js_sub (rc_exitTime a) (rc_exitTime b)) (pa_trades s)"
  have m: "mset so = mset (pa_trades s)" by (simp add: so_def)
  then have ne: "so \<noteq> []" and ok: "list_all record_ok so" using assms(1,3) by (auto simp: list_all_iff dest: mset_eq_setD)
  let ?v = "\<lambda>ts. sum_list (map (\<lambda>t. fin_val (rc_pnl t)) ts)"
  have v: "?v so = ?v (pa_trades s)"
    using arg_cong [OF m, of "\<lambda>M. sum_mset (image_mset (\<lambda>t. fin_val (rc_pnl t)) M)"] by (simp only: mset_map [symmetric] sum_mset_sum_list)
  have b: "js_sub (Fin t) (js_sum (map rc_pnl (pa_trades s))) = Fin (t - ?v (pa_trades s))"
    unfolding record_pnls [OF assms(1)] js_sum_Fin by simp
  have "foldl js_add (Fin (t - ?v (pa_trades s))) (map rc_pnl so) = Fin t"
    unfolding record_pnls [OF ok] foldl_js_add_Fin by (simp add: v [symmetric])
  moreover have "last (reportEquity s) = last (equity_from (Fin (t - ?v (pa_trades s))) so)"
    using ne by (cases so) (simp_all add: reportEquity_def Let_def assms(2) b flip: so_def)
  ultimately show ?thesis using equity_from_last [OF ne] by simp
qed

section \<open>Lemmas: the canvas\<close>

lemma plot_y_inside:
  assumes "lo \<le> v" "v \<le> hi" "lo < hi"
  shows "\<exists>y. plot_y (Fin lo) (Fin (hi - lo)) (Fin v) = Fin y \<and> 20 \<le> y \<and> y \<le> 230"
proof -
  define r where "r = (v - lo) / (hi - lo)"
  have "0 \<le> r" "r \<le> 1" using assms by (simp_all add: r_def)
  moreover have "plot_y (Fin lo) (Fin (hi - lo)) (Fin v) = Fin (230 - r * 210)" using assms(3) by (simp add: plot_y_def r_def)
  ultimately show ?thesis by simp
qed

text \<open>Every point of the curve is drawn within the canvas margins, and zero is in the range.\<close>

lemma equity_canvas_inside:
  assumes "EquityCanvas w (map (\<lambda>(a, b). (Fin a, Fin b)) eq) = Some p"
  shows "\<exists>lo hi. ep_min p = Fin lo \<and> ep_max p = Fin hi \<and> lo < 0 \<and> 0 < hi \<and> length (ep_points p) = length eq \<and>
    (\<forall>(x, y) \<in> set (ep_points p). \<exists>z. y = Fin z \<and> 20 \<le> z \<and> z \<le> 230)"
proof -
  define vs where "vs = map snd eq"
  have vals: "map snd (map (\<lambda>(a, b). (Fin a, Fin b)) eq) = map Fin vs" by (auto simp: vs_def)
  define mn where "mn = Min (fin_val ` set (Fin 0 # map Fin vs))"
  define mx where "mx = Max (fin_val ` set (Fin 0 # map Fin vs))"
  have mM: "js_min_list (Fin 0 # map Fin vs) = Fin mn" "js_max_list (Fin 0 # map Fin vs) = Fin mx"
    unfolding mn_def mx_def by (rule js_min_list_fin js_max_list_fin; auto)+
  have rng: "mn \<le> v \<and> v \<le> mx" if "v \<in> set (0 # vs)" for v
    using that unfolding mn_def mx_def by (auto simp: image_image intro!: Min_le Max_ge)
  define g where "g = (if mx - mn = 0 then 1 else mx - mn)"
  have z: "mn \<le> 0" "0 \<le> mx" using rng [of 0] by simp_all
  then have g: "0 < g" by (auto simp: g_def)
  define lo where "lo = mn - g * (20 / 100)"
  define hi where "hi = mx + g * (20 / 100)"
  have lh: "lo < 0" "0 < hi" "lo < hi" using z g unfolding lo_def hi_def by linarith+
  have o: "or_num (js_sub (Fin mx) (Fin mn)) (Fin 1) = Fin g" "or_num (js_sub (Fin hi) (Fin lo)) (Fin 1) = Fin (hi - lo)"
    using lh by (auto simp: or_num_def g_def)
  have ar: "js_sub (Fin mn) (js_mul (Fin g) (Fin (20 / 100))) = Fin lo" "js_add (Fin mx) (js_mul (Fin g) (Fin (20 / 100))) = Fin hi"
    by (simp_all add: lo_def hi_def)
  have p: "ep_min p = Fin lo \<and> ep_max p = Fin hi \<and>
      (\<exists>sx. ep_points p = map (\<lambda>(i, v). (sx i, plot_y (Fin lo) (Fin (hi - lo)) v)) (enumerate 0 (map Fin vs)))"
    using assms unfolding EquityCanvas_def vals mM o(1) Let_def ar o(2) by (auto split: if_split_asm)
  have y: "\<exists>z. plot_y (Fin lo) (Fin (hi - lo)) (Fin v) = Fin z \<and> 20 \<le> z \<and> z \<le> 230" if "v \<in> set vs" for v
  proof -
    have "mn \<le> v" "v \<le> mx" using rng [of v] that by simp_all
    then have "lo \<le> v" "v \<le> hi" using g unfolding lo_def hi_def by linarith+
    then show ?thesis using plot_y_inside [of lo v hi] lh(3) by blast
  qed
  obtain sx where sx: "ep_points p = map (\<lambda>(i, v). (sx i, plot_y (Fin lo) (Fin (hi - lo)) v)) (enumerate 0 (map Fin vs))" using p by blast
  have "\<exists>z. b = Fin z \<and> 20 \<le> z \<and> z \<le> 230" if ab: "(a, b) \<in> set (ep_points p)" for a b
  proof -
    obtain i c where "(i, c) \<in> set (enumerate 0 (map Fin vs))" and b: "b = plot_y (Fin lo) (Fin (hi - lo)) c"
      using ab unfolding sx by auto
    then have "i < length vs" "c = Fin (vs ! i)" by (auto simp: in_set_enumerate_eq)
    then show ?thesis using y [of "vs ! i"] b by simp
  qed
  moreover have "length (ep_points p) = length eq" by (simp add: sx vs_def)
  ultimately show ?thesis using p lh by blast
qed

end
