(* ===== verification/Dom.thy ===== *)
theory Dom
  imports LadderOrders Workspace StoreProps Grouping
begin

text \<open>
  The order ladder for binary outcomes, \<open>components/OrderBook2.tsx\<close>: its settings and their storage, the rows of both
  outcomes, the order ticket and the one-click orders with the limits checked before them, working orders, replacing by
  drag, the flashing of changed cells, and the polling of markets and books.  Requests are returned; their answers are later steps.
\<close>

section \<open>Settings\<close>

definition CONTRACT_SIZES :: "rat list" where
  "CONTRACT_SIZES = [1, 5, 10, 25, 50, 100]"

datatype account_view = Acct_account | Acct_position | Acct_fills

definition ACCOUNT_VIEWS :: "account_view list" where
  "ACCOUNT_VIEWS = [Acct_account, Acct_position, Acct_fills]"

definition clamp_font :: "jsnum \<Rightarrow> jsnum" where
  "clamp_font n = js_clamp n (Fin 6) (Fin 18)"

definition clamp_row :: "jsnum \<Rightarrow> jsnum" where
  "clamp_row n = js_clamp n (Fin 10) (Fin 36)"

definition ceriousSessionHeaders :: "string \<Rightarrow> string dict \<Rightarrow> string dict" where
  "ceriousSessionHeaders token init =
     (if token = '''' then init else dict_set ''X-Cerious-Session'' token (dict_set ''Authorization'' (''Bearer '' @ token) init))"

text \<open>Stored properties other than mode, height and font are taken over as they are.\<close>

record book2_settings =
  bs_sideView :: jsval
  bs_stickMid :: jsval
  bs_softGrid :: jsval
  bs_actionMode :: sim_order_type
  bs_look :: jsval
  bs_probabilityLook :: jsval
  bs_contractSize :: jsval
  bs_rowHeight :: jsnum
  bs_fontSize :: jsnum
  bs_fastTrade :: jsval

definition default_settings :: book2_settings where
  "default_settings = \<lparr>bs_sideView = JStr ''both'', bs_stickMid = JBool True, bs_softGrid = JBool True, bs_actionMode = Limit,
     bs_look = JStr ''standard'', bs_probabilityLook = JStr ''blue'', bs_contractSize = JNum (Fin 10), bs_rowHeight = Fin 18,
     bs_fontSize = Fin 9, bs_fastTrade = JBool False\<rparr>"

definition own_or :: "jsval \<Rightarrow> string \<Rightarrow> jsval \<Rightarrow> jsval" where
  "own_or parsed name d = (if js_get parsed name = JUndef then d else js_get parsed name)"

definition loadSettings :: "slot \<Rightarrow> book2_settings" where
  "loadSettings raw =
     (case raw of
        Holds parsed \<Rightarrow>
          if is_nullish parsed then default_settings
          else (let d = default_settings
            in \<lparr>bs_sideView = own_or parsed ''sideView'' (bs_sideView d), bs_stickMid = own_or parsed ''stickMid'' (bs_stickMid d),
                bs_softGrid = own_or parsed ''softGrid'' (bs_softGrid d),
                bs_actionMode = (if js_get parsed ''actionMode'' \<in> {JStr ''market'', JStr ''stop''} then Market else Limit),
                bs_look = own_or parsed ''look'' (bs_look d), bs_probabilityLook = own_or parsed ''probabilityLook'' (bs_probabilityLook d),
                bs_contractSize = own_or parsed ''contractSize'' (bs_contractSize d),
                bs_rowHeight = clamp_row (js_num (js_nn [js_get parsed ''rowHeight'', JNum (bs_rowHeight d)])),
                bs_fontSize = clamp_font (js_num (js_nn [js_get parsed ''fontSize'', JNum (bs_fontSize d)])),
                bs_fastTrade = own_or parsed ''fastTrade'' (bs_fastTrade d)\<rparr>)
      | _ \<Rightarrow> default_settings)"

definition settings_value :: "book2_settings \<Rightarrow> jsval" where
  "settings_value s = JObj
     [(''scaleMode'', JStr ''static''), (''sideView'', bs_sideView s), (''stickMid'', bs_stickMid s), (''softGrid'', bs_softGrid s),
      (''actionMode'', JStr (case bs_actionMode s of Limit \<Rightarrow> ''limit'' | Market \<Rightarrow> ''market'')), (''look'', bs_look s),
      (''probabilityLook'', bs_probabilityLook s), (''contractSize'', bs_contractSize s), (''rowHeight'', JNum (bs_rowHeight s)),
      (''fontSize'', JNum (bs_fontSize s)), (''fastTrade'', bs_fastTrade s)]"

definition setDensity :: "jsnum \<Rightarrow> jsnum \<Rightarrow> book2_settings \<Rightarrow> book2_settings" where
  "setDensity nextFontSize nextRowHeight s = s\<lparr>bs_fontSize := clamp_font nextFontSize, bs_rowHeight := clamp_row nextRowHeight\<rparr>"

datatype settings_change = Set_view string | Toggle_grid | Set_action sim_order_type | Toggle_action | Set_look string | Set_probability string | Set_contract rat | Toggle_fast

definition js_not :: "jsval \<Rightarrow> jsval" where
  "js_not v = JBool (\<not> truthy v)"

fun change_setting :: "settings_change \<Rightarrow> book2_settings \<Rightarrow> book2_settings" where
  "change_setting (Set_view v) s = s\<lparr>bs_sideView := JStr v\<rparr>"
| "change_setting Toggle_grid s = s\<lparr>bs_softGrid := js_not (bs_softGrid s)\<rparr>"
| "change_setting (Set_action m) s = s\<lparr>bs_actionMode := m\<rparr>"
| "change_setting Toggle_action s = s\<lparr>bs_actionMode := (if bs_actionMode s = Limit then Market else Limit)\<rparr>"
| "change_setting (Set_look l) s = s\<lparr>bs_look := JStr l\<rparr>"
| "change_setting (Set_probability l) s = s\<lparr>bs_probabilityLook := JStr l\<rparr>"
| "change_setting (Set_contract n) s = s\<lparr>bs_contractSize := JNum (Fin n)\<rparr>"
| "change_setting Toggle_fast s = s\<lparr>bs_fastTrade := js_not (bs_fastTrade s)\<rparr>"

section \<open>Book and rows\<close>

definition mapLevels :: "poly_level list \<Rightarrow> (jsnum \<times> jsnum) list" where
  "mapLevels levels =
     grouped (\<lambda>l. js_round (js_mul (pl_price l) (Fin 100))) (\<lambda>l. js_add (Fin 0) (pl_size l)) (\<lambda>l c. js_add c (pl_size l)) levels"

definition size_at :: "(jsnum \<times> jsnum) list \<Rightarrow> jsnum \<Rightarrow> jsnum" where
  "size_at m c = opt_or (map_of m c) (Fin 0)"

record dom_row =
  dr_p :: jsnum
  dr_nP :: jsnum
  dr_yBid :: jsnum
  dr_yAsk :: jsnum
  dr_nBid :: jsnum
  dr_nAsk :: jsnum
  dr_mid :: bool

definition priceRange :: "jsnum list" where
  "priceRange = map (\<lambda>i. Fin (99 - of_nat i)) [0..<99]"

definition mirrored :: "poly_level list \<Rightarrow> poly_level list" where
  "mirrored ls = map (\<lambda>l. l\<lparr>pl_price := js_sub (Fin 1) (pl_price l), pl_count := None, pl_ct := None\<rparr>) ls"

definition yes_mid :: "poly_book \<Rightarrow> jsnum" where
  "yes_mid book = js_round (js_mul (js_num (pb_mid book)) (Fin 100))"

definition dom_rows :: "poly_book option \<Rightarrow> dom_row list" where
  "dom_rows b =
     (case b of
        None \<Rightarrow> []
      | Some book \<Rightarrow>
          (let yBid = mapLevels (pb_bids book); yAsk = mapLevels (pb_asks book); nBid = mapLevels (mirrored (pb_asks book));
               nAsk = mapLevels (mirrored (pb_bids book)); yesMid = yes_mid book; noMid = js_sub (Fin 100) yesMid
           in map (\<lambda>p. \<lparr>dr_p = p, dr_nP = p, dr_yBid = size_at yBid p, dr_yAsk = size_at yAsk p, dr_nBid = size_at nBid p,
                dr_nAsk = size_at nAsk p, dr_mid = js_eq p yesMid \<or> js_eq p noMid\<rparr>) priceRange))"

definition displayRows :: "poly_book option \<Rightarrow> dom_row list" where
  "displayRows b =
     (if dom_rows b \<noteq> [] then dom_rows b
      else map (\<lambda>p. \<lparr>dr_p = p, dr_nP = p, dr_yBid = Fin 0, dr_yAsk = Fin 0, dr_nBid = Fin 0, dr_nAsk = Fin 0, dr_mid = js_eq p (Fin 50)\<rparr>) priceRange)"

definition maxY :: "dom_row list \<Rightarrow> jsnum" where
  "maxY rows = js_max_list (Fin 1 # map (\<lambda>r. js_max (dr_yBid r) (dr_yAsk r)) rows)"

definition maxN :: "dom_row list \<Rightarrow> jsnum" where
  "maxN rows = js_max_list (Fin 1 # map (\<lambda>r. js_max (dr_nBid r) (dr_nAsk r)) rows)"

definition dom_fmt :: "jsnum \<Rightarrow> string" where
  "dom_fmt n =
     (if \<not> truthy (JNum n) then '''' else if js_le (Fin 1000) n then to_fixed 1 (js_div n (Fin 1000)) @ ''k'' else to_fixed 0 n)"

definition bar_width :: "jsnum \<Rightarrow> jsnum \<Rightarrow> jsnum" where
  "bar_width sz mx = (if js_le sz (Fin 0) then Fin 0 else js_max (Fin 10) (js_min (Fin 100) (js_mul (js_div sz mx) (Fin 100))))"

definition depthWidth :: "jsnum \<Rightarrow> jsnum \<Rightarrow> string" where
  "depthWidth sz mx = jsnum_string (bar_width sz mx) @ ''%''"

definition orderColumnWidth :: "book2_settings \<Rightarrow> jsnum" where
  "orderColumnWidth s = js_clamp (js_round (js_mul (bs_fontSize s) (Fin (42 / 10)))) (Fin 24) (Fin 42)"

definition priceColumnWidth :: "book2_settings \<Rightarrow> jsnum" where
  "priceColumnWidth s = js_clamp (js_round (js_mul (bs_fontSize s) (Fin (54 / 10)))) (Fin 34) (Fin 58)"

text \<open>Where a column scrolls to, given the height of its viewport.\<close>

definition recenterDom :: "outcome \<Rightarrow> jsnum option \<Rightarrow> poly_book option \<Rightarrow> book2_settings \<Rightarrow> jsnum option" where
  "recenterDom target viewport book s =
     (let yesCenter = (case book of None \<Rightarrow> Fin 50 | Some b \<Rightarrow> yes_mid b); noCenter = js_sub (Fin 100) yesCenter; h = bs_rowHeight s;
          v = opt_or viewport (js_mul h (Fin 25))
      in case find_index (\<lambda>r. case target of Yes \<Rightarrow> js_eq (dr_p r) yesCenter | No \<Rightarrow> js_eq (dr_nP r) noCenter) (displayRows book) of
           None \<Rightarrow> None
         | Some idx \<Rightarrow> Some (js_max (Fin 0) (js_add (js_sub (js_mul (Fin (of_nat idx)) h) (js_div v (Fin 2))) (js_div h (Fin 2)))))"

definition newest_book :: "poly_book option \<Rightarrow> poly_book option \<Rightarrow> poly_book option" where
  "newest_book wsBook restBook =
     (case (wsBook, restBook) of
        (None, _) \<Rightarrow> restBook
      | (Some w, None) \<Rightarrow> Some w
      | (Some w, Some r) \<Rightarrow> if js_le (book_seen r) (book_seen w) then Some w else Some r)"

definition feed_status :: "rat \<Rightarrow> string option \<Rightarrow> poly_book option \<Rightarrow> string" where
  "feed_status now key book =
     (if opt_or key '''' = '''' then ''NO FEED''
      else case book of
        None \<Rightarrow> ''LOADING''
      | Some b \<Rightarrow> (let ageMs = js_sub (Fin now) (book_seen b)
          in if js_lt ageMs (Fin 12000) then ''FRESH'' else if js_lt ageMs (Fin 25000) then ''AGING'' else ''STALE''))"

section \<open>Flashing cells\<close>

datatype flash = Flash_up | Flash_down

record flash_state =
  fs_flash :: "flash dict"
  fs_prev :: "jsnum dict"
  fs_timer :: "string list option"

definition row_cells :: "dom_row \<Rightarrow> (string \<times> jsnum) list" where
  "row_cells r =
     (let p = jsnum_string (dr_p r)
      in [(p @ '':yb'', dr_yBid r), (p @ '':ya'', dr_yAsk r), (p @ '':nb'', dr_nBid r), (p @ '':na'', dr_nAsk r)])"

definition flash_cell :: "flash dict \<times> jsnum dict \<Rightarrow> string \<times> jsnum \<Rightarrow> flash dict \<times> jsnum dict" where
  "flash_cell = (\<lambda>(next, prevs) (k, v).
     let prev = opt_or (dict_get prevs k) (Fin 0)
     in (if js_eq v prev then next else dict_set k (if js_lt prev v then Flash_up else Flash_down) next, dict_set k v prevs))"

text \<open>A change of the rows first drops the timer of the change before; without changed cells no timer is set.\<close>

definition flash_rows :: "dom_row list \<Rightarrow> flash_state \<Rightarrow> flash_state" where
  "flash_rows rows s =
     (let (next, prevs) = foldl flash_cell ([], fs_prev s) (concat (map row_cells rows))
      in if next = [] then s\<lparr>fs_prev := prevs, fs_timer := None\<rparr>
         else s\<lparr>fs_flash := dict_merge (fs_flash s) next, fs_prev := prevs, fs_timer := Some (map fst next)\<rparr>)"

definition flash_timeout :: "flash_state \<Rightarrow> flash_state" where
  "flash_timeout s =
     (case fs_timer s of None \<Rightarrow> s | Some ks \<Rightarrow> s\<lparr>fs_flash := foldl (\<lambda>f k. dict_del k f) (fs_flash s) ks, fs_timer := None\<rparr>)"

section \<open>Orders\<close>

record order_intent =
  oi_outcome :: outcome
  oi_side :: sim_side
  oi_orderType :: sim_order_type
  oi_cents :: jsnum
  oi_contracts :: jsval

datatype dom_status = WO_pending | WO_working | WO_rejected

record working_order = order_intent +
  wo_id :: string
  wo_marketKey :: string
  wo_status :: dom_status
  wo_createdAt :: jsnum

record rest_market =
  rm_key :: string
  rm_live :: bool
  rm_timeframe :: string

record dom_config =
  dc_forcedMarketKey :: "string option"
  dc_operatorName :: string

record dom_state =
  do_settings :: book2_settings
  do_accountView :: account_view
  do_intent :: "order_intent option"
  do_orders :: "working_order list"
  do_drag :: "working_order option"
  do_restMarkets :: "rest_market list"
  do_restBook :: "poly_book option"
  do_flash :: flash_state
  do_alerts :: "string list"

definition the_intent :: "working_order \<Rightarrow> order_intent" where
  "the_intent w = \<lparr>oi_outcome = oi_outcome w, oi_side = oi_side w, oi_orderType = oi_orderType w, oi_cents = oi_cents w, oi_contracts = oi_contracts w\<rparr>"

definition working :: "string \<Rightarrow> string \<Rightarrow> dom_status \<Rightarrow> rat \<Rightarrow> order_intent \<Rightarrow> working_order" where
  "working i key status now intent = order_intent.extend intent (working_order.fields i key status (Fin now))"

definition fallbackKey :: "terminal_state \<Rightarrow> dom_state \<Rightarrow> string option" where
  "fallbackKey st d =
     (case List.find (\<lambda>m. mk_live m \<and> mk_timeframe m \<noteq> TF_event) (ss_markets st) of
        Some m \<Rightarrow> if mk_key m \<noteq> '''' then Some (mk_key m)
          else map_option rm_key (List.find (\<lambda>m. rm_live m \<and> rm_timeframe m \<noteq> ''event'') (do_restMarkets d))
      | None \<Rightarrow> map_option rm_key (List.find (\<lambda>m. rm_live m \<and> rm_timeframe m \<noteq> ''event'') (do_restMarkets d)))"

definition dom_activeKey :: "dom_config \<Rightarrow> terminal_state \<Rightarrow> string option" where
  "dom_activeKey c st = (case dc_forcedMarketKey c of Some k \<Rightarrow> Some k | None \<Rightarrow> ss_activeMarketKey st)"

text \<open>The key that orders go to, empty when there is none.\<close>

definition dom_key :: "dom_config \<Rightarrow> terminal_state \<Rightarrow> dom_state \<Rightarrow> string" where
  "dom_key c st d = opt_or (case dom_activeKey c st of Some k \<Rightarrow> Some k | None \<Rightarrow> fallbackKey st d) ''''"

definition side_positions :: "direction \<Rightarrow> terminal_state \<Rightarrow> position list" where
  "side_positions dir st = filter (\<lambda>p. ps_direction p = dir) (ss_positions st)"

definition dom_exposure :: "direction \<Rightarrow> terminal_state \<Rightarrow> jsnum" where
  "dom_exposure dir st = js_sum (map ps_size (side_positions dir st))"

definition dom_pnl :: "direction \<Rightarrow> terminal_state \<Rightarrow> jsnum" where
  "dom_pnl dir st = js_sum (map ps_unrealized_pnl (side_positions dir st))"

definition netExposure :: "terminal_state \<Rightarrow> jsnum" where
  "netExposure st = js_sub (dom_exposure ''UP'' st) (dom_exposure ''DOWN'' st)"

text \<open>\<open>a + b\<close> on untyped values\<close>

definition js_plus :: "jsval \<Rightarrow> jsval \<Rightarrow> jsval" where
  "js_plus a b =
     (let is_text = (\<lambda>v. case v of JStr _ \<Rightarrow> True | JArr _ \<Rightarrow> True | JObj _ \<Rightarrow> True | _ \<Rightarrow> False)
      in if is_text a \<or> is_text b then JStr (js_str a @ js_str b) else JNum (js_add (js_num a) (js_num b)))"

datatype limit_check = Within_limits | Too_many | Too_exposed

definition check_limits :: "jsval \<Rightarrow> terminal_state \<Rightarrow> limit_check" where
  "check_limits settings st =
     (let maxOrders = js_nn [js_get settings ''manualMaxOrders'', JNum (Fin 7)]; maxYes = js_nn [js_get settings ''manualMaxYesDollar'', JNum (Fin 500)];
          maxNo = js_nn [js_get settings ''manualMaxNoDollar'', JNum (Fin 500)]
      in if js_le (js_num maxOrders) (Fin (of_nat (length (ss_positions st)))) then Too_many
         else if js_lt (js_num (js_plus maxYes maxNo)) (js_add (dom_exposure ''UP'' st) (dom_exposure ''DOWN'' st)) then Too_exposed
         else Within_limits)"

text \<open>The settings read before an order; a stored \<open>null\<close> makes reading a property of it throw.\<close>

definition order_settings :: "slot \<Rightarrow> jsval" where
  "order_settings raw = (case raw of Holds v \<Rightarrow> v | _ \<Rightarrow> JObj [])"

record entry_payload =
  en_market_id :: string
  en_order_type :: sim_order_type
  en_size_usd :: jsnum
  en_stop_loss_pct :: rat
  en_take_profit_pct :: rat
  en_trailing_stop_pct :: rat
  en_entry_timeout_secs :: nat
  en_timestamp :: jsnum
  en_asset :: string
  en_model :: model_name
  en_direction :: direction
  en_strength :: rat
  en_regime :: regime

definition entry_of_intent :: "rat \<Rightarrow> string \<Rightarrow> order_intent \<Rightarrow> entry_payload" where
  "entry_of_intent now key intent =
     (let first = takeWhile (\<lambda>c. c \<noteq> CHR ''_'') key
      in \<lparr>en_market_id = key, en_order_type = oi_orderType intent,
          en_size_usd = js_mul (js_mul (js_num (oi_contracts intent)) (js_div (oi_cents intent) (Fin 100))) (Fin 100),
          en_stop_loss_pct = 10 / 100, en_take_profit_pct = 20 / 100, en_trailing_stop_pct = 0, en_entry_timeout_secs = 300,
          en_timestamp = Fin now, en_asset = (if first = '''' then ''BTC'' else first), en_model = ''kc_reversion'',
          en_direction = (if oi_outcome intent = Yes then ''UP'' else ''DOWN''), en_strength = 1, en_regime = ''medium''\<rparr>)"

datatype dom_request = TicketEntry entry_payload | FastEntry string entry_payload

definition dom_set_status :: "string \<Rightarrow> dom_status \<Rightarrow> dom_state \<Rightarrow> dom_state" where
  "dom_set_status i status d = d\<lparr>do_orders := map (\<lambda>w. if wo_id w = i then w\<lparr>wo_status := status\<rparr> else w) (do_orders d)\<rparr>"

definition drop_order :: "string \<Rightarrow> dom_state \<Rightarrow> dom_state" where
  "drop_order i d = d\<lparr>do_orders := filter (\<lambda>w. wo_id w \<noteq> i) (do_orders d)\<rparr>"

definition sim_live :: "terminal_state \<Rightarrow> string \<Rightarrow> bool" where
  "sim_live st i = (case List.find (\<lambda>item. so_id item = i) (ss_simOrders st) of
     None \<Rightarrow> False | Some item \<Rightarrow> so_status item \<in> {SO_working, SO_partially_filled})"

definition reconcileLocalSimOrder :: "terminal_state \<Rightarrow> string \<Rightarrow> dom_state \<Rightarrow> dom_state" where
  "reconcileLocalSimOrder st i d = (if sim_live st i then dom_set_status i WO_working d else drop_order i d)"

definition alert_user :: "string \<Rightarrow> dom_state \<Rightarrow> dom_state" where
  "alert_user message d = d\<lparr>do_alerts := do_alerts d @ [message]\<rparr>"

definition add_order :: "working_order \<Rightarrow> dom_state \<Rightarrow> dom_state" where
  "add_order w d = d\<lparr>do_orders := take 30 (w # do_orders d)\<rparr>"

definition dom_order_id :: "string \<Rightarrow> rat \<Rightarrow> string \<Rightarrow> order_intent \<Rightarrow> string" where
  "dom_order_id kind now key intent =
     kind @ ''-'' @ key @ ''-'' @ outcome_value (oi_outcome intent) @ ''-'' @ side_value (oi_side intent) @ ''-'' @
     jsnum_string (oi_cents intent) @ ''-'' @ jsnum_string (Fin now)"

definition sim_request :: "string \<Rightarrow> string \<Rightarrow> order_intent \<Rightarrow> order_request" where
  "sim_request i key intent = \<lparr>rq_id = Some i, rq_marketKey = key, rq_outcome = oi_outcome intent, rq_side = oi_side intent,
     rq_price = oi_cents intent, rq_size = js_num (oi_contracts intent)\<rparr>"

type_synonym dom_result = "dom_state \<times> terminal_state \<times> dom_request list"

text \<open>\<open>live\<close> says whether this is a production build, \<open>confirmed\<close> the answer to the confirmation, \<open>raw\<close> the stored settings.\<close>

definition submitManualOrder :: "rat \<Rightarrow> dom_config \<Rightarrow> bool \<Rightarrow> bool \<Rightarrow> slot \<Rightarrow> terminal_state \<Rightarrow> dom_state \<Rightarrow> dom_result" where
  "submitManualOrder now c live confirmed raw st d =
     (let key = dom_key c st d
      in case do_intent d of
        None \<Rightarrow> (alert_user ''No order ticket or active market'' d, st, [])
      | Some intent \<Rightarrow>
          if key = '''' then (alert_user ''No order ticket or active market'' d, st, [])
          else if ss_simulationEnabled st then
            (let i = dom_order_id ''sim'' now key intent; d = add_order (working i key WO_working now intent) d;
                 (st, _) = placeSimOrder now (sim_request i key intent) st
             in ((reconcileLocalSimOrder st i d)\<lparr>do_intent := None\<rparr>, st, []))
          else (let settings = order_settings raw
            in if is_nullish settings then (d, st, [])
               else case check_limits settings st of
                 Too_many \<Rightarrow> (alert_user ''Max manual positions limit reached'' d, st, [])
               | Too_exposed \<Rightarrow> (alert_user ''Manual exposure limit exceeded'' d, st, [])
               | Within_limits \<Rightarrow>
                   if live \<and> \<not> truthy (js_get settings ''forceDryRun'') \<and> \<not> confirmed then (d, st, [])
                   else (d, st, [TicketEntry (entry_of_intent now key intent)])))"

definition ticket_answered :: "answer \<Rightarrow> dom_state \<Rightarrow> dom_state" where
  "ticket_answered answer d =
     (case answer of
        Unreachable message \<Rightarrow> alert_user (''Network error on manual entry: '' @ message) d
      | Answered ok text payload \<Rightarrow>
          if ok then (alert_user (''Entry submitted: '' @ js_str (js_nn [js_get payload ''position_id'', JStr ''dry-run''])) d)\<lparr>do_intent := None\<rparr>
          else alert_user (''Entry failed: '' @ text) d)"

definition submitFastOrder :: "rat \<Rightarrow> dom_config \<Rightarrow> slot \<Rightarrow> order_intent \<Rightarrow> string \<Rightarrow> terminal_state \<Rightarrow> dom_state \<Rightarrow> dom_result" where
  "submitFastOrder now c raw intent workingId st d =
     (let key = dom_key c st d
      in if key = '''' then (dom_set_status workingId WO_rejected d, st, [])
         else if ss_simulationEnabled st then
           (let (st, _) = placeSimOrder now (sim_request workingId key intent) st in (reconcileLocalSimOrder st workingId d, st, []))
         else (let settings = order_settings raw
           in if is_nullish settings then (d, st, [])
              else if check_limits settings st \<noteq> Within_limits then (dom_set_status workingId WO_rejected d, st, [])
              else (d, st, [FastEntry workingId (entry_of_intent now key intent)])))"

definition fast_answered :: "string \<Rightarrow> answer \<Rightarrow> dom_state \<Rightarrow> dom_state" where
  "fast_answered workingId answer d =
     dom_set_status workingId (case answer of Answered ok _ _ \<Rightarrow> if ok then WO_working else WO_rejected | Unreachable _ \<Rightarrow> WO_rejected) d"

definition queueOrder :: "rat \<Rightarrow> dom_config \<Rightarrow> slot \<Rightarrow> outcome \<Rightarrow> sim_side \<Rightarrow> jsnum \<Rightarrow> terminal_state \<Rightarrow> dom_state \<Rightarrow> dom_result" where
  "queueOrder now c raw outcome side cents st d =
     (let intent = \<lparr>oi_outcome = outcome, oi_side = side, oi_orderType = bs_actionMode (do_settings d), oi_cents = cents,
            oi_contracts = bs_contractSize (do_settings d)\<rparr>;
          st = st\<lparr>ss_bookClickPrice := Some (outcome, cents)\<rparr>; key = dom_key c st d
      in if truthy (bs_fastTrade (do_settings d)) \<and> key \<noteq> '''' then
           (let i = dom_order_id ''fast'' now key intent
            in submitFastOrder now c raw intent i st (add_order (working i key WO_pending now intent) (d\<lparr>do_intent := None\<rparr>)))
         else (d\<lparr>do_intent := Some intent\<rparr>, st, []))"

definition cancelWorkingOrder :: "string \<Rightarrow> terminal_state \<Rightarrow> dom_state \<Rightarrow> dom_result" where
  "cancelWorkingOrder i st d =
     (let d = drop_order i d
      in (if map_option wo_id (do_drag d) = Some i then d\<lparr>do_drag := None\<rparr> else d, cancelSimOrder i st, []))"

definition on_side :: "string \<Rightarrow> outcome \<Rightarrow> sim_side \<Rightarrow> working_order \<Rightarrow> bool" where
  "on_side key outcome side w = (wo_marketKey w = key \<and> oi_outcome w = outcome \<and> oi_side w = side)"

definition cancelWorkingOrders :: "dom_config \<Rightarrow> outcome \<Rightarrow> sim_side \<Rightarrow> terminal_state \<Rightarrow> dom_state \<Rightarrow> dom_result" where
  "cancelWorkingOrders c outcome side st d =
     (let key = dom_key c st d; d = d\<lparr>do_orders := filter (\<lambda>w. \<not> on_side key outcome side w) (do_orders d)\<rparr>
      in (case do_drag d of Some w \<Rightarrow> if on_side key outcome side w then d\<lparr>do_drag := None\<rparr> else d | None \<Rightarrow> d,
          if key \<noteq> '''' then cancelSimOrders st else st, []))"

definition replaceWorkingOrder :: "rat \<Rightarrow> dom_config \<Rightarrow> slot \<Rightarrow> working_order \<Rightarrow> jsnum \<Rightarrow> terminal_state \<Rightarrow> dom_state \<Rightarrow> dom_result" where
  "replaceWorkingOrder now c raw order cents st d =
     (let key = dom_key c st d; intent = (the_intent order)\<lparr>oi_cents := cents\<rparr>; i = dom_order_id ''replace'' now key intent
      in if key = '''' then (d, st, [])
         else submitFastOrder now c raw intent i (cancelSimOrder (wo_id order) st)
           ((add_order (working i key WO_pending now intent) (drop_order (wo_id order) d))\<lparr>do_drag := None\<rparr>))"

text \<open>Dropping on a row of the same outcome.\<close>

definition handleReplaceDrop :: "rat \<Rightarrow> dom_config \<Rightarrow> slot \<Rightarrow> outcome \<Rightarrow> jsnum \<Rightarrow> terminal_state \<Rightarrow> dom_state \<Rightarrow> dom_result" where
  "handleReplaceDrop now c raw outcome cents st d =
     (case do_drag d of
        None \<Rightarrow> (d, st, [])
      | Some w \<Rightarrow> if oi_outcome w = outcome then replaceWorkingOrder now c raw w cents st d else (d, st, []))"

definition sync_sim :: "terminal_state \<Rightarrow> dom_state \<Rightarrow> dom_state" where
  "sync_sim st d = (if \<not> ss_simulationEnabled st then d else d\<lparr>do_orders := filter (\<lambda>w. sim_live st (wo_id w)) (do_orders d)\<rparr>)"

definition cycleAccountView :: "jsnum \<Rightarrow> account_view \<Rightarrow> account_view" where
  "cycleAccountView delta current =
     (let idx = (case find_index (\<lambda>v. v = current) ACCOUNT_VIEWS of Some i \<Rightarrow> int i | None \<Rightarrow> - 1);
          step = (if js_lt (Fin 0) delta then 1 else - 1)
      in ACCOUNT_VIEWS ! nat ((idx + step + 3) mod 3))"

definition dom_activeForSide :: "string \<Rightarrow> outcome \<Rightarrow> sim_side \<Rightarrow> dom_state \<Rightarrow> bool" where
  "dom_activeForSide key outcome side d = list_ex (\<lambda>w. on_side key outcome side w \<and> wo_status w \<noteq> WO_rejected) (do_orders d)"

definition activeWorkingCount :: "string \<Rightarrow> dom_state \<Rightarrow> nat" where
  "activeWorkingCount key d = length (filter (\<lambda>w. wo_marketKey w = key \<and> wo_status w \<noteq> WO_rejected) (do_orders d))"

definition tinyMode :: "book2_settings \<Rightarrow> bool" where
  "tinyMode s = (js_le (bs_fontSize s) (Fin 7) \<or> js_le (bs_rowHeight s) (Fin 12))"

definition working_marker :: "string \<Rightarrow> outcome \<Rightarrow> sim_side \<Rightarrow> jsnum \<Rightarrow> dom_state \<Rightarrow> string option" where
  "working_marker key outcome side cents d =
     map_option (\<lambda>w. let tiny = tinyMode (do_settings d); n = js_str (oi_contracts w)
       in case wo_status w of
            WO_working \<Rightarrow> if tiny then ''W'' else ''W '' @ n
          | WO_pending \<Rightarrow> if tiny then ''P'' else ''P '' @ n
          | WO_rejected \<Rightarrow> if tiny then ''R'' else ''REJ'')
       (List.find (\<lambda>w. on_side key outcome side w \<and> js_eq (oi_cents w) cents) (do_orders d))"

section \<open>The mounted ladder\<close>

text \<open>The ladder with the store it shares, its storage slot, the requests without an answer and all entries sent.\<close>

record dom_sys =
  dy_dom :: dom_state
  dy_store :: terminal_state
  dy_raw :: slot
  dy_open :: "dom_request list"
  dy_sent :: "entry_payload list"

datatype dom_op =
    Dom_click outcome sim_side jsnum
  | Dom_submit bool
  | Dom_answer dom_request answer
  | Dom_cancel string
  | Dom_cancel_side outcome sim_side
  | Dom_drag string
  | Dom_drop outcome jsnum
  | Dom_clear
  | Dom_settings settings_change
  | Dom_density jsnum jsnum
  | Dom_cycle jsnum
  | Dom_markets "rest_market list"
  | Dom_book poly_book
  | Dom_store terminal_state

fun payload_of :: "dom_request \<Rightarrow> entry_payload" where
  "payload_of (TicketEntry p) = p"
| "payload_of (FastEntry i p) = p"

definition with_result :: "dom_result \<Rightarrow> dom_sys \<Rightarrow> dom_sys" where
  "with_result r s = (let (d, st, reqs) = r in s\<lparr>dy_dom := d, dy_store := st, dy_open := dy_open s @ reqs, dy_sent := dy_sent s @ map payload_of reqs\<rparr>)"

definition on_dom :: "(dom_state \<Rightarrow> dom_state) \<Rightarrow> dom_sys \<Rightarrow> dom_sys" where
  "on_dom f s = s\<lparr>dy_dom := f (dy_dom s)\<rparr>"

fun answered :: "dom_request \<Rightarrow> answer \<Rightarrow> dom_state \<Rightarrow> dom_state" where
  "answered (TicketEntry p) a = ticket_answered a"
| "answered (FastEntry i p) a = fast_answered i a"

definition dom_shown_book :: "dom_config \<Rightarrow> dom_sys \<Rightarrow> poly_book option" where
  "dom_shown_book c s = (let key = dom_key c (dy_store s) (dy_dom s)
     in newest_book (if key = '''' then None else dict_get (ss_polyBooks (dy_store s)) key) (do_restBook (dy_dom s)))"

fun dom_op_step :: "rat \<Rightarrow> dom_config \<Rightarrow> bool \<Rightarrow> dom_op \<Rightarrow> dom_sys \<Rightarrow> dom_sys" where
  "dom_op_step now c live (Dom_click outcome side cents) s = with_result (queueOrder now c (dy_raw s) outcome side cents (dy_store s) (dy_dom s)) s"
| "dom_op_step now c live (Dom_submit confirmed) s = with_result (submitManualOrder now c live confirmed (dy_raw s) (dy_store s) (dy_dom s)) s"
| "dom_op_step now c live (Dom_answer req a) s =
     (if req \<in> set (dy_open s) then (on_dom (answered req a) s)\<lparr>dy_open := remove1 req (dy_open s)\<rparr> else s)"
| "dom_op_step now c live (Dom_cancel i) s = with_result (cancelWorkingOrder i (dy_store s) (dy_dom s)) s"
| "dom_op_step now c live (Dom_cancel_side outcome side) s = with_result (cancelWorkingOrders c outcome side (dy_store s) (dy_dom s)) s"
| "dom_op_step now c live (Dom_drag i) s = on_dom (\<lambda>d. case List.find (\<lambda>w. wo_id w = i) (do_orders d) of None \<Rightarrow> d | Some w \<Rightarrow> d\<lparr>do_drag := Some w\<rparr>) s"
| "dom_op_step now c live (Dom_drop outcome cents) s = with_result (handleReplaceDrop now c (dy_raw s) outcome cents (dy_store s) (dy_dom s)) s"
| "dom_op_step now c live Dom_clear s = on_dom (\<lambda>d. d\<lparr>do_intent := None\<rparr>) s"
| "dom_op_step now c live (Dom_settings f) s = on_dom (\<lambda>d. d\<lparr>do_settings := change_setting f (do_settings d)\<rparr>) s"
| "dom_op_step now c live (Dom_density font row) s = on_dom (\<lambda>d. d\<lparr>do_settings := setDensity font row (do_settings d)\<rparr>) s"
| "dom_op_step now c live (Dom_cycle delta) s = on_dom (\<lambda>d. d\<lparr>do_accountView := cycleAccountView delta (do_accountView d)\<rparr>) s"
| "dom_op_step now c live (Dom_markets ms) s = on_dom (\<lambda>d. d\<lparr>do_restMarkets := ms\<rparr>) s"
| "dom_op_step now c live (Dom_book b) s =
     (let key = dom_key c (dy_store s) (dy_dom s)
      in if key = '''' then s else (on_dom (\<lambda>d. d\<lparr>do_restBook := Some b\<rparr>) s)\<lparr>dy_store := setPolyBook key b (dy_store s)\<rparr>)"
| "dom_op_step now c live (Dom_store st) s = s\<lparr>dy_store := st\<rparr>"

text \<open>
  The effects that follow a change: the provider is set, the fallback becomes the active market, simulated orders that the
  exchange does not list go, cells flash and the settings are stored.
\<close>

definition dom_effects :: "dom_config \<Rightarrow> dom_sys \<Rightarrow> dom_sys \<Rightarrow> dom_sys" where
  "dom_effects c before s =
     (let st = (if ss_marketProvider (dy_store s) \<noteq> Polymarket then setMarketProvider Polymarket (dy_store s) else dy_store s);
          st = (if opt_or (dom_activeKey c st) '''' = '''' \<and> opt_or (fallbackKey st (dy_dom s)) '''' \<noteq> ''''  \<and> opt_or (dc_forcedMarketKey c) '''' = ''''
                then setActiveMarketKey (fallbackKey st (dy_dom s)) st else st);
          d = (if ss_simOrders st \<noteq> ss_simOrders (dy_store before) \<or> ss_simulationEnabled st \<noteq> ss_simulationEnabled (dy_store before)
               then sync_sim st (dy_dom s) else dy_dom s);
          d = (if dom_shown_book c s \<noteq> dom_shown_book c before then d\<lparr>do_flash := flash_rows (dom_rows (dom_shown_book c s)) (do_flash d)\<rparr> else d)
      in s\<lparr>dy_dom := d, dy_store := st, dy_raw := stored (settings_value (do_settings d))\<rparr>)"

definition dom_step :: "rat \<Rightarrow> dom_config \<Rightarrow> bool \<Rightarrow> dom_op \<Rightarrow> dom_sys \<Rightarrow> dom_sys" where
  "dom_step now c live op s = dom_effects c s (dom_op_step now c live op s)"

definition dom_mount :: "slot \<Rightarrow> terminal_state \<Rightarrow> dom_sys" where
  "dom_mount raw st =
     (let settings = loadSettings raw
      in \<lparr>dy_dom = \<lparr>do_settings = settings, do_accountView = Acct_account, do_intent = None, do_orders = [], do_drag = None,
            do_restMarkets = [], do_restBook = None, do_flash = \<lparr>fs_flash = [], fs_prev = [], fs_timer = None\<rparr>, do_alerts = []\<rparr>,
          dy_store = st, dy_raw = stored (settings_value settings), dy_open = [], dy_sent = []\<rparr>)"

text \<open>
  The ladders that can be reached, with the last time that went into an identifier.  The clock may stand still or go
  back; once a time is not later than the last one there is none any more.
\<close>

fun dom_stamps :: "dom_op \<Rightarrow> bool" where
  "dom_stamps (Dom_click outcome side cents) = True"
| "dom_stamps (Dom_submit confirmed) = True"
| "dom_stamps (Dom_drop outcome cents) = True"
| "dom_stamps _ = False"

definition advance :: "nat option \<Rightarrow> nat \<Rightarrow> nat option" where
  "advance n m = (case n of None \<Rightarrow> None | Some k \<Rightarrow> if k < m then Some m else None)"

inductive dom_reach :: "dom_config \<Rightarrow> bool \<Rightarrow> nat option \<Rightarrow> dom_sys \<Rightarrow> bool" for c live where
  dom_first: "dom_reach c live (Some n) (dom_mount raw st)"
| dom_next: "dom_reach c live n s \<Longrightarrow>
    dom_reach c live (if dom_stamps op then advance n m else n) (dom_step (of_nat m) c live op s)"

section \<open>Lemmas: working orders\<close>

definition stamped :: "nat \<Rightarrow> string \<Rightarrow> bool" where
  "stamped n i = (\<exists>p m. i = p @ ''-'' @ jsnum_string (Fin (of_nat m)) \<and> m \<le> n)"

definition awaited :: "dom_request list \<Rightarrow> string set" where
  "awaited reqs = {i. \<exists>p. FastEntry i p \<in> set reqs}"

text \<open>The orders of a ladder at clock \<open>n\<close> when the identifiers in \<open>A\<close> await an answer.\<close>

definition orders_fine :: "nat option \<Rightarrow> string set \<Rightarrow> working_order list \<Rightarrow> bool" where
  "orders_fine n A ws = ((\<forall>k. n = Some k \<longrightarrow> distinct (map wo_id ws) \<and> (\<forall>w \<in> set ws. stamped k (wo_id w))) \<and>
     length ws \<le> 30 \<and> (\<forall>w \<in> set ws. wo_status w = WO_pending \<longrightarrow> wo_id w \<in> A))"

lemma stamp_inj:
  assumes "p @ ''-'' @ jsnum_string (Fin (of_nat m)) = q @ ''-'' @ jsnum_string (Fin (of_nat n))"
  shows "m = n"
  using last_part [OF nat_string_no_dash, of p m] last_part [OF nat_string_no_dash, of q n] nat_string_inj assms by metis

lemma dom_order_id_split: "\<exists>p. dom_order_id kind (of_nat m) key intent = p @ ''-'' @ jsnum_string (Fin (of_nat m))"
  by (rule exI [of _ "kind @ ''-'' @ key @ ''-'' @ outcome_value (oi_outcome intent) @ ''-'' @ side_value (oi_side intent) @ ''-'' @
     jsnum_string (oi_cents intent)"]) (simp add: dom_order_id_def)

lemma stamped_new: "stamped m (dom_order_id kind (of_nat m) key intent)"
  using dom_order_id_split unfolding stamped_def by blast

lemma stamped_fresh: "n < m \<Longrightarrow> \<not> stamped n (dom_order_id kind (of_nat m) key intent)"
  using dom_order_id_split stamp_inj unfolding stamped_def by (metis leD)

lemma stamped_mono: "stamped n i \<Longrightarrow> n \<le> m \<Longrightarrow> stamped m i"
  unfolding stamped_def using order_trans by blast

lemma advance_Some: "advance n m = Some k \<longleftrightarrow> k = m \<and> (\<exists>j. n = Some j \<and> j < m)"
  by (auto simp: advance_def split: option.split)

lemma orders_fine_mono: "orders_fine n A ws \<Longrightarrow> A \<subseteq> B \<Longrightarrow> orders_fine n B ws"
  unfolding orders_fine_def by blast

lemma orders_fine_advance: "orders_fine n A ws \<Longrightarrow> orders_fine (advance n m) A ws"
  unfolding orders_fine_def advance_Some using stamped_mono less_imp_le by blast

lemma orders_fine_filter: "orders_fine n A ws \<Longrightarrow> orders_fine n A (filter P ws)"
  by (auto simp: orders_fine_def distinct_map_filter intro: order_trans [OF length_filter_le])

lemma orders_fine_drop: "orders_fine n (insert i A) (do_orders d) \<Longrightarrow> orders_fine n A (do_orders (drop_order i d))"
  using orders_fine_filter [of n "insert i A" "do_orders d"] by (auto simp: orders_fine_def drop_order_def)

lemma orders_fine_status: "orders_fine n (insert i A) (do_orders d) \<Longrightarrow> status \<noteq> WO_pending \<Longrightarrow> orders_fine n A (do_orders (dom_set_status i status d))"
  by (auto simp: orders_fine_def dom_set_status_def comp_def if_distrib [of wo_id] cong: if_cong)

lemma orders_fine_reconcile: "orders_fine n (insert i A) (do_orders d) \<Longrightarrow> orders_fine n A (do_orders (reconcileLocalSimOrder st i d))"
  by (simp add: reconcileLocalSimOrder_def orders_fine_drop orders_fine_status)

lemma working_fields [simp]: "wo_id (working i key status now intent) = i" "wo_status (working i key status now intent) = status"
    "wo_marketKey (working i key status now intent) = key" "the_intent (working i key status now intent) = intent"
  by (cases intent; simp add: working_def order_intent.extend_def working_order.fields_def the_intent_def)+

lemma orders_fine_add:
  assumes "orders_fine n A (do_orders d)" "wo_id w = dom_order_id kind (of_nat m) key intent"
  shows "orders_fine (advance n m) (insert (wo_id w) A) (do_orders (add_order w d))"
proof -
  define ws where "ws = take 30 (w # do_orders d)"
  have in_new: "w' = w \<or> w' \<in> set (do_orders d)" if "w' \<in> set ws" for w'
    using in_set_takeD [OF that [unfolded ws_def]] by simp
  have "distinct (map wo_id ws) \<and> (\<forall>w' \<in> set ws. stamped m (wo_id w'))" if "n = Some j" "j < m" for j
  proof
    have old: "distinct (map wo_id (do_orders d))" "\<forall>w' \<in> set (do_orders d). stamped j (wo_id w')"
      using assms(1) that(1) by (simp_all add: orders_fine_def)
    have "wo_id w \<notin> wo_id ` set (do_orders d)" using old(2) stamped_fresh [OF that(2)] assms(2) by force
    then show "distinct (map wo_id ws)"
      using old(1) unfolding ws_def by (metis distinct.simps(2) distinct_take image_set list.simps(9) take_map)
    show "\<forall>w' \<in> set ws. stamped m (wo_id w')"
      using in_new old(2) stamped_mono [OF _ less_imp_le [OF that(2)]] stamped_new assms(2) by metis
  qed
  moreover have "length ws \<le> 30" by (simp add: ws_def)
  moreover have "wo_status w' = WO_pending \<longrightarrow> wo_id w' \<in> insert (wo_id w) A" if "w' \<in> set ws" for w'
    using in_new [OF that] assms(1) by (auto simp: orders_fine_def)
  ultimately have "orders_fine (advance n m) (insert (wo_id w) A) ws" unfolding orders_fine_def advance_Some by blast
  then show ?thesis by (simp add: add_order_def ws_def)
qed

definition result_fine :: "nat option \<Rightarrow> string set \<Rightarrow> dom_result \<Rightarrow> bool" where
  "result_fine m A = (\<lambda>(d, st, reqs). orders_fine m (A \<union> awaited reqs) (do_orders d))"

lemma awaited_simps [simp]: "awaited [] = {}" "awaited [FastEntry i p] = {i}" "awaited [TicketEntry p] = {}"
    "awaited (xs @ ys) = awaited xs \<union> awaited ys"
  by (auto simp: awaited_def)

lemma saved_settings: "order_settings (stored (settings_value s)) = json (settings_value s)" "\<not> is_nullish (json (settings_value s))"
  by (simp_all add: order_settings_def stored_def settings_value_def)

lemma alert_orders [simp]: "do_orders (alert_user m d) = do_orders d" "do_settings (alert_user m d) = do_settings d"
  by (simp_all add: alert_user_def)

lemma ticket_orders [simp]: "do_orders (ticket_answered a d) = do_orders d" "do_settings (ticket_answered a d) = do_settings d"
  by (auto simp: ticket_answered_def split: answer.split)

lemma fast_fine:
  assumes "orders_fine m (insert i A) (do_orders d)"
  shows "result_fine m A (submitFastOrder now c (stored (settings_value s)) intent i st d)"
proof -
  have l: "check_limits x st \<noteq> Within_limits \<or> check_limits x st = Within_limits" for x by blast
  have i: "orders_fine m (A \<union> {i}) (do_orders d)" using assms by simp
  show ?thesis using orders_fine_status [OF assms, of WO_rejected] orders_fine_reconcile [OF assms] i
    by (auto simp: submitFastOrder_def result_fine_def Let_def saved_settings placeSimOrder_def)
qed

lemma queue_fine:
  assumes "orders_fine n A (do_orders d)"
  shows "result_fine (advance n m) A (queueOrder (of_nat m) c (stored (settings_value s)) outcome side cents st d)"
proof -
  have "orders_fine (advance n m) A (do_orders d)" by (rule orders_fine_advance [OF assms])
  moreover have "orders_fine (advance n m) (insert (wo_id w) A) (do_orders (add_order w (d\<lparr>do_intent := x\<rparr>)))"
    if "wo_id w = dom_order_id ''fast'' (of_nat m) key intent" for w key intent x
    using orders_fine_add [of n A "d\<lparr>do_intent := x\<rparr>", OF _ that] assms by simp
  ultimately show ?thesis using fast_fine [of "advance n m" _ A]
    by (auto simp: queueOrder_def Let_def result_fine_def split: prod.splits)
qed

lemma ticket_fine:
  assumes "orders_fine n A (do_orders d)"
  shows "result_fine (advance n m) A (submitManualOrder (of_nat m) c live conf (stored (settings_value s)) st d)"
proof -
  have "orders_fine (advance n m) A (do_orders d)" by (rule orders_fine_advance [OF assms])
  moreover have "orders_fine (advance n m) A (do_orders (reconcileLocalSimOrder st' (dom_order_id ''sim'' (of_nat m) key intent)
      (add_order (working (dom_order_id ''sim'' (of_nat m) key intent) key WO_working (of_nat m) intent) d)))" for st' key intent
    by (rule orders_fine_reconcile, rule orders_fine_add [OF assms, of "working _ _ _ _ _", unfolded working_fields]) (rule refl)
  ultimately show ?thesis
    by (auto simp: submitManualOrder_def Let_def result_fine_def saved_settings placeSimOrder_def split: option.split limit_check.split)
qed

lemma replace_fine:
  assumes "orders_fine n A (do_orders d)"
  shows "result_fine (advance n m) A (replaceWorkingOrder (of_nat m) c (stored (settings_value s)) w cents st d)"
proof -
  have a: "orders_fine (advance n m) A (do_orders d)" by (rule orders_fine_advance [OF assms])
  have "orders_fine n A (do_orders (drop_order i d))" for i using orders_fine_filter [OF assms] by (simp add: drop_order_def)
  then have "orders_fine (advance n m) (insert (wo_id v) A) (do_orders ((add_order v (drop_order (wo_id w) d))\<lparr>do_drag := None\<rparr>))"
    if "wo_id v = dom_order_id ''replace'' (of_nat m) key intent" for v key intent
    using orders_fine_add [OF _ that] by simp
  then show ?thesis using a fast_fine [of "advance n m" _ A]
    by (auto simp: replaceWorkingOrder_def Let_def result_fine_def split: prod.splits)
qed

lemma cancel_fine: "orders_fine n A (do_orders d) \<Longrightarrow> result_fine n A (cancelWorkingOrder i st d)"
    "orders_fine n A (do_orders d) \<Longrightarrow> result_fine n A (cancelWorkingOrders c outcome side st d)"
  by (auto simp: cancelWorkingOrder_def cancelWorkingOrders_def result_fine_def Let_def drop_order_def orders_fine_filter split: option.split)

lemma drop_fine: "orders_fine n A (do_orders d) \<Longrightarrow>
    result_fine (advance n m) A (handleReplaceDrop (of_nat m) c (stored (settings_value s)) outcome cents st d)"
  using replace_fine [of n A d m] orders_fine_advance [of n A "do_orders d" m]
  by (auto simp: handleReplaceDrop_def result_fine_def split: option.split)

definition dom_ok :: "nat option \<Rightarrow> dom_sys \<Rightarrow> bool" where
  "dom_ok n s = (orders_fine n (awaited (dy_open s)) (do_orders (dy_dom s)) \<and> dy_raw s = stored (settings_value (do_settings (dy_dom s))))"

definition open_fine :: "nat option \<Rightarrow> dom_sys \<Rightarrow> bool" where
  "open_fine n s = orders_fine n (awaited (dy_open s)) (do_orders (dy_dom s))"

lemma with_result_fine: "result_fine n (awaited (dy_open s)) r \<Longrightarrow> open_fine n (with_result r s)"
  by (cases r) (simp add: result_fine_def open_fine_def with_result_def)

lemma awaited_remove: "awaited reqs \<subseteq> (case r of TicketEntry p \<Rightarrow> awaited (remove1 r reqs) | FastEntry i p \<Rightarrow> insert i (awaited (remove1 r reqs)))"
  by (induction reqs) (auto simp: awaited_def split: dom_request.splits)

lemma answered_fine:
  assumes "open_fine n s" "r \<in> set (dy_open s)"
  shows "open_fine n ((on_dom (answered r a) s)\<lparr>dy_open := remove1 r (dy_open s)\<rparr>)"
proof (cases r)
  case (TicketEntry p)
  then show ?thesis using assms(1) awaited_remove [of "dy_open s" r] orders_fine_mono by (auto simp: open_fine_def on_dom_def)
next
  case (FastEntry i p)
  have "orders_fine n (insert i (awaited (remove1 r (dy_open s)))) (do_orders (dy_dom s))"
    using assms(1) awaited_remove [of "dy_open s" r] orders_fine_mono FastEntry by (auto simp: open_fine_def)
  then show ?thesis using FastEntry by (auto simp: open_fine_def on_dom_def fast_answered_def split: answer.split intro: orders_fine_status)
qed

lemma op_fine:
  assumes "dom_ok n s"
  shows "open_fine (if dom_stamps op then advance n m else n) (dom_op_step (of_nat m) c live op s)"
proof -
  have o: "orders_fine n (awaited (dy_open s)) (do_orders (dy_dom s))" and raw: "dy_raw s = stored (settings_value (do_settings (dy_dom s)))"
    using assms by (simp_all add: dom_ok_def)
  have s: "open_fine n s" using o by (simp add: open_fine_def)
  show ?thesis
  proof (cases op)
    case (Dom_click outcome side cents)
    then show ?thesis using queue_fine [OF o] raw by (simp add: with_result_fine)
  next
    case (Dom_submit conf)
    then show ?thesis using ticket_fine [OF o] raw by (simp add: with_result_fine)
  next
    case (Dom_drop outcome cents)
    then show ?thesis using drop_fine [OF o] raw by (simp add: with_result_fine)
  next
    case (Dom_answer r a)
    then show ?thesis using answered_fine s by simp
  next
    case (Dom_book b)
    then show ?thesis using o by (simp add: open_fine_def on_dom_def Let_def)
  qed (use o in \<open>auto simp: open_fine_def on_dom_def intro!: with_result_fine [unfolded open_fine_def] cancel_fine split: option.split\<close>)
qed

lemma effects_fine: "open_fine n s \<Longrightarrow> dom_ok n (dom_effects c before s)"
  by (simp add: open_fine_def dom_ok_def dom_effects_def Let_def sync_sim_def orders_fine_filter)

lemma reach_fine: "dom_reach c live n s \<Longrightarrow> dom_ok n s"
proof (induction rule: dom_reach.induct)
  case (dom_first n raw st)
  then show ?case by (simp add: dom_ok_def dom_mount_def Let_def orders_fine_def)
qed (simp only: dom_step_def effects_fine op_fine)

text \<open>
  C28. At most thirty working orders are kept, and an order is pending only while a request for it has no answer yet; what
  the ladder stored last are its current settings.  The identifiers are distinct as long as each was stamped later than
  the one before, which the code does not see to.
\<close>
theorem dom_orders_invariant:
  assumes "dom_reach c live n s"
  shows "(n \<noteq> None \<longrightarrow> distinct (map wo_id (do_orders (dy_dom s)))) \<and> length (do_orders (dy_dom s)) \<le> 30 \<and>
    (\<forall>w \<in> set (do_orders (dy_dom s)). wo_status w = WO_pending \<longrightarrow> (\<exists>p. FastEntry (wo_id w) p \<in> set (dy_open s))) \<and>
    dy_raw s = stored (settings_value (do_settings (dy_dom s)))"
  using reach_fine [OF assms] by (auto simp: dom_ok_def orders_fine_def awaited_def)

definition sample_mount :: dom_sys where
  "sample_mount = dom_mount Missing (initial_state\<lparr>ss_activeMarketKey := Some ''BTC_5min'', ss_simulationEnabled := False\<rparr>)"

definition plain_config :: dom_config where
  "plain_config = \<lparr>dc_forcedMarketKey = None, dc_operatorName = ''Operator 1''\<rparr>"

definition fast_clicked :: dom_sys where
  "fast_clicked = dom_step (of_nat 2) plain_config True (Dom_click Yes Bid (Fin 40)) (dom_step (of_nat 1) plain_config True (Dom_settings Toggle_fast) sample_mount)"

lemma fast_mode_reach: "dom_reach plain_config True (Some 0) (dom_step (of_nat 1) plain_config True (Dom_settings Toggle_fast) sample_mount)"
proof -
  have "dom_reach plain_config True (Some 0) sample_mount" unfolding sample_mount_def by (rule dom_first)
  from dom_next [OF this, where op = "Dom_settings Toggle_fast" and m = 1] show ?thesis by simp
qed

lemma fast_clicked_reach: "dom_reach plain_config True (Some 2) fast_clicked"
  using dom_next [OF fast_mode_reach, of "Dom_click Yes Bid (Fin 40)" 2] by (simp add: fast_clicked_def advance_def)

lemma fast_clicked_order: "map (\<lambda>w. (wo_id w, wo_status w)) (do_orders (dy_dom fast_clicked)) =
    [(''fast-BTC_5min-yes-bid-40-2'', WO_pending)]"
  by code_simp

theorem dom_orders_invariant_witness:
  "map wo_status (do_orders (dy_dom fast_clicked)) = [WO_pending] \<and> (\<exists>p. FastEntry ''fast-BTC_5min-yes-bid-40-2'' p \<in> set (dy_open fast_clicked))"
  using dom_orders_invariant [OF fast_clicked_reach] fast_clicked_order by auto

text \<open>Two clicks on one row at one time leave two orders with one identifier.\<close>

lemma dom_orders_collide:
  "\<not> distinct (map wo_id (do_orders (dy_dom (dom_step (of_nat 2) plain_config True (Dom_click Yes Bid (Fin 40)) fast_clicked))))"
  by code_simp

section \<open>Lemmas: entries\<close>

lemma json_absent: "map_of ps k = None \<Longrightarrow> js_get (json (JObj ps)) k = JUndef"
proof -
  assume "map_of ps k = None"
  then have "map_of (json_fields ps) k = None" by (induction ps) (auto split: if_split_asm)
  then show ?thesis by simp
qed

lemma saved_limits: "check_limits (json (settings_value s)) st =
    (if 7 \<le> length (ss_positions st) then Too_many
     else if js_lt (Fin 1000) (js_add (dom_exposure ''UP'' st) (dom_exposure ''DOWN'' st)) then Too_exposed else Within_limits)"
proof -
  define v where "v = json (settings_value s)"
  have "js_get v ''manualMaxOrders'' = JUndef" "js_get v ''manualMaxYesDollar'' = JUndef" "js_get v ''manualMaxNoDollar'' = JUndef"
    unfolding v_def settings_value_def by (rule json_absent, simp)+
  then have "check_limits v st = (if js_le (Fin 7) (Fin (of_nat (length (ss_positions st)))) then Too_many
      else if js_lt (Fin 1000) (js_add (dom_exposure ''UP'' st) (dom_exposure ''DOWN'' st)) then Too_exposed else Within_limits)"
    by (simp add: check_limits_def js_plus_def)
  moreover have "(7 :: rat) \<le> of_nat (length (ss_positions st)) \<longleftrightarrow> 7 \<le> length (ss_positions st)"
    using of_nat_le_iff [of 7 "length (ss_positions st)", where ?'a = rat] by simp
  ultimately show ?thesis by (simp flip: v_def)
qed

lemma saved_no_dry_run: "js_get (json (settings_value s)) ''forceDryRun'' = JUndef"
  unfolding settings_value_def by (intro json_absent) simp

lemma effects_sent [simp]: "dy_sent (dom_effects c before s) = dy_sent s" "dy_open (dom_effects c before s) = dy_open s"
  by (simp_all add: dom_effects_def Let_def)

lemma with_result_sent: "dy_sent (with_result r s) = dy_sent s @ map payload_of (snd (snd r))"
  by (cases r) (simp add: with_result_def)

text \<open>
  C29. Which entries a ladder outside the simulation sends.  A submitted ticket, a one-click order and an order that is
  dragged to another row are sent as long as there are fewer than seven positions, with at most 1000 dollars in all,
  whatever limits were stored when the ladder was mounted: its own settings replace them.  The size of the order itself
  does not count, only the ticket of a production build is confirmed, and nothing else sends.
\<close>
theorem dom_limits_fixed:
  fixes live :: bool and m :: nat and c n s op
  assumes "dom_reach c live n s" "\<not> ss_simulationEnabled (dy_store s)" "dom_key c (dy_store s) (dy_dom s) \<noteq> ''''"
  defines "st \<equiv> dy_store s" and "d \<equiv> dy_dom s"
  defines "allowed \<equiv> length (ss_positions st) < 7 \<and> \<not> js_lt (Fin 1000) (js_add (dom_exposure ''UP'' st) (dom_exposure ''DOWN'' st))"
    and "entry \<equiv> entry_of_intent (of_nat m) (dom_key c st d)"
  shows "dy_sent (dom_step (of_nat m) c live op s) = dy_sent s @ (case op of
      Dom_submit confirmed \<Rightarrow> (case do_intent d of
          Some intent \<Rightarrow> if allowed \<and> (live \<longrightarrow> confirmed) then [entry intent] else [] | None \<Rightarrow> [])
    | Dom_click outcome side cents \<Rightarrow> if truthy (bs_fastTrade (do_settings d)) \<and> allowed
        then [entry \<lparr>oi_outcome = outcome, oi_side = side, oi_orderType = bs_actionMode (do_settings d), oi_cents = cents,
          oi_contracts = bs_contractSize (do_settings d)\<rparr>] else []
    | Dom_drop outcome cents \<Rightarrow> (case do_drag d of
          Some w \<Rightarrow> if oi_outcome w = outcome \<and> allowed then [entry ((the_intent w)\<lparr>oi_cents := cents\<rparr>)] else [] | None \<Rightarrow> [])
    | _ \<Rightarrow> [])"
proof -
  have raw: "dy_raw s = stored (settings_value (do_settings d))" using reach_fine [OF assms(1)] by (simp add: dom_ok_def d_def)
  have live: "\<not> ss_simulationEnabled st" "dom_key c st d \<noteq> ''''" using assms(2,3) by (simp_all add: st_def d_def)
  have k: "dom_key c (st\<lparr>ss_bookClickPrice := x\<rparr>) d = dom_key c st d" "dom_key c st' (add_order w (d\<lparr>do_intent := y\<rparr>)) = dom_key c st' d"
      "dom_key c (cancelSimOrder i st) ((add_order v (drop_order i d))\<lparr>do_drag := z\<rparr>) = dom_key c st d" for x y w st' i v z
    by (simp_all add: dom_key_def dom_activeKey_def fallbackKey_def add_order_def drop_order_def cancelSimOrder_def split: option.split)
  have p: "check_limits v (st\<lparr>ss_bookClickPrice := x\<rparr>) = check_limits v st" "check_limits v (cancelSimOrder i st) = check_limits v st"
      "ss_simulationEnabled (cancelSimOrder i st) = ss_simulationEnabled st" for v x i
    by (simp_all add: check_limits_def dom_exposure_def side_positions_def cancelSimOrder_def)
  have l: "check_limits (json (settings_value (do_settings d))) st = Within_limits \<longleftrightarrow> allowed"
    by (simp add: saved_limits allowed_def not_le)
  note unfolded = dom_step_def with_result_sent Let_def raw saved_settings saved_no_dry_run st_def [symmetric] d_def [symmetric] entry_def
  show ?thesis
  proof (cases op)
    case (Dom_click outcome side cents)
    then show ?thesis using live l by (auto simp: unfolded queueOrder_def submitFastOrder_def k p)
  next
    case (Dom_submit confirmed)
    then show ?thesis using live l by (auto simp: unfolded submitManualOrder_def split: option.split limit_check.split)
  next
    case (Dom_drop outcome cents)
    then show ?thesis using live l
      by (auto simp: unfolded handleReplaceDrop_def replaceWorkingOrder_def submitFastOrder_def k p split: option.split)
  qed (auto simp: unfolded cancelWorkingOrder_def cancelWorkingOrders_def on_dom_def)
qed

definition fast_mode :: dom_sys where
  "fast_mode = dom_step (of_nat 1) plain_config True (Dom_settings Toggle_fast) sample_mount"

lemma fast_mode_parts: "\<not> ss_simulationEnabled (dy_store fast_mode)" "dom_key plain_config (dy_store fast_mode) (dy_dom fast_mode) = ''BTC_5min''"
    "ss_positions (dy_store fast_mode) = []" "truthy (bs_fastTrade (do_settings (dy_dom fast_mode)))" "dy_sent fast_mode = []"
  by code_simp+

theorem dom_limits_fixed_witness: "length (dy_sent fast_clicked) = 1"
proof -
  have "dom_key plain_config (dy_store fast_mode) (dy_dom fast_mode) \<noteq> ''''" by (simp add: fast_mode_parts)
  from dom_limits_fixed [OF fast_mode_reach [folded fast_mode_def] fast_mode_parts(1) this, where op = "Dom_click Yes Bid (Fin 40)" and m = 2]
  show ?thesis
    using fast_mode_parts(4) unfolding fast_clicked_def fast_mode_def [symmetric]
    by (simp add: fast_mode_parts dom_exposure_def side_positions_def js_sum_def)
qed

text \<open>A bid and an offer send the same entry, in the direction of the outcome: selling YES enters a YES position.\<close>

lemma entry_ignores_side: "entry_of_intent now key (intent\<lparr>oi_side := side\<rparr>) = entry_of_intent now key intent"
  by (simp add: entry_of_intent_def)

text \<open>The size in dollars is the number of contracts times the price in cents.\<close>

lemma entry_size: "js_num (oi_contracts intent) = Fin n \<Longrightarrow> oi_cents intent = Fin c \<Longrightarrow> en_size_usd (entry_of_intent now key intent) = Fin (n * c)"
  by (simp add: entry_of_intent_def Let_def)

text \<open>Cancelling sends nothing; moving a live order sends one more entry and forgets the order it replaces.\<close>

lemma cancel_sends_nothing: "snd (snd (cancelWorkingOrder i st d)) = []" "snd (snd (cancelWorkingOrders c outcome side st d)) = []"
  by (simp_all add: cancelWorkingOrder_def cancelWorkingOrders_def Let_def)

lemma replaced_order_entered_again:
  assumes "\<not> ss_simulationEnabled st" "dom_key c st d \<noteq> ''''" "check_limits (order_settings raw) st = Within_limits" "\<not> is_nullish (order_settings raw)"
    and "dom_order_id ''replace'' now (dom_key c st d) ((the_intent w)\<lparr>oi_cents := cents\<rparr>) \<noteq> wo_id w"
  shows "\<exists>d' st' i. replaceWorkingOrder now c raw w cents st d =
      (d', st', [FastEntry i (entry_of_intent now (dom_key c st d) ((the_intent w)\<lparr>oi_cents := cents\<rparr>))]) \<and> wo_id w \<notin> wo_id ` set (do_orders d')"
proof -
  have k: "dom_key c (cancelSimOrder i st) d' = dom_key c st d" if "do_restMarkets d' = do_restMarkets d" for i d'
    using that by (simp add: dom_key_def dom_activeKey_def fallbackKey_def cancelSimOrder_def split: option.split)
  have l: "check_limits v (cancelSimOrder i st) = check_limits v st" "ss_simulationEnabled (cancelSimOrder i st) = ss_simulationEnabled st" for v i
    by (simp_all add: check_limits_def dom_exposure_def side_positions_def cancelSimOrder_def)
  show ?thesis using assms
    by (auto simp: replaceWorkingOrder_def submitFastOrder_def Let_def k l add_order_def drop_order_def dest!: in_set_takeD)
qed

section \<open>Lemmas: simulation\<close>

lemma sim_not_listed: "\<forall>item \<in> set (ss_simOrders st). so_id item \<noteq> i \<Longrightarrow> \<not> sim_live st i"
  by (auto simp: sim_live_def find_Some_iff split: option.split)

lemma dropped_new: "wo_id w = i \<Longrightarrow> set (do_orders (drop_order i (add_order w d))) \<subseteq> set (do_orders d)"
  by (auto simp: drop_order_def add_order_def dest: in_set_takeD)

text \<open>
  In the simulation an order of this ladder never works: the store only notes a message, nothing is sent, and since the
  exchange does not list the identifier the ladder takes its own order away again.
\<close>
theorem sim_orders_vanish:
  assumes "ss_simulationEnabled st" "dom_key c st d \<noteq> ''''"
    and "\<And>kind intent item. item \<in> set (ss_simOrders st) \<Longrightarrow> so_id item \<noteq> dom_order_id kind now (dom_key c st d) intent"
  shows "(\<forall>intent. do_intent d = Some intent \<longrightarrow> (case submitManualOrder now c live confirmed raw st d of (d', st', reqs) \<Rightarrow>
      reqs = [] \<and> set (do_orders d') \<subseteq> set (do_orders d) \<and> do_intent d' = None \<and> ss_simOrders st' = ss_simOrders st)) \<and>
    (truthy (bs_fastTrade (do_settings d)) \<longrightarrow> (case queueOrder now c raw outcome side cents st d of (d', st', reqs) \<Rightarrow>
      reqs = [] \<and> set (do_orders d') \<subseteq> set (do_orders d) \<and> do_intent d' = None \<and> ss_simOrders st' = ss_simOrders st))"
proof -
  have k: "dom_key c (st\<lparr>ss_bookClickPrice := x\<rparr>) d' = dom_key c st d" if "do_restMarkets d' = do_restMarkets d" for x d'
    using that by (simp add: dom_key_def dom_activeKey_def fallbackKey_def split: option.split)
  have n: "\<not> sim_live (fst (placeSimOrder now r st')) (dom_order_id kind now (dom_key c st d) intent)"
    if "ss_simOrders st' = ss_simOrders st" for r st' kind intent
    using that assms(3) by (intro sim_not_listed) (auto simp: placeSimOrder_def Let_def)
  have s: "ss_simOrders (fst (placeSimOrder now r st')) = ss_simOrders st'" for r st' by (simp add: placeSimOrder_def Let_def)
  have r: "set (do_orders (drop_order i (add_order (working i key status now intent) d'))) \<subseteq> set (do_orders d')" for i key status intent d'
    by (rule dropped_new) simp
  have i: "do_intent (drop_order i (add_order w d')) = do_intent d'" "do_restMarkets (add_order w d') = do_restMarkets d'" for i w d'
    by (simp_all add: drop_order_def add_order_def)
  show ?thesis using assms(1,2) r [of _ _ _ _ d] r [of _ _ _ _ "d\<lparr>do_intent := None\<rparr>"]
    by (auto simp: submitManualOrder_def queueOrder_def submitFastOrder_def reconcileLocalSimOrder_def Let_def n s i k split_beta)
qed

definition ticket_mount :: dom_state where
  "ticket_mount = (dy_dom sample_mount)\<lparr>do_intent := Some \<lparr>oi_outcome = Yes, oi_side = Bid, oi_orderType = Limit, oi_cents = Fin 40, oi_contracts = JNum (Fin 10)\<rparr>\<rparr>"

theorem sim_orders_vanish_witness:
  "case submitManualOrder 7 plain_config False False Missing (initial_state\<lparr>ss_simulationEnabled := True, ss_activeMarketKey := Some ''BTC_5min''\<rparr>) ticket_mount of
     (d', st', reqs) \<Rightarrow> reqs = [] \<and> set (do_orders d') \<subseteq> set (do_orders ticket_mount)"
proof -
  let ?st = "initial_state\<lparr>ss_simulationEnabled := True, ss_activeMarketKey := Some ''BTC_5min''\<rparr>"
  have "ss_simulationEnabled ?st" "ss_simOrders ?st = []" "dom_key plain_config ?st ticket_mount \<noteq> ''''"
    by (simp_all add: initial_state_def dom_key_def dom_activeKey_def plain_config_def)
  moreover obtain intent where "do_intent ticket_mount = Some intent" by (simp add: ticket_mount_def)
  ultimately show ?thesis
    using sim_orders_vanish [of ?st plain_config ticket_mount 7] by (simp add: split_beta)
qed

section \<open>Lemmas: settings\<close>

definition settings_ok :: "book2_settings \<Rightarrow> bool" where
  "settings_ok s = (list_all (\<lambda>v. json v = v \<and> v \<noteq> JUndef)
      [bs_sideView s, bs_stickMid s, bs_softGrid s, bs_look s, bs_probabilityLook s, bs_contractSize s, bs_fastTrade s] \<and>
     (\<exists>r. bs_rowHeight s = Fin r \<and> 10 \<le> r \<and> r \<le> 36) \<and> (\<exists>f. bs_fontSize s = Fin f \<and> 6 \<le> f \<and> f \<le> 18))"

lemma settings_reload: "settings_ok s \<Longrightarrow> loadSettings (stored (settings_value s)) = s"
  by (cases s) (auto simp: settings_ok_def loadSettings_def stored_def settings_value_def own_or_def default_settings_def
      clamp_row_def clamp_font_def js_clamp_def Let_def split: sim_order_type.splits)

lemma clamp_ok: "is_fin n \<Longrightarrow> (\<exists>r. clamp_row n = Fin r \<and> 10 \<le> r \<and> r \<le> 36) \<and> (\<exists>f. clamp_font n = Fin f \<and> 6 \<le> f \<and> f \<le> 18)"
  by (auto simp: clamp_row_def clamp_font_def js_clamp_def is_fin_conv)

lemma change_ok: "settings_ok s \<Longrightarrow> settings_ok (change_setting x s)"
  by (cases x) (auto simp: settings_ok_def js_not_def)

lemma density_ok: "settings_ok s \<Longrightarrow> is_fin f \<Longrightarrow> is_fin r \<Longrightarrow> settings_ok (setDensity f r s)"
  using clamp_ok [of f] clamp_ok [of r] by (simp add: settings_ok_def setDensity_def)

lemma settings_kept:
  "do_settings (reconcileLocalSimOrder st i d) = do_settings d" "do_settings (add_order w d) = do_settings d" "do_settings (drop_order i d) = do_settings d"
  "do_settings (dom_set_status i status d) = do_settings d" "do_settings (sync_sim st d) = do_settings d"
  by (simp_all add: reconcileLocalSimOrder_def add_order_def drop_order_def dom_set_status_def sync_sim_def)

lemma submits_keep_settings:
  "do_settings (fst (submitFastOrder now c raw intent i st d)) = do_settings d"
  "do_settings (fst (submitManualOrder now c live conf raw st d)) = do_settings d"
  by (auto simp: submitFastOrder_def submitManualOrder_def Let_def settings_kept split_beta split: option.split limit_check.split)

lemma handlers_keep_settings:
  "do_settings (fst (queueOrder now c raw outcome side cents st d)) = do_settings d"
  "do_settings (fst (cancelWorkingOrder i st d)) = do_settings d"
  "do_settings (fst (cancelWorkingOrders c outcome side st d)) = do_settings d"
  "do_settings (fst (handleReplaceDrop now c raw outcome cents st d)) = do_settings d"
  by (auto simp: queueOrder_def cancelWorkingOrder_def cancelWorkingOrders_def handleReplaceDrop_def replaceWorkingOrder_def Let_def
      settings_kept submits_keep_settings split: option.split)

lemma answers_keep_settings: "do_settings (answered r a d) = do_settings d"
  by (cases r) (auto simp: fast_answered_def settings_kept)

fun op_numeric :: "dom_op \<Rightarrow> bool" where
  "op_numeric (Dom_density f r) = (is_fin f \<and> is_fin r)"
| "op_numeric _ = True"

lemma op_settings:
  assumes "settings_ok (do_settings (dy_dom s))" "op_numeric op"
  shows "settings_ok (do_settings (dy_dom (dom_step now c live op s)))"
proof -
  have "settings_ok (do_settings (dy_dom (dom_op_step now c live op s)))"
    using assms by (cases op) (auto simp: with_result_def on_dom_def split_beta handlers_keep_settings submits_keep_settings
        answers_keep_settings change_ok density_ok Let_def split: option.split)
  then show ?thesis by (simp add: dom_step_def dom_effects_def Let_def settings_kept)
qed

text \<open>
  Whatever is done to a ladder with regular settings, they stay regular and are what the next mount reads: the text stored
  after every step gives back the settings of that step.
\<close>
theorem dom_settings_survive:
  fixes now :: rat and c :: dom_config and live :: bool
  assumes "settings_ok (do_settings (dy_dom s))" "op_numeric op"
  defines "s' \<equiv> dom_step now c live op s"
  shows "settings_ok (do_settings (dy_dom s')) \<and> do_settings (dy_dom (dom_mount (dy_raw s') st)) = do_settings (dy_dom s')"
proof -
  have "dy_raw s' = stored (settings_value (do_settings (dy_dom s')))" by (simp add: s'_def dom_step_def dom_effects_def Let_def)
  then show ?thesis using op_settings [OF assms(1,2)] settings_reload by (simp add: s'_def dom_mount_def Let_def)
qed

theorem dom_settings_survive_witness: "settings_ok (do_settings (dy_dom (dom_step 1 plain_config True (Dom_density (Fin 99) (Fin 1)) sample_mount)))"
proof -
  have "settings_ok (do_settings (dy_dom sample_mount))"
    by (simp add: sample_mount_def dom_mount_def loadSettings_def default_settings_def settings_ok_def Let_def)
  from dom_settings_survive [OF this, of "Dom_density (Fin 99) (Fin 1)"] show ?thesis by simp
qed

lemma account_views_cycle:
  "js_lt (Fin 0) up \<Longrightarrow> \<not> js_lt (Fin 0) down \<Longrightarrow> cycleAccountView down (cycleAccountView up v) = v \<and> cycleAccountView up (cycleAccountView down v) = v"
  by (cases v) (simp_all add: cycleAccountView_def ACCOUNT_VIEWS_def Let_def)

section \<open>Lemmas: rows\<close>

definition cent_level :: "poly_level \<Rightarrow> bool" where
  "cent_level l = (is_fin (pl_size l) \<and> (\<exists>k :: nat. 1 \<le> k \<and> k \<le> 99 \<and> pl_price l = Fin (of_nat k / 100)))"

definition cent_size :: "poly_level list \<Rightarrow> nat \<Rightarrow> rat" where
  "cent_size ls k = sum_list (map (\<lambda>l. fin_val (pl_size l)) (filter (\<lambda>l. pl_price l = Fin (of_nat k / 100)) ls))"

lemma round_nat: "js_round (Fin (of_nat k)) = Fin (of_nat k)"
proof -
  have "\<lfloor>(of_nat k :: rat) + 1 / 2\<rfloor> = int k" by (simp add: floor_eq_iff)
  then show ?thesis by simp
qed

lemma cent_key: "js_round (js_mul (Fin (of_nat k / 100)) (Fin 100)) = Fin (of_nat k)"
  using round_nat [of k] by simp

lemma cent_level_key: "cent_level l \<Longrightarrow> js_round (js_mul (pl_price l) (Fin 100)) = Fin (of_nat k) \<longleftrightarrow> pl_price l = Fin (of_nat k / 100)"
proof -
  assume "cent_level l"
  then obtain j :: nat where j: "pl_price l = Fin (of_nat j / 100)" by (auto simp: cent_level_def)
  show ?thesis unfolding j cent_key by simp
qed

lemma fold_sizes: "is_fin a \<Longrightarrow> list_all (\<lambda>l. is_fin (pl_size l)) ls \<Longrightarrow>
    foldl (\<lambda>c l. js_add c (pl_size l)) a ls = Fin (fin_val a + sum_list (map (\<lambda>l. fin_val (pl_size l)) ls))"
  by (induction ls arbitrary: a) (auto simp: is_fin_conv)

lemma size_at_cents:
  assumes "list_all cent_level ls"
  shows "size_at (mapLevels ls) (Fin (of_nat k)) = Fin (cent_size ls k)"
proof -
  have f: "filter (\<lambda>l. js_round (js_mul (pl_price l) (Fin 100)) = Fin (of_nat k)) ls = filter (\<lambda>l. pl_price l = Fin (of_nat k / 100)) ls"
    using assms cent_level_key by (intro filter_cong) (auto simp: list_all_iff)
  have s: "list_all (\<lambda>l. is_fin (pl_size l)) ls'" if "set ls' \<subseteq> set ls" for ls'
    using that assms by (auto simp: list_all_iff cent_level_def)
  show ?thesis
  proof (cases "filter (\<lambda>l. pl_price l = Fin (of_nat k / 100)) ls")
    case Nil
    then show ?thesis by (simp add: size_at_def mapLevels_def grouped_get f cent_size_def)
  next
    case (Cons l ls')
    then have sub: "set (l # ls') \<subseteq> set ls" by (metis filter_is_subset)
    then have "is_fin (pl_size l)" "list_all (\<lambda>l. is_fin (pl_size l)) ls'" using s [of "l # ls'"] by simp_all
    then show ?thesis using fold_sizes [of "js_add (Fin 0) (pl_size l)" ls'] Cons
      by (auto simp: size_at_def mapLevels_def grouped_get f cent_size_def is_fin_conv)
  qed
qed

lemma mirrored_cent: "list_all cent_level ls \<Longrightarrow> list_all cent_level (mirrored ls)"
proof -
  have "cent_level (l\<lparr>pl_price := js_sub (Fin 1) (pl_price l), pl_count := None, pl_ct := None\<rparr>)" if l: "cent_level l" for l
  proof -
    obtain k :: nat where k: "1 \<le> k" "k \<le> 99" "pl_price l = Fin (of_nat k / 100)" using l by (auto simp: cent_level_def)
    then have "js_sub (Fin 1) (pl_price l) = Fin (of_nat (100 - k) / 100)" by (simp add: of_nat_diff field_simps)
    then have "\<exists>k' :: nat. 1 \<le> k' \<and> k' \<le> 99 \<and> js_sub (Fin 1) (pl_price l) = Fin (of_nat k' / 100)"
      using k(1,2) by (intro exI [of _ "100 - k"] conjI) auto
    then show ?thesis using l by (simp add: cent_level_def)
  qed
  then show "list_all cent_level ls \<Longrightarrow> list_all cent_level (mirrored ls)" by (simp add: mirrored_def list_all_iff)
qed

lemma mirrored_size: "list_all cent_level ls \<Longrightarrow> 1 \<le> k \<Longrightarrow> k \<le> 99 \<Longrightarrow> cent_size (mirrored ls) k = cent_size ls (100 - k)"
proof (induction ls)
  case (Cons l ls)
  obtain j :: nat where j: "1 \<le> j" "j \<le> 99" "pl_price l = Fin (of_nat j / 100)" using Cons.prems by (auto simp: cent_level_def)
  have c: "Fin (of_nat a / 100) = Fin (of_nat b / 100) \<longleftrightarrow> a = b" for a b :: nat by simp
  have m: "js_sub (Fin 1) (pl_price l) = Fin (of_nat (100 - j) / 100)" using j by (simp add: of_nat_diff field_simps)
  have "js_sub (Fin 1) (pl_price l) = Fin (of_nat k / 100) \<longleftrightarrow> pl_price l = Fin (of_nat (100 - k) / 100)"
    unfolding m j(3) c using j(1,2) Cons.prems(2,3) by auto
  then show ?case using Cons by (simp add: mirrored_def cent_size_def del: js_sub_simps)
qed (simp add: mirrored_def cent_size_def)

lemma cent_total: "list_all cent_level ls \<Longrightarrow> sum_list (map (cent_size ls) [1..<100]) = sum_list (map (\<lambda>l. fin_val (pl_size l)) ls)"
proof (induction ls)
  case (Cons l ls)
  obtain j where j: "1 \<le> j" "j \<le> 99" "pl_price l = Fin (of_nat j / 100)" using Cons.prems by (auto simp: cent_level_def)
  have "cent_size (l # ls) = (\<lambda>k. (if k = j then fin_val (pl_size l) else 0) + cent_size ls k)"
    using j by (intro ext) (auto simp: cent_size_def)
  then have "sum_list (map (cent_size (l # ls)) [1..<100]) = sum_list (map (\<lambda>k. if k = j then fin_val (pl_size l) else 0) [1..<100]) + sum_list (map (cent_size ls) [1..<100])"
    by (simp only: sum_list_addf)
  moreover have "sum_list (map (\<lambda>k. if k = j then fin_val (pl_size l) else 0) [1..<100]) = fin_val (pl_size l)"
    using j by (simp add: sum_list_distinct_conv_sum_set sum.delta del: upt_Suc)
  ultimately show ?case using Cons by simp
next
  case Nil
  have "cent_size [] = (\<lambda>k. 0)" by (rule ext) (simp add: cent_size_def)
  then show ?case by (simp only: sum_list_0) simp
qed

lemma price_index: "i < 99 \<Longrightarrow> priceRange ! i = Fin (of_nat (99 - i))"
  by (simp add: priceRange_def of_nat_diff)

lemma priceRange_rev: "priceRange = rev (map (\<lambda>k. Fin (of_nat k)) [1..<100])"
  by (rule nth_equalityI) (auto simp: rev_nth price_index priceRange_def of_nat_diff)

text \<open>
  The ladder of a book with prices in whole cents has a row for each price from 99 down to 1.  A row holds the summed sizes
  of the bids and asks at its price for YES; the NO columns mirror them: the NO bids at a price are the YES asks
  at its complement and the NO asks the YES bids.  No size is lost or counted twice.
\<close>
theorem dom_rows_mirror:
  assumes "list_all cent_level (pb_bids b)" "list_all cent_level (pb_asks b)"
  shows "map dr_p (dom_rows (Some b)) = rev (map (\<lambda>k. Fin (of_nat k)) [1..<100]) \<and>
    (\<forall>i < 99. dr_yBid (dom_rows (Some b) ! i) = Fin (cent_size (pb_bids b) (99 - i)) \<and>
      dr_yAsk (dom_rows (Some b) ! i) = Fin (cent_size (pb_asks b) (99 - i)) \<and>
      dr_nBid (dom_rows (Some b) ! (98 - i)) = dr_yAsk (dom_rows (Some b) ! i) \<and>
      dr_nAsk (dom_rows (Some b) ! (98 - i)) = dr_yBid (dom_rows (Some b) ! i)) \<and>
    js_sum (map dr_yBid (dom_rows (Some b))) = js_sum (map pl_size (pb_bids b)) \<and>
    js_sum (map dr_yAsk (dom_rows (Some b))) = js_sum (map pl_size (pb_asks b))"
proof -
  define R where "R = dom_rows (Some b)"
  have R: "R = map (\<lambda>p. \<lparr>dr_p = p, dr_nP = p, dr_yBid = size_at (mapLevels (pb_bids b)) p, dr_yAsk = size_at (mapLevels (pb_asks b)) p,
      dr_nBid = size_at (mapLevels (mirrored (pb_asks b))) p, dr_nAsk = size_at (mapLevels (mirrored (pb_bids b))) p,
      dr_mid = js_eq p (yes_mid b) \<or> js_eq p (js_sub (Fin 100) (yes_mid b))\<rparr>) priceRange"
    by (simp add: R_def dom_rows_def Let_def)
  have p: "map dr_p R = priceRange" by (simp add: R comp_def)
  have len: "length priceRange = 99" by (simp add: priceRange_def)
  have at: "dr_yBid (R ! i) = Fin (cent_size (pb_bids b) (99 - i))" "dr_yAsk (R ! i) = Fin (cent_size (pb_asks b) (99 - i))"
    "dr_nBid (R ! i) = Fin (cent_size (mirrored (pb_asks b)) (99 - i))" "dr_nAsk (R ! i) = Fin (cent_size (mirrored (pb_bids b)) (99 - i))"
    if "i < 99" for i
    using that assms mirrored_cent by (simp_all add: R len price_index size_at_cents del: of_nat_diff)
  have n: "dr_nBid (R ! (98 - i)) = dr_yAsk (R ! i)" "dr_nAsk (R ! (98 - i)) = dr_yBid (R ! i)" if i: "i < 99" for i
  proof -
    have "98 - i < 99" "99 - (98 - i) = i + 1" "1 \<le> i + 1" "i + 1 \<le> 99" "100 - (i + 1) = 99 - i" using i by auto
    then show "dr_nBid (R ! (98 - i)) = dr_yAsk (R ! i)" "dr_nAsk (R ! (98 - i)) = dr_yBid (R ! i)"
      using at [OF i] at(3,4) [of "98 - i"] mirrored_size [of _ "i + 1"] assms by metis+
  qed
  have t: "js_sum (map (size_at (mapLevels ls)) priceRange) = js_sum (map pl_size ls)" if ls: "list_all cent_level ls" for ls
  proof -
    have "map (size_at (mapLevels ls)) priceRange = map Fin (rev (map (cent_size ls) [1..<100]))"
      by (simp add: priceRange_rev rev_map comp_def size_at_cents [OF ls] del: upt_Suc)
    moreover have "map pl_size ls = map Fin (map (\<lambda>l. fin_val (pl_size l)) ls)"
      using ls by (auto simp: list_all_iff cent_level_def)
    ultimately show ?thesis using cent_total [OF ls] by (simp only: js_sum_Fin sum_list_rev)
  qed
  have "map dr_yBid R = map (size_at (mapLevels (pb_bids b))) priceRange" "map dr_yAsk R = map (size_at (mapLevels (pb_asks b))) priceRange"
    by (simp_all add: R comp_def)
  then show ?thesis using at(1,2) n t assms p unfolding R_def [symmetric] priceRange_rev by simp
qed

definition cents_book :: poly_book where
  "cents_book = \<lparr>pb_market_key = ''BTC_5min'', pb_question = '''', pb_up_token_id = '''',
     pb_bids = [\<lparr>pl_price = Fin (40 / 100), pl_size = Fin 5, pl_count = None, pl_ct = None\<rparr>],
     pb_asks = [\<lparr>pl_price = Fin (42 / 100), pl_size = Fin 7, pl_count = None, pl_ct = None\<rparr>], pb_best_bid = JNull, pb_best_ask = JNull,
     pb_mid = JNum (Fin (41 / 100)), pb_spread_pct = JNull, pb_up_pct = Fin 41, pb_down_pct = Fin 59, pb_ltp = JNull, pb_ltp_size = None,
     pb_expiry_ts = Fin 0, pb_live = True, pb_timestamp_ms = Fin 0, pb_seen_ms = None\<rparr>"

theorem dom_rows_mirror_witness: "js_sum (map dr_yBid (dom_rows (Some cents_book))) = Fin 5"
proof -
  have "cent_level \<lparr>pl_price = Fin (of_nat k / 100), pl_size = Fin q, pl_count = None, pl_ct = None\<rparr>" if "1 \<le> k" "k \<le> 99" for k :: nat and q
    using that unfolding cent_level_def by auto
  from this [of 40 5] this [of 42 7] have "list_all cent_level (pb_bids cents_book)" "list_all cent_level (pb_asks cents_book)"
    by (simp_all add: cents_book_def)
  from dom_rows_mirror [OF this] have "js_sum (map dr_yBid (dom_rows (Some cents_book))) = js_sum (map pl_size (pb_bids cents_book))" by blast
  then show ?thesis by (simp add: cents_book_def js_sum_def)
qed

section \<open>Lemmas: flashing\<close>

lemma flash_same:
  assumes "\<forall>(k, v) \<in> set cells. dict_get prevs k = Some v \<and> v \<noteq> NaN"
  shows "\<exists>prevs'. foldl flash_cell (next, prevs) cells = (next, prevs') \<and> map_of prevs' = map_of prevs"
  using assms
proof (induction cells arbitrary: prevs)
  case (Cons c cells)
  obtain k v where c: "c = (k, v)" by (cases c)
  have g: "dict_get prevs k = Some v" "v \<noteq> NaN" using Cons.prems c by auto
  then have "js_eq v v" by (cases v) simp_all
  then have s: "flash_cell (next, prevs) c = (next, dict_set k v prevs)" using g by (simp add: flash_cell_def c)
  have m: "map_of (dict_set k v prevs) = map_of prevs" using g(1) by (auto simp: update_conv')
  have "\<forall>(k', v') \<in> set cells. dict_get (dict_set k v prevs) k' = Some v' \<and> v' \<noteq> NaN" unfolding m using Cons.prems by simp
  from Cons.IH [OF this] show ?case by (simp add: s m)
qed simp

text \<open>
  A new book within half a second that changes no cell drops the timer of the cells that flash and sets no new one: they
  stay highlighted, and the end of the half second changes nothing.
\<close>

lemma flash_stuck:
  assumes "\<forall>(k, v) \<in> set (concat (map row_cells rows)). dict_get (fs_prev s) k = Some v \<and> v \<noteq> NaN"
  shows "fs_flash (flash_timeout (flash_rows rows s)) = fs_flash s \<and> fs_timer (flash_rows rows s) = None"
  using flash_same [OF assms, of "[]"] by (auto simp: flash_rows_def flash_timeout_def split_beta)

end
