(* ===== verification/Markets.thy ===== *)
theory Markets
  imports Executions
begin

text \<open>
  The markets of \<open>components/WorkspaceDesktop.tsx\<close>: the hooks that poll the services, the readiness they derive,
  the product options every window chooses from, the selector and the product tree, the table of market data with
  its columns, and the liquidity map.  \<open>localeCompare\<close> and \<open>Math.log10\<close> are parameters, and so is the answer to
  every request.
\<close>

section \<open>Polling\<close>

text \<open>What a request ends with: an exception and its message, a refused status, or the payload.\<close>

datatype 'a reply = Raised "string option" | Refused nat | Payload 'a

record 'a endpoint =
  ep_data :: "'a option"
  ep_error :: string

definition empty_endpoint :: "'a endpoint" where
  "empty_endpoint = \<lparr>ep_data = None, ep_error = ''''\<rparr>"

definition http_status :: "nat \<Rightarrow> string" where
  "http_status n = ''HTTP '' @ jsnum_string (Fin (of_nat n))"

definition endpoint_pull :: "bool \<Rightarrow> 'a reply \<Rightarrow> 'a endpoint \<Rightarrow> 'a endpoint" where
  "endpoint_pull cancelled r e =
     (if cancelled then e
      else (case r of
              Payload p \<Rightarrow> \<lparr>ep_data = Some p, ep_error = ''''\<rparr>
            | Refused n \<Rightarrow> e\<lparr>ep_error := http_status n\<rparr>
            | Raised m \<Rightarrow> e\<lparr>ep_error := opt_or m ''Refresh failed''\<rparr>))"

text \<open>
  The positions window pulls into its own state and into the store.  A snapshot the service calls unavailable is
  ignored, and leaves the error of an earlier pull where it was.
\<close>

definition positions_pull :: "rat \<Rightarrow> sim_patch option reply \<Rightarrow> sim_patch option endpoint \<times> terminal_state \<Rightarrow> sim_patch option endpoint \<times> terminal_state" where
  "positions_pull now r es =
     (case r of
        Raised m \<Rightarrow> ((fst es)\<lparr>ep_error := opt_or m ''Positions refresh failed''\<rparr>, snd es)
      | Refused n \<Rightarrow> ((fst es)\<lparr>ep_error := http_status n\<rparr>, snd es)
      | Payload p \<Rightarrow>
          if ceriousTradingSnapshotUnavailable p then es
          else (case applyCeriousTradingSnapshot now p (snd es) of
                  Inl err \<Rightarrow> ((fst es)\<lparr>ep_data := Some p, ep_error := error_text err\<rparr>, snd es)
                | Inr s \<Rightarrow> (\<lparr>ep_data = Some p, ep_error = ''''\<rparr>, s)))"

definition hydrator_pull :: "rat \<Rightarrow> bool \<Rightarrow> sim_patch option reply \<Rightarrow> terminal_state \<Rightarrow> terminal_state" where
  "hydrator_pull now cancelled r s =
     (if cancelled then s
      else (case r of
              Payload p \<Rightarrow> (case applyCeriousTradingSnapshot now p s of Inl err \<Rightarrow> s | Inr s' \<Rightarrow> s')
            | _ \<Rightarrow> s))"

text \<open>The payload of the market list, when it is an array.\<close>

definition bootstrap_pull :: "bool \<Rightarrow> market_info list option reply \<Rightarrow> terminal_state \<Rightarrow> terminal_state" where
  "bootstrap_pull cancelled r s =
     (case r of Payload (Some ms) \<Rightarrow> if cancelled then s else setMarkets ms True s | _ \<Rightarrow> s)"

section \<open>Readiness\<close>

record readiness =
  rd_gatewayOk :: bool
  rd_marketData :: jsval
  rd_execution :: jsval
  rd_connected :: bool
  rd_priceReady :: bool
  rd_executionReady :: bool
  rd_detail :: jsval
  rd_checkedAt :: rat

definition EMPTY_READINESS :: readiness where
  "EMPTY_READINESS = \<lparr>rd_gatewayOk = False, rd_marketData = JNull, rd_execution = JNull, rd_connected = False,
     rd_priceReady = False, rd_executionReady = False, rd_detail = JStr ''Checking services'', rd_checkedAt = 0\<rparr>"

text \<open>A status that is refused counts as \<open>null\<close>, and so does a rejected request.\<close>

definition settled_value :: "jsval reply \<Rightarrow> jsval" where
  "settled_value r = (case r of Payload v \<Rightarrow> v | _ \<Rightarrow> JNull)"

definition readiness_of :: "rat \<Rightarrow> jsval reply \<Rightarrow> jsval reply \<Rightarrow> jsval reply \<Rightarrow> readiness" where
  "readiness_of now health feed exec =
     (let gatewayOk = truthy (js_get (settled_value health) ''ok''); marketData = settled_value feed; execution = settled_value exec;
          mdConnected = truthy (js_get marketData ''connected''); executionReady = truthy (js_get execution ''healthy'');
          priceReady = truthy (js_get marketData ''priceReady'')
      in \<lparr>rd_gatewayOk = gatewayOk, rd_marketData = marketData, rd_execution = execution,
          rd_connected = (gatewayOk \<and> mdConnected \<and> executionReady), rd_priceReady = priceReady, rd_executionReady = executionReady,
          rd_detail = (if \<not> gatewayOk then JStr ''Gateway down''
            else if \<not> mdConnected then js_or [js_get marketData ''error'', js_get marketData ''detail'', JStr ''Market data connecting'']
            else if \<not> priceReady then JStr ''Market data connected; waiting for first book''
            else if \<not> executionReady then JStr ''Execution service connecting'' else JStr ''Services ready''),
          rd_checkedAt = now\<rparr>)"

definition readiness_pull :: "rat \<Rightarrow> bool \<Rightarrow> jsval reply \<Rightarrow> jsval reply \<Rightarrow> jsval reply \<Rightarrow> readiness \<times> terminal_state \<Rightarrow> readiness \<times> terminal_state" where
  "readiness_pull now cancelled health feed exec rs =
     (if cancelled then rs
      else let next = readiness_of now health feed exec in (next, (snd rs)\<lparr>ss_connected := rd_connected next\<rparr>))"

section \<open>Product options\<close>

fun timeframe_key :: "timeframe \<Rightarrow> string" where
  "timeframe_key TF_20sec = ''20sec''"
| "timeframe_key TF_5min = ''5min''"
| "timeframe_key TF_15min = ''15min''"
| "timeframe_key TF_1h = ''1h''"
| "timeframe_key TF_4h = ''4h''"
| "timeframe_key TF_event = ''event''"

text \<open>The fields of an option that only some of the views read are in \<open>po_rest\<close>.\<close>

definition market_option :: "market_info \<Rightarrow> product_option" where
  "market_option m =
     \<lparr>po_provider = ''cme'', po_symbol = mk_key m, po_label = mk_key m, po_subtitle = mk_question m,
      po_marketKey = Some (mk_key m), po_asset = Some (mk_asset m), po_live = Some (mk_live m),
      po_volume = JNum (mk_volume m), po_openInterest = JUndef, po_tickSize = mk_tickSize m, po_tickValue = mk_tickValue m,
      po_multiplier = mk_multiplier m,
      po_rest = JObj [(''timeframe'', JStr (timeframe_key (mk_timeframe m))), (''yes'', JNum (mk_up_pct m)), (''no'', JNum (mk_down_pct m)),
        (''truthYes'', opt_num (mk_truth_up_pct m)), (''truthNo'', opt_num (mk_truth_down_pct m)),
        (''spot'', opt_num (or_else (mk_price_to_beat m) (or_else (mk_resolution_price m) (mk_start_price m)))),
        (''priceToBeat'', opt_num (or_else (mk_price_to_beat m) (or_else (mk_start_price m) (mk_resolution_price m)))),
        (''expiryTs'', JNum (mk_expiry_ts m)), (''lastUpdate'', opt_num (mk_last_update_ms m))]\<rparr>"

definition rest_num :: "string \<Rightarrow> product_option \<Rightarrow> jsnum option" where
  "rest_num field p = (case js_get (po_rest p) field of JNum x \<Rightarrow> Some x | _ \<Rightarrow> None)"

text \<open>\<open>option[field] !== undefined\<close>, which holds of \<open>null\<close>.\<close>

definition has_field :: "string \<Rightarrow> product_option \<Rightarrow> bool" where
  "has_field field p = (js_get (po_rest p) field \<noteq> JUndef)"

definition CME_PRODUCT_ASSETS :: "asset list" where
  "CME_PRODUCT_ASSETS = [''ES'', ''NQ'', ''YM'', ''RTY'', ''CL'', ''GC'', ''ZM'', ''ZS'', ''ES_NQ'', ''YM_ES'', ''RTY_ES'']"

text \<open>The assets in the order of the server, an absent or empty one left out.\<close>

definition serverAssetOrder :: "asset option list \<Rightarrow> asset list" where
  "serverAssetOrder assets = first_occ (=) (filter (\<lambda>a. a \<noteq> '''') (List.map_filter id assets))"

definition assetRank :: "asset list \<Rightarrow> asset option \<Rightarrow> int" where
  "assetRank order a =
     (case (case a of None \<Rightarrow> None | Some x \<Rightarrow> find_index ((=) x) order) of
        Some i \<Rightarrow> int i
      | None \<Rightarrow> (case find_index ((=) (opt_or a ''EVENT'')) CME_PRODUCT_ASSETS of
            Some j \<Rightarrow> int (length order + j)
          | None \<Rightarrow> 9007199254740991))"

definition by_asset :: "(string \<Rightarrow> string \<Rightarrow> jsnum) \<Rightarrow> (product_option \<Rightarrow> string) \<Rightarrow> asset list \<Rightarrow> product_option \<Rightarrow> product_option \<Rightarrow> jsnum" where
  "by_asset lc name order a b =
     (let rank = assetRank order (po_asset a) - assetRank order (po_asset b)
      in if rank \<noteq> 0 then Fin (of_int rank) else lc (name a) (name b))"

definition useProductOptions :: "(string \<Rightarrow> string \<Rightarrow> jsnum) \<Rightarrow> market_info list \<Rightarrow> product_option list" where
  "useProductOptions lc ms =
     js_sort (by_asset lc po_symbol (serverAssetOrder (map (Some \<circ> mk_asset) ms))) (map market_option ms)"

definition provider_index :: "string \<Rightarrow> int" where
  "provider_index k = (case find_index (\<lambda>p. pd_key p = k) PROVIDERS of Some i \<Rightarrow> int i | None \<Rightarrow> -1)"

definition mappedLiquidityProducts :: "(string \<Rightarrow> string \<Rightarrow> jsnum) \<Rightarrow> product_option list \<Rightarrow> product_option list" where
  "mappedLiquidityProducts lc options =
     js_sort (\<lambda>a b. let providerRank = provider_index (po_provider a) - provider_index (po_provider b)
       in if providerRank \<noteq> 0 then Fin (of_int providerRank)
          else by_asset lc po_symbol (serverAssetOrder (map po_asset options)) a b) options"

record market_row =
  mw_id :: string
  mw_provider :: string
  mw_symbol :: string

definition saved_symbol :: "market_row \<Rightarrow> string" where
  "saved_symbol row = normalizeProductKey (JStr (mw_symbol row))"

text \<open>The option of a saved row; a product that is not in the list is made up, and is live.\<close>

definition productOptionForSavedRow :: "product_option list \<Rightarrow> market_row \<Rightarrow> product_option" where
  "productOptionForSavedRow options row =
     (case List.find (\<lambda>p. po_provider p = mw_provider row \<and> po_symbol p = mw_symbol row) options of
        Some p \<Rightarrow> p
      | None \<Rightarrow>
          let symbol = saved_symbol row in
          \<lparr>po_provider = normalizeProviderKey (JStr (mw_provider row)), po_symbol = symbol, po_label = symbol,
           po_subtitle = symbol @ '' mapped product'', po_marketKey = Some symbol,
           po_asset = (if symbol \<in> set PRODUCT_ASSETS then Some symbol else None), po_live = Some True,
           po_volume = JUndef, po_openInterest = JUndef, po_tickSize = None, po_tickValue = None, po_multiplier = None,
           po_rest = JObj []\<rparr>)"

section \<open>Selection\<close>

definition market_provider_of :: "string \<Rightarrow> market_provider" where
  "market_provider_of k =
     (if k = ''polymarket'' then Polymarket else if k = ''kalshi'' then Kalshi else if k = ''forecasttrader'' then Forecasttrader
      else if k = ''hyperliquid'' then Hyperliquid else if k = ''coingecko'' then Coingecko else CME)"

definition activate_key :: "product_option option \<Rightarrow> terminal_state \<Rightarrow> terminal_state" where
  "activate_key opt s =
     (case opt of None \<Rightarrow> s
      | Some p \<Rightarrow> (case po_marketKey p of None \<Rightarrow> s | Some k \<Rightarrow> if k = '''' then s else setActiveMarketKey (Some k) s))"

definition activate_asset :: "product_option option \<Rightarrow> terminal_state \<Rightarrow> terminal_state" where
  "activate_asset opt s =
     (case opt of None \<Rightarrow> s
      | Some p \<Rightarrow> (case po_asset p of None \<Rightarrow> s | Some a \<Rightarrow> if a = '''' then s else setActiveAsset a s))"

definition find_option :: "string \<Rightarrow> string \<Rightarrow> product_option list \<Rightarrow> product_option option" where
  "find_option provider symbol options = List.find (\<lambda>p. po_provider p = provider \<and> po_symbol p = symbol) options"

text \<open>The selector: the store after the choice and what the window is told.\<close>

definition selectProvider :: "product_option list \<Rightarrow> string \<Rightarrow> terminal_state \<Rightarrow> terminal_state \<times> string \<times> string" where
  "selectProvider options nextProvider s =
     (let provider = normalizeProviderKey (JStr nextProvider); first = List.find (\<lambda>p. po_provider p = provider) options;
          nextSymbol = (case first of None \<Rightarrow> hd PRODUCT_ASSETS | Some p \<Rightarrow> po_symbol p)
      in (activate_asset first (activate_key first (setMarketProvider (market_provider_of provider) s)), provider, nextSymbol))"

definition selectSymbol :: "product_option list \<Rightarrow> string \<Rightarrow> string \<Rightarrow> terminal_state \<Rightarrow> terminal_state \<times> string \<times> string" where
  "selectSymbol options provider nextSymbol s =
     (let activeProvider = normalizeProviderKey (JStr provider); next = find_option activeProvider nextSymbol options
      in (activate_asset next (activate_key next (setMarketProvider (market_provider_of activeProvider) s)), activeProvider, nextSymbol))"

text \<open>A click on a row of the market data.\<close>

definition selectRow :: "product_option option \<Rightarrow> terminal_state \<Rightarrow> terminal_state" where
  "selectRow opt s =
     (case opt of None \<Rightarrow> s
      | Some p \<Rightarrow> activate_key opt (activate_asset opt (setMarketProvider (market_provider_of (po_provider p)) s)))"

definition selectableProviders :: "product_option list \<Rightarrow> string \<Rightarrow> provider_descriptor list" where
  "selectableProviders options provider =
     filter (\<lambda>item. pd_key item = normalizeProviderKey (JStr provider) \<or> pd_key item \<in> po_provider ` set options) PROVIDERS"

section \<open>The product tree\<close>

record product_tree =
  tp_expanded :: string
  tp_query :: string

definition product_id :: "string \<Rightarrow> string \<Rightarrow> string" where
  "product_id provider symbol = provider @ ''-'' @ symbol"

definition tree_matches :: "string \<Rightarrow> product_option \<Rightarrow> bool" where
  "tree_matches query p =
     (let q = to_lower (js_trim query)
      in q = '''' \<or> js_includes q (to_lower (po_label p @ '' '' @ po_symbol p @ '' '' @ po_subtitle p)))"

definition visibleForProvider :: "(string \<Rightarrow> string \<Rightarrow> jsnum) \<Rightarrow> string \<Rightarrow> product_option list \<Rightarrow> string \<Rightarrow> product_option list" where
  "visibleForProvider lc query options provider =
     (let mapped = filter (\<lambda>p. case po_asset p of None \<Rightarrow> False | Some a \<Rightarrow> a \<noteq> '''') options
      in js_sort (by_asset lc po_label (serverAssetOrder (map po_asset mapped)))
           (filter (tree_matches query) (filter (\<lambda>p. po_provider p = provider) mapped)))"

text \<open>A folder that is open closes to the first exchange.\<close>

definition toggle_folder :: "string \<Rightarrow> product_tree \<Rightarrow> product_tree" where
  "toggle_folder key t = t\<lparr>tp_expanded := (if tp_expanded t = key then ''cme'' else key)\<rparr>"

definition is_added :: "market_row list \<Rightarrow> product_option \<Rightarrow> bool" where
  "is_added rows p = (product_id (po_provider p) (po_symbol p) \<in> set (map (\<lambda>r. product_id (mw_provider r) (mw_symbol r)) rows))"

section \<open>The market data window\<close>

record md_column =
  mc_key :: string
  mc_label :: string
  mc_width :: jsnum
  mc_min :: jsnum
  mc_max :: jsnum
  mc_resizable :: bool

definition md_col :: "string \<Rightarrow> string \<Rightarrow> rat \<Rightarrow> rat \<Rightarrow> rat \<Rightarrow> md_column" where
  "md_col key label width lo hi =
     \<lparr>mc_key = key, mc_label = label, mc_width = Fin width, mc_min = Fin lo, mc_max = Fin hi, mc_resizable = True\<rparr>"

definition MARKET_DATA_COLUMNS :: "md_column list" where
  "MARKET_DATA_COLUMNS =
     [md_col ''exchange'' ''Exch'' 48 38 90, md_col ''symbol'' ''Symbol'' 58 42 128, md_col ''last'' ''Last'' 66 50 130,
      md_col ''bid'' ''Bid'' 66 50 130, md_col ''ask'' ''Ask'' 66 50 130, md_col ''bidSize'' ''BidSz'' 50 42 96,
      md_col ''askSize'' ''AskSz'' 50 42 96, md_col ''volume'' ''Vol'' 54 42 110, md_col ''open'' ''Open'' 62 48 120,
      md_col ''high'' ''High'' 62 48 120, md_col ''low'' ''Low'' 62 48 120, md_col ''previous'' ''Prev'' 62 48 120,
      md_col ''change'' ''Chg'' 58 46 112, md_col ''changePct'' ''Chg%'' 58 46 112, md_col ''time'' ''Time'' 88 60 132,
      md_col ''expiry'' ''Exp'' 60 44 96, md_col ''status'' ''Status'' 58 48 92,
      (md_col ''action'' '''' 28 28 38)\<lparr>mc_resizable := False\<rparr>]"

definition DEFAULT_MARKET_DATA_COLUMN_WIDTHS :: "jsnum dict" where
  "DEFAULT_MARKET_DATA_COLUMN_WIDTHS = foldl (\<lambda>acc c. dict_set (mc_key c) (mc_width c) acc) [] MARKET_DATA_COLUMNS"

definition column_width :: "jsnum dict \<Rightarrow> md_column \<Rightarrow> jsnum" where
  "column_width widths c = opt_or (dict_get widths (mc_key c)) NaN"

definition marketDataMinWidth :: "jsnum dict \<Rightarrow> jsnum" where
  "marketDataMinWidth widths =
     js_add (js_add (js_sum (map (column_width widths) MARKET_DATA_COLUMNS))
       (js_mul (Fin (of_nat (length MARKET_DATA_COLUMNS - 1))) (Fin 4))) (Fin 12)"

text \<open>
  The window keeps its rows, widths, font and picker.  Every press on a resize handle adds a listener that remembers
  where it began; a move runs all of them, and letting go removes them.
\<close>

record md_drag =
  dg_column :: md_column
  dg_startX :: jsnum
  dg_startWidth :: jsnum

record md_window =
  md_rows :: "market_row list"
  md_widths :: "jsnum dict"
  md_font :: jsnum
  md_picker :: bool
  md_drags :: "md_drag list"

definition md_initial :: "market_row list \<Rightarrow> md_window" where
  "md_initial rows = \<lparr>md_rows = rows, md_widths = DEFAULT_MARKET_DATA_COLUMN_WIDTHS, md_font = Fin 10, md_picker = False, md_drags = []\<rparr>"

definition addProduct :: "rat \<Rightarrow> product_option \<Rightarrow> market_row list \<Rightarrow> market_row list" where
  "addProduct now p current =
     (if list_ex (\<lambda>row. mw_provider row = po_provider p \<and> mw_symbol row = po_symbol p) current then current
      else current @ [\<lparr>mw_id = ''row-'' @ jsnum_string (Fin now) @ ''-'' @ product_id (po_provider p) (po_symbol p),
        mw_provider = po_provider p, mw_symbol = po_symbol p\<rparr>])"

definition removeRow :: "string \<Rightarrow> market_row list \<Rightarrow> market_row list" where
  "removeRow i current = filter (\<lambda>row. mw_id row \<noteq> i) current"

definition startColumnResize :: "md_column \<Rightarrow> jsnum \<Rightarrow> md_window \<Rightarrow> md_window" where
  "startColumnResize c x w =
     (if \<not> mc_resizable c then w
      else w\<lparr>md_drags := md_drags w @ [\<lparr>dg_column = c, dg_startX = x, dg_startWidth = column_width (md_widths w) c\<rparr>]\<rparr>)"

definition drag_width :: "jsnum \<Rightarrow> md_drag \<Rightarrow> jsnum" where
  "drag_width x d = js_clamp (js_sub (js_add (dg_startWidth d) x) (dg_startX d)) (mc_min (dg_column d)) (mc_max (dg_column d))"

definition moveColumnResize :: "jsnum \<Rightarrow> md_window \<Rightarrow> md_window" where
  "moveColumnResize x w = w\<lparr>md_widths := foldl (\<lambda>ws d. dict_set (mc_key (dg_column d)) (drag_width x d) ws) (md_widths w) (md_drags w)\<rparr>"

text \<open>The pointer is at a finite place, and a column is one of the table.\<close>

inductive md_step :: "md_window \<Rightarrow> md_window \<Rightarrow> bool" where
  md_add: "md_step w (w\<lparr>md_rows := addProduct now p (md_rows w), md_picker := False\<rparr>)" if "md_picker w" "\<not> is_added (md_rows w) p"
| md_remove: "md_step w (w\<lparr>md_rows := removeRow i (md_rows w)\<rparr>)"
| md_open: "md_step w (w\<lparr>md_picker := True\<rparr>)"
| md_close: "md_step w (w\<lparr>md_picker := False\<rparr>)" if "md_picker w"
| md_smaller: "md_step w (w\<lparr>md_font := js_clamp (js_sub (md_font w) (Fin 1)) (Fin 8) (Fin 14)\<rparr>)"
| md_larger: "md_step w (w\<lparr>md_font := js_clamp (js_add (md_font w) (Fin 1)) (Fin 8) (Fin 14)\<rparr>)"
| md_press: "md_step w (startColumnResize c (Fin x) w)" if "c \<in> set MARKET_DATA_COLUMNS"
| md_move: "md_step w (moveColumnResize (Fin x) w)"
| md_release: "md_step w (w\<lparr>md_drags := []\<rparr>)"

section \<open>Rows of quotes\<close>

datatype row_status = Open_row | Stale_row | Wait_row

record quote_row =
  qr_row :: market_row
  qr_option :: product_option
  qr_mode :: quote_mode
  qr_last :: "jsnum option"
  qr_bid :: "jsnum option"
  qr_ask :: "jsnum option"
  qr_bidSize :: "jsnum option"
  qr_askSize :: "jsnum option"
  qr_spread :: "jsnum option"
  qr_status :: row_status
  qr_change24h :: "jsnum option"
  qr_edge :: "jsnum option"
  qr_volume :: jsnum
  qr_open :: "jsnum option"
  qr_high :: "jsnum option"
  qr_low :: "jsnum option"
  qr_previousClose :: "jsnum option"
  qr_change :: "jsnum option"
  qr_timestamp :: "jsnum option"

fun num_of :: "jsval \<Rightarrow> jsnum option" where
  "num_of (JNum x) = Some x"
| "num_of _ = None"

fun nullish_chain :: "'a option list \<Rightarrow> 'a option" where
  "nullish_chain [] = None"
| "nullish_chain (x # xs) = or_else x (nullish_chain xs)"

definition truthy_num :: "jsnum option \<Rightarrow> jsnum option" where
  "truthy_num v = (case v of Some x \<Rightarrow> if x = NaN \<or> x = Fin 0 then None else Some x | None \<Rightarrow> None)"

text \<open>The last price a book carries; \<open>Number(null)\<close> is 0.\<close>

definition bookLtp :: "quote_mode \<Rightarrow> poly_book option \<Rightarrow> jsnum option" where
  "bookLtp mode book =
     (case book of None \<Rightarrow> None
      | Some b \<Rightarrow> if is_fin (js_num (pb_ltp b)) then Some (js_num (pb_ltp b))
          else if mode = PriceMode \<and> is_fin (pb_up_pct b) then Some (pb_up_pct b) else None)"

definition quote_mode_of :: "product_option \<Rightarrow> poly_book option \<Rightarrow> poly_tick list \<Rightarrow> quote_mode" where
  "quote_mode_of p book ticks =
     (if bookUsesRawPrices book ticks \<or> po_provider p = ''cme'' then PriceMode
      else if rest_num ''spot'' p \<noteq> None \<and> book = None then MoneyMode else CentsMode)"

definition quote_side :: "quote_mode \<Rightarrow> jsval option \<Rightarrow> jsnum option \<Rightarrow> jsnum option \<Rightarrow> rat \<Rightarrow> (jsnum \<Rightarrow> jsnum) \<Rightarrow> jsnum option" where
  "quote_side mode best lastPrice mid factor around =
     (case Option.bind best num_of of
        Some b \<Rightarrow> Some (if mode = CentsMode then js_mul b (Fin 100) else b)
      | None \<Rightarrow>
          (case (mode, lastPrice) of
             (MoneyMode, Some l) \<Rightarrow> Some (js_mul l (Fin factor))
           | (PriceMode, Some l) \<Rightarrow> Some l
           | _ \<Rightarrow> map_option around mid))"

definition pl_first :: "poly_level list \<Rightarrow> jsnum option" where
  "pl_first ls = (case ls of [] \<Rightarrow> None | l # _ \<Rightarrow> Some (pl_size l))"

definition row_status_of :: "rat \<Rightarrow> bool option \<Rightarrow> bool \<Rightarrow> jsnum option \<Rightarrow> row_status" where
  "row_status_of now live quoted seen =
     (if live = Some True \<and> quoted then Open_row
      else (case truthy_num seen of
              Some t \<Rightarrow> if js_lt (js_sub (Fin now) t) (Fin 30000) then Open_row else Stale_row
            | None \<Rightarrow> if live = Some True then Open_row else Wait_row))"

definition quote_row_of :: "rat \<Rightarrow> product_option list \<Rightarrow> terminal_state \<Rightarrow> market_row \<Rightarrow> quote_row" where
  "quote_row_of now options s row =
     (let p = productOptionForSavedRow options row; key = (case po_marketKey p of Some k \<Rightarrow> if k = '''' then None else Some k | None \<Rightarrow> None);
          book = Option.bind key (dict_get (ss_polyBooks s));
          ticks = (case key of None \<Rightarrow> [] | Some k \<Rightarrow> opt_or (dict_get (ss_polyTicks s) k) []);
          marketFills = (case key of None \<Rightarrow> [] | Some k \<Rightarrow> opt_or (dict_get (ss_fills s) k) []);
          latest = latestTradeForMarket ticks marketFills;
          assetBars = (case po_asset p of None \<Rightarrow> [] | Some a \<Rightarrow> if a = '''' then [] else opt_or (dict_get (ss_bars s) a) []);
          pHistory = (case key of None \<Rightarrow> [] | Some k \<Rightarrow> opt_or (dict_get (ss_probHistory s) k) []);
          mode = quote_mode_of p book ticks;
          stats = (if mode = MoneyMode then barStats assetBars else probabilityStats pHistory);
          futures = (if mode = PriceMode then barStats assetBars else None);
          mid = (if mode = PriceMode then rest_num ''priceToBeat'' p else rest_num ''yes'' p);
          bookMid = Option.bind book (num_of \<circ> pb_mid);
          lastPrice = (case mode of
              PriceMode \<Rightarrow> nullish_chain [bookLtp mode book, map_option pt_price latest, bookMid, rest_num ''priceToBeat'' p,
                map_option qs_last futures, rest_num ''yes'' p]
            | MoneyMode \<Rightarrow> or_else (rest_num ''spot'' p) (map_option qs_last stats)
            | CentsMode \<Rightarrow> nullish_chain [yesPriceFromTrade latest, map_option (\<lambda>m. js_mul m (Fin 100)) bookMid,
                map_option qs_last stats, rest_num ''yes'' p]);
          bid = quote_side mode (map_option pb_best_bid book) lastPrice mid (9999 / 10000) (\<lambda>m. js_max (Fin 0) (js_sub m (Fin (1 / 2))));
          ask = quote_side mode (map_option pb_best_ask book) lastPrice mid (10001 / 10000) (\<lambda>m. js_min (Fin 100) (js_add m (Fin (1 / 2))));
          derived = (if mode = MoneyMode \<and> truthy_num lastPrice \<noteq> None
            then map_option (\<lambda>v. js_div v (Fin 2)) (truthy_num (map_option qs_volume stats)) else None);
          seen = nullish_chain [map_option (\<lambda>b. opt_or (pb_seen_ms b) (pb_timestamp_ms b)) book, map_option pt_timestamp latest,
            map_option qs_timestamp futures, map_option qs_timestamp stats, rest_num ''lastUpdate'' p];
          previousClose = (if mode = PriceMode then or_else (Option.bind futures qs_previousClose) (rest_num ''priceToBeat'' p)
            else or_else (Option.bind stats qs_previousClose) (if mode = MoneyMode then rest_num ''spot'' p else None));
          change = (case (lastPrice, previousClose) of (Some l, Some c) \<Rightarrow> Some (js_sub l c) | _ \<Rightarrow> None)
      in \<lparr>qr_row = row, qr_option = p, qr_mode = mode, qr_last = lastPrice, qr_bid = bid, qr_ask = ask,
          qr_bidSize = nullish_chain [Option.bind book (pl_first \<circ> pb_bids), derived,
            if mode = CentsMode then Some (sumTradeContracts (slice_last 20 ticks)) else None],
          qr_askSize = nullish_chain [Option.bind book (pl_first \<circ> pb_asks), derived,
            if mode = CentsMode then Some (sumTradeContracts (slice_last 20 marketFills)) else None],
          qr_spread = or_else (Option.bind book (num_of \<circ> pb_spread_pct))
            (case (bid, ask) of (Some b, Some a) \<Rightarrow> Some (js_sub a b) | _ \<Rightarrow> None),
          qr_status = row_status_of now (po_live p) (lastPrice \<noteq> None \<or> bid \<noteq> None \<or> ask \<noteq> None) seen,
          qr_change24h = (case (change, truthy_num previousClose) of (Some c, Some pc) \<Rightarrow> Some (js_mul (js_div c pc) (Fin 100)) | _ \<Rightarrow> None),
          qr_edge = (case (rest_num ''truthYes'' p, rest_num ''yes'' p) of (Some t, Some y) \<Rightarrow> Some (js_sub t y) | _ \<Rightarrow> None),
          qr_volume = opt_or (nullish_chain [num_of (po_volume p), map_option qs_volume futures, map_option qs_volume stats])
            (js_add (sumTradeNotional ticks) (sumTradeNotional marketFills)),
          qr_open = nullish_chain [map_option qs_open futures, map_option qs_open stats, lastPrice],
          qr_high = nullish_chain [map_option qs_high futures, map_option qs_high stats, lastPrice],
          qr_low = nullish_chain [map_option qs_low futures, map_option qs_low stats, lastPrice],
          qr_previousClose = previousClose, qr_change = change, qr_timestamp = seen\<rparr>)"

text \<open>The CME symbols the window subscribes to.\<close>

definition cmeRowSymbols :: "product_option list \<Rightarrow> market_row list \<Rightarrow> string list" where
  "cmeRowSymbols options rows =
     concat (map (\<lambda>row. let p = productOptionForSavedRow options row in
       if po_provider p \<noteq> ''cme'' then [] else [to_upper (opt_or (po_marketKey p) (opt_or (po_asset p) (po_symbol p)))]) rows)"

section \<open>The generic ladder\<close>

record generic_level =
  gl_price :: jsnum
  gl_near :: bool
  gl_yesDepth :: jsnum
  gl_noDepth :: jsnum

definition generic_center :: "product_option option \<Rightarrow> jsnum" where
  "generic_center opt = js_round (opt_or (Option.bind opt (rest_num ''yes'')) (Fin 50))"

definition generic_price :: "jsnum \<Rightarrow> nat \<Rightarrow> jsnum" where
  "generic_price center i = js_max (Fin 1) (js_min (Fin 99) (js_sub (js_add center (Fin 15)) (Fin (of_nat i))))"

text \<open>The depth shown is computed from the distance to the price: no book is read.\<close>

definition generic_level_of :: "product_option option \<Rightarrow> nat \<Rightarrow> generic_level" where
  "generic_level_of opt i =
     (let center = generic_center opt; price = generic_price center i
      in \<lparr>gl_price = price, gl_near = js_le (js_abs (js_sub price center)) (Fin 1),
          gl_yesDepth = js_max (Fin 0) (js_sub (Fin 1000) (js_mul (js_abs (js_sub price center)) (Fin 55))),
          gl_noDepth = js_max (Fin 0) (js_sub (Fin 880)
            (js_mul (js_abs (js_sub (js_sub (Fin 100) price) (opt_or (Option.bind opt (rest_num ''no'')) (Fin 50)))) (Fin 45)))\<rparr>)"

definition generic_levels :: "product_option option \<Rightarrow> generic_level list" where
  "generic_levels opt = map (generic_level_of opt) [0..<31]"

datatype ladder_body = Choose_product | Outcome_ladder "string option" string | Common_ladder "product_option option"

definition ladder_window :: "product_option list \<Rightarrow> string \<Rightarrow> string \<Rightarrow> ladder_body" where
  "ladder_window options provider symbol =
     (let opt = find_option provider symbol options
      in if symbol = '''' then Choose_product
         else if provider = ''polymarket''
         then Outcome_ladder (or_else (Option.bind opt po_marketKey) (Some symbol)) (option_label opt symbol)
         else Common_ladder opt)"

section \<open>The liquidity map\<close>

datatype feed_state = Feed_live | Feed_partial | Feed_awaiting

record liquidity_row =
  lq_option :: product_option
  lq_activity :: jsnum
  lq_providerVolume :: jsnum
  lq_oiProxy :: jsnum
  lq_spread :: "jsnum option"
  lq_bookDepth :: jsnum
  lq_bidDepth :: jsnum
  lq_askDepth :: jsnum
  lq_tapeContracts :: jsnum
  lq_fillContracts :: jsnum
  lq_fillVolume :: jsnum
  lq_dataFields :: nat
  lq_feedState :: feed_state
  lq_last :: jsval
  lq_liquidityScore :: jsnum

definition notional_sum :: "poly_tick list \<Rightarrow> jsnum" where
  "notional_sum ticks = js_sum (map (\<lambda>t. js_mul (js_div (pt_price t) (Fin 100)) (pt_size t)) ticks)"

definition depth_sum :: "poly_level list \<Rightarrow> jsnum" where
  "depth_sum levels = js_sum (map pl_size levels)"

definition estimated_spread :: "(jsnum \<Rightarrow> jsnum) \<Rightarrow> product_option \<Rightarrow> jsnum \<Rightarrow> jsnum option" where
  "estimated_spread log10 p activity =
     (if po_live p \<noteq> Some True then None
      else if po_provider p = ''hyperliquid'' then Some (Fin (2 / 100))
      else Some (js_max (Fin (1 / 2)) (js_sub (Fin 8) (log10 (js_max activity (Fin 1))))))"

definition log_points :: "(jsnum \<Rightarrow> jsnum) \<Rightarrow> jsnum \<Rightarrow> rat \<Rightarrow> jsnum" where
  "log_points log10 x weight = js_mul (log10 (js_add x (Fin 1))) (Fin weight)"

definition liquidity_score :: "(jsnum \<Rightarrow> jsnum) \<Rightarrow> jsnum \<Rightarrow> jsnum \<Rightarrow> jsnum \<Rightarrow> jsnum \<Rightarrow> nat \<Rightarrow> feed_state \<Rightarrow> jsnum option \<Rightarrow> jsnum" where
  "liquidity_score log10 activity oiProxy bookDepth tapeContracts dataFields feedState spread =
     js_clamp (js_sub
       (js_add (js_add (js_add (js_add (js_add
          (log_points log10 activity 16) (log_points log10 oiProxy 10)) (log_points log10 bookDepth 8)) (log_points log10 tapeContracts 5))
          (Fin (of_nat (dataFields * 3))))
          (case feedState of Feed_live \<Rightarrow> Fin 10 | Feed_partial \<Rightarrow> Fin 3 | Feed_awaiting \<Rightarrow> Fin 0))
       (js_mul (opt_or spread (Fin 10)) (Fin (5 / 4)))) (Fin 0) (Fin 100)"

definition liquidity_row_of :: "(jsnum \<Rightarrow> jsnum) \<Rightarrow> terminal_state \<Rightarrow> product_option \<Rightarrow> liquidity_row" where
  "liquidity_row_of log10 s p =
     (let key = (case po_marketKey p of Some k \<Rightarrow> if k = '''' then None else Some k | None \<Rightarrow> None);
          book = Option.bind key (dict_get (ss_polyBooks s));
          ticks = (case key of None \<Rightarrow> [] | Some k \<Rightarrow> opt_or (dict_get (ss_polyTicks s) k) []);
          fillRows = (case key of None \<Rightarrow> [] | Some k \<Rightarrow> opt_or (dict_get (ss_fills s) k) []);
          bidDepth = (case book of None \<Rightarrow> Fin 0 | Some b \<Rightarrow> depth_sum (pb_bids b));
          askDepth = (case book of None \<Rightarrow> Fin 0 | Some b \<Rightarrow> depth_sum (pb_asks b));
          bookDepth = js_add bidDepth askDepth;
          bookNotional = (case book of None \<Rightarrow> Fin 0 | Some b \<Rightarrow> js_sum (map (\<lambda>l. js_mul (pl_size l) (pl_price l)) (pb_bids b @ pb_asks b)));
          tapeVolume = notional_sum ticks; tapeContracts = js_sum (map pt_size ticks);
          fillVolume = notional_sum fillRows; fillContracts = js_sum (map pt_size fillRows);
          providerVolume = opt_or (num_of (po_volume p)) (Fin 0);
          activity = js_add (js_add providerVolume tapeVolume) fillVolume;
          oiProxy = opt_or (num_of (po_openInterest p))
            (js_add (js_add bookNotional fillVolume) (js_max (js_mul activity (Fin (18 / 100))) (Fin 0)));
          spread = or_else (Option.bind book (num_of \<circ> pb_spread_pct)) (estimated_spread log10 p activity);
          bookMid = (case book of None \<Rightarrow> JUndef
            | Some b \<Rightarrow> if pb_mid b = JUndef then JUndef else JNum (js_mul (js_num (pb_mid b)) (Fin 100)));
          hasQuote = (has_field ''spot'' p \<or> has_field ''yes'' p \<or> bookMid \<noteq> JUndef);
          hasVenueData = (js_lt (Fin 0) providerVolume \<or> book \<noteq> None \<or> ticks \<noteq> [] \<or> fillRows \<noteq> []);
          feedState = (if hasVenueData then Feed_live else if hasQuote \<or> po_live p = Some True then Feed_partial else Feed_awaiting);
          lastPrice = js_nn [js_get (po_rest p) ''spot'', js_get (po_rest p) ''yes'', bookMid];
          dataFields = length (filter id [js_lt (Fin 0) providerVolume, js_lt (Fin 0) oiProxy, js_lt (Fin 0) bookDepth,
            js_lt (Fin 0) tapeContracts, js_lt (Fin 0) fillContracts, spread \<noteq> None, lastPrice \<noteq> JUndef])
      in \<lparr>lq_option = p, lq_activity = activity, lq_providerVolume = providerVolume, lq_oiProxy = oiProxy, lq_spread = spread,
          lq_bookDepth = bookDepth, lq_bidDepth = bidDepth, lq_askDepth = askDepth, lq_tapeContracts = tapeContracts,
          lq_fillContracts = fillContracts, lq_fillVolume = fillVolume, lq_dataFields = dataFields, lq_feedState = feedState,
          lq_last = lastPrice,
          lq_liquidityScore = liquidity_score log10 activity oiProxy bookDepth tapeContracts dataFields feedState spread\<rparr>)"

definition by_score :: "liquidity_row \<Rightarrow> liquidity_row \<Rightarrow> jsnum" where
  "by_score a b = js_sub (lq_liquidityScore b) (lq_liquidityScore a)"

definition liquidity_rows :: "(string \<Rightarrow> string \<Rightarrow> jsnum) \<Rightarrow> (jsnum \<Rightarrow> jsnum) \<Rightarrow> string \<Rightarrow> jsnum \<Rightarrow> product_option list \<Rightarrow> terminal_state \<Rightarrow> liquidity_row list" where
  "liquidity_rows lc log10 providerFilter minVolume rawOptions s =
     js_sort by_score (filter (\<lambda>r. js_le minVolume (lq_activity r))
       (filter (\<lambda>r. providerFilter = ''all'' \<or> po_provider (lq_option r) = providerFilter)
         (map (liquidity_row_of log10 s) (mappedLiquidityProducts lc rawOptions))))"

definition minVolume_of :: "string \<Rightarrow> jsnum" where
  "minVolume_of typed = js_max (Fin 0) (or_num (js_num (JStr typed)) (Fin 0))"

record provider_stats =
  pv_provider :: provider_descriptor
  pv_rows :: nat
  pv_live :: nat
  pv_partial :: nat
  pv_awaiting :: nat
  pv_activity :: jsnum

definition feed_count :: "feed_state \<Rightarrow> liquidity_row list \<Rightarrow> nat" where
  "feed_count st rows = length (filter (\<lambda>r. lq_feedState r = st) rows)"

definition providerStats :: "liquidity_row list \<Rightarrow> provider_stats list" where
  "providerStats rows =
     map (\<lambda>provider. let mine = filter (\<lambda>r. po_provider (lq_option r) = pd_key provider) rows
       in \<lparr>pv_provider = provider, pv_rows = length mine, pv_live = feed_count Feed_live mine, pv_partial = feed_count Feed_partial mine,
           pv_awaiting = feed_count Feed_awaiting mine, pv_activity = js_sum (map lq_activity mine)\<rparr>) PROVIDERS"

definition largest :: "(liquidity_row \<Rightarrow> jsnum) \<Rightarrow> liquidity_row list \<Rightarrow> jsnum" where
  "largest field rows = js_max_list (Fin 1 # map field rows)"

definition liquidity_bar :: "(liquidity_row \<Rightarrow> jsnum) \<Rightarrow> liquidity_row list \<Rightarrow> liquidity_row \<Rightarrow> jsnum" where
  "liquidity_bar field rows r = js_mul (js_div (field r) (largest field rows)) (Fin 100)"

definition score_colour :: "jsnum \<Rightarrow> string" where
  "score_colour score = (if js_lt (Fin 70) score then ''text-up'' else if js_lt (Fin 45) score then ''text-warn'' else ''text-muted'')"

section \<open>Lemmas\<close>

text \<open>A pull keeps the last payload and clears the error exactly when it succeeds.\<close>

lemma endpoint_keeps_data: "ep_data (endpoint_pull cancelled r e) = None \<Longrightarrow> ep_data e = None"
  by (auto simp: endpoint_pull_def split: reply.splits if_splits)

lemma hydrator_keeps_markets: "ss_markets (hydrator_pull now cancelled r s) = ss_markets s"
  by (auto simp: hydrator_pull_def applyCeriousTradingSnapshot_def setSimTradingState_def Let_def
      split: reply.splits sum.splits option.splits if_splits)

subsection \<open>Ranks\<close>

lemma find_index_Some: "find_index P xs = Some i \<Longrightarrow> i < length xs \<and> P (xs ! i)"
  by (induction xs arbitrary: i) (auto split: if_splits)

lemma find_index_None: "find_index P xs = None \<longleftrightarrow> (\<forall>x \<in> set xs. \<not> P x)"
  by (induction xs) auto

lemma rank_known: "a \<in> set order \<Longrightarrow> \<exists>i. find_index ((=) a) order = Some i \<and> assetRank order (Some a) = int i"
  by (cases "find_index ((=) a) order") (auto simp: assetRank_def find_index_None)

lemma rank_inj:
  assumes "a \<in> set order" "b \<in> set order" "assetRank order (Some a) = assetRank order (Some b)"
  shows "a = b"
proof -
  obtain i j where "find_index ((=) a) order = Some i" "find_index ((=) b) order = Some j" "i = j"
    using rank_known [OF assms(1)] rank_known [OF assms(2)] assms(3) by auto
  then show ?thesis using find_index_Some [of "(=) a"] find_index_Some [of "(=) b"] by metis
qed

lemma in_serverAssetOrder: "set (serverAssetOrder as) = {a. Some a \<in> set as \<and> a \<noteq> ''''}"
proof -
  let ?xs = "filter (\<lambda>a. a \<noteq> '''') (List.map_filter id as)"
  have "id ` set (first_occ (=) ?xs) = id ` set ?xs"
    by (rule first_occ_key [THEN conjunct2]) simp
  then show ?thesis by (force simp: serverAssetOrder_def List.map_filter_def)
qed

subsection \<open>The comparator of options\<close>

definition collates :: "('a \<Rightarrow> 'a \<Rightarrow> jsnum) \<Rightarrow> bool" where
  "collates lc = ((\<forall>x y. cmp_le lc x y \<or> cmp_le lc y x) \<and> (\<forall>x y z. cmp_le lc x y \<longrightarrow> cmp_le lc y z \<longrightarrow> cmp_le lc x z))"

lemma by_asset_le: "cmp_le (by_asset lc name order) p q \<longleftrightarrow>
    assetRank order (po_asset p) < assetRank order (po_asset q) \<or>
    assetRank order (po_asset p) = assetRank order (po_asset q) \<and> cmp_le lc (name p) (name q)"
  by (auto simp: cmp_le_def by_asset_def Let_def)

lemma by_asset_comparator:
  assumes "collates lc"
  shows "comparator (by_asset lc name order) (\<lambda>p. True)"
proof
  fix x y z
  show "cmp_le (by_asset lc name order) x y \<or> cmp_le (by_asset lc name order) y x"
  proof -
    have "cmp_le lc (name x) (name y) \<or> cmp_le lc (name y) (name x)" using assms unfolding collates_def by blast
    then show ?thesis unfolding by_asset_le by linarith
  qed
  show "cmp_le (by_asset lc name order) x z"
    if "cmp_le (by_asset lc name order) x y" "cmp_le (by_asset lc name order) y z"
  proof -
    have "cmp_le lc (name x) (name z)" if "cmp_le lc (name x) (name y)" "cmp_le lc (name y) (name z)"
      using that assms unfolding collates_def by blast
    then show ?thesis using that unfolding by_asset_le by linarith
  qed
qed

lemma options_sorted:
  assumes "collates lc"
  shows "sorted_wrt (cmp_le (by_asset lc po_symbol (serverAssetOrder (map (Some \<circ> mk_asset) ms)))) (useProductOptions lc ms)"
  unfolding useProductOptions_def by (rule comparator.sorted_sort [OF by_asset_comparator [OF assms]]) simp

lemma mset_options: "mset (useProductOptions lc ms) = mset (map market_option ms)"
  by (simp add: useProductOptions_def)

lemma set_options: "set (useProductOptions lc ms) = market_option ` set ms"
  by (simp add: useProductOptions_def)

section \<open>Properties\<close>

text \<open>
  The product list is the served markets, those of one asset together in the order the assets first appear, and
  within an asset in the order of the locale.
\<close>

theorem product_options_grouped:
  assumes "collates lc" "i < j" "j < k" "k < length (useProductOptions lc ms)"
    "po_asset (useProductOptions lc ms ! i) = Some a" "po_asset (useProductOptions lc ms ! k) = Some a" "\<forall>m \<in> set ms. mk_asset m \<noteq> ''''"
  shows "mset (useProductOptions lc ms) = mset (map market_option ms) \<and>
    po_asset (useProductOptions lc ms ! j) = Some a \<and>
    cmp_le lc (po_symbol (useProductOptions lc ms ! i)) (po_symbol (useProductOptions lc ms ! k))"
proof -
  let ?os = "useProductOptions lc ms" and ?order = "serverAssetOrder (map (Some \<circ> mk_asset) ms)"
  note srt = options_sorted [OF assms(1), of ms]
  have le: "assetRank ?order (po_asset (?os ! x)) \<le> assetRank ?order (po_asset (?os ! y))"
    if "x < y" "y < length ?os" for x y
    using sorted_wrt_nth_less [OF srt that] by (auto simp: by_asset_le)
  have "?os ! j \<in> set ?os" "?os ! i \<in> set ?os" using assms by simp_all
  then obtain m n where m: "m \<in> set ms" "?os ! j = market_option m" and n: "n \<in> set ms" "?os ! i = market_option n"
    by (auto simp only: set_options)
  have a: "a \<in> set ?order"
    using n assms(5,7) by (auto simp: in_serverAssetOrder market_option_def)
  have "assetRank ?order (po_asset (?os ! j)) = assetRank ?order (Some a)"
    using le [of i j] le [of j k] assms(2-6) by simp
  moreover have "po_asset (?os ! j) = Some (mk_asset m)" by (simp add: m(2) market_option_def)
  moreover have "mk_asset m = a" if "assetRank ?order (Some (mk_asset m)) = assetRank ?order (Some a)"
  proof -
    have "mk_asset m \<in> set ?order" using m(1) assms(7) by (auto simp: in_serverAssetOrder)
    with a that rank_inj show ?thesis by blast
  qed
  moreover have "cmp_le lc (po_symbol (?os ! i)) (po_symbol (?os ! k))"
    using sorted_wrt_nth_less [OF srt, of i k] assms(2-6) by (auto simp: by_asset_le)
  ultimately show ?thesis by (simp add: mset_options)
qed

lemma find_option_market:
  assumes "distinct (map mk_key ms)" "m \<in> set ms"
  shows "find_option ''cme'' (mk_key m) (useProductOptions lc ms) = Some (market_option m)"
proof -
  let ?os = "useProductOptions lc ms"
  obtain p where p: "find_option ''cme'' (mk_key m) ?os = Some p"
    using assms(2) unfolding find_option_def
    by (cases "List.find (\<lambda>p. po_provider p = ''cme'' \<and> po_symbol p = mk_key m) ?os")
      (auto simp: find_None_iff market_option_def set_options)
  then have "p \<in> set ?os" "po_symbol p = mk_key m" by (auto simp: find_option_def find_Some_iff)
  then obtain n where n: "n \<in> set ms" "p = market_option n" "mk_key n = mk_key m" by (auto simp: market_option_def set_options)
  have "n = m" using assms n by (auto simp: distinct_map inj_on_def)
  with n p show ?thesis by simp
qed

lemma best_live_in: "best_live (live_for a ms) = Some b \<Longrightarrow> b \<in> set ms \<and> mk_live b \<and> mk_asset b = a"
  using best_live_mem [of "live_for a ms"] best_live_None [of "live_for a ms"]
  by (cases "live_for a ms = []") (auto simp: live_for_def)

text \<open>
  C38. A click on a row of the market data makes that market the active one.  The selector, given the same product, sets
  the key first and the asset after it, and setting the asset picks the asset's preferred live market: the chosen
  one is active only if it is that market, and never when it is not live.
\<close>

theorem selection_by_view:
  assumes "distinct (map mk_key (ss_markets s))" "m \<in> set (ss_markets s)" "mk_key m \<noteq> ''''" "mk_asset m \<noteq> ''''"
  shows "let clicked = selectRow (Some (market_option m)) s;
      (chosen, told) = selectSymbol (useProductOptions lc (ss_markets s)) ''cme'' (mk_key m) s
    in ss_activeMarketKey clicked = Some (mk_key m) \<and> ss_activeAsset clicked = mk_asset m \<and>
      told = (''cme'', mk_key m) \<and> ss_activeAsset chosen = mk_asset m \<and>
      ss_activeMarketKey chosen = map_option mk_key (best_live (live_for (mk_asset m) (ss_markets s))) \<and>
      (\<not> mk_live m \<longrightarrow> ss_activeMarketKey chosen \<noteq> Some (mk_key m))"
proof -
  have k: "find_market (mk_key m) (ss_markets s) = Some m"
  proof -
    obtain n where n: "find_market (mk_key m) (ss_markets s) = Some n"
      using assms(2) by (cases "find_market (mk_key m) (ss_markets s)") (auto simp: find_market_def find_None_iff)
    then have "n \<in> set (ss_markets s)" "mk_key n = mk_key m" by (auto simp: find_market_def find_Some_iff)
    with n assms(1,2) show ?thesis by (auto simp: distinct_map inj_on_def)
  qed
  have "best_live (live_for (mk_asset m) (ss_markets s)) \<noteq> Some b \<or> mk_key b \<noteq> mk_key m" if "\<not> mk_live m" for b
    using best_live_in [of "mk_asset m" "ss_markets s" b] assms(1,2) that by (auto simp: distinct_map inj_on_def)
  moreover have "normalizeProviderKey (JStr ''cme'') = ''cme''" by code_simp
  ultimately show ?thesis
    using k assms(3,4) find_option_market [OF assms(1,2), of lc]
    by (auto simp: selectRow_def selectSymbol_def activate_key_def activate_asset_def market_option_def Let_def
        setActiveAsset_def setActiveMarketKey_def setMarketProvider_def)
qed

definition sample_market :: "string \<Rightarrow> timeframe \<Rightarrow> bool \<Rightarrow> market_info" where
  "sample_market key tf live =
     \<lparr>mk_key = key, mk_asset = ''ES'', mk_timeframe = tf, mk_question = ''ES up'', mk_category = None, mk_up_pct = Fin 61,
      mk_down_pct = Fin 39, mk_volume = Fin 1000, mk_expiry_ts = Fin 9000, mk_resolution_price = None, mk_start_price = None,
      mk_price_to_beat = Some (Fin 5000), mk_condition_id = '''', mk_up_token_id = None, mk_live = live,
      mk_last_update_ms = Some (Fin 1), mk_prob_history = None, mk_truth_history = None, mk_staged_market = None,
      mk_truth_up_pct = None, mk_truth_down_pct = None, mk_greeks = JObj [], mk_tickSize = None, mk_tickValue = None,
      mk_multiplier = None\<rparr>"

definition sample_state :: terminal_state where
  "sample_state = initial_state\<lparr>ss_markets := [sample_market ''ES_5min'' TF_5min True, sample_market ''ES_1h'' TF_1h True]\<rparr>"

definition code_unit_compare :: "string \<Rightarrow> string \<Rightarrow> jsnum" where
  "code_unit_compare a b = (if a < b then Fin (-1) else if a = b then Fin 0 else Fin 1)"

theorem selection_by_view_witness:
  "ss_activeMarketKey (selectRow (Some (market_option (sample_market ''ES_1h'' TF_1h True))) sample_state) = Some ''ES_1h'' \<and>
   ss_activeMarketKey (fst (selectSymbol (useProductOptions code_unit_compare (ss_markets sample_state)) ''cme'' ''ES_1h'' sample_state)) = Some ''ES_5min''"
proof -
  have "map_option mk_key (best_live (live_for ''ES'' (ss_markets sample_state))) = Some ''ES_5min''"
    by code_simp
  with selection_by_view [of sample_state "sample_market ''ES_1h'' TF_1h True" code_unit_compare]
  show ?thesis by (simp add: sample_state_def sample_market_def Let_def case_prod_beta')
qed

lemma code_unit_collates: "collates code_unit_compare"
  by (auto simp: collates_def cmp_le_def code_unit_compare_def split: if_splits)

theorem product_options_grouped_witness:
  "map po_symbol (useProductOptions code_unit_compare [sample_market ''c'' TF_1h True, sample_market ''a'' TF_1h True, sample_market ''b'' TF_1h True])
     = [''a'', ''b'', ''c''] \<and>
   po_asset (useProductOptions code_unit_compare [sample_market ''c'' TF_1h True, sample_market ''a'' TF_1h True, sample_market ''b'' TF_1h True] ! 1)
     = Some ''ES''"
proof -
  let ?ms = "[sample_market ''c'' TF_1h True, sample_market ''a'' TF_1h True, sample_market ''b'' TF_1h True]"
  have os: "map po_symbol (useProductOptions code_unit_compare ?ms) = [''a'', ''b'', ''c'']"
    "map po_asset (useProductOptions code_unit_compare ?ms) = [Some ''ES'', Some ''ES'', Some ''ES'']"
    by code_simp+
  then have l: "length (useProductOptions code_unit_compare ?ms) = 3"
    by (metis length_map length_Cons list.size(3) numeral_3_eq_3)
  then have n: "po_asset (useProductOptions code_unit_compare ?ms ! i) = Some ''ES''" if "i < 3" for i
    using arg_cong [OF os(2), of "\<lambda>xs. xs ! i"] that by (auto simp: nth_Cons less_Suc_eq numeral_3_eq_3 split: nat.splits)
  have "po_asset (useProductOptions code_unit_compare ?ms ! 1) = Some ''ES''"
    by (rule product_options_grouped [OF code_unit_collates, of 0 1 2 ?ms "''ES''", THEN conjunct2, THEN conjunct1])
      (use l n in \<open>auto simp: sample_market_def\<close>)
  with os show ?thesis by blast
qed

subsection \<open>The table\<close>

definition row_product :: "market_row \<Rightarrow> string \<times> string" where
  "row_product r = (mw_provider r, mw_symbol r)"

definition within_column :: "md_column \<Rightarrow> jsnum \<Rightarrow> bool" where
  "within_column c x = (js_le (mc_min c) x \<and> js_le x (mc_max c))"

definition drag_ok :: "md_drag \<Rightarrow> bool" where
  "drag_ok d = (dg_column d \<in> set MARKET_DATA_COLUMNS \<and> is_fin (dg_startX d) \<and> is_fin (dg_startWidth d))"

definition md_ok :: "md_window \<Rightarrow> bool" where
  "md_ok w = (distinct (map row_product (md_rows w)) \<and> js_le (Fin 8) (md_font w) \<and> js_le (md_font w) (Fin 14) \<and>
     (\<forall>c \<in> set MARKET_DATA_COLUMNS. within_column c (column_width (md_widths w) c)) \<and> list_all drag_ok (md_drags w))"

lemma columns_ordered: "\<forall>c \<in> set MARKET_DATA_COLUMNS. \<exists>lo hi. mc_min c = Fin lo \<and> mc_max c = Fin hi \<and> lo \<le> hi"
  by (simp add: MARKET_DATA_COLUMNS_def md_col_def)

lemma columns_distinct: "distinct (map mc_key MARKET_DATA_COLUMNS)"
  by code_simp

lemma within_fin: "c \<in> set MARKET_DATA_COLUMNS \<Longrightarrow> within_column c x \<Longrightarrow> is_fin x"
  using columns_ordered by (cases x) (auto simp: within_column_def js_le_def)

lemma clamp_of_Fin: "js_clamp (Fin q) (Fin lo) (Fin hi) = Fin (max lo (min hi q))"
  by (simp add: js_clamp_def)

lemma drag_within: "drag_ok d \<Longrightarrow> within_column (dg_column d) (drag_width (Fin x) d)"
  using columns_ordered by (fastforce simp: drag_ok_def drag_width_def within_column_def is_fin_conv clamp_of_Fin)

lemma addProduct_distinct: "distinct (map row_product rows) \<Longrightarrow> distinct (map row_product (addProduct now p rows))"
  by (auto simp: addProduct_def row_product_def list_ex_iff)

lemma removeRow_distinct: "distinct (map row_product rows) \<Longrightarrow> distinct (map row_product (removeRow i rows))"
  by (simp add: removeRow_def distinct_map_filter)

lemma widths_within:
  assumes "\<forall>c \<in> set MARKET_DATA_COLUMNS. within_column c (column_width ws c)" "list_all drag_ok ds"
  shows "\<forall>c \<in> set MARKET_DATA_COLUMNS. within_column c
    (column_width (foldl (\<lambda>ws d. dict_set (mc_key (dg_column d)) (drag_width (Fin x) d) ws) ws ds) c)"
  using assms
proof (induction ds arbitrary: ws)
  case (Cons d ds)
  have "within_column c (column_width (dict_set (mc_key (dg_column d)) (drag_width (Fin x) d) ws) c)"
    if c: "c \<in> set MARKET_DATA_COLUMNS" for c
  proof (cases "mc_key c = mc_key (dg_column d)")
    case True
    then have "c = dg_column d"
      using c Cons.prems(2) columns_distinct by (auto simp: drag_ok_def distinct_map inj_on_def)
    with Cons.prems(2) show ?thesis by (simp add: column_width_def drag_within)
  next
    case False
    with c Cons.prems(1) show ?thesis by (simp add: column_width_def)
  qed
  with Cons show ?case by simp
qed simp

lemma font_step: "js_le (Fin 8) (js_clamp x (Fin 8) (Fin 14)) \<and> js_le (js_clamp x (Fin 8) (Fin 14)) (Fin 14)" if "is_fin x"
  using that by (auto simp: is_fin_conv clamp_of_Fin)

lemma font_fin: "js_le (Fin 8) x \<Longrightarrow> js_le x (Fin 14) \<Longrightarrow> is_fin x"
  by (cases x) (auto simp: js_le_def)

lemma md_step_ok: "md_step w w' \<Longrightarrow> md_ok w \<Longrightarrow> md_ok w'"
proof (induction rule: md_step.induct)
  case (md_press c w x)
  then show ?case using within_fin [of c] by (auto simp: md_ok_def startColumnResize_def drag_ok_def)
next
  case (md_move w x)
  then show ?case using widths_within [of "md_widths w" "md_drags w" x] by (simp add: md_ok_def moveColumnResize_def)
qed (auto simp: md_ok_def addProduct_distinct removeRow_distinct font_step font_fin is_fin_js_add is_fin_js_sub)

lemma md_initial_ok: "distinct (map row_product rows) \<Longrightarrow> md_ok (md_initial rows)"
proof -
  have "list_all (\<lambda>c. within_column c (column_width DEFAULT_MARKET_DATA_COLUMN_WIDTHS c)) MARKET_DATA_COLUMNS"
    by code_simp
  then show "distinct (map row_product rows) \<Longrightarrow> md_ok (md_initial rows)"
    by (simp add: md_ok_def md_initial_def list_all_iff)
qed

lemma sum_within:
  assumes "\<forall>c \<in> set cs. \<exists>lo hi. mc_min c = Fin lo \<and> mc_max c = Fin hi" "\<forall>c \<in> set cs. within_column c (f c)"
  shows "js_le (js_sum (map mc_min cs)) (js_sum (map f cs)) \<and> js_le (js_sum (map f cs)) (js_sum (map mc_max cs))"
proof -
  have f: "\<exists>lo q hi. mc_min c = Fin lo \<and> f c = Fin q \<and> mc_max c = Fin hi \<and> lo \<le> q \<and> q \<le> hi" if "c \<in> set cs" for c
    using that assms by (cases "f c") (force simp: within_column_def js_le_def)+
  then have "map mc_min cs = map Fin (map (fin_val \<circ> mc_min) cs)" "map f cs = map Fin (map (fin_val \<circ> f) cs)"
    "map mc_max cs = map Fin (map (fin_val \<circ> mc_max) cs)" by (auto dest: f)
  moreover have "sum_list (map (fin_val \<circ> mc_min) cs) \<le> sum_list (map (fin_val \<circ> f) cs)"
    by (rule sum_list_mono) (auto dest: f)
  moreover have "sum_list (map (fin_val \<circ> f) cs) \<le> sum_list (map (fin_val \<circ> mc_max) cs)"
    by (rule sum_list_mono) (auto dest: f)
  ultimately show ?thesis by (simp only: js_sum_Fin js_le_Fin)
qed

text \<open>
  Whatever is added, removed, resized and zoomed, no product is listed twice, every column stays within its bounds,
  the font between 8 and 14 pixels, and the table between 900 and 2052 pixels wide.
\<close>

theorem market_table_invariant:
  assumes "md_step\<^sup>*\<^sup>* (md_initial rows) w" "distinct (map row_product rows)"
  shows "distinct (map row_product (md_rows w)) \<and> js_le (Fin 8) (md_font w) \<and> js_le (md_font w) (Fin 14) \<and>
    (\<forall>c \<in> set MARKET_DATA_COLUMNS. within_column c (column_width (md_widths w) c)) \<and>
    js_le (Fin 900) (marketDataMinWidth (md_widths w)) \<and> js_le (marketDataMinWidth (md_widths w)) (Fin 2052)"
proof -
  have "md_ok w"
    using assms(1) by (induction rule: rtranclp_induct) (auto intro: md_initial_ok [OF assms(2)] md_step_ok)
  then have ok: "md_ok w" "\<forall>c \<in> set MARKET_DATA_COLUMNS. within_column c (column_width (md_widths w) c)"
    by (auto simp: md_ok_def)
  have "js_sum (map mc_min MARKET_DATA_COLUMNS) = Fin 820" "js_sum (map mc_max MARKET_DATA_COLUMNS) = Fin 1972"
    by code_simp+
  moreover have "js_le (js_sum (map mc_min MARKET_DATA_COLUMNS)) (js_sum (map (column_width (md_widths w)) MARKET_DATA_COLUMNS)) \<and>
      js_le (js_sum (map (column_width (md_widths w)) MARKET_DATA_COLUMNS)) (js_sum (map mc_max MARKET_DATA_COLUMNS))"
    by (rule sum_within) (use columns_ordered ok(2) in blast)+
  moreover have "length MARKET_DATA_COLUMNS = 18" by (simp add: MARKET_DATA_COLUMNS_def)
  ultimately have "js_le (Fin 900) (marketDataMinWidth (md_widths w)) \<and> js_le (marketDataMinWidth (md_widths w)) (Fin 2052)"
    by (cases "js_sum (map (column_width (md_widths w)) MARKET_DATA_COLUMNS)") (auto simp: marketDataMinWidth_def js_le_def)
  with ok show ?thesis by (simp add: md_ok_def)
qed

inductive_cases md_stepE: "md_step w w'"

theorem market_table_invariant_witness:
  "\<exists>w. md_step\<^sup>*\<^sup>* (md_initial []) w \<and> md_picker w \<and> md_font w = Fin 11 \<and> distinct (map row_product (md_rows w))"
proof -
  let ?w = "(md_initial [])\<lparr>md_picker := True\<rparr>"
  have "md_step\<^sup>*\<^sup>* (md_initial []) (?w\<lparr>md_font := Fin 11\<rparr>)"
    using rtranclp.rtrancl_into_rtrancl [OF r_into_rtranclp [of md_step, OF md_open [of "md_initial []"]] md_larger]
    by (simp add: md_initial_def js_clamp_def)
  from market_table_invariant [OF this] this show ?thesis
    by (intro exI [of _ "?w\<lparr>md_font := Fin 11\<rparr>"]) simp
qed

subsection \<open>Quotes of a row\<close>

lemma normalize_cme [simp]: "normalizeProviderKey v = ''cme''"
  by (auto simp: normalizeProviderKey_def PROVIDERS_def split: jsval.splits)

lemma saved_row_cme: "po_provider (productOptionForSavedRow (useProductOptions lc ms) row) = ''cme''"
proof (cases "List.find (\<lambda>p. po_provider p = mw_provider row \<and> po_symbol p = mw_symbol row) (useProductOptions lc ms)")
  case (Some p)
  then have "p \<in> market_option ` set ms" by (metis find_Some_iff nth_mem set_options)
  then show ?thesis using Some by (auto simp: productOptionForSavedRow_def market_option_def)
qed (simp add: productOptionForSavedRow_def Let_def)

text \<open>
  Every row of the table is quoted as a price: the money and cents modes are never used.  Without a book both the
  bid and the ask shown are the last price.  A row whose product is not in the list is never shown as waiting, and is
  shown as open when no time is known for it.
\<close>

theorem saved_rows_quote:
  fixes now :: rat
  shows "let q = quote_row_of now (useProductOptions lc ms) s row; p = qr_option q in
    qr_mode q = PriceMode \<and>
    (dict_get (ss_polyBooks s) (opt_or (po_marketKey p) '''') = None \<longrightarrow> qr_bid q = qr_last q \<and> qr_ask q = qr_last q) \<and>
    (find_option (mw_provider row) (mw_symbol row) (useProductOptions lc ms) = None \<longrightarrow>
       qr_status q \<noteq> Wait_row \<and> (qr_timestamp q = None \<longrightarrow> qr_status q = Open_row))"
proof -
  let ?p = "productOptionForSavedRow (useProductOptions lc ms) row"
  let ?key = "case po_marketKey ?p of Some k \<Rightarrow> if k = '''' then None else Some k | None \<Rightarrow> None"
  have mode: "quote_mode_of ?p book ticks = PriceMode" for book ticks
    by (simp add: quote_mode_of_def saved_row_cme)
  have side: "quote_side PriceMode None (or_else a (or_else b (or_else m (or_else c d)))) m f g = or_else a (or_else b (or_else m (or_else c d)))"
    for a b c d m f g
    by (cases a; cases b; cases c; cases m; cases d) (simp_all add: quote_side_def)
  have nb: "Option.bind ?key (dict_get (ss_polyBooks s)) = None"
    if "dict_get (ss_polyBooks s) (opt_or (po_marketKey ?p) '''') = None"
    using that by (auto split: option.splits)
  have live: "po_live ?p = Some True" if "find_option (mw_provider row) (mw_symbol row) (useProductOptions lc ms) = None"
    using that by (simp add: productOptionForSavedRow_def find_option_def Let_def)
  have st: "row_status_of now (Some True) q t \<noteq> Wait_row" "row_status_of now (Some True) q None = Open_row" for q t
    by (auto simp: row_status_of_def truthy_num_def split: option.splits)
  define q where "q = quote_row_of now (useProductOptions lc ms) s row"
  have q: "qr_option q = ?p" "qr_mode q = PriceMode"
    by (simp_all add: q_def quote_row_of_def Let_def mode)
  have "qr_bid q = qr_last q \<and> qr_ask q = qr_last q"
    if "dict_get (ss_polyBooks s) (opt_or (po_marketKey ?p) '''') = None"
    using nb [OF that] by (simp add: q_def quote_row_of_def Let_def mode side)
  moreover have "qr_status q \<noteq> Wait_row \<and> (qr_timestamp q = None \<longrightarrow> qr_status q = Open_row)"
    if "find_option (mw_provider row) (mw_symbol row) (useProductOptions lc ms) = None"
    using live [OF that] st by (simp add: q_def quote_row_of_def Let_def mode side)
  ultimately show ?thesis using q by (simp add: q_def [symmetric] Let_def)
qed

theorem saved_rows_quote_witness:
  "qr_status (quote_row_of 99 [] initial_state \<lparr>mw_id = ''r'', mw_provider = ''cme'', mw_symbol = ''btc''\<rparr>) = Open_row \<and>
   qr_last (quote_row_of 99 [] initial_state \<lparr>mw_id = ''r'', mw_provider = ''cme'', mw_symbol = ''btc''\<rparr>) = None"
proof -
  let ?row = "\<lparr>mw_id = ''r'', mw_provider = ''cme'', mw_symbol = ''btc''\<rparr>"
  have e: "useProductOptions code_unit_compare [] = []" by (simp add: useProductOptions_def)
  have "qr_last (quote_row_of 99 [] initial_state ?row) = None" "qr_timestamp (quote_row_of 99 [] initial_state ?row) = None"
    by code_simp+
  with saved_rows_quote [of 99 code_unit_compare "[]" initial_state ?row]
  show ?thesis by (simp add: e Let_def find_option_def)
qed

subsection \<open>Liquidity\<close>

lemma nonnegE: "nonneg x \<Longrightarrow> (\<And>q. x = Fin q \<Longrightarrow> 0 \<le> q \<Longrightarrow> P) \<Longrightarrow> P"
  by (cases x) auto

lemma nonneg_add [intro]: "nonneg x \<Longrightarrow> nonneg y \<Longrightarrow> nonneg (js_add x y)"
  by (auto elim!: nonnegE)

lemma nonneg_mul [intro]: "nonneg x \<Longrightarrow> nonneg y \<Longrightarrow> nonneg (js_mul x y)"
  by (auto elim!: nonnegE)

lemma nonneg_div [intro]: "nonneg x \<Longrightarrow> 0 < q \<Longrightarrow> nonneg (js_div x (Fin q))"
  by (auto elim!: nonnegE)

lemma nonneg_js_max [intro]: "nonneg x \<Longrightarrow> nonneg y \<Longrightarrow> nonneg (js_max x y)"
  by (auto elim!: nonnegE)

lemma nonneg_sum: "(\<And>x. x \<in> set xs \<Longrightarrow> nonneg (f x)) \<Longrightarrow> nonneg (js_sum (map f xs))"
proof -
  have "nonneg c \<Longrightarrow> (\<And>x. x \<in> set xs \<Longrightarrow> nonneg (f x)) \<Longrightarrow> nonneg (foldl js_add c (map f xs))" for c
    by (induction xs arbitrary: c) auto
  then show "(\<And>x. x \<in> set xs \<Longrightarrow> nonneg (f x)) \<Longrightarrow> nonneg (js_sum (map f xs))"
    by (simp add: js_sum_def)
qed

text \<open>What the score needs of the data of a product: nothing negative and nothing infinite.\<close>

definition level_sound :: "poly_level \<Rightarrow> bool" where
  "level_sound l = (nonneg (pl_price l) \<and> nonneg (pl_size l))"

definition book_sound :: "poly_book \<Rightarrow> bool" where
  "book_sound b = (list_all level_sound (pb_bids b @ pb_asks b) \<and> (\<forall>x \<in> set_option (num_of (pb_spread_pct b)). is_fin x))"

definition tick_sound :: "poly_tick \<Rightarrow> bool" where
  "tick_sound t = (nonneg (pt_price t) \<and> nonneg (pt_size t))"

definition liquidity_sound :: "terminal_state \<Rightarrow> product_option \<Rightarrow> bool" where
  "liquidity_sound s p =
     ((\<forall>k \<in> set_option (po_marketKey p). (\<forall>b \<in> set_option (dict_get (ss_polyBooks s) k). book_sound b) \<and>
        list_all tick_sound (opt_or (dict_get (ss_polyTicks s) k) []) \<and> list_all tick_sound (opt_or (dict_get (ss_fills s) k) [])) \<and>
      (\<forall>x \<in> set_option (num_of (po_volume p)). nonneg x) \<and> (\<forall>x \<in> set_option (num_of (po_openInterest p)). nonneg x))"

text \<open>The documented behaviour of \<open>Math.log10\<close> that the score relies on: no NaN from 1 on.\<close>

definition log10_sound :: "(jsnum \<Rightarrow> jsnum) \<Rightarrow> bool" where
  "log10_sound log10 = (\<forall>q \<ge> 1. nonneg (log10 (Fin q)))"

lemma log_points_nonneg: "log10_sound log10 \<Longrightarrow> nonneg x \<Longrightarrow> 0 \<le> w \<Longrightarrow> nonneg (log_points log10 x w)"
  by (auto simp: log_points_def log10_sound_def elim!: nonnegE intro!: nonneg_mul)

lemma clamp_within: "is_fin x \<Longrightarrow> lo \<le> hi \<Longrightarrow> \<exists>q. js_clamp x (Fin lo) (Fin hi) = Fin q \<and> lo \<le> q \<and> q \<le> hi"
  by (auto simp: is_fin_conv clamp_of_Fin)

lemma score_within:
  assumes "log10_sound log10" "nonneg a" "nonneg i" "nonneg d" "nonneg t" "\<forall>x \<in> set_option sp. is_fin x"
  shows "\<exists>q. liquidity_score log10 a i d t n st sp = Fin q \<and> 0 \<le> q \<and> q \<le> 100"
proof -
  have "is_fin (log_points log10 x w)" if "nonneg x" "0 \<le> w" for x w
    using log_points_nonneg [OF assms(1) that] by (rule nonneg_fin)
  moreover have "is_fin (opt_or sp (Fin 10))" using assms(6) by (cases sp) auto
  then have "is_fin (js_mul (opt_or sp (Fin 10)) (Fin (5 / 4)))" by (cases "opt_or sp (Fin 10)") simp_all
  moreover have "is_fin (case st of Feed_live \<Rightarrow> Fin 10 | Feed_partial \<Rightarrow> Fin 3 | Feed_awaiting \<Rightarrow> Fin 0)"
    by (cases st) simp_all
  ultimately show ?thesis
    unfolding liquidity_score_def using assms by (intro clamp_within) (simp_all add: is_fin_js_sub is_fin_js_add)
qed

lemma row_score: "lq_liquidityScore (liquidity_row_of log10 s p) =
    (let r = liquidity_row_of log10 s p in liquidity_score log10 (lq_activity r) (lq_oiProxy r) (lq_bookDepth r)
       (lq_tapeContracts r) (lq_dataFields r) (lq_feedState r) (lq_spread r))"
  by (simp add: liquidity_row_of_def Let_def)

lemma row_option [simp]: "lq_option (liquidity_row_of log10 s p) = p"
  by (simp add: liquidity_row_of_def Let_def)

lemma notional_nonneg: "list_all tick_sound ts \<Longrightarrow> nonneg (notional_sum ts) \<and> nonneg (js_sum (map pt_size ts))"
  by (auto simp: notional_sum_def list_all_iff tick_sound_def intro!: nonneg_sum nonneg_mul nonneg_div)

lemma depth_nonneg: "list_all level_sound ls \<Longrightarrow> nonneg (depth_sum ls) \<and> nonneg (js_sum (map (\<lambda>l. js_mul (pl_size l) (pl_price l)) ls))"
  by (auto simp: depth_sum_def list_all_iff level_sound_def intro!: nonneg_sum)

lemma estimated_fin:
  assumes "log10_sound log10" "nonneg a" "estimated_spread log10 p a = Some x"
  shows "is_fin x"
proof -
  obtain q where "a = Fin q" using assms(2) by (rule nonnegE)
  then have "is_fin (log10 (js_max a (Fin 1)))" using assms(1) by (auto simp: log10_sound_def intro: nonneg_fin)
  then have "is_fin (js_max (Fin (1 / 2)) (js_sub (Fin 8) (log10 (js_max a (Fin 1)))))"
    by (intro is_fin_max_min [THEN conjunct1]) (simp_all add: is_fin_js_sub)
  with assms(3) show ?thesis by (auto simp: estimated_spread_def split: if_splits)
qed

lemma row_sound:
  assumes "log10_sound log10" "liquidity_sound s p"
  defines "r \<equiv> liquidity_row_of log10 s p"
  shows "nonneg (lq_activity r)" "nonneg (lq_oiProxy r)" "nonneg (lq_bookDepth r)" "nonneg (lq_tapeContracts r)"
    "\<forall>x \<in> set_option (lq_spread r). is_fin x"
proof -
  define key where "key = (case po_marketKey p of Some k \<Rightarrow> if k = '''' then None else Some k | None \<Rightarrow> None)"
  define book where "book = Option.bind key (dict_get (ss_polyBooks s))"
  define ticks where "ticks = (case key of None \<Rightarrow> [] | Some k \<Rightarrow> opt_or (dict_get (ss_polyTicks s) k) [])"
  define fills where "fills = (case key of None \<Rightarrow> [] | Some k \<Rightarrow> opt_or (dict_get (ss_fills s) k) [])"
  have t: "list_all tick_sound ticks" "list_all tick_sound fills"
    using assms(2) by (auto simp: ticks_def fills_def key_def liquidity_sound_def split: option.splits)
  have b: "book_sound b" if "book = Some b" for b
    using assms(2) that by (auto simp: book_def key_def liquidity_sound_def split: option.splits if_splits)
  have v: "nonneg (opt_or (num_of (po_volume p)) (Fin 0))"
    using assms(2) by (cases "num_of (po_volume p)") (auto simp: liquidity_sound_def)
  note row = r_def liquidity_row_of_def Let_def key_def [symmetric] book_def [symmetric] ticks_def [symmetric] fills_def [symmetric]
  show a: "nonneg (lq_activity r)"
    using v notional_nonneg [OF t(1)] notional_nonneg [OF t(2)] by (auto simp: row)
  show "nonneg (lq_tapeContracts r)" using notional_nonneg [OF t(1)] by (simp add: row)
  show "nonneg (lq_bookDepth r)"
    using b depth_nonneg by (cases book) (auto simp: row book_sound_def)
  show "\<forall>x \<in> set_option (lq_spread r). is_fin x"
  proof (cases "Option.bind book (num_of \<circ> pb_spread_pct)")
    case None
    then have "lq_spread r = estimated_spread log10 p (lq_activity r)" by (simp add: row del: bind_assoc)
    then show ?thesis using estimated_fin [OF assms(1) a] by auto
  next
    case (Some x)
    then have "lq_spread r = Some x" by (simp add: row del: bind_assoc)
    with Some b show ?thesis by (auto simp: book_sound_def split: bind_splits)
  qed
  have "nonneg (case book of None \<Rightarrow> Fin 0 | Some b \<Rightarrow> js_sum (map (\<lambda>l. js_mul (pl_size l) (pl_price l)) (pb_bids b @ pb_asks b)))"
  proof (cases book)
    case (Some x)
    then show ?thesis using b [OF Some] depth_nonneg [of "pb_bids x @ pb_asks x"] by (simp add: book_sound_def)
  qed simp
  moreover have "nonneg (js_max (js_mul (lq_activity r) (Fin (18 / 100))) (Fin 0))"
    by (intro nonneg_js_max nonneg_mul a) simp_all
  moreover have "lq_oiProxy r = opt_or (num_of (po_openInterest p)) (js_add (js_add
      (case book of None \<Rightarrow> Fin 0 | Some b \<Rightarrow> js_sum (map (\<lambda>l. js_mul (pl_size l) (pl_price l)) (pb_bids b @ pb_asks b)))
      (notional_sum fills)) (js_max (js_mul (lq_activity r) (Fin (18 / 100))) (Fin 0)))"
    by (simp add: row)
  ultimately show "nonneg (lq_oiProxy r)"
    using assms(2) notional_nonneg [OF t(2)] by (cases "num_of (po_openInterest p)") (auto simp: liquidity_sound_def)
qed

lemma feed_count_sum: "feed_count Feed_live rows + feed_count Feed_partial rows + feed_count Feed_awaiting rows = length rows"
proof (induction rows)
  case (Cons r rows)
  then show ?case by (cases "lq_feedState r") (simp_all add: feed_count_def)
qed (simp add: feed_count_def)

lemma by_score_le: "is_fin (lq_liquidityScore x) \<Longrightarrow> is_fin (lq_liquidityScore y) \<Longrightarrow>
    cmp_le by_score x y \<longleftrightarrow> - fin_val (lq_liquidityScore x) \<le> - fin_val (lq_liquidityScore y)"
  by (auto simp: cmp_le_def by_score_def is_fin_conv)

interpretation score_order: key_comparator by_score "\<lambda>r. is_fin (lq_liquidityScore r)" "\<lambda>r. - fin_val (lq_liquidityScore r)"
  by unfold_locales (rule by_score_le)

lemma largest_bound:
  assumes "\<forall>r \<in> set rows. nonneg (field r)" "r \<in> set rows"
  shows "\<exists>m. largest field rows = Fin m \<and> 1 \<le> m \<and> fin_val (field r) \<le> m"
proof -
  have "rows = [] \<or> (\<exists>m. js_max_list (map field rows) = Fin m \<and> (\<forall>r \<in> set rows. fin_val (field r) \<le> m))"
    using assms(1)
  proof (induction rows)
    case (Cons x xs)
    obtain q where "field x = Fin q" "0 \<le> q" using Cons.prems by (auto elim: nonnegE)
    then show ?case using Cons by (auto simp: js_max_list_def js_max_def)
  qed simp
  then obtain m where "js_max_list (map field rows) = Fin m" "fin_val (field r) \<le> m" using assms(2) by auto
  then show ?thesis by (auto simp: largest_def js_max_list_def js_max_def intro: order_trans)
qed

lemma mset_liquidity: "set (liquidity_rows lc log10 f v opts s) \<subseteq> liquidity_row_of log10 s ` set opts"
  by (auto simp: liquidity_rows_def mappedLiquidityProducts_def)

text \<open>
  C40. Where the data of the products is sound, every row of the liquidity map has a score between 0 and 100, the rows are
  in descending order of it, the counts of a venue add up to its rows, and no bar is wider than its cell.
\<close>

theorem liquidity_rows_ranked:
  fixes minVolume :: jsnum and providerFilter :: string and lc :: "string \<Rightarrow> string \<Rightarrow> jsnum"
  assumes "log10_sound log10" "\<forall>p \<in> set opts. liquidity_sound s p"
  defines "rows \<equiv> liquidity_rows lc log10 providerFilter minVolume opts s"
  shows "(\<forall>r \<in> set rows. \<exists>q. lq_liquidityScore r = Fin q \<and> 0 \<le> q \<and> q \<le> 100) \<and>
    sorted (map (\<lambda>r. - fin_val (lq_liquidityScore r)) rows) \<and>
    (\<forall>st \<in> set (providerStats rows). pv_live st + pv_partial st + pv_awaiting st = pv_rows st) \<and>
    (\<forall>r \<in> set rows. \<forall>field \<in> {lq_activity, lq_oiProxy, lq_bookDepth}.
       \<exists>w. liquidity_bar field rows r = Fin w \<and> 0 \<le> w \<and> w \<le> 100)"
proof -
  have mem: "\<exists>p \<in> set opts. r = liquidity_row_of log10 s p" if "r \<in> set rows" for r
    using mset_liquidity that unfolding rows_def by blast
  have score: "\<exists>q. lq_liquidityScore (liquidity_row_of log10 s p) = Fin q \<and> 0 \<le> q \<and> q \<le> 100" if "p \<in> set opts" for p
    unfolding row_score Let_def using row_sound [OF assms(1), of s p] assms(1,2) that by (intro score_within) auto
  have scores: "\<forall>r \<in> set rows. \<exists>q. lq_liquidityScore r = Fin q \<and> 0 \<le> q \<and> q \<le> 100"
    using mem score by blast
  have "sorted (map (\<lambda>r. - fin_val (lq_liquidityScore r)) rows)"
    unfolding rows_def liquidity_rows_def
    by (rule score_order.sort_sorted_key) (use score in \<open>force simp: mappedLiquidityProducts_def\<close>)
  moreover have "\<forall>st \<in> set (providerStats rows). pv_live st + pv_partial st + pv_awaiting st = pv_rows st"
    by (auto simp: providerStats_def Let_def feed_count_sum)
  moreover have "\<exists>w. liquidity_bar field rows r = Fin w \<and> 0 \<le> w \<and> w \<le> 100"
    if r: "r \<in> set rows" and f: "field \<in> {lq_activity, lq_oiProxy, lq_bookDepth}" for r field
  proof -
    have all: "\<forall>x \<in> set rows. nonneg (field x)"
      using mem f row_sound(1-3) [OF assms(1)] assms(2) by blast
    then obtain m q where "largest field rows = Fin m" "1 \<le> m" "field r = Fin q" "0 \<le> q" "q \<le> m"
      using largest_bound [OF all r] r by (metis fin_val.simps(1) nonnegE)
    then have "liquidity_bar field rows r = Fin (q / m * 100)" "0 \<le> q / m * 100" "q / m * 100 \<le> 100"
      by (auto simp: liquidity_bar_def divide_le_eq)
    then show ?thesis by blast
  qed
  ultimately show ?thesis using scores by blast
qed

text \<open>\<open>Math.log10\<close> of 1 is 0; the witness takes a bound of the logarithm that is easy to compute.\<close>

definition log10_bound :: "jsnum \<Rightarrow> jsnum" where
  "log10_bound x = (case x of Fin q \<Rightarrow> if q < 0 then NaN else if q < 10 then Fin 0 else Fin 1 | _ \<Rightarrow> NaN)"

theorem liquidity_rows_ranked_witness:
  "liquidity_rows code_unit_compare log10_bound ''all'' (Fin 0) (useProductOptions code_unit_compare (ss_markets sample_state)) sample_state \<noteq> [] \<and>
   sorted (map (\<lambda>r. - fin_val (lq_liquidityScore r)) (liquidity_rows code_unit_compare log10_bound ''all'' (Fin 0)
     (useProductOptions code_unit_compare (ss_markets sample_state)) sample_state))"
proof -
  let ?opts = "useProductOptions code_unit_compare (ss_markets sample_state)"
  have "log10_sound log10_bound" by (simp add: log10_sound_def log10_bound_def)
  moreover have "\<forall>p \<in> set ?opts. liquidity_sound sample_state p"
    by (simp add: set_options liquidity_sound_def sample_state_def sample_market_def market_option_def initial_state_def)
  ultimately have "sorted (map (\<lambda>r. - fin_val (lq_liquidityScore r)) (liquidity_rows code_unit_compare log10_bound ''all'' (Fin 0) ?opts sample_state))"
    using liquidity_rows_ranked [of log10_bound ?opts sample_state code_unit_compare "''all''" "Fin 0"] by blast
  moreover have "length (liquidity_rows code_unit_compare log10_bound ''all'' (Fin 0) ?opts sample_state) = 2"
    by code_simp
  ultimately show ?thesis by auto
qed

text \<open>
  A spread product can trade below zero.  When its tape makes its activity negative it is left out of the map whatever
  the filter says, and when its book makes the open-interest proxy negative its score is not a number.
\<close>

lemma negative_activity_hidden:
  assumes "r \<in> set (liquidity_rows lc log10 f (minVolume_of typed) opts s)"
  shows "\<not> js_lt (lq_activity r) (Fin 0)"
proof -
  have "js_le (minVolume_of typed) (lq_activity r)" using assms by (auto simp: liquidity_rows_def)
  moreover have "js_le (Fin 0) (minVolume_of typed)"
    by (cases "js_num (JStr typed)") (auto simp: minVolume_of_def or_num_def js_max_def js_le_def)
  ultimately show ?thesis by (cases "minVolume_of typed"; cases "lq_activity r") (auto simp: js_le_def)
qed

lemma negative_proxy_unscored:
  assumes "\<forall>q < 0. log10 (Fin q) = NaN" "lq_oiProxy (liquidity_row_of log10 s p) = Fin i" "i < -1"
  shows "lq_liquidityScore (liquidity_row_of log10 s p) = NaN"
proof -
  have "log_points log10 (Fin i) 10 = NaN" using assms(1,3) by (simp add: log_points_def)
  then show ?thesis
    unfolding row_score Let_def assms(2) by (simp add: liquidity_score_def js_clamp_def js_min_def js_max_def)
qed

definition spread_book :: poly_book where
  "spread_book = \<lparr>pb_market_key = ''ES_NQ'', pb_question = '''', pb_up_token_id = '''',
     pb_bids = [\<lparr>pl_price = Fin (-2), pl_size = Fin 5, pl_count = None, pl_ct = None\<rparr>], pb_asks = [], pb_best_bid = JNum (Fin (-2)),
     pb_best_ask = JNull, pb_mid = JNum (Fin (-2)), pb_spread_pct = JNull, pb_up_pct = Fin (-2), pb_down_pct = Fin (-2),
     pb_ltp = JNum (Fin (-2)), pb_ltp_size = None, pb_expiry_ts = Fin 0, pb_live = True, pb_timestamp_ms = Fin 1, pb_seen_ms = Some (Fin 1)\<rparr>"

lemma spread_book_unscored:
  assumes "\<forall>q < 0. log10 (Fin q) = NaN"
  shows "lq_liquidityScore (liquidity_row_of log10 (initial_state\<lparr>ss_polyBooks := [(''ES_NQ'', spread_book)]\<rparr>)
    (productOptionForSavedRow [] \<lparr>mw_id = ''r'', mw_provider = ''cme'', mw_symbol = ''ES_NQ''\<rparr>)) = NaN"
proof (rule negative_proxy_unscored [OF assms])
  show "lq_oiProxy (liquidity_row_of log10 (initial_state\<lparr>ss_polyBooks := [(''ES_NQ'', spread_book)]\<rparr>)
    (productOptionForSavedRow [] \<lparr>mw_id = ''r'', mw_provider = ''cme'', mw_symbol = ''ES_NQ''\<rparr>)) = Fin (-10)"
    by code_simp
qed simp

subsection \<open>The ladder window\<close>

text \<open>The windows opened with the provider \<open>polymarket\<close> never find their product: every option is of CME.\<close>

lemma outcome_ladder_unresolved:
  assumes "symbol \<noteq> ''''"
  shows "ladder_window (useProductOptions lc ms) ''polymarket'' symbol = Outcome_ladder (Some symbol) symbol"
proof -
  have "find_option ''polymarket'' symbol (useProductOptions lc ms) = None"
    by (auto simp: find_option_def find_None_iff set_options market_option_def)
  then show ?thesis using assms by (simp add: ladder_window_def option_label_def)
qed

text \<open>The common ladder has 31 rows between 1 and 99, best first; near an end the last price is repeated.\<close>

lemma generic_levels_bounds:
  assumes "\<forall>p \<in> set_option opt. \<forall>x \<in> set_option (rest_num ''yes'' p). is_fin x"
  shows "length (generic_levels opt) = 31 \<and> (\<forall>l \<in> set (generic_levels opt). \<exists>q. gl_price l = Fin q \<and> 1 \<le> q \<and> q \<le> 99)"
proof -
  have "is_fin (opt_or (Option.bind opt (rest_num ''yes'')) (Fin 50))"
    using assms by (cases opt; cases "Option.bind opt (rest_num ''yes'')") auto
  then obtain c where "generic_center opt = Fin c" by (auto simp: generic_center_def is_fin_conv)
  then show ?thesis by (auto simp: generic_levels_def generic_level_of_def generic_price_def Let_def)
qed

end
