(* ===== verification/Alerts.thy ===== *)
theory Alerts
  imports Markets
begin

text \<open>
  The alert manager of \<open>components/WorkspaceDesktop.tsx\<close>: how a rule reads the market, the effect that fires it, the
  channels that deliver it, and the edits of a rule.  The effect is a function on what its three \<open>useRef\<close> objects
  hold; it runs again whenever the alerts, fills, markets or ticks change.  Sound, notifications and the text
  service are parameters.
\<close>

section \<open>Reading a rule\<close>

record alert_world =
  aw_options :: "product_option list"
  aw_markets :: "market_info list"
  aw_ticks :: "poly_tick list dict"
  aw_fills :: "poly_tick list dict"

definition defaultOption :: "product_option list \<Rightarrow> product_option option" where
  "defaultOption options =
     or_else (List.find (\<lambda>p. po_provider p = ''cme'' \<and> po_symbol p = ''ES'') options)
       (case options of [] \<Rightarrow> None | p # _ \<Rightarrow> Some p)"

text \<open>\<open>option.asset === alert.symbol\<close>, where both may be absent\<close>

definition same_asset :: "product_option \<Rightarrow> alert_rule \<Rightarrow> bool" where
  "same_asset p a = (opt_str (po_asset p) = al_symbol a)"

definition findOption :: "product_option list \<Rightarrow> alert_rule \<Rightarrow> product_option option" where
  "findOption options a =
     (let provider = normalizeProviderKey (JStr (al_provider a));
          symbol = or_else (al_productSymbol a)
            (map_option po_symbol (List.find (\<lambda>p. po_provider p = provider \<and> same_asset p a) options))
      in nullish_chain [List.find (\<lambda>p. po_provider p = provider \<and> Some (po_symbol p) = symbol) options,
           List.find (\<lambda>p. same_asset p a \<and> po_provider p = provider) options, defaultOption options])"

definition isMoneyProduct :: "product_option option \<Rightarrow> bool" where
  "isMoneyProduct opt = (case opt of None \<Rightarrow> False | Some p \<Rightarrow> po_provider p \<noteq> ''cme'' \<and> has_field ''spot'' p)"

definition normalizeThreshold :: "alert_rule \<Rightarrow> bool \<Rightarrow> jsnum" where
  "normalizeThreshold a moneyProduct =
     (if moneyProduct \<or> al_valueMode a = Some ''price'' then al_value a
      else if al_valueMode a = Some ''cents'' then (if js_le (al_value a) (Fin 1) then js_mul (al_value a) (Fin 100) else al_value a)
      else al_value a)"

definition formatThreshold :: "alert_rule \<Rightarrow> bool \<Rightarrow> string" where
  "formatThreshold a moneyProduct =
     (if moneyProduct then fmtMoney (JNum (al_value a))
      else if al_valueMode a = Some ''price'' then formatMarketPrice (al_value a) None
      else if al_valueMode a = Some ''cents''
      then (if js_le (al_value a) (Fin 1) then ''$'' @ to_fixed 2 (al_value a) else to_fixed 1 (al_value a) @ ''c'')
      else to_fixed 1 (al_value a) @ ''%'')"

definition alert_compare :: "jsnum option \<Rightarrow> alert_rule \<Rightarrow> jsnum \<Rightarrow> bool" where
  "alert_compare actual a threshold =
     (case given actual of
        None \<Rightarrow> False
      | Some x \<Rightarrow>
          if al_op a = ''>'' then js_lt threshold x else if al_op a = ''>='' then js_le threshold x
          else if al_op a = ''<'' then js_lt x threshold else js_le x threshold)"

definition alertRuleKey :: "alert_rule \<Rightarrow> jsnum \<Rightarrow> string" where
  "alertRuleKey a threshold =
     join_with ''|'' [normalizeProviderKey (JStr (al_provider a)),
       js_str (js_nn [opt_str (al_productSymbol a), al_symbol a, JStr '''']), al_field a, al_op a, opt_or (al_valueMode a) '''',
       if is_fin threshold then to_fixed 8 threshold else '''']"

record alert_read =
  ar_option :: "product_option option"
  ar_actual :: "jsnum option"
  ar_message :: string
  ar_moneyProduct :: bool
  ar_fillKey :: "string option"

definition last_opt :: "'a list \<Rightarrow> 'a option" where
  "last_opt xs = (if xs = [] then None else Some (last xs))"

definition market_of_option :: "alert_world \<Rightarrow> product_option option \<Rightarrow> market_info option" where
  "market_of_option w opt =
     (case Option.bind opt po_marketKey of
        Some k \<Rightarrow> if k \<noteq> '''' then find_market k (aw_markets w)
          else List.find (\<lambda>m. Some (mk_asset m) = Option.bind opt po_asset \<and> mk_live m) (aw_markets w)
      | None \<Rightarrow> List.find (\<lambda>m. Some (mk_asset m) = Option.bind opt po_asset \<and> mk_live m) (aw_markets w))"

definition product_rows :: "poly_tick list dict \<Rightarrow> product_option option \<Rightarrow> poly_tick list" where
  "product_rows d opt =
     (case Option.bind opt po_marketKey of None \<Rightarrow> [] | Some k \<Rightarrow> if k = '''' then [] else opt_or (dict_get d k) [])"

definition is_cme :: "product_option option \<Rightarrow> bool" where
  "is_cme opt = (case opt of None \<Rightarrow> False | Some p \<Rightarrow> po_provider p = ''cme'')"

definition last_traded :: "alert_world \<Rightarrow> product_option option \<Rightarrow> jsnum option" where
  "last_traded w opt =
     (let lastTick = map_option pt_price (last_opt (product_rows (aw_ticks w) opt)); market' = market_of_option w opt
      in if is_cme opt then nullish_chain [lastTick, Option.bind opt (rest_num ''priceToBeat''), Option.bind opt (rest_num ''spot''),
             Option.bind market' mk_price_to_beat]
         else if isMoneyProduct opt then Option.bind opt (rest_num ''spot'')
         else nullish_chain [lastTick, map_option mk_up_pct market', Option.bind opt (rest_num ''yes'')])"

definition opt_key :: "product_option option \<Rightarrow> string \<Rightarrow> string" where
  "opt_key opt fallback = opt_or (or_else (Option.bind opt po_marketKey) (map_option po_symbol opt)) fallback"

definition fill_message :: "product_option option \<Rightarrow> poly_tick option \<Rightarrow> string" where
  "fill_message opt lastFill =
     (case lastFill of
        None \<Rightarrow> ''No fills yet''
      | Some f \<Rightarrow>
          let price = executionNumber (JNum (pt_price f)) (Fin 0); size = executionNumber (JNum (pt_size f)) (Fin 0)
          in providerLabel (case opt of None \<Rightarrow> ''cme'' | Some p \<Rightarrow> po_provider p) @ '' '' @
             (case opt of None \<Rightarrow> ''product'' | Some p \<Rightarrow> po_label p) @ '' '' @
             executionSideLabel f (opt_key opt (pt_marketKey f)) @ '' fill '' @ to_fixed 0 size @ '' @ '' @
             (if is_cme opt then formatMarketPrice price None else to_fixed 1 price @ ''c''))"

definition fill_key :: "product_option option \<Rightarrow> poly_tick \<Rightarrow> string" where
  "fill_key opt f =
     join_with ''-'' [opt_key opt ''product'', jsnum_string (pt_timestamp f), jsnum_string (pt_price f), jsnum_string (pt_size f),
       outcome_label (pt_side f), js_str (js_nn [js_get (pt_rest f) ''orderId'', js_get (pt_rest f) ''order_id'', JStr ''''])]"

definition traded_message :: "product_option option \<Rightarrow> jsnum option \<Rightarrow> string" where
  "traded_message opt lastPrice =
     ''Last traded '' @ (if is_cme opt then formatMarketPrice (opt_or lastPrice NaN) None
       else if isMoneyProduct opt then fmtMoney (opt_num lastPrice) else fmtCents lastPrice)"

definition readAlert :: "alert_world \<Rightarrow> alert_rule \<Rightarrow> alert_read" where
  "readAlert w a =
     (let opt = findOption (aw_options w) a; lastFill = last_opt (product_rows (aw_fills w) opt); lastPrice = last_traded w opt
      in if al_field a = ''fill''
         then \<lparr>ar_option = opt, ar_actual = map_option pt_timestamp lastFill, ar_message = fill_message opt lastFill,
           ar_moneyProduct = False, ar_fillKey = map_option (fill_key opt) lastFill\<rparr>
         else \<lparr>ar_option = opt, ar_actual = lastPrice, ar_message = traded_message opt lastPrice,
           ar_moneyProduct = isMoneyProduct opt, ar_fillKey = None\<rparr>)"

section \<open>Firing\<close>

record alert_engine =
  ae_fired :: "string dict"
  ae_armed :: "bool dict"
  ae_config :: "string dict"

definition alert_mount :: alert_engine where
  "alert_mount = \<lparr>ae_fired = [], ae_armed = [], ae_config = []\<rparr>"

record alert_note =
  an_id :: string
  an_title :: string
  an_message :: string

definition alert_label :: "alert_read \<Rightarrow> alert_rule \<Rightarrow> string" where
  "alert_label r a = (case ar_option r of Some p \<Rightarrow> po_label p | None \<Rightarrow> opt_or (al_productSymbol a) ''product'')"

definition rule_configured :: "string \<Rightarrow> string \<Rightarrow> alert_engine \<Rightarrow> alert_engine" where
  "rule_configured i ruleKey e =
     (if dict_get (ae_config e) i \<noteq> Some ruleKey
      then e\<lparr>ae_config := dict_set i ruleKey (ae_config e), ae_armed := dict_set i True (ae_armed e)\<rparr> else e)"

definition armed :: "string \<Rightarrow> bool \<Rightarrow> alert_engine \<Rightarrow> alert_engine" where
  "armed i b e = e\<lparr>ae_armed := dict_set i b (ae_armed e)\<rparr>"

text \<open>One rule of the effect: the state of the refs and what is delivered.\<close>

definition alert_step :: "alert_world \<Rightarrow> alert_rule \<Rightarrow> alert_engine \<Rightarrow> alert_engine \<times> alert_note list" where
  "alert_step w a e0 =
     (let r = readAlert w a; threshold = normalizeThreshold a (ar_moneyProduct r); i = al_id a;
          e = rule_configured i (alertRuleKey a threshold) e0
      in if \<not> al_enabled a then (armed i True e, [])
         else if al_field a = ''fill''
         then (case ar_fillKey r of
                 None \<Rightarrow> (e, [])
               | Some k \<Rightarrow> if k = '''' \<or> dict_get (ae_fired e) i = Some k then (e, [])
                   else (e\<lparr>ae_fired := dict_set i k (ae_fired e)\<rparr>,
                     [\<lparr>an_id = i, an_title = ''Fill alert: '' @ alert_label r a, an_message = ar_message r\<rparr>]))
         else if \<not> alert_compare (ar_actual r) a threshold then (armed i True e, [])
         else if dict_get (ae_armed e) i = Some False then (e, [])
         else (armed i False e, [\<lparr>an_id = i, an_title = ''Alert: '' @ alert_label r a,
           an_message = ar_message r @ '' '' @ al_op a @ '' '' @ formatThreshold a (ar_moneyProduct r)\<rparr>]))"

fun alert_effect :: "alert_world \<Rightarrow> alert_rule list \<Rightarrow> alert_engine \<Rightarrow> alert_engine \<times> alert_note list" where
  "alert_effect w [] e = (e, [])"
| "alert_effect w (a # as) e =
     (let (e1, out) = alert_step w a e; (e2, more) = alert_effect w as e1 in (e2, out @ more))"

text \<open>The runs of the effect while the window is mounted: what each of them delivers.\<close>

fun alert_runs :: "(alert_world \<times> alert_rule list) list \<Rightarrow> alert_engine \<Rightarrow> alert_note list list" where
  "alert_runs [] e = []"
| "alert_runs ((w, as) # runs) e = (let (e1, out) = alert_effect w as e in out # alert_runs runs e1)"

text \<open>Whether the list shows a rule as triggered.\<close>

definition alert_hit :: "alert_world \<Rightarrow> alert_rule \<Rightarrow> bool" where
  "alert_hit w a =
     (let r = readAlert w a
      in al_enabled a \<and> (if al_field a = ''fill'' then ar_actual r \<noteq> None
           else alert_compare (ar_actual r) a (normalizeThreshold a (ar_moneyProduct r))))"

section \<open>Delivery\<close>

record delivery_result =
  dr_channel :: string
  dr_ok :: bool
  dr_message :: string

datatype audio_outcome = Audio_missing | Audio_sent | Audio_failed "string option"

definition playAlertSound :: "audio_outcome \<Rightarrow> delivery_result" where
  "playAlertSound o' =
     (case o' of
        Audio_missing \<Rightarrow> \<lparr>dr_channel = ''audio'', dr_ok = False, dr_message = ''Audio unavailable''\<rparr>
      | Audio_sent \<Rightarrow> \<lparr>dr_channel = ''audio'', dr_ok = True, dr_message = ''Audio sent''\<rparr>
      | Audio_failed m \<Rightarrow> \<lparr>dr_channel = ''audio'', dr_ok = False, dr_message = opt_or m ''Audio blocked''\<rparr>)"

text \<open>The tones of a sound: frequency and offset in seconds; each sounds for 0.16 seconds.\<close>

definition sound_profile :: "string \<Rightarrow> (rat \<times> rat) list" where
  "sound_profile sound =
     (if sound = ''system-chime'' then [(880, 0), (1175, 12 / 100)]
      else if sound = ''system-bell'' then [(660, 0), (660, 18 / 100)]
      else [(440, 0), (880, 12 / 100), (440, 24 / 100)])"

text \<open>The permission after it was asked for, \<open>None\<close> where the browser has no notifications.\<close>

definition notifyDesktop :: "string option \<Rightarrow> delivery_result" where
  "notifyDesktop permission =
     (case permission of
        None \<Rightarrow> \<lparr>dr_channel = ''desktop'', dr_ok = False, dr_message = ''Desktop notifications unavailable''\<rparr>
      | Some p \<Rightarrow> if p = ''granted'' then \<lparr>dr_channel = ''desktop'', dr_ok = True, dr_message = ''Desktop sent''\<rparr>
          else \<lparr>dr_channel = ''desktop'', dr_ok = False, dr_message = ''Desktop '' @ p\<rparr>)"

definition shown_if :: "string \<Rightarrow> jsval \<Rightarrow> string" where
  "shown_if label v = (if truthy v then label @ js_str v else '''')"

text \<open>The body of the request, when one is sent, and the result; an unreadable answer counts as an empty object.\<close>

definition sms_request :: "string option \<Rightarrow> string \<Rightarrow> (string \<times> string) option" where
  "sms_request phone message = (if js_trim (opt_or phone '''') = '''' then None else Some (js_trim (opt_or phone ''''), message))"

definition sendSmsAlert :: "string option \<Rightarrow> answer \<Rightarrow> delivery_result" where
  "sendSmsAlert phone ans =
     (if js_trim (opt_or phone '''') = '''' then \<lparr>dr_channel = ''sms'', dr_ok = False, dr_message = ''Text phone missing''\<rparr>
      else (case ans of
              Unreachable m \<Rightarrow> \<lparr>dr_channel = ''sms'', dr_ok = False, dr_message = m\<rparr>
            | Answered ok http payload \<Rightarrow>
                if ok \<and> js_get payload ''ok'' \<noteq> JBool False
                then \<lparr>dr_channel = ''sms'', dr_ok = True,
                  dr_message = ''Text '' @ (if truthy (js_get payload ''dryRun'') then ''dry-run accepted'' else ''accepted'') @
                    shown_if '' via '' (js_get payload ''provider'') @ shown_if '' / '' (js_get payload ''carrierStatus'')\<rparr>
                else \<lparr>dr_channel = ''sms'', dr_ok = False,
                  dr_message = js_str (js_nn [js_get payload ''error'', JStr (''Text failed ('' @ http @ '')'')])\<rparr>))"

definition fetchSmsAlertStatus :: "answer \<Rightarrow> jsval" where
  "fetchSmsAlertStatus ans =
     (case ans of
        Unreachable m \<Rightarrow> JObj [(''ok'', JBool False), (''ready'', JBool False), (''error'', JStr m)]
      | Answered ok http payload \<Rightarrow> if ok then payload
          else JObj [(''ok'', JBool False), (''ready'', JBool False),
            (''error'', js_nn [js_get payload ''error'', JStr (''SMS status failed ('' @ http @ '')'')])])"

definition smsStatusLabel :: "jsval option \<Rightarrow> string" where
  "smsStatusLabel smsStatus =
     (case smsStatus of
        None \<Rightarrow> ''SMS checking''
      | Some st \<Rightarrow> if \<not> truthy st then ''SMS checking'' else if \<not> truthy (js_get st ''ready'') then ''SMS not configured''
          else if truthy (js_get st ''dryRun'') then ''SMS dry-run ready''
          else ''SMS '' @ js_str (js_nn [js_get st ''provider'', JStr ''transport'']) @ '' ready'')"

record delivery_status =
  dv_ok :: bool
  dv_message :: string
  dv_at :: rat

definition delivery_results :: "audio_outcome \<Rightarrow> string option \<Rightarrow> answer \<Rightarrow> alert_rule \<Rightarrow> delivery_result list" where
  "delivery_results audio permission ans a =
     (if al_audio a then [playAlertSound audio] else []) @ (if al_desktop a then [notifyDesktop permission] else []) @
     (if al_sms a then [sendSmsAlert (al_phone a) ans] else [])"

definition deliverAlert :: "rat \<Rightarrow> audio_outcome \<Rightarrow> string option \<Rightarrow> answer \<Rightarrow> alert_rule \<Rightarrow> delivery_status dict \<Rightarrow> delivery_status dict" where
  "deliverAlert now audio permission ans a current =
     (let results = delivery_results audio permission ans a
      in dict_set (al_id a)
           (if results = [] then \<lparr>dv_ok = False, dv_message = ''No delivery channel selected'', dv_at = now\<rparr>
            else \<lparr>dv_ok = list_all dr_ok results,
              dv_message = join_with '' | '' (map (\<lambda>r. dr_channel r @ '': '' @ dr_message r) results), dv_at = now\<rparr>) current)"

section \<open>Edits\<close>

definition option_mode :: "product_option option \<Rightarrow> string" where
  "option_mode opt = (if is_cme opt then ''price'' else if isMoneyProduct opt then ''money'' else ''percent'')"

definition addAlert :: "rat \<Rightarrow> product_option list \<Rightarrow> alert_rule list \<Rightarrow> alert_rule list" where
  "addAlert now options current =
     (let opt = defaultOption options
      in current @ [\<lparr>al_id = ''alert-'' @ jsnum_string (Fin now),
           al_symbol = js_nn [opt_str (Option.bind opt po_asset), JStr ''ES''],
           al_provider = (case opt of None \<Rightarrow> ''cme'' | Some p \<Rightarrow> po_provider p),
           al_productSymbol = Some (case opt of None \<Rightarrow> ''ES'' | Some p \<Rightarrow> po_symbol p), al_field = ''last'', al_op = ''>='',
           al_value = opt_or (nullish_chain [Option.bind opt (rest_num ''priceToBeat''), Option.bind opt (rest_num ''spot'')]) (Fin 0),
           al_valueMode = Some (option_mode opt), al_enabled = True, al_audio = True, al_desktop = False, al_sms = False,
           al_sound = ''system-chime'', al_phone = None\<rparr>])"

datatype alert_edit =
    Set_provider string
  | Set_product string
  | Set_field string
  | Set_op string
  | Set_mode string
  | Set_value string
  | Set_audio bool
  | Set_sound string
  | Set_desktop bool
  | Set_sms bool
  | Set_phone string

definition take_option :: "product_option option \<Rightarrow> alert_rule \<Rightarrow> alert_rule" where
  "take_option opt a = a\<lparr>al_symbol := opt_str (Option.bind opt po_asset), al_valueMode := Some (option_mode opt)\<rparr>"

text \<open>The new fields are computed from the row that is edited, and given to every rule with its id.\<close>

fun edit_rule :: "product_option list \<Rightarrow> alert_rule \<Rightarrow> alert_edit \<Rightarrow> alert_rule \<Rightarrow> alert_rule" where
  "edit_rule options row (Set_provider provider) a =
     (let opt = or_else (List.find (\<lambda>p. po_provider p = provider) options) (findOption options row)
      in (take_option opt a)\<lparr>al_provider := provider, al_productSymbol := map_option po_symbol opt\<rparr>)"
| "edit_rule options row (Set_product symbol) a =
     (let provider = normalizeProviderKey (JStr (case findOption options row of None \<Rightarrow> al_provider row | Some p \<Rightarrow> po_provider p))
      in (take_option (find_option provider symbol options) a)\<lparr>al_productSymbol := Some symbol\<rparr>)"
| "edit_rule options row (Set_field field) a =
     (if field = ''fill'' then a\<lparr>al_field := field, al_audio := True\<rparr> else a\<lparr>al_field := field\<rparr>)"
| "edit_rule options row (Set_op op) a = a\<lparr>al_op := op\<rparr>"
| "edit_rule options row (Set_mode mode) a = a\<lparr>al_valueMode := Some mode\<rparr>"
| "edit_rule options row (Set_value typed) a = a\<lparr>al_value := js_num (JStr typed)\<rparr>"
| "edit_rule options row (Set_audio checked) a = a\<lparr>al_audio := checked\<rparr>"
| "edit_rule options row (Set_sound sound) a = a\<lparr>al_sound := sound\<rparr>"
| "edit_rule options row (Set_desktop checked) a = a\<lparr>al_desktop := checked\<rparr>"
| "edit_rule options row (Set_sms checked) a = a\<lparr>al_sms := checked\<rparr>"
| "edit_rule options row (Set_phone phone) a = a\<lparr>al_phone := Some phone\<rparr>"

definition edit_alerts :: "product_option list \<Rightarrow> alert_rule \<Rightarrow> alert_edit \<Rightarrow> alert_rule list \<Rightarrow> alert_rule list" where
  "edit_alerts options row edit current = map (\<lambda>a. if al_id a = al_id row then edit_rule options row edit a else a) current"

definition remove_alert :: "alert_rule \<Rightarrow> alert_rule list \<Rightarrow> alert_rule list" where
  "remove_alert row current = filter (\<lambda>a. al_id a \<noteq> al_id row) current"

text \<open>What the controls of a row can enter; a number field never yields anything but a finite number.\<close>

fun edit_offered :: "alert_edit \<Rightarrow> bool" where
  "edit_offered (Set_provider provider) = (provider \<in> set (map pd_key PROVIDERS))"
| "edit_offered (Set_field field) = (field \<in> set ALERT_FIELDS)"
| "edit_offered (Set_op op) = (op \<in> set ALERT_OPS)"
| "edit_offered (Set_mode mode) = (mode \<in> {''price'', ''percent'', ''cents''})"
| "edit_offered (Set_value typed) = is_fin (js_num (JStr typed))"
| "edit_offered (Set_sound sound) = (sound \<in> set ALERT_SOUNDS)"
| "edit_offered _ = True"

inductive alerts_step :: "alert_rule list \<Rightarrow> alert_rule list \<Rightarrow> bool" where
  alerts_add: "alerts_step as (addAlert now (useProductOptions lc ms) as)"
    if "\<forall>m \<in> set ms. \<forall>x \<in> set_option (mk_price_to_beat m) \<union> set_option (mk_start_price m) \<union> set_option (mk_resolution_price m). is_fin x"
| alerts_edit: "alerts_step as (edit_alerts options row edit as)" if "row \<in> set as" "edit_offered edit"
| alerts_remove: "alerts_step as (remove_alert row as)" if "row \<in> set as"

section \<open>Lemmas\<close>

subsection \<open>One rule at a time\<close>

definition ref_of :: "string \<Rightarrow> alert_engine \<Rightarrow> string option \<times> bool option \<times> string option" where
  "ref_of i e = (dict_get (ae_fired e) i, dict_get (ae_armed e) i, dict_get (ae_config e) i)"

definition notes_for :: "string \<Rightarrow> alert_note list \<Rightarrow> alert_note list" where
  "notes_for i out = filter (\<lambda>n. an_id n = i) out"

lemma step_other:
  assumes "al_id a \<noteq> i"
  shows "ref_of i (fst (alert_step w a e)) = ref_of i e" "notes_for i (snd (alert_step w a e)) = []"
  using assms by (auto simp: alert_step_def Let_def ref_of_def notes_for_def rule_configured_def armed_def split: option.splits)

lemma step_own: "notes_for (al_id a) (snd (alert_step w a e)) = snd (alert_step w a e)"
  by (auto simp: alert_step_def Let_def notes_for_def split: option.splits)

lemma step_local:
  assumes "ref_of (al_id a) e = ref_of (al_id a) e'"
  shows "ref_of (al_id a) (fst (alert_step w a e)) = ref_of (al_id a) (fst (alert_step w a e')) \<and>
    snd (alert_step w a e) = snd (alert_step w a e')"
  using assms by (auto simp: alert_step_def Let_def ref_of_def rule_configured_def armed_def split: option.splits)

lemma effect_other: "i \<notin> al_id ` set as \<Longrightarrow>
    ref_of i (fst (alert_effect w as e)) = ref_of i e \<and> notes_for i (snd (alert_effect w as e)) = []"
proof (induction as arbitrary: e)
  case (Cons a as)
  then show ?case using step_other [of a i w e] by (auto simp: Let_def case_prod_beta' notes_for_def)
qed (simp add: notes_for_def)

text \<open>In a list without repeated identifiers a rule fires as if it were alone.\<close>

lemma effect_local:
  assumes "distinct (map al_id as)" "a \<in> set as"
  shows "ref_of (al_id a) (fst (alert_effect w as e)) = ref_of (al_id a) (fst (alert_step w a e)) \<and>
    notes_for (al_id a) (snd (alert_effect w as e)) = snd (alert_step w a e)"
  using assms
proof (induction as arbitrary: e)
  case (Cons b as)
  let ?e1 = "fst (alert_step w b e)"
  show ?case
  proof (cases "a = b")
    case True
    with Cons.prems effect_other [of "al_id a" as w ?e1] step_own [of a w e]
    show ?thesis by (auto simp: Let_def case_prod_beta' notes_for_def)
  next
    case False
    with Cons.prems have ne: "al_id b \<noteq> al_id a" "a \<in> set as" by auto
    from step_other [OF ne(1), of w e] Cons.IH [of ?e1] Cons.prems(1) ne(2) step_local [of a ?e1 e w]
    show ?thesis by (auto simp: Let_def case_prod_beta' notes_for_def)
  qed
qed simp

text \<open>The rule of an identifier in each run.\<close>

definition rule_in :: "string \<Rightarrow> alert_rule list \<Rightarrow> alert_rule" where
  "rule_in i as = hd (filter (\<lambda>a. al_id a = i) as)"

lemma rule_in: "i \<in> al_id ` set as \<Longrightarrow> rule_in i as \<in> set as \<and> al_id (rule_in i as) = i"
proof -
  assume "i \<in> al_id ` set as"
  then have "filter (\<lambda>a. al_id a = i) as \<noteq> []" by (auto simp: filter_empty_conv)
  then have "rule_in i as \<in> set (filter (\<lambda>a. al_id a = i) as)" unfolding rule_in_def by (rule hd_in_set)
  then show "rule_in i as \<in> set as \<and> al_id (rule_in i as) = i" by simp
qed

fun rule_runs :: "string \<Rightarrow> (alert_world \<times> alert_rule list) list \<Rightarrow> alert_engine \<Rightarrow> alert_note list list" where
  "rule_runs i [] e = []"
| "rule_runs i ((w, as) # runs) e =
     (let s = alert_step w (rule_in i as) e in snd s # rule_runs i runs (fst s))"

definition listed :: "string \<Rightarrow> (alert_world \<times> alert_rule list) list \<Rightarrow> bool" where
  "listed i runs = (\<forall>(w, as) \<in> set runs. distinct (map al_id as) \<and> i \<in> al_id ` set as)"

lemma runs_local: "listed i runs \<Longrightarrow> ref_of i e = ref_of i e' \<Longrightarrow> map (notes_for i) (alert_runs runs e) = rule_runs i runs e'"
proof (induction runs arbitrary: e e')
  case (Cons run runs)
  obtain w as where run: "run = (w, as)" by (cases run)
  have r: "rule_in i as \<in> set as" "al_id (rule_in i as) = i" "distinct (map al_id as)" "listed i runs"
    using Cons.prems(1) rule_in [of i as] by (auto simp: run listed_def)
  note l = effect_local [OF r(3,1), of w e, unfolded r(2)] step_local [of "rule_in i as" e e' w, unfolded r(2), OF Cons.prems(2)]
  have "map (notes_for i) (alert_runs runs (fst (alert_effect w as e))) = rule_runs i runs (fst (alert_step w (rule_in i as) e'))"
    by (rule Cons.IH [OF r(4)]) (use l in simp)
  with l show ?case by (simp add: run Let_def case_prod_beta')
qed simp

subsection \<open>Edges\<close>

text \<open>What a price rule looks like at one run: enabled, its configuration, and whether the market meets it.\<close>

definition rule_view :: "alert_world \<Rightarrow> alert_rule \<Rightarrow> bool \<times> string \<times> bool" where
  "rule_view w a =
     (let r = readAlert w a; threshold = normalizeThreshold a (ar_moneyProduct r)
      in (al_enabled a, alertRuleKey a threshold, alert_compare (ar_actual r) a threshold))"

text \<open>A rule fires when it is met and was not already met, enabled and unchanged, the run before.\<close>

fun rising :: "(bool \<times> string \<times> bool) option \<Rightarrow> (bool \<times> string \<times> bool) list \<Rightarrow> bool list" where
  "rising prev [] = []"
| "rising prev ((enabled, key, hit) # views) =
     (enabled \<and> hit \<and> prev \<noteq> Some (True, key, True)) # rising (Some (enabled, key, hit)) views"

definition price_rule :: "string \<Rightarrow> (alert_world \<times> alert_rule list) list \<Rightarrow> bool" where
  "price_rule i runs = (\<forall>(w, as) \<in> set runs. al_field (rule_in i as) \<noteq> ''fill'')"

definition views :: "string \<Rightarrow> (alert_world \<times> alert_rule list) list \<Rightarrow> (bool \<times> string \<times> bool) list" where
  "views i runs = map (\<lambda>(w, as). rule_view w (rule_in i as)) runs"

definition remembers :: "string \<Rightarrow> alert_engine \<Rightarrow> (bool \<times> string \<times> bool) option \<Rightarrow> bool" where
  "remembers i e prev =
     (case prev of None \<Rightarrow> dict_get (ae_config e) i = None
      | Some (enabled, key, hit) \<Rightarrow> dict_get (ae_config e) i = Some key \<and>
          (dict_get (ae_armed e) i = Some False \<longleftrightarrow> enabled \<and> hit))"

lemma price_step:
  assumes "remembers (al_id a) e prev" "al_field a \<noteq> ''fill''" "rule_view w a = (enabled, key, hit)"
  shows "remembers (al_id a) (fst (alert_step w a e)) (Some (enabled, key, hit)) \<and>
    length (snd (alert_step w a e)) = of_bool (enabled \<and> hit \<and> prev \<noteq> Some (True, key, True))"
  using assms
  by (cases prev) (auto simp: alert_step_def rule_view_def remembers_def Let_def rule_configured_def armed_def)

lemma rising_runs:
  assumes "listed i runs" "price_rule i runs" "remembers i e prev"
  shows "map length (rule_runs i runs e) = map of_bool (rising prev (views i runs))"
  using assms
proof (induction runs arbitrary: e prev)
  case (Cons run runs)
  obtain w as where run: "run = (w, as)" by (cases run)
  obtain enabled key hit where v: "rule_view w (rule_in i as) = (enabled, key, hit)" by (cases "rule_view w (rule_in i as)")
  have r: "al_id (rule_in i as) = i" "al_field (rule_in i as) \<noteq> ''fill''" "listed i runs" "price_rule i runs"
    using Cons.prems(1,2) rule_in [of i as] by (auto simp: run listed_def price_rule_def)
  have p: "remembers i (fst (alert_step w (rule_in i as) e)) (Some (enabled, key, hit))"
    "length (snd (alert_step w (rule_in i as) e)) = of_bool (enabled \<and> hit \<and> prev \<noteq> Some (True, key, True))"
    using price_step [of "rule_in i as" e prev w enabled key hit] Cons.prems(3) r v by auto
  from Cons.IH [OF r(3,4) p(1)] p(2) v show ?case
    by (simp add: run Let_def case_prod_beta' views_def)
qed (simp add: views_def)

subsection \<open>Fills\<close>

definition fill_rule :: "string \<Rightarrow> (alert_world \<times> alert_rule list) list \<Rightarrow> bool" where
  "fill_rule i runs = (\<forall>(w, as) \<in> set runs. al_field (rule_in i as) = ''fill'' \<and> al_enabled (rule_in i as))"

definition fill_keys :: "string \<Rightarrow> (alert_world \<times> alert_rule list) list \<Rightarrow> string option list" where
  "fill_keys i runs = map (\<lambda>(w, as). ar_fillKey (readAlert w (rule_in i as))) runs"

lemma fill_key_shown: "ar_fillKey (readAlert w a) = Some k \<Longrightarrow> k \<noteq> ''''"
  by (auto simp: readAlert_def fill_key_def Let_def split: if_splits)

lemma fill_step:
  assumes "al_field a = ''fill''" "al_enabled a"
  shows "(case ar_fillKey (readAlert w a) of
      None \<Rightarrow> dict_get (ae_fired (fst (alert_step w a e))) (al_id a) = dict_get (ae_fired e) (al_id a) \<and> snd (alert_step w a e) = []
    | Some k \<Rightarrow> dict_get (ae_fired (fst (alert_step w a e))) (al_id a) = Some k \<and>
        length (snd (alert_step w a e)) = of_bool (dict_get (ae_fired e) (al_id a) \<noteq> Some k))"
  using assms fill_key_shown [of w a] by (auto simp: alert_step_def Let_def rule_configured_def split: option.splits)

lemma remdups_adj_Cons_length: "length (remdups_adj (x # y # xs)) = of_bool (x \<noteq> y) + length (remdups_adj (y # xs))"
  by simp

lemma fill_runs:
  assumes "listed i runs" "fill_rule i runs"
  shows "sum_list (map length (rule_runs i runs e)) =
    (case dict_get (ae_fired e) i of
       None \<Rightarrow> length (remdups_adj (List.map_filter id (fill_keys i runs)))
     | Some k \<Rightarrow> length (remdups_adj (k # List.map_filter id (fill_keys i runs))) - 1)"
  using assms
proof (induction runs arbitrary: e)
  case (Cons run runs)
  obtain w as where run: "run = (w, as)" by (cases run)
  have r: "al_id (rule_in i as) = i" "al_field (rule_in i as) = ''fill''" "al_enabled (rule_in i as)" "listed i runs" "fill_rule i runs"
    using Cons.prems(1,2) rule_in [of i as] by (auto simp: run listed_def fill_rule_def)
  let ?keys = "List.map_filter id (fill_keys i runs)"
  have pos: "0 < length (remdups_adj (k # ks))" for k :: string and ks by (simp add: remdups_adj_Cons split: list.splits)
  note st = fill_step [OF r(2,3), of w e, unfolded r(1)] and IH = Cons.IH [OF r(4,5), of "fst (alert_step w (rule_in i as) e)"]
  show ?case
  proof (cases "ar_fillKey (readAlert w (rule_in i as))")
    case None
    then have "List.map_filter id (fill_keys i (run # runs)) = ?keys"
      by (simp add: run fill_keys_def List.map_filter_def)
    then show ?thesis using None st IH
      by (cases "dict_get (ae_fired e) i") (simp_all add: run Let_def)
  next
    case (Some k)
    then have "List.map_filter id (fill_keys i (run # runs)) = k # ?keys"
      by (simp add: run fill_keys_def List.map_filter_def)
    then show ?thesis using Some st IH pos [of k ?keys]
      by (cases "dict_get (ae_fired e) i") (auto simp: run Let_def)
  qed
qed (auto simp: fill_keys_def List.map_filter_def split: option.splits)

section \<open>Properties\<close>

text \<open>
  C36. A price rule sounds exactly on rising edges.  However prices move and rules are edited while the manager is
  mounted, it delivers at a run when it is enabled and met there and was not, with the same configuration, enabled and
  met at the run before; and then once.
\<close>

theorem alert_on_rising_edge:
  assumes "listed i runs" "price_rule i runs"
  shows "map (\<lambda>out. length (filter (\<lambda>n. an_id n = i) out)) (alert_runs runs alert_mount) =
    map (\<lambda>b. if b then 1 else 0) (rising None (views i runs))"
proof -
  have "map (\<lambda>out. length (filter (\<lambda>n. an_id n = i) out)) (alert_runs runs alert_mount) =
      map length (map (notes_for i) (alert_runs runs alert_mount))"
    by (simp add: notes_for_def comp_def)
  also have "\<dots> = map length (rule_runs i runs alert_mount)"
    using runs_local [OF assms(1) refl] by simp
  also have "\<dots> = map of_bool (rising None (views i runs))"
    by (rule rising_runs [OF assms]) (simp add: remembers_def alert_mount_def)
  finally show ?thesis by (simp add: of_bool_def)
qed

definition sample_alert :: alert_rule where
  "sample_alert = \<lparr>al_id = ''a1'', al_symbol = JStr ''ES'', al_provider = ''cme'', al_productSymbol = Some ''ES_5min'', al_field = ''last'',
     al_op = ''>='', al_value = Fin 5000, al_valueMode = Some ''price'', al_enabled = True, al_audio = True, al_desktop = False,
     al_sms = False, al_sound = ''system-chime'', al_phone = None\<rparr>"

definition priced_world :: "rat \<Rightarrow> alert_world" where
  "priced_world price =
     \<lparr>aw_options = [market_option (sample_market ''ES_5min'' TF_5min True)], aw_markets = [sample_market ''ES_5min'' TF_5min True],
      aw_ticks = [(''ES_5min'', [\<lparr>pt_timestamp = Fin 1, pt_marketKey = ''ES_5min'', pt_price = Fin price, pt_size = Fin 1, pt_side = Yes, pt_rest = JObj []\<rparr>])],
      aw_fills = []\<rparr>"

definition sample_runs :: "(alert_world \<times> alert_rule list) list" where
  "sample_runs = map (\<lambda>p. (priced_world p, [sample_alert])) [4999, 5001, 5002, 4998, 5000]"

theorem alert_on_rising_edge_witness:
  "map length (alert_runs sample_runs alert_mount) = [0, 1, 0, 0, 1]"
proof -
  have o: "an_id n = ''a1''" if "n \<in> set out" "out \<in> set (alert_runs sample_runs alert_mount)" for n out
  proof -
    have "list_all (list_all (\<lambda>n. an_id n = ''a1'')) (alert_runs sample_runs alert_mount)" by code_simp
    with that show ?thesis by (auto simp: list_all_iff)
  qed
  have v: "rising None (views ''a1'' sample_runs) = [False, True, False, False, True]" by code_simp
  have "listed ''a1'' sample_runs" "price_rule ''a1'' sample_runs"
    by (auto simp: listed_def price_rule_def sample_runs_def rule_in_def sample_alert_def)
  from alert_on_rising_edge [OF this] have "map (\<lambda>out. length (filter (\<lambda>n. an_id n = ''a1'') out)) (alert_runs sample_runs alert_mount) = [0, 1, 0, 0, 1]"
    by (simp add: v)
  moreover have "map (\<lambda>out. length (filter (\<lambda>n. an_id n = ''a1'') out)) (alert_runs sample_runs alert_mount) =
      map length (alert_runs sample_runs alert_mount)"
    by (rule map_cong [OF refl]) (use o in \<open>simp add: filter_id_conv [THEN iffD2]\<close>)
  ultimately show ?thesis by simp
qed

text \<open>
  C37. A fill rule that stays enabled delivers once for every change of the latest fill, the fill it finds when the manager
  is mounted included: fills that were overtaken between two runs are never told, and mounting the manager again tells
  the latest one again.
\<close>

theorem fill_alerts_per_latest:
  assumes "listed i runs" "fill_rule i runs"
  shows "sum_list (map (\<lambda>out. length (filter (\<lambda>n. an_id n = i) out)) (alert_runs runs alert_mount)) =
    length (remdups_adj (List.map_filter id (fill_keys i runs)))"
proof -
  have "map (\<lambda>out. length (filter (\<lambda>n. an_id n = i) out)) (alert_runs runs alert_mount) =
      map length (map (notes_for i) (alert_runs runs alert_mount))"
    by (simp add: notes_for_def comp_def)
  also have "\<dots> = map length (rule_runs i runs alert_mount)"
    using runs_local [OF assms(1) refl] by simp
  finally show ?thesis using fill_runs [OF assms, of alert_mount] by (simp add: alert_mount_def)
qed

definition filled_world :: "rat list \<Rightarrow> alert_world" where
  "filled_world ts = (priced_world 5000)\<lparr>aw_fills := [(''ES_5min'', map (\<lambda>t. \<lparr>pt_timestamp = Fin t, pt_marketKey = ''ES_5min'',
     pt_price = Fin 5000, pt_size = Fin 1, pt_side = Yes, pt_rest = JObj []\<rparr>) ts)]\<rparr>"

definition fill_sample :: "(alert_world \<times> alert_rule list) list" where
  "fill_sample = map (\<lambda>ts. (filled_world ts, [sample_alert\<lparr>al_field := ''fill''\<rparr>])) [[1], [1], [1, 2, 3], [1, 2, 3, 4]]"

theorem fill_alerts_per_latest_witness:
  "sum_list (map (\<lambda>out. length (filter (\<lambda>n. an_id n = ''a1'') out)) (alert_runs fill_sample alert_mount)) = 3"
proof -
  have "length (remdups_adj (List.map_filter id (fill_keys ''a1'' fill_sample))) = 3" by code_simp
  moreover have "listed ''a1'' fill_sample" "fill_rule ''a1'' fill_sample"
    by (auto simp: listed_def fill_rule_def fill_sample_def rule_in_def sample_alert_def)
  ultimately show ?thesis using fill_alerts_per_latest by simp
qed

subsection \<open>Editing\<close>

lemma option_mode_known: "option_mode opt \<in> set ALERT_VALUE_MODES"
  by (simp add: option_mode_def ALERT_VALUE_MODES_def)

lemma offered_mode: "mode \<in> {''price'', ''percent'', ''cents''} \<Longrightarrow> mode \<in> set ALERT_VALUE_MODES"
  by (auto simp: ALERT_VALUE_MODES_def)

lemma edit_valid: "edit_offered edit \<Longrightarrow> alert_valid a \<Longrightarrow> alert_valid (edit_rule options row edit a)"
  by (cases edit) (auto simp: alert_valid_def take_option_def option_mode_known Let_def PROVIDERS_def intro: offered_mode)

lemma rest_num_option:
  "rest_num ''priceToBeat'' (market_option m) = nullish_chain [mk_price_to_beat m, mk_start_price m, mk_resolution_price m]"
  "rest_num ''spot'' (market_option m) = nullish_chain [mk_price_to_beat m, mk_resolution_price m, mk_start_price m]"
  by (cases "mk_price_to_beat m"; cases "mk_start_price m"; cases "mk_resolution_price m";
      simp add: rest_num_def market_option_def opt_num_def)+

lemma defaultOption_market: "defaultOption (useProductOptions lc ms) = Some p \<Longrightarrow> \<exists>m \<in> set ms. p = market_option m"
proof -
  assume "defaultOption (useProductOptions lc ms) = Some p"
  then have "p \<in> set (useProductOptions lc ms)"
    by (cases "List.find (\<lambda>p. po_provider p = ''cme'' \<and> po_symbol p = ''ES'') (useProductOptions lc ms)")
      (auto simp: defaultOption_def find_Some_iff split: list.splits)
  then show ?thesis by (auto simp: set_options)
qed

lemma add_valid:
  assumes "\<forall>m \<in> set ms. \<forall>x \<in> set_option (mk_price_to_beat m) \<union> set_option (mk_start_price m) \<union> set_option (mk_resolution_price m). is_fin x"
    "\<forall>a \<in> set as. alert_valid a" "a \<in> set (addAlert now (useProductOptions lc ms) as)"
  shows "alert_valid a"
proof -
  let ?opt = "defaultOption (useProductOptions lc ms)"
  have v: "is_fin (opt_or (nullish_chain [Option.bind ?opt (rest_num ''priceToBeat''), Option.bind ?opt (rest_num ''spot'')]) (Fin 0))"
  proof (cases ?opt)
    case (Some p)
    then obtain m where "m \<in> set ms" "p = market_option m" using defaultOption_market by blast
    then show ?thesis using Some assms(1)
      by (cases "mk_price_to_beat m"; cases "mk_start_price m"; cases "mk_resolution_price m") (auto simp: rest_num_option)
  qed simp
  have p: "(case ?opt of None \<Rightarrow> ''cme'' | Some p \<Rightarrow> po_provider p) = ''cme''"
    using defaultOption_market [of lc ms] by (cases ?opt) (auto simp: market_option_def)
  show ?thesis
    using assms(2,3) v p option_mode_known [of ?opt]
    by (auto simp: addAlert_def Let_def alert_valid_def ALERT_FIELDS_def ALERT_OPS_def ALERT_SOUNDS_def)
qed

lemma alerts_step_valid: "alerts_step as as' \<Longrightarrow> \<forall>a \<in> set as. alert_valid a \<Longrightarrow> \<forall>a \<in> set as'. alert_valid a"
proof (induction rule: alerts_step.induct)
  case (alerts_add ms as now lc)
  then show ?case using add_valid by blast
qed (auto simp: edit_alerts_def remove_alert_def edit_valid)

text \<open>
  Whatever rules are added, edited and removed, starting from valid ones, every rule is valid, and storing the rules and
  reading them back gives the same rules.
\<close>

theorem alert_edits_survive:
  assumes "alerts_step\<^sup>*\<^sup>* start as" "\<forall>a \<in> set start. alert_valid a"
  shows "(\<forall>a \<in> set as. alert_valid a) \<and> map (\<lambda>(i, v). alert_of later i v) (List.enumerate 0 (map alert_value as)) = as"
proof -
  have valid: "\<forall>a \<in> set as. alert_valid a"
    using assms(1) by (induction rule: rtranclp_induct) (use assms(2) alerts_step_valid in blast)+
  have "map (\<lambda>(i, v). alert_of later i v) (List.enumerate n (map alert_value as)) = as" for n
    using valid by (induction as arbitrary: n) (simp_all add: alert_read_back)
  with valid show ?thesis by blast
qed

theorem alert_edits_survive_witness:
  "alert_valid (sample_alert\<lparr>al_op := ''<'', al_value := Fin 0\<rparr>) \<and>
   alert_of 9 0 (alert_value (sample_alert\<lparr>al_op := ''<'', al_value := Fin 0\<rparr>)) = sample_alert\<lparr>al_op := ''<'', al_value := Fin 0\<rparr>"
proof -
  have s: "alert_valid sample_alert" by code_simp
  have "alerts_step [sample_alert] (edit_alerts [] sample_alert (Set_op ''<'') [sample_alert])"
    by (rule alerts_edit) (simp_all add: ALERT_OPS_def)
  moreover have "alerts_step (edit_alerts [] sample_alert (Set_op ''<'') [sample_alert])
      (edit_alerts [] (sample_alert\<lparr>al_op := ''<''\<rparr>) (Set_value '''') (edit_alerts [] sample_alert (Set_op ''<'') [sample_alert]))"
    by (rule alerts_edit) (simp_all add: edit_alerts_def, code_simp)
  ultimately have "alerts_step\<^sup>*\<^sup>* [sample_alert]
      (edit_alerts [] (sample_alert\<lparr>al_op := ''<''\<rparr>) (Set_value '''') (edit_alerts [] sample_alert (Set_op ''<'') [sample_alert]))"
    by (meson r_into_rtranclp rtranclp.rtrancl_into_rtrancl)
  moreover have "edit_alerts [] (sample_alert\<lparr>al_op := ''<''\<rparr>) (Set_value '''') (edit_alerts [] sample_alert (Set_op ''<'') [sample_alert])
      = [sample_alert\<lparr>al_op := ''<'', al_value := Fin 0\<rparr>]"
    by (simp add: edit_alerts_def) code_simp
  ultimately show ?thesis using alert_edits_survive [of "[sample_alert]" _ 9] s by fastforce
qed

text \<open>
  Two rules added in the same millisecond get the same identifier.  They share what the effect remembers, and removing
  one removes both.
\<close>

lemma same_millisecond_rules:
  "\<exists>a. addAlert now options (addAlert now options []) = [a, a] \<and> remove_alert a (addAlert now options (addAlert now options [])) = []"
  by (simp add: addAlert_def Let_def remove_alert_def)

text \<open>In cents mode a threshold of one cent, or less, is read as dollars.\<close>

lemma one_cent_is_a_dollar: "al_valueMode a = Some ''cents'' \<Longrightarrow> al_value a = Fin 1 \<Longrightarrow> normalizeThreshold a False = Fin 100"
  by (simp add: normalizeThreshold_def)

text \<open>Every channel that is chosen is tried, and a delivery succeeds when all of them do.\<close>

lemma delivery_status_all:
  "dict_get (deliverAlert now au perm ans a current) (al_id a) \<noteq> None \<and>
   (\<forall>st. dict_get (deliverAlert now au perm ans a current) (al_id a) = Some st \<longrightarrow>
      (dv_ok st \<longleftrightarrow> (al_audio a \<or> al_desktop a \<or> al_sms a) \<and> (al_audio a \<longrightarrow> au = Audio_sent) \<and>
        (al_desktop a \<longrightarrow> perm = Some ''granted'') \<and> (al_sms a \<longrightarrow> dr_ok (sendSmsAlert (al_phone a) ans))))"
  by (auto simp: deliverAlert_def delivery_results_def Let_def playAlertSound_def notifyDesktop_def
      split: audio_outcome.splits option.splits if_splits)

end
