(* ===== verification/Portal.thy ===== *)
theory Portal
  imports Deployment
begin

text \<open>
  The portal of \<open>components/PortalGate.tsx\<close>: the stored session, the login form, and the gate that validates a stored
  session, logs a desktop in by itself, and locks.  Each answer of the gateway, each lock and each login is an event;
  the waits between attempts are the times of the events.  Whether the program runs as a desktop is a parameter.
\<close>

section \<open>The stored session\<close>

record portal_session =
  pe_username :: string
  pe_sessionToken :: string
  pe_expiresAt :: "jsnum option"

record portal_storage =
  pl_session :: slot
  pl_token :: "string option"

definition expiry_of :: "jsval \<Rightarrow> jsnum option" where
  "expiry_of v = (let x = js_num (js_or [v, JNum (Fin 0)]) in if truthy (JNum x) then Some x else None)"

definition getStoredPortalSession :: "slot \<Rightarrow> portal_session option" where
  "getStoredPortalSession raw =
     (case raw of
        Holds parsed \<Rightarrow>
          if \<not> truthy (js_get parsed ''username'') \<or> \<not> truthy (js_get parsed ''sessionToken'') then None
          else Some \<lparr>pe_username = js_str (js_get parsed ''username''), pe_sessionToken = js_str (js_get parsed ''sessionToken''),
            pe_expiresAt = expiry_of (js_get parsed ''expiresAt'')\<rparr>
      | _ \<Rightarrow> None)"

definition session_value :: "portal_session \<Rightarrow> jsval" where
  "session_value s = JObj [(''username'', JStr (pe_username s)), (''sessionToken'', JStr (pe_sessionToken s)),
     (''expiresAt'', case pe_expiresAt s of None \<Rightarrow> JUndef | Some x \<Rightarrow> JNum x)]"

definition storePortalSession :: "portal_session option \<Rightarrow> portal_storage \<Rightarrow> portal_storage" where
  "storePortalSession s st = st\<lparr>pl_session := (case s of None \<Rightarrow> Missing | Some x \<Rightarrow> stored (session_value x))\<rparr>"

definition setWorkspaceSessionToken :: "string option \<Rightarrow> portal_storage \<Rightarrow> portal_storage" where
  "setWorkspaceSessionToken token st =
     st\<lparr>pl_token := (case token of Some t \<Rightarrow> if t = '''' then None else Some t | None \<Rightarrow> None)\<rparr>"

text \<open>The session an answer grants.  Reading a field of \<open>null\<close> throws, which both callers treat as no session.\<close>

definition granted :: "string \<Rightarrow> jsval \<Rightarrow> portal_session option" where
  "granted fallback payload =
     (if \<not> truthy (js_get payload ''sessionToken'') then None
      else Some \<lparr>pe_username = js_str (js_or [js_get payload ''username'', JStr fallback]),
        pe_sessionToken = js_str (js_get payload ''sessionToken''), pe_expiresAt = expiry_of (js_get payload ''expiresAt'')\<rparr>)"

definition requestAutoSession :: "answer \<Rightarrow> portal_session option" where
  "requestAutoSession ans = (case ans of Answered True http payload \<Rightarrow> granted ''local'' payload | _ \<Rightarrow> None)"

section \<open>The login form\<close>

record login_form =
  lf_username :: string
  lf_password :: string
  lf_status :: string
  lf_submitting :: bool

definition open_login :: "string \<Rightarrow> login_form" where
  "open_login initialStatus = \<lparr>lf_username = ''tsturiale'', lf_password = '''', lf_status = initialStatus, lf_submitting = False\<rparr>"

definition STARTING_MESSAGE :: string where
  "STARTING_MESSAGE = ''Cerious gateway is starting. Retry in a moment.''"

text \<open>A request that does not get through, and a payload that is \<open>null\<close>, end in a \<open>TypeError\<close>.\<close>

definition login_submit :: "login_form \<Rightarrow> login_form" where
  "login_submit f = (if lf_submitting f then f else f\<lparr>lf_submitting := True, lf_status := ''Authenticating''\<rparr>)"

definition login_answered :: "answer \<Rightarrow> login_form \<Rightarrow> login_form \<times> portal_session option" where
  "login_answered ans f =
     (case ans of
        Unreachable m \<Rightarrow> (f\<lparr>lf_status := STARTING_MESSAGE, lf_submitting := False\<rparr>, None)
      | Answered ok http payload \<Rightarrow>
          (case (if ok then granted (lf_username f) payload else None) of
             Some s \<Rightarrow> (f\<lparr>lf_submitting := False\<rparr>, Some s)
           | None \<Rightarrow>
               if is_nullish payload
               then (f\<lparr>lf_status := STARTING_MESSAGE, lf_submitting := False\<rparr>, None)
               else (f\<lparr>lf_status := js_str (js_or [js_get payload ''detail'', JStr ''Login failed'']), lf_submitting := False\<rparr>, None)))"

section \<open>The gate\<close>

datatype gate_phase = Gate_idle | Gate_validating nat portal_session | Gate_fallback | Gate_starting nat rat

record gate =
  ga_session :: "portal_session option"
  ga_checking :: bool
  ga_message :: string
  ga_checkingMessage :: string
  ga_phase :: gate_phase
  ga_storage :: portal_storage
  ga_gone :: bool

definition max_attempts :: "bool \<Rightarrow> nat" where
  "max_attempts desktop = (if desktop then 90 else 3)"

definition starting_text :: "bool \<Rightarrow> string" where
  "starting_text early = (if early then ''Starting Cerious services'' else ''Waiting for Cerious gateway'')"

text \<open>The first render and the effect that follows it.\<close>

definition gate_mount :: "bool \<Rightarrow> rat \<Rightarrow> portal_storage \<Rightarrow> gate" where
  "gate_mount desktop now st =
     (let existing = getStoredPortalSession (pl_session st)
      in \<lparr>ga_session = existing, ga_checking = (existing \<noteq> None \<or> desktop), ga_message = '''',
          ga_checkingMessage = (if desktop then starting_text True else ''Preparing Cerious Terminal''),
          ga_phase = (case existing of Some e \<Rightarrow> Gate_validating 0 e
            | None \<Rightarrow> if desktop then Gate_starting 1 (now + 90000) else Gate_idle),
          ga_storage = st, ga_gone = False\<rparr>)"

definition accept_session :: "bool \<Rightarrow> portal_session \<Rightarrow> gate \<Rightarrow> gate" where
  "accept_session keep s g =
     g\<lparr>ga_storage := setWorkspaceSessionToken (Some (pe_sessionToken s))
         (if keep then ga_storage g else storePortalSession (Some s) (ga_storage g)),
       ga_session := Some s, ga_checking := False, ga_phase := Gate_idle\<rparr>"

definition forget_session :: "gate \<Rightarrow> gate" where
  "forget_session g =
     g\<lparr>ga_storage := setWorkspaceSessionToken None (storePortalSession None (ga_storage g)), ga_session := None, ga_checking := False\<rparr>"

definition next_attempt :: "bool \<Rightarrow> nat \<Rightarrow> portal_session \<Rightarrow> gate \<Rightarrow> gate" where
  "next_attempt desktop n e g =
     (if Suc n < max_attempts desktop
      then g\<lparr>ga_phase := Gate_validating (Suc n) e,
        ga_checkingMessage := (if desktop then starting_text (Suc n < 3) else ga_checkingMessage g)\<rparr>
      else g\<lparr>ga_phase := Gate_fallback\<rparr>)"

definition session_checked :: "bool \<Rightarrow> answer \<Rightarrow> gate \<Rightarrow> gate" where
  "session_checked desktop ans g =
     (case ga_phase g of
        Gate_validating n e \<Rightarrow>
          (case ans of
             Answered ok http payload \<Rightarrow>
               if ok then accept_session True e g
               else if http = ''401'' then g\<lparr>ga_phase := Gate_fallback\<rparr> else next_attempt desktop n e g
           | Unreachable m \<Rightarrow> next_attempt desktop n e g)
      | _ \<Rightarrow> g)"

text \<open>The time is that of the next look at the clock, after the wait.\<close>

definition auto_answered :: "rat \<Rightarrow> answer \<Rightarrow> gate \<Rightarrow> gate" where
  "auto_answered now ans g =
     (case ga_phase g of
        Gate_fallback \<Rightarrow> (case requestAutoSession ans of Some s \<Rightarrow> accept_session False s g
          | None \<Rightarrow> (forget_session g)\<lparr>ga_phase := Gate_idle\<rparr>)
      | Gate_starting n deadline \<Rightarrow> (case requestAutoSession ans of Some s \<Rightarrow> accept_session False s g
          | None \<Rightarrow>
              if now < deadline
              then g\<lparr>ga_phase := Gate_starting (Suc n) deadline, ga_checkingMessage := starting_text (Suc n < 3)\<rparr>
              else g\<lparr>ga_message := ''Cerious gateway is still starting. Retry when the tray shows ready.'', ga_checking := False,
                ga_phase := Gate_idle\<rparr>)
      | _ \<Rightarrow> g)"

definition gate_lock :: "string option \<Rightarrow> gate \<Rightarrow> gate" where
  "gate_lock reason g =
     (forget_session g)\<lparr>ga_message := (let r = opt_or reason '''' in if r = '''' then ''Workspace locked. Log in to unlock.'' else r)\<rparr>"

datatype gate_view = View_checking string | View_login string | View_workspace

definition gate_shown :: "gate \<Rightarrow> gate_view" where
  "gate_shown g =
     (if ga_checking g then View_checking (ga_checkingMessage g)
      else if ga_session g = None then View_login (ga_message g) else View_workspace)"

text \<open>The form that is shown stores what it was granted and hands it to the gate.\<close>

definition gate_authenticated :: "portal_session \<Rightarrow> gate \<Rightarrow> gate" where
  "gate_authenticated s g =
     g\<lparr>ga_storage := setWorkspaceSessionToken (Some (pe_sessionToken s)) (storePortalSession (Some s) (ga_storage g)),
       ga_message := '''', ga_session := Some s\<rparr>"

datatype gate_event =
    Session_checked answer
  | Auto_answered answer
  | Lock_requested "string option"
  | Login_granted portal_session
  | Gate_unmounted

definition gate_step :: "bool \<Rightarrow> rat \<Rightarrow> gate_event \<Rightarrow> gate \<Rightarrow> gate" where
  "gate_step desktop now ev g =
     (if ga_gone g then g
      else (case ev of
              Session_checked ans \<Rightarrow> session_checked desktop ans g
            | Auto_answered ans \<Rightarrow> auto_answered now ans g
            | Lock_requested reason \<Rightarrow> gate_lock reason g
            | Login_granted s \<Rightarrow> (case gate_shown g of View_login m \<Rightarrow> gate_authenticated s g | _ \<Rightarrow> g)
            | Gate_unmounted \<Rightarrow> g\<lparr>ga_gone := True\<rparr>))"

definition gate_run :: "bool \<Rightarrow> (rat \<times> gate_event) list \<Rightarrow> gate \<Rightarrow> gate" where
  "gate_run desktop evs g = foldl (\<lambda>g (now, ev). gate_step desktop now ev g) g evs"

section \<open>Lemmas\<close>

definition plain_session :: "portal_session \<Rightarrow> bool" where
  "plain_session s = (pe_username s \<noteq> '''' \<and> pe_sessionToken s \<noteq> '''' \<and> (\<forall>x \<in> set_option (pe_expiresAt s). is_fin x \<and> x \<noteq> Fin 0))"

lemma expiry_back: "is_fin x \<Longrightarrow> x \<noteq> Fin 0 \<Longrightarrow> expiry_of (JNum x) = Some x"
  by (auto simp: expiry_of_def is_fin_conv)

lemma session_reads_back: "plain_session s \<Longrightarrow> getStoredPortalSession (stored (session_value s)) = Some s"
  by (cases s; cases "pe_expiresAt s")
    (auto simp: plain_session_def getStoredPortalSession_def stored_def session_value_def expiry_back, simp_all add: expiry_of_def)

definition gate_ok :: "gate \<Rightarrow> bool" where
  "gate_ok g =
     ((ga_checking g \<and> \<not> ga_gone g \<longrightarrow> ga_phase g \<noteq> Gate_idle) \<and>
      (ga_checking g \<longrightarrow> (\<forall>n deadline. ga_phase g = Gate_starting n deadline \<longrightarrow> ga_session g = None)) \<and>
      (\<forall>s. \<not> ga_checking g \<and> ga_session g = Some s \<and> pe_sessionToken s \<noteq> '''' \<longrightarrow> pl_token (ga_storage g) = Some (pe_sessionToken s)))"

lemma accept_session_ok: "gate_ok (accept_session keep s g)"
  by (simp add: gate_ok_def accept_session_def setWorkspaceSessionToken_def)

lemma checked_ok: "gate_ok g \<Longrightarrow> gate_ok (session_checked desktop ans g)"
  by (auto simp: session_checked_def accept_session_ok next_attempt_def split: gate_phase.splits answer.splits) (auto simp: gate_ok_def)

lemma auto_ok: "gate_ok g \<Longrightarrow> gate_ok (auto_answered now ans g)"
  by (auto simp: auto_answered_def accept_session_ok split: gate_phase.splits option.splits) (auto simp: gate_ok_def forget_session_def)

lemma lock_ok: "gate_ok (gate_lock reason g)"
  by (simp add: gate_ok_def gate_lock_def forget_session_def)

lemma authenticated_ok: "\<not> ga_checking g \<Longrightarrow> gate_ok (gate_authenticated s g)"
  by (simp add: gate_ok_def gate_authenticated_def setWorkspaceSessionToken_def)

lemma gone_ok: "gate_ok g \<Longrightarrow> gate_ok (g\<lparr>ga_gone := True\<rparr>)"
  by (simp add: gate_ok_def)

lemma gate_step_ok: "gate_ok g \<Longrightarrow> gate_ok (gate_step desktop now ev g)"
proof (cases ev)
  case (Login_granted s)
  then show "gate_ok g \<Longrightarrow> gate_ok (gate_step desktop now ev g)"
    by (auto simp: gate_step_def gate_shown_def authenticated_ok split: if_splits)
qed (simp_all add: gate_step_def checked_ok auto_ok lock_ok gone_ok)

lemma gate_run_ok: "gate_ok g \<Longrightarrow> gate_ok (gate_run desktop evs g)"
  by (induction evs arbitrary: g) (auto simp: gate_run_def intro: gate_step_ok)

lemma gate_mount_ok: "gate_ok (gate_mount desktop now st)"
  by (auto simp: gate_ok_def gate_mount_def Let_def split: option.split)

lemma run_append: "gate_run desktop (xs @ ys) g = gate_run desktop ys (gate_run desktop xs g)"
  by (simp add: gate_run_def)

text \<open>What is left of the attempts: a measure that every answer lowers.\<close>

lemma checks_end:
  assumes "\<not> ga_gone g" "ga_phase g = Gate_validating n e" "n + length answers \<ge> max_attempts desktop" "n < max_attempts desktop"
  shows "let g' = gate_run desktop (map (\<lambda>(t, a). (t, Session_checked a)) answers) g
    in \<not> ga_gone g' \<and> (ga_phase g' = Gate_fallback \<or> ga_phase g' = Gate_idle \<and> \<not> ga_checking g')"
  using assms
proof (induction answers arbitrary: g n)
  case (Cons ta answers)
  obtain t a where ta: "ta = (t, a)" by (cases ta)
  let ?g1 = "gate_step desktop t (Session_checked a) g"
  have stay: "gate_run desktop (map (\<lambda>(t, a). (t, Session_checked a)) as) g1 = g1"
    if "ga_phase g1 = Gate_fallback \<or> ga_phase g1 = Gate_idle" for as g1
    using that by (induction as) (auto simp: gate_run_def gate_step_def session_checked_def split: gate_phase.splits)
  have run: "gate_run desktop (map (\<lambda>(t, a). (t, Session_checked a)) (ta # answers)) g =
      gate_run desktop (map (\<lambda>(t, a). (t, Session_checked a)) answers) ?g1"
    by (simp add: gate_run_def ta)
  have cases: "\<not> ga_gone ?g1 \<and> (ga_phase ?g1 = Gate_fallback \<or> ga_phase ?g1 = Gate_idle \<and> \<not> ga_checking ?g1 \<or>
      ga_phase ?g1 = Gate_validating (Suc n) e \<and> Suc n < max_attempts desktop)"
    using Cons.prems(1,2) by (auto simp: gate_step_def session_checked_def accept_session_def next_attempt_def split: answer.splits)
  show ?case
  proof (cases "ga_phase ?g1 = Gate_validating (Suc n) e \<and> Suc n < max_attempts desktop")
    case True
    with Cons.IH [of ?g1 "Suc n"] cases Cons.prems(3) show ?thesis unfolding run by simp
  next
    case False
    with cases stay [of ?g1 answers] show ?thesis unfolding run by (auto simp: Let_def)
  qed
qed simp

section \<open>Properties\<close>

text \<open>
  C30. The gate always decides.  A stored session is validated with at most ninety requests on a desktop and three
  elsewhere, and one more request for an automatic login; after their answers the workspace or the login form is shown.
  Without a stored session a desktop stops asking at the first answer after ninety seconds, and a browser shows the
  form at once.
\<close>

theorem gate_decides:
  shows "(\<forall>e answers. getStoredPortalSession (pl_session st) = Some e \<longrightarrow> max_attempts desktop \<le> length answers \<longrightarrow>
      \<not> ga_checking (gate_run desktop (map (\<lambda>(t, a). (t, Session_checked a)) answers @ [(later, Auto_answered ans)]) (gate_mount desktop now st))) \<and>
    (getStoredPortalSession (pl_session st) = None \<longrightarrow> desktop \<longrightarrow> now + 90000 \<le> later \<longrightarrow>
      \<not> ga_checking (gate_run desktop (map (\<lambda>(t, a). (t, Auto_answered a)) early @ [(later, Auto_answered ans)]) (gate_mount desktop now st))) \<and>
    (getStoredPortalSession (pl_session st) = None \<longrightarrow> \<not> desktop \<longrightarrow> gate_shown (gate_mount desktop now st) = View_login '''')"
proof (intro conjI allI impI)
  fix e answers
  assume e: "getStoredPortalSession (pl_session st) = Some e" and n: "max_attempts desktop \<le> length (answers :: (rat \<times> answer) list)"
  let ?g = "gate_run desktop (map (\<lambda>(t, a). (t, Session_checked a)) answers) (gate_mount desktop now st)"
  have "0 < max_attempts desktop" by (simp add: max_attempts_def)
  then have "\<not> ga_gone ?g \<and> (ga_phase ?g = Gate_fallback \<or> ga_phase ?g = Gate_idle \<and> \<not> ga_checking ?g)"
    using checks_end [of "gate_mount desktop now st" 0 e desktop answers] e n by (simp add: gate_mount_def Let_def)
  then show "\<not> ga_checking (gate_run desktop (map (\<lambda>(t, a). (t, Session_checked a)) answers @ [(later, Auto_answered ans)]) (gate_mount desktop now st))"
    unfolding run_append
    by (auto simp: gate_run_def [of _ "[x]" for x] gate_step_def auto_answered_def accept_session_def forget_session_def split: option.split)
next
  assume none: "getStoredPortalSession (pl_session st) = None" "desktop" and late: "now + 90000 \<le> later"
  let ?start = "gate_mount desktop now st"
  have "\<not> ga_gone g \<and> (ga_phase g = Gate_idle \<and> \<not> ga_checking g \<or> (\<exists>n. ga_phase g = Gate_starting n (now + 90000)))"
    if "g = gate_run desktop (map (\<lambda>(t, a). (t, Auto_answered a)) early) ?start" for g
    using that
  proof (induction early arbitrary: g rule: rev_induct)
    case Nil
    then show ?case using none by (simp add: gate_run_def gate_mount_def Let_def)
  next
    case (snoc ta early)
    obtain t a where ta: "ta = (t, a)" by (cases ta)
    have "g = gate_step desktop t (Auto_answered a) (gate_run desktop (map (\<lambda>(t, a). (t, Auto_answered a)) early) ?start)"
      using snoc.prems by (simp add: gate_run_def ta)
    with snoc.IH [OF refl] show ?case
      by (auto simp: gate_step_def auto_answered_def accept_session_def split: option.splits if_splits)
  qed
  from this [OF refl] late
  show "\<not> ga_checking (gate_run desktop (map (\<lambda>(t, a). (t, Auto_answered a)) early @ [(later, Auto_answered ans)]) ?start)"
    unfolding run_append
    by (auto simp: gate_run_def [of _ "[x]" for x] gate_step_def auto_answered_def accept_session_def split: option.split)
next
  assume "getStoredPortalSession (pl_session st) = None" "\<not> desktop"
  then show "gate_shown (gate_mount desktop now st) = View_login ''''" by (simp add: gate_mount_def gate_shown_def Let_def)
qed

theorem gate_decides_witness:
  "\<not> ga_checking (gate_run False (map (\<lambda>(t, a). (t, Session_checked a)) [(1, Unreachable ''x''), (2, Unreachable ''x''), (3, Unreachable ''x'')]
     @ [(9, Auto_answered (Unreachable ''x''))])
     (gate_mount False 0 \<lparr>pl_session = Holds (JObj [(''username'', JStr ''u''), (''sessionToken'', JStr ''t'')]), pl_token = None\<rparr>))"
proof -
  let ?st = "\<lparr>pl_session = Holds (JObj [(''username'', JStr ''u''), (''sessionToken'', JStr ''t'')]), pl_token = None\<rparr>"
  let ?as = "[(1, Unreachable ''x''), (2, Unreachable ''x''), (3, Unreachable ''x'')]"
  have "getStoredPortalSession (pl_session ?st) = Some \<lparr>pe_username = ''u'', pe_sessionToken = ''t'', pe_expiresAt = None\<rparr>" by code_simp
  moreover have "max_attempts False \<le> length ?as" by (simp add: max_attempts_def)
  ultimately show ?thesis using gate_decides [of ?st False 9 "Unreachable ''x''" 0] by blast
qed

text \<open>
  Through any answers, locks, logins and times: the gate never waits without a request that can end the wait, and when
  the workspace is shown the token stored for it is the token of the session.
\<close>

theorem gate_invariant:
  fixes evs :: "(rat \<times> gate_event) list" and desktop :: bool and now :: rat and st :: portal_storage
  defines "g \<equiv> gate_run desktop evs (gate_mount desktop now st)"
  shows "(ga_checking g \<and> \<not> ga_gone g \<longrightarrow> ga_phase g \<noteq> Gate_idle) \<and>
    (gate_shown g = View_workspace \<longrightarrow> (\<exists>s. ga_session g = Some s \<and>
       (pe_sessionToken s \<noteq> '''' \<longrightarrow> pl_token (ga_storage g) = Some (pe_sessionToken s))))"
  using gate_run_ok [OF gate_mount_ok, of desktop evs desktop now st]
  unfolding g_def [symmetric] by (auto simp: gate_ok_def gate_shown_def split: if_splits)

text \<open>
  A lock does not stop the validation that is under way.  When its answer arrives the workspace is shown again, with
  its token stored, though nobody logged in and no session is stored; and when it fails instead, a login made in the
  meantime is thrown away.
\<close>

theorem lock_is_undone:
  assumes "\<not> ga_gone g" "ga_phase g = Gate_validating n e" "pe_sessionToken e \<noteq> ''''"
  shows "let locked = gate_step desktop t1 (Lock_requested reason) g;
      restored = gate_step desktop t2 (Session_checked (Answered True http payload)) locked;
      entered = gate_step desktop t2 (Login_granted s) locked;
      thrown = gate_step desktop t4 (Auto_answered (Unreachable m)) (gate_step desktop t3 (Session_checked (Answered False ''401'' payload)) entered)
    in (\<exists>msg. gate_shown locked = View_login msg) \<and> pl_token (ga_storage locked) = None \<and>
       gate_shown restored = View_workspace \<and> pl_token (ga_storage restored) = Some (pe_sessionToken e) \<and>
       pl_session (ga_storage restored) = Missing \<and>
       gate_shown entered = View_workspace \<and> gate_shown thrown \<noteq> View_workspace \<and> pl_session (ga_storage thrown) = Missing"
  using assms
  by (simp add: gate_step_def gate_lock_def forget_session_def session_checked_def accept_session_def gate_shown_def
      setWorkspaceSessionToken_def storePortalSession_def gate_authenticated_def auto_answered_def requestAutoSession_def Let_def)

definition sample_session :: portal_session where
  "sample_session = \<lparr>pe_username = ''u'', pe_sessionToken = ''t'', pe_expiresAt = None\<rparr>"

definition sample_gate :: gate where
  "sample_gate = gate_mount False 0 (storePortalSession (Some sample_session) \<lparr>pl_session = Missing, pl_token = None\<rparr>)"

theorem lock_is_undone_witness:
  "gate_shown (gate_step False 2 (Session_checked (Answered True ''200'' JNull)) (gate_step False 1 (Lock_requested None) sample_gate)) = View_workspace"
proof -
  have "\<not> ga_gone sample_gate" "ga_phase sample_gate = Gate_validating 0 sample_session" "pe_sessionToken sample_session \<noteq> ''''"
    by code_simp+
  from lock_is_undone [OF this, of False 1 None 2 "''200''" JNull] show ?thesis by (simp add: Let_def)
qed

theorem gate_invariant_witness:
  "pl_token (ga_storage (gate_run False [(1, Session_checked (Answered True ''200'' JNull))] sample_gate)) = Some ''t''"
proof -
  let ?g = "gate_run False [(1, Session_checked (Answered True ''200'' JNull))] sample_gate"
  have "gate_shown ?g = View_workspace" "ga_session ?g = Some sample_session" by code_simp+
  moreover have "pe_sessionToken sample_session = ''t''" by code_simp
  moreover have "gate_shown ?g = View_workspace \<longrightarrow>
      (\<exists>s. ga_session ?g = Some s \<and> (pe_sessionToken s \<noteq> '''' \<longrightarrow> pl_token (ga_storage ?g) = Some (pe_sessionToken s)))"
    using gate_invariant [of False "[(1, Session_checked (Answered True ''200'' JNull))]" 0
      "storePortalSession (Some sample_session) \<lparr>pl_session = Missing, pl_token = None\<rparr>"]
    unfolding sample_gate_def [symmetric] by blast
  ultimately show ?thesis by auto
qed

text \<open>A session that is stored is the session read back at the next start.\<close>

lemma stored_session_survives:
  "plain_session s \<Longrightarrow> getStoredPortalSession (pl_session (storePortalSession (Some s) st)) = Some s"
  by (simp add: storePortalSession_def session_reads_back)

text \<open>The form never submits twice at a time, and every answer makes it ready again.\<close>

lemma login_ready_again: "\<not> lf_submitting (fst (login_answered ans f)) \<and> (lf_submitting f \<longrightarrow> login_submit f = f)"
  by (auto simp: login_answered_def login_submit_def split: answer.splits option.splits)

end
