(* ===== verification/Settings.thy ===== *)
theory Settings
  imports Dom
begin

text \<open>
  The settings page of \<open>components/Settings.tsx\<close>: the defaults and what storage adds to them, the controls of its
  sections, the effect that stores every change and posts the risk limits, the theme, and the connection to
  QuantConnect with the keys of the other platforms.  The settings are the object that the program keeps: storage may
  put values of any type in it.
\<close>

section \<open>The settings and their storage\<close>

definition THEMES :: "string list" where
  "THEMES = [''dark-navy'', ''deep-purple'', ''dark-midnight'', ''gunmetal'', ''abyss'', ''terminal'']"

definition applyTheme :: "jsval \<Rightarrow> string" where
  "applyTheme key = (if key = JStr ''dark-navy'' then '''' else js_str key)"

definition SETTING_DEFAULTS :: "(string \<times> jsval) list" where
  "SETTING_DEFAULTS =
     [(''tradingMode'', JStr ''paper''), (''confirmBeforeTrade'', JBool True), (''paperBankroll'', JNum (Fin 1000)),
      (''theme'', JStr ''dark-navy''), (''maxPositionSize'', JNum (Fin 500)), (''maxDailyLoss'', JNum (Fin 100)),
      (''killSwitchDd'', JNum (Fin 5)), (''maxOpenPositions'', JNum (Fin 7)),
      (''manualMaxOrders'', JNum (Fin 7)), (''manualMaxYesDollar'', JNum (Fin 500)), (''manualMaxNoDollar'', JNum (Fin 500)),
      (''manualDailyTrades'', JNum (Fin 20)), (''manualDailyLoss'', JNum (Fin 100)),
      (''algoMaxOrders'', JNum (Fin 3)), (''algoMaxYesDollar'', JNum (Fin 300)), (''algoMaxNoDollar'', JNum (Fin 300)),
      (''algoDailyTrades'', JNum (Fin 10)), (''algoDailyLoss'', JNum (Fin 50)),
      (''defaultTradeSize'', JNum (Fin 10)), (''defaultSlippage'', JNum (Fin (1 / 2))), (''autoRotateInterval'', JNum (Fin 15)),
      (''showSignalOverlay'', JBool True), (''compactMode'', JBool False), (''probHistoryPts'', JNum (Fin 500)),
      (''soundOnSignal'', JBool False), (''flashOnFill'', JBool True), (''signalFilter'', JStr ''all''),
      (''maxTapeHistory'', JNum (Fin 2000)), (''autoBackfill'', JBool True), (''clobAutoReconnect'', JBool True),
      (''clobStaleThreshold'', JNum (Fin 20)), (''clobReconnectCd'', JNum (Fin 45))]"

definition loadAppSettings :: "slot \<Rightarrow> jsval" where
  "loadAppSettings raw =
     (case raw of Holds parsed \<Rightarrow> js_spread (JObj SETTING_DEFAULTS) parsed | _ \<Rightarrow> JObj SETTING_DEFAULTS)"

definition risk_limits :: "jsval \<Rightarrow> (string \<times> jsval) list" where
  "risk_limits s =
     [(''manual_max_concurrent'', js_get s ''manualMaxOrders''), (''manual_max_yes_dollar'', js_get s ''manualMaxYesDollar''),
      (''manual_max_no_dollar'', js_get s ''manualMaxNoDollar''), (''manual_daily_trade_limit'', js_get s ''manualDailyTrades''),
      (''manual_daily_loss_limit'', js_get s ''manualDailyLoss''), (''algo_max_concurrent'', js_get s ''algoMaxOrders''),
      (''algo_max_yes_dollar'', js_get s ''algoMaxYesDollar''), (''algo_max_no_dollar'', js_get s ''algoMaxNoDollar''),
      (''algo_daily_trade_limit'', js_get s ''algoDailyTrades''), (''algo_daily_loss_limit'', js_get s ''algoDailyLoss'')]"

section \<open>The controls\<close>

text \<open>The fields with a toggle, and the number fields with their least and greatest values.\<close>

definition TOGGLE_ROWS :: "string list" where
  "TOGGLE_ROWS = [''confirmBeforeTrade'', ''showSignalOverlay'', ''compactMode'', ''soundOnSignal'', ''flashOnFill'', ''autoBackfill'', ''clobAutoReconnect'']"

definition NUMBER_ROWS :: "(string \<times> rat \<times> rat option) list" where
  "NUMBER_ROWS =
     [(''paperBankroll'', 100, None), (''maxPositionSize'', 1, None), (''killSwitchDd'', 1, Some 50),
      (''manualMaxOrders'', 1, Some 50), (''manualMaxYesDollar'', 0, None), (''manualMaxNoDollar'', 0, None),
      (''manualDailyTrades'', 1, Some 200), (''manualDailyLoss'', 1, None),
      (''algoMaxOrders'', 1, Some 20), (''algoMaxYesDollar'', 0, None), (''algoMaxNoDollar'', 0, None),
      (''algoDailyTrades'', 1, Some 100), (''algoDailyLoss'', 1, None),
      (''defaultTradeSize'', 1, None), (''defaultSlippage'', 0, Some 5),
      (''autoRotateInterval'', 5, Some 120), (''probHistoryPts'', 50, Some 4320),
      (''maxTapeHistory'', 100, Some 10000), (''clobStaleThreshold'', 5, Some 120), (''clobReconnectCd'', 10, Some 300)]"

text \<open>
  The text of a number field is empty unless it is a finite number; the bounds of the field mark it invalid but do not
  change it.
\<close>

definition field_text :: "string \<Rightarrow> string" where
  "field_text text = (if is_fin (js_parse text) then text else '''')"

definition NumInput :: "string \<Rightarrow> jsval" where
  "NumInput text = JNum (js_parse (field_text text))"

datatype settings_edit =
    Pick_mode bool
  | Pick_theme string
  | Pick_filter bool
  | Toggle_row string
  | Number_row string string

fun edit_partial :: "settings_edit \<Rightarrow> jsval \<Rightarrow> (string \<times> jsval) list" where
  "edit_partial (Pick_mode live) s = [(''tradingMode'', JStr (if live then ''live'' else ''paper''))]"
| "edit_partial (Pick_theme key) s = (if key \<in> set THEMES then [(''theme'', JStr key)] else [])"
| "edit_partial (Pick_filter strong) s = [(''signalFilter'', JStr (if strong then ''strong'' else ''all''))]"
| "edit_partial (Toggle_row f) s = (if f \<in> set TOGGLE_ROWS then [(f, js_not (js_get s f))] else [])"
| "edit_partial (Number_row f text) s =
     (if f \<in> set (map fst NUMBER_ROWS)
      then (f, NumInput text) # (if f = ''manualMaxOrders'' then [(''maxOpenPositions'', NumInput text)] else [])
      else [])"

section \<open>The page\<close>

record settings_page =
  sg_s :: jsval
  sg_section :: string
  sg_saved :: bool
  sg_storage :: slot
  sg_posted :: "(string \<times> jsval) list list"
  sg_theme :: string

text \<open>The effect that runs after every change of the settings.\<close>

definition settings_effect :: "settings_page \<Rightarrow> settings_page" where
  "settings_effect g =
     g\<lparr>sg_storage := stored (sg_s g), sg_posted := sg_posted g @ [risk_limits (sg_s g)], sg_saved := True\<rparr>"

text \<open>A page that is loaded applies the stored theme first.\<close>

definition page_loaded :: "slot \<Rightarrow> (string \<times> jsval) list list \<Rightarrow> settings_page" where
  "page_loaded raw posted =
     settings_effect \<lparr>sg_s = loadAppSettings raw, sg_section = ''platform'', sg_saved = False, sg_storage = raw, sg_posted = posted,
       sg_theme = applyTheme (js_get (loadAppSettings raw) ''theme'')\<rparr>"

definition set_settings :: "(string \<times> jsval) list \<Rightarrow> settings_page \<Rightarrow> settings_page" where
  "set_settings partial g = settings_effect (g\<lparr>sg_s := js_spread (sg_s g) (JObj partial)\<rparr>)"

datatype settings_op =
    Edit_setting settings_edit
  | Open_section string
  | Saved_expired
  | Reset_settings bool

fun settings_step :: "settings_op \<Rightarrow> settings_page \<Rightarrow> settings_page" where
  "settings_step (Edit_setting e) g =
     (let partial = edit_partial e (sg_s g)
      in if partial = [] then g
         else (case e of Pick_theme key \<Rightarrow> (set_settings partial g)\<lparr>sg_theme := applyTheme (JStr key)\<rparr> | _ \<Rightarrow> set_settings partial g))"
| "settings_step (Open_section section) g = g\<lparr>sg_section := section\<rparr>"
| "settings_step Saved_expired g = g\<lparr>sg_saved := False\<rparr>"
| "settings_step (Reset_settings confirmed) g = (if confirmed then page_loaded Missing (sg_posted g) else g)"

definition settings_run :: "settings_op list \<Rightarrow> settings_page \<Rightarrow> settings_page" where
  "settings_run ops g = foldl (\<lambda>g op. settings_step op g) g ops"

section \<open>The connections\<close>

datatype qc_phase = QC_idle | QC_authenticate jsval | QC_projects jsval jsval | QC_nodes jsval jsval jsval

datatype qc_state = QC_disconnected | QC_connecting | QC_connected | QC_error

record qc_status =
  qs_state :: qc_state
  qs_message :: jsval
  qs_userId :: "string option"
  qs_projects :: "nat option"
  qs_nodes :: "(jsval \<times> jsval) option"

record qc_page =
  qc_creds :: jsval
  qc_status :: qc_status
  qc_phase :: qc_phase
  qc_storage :: slot
  qc_kalshi :: string
  qc_ibkr :: "string \<times> string"
  qc_kept_kalshi :: "string option"
  qc_kept_ibkr :: "string option \<times> string option"

definition no_creds :: jsval where
  "no_creds = JObj [(''userId'', JStr ''''), (''apiToken'', JStr '''')]"

definition loadQCCreds :: "slot \<Rightarrow> jsval" where
  "loadQCCreds raw = (case raw of Holds v \<Rightarrow> v | _ \<Rightarrow> no_creds)"

definition qc_says :: "qc_state \<Rightarrow> string \<Rightarrow> qc_status" where
  "qc_says st message = \<lparr>qs_state = st, qs_message = JStr message, qs_userId = None, qs_projects = None, qs_nodes = None\<rparr>"

definition qc_mount :: "slot \<Rightarrow> string option \<Rightarrow> string option \<times> string option \<Rightarrow> qc_page" where
  "qc_mount raw kalshi ibkr =
     (let creds = loadQCCreds raw
      in \<lparr>qc_creds = creds,
          qc_status = (if truthy (js_get creds ''userId'') \<and> truthy (js_get creds ''apiToken'')
            then qc_says QC_disconnected ''Credentials loaded - click Connect to verify'' else qc_says QC_disconnected ''Not connected''),
          qc_phase = QC_idle, qc_storage = raw, qc_kalshi = opt_or kalshi '''', qc_ibkr = (opt_or (fst ibkr) '''', opt_or (snd ibkr) ''''),
          qc_kept_kalshi = kalshi, qc_kept_ibkr = ibkr\<rparr>)"

text \<open>A value that is not a string has no \<open>trim\<close>: the click ends in an error that nobody shows.\<close>

definition handleConnect :: "qc_page \<Rightarrow> qc_page" where
  "handleConnect q =
     (if qs_state (qc_status q) = QC_connecting then q
      else (case js_get (qc_creds q) ''userId'' of
          JStr user \<Rightarrow>
            if js_trim user = '''' then q\<lparr>qc_status := qc_says QC_error ''User ID and API Token are required''\<rparr>
            else (case js_get (qc_creds q) ''apiToken'' of
                JStr token \<Rightarrow>
                  if js_trim token = '''' then q\<lparr>qc_status := qc_says QC_error ''User ID and API Token are required''\<rparr>
                  else q\<lparr>qc_phase := QC_authenticate (qc_creds q), qc_status := qc_says QC_connecting ''Authenticating...''\<rparr>
              | _ \<Rightarrow> q)
        | _ \<Rightarrow> q))"

text \<open>\<open>auth.errors?.[0] ?? 'Authentication failed'\<close> and \<open>xs?.length ?? 0\<close>\<close>

definition first_error :: "jsval \<Rightarrow> jsval" where
  "first_error errors =
     js_nn [case errors of JArr (x # _) \<Rightarrow> x | JStr (c # _) \<Rightarrow> JStr [c] | JObj ps \<Rightarrow> js_get errors ''0'' | _ \<Rightarrow> JUndef,
       JStr ''Authentication failed'']"

definition length_or_zero :: "jsval \<Rightarrow> jsval" where
  "length_or_zero xs =
     js_nn [case xs of JArr vs \<Rightarrow> JNum (Fin (of_nat (length vs))) | JStr s \<Rightarrow> JNum (Fin (of_nat (length s)))
         | JObj ps \<Rightarrow> js_get xs ''length'' | _ \<Rightarrow> JUndef,
       JNum (Fin 0)]"

definition qc_failed :: "string \<Rightarrow> qc_page \<Rightarrow> qc_page" where
  "qc_failed message q = q\<lparr>qc_phase := QC_idle, qc_status := qc_says QC_error message\<rparr>"

text \<open>
  An answer to the request under way: the payload, or the message of the error that reading it ended in.  Reading a
  property of \<open>null\<close> is an error, whose text is a parameter; the credentials are stored before the projects are
  looked at.
\<close>

definition qc_answered :: "string \<Rightarrow> string + jsval \<Rightarrow> qc_page \<Rightarrow> qc_page" where
  "qc_answered null_text ans q =
     (case ans of
        Inl message \<Rightarrow> if qc_phase q = QC_idle then q else qc_failed message q
      | Inr v \<Rightarrow>
          (case qc_phase q of
             QC_idle \<Rightarrow> q
           | QC_authenticate creds \<Rightarrow>
               if is_nullish v then qc_failed null_text q
               else if \<not> truthy (js_get v ''success'')
               then q\<lparr>qc_phase := QC_idle, qc_status := (qc_says QC_error '''')\<lparr>qs_message := first_error (js_get v ''errors'')\<rparr>\<rparr>
               else q\<lparr>qc_phase := QC_projects creds v, qc_status := qc_says QC_connecting ''Fetching projects...''\<rparr>
           | QC_projects creds auth \<Rightarrow> q\<lparr>qc_phase := QC_nodes creds auth v\<rparr>
           | QC_nodes creds auth proj \<Rightarrow>
               if is_nullish v then qc_failed null_text q
               else (let q = q\<lparr>qc_storage := stored creds\<rparr>; nodes = js_get v ''nodes''
                 in if is_nullish proj then qc_failed null_text q
                    else q\<lparr>qc_phase := QC_idle,
                      qc_status := \<lparr>qs_state = QC_connected, qs_message = JStr ''Connected'',
                        qs_userId = Some (js_str (js_nn [js_get auth ''userId'', js_get creds ''userId''])),
                        qs_projects = Some (case js_get proj ''projects'' of JArr vs \<Rightarrow> length vs | _ \<Rightarrow> 0),
                        qs_nodes = Some (length_or_zero (js_get nodes ''backtest''), length_or_zero (js_get nodes ''live''))\<rparr>\<rparr>)))"

definition handleDisconnect :: "qc_page \<Rightarrow> qc_page" where
  "handleDisconnect q =
     (if qs_state (qc_status q) = QC_connected
      then q\<lparr>qc_phase := QC_idle, qc_storage := Missing, qc_creds := no_creds, qc_status := qc_says QC_disconnected ''Disconnected''\<rparr>
      else q)"

definition type_cred :: "string \<Rightarrow> string \<Rightarrow> qc_page \<Rightarrow> qc_page" where
  "type_cred field text q =
     (if qs_state (qc_status q) = QC_connected then q
      else q\<lparr>qc_creds := js_spread (qc_creds q) (JObj [(field, JStr text)])\<rparr>)"

datatype qc_op =
    QC_connect
  | QC_answer "string + jsval"
  | QC_disconnect
  | QC_type bool string
  | Type_kalshi string
  | Type_ibkr string string
  | Save_kalshi
  | Save_ibkr

fun qc_step :: "string \<Rightarrow> qc_op \<Rightarrow> qc_page \<Rightarrow> qc_page" where
  "qc_step null_text QC_connect q = handleConnect q"
| "qc_step null_text (QC_answer ans) q = qc_answered null_text ans q"
| "qc_step null_text QC_disconnect q = handleDisconnect q"
| "qc_step null_text (QC_type token text) q = type_cred (if token then ''apiToken'' else ''userId'') text q"
| "qc_step null_text (Type_kalshi text) q = q\<lparr>qc_kalshi := text\<rparr>"
| "qc_step null_text (Type_ibkr key account) q = q\<lparr>qc_ibkr := (key, account)\<rparr>"
| "qc_step null_text Save_kalshi q = q\<lparr>qc_kept_kalshi := Some (qc_kalshi q)\<rparr>"
| "qc_step null_text Save_ibkr q = q\<lparr>qc_kept_ibkr := (Some (fst (qc_ibkr q)), Some (snd (qc_ibkr q)))\<rparr>"

definition qc_run :: "string \<Rightarrow> qc_op list \<Rightarrow> qc_page \<Rightarrow> qc_page" where
  "qc_run null_text ops q = foldl (\<lambda>q op. qc_step null_text op q) q ops"

section \<open>Lemmas: stored objects\<close>

lemma json_undef [simp]: "json v = JUndef \<longleftrightarrow> v = JUndef"
  by (cases v) simp_all

lemma json_idem: "json (json v) = json v" "json_fields (json_fields ps) = json_fields ps" "json_items (json_items vs) = json_items vs"
  by (induction v and ps and vs rule: json_json_fields_json_items.induct) simp_all

lemma fields_shorter: "length (json_fields ps) \<le> length ps"
  by (induction ps) (auto split: if_split_asm)

lemma fields_fixed: "json_fields ps = ps \<Longrightarrow> (k, v) \<in> set ps \<Longrightarrow> v \<noteq> JUndef \<and> json v = v"
proof (induction ps)
  case (Cons p ps)
  obtain j w where p: "p = (j, w)" by (cases p)
  have "w \<noteq> JUndef"
    using Cons.prems(1) fields_shorter [of ps] unfolding p by (metis Suc_n_not_le_n json_fields.simps(2) length_Cons)
  with Cons show ?case by (auto simp: p)
qed simp

definition clean :: "(string \<times> jsval) list \<Rightarrow> bool" where
  "clean ps = (distinct (map fst ps) \<and> (\<forall>p \<in> set ps. snd p \<noteq> JUndef \<and> json (snd p) = snd p))"

lemma in_update: "p \<in> set (AList.update k v ps) \<Longrightarrow> p = (k, v) \<or> p \<in> set ps"
  by (induction ps) (auto split: if_split_asm)

lemma clean_fixed: "clean ps \<Longrightarrow> json_fields ps = ps"
  by (induction ps) (auto simp: clean_def)

lemma clean_update: "clean ps \<Longrightarrow> v \<noteq> JUndef \<Longrightarrow> json v = v \<Longrightarrow> clean (AList.update k v ps)"
  unfolding clean_def by (auto simp: distinct_update dest!: in_update)

lemma clean_updates:
  "clean ps \<Longrightarrow> \<forall>q \<in> set qs. snd q \<noteq> JUndef \<and> json (snd q) = snd q \<Longrightarrow>
    clean (foldl (\<lambda>ps (k, v). AList.update k v ps) ps qs) \<and>
    set (map fst ps) \<subseteq> set (map fst (foldl (\<lambda>ps (k, v). AList.update k v ps) ps qs))"
proof (induction qs arbitrary: ps)
  case (Cons q qs)
  obtain k v where q: "q = (k, v)" by (cases q)
  from Cons.prems have "clean (AList.update k v ps)" by (simp add: q clean_update)
  from Cons.IH [OF this] Cons.prems(2) show ?case by (auto simp: q dom_update)
qed simp

lemma clean_defaults: "clean SETTING_DEFAULTS"
  unfolding clean_def SETTING_DEFAULTS_def by simp

text \<open>What a parser of JSON returns: nothing absent, no number that is not finite.\<close>

definition readable :: "slot \<Rightarrow> bool" where
  "readable raw = (case raw of Holds v \<Rightarrow> json v = v | _ \<Rightarrow> True)"

lemma stored_readable: "readable (stored v)"
  by (simp add: readable_def stored_def json_idem)

definition full_settings :: "jsval \<Rightarrow> bool" where
  "full_settings s = (\<exists>ps. s = JObj ps \<and> clean ps \<and> set (map fst SETTING_DEFAULTS) \<subseteq> set (map fst ps))"

lemma full_spread:
  assumes "full_settings s" "\<forall>q \<in> set qs. snd q \<noteq> JUndef \<and> json (snd q) = snd q"
  shows "full_settings (js_spread s (JObj qs))"
proof -
  from assms(1) obtain ps where "s = JObj ps" "clean ps" "set (map fst SETTING_DEFAULTS) \<subseteq> set (map fst ps)"
    by (auto simp: full_settings_def)
  with clean_updates [OF _ assms(2), of ps] show ?thesis unfolding full_settings_def js_spread_def by (simp, blast)
qed

lemma full_defaults: "full_settings (JObj SETTING_DEFAULTS)"
  using clean_defaults by (auto simp: full_settings_def)

lemma load_full: "readable raw \<Longrightarrow> full_settings (loadAppSettings raw)"
proof (cases raw)
  case (Holds v)
  assume "readable raw"
  then have "json (JObj (obj_pairs v)) = JObj (obj_pairs v)" unfolding Holds readable_def by (cases v) auto
  then have "\<forall>q \<in> set (obj_pairs v). snd q \<noteq> JUndef \<and> json (snd q) = snd q" using fields_fixed [of "obj_pairs v"] by auto
  from full_spread [OF full_defaults this] show ?thesis by (simp add: Holds loadAppSettings_def js_spread_def)
qed (simp_all add: loadAppSettings_def full_defaults)

text \<open>Settings that are stored are the settings read back.\<close>

lemma load_stored:
  assumes "full_settings s"
  shows "js_get (loadAppSettings (stored s)) k = js_get s k"
proof -
  from assms obtain ps where s: "s = JObj ps" and c: "clean ps" and d: "set (map fst SETTING_DEFAULTS) \<subseteq> set (map fst ps)"
    by (auto simp: full_settings_def)
  have "map_of (rev ps) k = Some v \<longleftrightarrow> map_of ps k = Some v" for v
    using c by (simp add: clean_def map_of_eq_Some_iff rev_map [symmetric])
  then have "map_of (rev ps) k = map_of ps k" by (metis option.exhaust)
  moreover have "map_of SETTING_DEFAULTS k = None" if "map_of ps k = None" using that d by (auto simp: map_of_eq_None_iff)
  ultimately show ?thesis
    by (simp add: loadAppSettings_def stored_def s clean_fixed [OF c] js_get_spread split: option.split)
qed

lemma full_get: "full_settings s \<Longrightarrow> k \<in> set (map fst SETTING_DEFAULTS) \<Longrightarrow> js_get s k \<noteq> JUndef"
proof -
  assume "full_settings s" "k \<in> set (map fst SETTING_DEFAULTS)"
  then obtain ps where ps: "s = JObj ps" "clean ps" "k \<in> fst ` set ps" by (auto simp: full_settings_def)
  then obtain v where "map_of ps k = Some v" by (metis map_of_eq_None_iff not_None_eq)
  with ps map_of_SomeD [OF this] show ?thesis by (auto simp: clean_def)
qed

section \<open>Lemmas: the page\<close>

lemma number_input: "\<exists>q. NumInput text = JNum (Fin q)"
proof -
  have "js_parse '''' = Fin 0" by (simp add: js_parse_def js_trim_def trim_start_def)
  then show ?thesis by (auto simp: NumInput_def field_text_def is_fin_conv)
qed

lemma edit_clean: "\<forall>q \<in> set (edit_partial e s). snd q \<noteq> JUndef \<and> json (snd q) = snd q"
proof (cases e)
  case (Number_row f t)
  with number_input [of t] show ?thesis by auto
qed (auto simp: js_not_def)

definition page_ok :: "settings_page \<Rightarrow> bool" where
  "page_ok g = (full_settings (sg_s g) \<and> sg_storage g = stored (sg_s g) \<and> sg_posted g \<noteq> [] \<and>
     last (sg_posted g) = risk_limits (sg_s g) \<and> sg_theme g = applyTheme (js_get (sg_s g) ''theme''))"

lemma loaded_ok: "readable raw \<Longrightarrow> page_ok (page_loaded raw posted)"
  by (simp add: page_ok_def page_loaded_def settings_effect_def load_full)

lemma get_partial:
  "js_get (js_spread s (JObj (edit_partial e t))) k =
    (case map_of (edit_partial e t) k of None \<Rightarrow> js_get s k | Some v \<Rightarrow> v)"
  using get_pairs [of s k] by (cases e) (simp_all add: js_get_spread)

lemma theme_row: "f \<in> set TOGGLE_ROWS \<or> f \<in> set (map fst NUMBER_ROWS) \<Longrightarrow> f \<noteq> ''theme''"
  unfolding TOGGLE_ROWS_def NUMBER_ROWS_def by auto

lemma edit_theme:
  "js_get (js_spread s (JObj (edit_partial e t))) ''theme'' =
    (case e of Pick_theme key \<Rightarrow> if key \<in> set THEMES then JStr key else js_get s ''theme'' | _ \<Rightarrow> js_get s ''theme'')"
  unfolding get_partial using theme_row by (cases e) auto

lemma edit_step:
  "settings_step (Edit_setting e) g =
    (if edit_partial e (sg_s g) = [] then g
     else (set_settings (edit_partial e (sg_s g)) g)
       \<lparr>sg_theme := (case e of Pick_theme key \<Rightarrow> applyTheme (JStr key) | _ \<Rightarrow> sg_theme g)\<rparr>)"
  by (cases e) (simp_all add: Let_def set_settings_def settings_effect_def)

lemma settings_step_ok:
  assumes "page_ok g"
  shows "page_ok (settings_step op g)"
proof (cases op)
  case (Edit_setting e)
  have full: "full_settings (js_spread (sg_s g) (JObj (edit_partial e (sg_s g))))"
    using assms edit_clean by (auto simp: page_ok_def intro!: full_spread)
  show ?thesis
  proof (cases "edit_partial e (sg_s g) = []")
    case False
    then have "(case e of Pick_theme key \<Rightarrow> applyTheme (JStr key) | _ \<Rightarrow> sg_theme g) =
        applyTheme (js_get (js_spread (sg_s g) (JObj (edit_partial e (sg_s g)))) ''theme'')"
      using assms unfolding edit_theme page_ok_def by (cases e) auto
    with full False show ?thesis
      unfolding Edit_setting edit_step by (simp add: page_ok_def set_settings_def settings_effect_def)
  qed (use assms in \<open>simp add: Edit_setting edit_step\<close>)
next
  case (Reset_settings confirmed)
  then show ?thesis using assms loaded_ok [of Missing] by (simp add: readable_def)
qed (use assms in \<open>simp_all add: page_ok_def\<close>)

lemma settings_run_ok: "page_ok g \<Longrightarrow> page_ok (settings_run ops g)"
  by (induction ops arbitrary: g) (auto simp: settings_run_def settings_step_ok)

section \<open>Lemmas: the connection\<close>

fun phase_creds :: "qc_phase \<Rightarrow> jsval option" where
  "phase_creds QC_idle = None"
| "phase_creds (QC_authenticate creds) = Some creds"
| "phase_creds (QC_projects creds auth) = Some creds"
| "phase_creds (QC_nodes creds auth proj) = Some creds"

fun phase_verified :: "qc_phase \<Rightarrow> bool" where
  "phase_verified (QC_projects creds auth) = truthy (js_get auth ''success'')"
| "phase_verified (QC_nodes creds auth proj) = truthy (js_get auth ''success'')"
| "phase_verified _ = True"

definition creds_given :: "jsval \<Rightarrow> bool" where
  "creds_given creds = (\<exists>user token. js_get creds ''userId'' = JStr user \<and> js_trim user \<noteq> '''' \<and>
     js_get creds ''apiToken'' = JStr token \<and> js_trim token \<noteq> '''')"

definition qc_ok :: "qc_page \<Rightarrow> bool" where
  "qc_ok q =
     ((qs_state (qc_status q) = QC_connecting) = (qc_phase q \<noteq> QC_idle) \<and> phase_verified (qc_phase q) \<and>
      (\<forall>creds \<in> set_option (phase_creds (qc_phase q)). creds_given creds) \<and>
      (qs_state (qc_status q) = QC_connected \<longrightarrow> (\<exists>creds. creds_given creds \<and> qc_storage q = stored creds)))"

lemma says_state [simp]: "qs_state (qc_says st m) = st" "qs_state (qc_says st m\<lparr>qs_message := w\<rparr>) = st"
  by (simp_all add: qc_says_def)

lemma qc_mount_ok: "qc_ok (qc_mount raw kalshi ibkr)"
  by (simp add: qc_ok_def qc_mount_def Let_def)

lemma connect_ok: "qc_ok q \<Longrightarrow> qc_ok (handleConnect q)"
  by (auto simp: qc_ok_def handleConnect_def creds_given_def split: jsval.split)

lemma answered_ok: "qc_ok q \<Longrightarrow> qc_ok (qc_answered null_text ans q)"
  by (cases "qc_phase q") (auto simp: qc_ok_def qc_answered_def qc_failed_def Let_def split: sum.split)

lemma type_ok: "qc_ok q \<Longrightarrow> qc_ok (type_cred field t q)"
  by (auto simp: qc_ok_def type_cred_def)

lemma disconnect_ok: "qc_ok q \<Longrightarrow> qc_ok (handleDisconnect q)"
  by (auto simp: qc_ok_def handleDisconnect_def)

lemma kept_ok:
  "qc_ok q \<Longrightarrow> qc_ok (q\<lparr>qc_kalshi := a\<rparr>)" "qc_ok q \<Longrightarrow> qc_ok (q\<lparr>qc_ibkr := b\<rparr>)"
  "qc_ok q \<Longrightarrow> qc_ok (q\<lparr>qc_kept_kalshi := c\<rparr>)" "qc_ok q \<Longrightarrow> qc_ok (q\<lparr>qc_kept_ibkr := d\<rparr>)"
  by (simp_all add: qc_ok_def)

lemma qc_step_ok: "qc_ok q \<Longrightarrow> qc_ok (qc_step null_text op q)"
  by (cases op) (simp_all add: connect_ok answered_ok type_ok disconnect_ok kept_ok)

lemma qc_run_ok: "qc_ok q \<Longrightarrow> qc_ok (qc_run null_text ops q)"
  by (induction ops arbitrary: q) (auto simp: qc_run_def qc_step_ok)

section \<open>Properties\<close>

text \<open>
  Whatever the user does on the settings page, and after every reload, the settings on the screen are those that any
  other part of the program reads from storage, no setting is missing, the theme of the page is the chosen one, and the
  risk limits posted last are those of the stored settings.
\<close>

theorem settings_persist:
  fixes ops :: "settings_op list" and posted :: "(string \<times> jsval) list list"
  assumes "readable raw"
  defines "g \<equiv> settings_run ops (page_loaded raw posted)"
  shows "(\<forall>k. js_get (loadAppSettings (sg_storage g)) k = js_get (sg_s g) k) \<and>
    (\<forall>k \<in> set (map fst SETTING_DEFAULTS). js_get (sg_s g) k \<noteq> JUndef) \<and>
    sg_theme g = applyTheme (js_get (loadAppSettings (sg_storage g)) ''theme'') \<and>
    last (sg_posted g) = risk_limits (loadAppSettings (sg_storage g))"
proof -
  have ok: "page_ok g" unfolding g_def by (intro settings_run_ok loaded_ok assms)
  then have "full_settings (sg_s g)" and st: "sg_storage g = stored (sg_s g)" by (auto simp: page_ok_def)
  from load_stored [OF this(1)] full_get [OF this(1)] ok show ?thesis
    by (simp add: st page_ok_def risk_limits_def)
qed

theorem settings_persist_witness:
  "js_get (loadAppSettings (sg_storage (settings_run [Edit_setting (Number_row ''manualMaxOrders'' ''3'')] (page_loaded Missing [])))) ''manualMaxOrders'' = JNum (Fin 3)"
proof -
  have "readable Missing" by (simp add: readable_def)
  moreover have "js_get (sg_s (settings_run [Edit_setting (Number_row ''manualMaxOrders'' ''3'')] (page_loaded Missing []))) ''manualMaxOrders'' = JNum (Fin 3)"
    by code_simp
  ultimately show ?thesis using settings_persist [of Missing "[Edit_setting (Number_row ''manualMaxOrders'' ''3'')]" "[]"] by simp
qed

text \<open>A number field whose text is deleted sets its limit to zero at once, below the least value the field allows.\<close>

lemma cleared_limit_is_zero:
  "f \<in> set (map fst NUMBER_ROWS) \<Longrightarrow> js_get (sg_s (settings_step (Edit_setting (Number_row f '''')) g)) f = JNum (Fin 0)"
proof -
  assume "f \<in> set (map fst NUMBER_ROWS)"
  moreover have "NumInput '''' = JNum (Fin 0)" by code_simp
  ultimately show ?thesis
    by (simp add: edit_step set_settings_def settings_effect_def get_partial del: settings_step.simps edit_partial.simps) simp
qed

text \<open>
  The connection to QuantConnect: a request is under way exactly while the page says so, only after an accepted
  authentication are projects and nodes asked for, and a page that is connected has stored credentials that are not
  blank.
\<close>

theorem qc_connection_invariant:
  fixes ops :: "qc_op list" and null_text :: string and raw :: slot and kalshi :: "string option" and ibkr :: "string option \<times> string option"
  defines "q \<equiv> qc_run null_text ops (qc_mount raw kalshi ibkr)"
  shows "(qs_state (qc_status q) = QC_connecting) = (qc_phase q \<noteq> QC_idle) \<and> phase_verified (qc_phase q) \<and>
    (qs_state (qc_status q) = QC_connected \<longrightarrow> (\<exists>creds. creds_given creds \<and> qc_storage q = stored creds))"
  using qc_run_ok [OF qc_mount_ok, of null_text ops raw kalshi ibkr] unfolding q_def by (simp add: qc_ok_def)

theorem qc_connection_invariant_witness:
  "\<exists>creds. creds_given creds \<and> qc_storage (qc_run ''m'' [QC_type False ''7'', QC_type True ''t'', QC_connect,
     QC_answer (Inr (JObj [(''success'', JBool True)])), QC_answer (Inr (JObj [])), QC_answer (Inr (JObj []))]
     (qc_mount Missing None (None, None))) = stored creds"
proof -
  have "qs_state (qc_status (qc_run ''m'' [QC_type False ''7'', QC_type True ''t'', QC_connect,
     QC_answer (Inr (JObj [(''success'', JBool True)])), QC_answer (Inr (JObj [])), QC_answer (Inr (JObj []))]
     (qc_mount Missing None (None, None)))) = QC_connected" by code_simp
  then show ?thesis using qc_connection_invariant by blast
qed

text \<open>An answer without projects ends in an error, but the credentials were stored before it was looked at.\<close>

lemma failed_connection_stored:
  "qc_phase q = QC_nodes creds auth JNull \<Longrightarrow> \<not> is_nullish nodes \<Longrightarrow>
    qs_state (qc_status (qc_answered m (Inr nodes) q)) = QC_error \<and> qc_storage (qc_answered m (Inr nodes) q) = stored creds"
  by (simp add: qc_answered_def qc_failed_def Let_def)

end
