(* ===== verification/OrderPanel.thy ===== *)
theory OrderPanel
  imports Settings
begin

text \<open>
  The order form of \<open>components/OrderPanel.tsx\<close>: prices and totals from the store, the reasons to block an order, the
  requests of the order and exit buttons with their answers, and the table of fills.  The settings are read from
  storage at a render of the form and at no other moment: a change of the stored settings renders nothing here.
\<close>

section \<open>What the form reads\<close>

definition panel_book :: "terminal_state \<Rightarrow> poly_book option" where
  "panel_book st = dict_get (ss_polyBooks st) (opt_or (ss_activeMarketKey st) '''')"

definition panel_market :: "terminal_state \<Rightarrow> market_info option" where
  "panel_market st = List.find (\<lambda>m. Some (mk_key m) = ss_activeMarketKey st) (ss_markets st)"

definition panel_fills :: "terminal_state \<Rightarrow> poly_tick list" where
  "panel_fills st =
     (case ss_activeMarketKey st of
        Some key \<Rightarrow> if key = '''' then [] else opt_or (dict_get (ss_fills st) key) []
      | None \<Rightarrow> [])"

definition maxPositions :: "slot \<Rightarrow> jsnum" where
  "maxPositions raw = js_num (js_get (loadAppSettings raw) ''manualMaxOrders'')"

definition posCount :: "terminal_state \<Rightarrow> jsnum" where
  "posCount st = (case ss_metrics st of Some m \<Rightarrow> dm_concurrent_positions m | None \<Rightarrow> Fin (of_nat (length (ss_positions st))))"

definition outcome_direction :: "outcome \<Rightarrow> direction" where
  "outcome_direction oc = (case oc of Yes \<Rightarrow> ''UP'' | No \<Rightarrow> ''DOWN'')"

definition outcome_shares :: "outcome \<Rightarrow> terminal_state \<Rightarrow> jsnum" where
  "outcome_shares oc st = js_sum (map ps_size (side_positions (outcome_direction oc) st))"

definition outcome_pnl :: "outcome \<Rightarrow> terminal_state \<Rightarrow> jsnum" where
  "outcome_pnl oc st = js_sum (map ps_unrealized_pnl (side_positions (outcome_direction oc) st))"

definition sharesTotal :: "terminal_state \<Rightarrow> jsnum" where
  "sharesTotal st = js_add (outcome_shares Yes st) (outcome_shares No st)"

section \<open>The first minutes of a period\<close>

definition form_period_ms :: "timeframe \<Rightarrow> rat" where
  "form_period_ms tf = (if tf = TF_5min then 300000 else 900000)"

definition dead_ms :: "timeframe \<Rightarrow> rat" where
  "dead_ms tf = (if tf = TF_5min then 60000 else 180000)"

definition period_start :: "rat \<Rightarrow> market_info \<Rightarrow> jsnum" where
  "period_start now m =
     (let tf = mk_timeframe m in
      if truthy (JNum (mk_expiry_ts m)) then js_sub (mk_expiry_ts m) (Fin (form_period_ms tf))
      else (let tfSec = (if tf = TF_5min then 5 else 15) * 60 :: rat in Fin (of_int \<lfloor>now / 1000 / tfSec\<rfloor> * tfSec * 1000)))"

definition isDeadzone :: "rat \<Rightarrow> market_info option \<Rightarrow> bool" where
  "isDeadzone now mkt =
     (case mkt of
        None \<Rightarrow> False
      | Some m \<Rightarrow>
          (let tf = mk_timeframe m; start = period_start now m in
           (tf = TF_5min \<or> tf = TF_15min) \<and> js_le start (Fin now) \<and> js_lt (Fin now) (js_add start (Fin (dead_ms tf)))))"

section \<open>Prices\<close>

text \<open>The price of a side of the book, and what stands for it without a book.\<close>

definition live_or_half :: "terminal_state \<Rightarrow> jsnum" where
  "live_or_half st = (case panel_market st of Some m \<Rightarrow> js_div (mk_up_pct m) (Fin 100) | None \<Rightarrow> Fin (1 / 2))"

definition yesBid :: "terminal_state \<Rightarrow> jsnum" where
  "yesBid st = (case panel_book st of Some b \<Rightarrow> if is_nullish (pb_best_bid b) then live_or_half st else js_num (pb_best_bid b) | None \<Rightarrow> live_or_half st)"

definition yesAsk :: "terminal_state \<Rightarrow> jsnum" where
  "yesAsk st = (case panel_book st of Some b \<Rightarrow> if is_nullish (pb_best_ask b) then live_or_half st else js_num (pb_best_ask b) | None \<Rightarrow> live_or_half st)"

definition noAsk :: "terminal_state \<Rightarrow> jsnum" where
  "noAsk st = js_sub (Fin 1) (yesBid st)"

definition noBid :: "terminal_state \<Rightarrow> jsnum" where
  "noBid st = js_sub (Fin 1) (yesAsk st)"

definition yesLive :: "terminal_state \<Rightarrow> jsnum" where
  "yesLive st = (case panel_market st of Some m \<Rightarrow> mk_up_pct m | None \<Rightarrow> js_mul (js_div (js_add (yesBid st) (yesAsk st)) (Fin 2)) (Fin 100))"

definition noLive :: "terminal_state \<Rightarrow> jsnum" where
  "noLive st = (case panel_market st of Some m \<Rightarrow> mk_down_pct m | None \<Rightarrow> js_mul (js_div (js_add (noAsk st) (noBid st)) (Fin 2)) (Fin 100))"

definition spread_text :: "terminal_state \<Rightarrow> string option" where
  "spread_text st = (case panel_book st of None \<Rightarrow> None | Some b \<Rightarrow> Some (to_fixed 1 (js_mul (js_sub (yesAsk st) (yesBid st)) (Fin 100))))"

definition marketPrice :: "trade_side \<Rightarrow> outcome \<Rightarrow> terminal_state \<Rightarrow> jsnum" where
  "marketPrice side oc st =
     (case oc of
        Yes \<Rightarrow> (case side of Buy \<Rightarrow> yesAsk st | Sell \<Rightarrow> yesBid st)
      | No \<Rightarrow> (case side of Buy \<Rightarrow> noAsk st | Sell \<Rightarrow> noBid st))"

section \<open>The form\<close>

record panel_order =
  pq_orderId :: string
  pq_asset :: string
  pq_direction :: direction
  pq_side :: trade_side
  pq_marketKey :: "string option"
  pq_orderType :: sim_order_type
  pq_size :: jsnum
  pq_price :: jsnum
  pq_partial_exit :: bool

datatype panel_toast =
    Toast_invalid_price
  | Toast_filled string jsnum string
  | Toast_error jsval
  | Toast_network

text \<open>The limit of positions that the last render read, and the order under way with what its answer will say of it.\<close>

record order_panel =
  op_size :: string
  op_yesLimit :: string
  op_noLimit :: string
  op_placing :: "string option"
  op_dead :: bool
  op_max :: jsnum
  op_waiting :: "(string \<times> jsnum \<times> string \<times> string) option"
  op_sent :: "panel_order list"
  op_toasts :: "panel_toast list"

definition new_panel :: "rat \<Rightarrow> slot \<Rightarrow> terminal_state \<Rightarrow> order_panel" where
  "new_panel now raw st = \<lparr>op_size = ''100'', op_yesLimit = '''', op_noLimit = '''', op_placing = None,
     op_dead = isDeadzone now (panel_market st), op_max = maxPositions raw, op_waiting = None, op_sent = [], op_toasts = []\<rparr>"

definition blocked :: "terminal_state \<Rightarrow> order_panel \<Rightarrow> bool" where
  "blocked st p =
     ((case ss_metrics st of Some m \<Rightarrow> dm_at_trade_limit m \<or> dm_at_loss_limit m | None \<Rightarrow> False) \<or>
      js_le (op_max p) (posCount st) \<or> op_dead p)"

definition blocked_text :: "terminal_state \<Rightarrow> order_panel \<Rightarrow> string option" where
  "blocked_text st p =
     (if \<not> blocked st p then None
      else Some (if op_dead p then ''DEADZONE: Wait for session stability''
        else case ss_metrics st of
            Some m \<Rightarrow> if dm_at_trade_limit m then ''Daily trade limit'' else if dm_at_loss_limit m then ''Daily loss limit'' else ''Max positions open''
          | None \<Rightarrow> ''Max positions open''))"

definition limitPrice :: "outcome \<Rightarrow> order_panel \<Rightarrow> jsnum option" where
  "limitPrice oc p =
     (let raw = (case oc of Yes \<Rightarrow> op_yesLimit p | No \<Rightarrow> op_noLimit p); v = js_parse_float raw in
      if raw = '''' \<or> v = NaN \<or> js_le v (Fin 0) \<or> js_le (Fin 100) v then None else Some (js_div v (Fin 100)))"

definition side_word :: "trade_side \<Rightarrow> string" where
  "side_word side = (case side of Buy \<Rightarrow> ''buy'' | Sell \<Rightarrow> ''sell'')"

definition type_word :: "sim_order_type \<Rightarrow> string" where
  "type_word ot = (case ot of Market \<Rightarrow> ''market'' | Limit \<Rightarrow> ''limit'')"

definition outcome_text :: "outcome \<Rightarrow> string" where
  "outcome_text oc = (case oc of Yes \<Rightarrow> ''yes'' | No \<Rightarrow> ''no'')"

definition button_key :: "trade_side \<Rightarrow> sim_order_type \<Rightarrow> outcome \<Rightarrow> string" where
  "button_key side ot oc = side_word side @ ''-'' @ type_word ot @ ''-'' @ outcome_text oc"

definition order_size :: "string \<Rightarrow> jsnum" where
  "order_size text = (let v = js_parse_float text in if truthy (JNum v) then v else Fin 100)"

definition placeOrder :: "rat \<Rightarrow> string \<Rightarrow> terminal_state \<Rightarrow> trade_side \<Rightarrow> sim_order_type \<Rightarrow> outcome \<Rightarrow> order_panel \<Rightarrow> order_panel" where
  "placeOrder now asset st side ot oc p =
     (case (case ot of Limit \<Rightarrow> limitPrice oc p | Market \<Rightarrow> Some (marketPrice side oc st)) of
        None \<Rightarrow> p\<lparr>op_toasts := op_toasts p @ [Toast_invalid_price]\<rparr>
      | Some price \<Rightarrow>
          if blocked st p then p
          else p\<lparr>op_placing := Some (button_key side ot oc),
            op_sent := op_sent p @ [\<lparr>pq_orderId = ''manual-'' @ opt_or (ss_activeMarketKey st) asset @ ''-'' @ button_key side ot oc @ ''-'' @ rat_string now,
              pq_asset = asset, pq_direction = outcome_direction oc, pq_side = side, pq_marketKey = ss_activeMarketKey st,
              pq_orderType = ot, pq_size = order_size (op_size p), pq_price = price, pq_partial_exit = False\<rparr>],
            op_waiting := Some (to_upper (side_word side @ '' '' @ type_word ot @ '' '' @ outcome_text oc), price, op_size p, ''Order failed'')\<rparr>)"

definition exit_size :: "outcome \<Rightarrow> nat \<Rightarrow> terminal_state \<Rightarrow> jsnum" where
  "exit_size oc pct st = js_round (js_div (js_mul (outcome_shares oc st) (Fin (of_nat pct))) (Fin 100))"

definition quickExit :: "rat \<Rightarrow> string \<Rightarrow> terminal_state \<Rightarrow> outcome \<Rightarrow> nat \<Rightarrow> order_panel \<Rightarrow> order_panel" where
  "quickExit now asset st oc pct p =
     (if js_le (exit_size oc pct st) (Fin 0) then p
      else (let n = rat_string (of_nat pct); key = ''quick-exit-'' @ outcome_text oc @ ''-'' @ n; price = marketPrice Sell oc st
        in p\<lparr>op_placing := Some key,
          op_sent := op_sent p @ [\<lparr>pq_orderId = ''manual-'' @ opt_or (ss_activeMarketKey st) asset @ ''-'' @ key @ ''-'' @ rat_string now,
            pq_asset = asset, pq_direction = outcome_direction oc, pq_side = Sell, pq_marketKey = ss_activeMarketKey st,
            pq_orderType = Market, pq_size = exit_size oc pct st, pq_price = price, pq_partial_exit = (pct < 100)\<rparr>],
          op_waiting := Some (''EXIT '' @ n @ ''% '' @ to_upper (outcome_text oc), price, jsnum_string (exit_size oc pct st), ''Exit failed'')\<rparr>))"

text \<open>Reading the error of a payload that is \<open>null\<close> throws, like a request that does not get through.\<close>

definition panel_answered :: "answer \<Rightarrow> order_panel \<Rightarrow> order_panel" where
  "panel_answered ans p =
     (case op_waiting p of
        None \<Rightarrow> p
      | Some (label, price, amount, failed) \<Rightarrow>
          p\<lparr>op_placing := None, op_waiting := None,
            op_toasts := op_toasts p @
              [case ans of
                 Unreachable m \<Rightarrow> Toast_network
               | Answered ok http data \<Rightarrow>
                   if ok then Toast_filled label price amount
                   else if is_nullish data then Toast_network
                   else Toast_error (js_nn [js_get data ''error'', JStr failed])]\<rparr>)"

text \<open>A click on a level of a book fills in the limit of its outcome and is taken out of the store.\<close>

definition take_book_click :: "terminal_state \<Rightarrow> order_panel \<Rightarrow> order_panel \<times> terminal_state" where
  "take_book_click st p =
     (case ss_bookClickPrice st of
        None \<Rightarrow> (p, st)
      | Some (oc, cents) \<Rightarrow>
          (case oc of Yes \<Rightarrow> p\<lparr>op_yesLimit := jsnum_string cents\<rparr> | No \<Rightarrow> p\<lparr>op_noLimit := jsnum_string cents\<rparr>, st\<lparr>ss_bookClickPrice := None\<rparr>))"

datatype panel_op =
    Market_seen
  | Rendered
  | Type_size string
  | Type_limit outcome string
  | Click_order trade_side sim_order_type outcome
  | Click_exit outcome nat
  | Order_answered answer
  | Book_clicked

text \<open>The percentages of the exit buttons; a button that is disabled does nothing.\<close>

definition EXIT_PCTS :: "nat list" where
  "EXIT_PCTS = [25, 50, 75, 100]"

fun form_event :: "rat \<Rightarrow> string \<Rightarrow> terminal_state \<Rightarrow> panel_op \<Rightarrow> order_panel \<Rightarrow> order_panel" where
  "form_event now asset st Market_seen p = p\<lparr>op_dead := isDeadzone now (panel_market st)\<rparr>"
| "form_event now asset st Rendered p = p"
| "form_event now asset st (Type_size t) p = p\<lparr>op_size := t\<rparr>"
| "form_event now asset st (Type_limit oc t) p = (case oc of Yes \<Rightarrow> p\<lparr>op_yesLimit := t\<rparr> | No \<Rightarrow> p\<lparr>op_noLimit := t\<rparr>)"
| "form_event now asset st (Click_order side ot oc) p =
     (if op_placing p \<noteq> None \<or> blocked st p then p else placeOrder now asset st side ot oc p)"
| "form_event now asset st (Click_exit oc pct) p =
     (if pct \<notin> set EXIT_PCTS \<or> js_le (outcome_shares oc st) (Fin 0) \<or> op_placing p \<noteq> None then p else quickExit now asset st oc pct p)"
| "form_event now asset st (Order_answered ans) p = panel_answered ans p"
| "form_event now asset st Book_clicked p = fst (take_book_click st p)"

text \<open>
  The form renders when its market object changes (\<open>Market_seen\<close>), when anything else it reads of the store changes or
  its parent renders (\<open>Rendered\<close>), when a book click is put into the store and taken out of it, and when an event
  changes its own state; this is when it reads the stored settings.
\<close>

definition own_state :: "order_panel \<Rightarrow> string \<times> string \<times> string \<times> string option" where
  "own_state p = (op_size p, op_yesLimit p, op_noLimit p, op_placing p)"

fun renders :: "terminal_state \<Rightarrow> panel_op \<Rightarrow> bool" where
  "renders st Market_seen = True"
| "renders st Rendered = True"
| "renders st Book_clicked = (ss_bookClickPrice st \<noteq> None)"
| "renders st op = False"

definition form_step :: "rat \<Rightarrow> string \<Rightarrow> slot \<Rightarrow> terminal_state \<Rightarrow> panel_op \<Rightarrow> order_panel \<Rightarrow> order_panel" where
  "form_step now asset raw st op p =
     (let p' = form_event now asset st op p
      in if renders st op \<or> own_state p' \<noteq> own_state p then p'\<lparr>op_max := maxPositions raw\<rparr> else p')"

definition form_run :: "string \<Rightarrow> (rat \<times> slot \<times> terminal_state \<times> panel_op) list \<Rightarrow> order_panel \<Rightarrow> order_panel" where
  "form_run asset evs p = foldl (\<lambda>p (now, raw, st, op). form_step now asset raw st op p) p evs"

section \<open>The table of fills and the quick sizes\<close>

definition by_newest :: "poly_tick \<Rightarrow> poly_tick \<Rightarrow> jsnum" where
  "by_newest a b = js_sub (pt_timestamp b) (pt_timestamp a)"

definition recentFills :: "poly_tick list \<Rightarrow> poly_tick list" where
  "recentFills fills = take 20 (js_sort by_newest fills)"

definition fmtDollar :: "jsnum \<Rightarrow> string" where
  "fmtDollar n =
     (if js_le (Fin 1000000) n then ''$'' @ to_fixed 1 (js_div n (Fin 1000000)) @ ''M''
      else if js_le (Fin 1000) n then ''$'' @ to_fixed 1 (js_div n (Fin 1000)) @ ''K''
      else ''$'' @ to_fixed 0 n)"

definition shares_text :: "terminal_state \<Rightarrow> string" where
  "shares_text st =
     (if js_le (Fin 1000) (sharesTotal st) then to_fixed 1 (js_div (sharesTotal st) (Fin 1000)) @ ''K'' else to_fixed 0 (sharesTotal st))"

definition pnl_text :: "jsnum \<Rightarrow> string" where
  "pnl_text x = (if js_le (Fin 0) x then ''+'' else '''') @ to_fixed 2 x"

definition QUICK_SIZES :: "string list" where
  "QUICK_SIZES = [''5'', ''10'', ''15'', ''25'', ''50'', ''100'', ''200'', ''300'', ''500'', ''1000'', ''10000'', ''30000'', ''100000'', ''240000'', ''500000'']"

section \<open>Lemmas\<close>

interpretation newest: key_comparator by_newest "is_fin \<circ> pt_timestamp" "\<lambda>f. - fin_val (pt_timestamp f)"
  by unfold_locales (auto simp: cmp_le_def by_newest_def is_fin_conv)

text \<open>The table shows at most twenty fills, the newest first.\<close>

lemma recent_fills_newest:
  assumes "\<forall>f \<in> set fills. is_fin (pt_timestamp f)"
  shows "length (recentFills fills) \<le> 20 \<and> set (recentFills fills) \<subseteq> set fills \<and>
    sorted (map (\<lambda>f. - fin_val (pt_timestamp f)) (recentFills fills))"
proof -
  have "sorted (map (\<lambda>f. - fin_val (pt_timestamp f)) (js_sort by_newest fills))" using assms by (intro newest.sort_sorted_key) simp
  moreover have "set (recentFills fills) \<subseteq> set fills" using set_take_subset [of 20 "js_sort by_newest fills"] by (simp add: recentFills_def)
  ultimately show ?thesis by (simp add: recentFills_def take_map [symmetric] sorted_wrt_take)
qed

fun is_answer :: "panel_toast \<Rightarrow> bool" where
  "is_answer Toast_invalid_price = False"
| "is_answer t = True"

definition form_ok :: "order_panel \<Rightarrow> bool" where
  "form_ok p = ((op_placing p = None) = (op_waiting p = None) \<and>
     length (filter is_answer (op_toasts p)) + (if op_waiting p = None then 0 else 1) = length (op_sent p))"

lemma place_ok: "form_ok p \<Longrightarrow> op_placing p = None \<Longrightarrow> form_ok (placeOrder now asset st side ot oc p)"
  by (auto simp: form_ok_def placeOrder_def split: option.split)

lemma exit_ok: "form_ok p \<Longrightarrow> op_placing p = None \<Longrightarrow> form_ok (quickExit now asset st oc pct p)"
  by (auto simp: form_ok_def quickExit_def Let_def)

lemma answer_ok: "form_ok p \<Longrightarrow> form_ok (panel_answered ans p)"
  by (auto simp: form_ok_def panel_answered_def split: option.splits answer.split)

lemma book_click_ok: "form_ok p \<Longrightarrow> form_ok (fst (take_book_click st p))"
  by (auto simp: form_ok_def take_book_click_def split: option.split outcome.split)

lemma form_event_ok: "form_ok p \<Longrightarrow> form_ok (form_event now asset st op p)"
proof (cases op)
  case (Type_limit oc t)
  then show "form_ok p \<Longrightarrow> form_ok (form_event now asset st op p)" by (cases oc) (simp_all add: form_ok_def)
qed (simp_all add: place_ok exit_ok answer_ok book_click_ok, simp_all add: form_ok_def)

lemma form_ok_max: "form_ok (p\<lparr>op_max := m\<rparr>) = form_ok p"
  by (simp add: form_ok_def)

lemma form_step_ok: "form_ok p \<Longrightarrow> form_ok (form_step now asset raw st op p)"
  using form_event_ok [of p now asset st op] by (simp add: form_step_def Let_def form_ok_max)

lemma form_run_ok: "form_ok p \<Longrightarrow> form_ok (form_run asset evs p)"
  by (induction evs arbitrary: p) (auto simp: form_run_def form_step_ok)

lemma limit_in_range: "limitPrice oc p = Some x \<Longrightarrow> \<exists>q. x = Fin q \<and> 0 < q \<and> q < 1"
proof -
  assume *: "limitPrice oc p = Some x"
  define v where "v = js_parse_float (case oc of Yes \<Rightarrow> op_yesLimit p | No \<Rightarrow> op_noLimit p)"
  from * have "v \<noteq> NaN" "\<not> js_le v (Fin 0)" "\<not> js_le (Fin 100) v" "x = js_div v (Fin 100)"
    by (auto simp: limitPrice_def Let_def v_def split: if_split_asm)
  then show ?thesis by (cases v) (auto simp: js_le_def intro!: exI [of _ "fin_val x"])
qed

text \<open>An order that a button sends, and the round of an exit.\<close>

lemma place_sends:
  assumes "op_sent (placeOrder now asset st side ot oc p) \<noteq> op_sent p"
  shows "\<exists>x. op_sent (placeOrder now asset st side ot oc p) = op_sent p @ [x] \<and> pq_side x = side \<and> pq_orderType x = ot \<and>
    pq_direction x = outcome_direction oc \<and> pq_size x = order_size (op_size p) \<and> \<not> pq_partial_exit x \<and>
    pq_marketKey x = ss_activeMarketKey st \<and> (ot = Market \<longrightarrow> pq_price x = marketPrice side oc st) \<and>
    (ot = Limit \<longrightarrow> limitPrice oc p = Some (pq_price x) \<and> (\<exists>q. pq_price x = Fin q \<and> 0 < q \<and> q < 1))"
  using assms limit_in_range [of oc p]
  by (cases ot) (auto simp: placeOrder_def split: option.splits if_split_asm)

lemma round_half: "\<bar>of_int \<lfloor>q + 1 / 2\<rfloor> - q\<bar> \<le> 1 / 2" for q :: rat
  by linarith

lemma exit_sends:
  assumes "op_sent (quickExit now asset st oc pct p) \<noteq> op_sent p"
  shows "\<exists>x. op_sent (quickExit now asset st oc pct p) = op_sent p @ [x] \<and> pq_side x = Sell \<and> pq_orderType x = Market \<and>
    pq_direction x = outcome_direction oc \<and> pq_size x = exit_size oc pct st \<and> \<not> js_le (pq_size x) (Fin 0) \<and>
    pq_partial_exit x = (pct < 100) \<and> pq_price x = marketPrice Sell oc st"
  using assms by (auto simp: quickExit_def Let_def split: if_split_asm)

lemma max_after_edit:
  assumes "page_ok g" "js_parse t = Fin n"
  defines "g' \<equiv> settings_step (Edit_setting (Number_row ''manualMaxOrders'' t)) g"
  shows "maxPositions (sg_storage g') = Fin n \<and> map_of (last (sg_posted g')) ''manual_max_concurrent'' = Some (JNum (Fin n))"
proof -
  have row: "''manualMaxOrders'' \<in> set (map fst NUMBER_ROWS)" unfolding NUMBER_ROWS_def by simp
  have "page_ok g'" unfolding g'_def by (intro settings_step_ok assms)
  moreover have "js_get (sg_s g') ''manualMaxOrders'' = JNum (Fin n)"
    unfolding g'_def edit_step using row assms(2)
    by (simp add: set_settings_def settings_effect_def get_partial del: edit_partial.simps) (simp add: NumInput_def field_text_def)
  ultimately show ?thesis by (simp add: page_ok_def maxPositions_def load_stored risk_limits_def)
qed

lemma max_kept:
  assumes "page_ok g" "\<forall>t. e \<noteq> Number_row ''manualMaxOrders'' t"
  shows "maxPositions (sg_storage (settings_step (Edit_setting e) g)) = maxPositions (sg_storage g)"
proof -
  have no: "''manualMaxOrders'' \<notin> set TOGGLE_ROWS" unfolding TOGGLE_ROWS_def by simp
  have "js_get (sg_s (settings_step (Edit_setting e) g)) ''manualMaxOrders'' = js_get (sg_s g) ''manualMaxOrders''"
    unfolding edit_step using no assms(2)
    by (cases e) (auto simp: set_settings_def settings_effect_def get_partial simp del: edit_partial.simps, auto)
  moreover have "page_ok (settings_step (Edit_setting e) g)" by (intro settings_step_ok assms)
  ultimately show ?thesis using assms(1) by (simp add: page_ok_def maxPositions_def load_stored)
qed

text \<open>An event uses the limit of the last render; the stored one is the limit of the render that follows the event.\<close>

lemma step_by_max:
  "maxPositions raw = maxPositions raw' \<Longrightarrow> form_step now asset raw st op p = form_step now asset raw' st op p"
  by (simp add: form_step_def Let_def)

lemma step_sent: "op_sent (form_step now asset raw st op p) = op_sent (form_event now asset st op p)"
  by (simp add: form_step_def Let_def)

lemma event_max: "op_max (form_event now asset st op p) = op_max p"
  by (cases op) (auto simp: placeOrder_def quickExit_def panel_answered_def take_book_click_def Let_def
      split: option.split outcome.split answer.split)

lemma step_max: "op_max (form_step now asset raw st op p) \<in> {op_max p, maxPositions raw}"
  by (simp add: form_step_def Let_def event_max)

lemma full_sends_nothing:
  assumes "js_le (op_max p) (posCount st)"
  shows "form_event now asset st (Click_order side ot oc) p = p"
  using assms by (simp add: blocked_def)

text \<open>A form that knows the limit keeps it through every event, as long as storage has it.\<close>

lemma run_keeps_max:
  assumes "op_max p = maxPositions raw" "\<forall>(now, raw', st, op) \<in> set evs. maxPositions raw' = maxPositions raw"
  shows "op_max (form_run asset evs p) = maxPositions raw"
  using assms
proof (induction evs arbitrary: p)
  case (Cons ev evs)
  obtain now raw' st op where ev: "ev = (now, raw', st, op)" by (cases ev)
  have "op_max (form_step now asset raw' st op p) = maxPositions raw"
    using step_max [of now asset raw' st op p] Cons.prems by (auto simp: ev)
  with Cons show ?case by (auto simp: form_run_def ev)
qed (simp add: form_run_def)

section \<open>Properties\<close>

text \<open>
  Whatever is typed, clicked and answered, at most one request of the form is under way, the buttons are closed exactly
  while it is, and every order that was sent has got exactly one message once it is answered.
\<close>

theorem order_form_invariant:
  fixes evs :: "(rat \<times> slot \<times> terminal_state \<times> panel_op) list" and asset :: string and now :: rat and st :: terminal_state
    and raw :: slot
  defines "p \<equiv> form_run asset evs (new_panel now raw st)"
  shows "(op_placing p = None) = (op_waiting p = None) \<and>
    length (filter is_answer (op_toasts p)) + (if op_waiting p = None then 0 else 1) = length (op_sent p)"
proof -
  have "form_ok (new_panel now raw st)" by (simp add: form_ok_def new_panel_def)
  from form_run_ok [OF this, of asset evs] show ?thesis unfolding p_def by (simp add: form_ok_def)
qed

text \<open>
  C39. What the form sends.  A step sends at most one order and only when none is under way.  It is that of a clicked order
  button, of its side, type, outcome and typed size, in the active market, at the market price of its side or at the
  typed limit, which lies strictly between 0 and 1, when the metrics, if there are any, report neither daily limit
  reached, fewer positions are open than the limit read at the last render and the dead zone the form remembers is over;
  or that of an exit button, a sale at the bid of a positive size within half a share of its part of the position.  These
  are the only conditions: of the limits on the settings page the form checks the number of positions alone, and the
  daily limits as the metrics report them.
\<close>

theorem order_form_sends:
  assumes "op_sent (form_step now asset raw st op p) \<noteq> op_sent p"
  shows "op_placing p = None \<and> (\<exists>x. op_sent (form_step now asset raw st op p) = op_sent p @ [x] \<and>
    ((\<exists>side ot oc. op = Click_order side ot oc \<and> pq_side x = side \<and> pq_orderType x = ot \<and> pq_direction x = outcome_direction oc \<and>
        pq_size x = order_size (op_size p) \<and> pq_marketKey x = ss_activeMarketKey st \<and>
        (ot = Market \<longrightarrow> pq_price x = marketPrice side oc st) \<and>
        (ot = Limit \<longrightarrow> limitPrice oc p = Some (pq_price x) \<and> (\<exists>q. pq_price x = Fin q \<and> 0 < q \<and> q < 1)) \<and>
        \<not> js_le (op_max p) (posCount st) \<and> \<not> op_dead p \<and>
        (\<forall>m \<in> set_option (ss_metrics st). \<not> dm_at_trade_limit m \<and> \<not> dm_at_loss_limit m)) \<or>
     (\<exists>oc pct. op = Click_exit oc pct \<and> pct \<in> set EXIT_PCTS \<and> pq_side x = Sell \<and> pq_direction x = outcome_direction oc \<and>
        pq_price x = marketPrice Sell oc st \<and> pq_partial_exit x = (pct < 100) \<and> \<not> js_le (pq_size x) (Fin 0) \<and>
        (\<forall>q. outcome_shares oc st = Fin q \<longrightarrow> (\<exists>n. pq_size x = Fin n \<and> \<bar>n - q * of_nat pct / 100\<bar> \<le> 1 / 2)))))"
proof (cases op)
  case (Click_order side ot oc)
  with assms have "op_placing p = None" "\<not> blocked st p" and *: "op_sent (placeOrder now asset st side ot oc p) \<noteq> op_sent p"
    by (auto simp: step_sent split: if_split_asm)
  with place_sends [OF *] show ?thesis by (auto simp: Click_order step_sent blocked_def split: option.splits)
next
  case (Click_exit oc pct)
  with assms have "op_placing p = None" "pct \<in> set EXIT_PCTS" "\<not> js_le (outcome_shares oc st) (Fin 0)"
    and *: "op_sent (quickExit now asset st oc pct p) \<noteq> op_sent p"
    by (auto simp: step_sent split: if_split_asm)
  moreover have "\<exists>n. exit_size oc pct st = Fin n \<and> \<bar>n - q * of_nat pct / 100\<bar> \<le> 1 / 2" if "outcome_shares oc st = Fin q" for q
    using round_half [of "q * of_nat pct / 100"] by (simp add: exit_size_def that)
  ultimately show ?thesis using exit_sends [OF *] by (auto simp: Click_exit step_sent)
qed (use assms in \<open>auto simp: step_sent panel_answered_def take_book_click_def split: option.splits outcome.splits\<close>)

text \<open>
  C34. The settings page and the form.  A limit of positions typed on the settings page is at once in storage and sent to
  the service, but the form keeps the limit of its last render: what an event sends does not depend on storage.  From the
  next render on the typed limit is the form's for as long as the settings are left alone, and with that many positions
  open no order button sends anything, whatever happens in between.  An edit of any other setting leaves the form
  exactly as it would have been, the dollar and daily limits, the confirmation and the trading mode included.
\<close>

theorem settings_reach_form:
  fixes ops :: "settings_op list" and posted :: "(string \<times> jsval) list list"
    and evs :: "(rat \<times> terminal_state \<times> panel_op) list" and p :: order_panel and asset :: string and rendered_at :: rat
  assumes "readable raw" "js_parse t = Fin n" "posCount st = Fin k" "n \<le> k" "\<forall>t. e \<noteq> Number_row ''manualMaxOrders'' t"
    "renders rendered_st rendered"
  defines "g \<equiv> settings_step (Edit_setting (Number_row ''manualMaxOrders'' t)) (settings_run ops (page_loaded raw posted))"
  defines "p' \<equiv> form_step rendered_at asset (sg_storage g) rendered_st rendered p"
  defines "p'' \<equiv> form_run asset (map (\<lambda>(now, st, op). (now, sg_storage g, st, op)) evs) p'"
  shows "maxPositions (sg_storage g) = Fin n \<and>
    map_of (last (sg_posted g)) ''manual_max_concurrent'' = Some (JNum (Fin n)) \<and>
    (\<forall>raw' st op. op_sent (form_step now asset (sg_storage g) st op p) = op_sent (form_step now asset raw' st op p)) \<and>
    op_max p'' = Fin n \<and>
    op_sent (form_step now asset later_raw st (Click_order side ot oc) p'') = op_sent p'' \<and>
    (\<forall>st op q. form_step now asset (sg_storage (settings_step (Edit_setting e) g)) st op q = form_step now asset (sg_storage g) st op q)"
proof -
  have run: "page_ok (settings_run ops (page_loaded raw posted))" by (intro settings_run_ok loaded_ok assms(1))
  then have ok: "page_ok g" unfolding g_def by (rule settings_step_ok)
  from max_after_edit [OF run assms(2)] have m: "maxPositions (sg_storage g) = Fin n"
    and "map_of (last (sg_posted g)) ''manual_max_concurrent'' = Some (JNum (Fin n))" unfolding g_def by auto
  moreover have "op_max p' = maxPositions (sg_storage g)" using assms(6) by (simp add: p'_def form_step_def Let_def)
  then have max: "op_max p'' = Fin n" unfolding p''_def by (subst run_keeps_max [of _ "sg_storage g"]) (auto simp: m)
  moreover have "op_sent (form_step now asset later_raw st (Click_order side ot oc) p'') = op_sent p''"
    using full_sends_nothing [of p'' st] assms(3,4) by (simp add: step_sent max)
  ultimately show ?thesis using step_by_max [OF max_kept [OF ok assms(5)]] by (simp add: step_sent)
qed

definition busy_store :: terminal_state where
  "busy_store = initial_state\<lparr>ss_positions :=
     replicate 3 \<lparr>ps_position_id = ''p'', ps_asset = ''BTC'', ps_direction = ''UP'', ps_entry_price = Fin (1 / 2), ps_size = Fin (6 / 10),
       ps_entry_time = Fin 0, ps_expiry_secs = Fin 0, ps_unrealized_pnl = Fin 0, ps_current_price = Fin (1 / 2),
       ps_partial_exit_done = False, ps_is_copy = False, ps_master_wallet = None\<rparr>\<rparr>"

theorem order_form_invariant_witness:
  "length (op_sent (form_run ''BTC'' [(1, Missing, busy_store, Click_order Buy Market Yes), (2, Missing, busy_store, Click_exit Yes 50)]
     (new_panel 0 Missing busy_store))) = 1"
proof -
  let ?p = "form_run ''BTC'' [(1, Missing, busy_store, Click_order Buy Market Yes), (2, Missing, busy_store, Click_exit Yes 50)] (new_panel 0 Missing busy_store)"
  have "op_waiting ?p \<noteq> None" "op_toasts ?p = []" by code_simp+
  with order_form_invariant [of "''BTC''" "[(1, Missing, busy_store, Click_order Buy Market Yes), (2, Missing, busy_store, Click_exit Yes 50)]" 0 Missing busy_store]
  show ?thesis by simp
qed

theorem order_form_sends_witness:
  "\<exists>x. op_sent (form_step 1 ''BTC'' Missing busy_store (Click_exit Yes 100) (new_panel 0 Missing busy_store)) = [x] \<and> pq_side x = Sell"
proof -
  have "op_sent (form_step 1 ''BTC'' Missing busy_store (Click_exit Yes 100) (new_panel 0 Missing busy_store)) \<noteq> op_sent (new_panel 0 Missing busy_store)"
    by code_simp
  from order_form_sends [OF this] show ?thesis by (auto simp: new_panel_def)
qed

text \<open>Two positions allowed and three open: the form that has not rendered since still buys, and after a render it does not.\<close>

theorem settings_reach_form_witness:
  "let g = settings_step (Edit_setting (Number_row ''manualMaxOrders'' ''2'')) (settings_run [] (page_loaded Missing []));
       p = new_panel 0 Missing busy_store; q = form_step 1 ''BTC'' (sg_storage g) busy_store Rendered p;
       click = Click_order Buy Market Yes
   in op_sent (form_step 1 ''BTC'' (sg_storage g) busy_store click p) \<noteq> [] \<and> op_max q = Fin 2 \<and>
      op_sent (form_step 2 ''BTC'' (sg_storage g) busy_store click q) = []"
proof -
  define g where "g = settings_step (Edit_setting (Number_row ''manualMaxOrders'' ''2'')) (settings_run [] (page_loaded Missing []))"
  let ?p = "new_panel 0 Missing busy_store"
  have "readable Missing" by (simp add: readable_def)
  moreover have "js_parse ''2'' = Fin 2" "posCount busy_store = Fin 3" by code_simp+
  moreover have "renders busy_store Rendered" by simp
  ultimately have *: "\<And>st op. op_sent (form_step 1 ''BTC'' (sg_storage g) st op ?p) = op_sent (form_step 1 ''BTC'' Missing st op ?p)"
    "op_max (form_step 1 ''BTC'' (sg_storage g) busy_store Rendered ?p) = Fin 2"
    "op_sent (form_step 2 ''BTC'' (sg_storage g) busy_store (Click_order Buy Market Yes) (form_step 1 ''BTC'' (sg_storage g) busy_store Rendered ?p))
      = op_sent (form_step 1 ''BTC'' (sg_storage g) busy_store Rendered ?p)"
    using settings_reach_form [where raw = Missing and t = "''2''" and n = "2" and st = busy_store and k = "3" and e = "Pick_mode False"
        and rendered_st = busy_store and rendered = Rendered and ops = "[]" and posted = "[]" and evs = "[]" and p = "?p" and asset = "''BTC''"
        and rendered_at = "1" and now = "1" and later_raw = "sg_storage g" and side = Buy and ot = Market and oc = Yes]
      settings_reach_form [where raw = Missing and t = "''2''" and n = "2" and st = busy_store and k = "3" and e = "Pick_mode False"
        and rendered_st = busy_store and rendered = Rendered and ops = "[]" and posted = "[]" and evs = "[]" and p = "?p" and asset = "''BTC''"
        and rendered_at = "1" and now = "2" and later_raw = "sg_storage g" and side = Buy and ot = Market and oc = Yes]
    unfolding g_def [symmetric] by (simp_all add: form_run_def)
  moreover have "op_sent (form_step 1 ''BTC'' Missing busy_store (Click_order Buy Market Yes) ?p) \<noteq> []" by code_simp
  ultimately show ?thesis unfolding Let_def g_def [symmetric] by (simp add: step_sent) (simp add: new_panel_def)
qed

text \<open>
  A size that is empty, zero or no number is sent as a hundred dollars, and a negative one is sent as it is; the bounds
  of the field do not hold it back.
\<close>

lemma size_by_default:
  "order_size '''' = Fin 100 \<and> order_size ''0'' = Fin 100 \<and> order_size ''x'' = Fin 100 \<and> order_size ''-5'' = Fin (- 5)"
  by code_simp

text \<open>
  An exit sums the positions of every market but goes to the active one, and a whole position of a fractional size can
  be sold for more than it holds.
\<close>

lemma exit_of_all_markets: "exit_size oc pct (st\<lparr>ss_activeMarketKey := k\<rparr>) = exit_size oc pct st"
  by (simp add: exit_size_def outcome_shares_def side_positions_def)

lemma exit_sells_more: "outcome_shares Yes busy_store = Fin (18 / 10) \<and> exit_size Yes 100 busy_store = Fin 2"
  by code_simp

text \<open>An exit button works at the daily limits, at the limit of positions and in the dead zone.\<close>

lemma exit_ignores_block: "form_event now asset (st\<lparr>ss_metrics := m\<rparr>) (Click_exit oc pct) (p\<lparr>op_max := n, op_dead := d\<rparr>) =
    (form_event now asset st (Click_exit oc pct) p)\<lparr>op_max := n, op_dead := d\<rparr>"
  by (simp add: quickExit_def Let_def exit_size_def outcome_shares_def side_positions_def marketPrice_def yesBid_def yesAsk_def noBid_def noAsk_def
      live_or_half_def panel_book_def panel_market_def split: outcome.split option.split trade_side.split)

text \<open>
  The dead zone of a market with an expiry is its first minute (of five) or its first three (of fifteen).  The form
  decides on it when the market changes and keeps the answer as time goes by.
\<close>

lemma dead_zone_exact:
  assumes "mk_expiry_ts m = Fin e" "e \<noteq> 0" "mk_timeframe m = TF_5min \<or> mk_timeframe m = TF_15min"
  shows "isDeadzone now (Some m) \<longleftrightarrow> e - form_period_ms (mk_timeframe m) \<le> now \<and> now < e - form_period_ms (mk_timeframe m) + dead_ms (mk_timeframe m)"
  using assms by (auto simp: isDeadzone_def period_start_def Let_def)

lemma dead_zone_remembered: "op \<noteq> Market_seen \<Longrightarrow> op_dead (form_step now asset raw st op p) = op_dead p"
  by (cases op) (auto simp: form_step_def placeOrder_def quickExit_def panel_answered_def take_book_click_def Let_def split: option.split outcome.split answer.split)

text \<open>Buying both outcomes costs one dollar and the spread, selling both brings in one dollar less the spread.\<close>

lemma both_outcomes:
  assumes "yesBid st = Fin b" "yesAsk st = Fin a"
  shows "js_add (marketPrice Buy Yes st) (marketPrice Buy No st) = Fin (1 + (a - b)) \<and>
    js_add (marketPrice Sell Yes st) (marketPrice Sell No st) = Fin (1 - (a - b))"
  using assms by (simp add: marketPrice_def noAsk_def noBid_def)

end
