(* ===== verification/Spec2Isabelle.thy ===== *)
theory Spec2Isabelle
  imports FuturesPnl Bars MarketDisplay GatewayBook Sync Algos Transport Quotes TradeAnalytics Studies
    Windows Workspace Deployment Ladder LadderOrders Executions ChartPanels Paper Dom Alerts Portal OrderPanel
begin

text \<open>
  A verification development of the Cerious terminal, the TypeScript client under
  \<open>apps/terminal/src\<close>.

  The program.  A browser terminal shows futures markets, takes feed messages over a web socket and a
  local event stream, keeps everything in one store, and lets the user arrange windows (charts, depth
  ladders, algo managers) on a desktop that is saved to browser storage.  The parts interact as
  follows.  \<open>hooks/useWebSocket.ts\<close> turns frames into actions of the store (\<open>store/index.ts\<close>);
  \<open>hooks/useBroadcastSync.ts\<close> mirrors selections to other windows; \<open>hooks/useGatewayEventBook.ts\<close>
  keeps a price-level book of its own from the gateway's packets; \<open>utils/\<close> holds the numerical helpers
  the views share; \<open>components/WorkspaceDesktop.tsx\<close> holds the desktop, its persistence and the
  algo library.

  The theories, bottom up.
  \<^item> JsNum, JsText, JsValue: the prelude.  JavaScript numbers (exact rationals with NaN and the
    infinities), strings, the conversions between them, untyped values, dictionaries, stable sorting
    with a comparator, results that may be a thrown error.
  \<^item> Types: the data model, \<open>types.ts\<close>.
  \<^item> FuturesPnl, Bars, MarketDisplay: \<open>utils/futuresPnl.ts\<close>, \<open>utils/bars.ts\<close>,
    \<open>utils/marketDisplay.ts\<close>.
  \<^item> GatewayBook: \<open>hooks/useGatewayEventBook.ts\<close>, with the refinement of a packet to stores and
    erasures in a map from prices to levels.
  \<^item> Exchange, Execution, History, Store, StoreProps: \<open>store/index.ts\<close>.  Exchange normalises orders,
    positions and fills; Execution marks positions to prices; History is the bounded series behind one
    locale; Store holds the state record and one definition per action; StoreProps the reachable states
    and their invariants.
  \<^item> Sync: the two hooks that feed the store, the reconnecting socket as a step relation.
  \<^item> Transport: \<open>platform/transport.ts\<close>, the rewriting of requests and sockets to a configured base.
  \<^item> Desk, Algos: the declarations, settings and algo library of \<open>components/WorkspaceDesktop.tsx\<close>.
  \<^item> JsMath: square roots, remainders and property order.  Csv, Format: the CSV reader and writer and
    the display of numbers of the desktop.
  \<^item> Quotes: statistics of series, the adapters of CME books and trades, and the subscription that
    writes them to the store.
  \<^item> TradeAnalytics: the import of fills, the equity curve, the risk metrics and the report.
  \<^item> Studies: the chart's candles, its forming candle, regression channel, average-true-range bands
    and volume at price.
  \<^item> Windows: the windows of the desktop and its canvas: moving, resizing, stacking, cloning, adding and
    panning, as a step function, and the desktops that sessions reach which save, load and recover window lists.
  \<^item> Workspace: the storage slots, the repair of what is read from them, named workspaces, backups, the
    effects of the session and the recovery of workspaces from the server.
  \<^item> Deployment: the algo manager: the bands an algo is pegged to, its layered orders, the selection of
    rows, deployment, and kill all as a click and a later answer, which uses the algos as they were at the click.
  \<^item> Ladder: the depth ladder: the stream of books and trades of its product, the aggregation of the book to
    rows, the market model, the anchor, the rows and the columns.  LadderOrders: its order handlers with the
    requests they send, what the answers change, and the reachable states.
  \<^item> Grouping: rows collected under a key and the contract under which totals add up.  Executions: the rows of
    orders, fills and positions, their filters and cancel buttons, the totals, the position monitor and the
    window of positions and orders.
  \<^item> Profile, ChartPanels: the candle charts of \<open>components/Chart.tsx\<close> and \<open>components/MultiChart.tsx\<close>: the volume
    profile with its value area, the merged candles, the forming candle, the bands, the reference price and the
    commands sent to the chart library.
  \<^item> Paper: the simulated trading of \<open>components/PaperTrade.tsx\<close>: fees, positions, thresholds, the lifetime
    statistics and their storage, the backtest and the declarative rules it follows.
  \<^item> Dom: the ladder for binary outcomes, \<open>components/OrderBook2.tsx\<close>: settings, rows, ticket and one-click orders with
    their limits, working orders and the effects, as a step relation over the ladder and the store.
  \<^item> Markets: the polling hooks, product options, the selector and the product tree, the market data table with its
    columns, the generic ladder and the liquidity map of the desktop.  Alerts: the alert manager, reading of rules,
    the effect that fires them, the channels of delivery and the edits.
  \<^item> Portal: the gate of \<open>components/PortalGate.tsx\<close>: stored session, login form, validation with its retries,
    automatic login and lock, as steps over events.  Its attempts are bounded by ninety, a constant of the code.
  \<^item> Settings: \<open>components/Settings.tsx\<close>: the stored settings, every control, the effect that stores and posts them,
    and the connection to QuantConnect.  OrderPanel: the order form of \<open>components/OrderPanel.tsx\<close>, which reads those
    settings from storage when it renders and at no other moment; its last property joins the two.

  Abstractions.  Rounding of finite numbers to 53 bits is not modelled (finite arithmetic is exact); a
  square root is taken to 52 binary places, rounded down.
  Functions of the environment are parameters: \<open>Date.parse\<close>, \<open>toISOString\<close>, \<open>localeCompare\<close>, the clock, the offset
  of local time, the height of the ladder's body, the answers of the services and the exceptions of the chart
  library.  Storage is a map from slots to texts
  or parsed values.  The clock is arbitrary, and what needs identifiers stamped at different milliseconds (the windows of
  the desktop, the orders of the outcome ladder) says so: the reachability of both carries whether they were.  A null number in a CME book is read as an absent one.  Records keep the properties the code reads; a
  property the code only copies along is not kept.  Loops are structural recursions or, in the value area of
  Profile and the square root of JsMath, well-founded ones with a measure, so no fuel is used.

  What is shown.  Reachable states keep their bounds and, where a sequence number or distinct stamps give them,
  their identifiers (store, gateway book, windows, order ladders, paper trading, settings, order form): the histories of
  the store stay within their caps or the longest list a message brings whole, and the lifetime statistics of paper
  trading are finite as long as prices lie strictly between 0 and 100.  Optimised or incremental code agrees with a
  reference (gateway book, buffered frames, equity curve, regression, backtest, alerts); normalising what was read from
  storage or the service again changes nothing (orders and positions, windows and market rows).  Orders of the algos and
  forms stay on their grid, are sent once, and cross exactly when the bands do; waiting ends (reconnection, value area,
  portal).  Where the code does otherwise than it means to, a theorem shows the behaviour it has: property order of
  whole-number prices, windows that diverge on a roll-over, kill all with algos captured at the click, limits that the
  ladder and the order form do not look at.

  Not modelled: the rendering of the components, styling, chart drawing, audio and network I/O, and the panels
  of the older terminal that only show store fields.
\<close>

end
